(* ===== verification/Prelude.thy ===== *)
theory Prelude
  imports Complex_Main "HOL-Library.Multiset"
begin

text \<open>
  Shared material of the development: the ECMAScript \<open>Map\<close> with its insertion order, the
  interface its clients rely on, stable sorting as \<open>Array.prototype.sort\<close> performs it, and
  the sequencing of computations that may throw.
\<close>

named_theorems jsmap "the laws of insertion-ordered maps"

section \<open>Insertion-ordered maps\<close>

text \<open>
  A JavaScript \<open>Map\<close> remembers the order in which keys were first inserted. Overwriting a
  present key keeps its place; deleting and setting again moves it to the end. The association
  list below is in iteration order, so \<open>keys().next()\<close> is its head.
\<close>

type_synonym ('k, 'v) js_map = "('k \<times> 'v) list"

definition jget :: "('k, 'v) js_map \<Rightarrow> 'k \<Rightarrow> 'v option" where
  "jget m k = map_of m k"

fun jset :: "('k, 'v) js_map \<Rightarrow> 'k \<Rightarrow> 'v \<Rightarrow> ('k, 'v) js_map" where
  "jset [] k v = [(k, v)]"
| "jset ((a, b) # m) k v = (if a = k then (k, v) # m else (a, b) # jset m k v)"

definition jdel :: "('k, 'v) js_map \<Rightarrow> 'k \<Rightarrow> ('k, 'v) js_map" where
  "jdel m k = filter (\<lambda>p. fst p \<noteq> k) m"

definition jhas :: "('k, 'v) js_map \<Rightarrow> 'k \<Rightarrow> bool" where
  "jhas m k = List.member (map fst m) k"

definition jkeys :: "('k, 'v) js_map \<Rightarrow> 'k list" where
  "jkeys m = map fst m"

definition jwf :: "('k, 'v) js_map \<Rightarrow> bool" where
  "jwf m = distinct (map fst m)"

lemma jhas_iff [jsmap]: "jhas m k \<longleftrightarrow> k \<in> set (jkeys m)"
  by (simp add: jhas_def jkeys_def)

lemma jget_set [jsmap]: "jget (jset m k v) k' = (if k' = k then Some v else jget m k')"
  by (induction m) (auto simp: jget_def)

lemma jget_del [jsmap]: "jget (jdel m k) k' = (if k' = k then None else jget m k')"
  by (induction m) (auto simp: jget_def jdel_def)

lemma jget_Nil [simp]: "jget [] k = None"
  by (simp add: jget_def)

lemma jkeys_Nil [simp]: "jkeys [] = []"
  by (simp add: jkeys_def)

lemma jkeys_jget: "set (jkeys m) = {k. jget m k \<noteq> None}"
  by (auto simp: jkeys_def jget_def map_of_eq_None_iff)

lemma jkeys_set [jsmap]:
  "jkeys (jset m k v) = (if k \<in> set (jkeys m) then jkeys m else jkeys m @ [k])"
proof (induction m)
  case Nil
  then show ?case by (simp add: jkeys_def)
next
  case (Cons p m)
  then show ?case by (cases p) (auto simp: jkeys_def)
qed

lemma jkeys_del [jsmap]: "jkeys (jdel m k) = filter (\<lambda>x. x \<noteq> k) (jkeys m)"
  by (induction m) (auto simp: jkeys_def jdel_def)

lemma jwf_keys: "jwf m \<longleftrightarrow> distinct (jkeys m)"
  by (simp add: jwf_def jkeys_def)

lemma length_jkeys [simp]: "length (jkeys m) = length m"
  by (simp add: jkeys_def)

lemma list_all_jset: "list_all P m \<Longrightarrow> P (k, v) \<Longrightarrow> list_all P (jset m k v)"
  by (induction m k v rule: jset.induct) auto

lemma list_all_jdel: "list_all P m \<Longrightarrow> list_all P (jdel m k)"
  by (auto simp: jdel_def list_all_iff)

lemma jget_list_all: "list_all P m \<Longrightarrow> jget m k = Some v \<Longrightarrow> P (k, v)"
  by (auto simp: jget_def list_all_iff dest: map_of_SomeD)

lemma jkeys_set_new: "k \<notin> set (jkeys m) \<Longrightarrow> jkeys (jset m k v) = jkeys m @ [k]"
  by (simp add: jkeys_set)

lemma filter_neq_id: "k \<notin> set xs \<Longrightarrow> filter (\<lambda>x. x \<noteq> k) xs = xs"
  by (induction xs) auto

lemma mset_removed: "distinct xs \<Longrightarrow> x \<in> set xs \<Longrightarrow> mset xs = mset (filter (\<lambda>y. y \<noteq> x) xs) + {#x#}"
  by (induction xs) (auto simp: filter_neq_id simp del: mset_filter)

lemma jwf_Nil [simp]: "jwf []"
  by (simp add: jwf_def)

lemma jwf_filter: "jwf m \<Longrightarrow> jwf (filter P m)"
  by (induction m) (auto simp: jwf_def)

lemma find_SomeD: "find P xs = Some x \<Longrightarrow> x \<in> set xs \<and> P x"
  by (induction xs) (auto split: if_splits)

lemma find_exists: "x \<in> set xs \<Longrightarrow> P x \<Longrightarrow> \<exists>y. find P xs = Some y"
  by (induction xs) auto

lemma find_none: "\<forall>x \<in> set xs. \<not> P x \<Longrightarrow> find P xs = None"
  by (induction xs) auto

lemma set_map_filter: "set (List.map_filter f xs) = {y. \<exists>x \<in> set xs. f x = Some y}"
  by (induction xs) (auto simp: List.map_filter_def)

lemma in_set_tl: "x \<in> set (tl xs) \<Longrightarrow> x \<in> set xs"
  by (cases xs) auto

lemma length_filter_neq: "k \<in> set xs \<Longrightarrow> length (filter (\<lambda>x. x \<noteq> k) xs) < length xs"
  by (rule length_filter_less) auto

lemma jget_filter:
  "jwf m \<Longrightarrow> jget (filter (\<lambda>(k, v). P k v) m) k =
     (case jget m k of None \<Rightarrow> None | Some v \<Rightarrow> if P k v then Some v else None)"
  by (induction m) (auto simp: jget_def jwf_def map_of_eq_None_iff image_iff split: option.split)

text \<open>
  The interface a client of such a map uses. Every component below that keeps a \<open>Map\<close> reads
  and writes it through these five operations only.
\<close>

locale ordered_store =
  fixes get :: "'m \<Rightarrow> 'k \<Rightarrow> 'v option"
    and put :: "'m \<Rightarrow> 'k \<Rightarrow> 'v \<Rightarrow> 'm"
    and del :: "'m \<Rightarrow> 'k \<Rightarrow> 'm"
    and keys :: "'m \<Rightarrow> 'k list"
    and invar :: "'m \<Rightarrow> bool"
  assumes get_put: "get (put m k v) k' = (if k' = k then Some v else get m k')"
    and get_del: "get (del m k) k' = (if k' = k then None else get m k')"
    and keys_get: "set (keys m) = {k. get m k \<noteq> None}"
    and keys_put: "keys (put m k v) = (if k \<in> set (keys m) then keys m else keys m @ [k])"
    and keys_del: "keys (del m k) = filter (\<lambda>x. x \<noteq> k) (keys m)"
    and invar_keys: "invar m = distinct (keys m)"
begin

lemma invar_put: "invar m \<Longrightarrow> invar (put m k v)"
  by (simp add: invar_keys keys_put)

lemma invar_del: "invar m \<Longrightarrow> invar (del m k)"
  by (simp add: invar_keys keys_del)

lemma keys_touch: "keys (put (del m k) k v) = filter (\<lambda>x. x \<noteq> k) (keys m) @ [k]"
  by (simp add: keys_put keys_del)

lemma invar_touch: "invar m \<Longrightarrow> invar (put (del m k) k v)"
  by (intro invar_put invar_del)

lemma get_touch: "get (put (del m k) k v) k' = (if k' = k then Some v else get m k')"
  by (simp add: get_put get_del)

lemma size_del: "invar m \<Longrightarrow> k \<in> set (keys m) \<Longrightarrow> Suc (length (keys (del m k))) = length (keys m)"
proof -
  assume inv: "invar m" and k: "k \<in> set (keys m)"
  have "length (keys m) =
      length (filter (\<lambda>x. x \<noteq> k) (keys m)) + length (filter (\<lambda>x. x = k) (keys m))"
    using sum_length_filter_compl [of "\<lambda>x. x \<noteq> k" "keys m"] by simp
  moreover have "length (filter (\<lambda>x. x = k) (keys m)) = 1"
    using inv k distinct_length_filter [of "keys m" "\<lambda>x. x = k"]
    by (simp add: invar_keys Int_absorb2 insert_absorb conj_commute Collect_conv_if)
  ultimately show ?thesis by (simp add: keys_del)
qed

lemma size_del_le: "length (keys (del m k)) \<le> length (keys m)"
  by (simp add: keys_del)

lemma size_put_le: "length (keys (put m k v)) \<le> Suc (length (keys m))"
  by (simp add: keys_put)

lemma size_touch: "invar m \<Longrightarrow> k \<in> set (keys m) \<Longrightarrow> length (keys (put (del m k) k v)) = length (keys m)"
  using size_del [of m k] by (simp add: keys_touch keys_del)

end

interpretation jm: ordered_store jget jset jdel jkeys jwf
  by unfold_locales (auto simp: jsmap jkeys_jget jwf_keys)

lemma length_jset: "length (jset m k v) = (if k \<in> set (jkeys m) then length m else Suc (length m))"
  using arg_cong [OF jkeys_set [of m k v], of length] by (auto split: if_splits)

lemma length_jdel_le: "length (jdel m k) \<le> length m"
  by (simp add: jdel_def)

section \<open>Stable sorting\<close>

text \<open>
  \<open>xs.sort((a, b) => f(a) - f(b))\<close> is stable since ES2019; \<open>sort_key\<close> is the same function:
  sorted by \<open>f\<close>, a permutation, and equal keys in their old order.
\<close>

lemma sort_key_perm: "mset (sort_key f xs) = mset xs"
  by simp

lemma sort_key_filter_eq: "filter (\<lambda>x. f x = k) (sort_key f xs) = filter (\<lambda>x. f x = k) xs"
  by (rule sort_key_stable)

section \<open>Strings\<close>

text \<open>
  The white space \<open>String.prototype.trim\<close> removes (the part of it below code unit 256), decimal
  digits and the decimal reading and writing of naturals, as \<open>Number\<close>/\<open>BigInt\<close> and \<open>toString\<close> do.
\<close>

definition is_ws :: "char \<Rightarrow> bool" where
  "is_ws c = List.member [32, 9, 10, 11, 12, 13, 160] (of_char c :: nat)"

definition js_trim :: "string \<Rightarrow> string" where
  "js_trim s = rev (dropWhile is_ws (rev (dropWhile is_ws s)))"

definition is_digit :: "char \<Rightarrow> bool" where
  "is_digit c = (48 \<le> (of_char c :: nat) \<and> (of_char c :: nat) \<le> 57)"

definition digit_val :: "char \<Rightarrow> nat" where
  "digit_val c = of_char c - 48"

definition dec_value :: "string \<Rightarrow> nat" where
  "dec_value s = foldl (\<lambda>n c. 10 * n + digit_val c) 0 s"

fun nat_dec :: "nat \<Rightarrow> string" where
  "nat_dec n = (if n < 10 then [char_of (48 + n)] else nat_dec (n div 10) @ [char_of (48 + n mod 10)])"

declare nat_dec.simps [simp del]

definition int_dec :: "int \<Rightarrow> string" where
  "int_dec z = (if z < 0 then CHR ''-'' # nat_dec (nat (- z)) else nat_dec (nat z))"

lemma digit_char: "d < 10 \<Longrightarrow> is_digit (char_of (48 + d)) \<and> digit_val (char_of (48 + d)) = d"
  by (simp add: is_digit_def digit_val_def of_char_of)

lemma dec_value_snoc: "dec_value (s @ [c]) = 10 * dec_value s + digit_val c"
  by (simp add: dec_value_def)

lemma nat_dec_digits: "nat_dec n \<noteq> [] \<and> list_all is_digit (nat_dec n)"
proof (induction n rule: nat_dec.induct)
  case (1 n)
  then show ?case
    using digit_char [of n] digit_char [of "n mod 10"]
    by (subst (1 2) nat_dec.simps) auto
qed

lemma dec_value_nat_dec: "dec_value (nat_dec n) = n"
proof (induction n rule: nat_dec.induct)
  case (1 n)
  show ?case
  proof (cases "n < 10")
    case True
    then show ?thesis
      using digit_char [of n] by (subst nat_dec.simps) (simp add: dec_value_def)
  next
    case False
    then show ?thesis
      using "1.IH" digit_char [of "n mod 10"] by (subst nat_dec.simps) (simp add: dec_value_snoc)
  qed
qed

lemma nat_dec_inj: "nat_dec m = nat_dec n \<Longrightarrow> m = n"
  by (metis dec_value_nat_dec)

lemma is_digit_not_ws: "is_digit c \<Longrightarrow> \<not> is_ws c"
  by (auto simp: is_digit_def is_ws_def)

lemma dropWhile_all_not: "list_all (\<lambda>c. \<not> P c) s \<Longrightarrow> dropWhile P s = s"
  by (cases s) auto

lemma js_trim_digits:
  assumes "list_all is_digit s"
  shows "js_trim s = s"
proof -
  have "list_all (\<lambda>c. \<not> is_ws c) s" and "list_all (\<lambda>c. \<not> is_ws c) (rev s)"
    using assms by (auto simp: list_all_iff is_digit_not_ws)
  then show ?thesis by (simp add: js_trim_def dropWhile_all_not)
qed

text \<open>
  \<open>BigInt(s)\<close> of a decimal string: \<open>None\<close> is its \<open>SyntaxError\<close>. The hexadecimal, octal and binary
  forms it also reads are not treated. Division of \<open>bigint\<close>s truncates.
\<close>

definition js_BigInt :: "string \<Rightarrow> int option" where
  "js_BigInt s = (case js_trim s of
     [] \<Rightarrow> Some 0
   | c # cs \<Rightarrow>
       if list_all is_digit (c # cs) then Some (int (dec_value (c # cs)))
       else if cs \<noteq> [] \<and> list_all is_digit cs
       then (if c = CHR ''-'' then Some (- int (dec_value cs))
             else if c = CHR ''+'' then Some (int (dec_value cs)) else None)
       else None)"

definition bigint_div :: "int \<Rightarrow> int \<Rightarrow> int" where
  "bigint_div a b = sgn a * sgn b * (abs a div abs b)"

lemma js_BigInt_nat: "js_BigInt (nat_dec n) = Some (int n)"
proof -
  have "list_all is_digit (nat_dec n)" "nat_dec n \<noteq> []" using nat_dec_digits by auto
  then show ?thesis
    by (cases "nat_dec n") (auto simp: js_BigInt_def js_trim_digits dest: arg_cong [where f = dec_value]
        simp: dec_value_nat_dec)
qed

text \<open>\<open>xs.join(sep)\<close>.\<close>

fun join_with :: "string \<Rightarrow> string list \<Rightarrow> string" where
  "join_with sep [] = []"
| "join_with sep [x] = x"
| "join_with sep (x # xs) = x @ sep @ join_with sep xs"

section \<open>Arrays\<close>

text \<open>\<open>xs.slice(a, b)\<close>: negative positions count from the end, positions past it are cut.\<close>

definition js_pos :: "int \<Rightarrow> int \<Rightarrow> nat" where
  "js_pos n a = nat (if a < 0 then max 0 (n + a) else min a n)"

definition js_slice :: "'a list \<Rightarrow> int \<Rightarrow> int \<Rightarrow> 'a list" where
  "js_slice xs a b =
    (let n = int (length xs) in take (js_pos n b - js_pos n a) (drop (js_pos n a) xs))"

lemma js_slice_chunk:
  assumes "0 \<le> a" "a < int (length xs)" "0 < k"
  shows "js_slice xs a (a + k) @ drop (nat (a + k)) xs = drop (nat a) xs"
    and "js_slice xs a (a + k) \<noteq> []" and "int (length (js_slice xs a (a + k))) \<le> k"
proof -
  have eq: "js_slice xs a (a + k) = take (nat k) (drop (nat a) xs)"
  proof (cases "a + k \<le> int (length xs)")
    case True
    then show ?thesis using assms by (simp add: js_slice_def js_pos_def nat_add_distrib)
  next
    case False
    then have "length (drop (nat a) xs) \<le> nat k" using assms by simp
    then show ?thesis using False assms by (simp add: js_slice_def js_pos_def min_def)
  qed
  have "drop (nat (a + k)) xs = drop (nat k) (drop (nat a) xs)"
    using assms by (simp add: nat_add_distrib add.commute)
  then show "js_slice xs a (a + k) @ drop (nat (a + k)) xs = drop (nat a) xs"
    by (simp only: eq append_take_drop_id)
  show "js_slice xs a (a + k) \<noteq> []" "int (length (js_slice xs a (a + k))) \<le> k"
    using assms by (auto simp: eq)
qed

text \<open>An optional string in a condition: \<open>undefined\<close> and the empty string are falsy.\<close>

definition truthy_str :: "string option \<Rightarrow> bool" where
  "truthy_str s = (case s of None \<Rightarrow> False | Some c \<Rightarrow> c \<noteq> [])"

lemma truthy_str_simps [simp]: "\<not> truthy_str None" "truthy_str (Some c) \<longleftrightarrow> c \<noteq> []"
  by (simp_all add: truthy_str_def)

section \<open>Computations that may throw\<close>

text \<open>
  An \<open>async\<close> method over a state is a function from the state to its outcome and the next
  state; \<open>Inl\<close> is a rejection. \<open>ebind\<close> is \<open>await\<close> followed by the rest of the body, \<open>ecatch\<close>
  is \<open>try ... catch\<close>.
\<close>

type_synonym ('s, 'e, 'a) eff = "'s \<Rightarrow> ('e + 'a) \<times> 's"

definition eret :: "'a \<Rightarrow> ('s, 'e, 'a) eff" where
  "eret x = (\<lambda>s. (Inr x, s))"

definition ethrow :: "'e \<Rightarrow> ('s, 'e, 'a) eff" where
  "ethrow e = (\<lambda>s. (Inl e, s))"

definition ebind :: "('s, 'e, 'a) eff \<Rightarrow> ('a \<Rightarrow> ('s, 'e, 'b) eff) \<Rightarrow> ('s, 'e, 'b) eff" where
  "ebind c f = (\<lambda>s. case c s of (Inl e, t) \<Rightarrow> (Inl e, t) | (Inr x, t) \<Rightarrow> f x t)"

definition ecatch :: "('s, 'e, 'a) eff \<Rightarrow> ('e \<Rightarrow> ('s, 'e, 'a) eff) \<Rightarrow> ('s, 'e, 'a) eff" where
  "ecatch c h = (\<lambda>s. case c s of (Inl e, t) \<Rightarrow> h e t | (Inr x, t) \<Rightarrow> (Inr x, t))"

lemma ebind_Inr: "ebind c f s = (Inr y, t) \<longleftrightarrow> (\<exists>x u. c s = (Inr x, u) \<and> f x u = (Inr y, t))"
  by (auto simp: ebind_def split: prod.splits sum.splits)

lemma ebind_Inl:
  "ebind c f s = (Inl e, t) \<longleftrightarrow> c s = (Inl e, t) \<or> (\<exists>x u. c s = (Inr x, u) \<and> f x u = (Inl e, t))"
  by (auto simp: ebind_def split: prod.splits sum.splits)

lemma eret_eq [simp]: "eret x s = (r, t) \<longleftrightarrow> r = Inr x \<and> t = s"
  by (auto simp: eret_def)

lemma ethrow_eq [simp]: "ethrow e s = (r, t) \<longleftrightarrow> r = Inl e \<and> t = s"
  by (auto simp: ethrow_def)

lemma ecatch_Inr:
  "ecatch c h s = (Inr y, t) \<longleftrightarrow> c s = (Inr y, t) \<or> (\<exists>e u. c s = (Inl e, u) \<and> h e u = (Inr y, t))"
  by (auto simp: ecatch_def split: prod.splits sum.splits)

lemma ecatch_Inl:
  "ecatch c h s = (Inl e, t) \<longleftrightarrow> (\<exists>e' u. c s = (Inl e', u) \<and> h e' u = (Inl e, t))"
  by (auto simp: ecatch_def split: prod.splits sum.splits)

lemmas eff_cases = ebind_Inr ebind_Inl ecatch_Inr ecatch_Inl

text \<open>
  What a computation guarantees: started where \<open>P\<close> holds, a normal outcome satisfies \<open>Q\<close> and an
  exception satisfies \<open>E\<close>. The rules follow the code: one per construct, collected in \<open>guar\<close>.
\<close>

named_theorems guar "guarantees of computations"

definition guarantees ::
  "('s \<Rightarrow> bool) \<Rightarrow> ('s, 'e, 'a) eff \<Rightarrow> ('a \<Rightarrow> 's \<Rightarrow> bool) \<Rightarrow> ('e \<Rightarrow> 's \<Rightarrow> bool) \<Rightarrow> bool" where
  "guarantees P m Q E =
    (\<forall>s. P s \<longrightarrow> (case m s of (Inr x, t) \<Rightarrow> Q x t | (Inl e, t) \<Rightarrow> E e t))"

text \<open>Keeping a property of the state, whatever the outcome.\<close>

definition keeps :: "('s \<Rightarrow> bool) \<Rightarrow> ('s, 'e, 'a) eff \<Rightarrow> bool" where
  "keeps P m = (\<forall>s. P s \<longrightarrow> P (snd (m s)))"

lemma guaranteesI:
  "(\<And>s x t. P s \<Longrightarrow> m s = (Inr x, t) \<Longrightarrow> Q x t) \<Longrightarrow> (\<And>s e t. P s \<Longrightarrow> m s = (Inl e, t) \<Longrightarrow> E e t) \<Longrightarrow>
   guarantees P m Q E"
  by (auto simp: guarantees_def split: prod.splits sum.splits)

lemma guarantees_Inr: "guarantees P m Q E \<Longrightarrow> P s \<Longrightarrow> m s = (Inr x, t) \<Longrightarrow> Q x t"
  by (force simp: guarantees_def)

lemma guarantees_Inl: "guarantees P m Q E \<Longrightarrow> P s \<Longrightarrow> m s = (Inl e, t) \<Longrightarrow> E e t"
  by (force simp: guarantees_def)

lemma guarantees_bind:
  "guarantees P m R E \<Longrightarrow> (\<And>x. guarantees (R x) (f x) Q E) \<Longrightarrow> guarantees P (ebind m f) Q E"
  by (rule guaranteesI) (auto simp: ebind_Inr ebind_Inl dest: guarantees_Inr guarantees_Inl)

lemma guarantees_catch:
  "guarantees P m Q R \<Longrightarrow> (\<And>e. guarantees (R e) (h e) Q E) \<Longrightarrow> guarantees P (ecatch m h) Q E"
  by (rule guaranteesI) (auto simp: ecatch_Inr ecatch_Inl dest: guarantees_Inr guarantees_Inl)

lemma guarantees_ret: "(\<And>s. P s \<Longrightarrow> Q x s) \<Longrightarrow> guarantees P (eret x) Q E"
  by (simp add: guarantees_def eret_def)

lemma guarantees_throw: "(\<And>s. P s \<Longrightarrow> E e s) \<Longrightarrow> guarantees P (ethrow e) Q E"
  by (simp add: guarantees_def ethrow_def)

lemma guarantees_weaken:
  "guarantees P' m Q' E' \<Longrightarrow> (\<And>s. P s \<Longrightarrow> P' s) \<Longrightarrow> (\<And>x s. Q' x s \<Longrightarrow> Q x s) \<Longrightarrow>
   (\<And>e s. E' e s \<Longrightarrow> E e s) \<Longrightarrow> guarantees P m Q E"
  by (auto simp: guarantees_def split: prod.splits sum.splits) (metis)+

lemma keepsD: "keeps P m \<Longrightarrow> P s \<Longrightarrow> m s = (r, t) \<Longrightarrow> P t"
  by (metis keeps_def snd_conv)

lemma keepsI: "(\<And>s r t. P s \<Longrightarrow> m s = (r, t) \<Longrightarrow> P t) \<Longrightarrow> keeps P m"
  by (metis keeps_def surjective_pairing)

lemma guarantees_keeps: "guarantees P m (\<lambda>_. P) (\<lambda>_. P) \<longleftrightarrow> keeps P m"
proof
  assume g: "guarantees P m (\<lambda>_. P) (\<lambda>_. P)"
  show "keeps P m"
  proof (rule keepsI)
    fix s r t assume P: "P s" and run: "m s = (r, t)"
    have "case m s of (Inl e, t) \<Rightarrow> P t | (Inr x, t) \<Rightarrow> P t"
      by (rule mp [OF spec [OF g [unfolded guarantees_def], of s] P])
    then have "case (r, t) of (Inl e, t) \<Rightarrow> P t | (Inr x, t) \<Rightarrow> P t" by (simp only: run)
    then show "P t" by (cases r) auto
  qed
next
  assume k: "keeps P m"
  show "guarantees P m (\<lambda>_. P) (\<lambda>_. P)"
    unfolding guarantees_def
  proof (intro allI impI)
    fix s assume P: "P s"
    obtain r t where run: "m s = (r, t)" by force
    have "P t" by (rule keepsD [OF k P run])
    then show "case m s of (Inl e, t) \<Rightarrow> P t | (Inr x, t) \<Rightarrow> P t" using run by (cases r) auto
  qed
qed

lemma keeps_bind [guar]: "keeps P m \<Longrightarrow> (\<And>x. keeps P (f x)) \<Longrightarrow> keeps P (ebind m f)"
  by (auto simp: keeps_def ebind_def split: prod.splits sum.splits)

lemma keeps_catch [guar]: "keeps P m \<Longrightarrow> (\<And>e. keeps P (h e)) \<Longrightarrow> keeps P (ecatch m h)"
  by (auto simp: keeps_def ecatch_def split: prod.splits sum.splits)

lemma keeps_ret [guar]: "keeps P (eret x)"
  by (simp add: keeps_def eret_def)

lemma keeps_throw [guar]: "keeps P (ethrow e)"
  by (simp add: keeps_def ethrow_def)

end
