(* ===== verification/Errors.thy ===== *)
theory Errors
  imports Prelude
begin

text \<open>
  Error codes and their retryability (\<open>packages/errors/src/index.ts\<close>), and the JavaScript
  values a rejected call carries.

  The enum members of \<open>SorobanResurrectErrorCode\<close> are strings and the class field \<open>code\<close> holds
  whatever string its constructor was given, so codes are modelled as strings.
\<close>

definition SorobanResurrectErrorCode :: "string list" where
  "SorobanResurrectErrorCode =
    [''NETWORK_ERROR'', ''SIMULATION_FAILED'', ''RESTORE_FAILED'', ''INVALID_XDR'', ''NO_ACCOUNT'',
     ''ARCHIVE_DETECTION_FAILED'', ''RPC_METHOD_UNAVAILABLE'', ''NETWORK_MISMATCH'', ''UNKNOWN'']"

definition RETRYABLE_ERROR_CODES :: "string list" where
  "RETRYABLE_ERROR_CODES = [''NETWORK_ERROR'', ''SIMULATION_FAILED'', ''RESTORE_FAILED'']"

definition isRetryable :: "string \<Rightarrow> bool" where
  "isRetryable code = List.member RETRYABLE_ERROR_CODES code"

record resurrect_error =
  err_code :: string
  err_message :: string
  err_retryable :: bool

text \<open>The constructor takes the code first; the message defaults to the code.\<close>

definition SorobanResurrectError :: "string \<Rightarrow> string option \<Rightarrow> resurrect_error" where
  "SorobanResurrectError code message =
    \<lparr>err_code = code,
     err_message = (case message of None \<Rightarrow> code | Some m \<Rightarrow> m),
     err_retryable = isRetryable code\<rparr>"

text \<open>
  Everything a call can reject with: an instance of the class above, or another \<open>Error\<close> with
  its \<open>name\<close> and \<open>message\<close> (an \<open>AbortError\<close> also carries the transaction hash).
\<close>

datatype js_err =
    Resurrect resurrect_error
  | PlainError (pe_name: string) (pe_message: string)
  | AbortErr (ab_stage: string) (ab_hash: "string option")

definition js_message :: "js_err \<Rightarrow> string" where
  "js_message e = (case e of
     Resurrect r \<Rightarrow> err_message r
   | PlainError n m \<Rightarrow> m
   | AbortErr st h \<Rightarrow> ''Cancelled during '' @ st @
       (case h of None \<Rightarrow> [] | Some h' \<Rightarrow>
          '' after submission (txHash='' @ h' @ ''); the transaction may still be applied''))"

text \<open>\<open>String(err)\<close> of an \<open>Error\<close> is its name, a colon, a blank and its message.\<close>

definition js_String :: "js_err \<Rightarrow> string" where
  "js_String e = (case e of
     Resurrect r \<Rightarrow> ''SorobanResurrectError: '' @ err_message r
   | PlainError n m \<Rightarrow> n @ '': '' @ m
   | AbortErr st h \<Rightarrow> ''AbortError: '' @ js_message e)"

lemma isRetryable_iff:
  "isRetryable c \<longleftrightarrow> c = ''NETWORK_ERROR'' \<or> c = ''SIMULATION_FAILED'' \<or> c = ''RESTORE_FAILED''"
  by (auto simp: isRetryable_def RETRYABLE_ERROR_CODES_def)

lemma isRetryable_code: "isRetryable c \<Longrightarrow> c \<in> set SorobanResurrectErrorCode"
  by (auto simp: isRetryable_iff SorobanResurrectErrorCode_def)

lemma SorobanResurrectError_sel [simp]:
  "err_code (SorobanResurrectError c m) = c"
  "err_retryable (SorobanResurrectError c m) = isRetryable c"
  "err_message (SorobanResurrectError c (Some t)) = t"
  "err_message (SorobanResurrectError c None) = c"
  by (simp_all add: SorobanResurrectError_def)

text \<open>No retryable code contains a colon, and every stringified error does.\<close>

lemma isRetryable_no_colon: "isRetryable c \<Longrightarrow> CHR '':'' \<notin> set c"
  by (auto simp: isRetryable_iff)

lemma js_String_colon: "CHR '':'' \<in> set (js_String e)"
  by (cases e) (auto simp: js_String_def)

lemma js_String_not_retryable: "\<not> isRetryable (js_String e)"
  using isRetryable_no_colon js_String_colon by blast

end
