(* ===== verification/Retry.thy ===== *)
theory Retry
  imports Errors
begin

text \<open>
  The retry policies of \<open>packages/rpc/src/retry-policy.ts\<close>, the transport retry loop of
  \<open>packages/rpc/src/retry.ts\<close> and the \<open>Retry-After\<close> header of \<open>packages/rpc/src/retry-after.ts\<close>.
  Clock readings and random numbers are arguments; delays are milliseconds.
\<close>

section \<open>The policies\<close>

record exponential_backoff =
  eb_maxRetries :: int
  eb_baseDelayMs :: real

definition eb_shouldRetry :: "exponential_backoff \<Rightarrow> string \<Rightarrow> nat \<Rightarrow> bool" where
  "eb_shouldRetry p code attempt = (int attempt \<le> eb_maxRetries p \<and> isRetryable code)"

definition eb_getDelay :: "exponential_backoff \<Rightarrow> nat \<Rightarrow> real" where
  "eb_getDelay p attempt = eb_baseDelayMs p * real attempt"

definition DEFAULT_RETRY_POLICY :: exponential_backoff where
  "DEFAULT_RETRY_POLICY = \<lparr>eb_maxRetries = 3, eb_baseDelayMs = 500\<rparr>"

record fixed_delay =
  fd_maxRetries :: int
  fd_delayMs :: real

definition fd_shouldRetry :: "fixed_delay \<Rightarrow> string \<Rightarrow> nat \<Rightarrow> bool" where
  "fd_shouldRetry p code attempt = (int attempt \<le> fd_maxRetries p \<and> isRetryable code)"

definition fd_getDelay :: "fixed_delay \<Rightarrow> nat \<Rightarrow> real" where
  "fd_getDelay p attempt = fd_delayMs p"

record jitter_backoff =
  jb_maxRetries :: int
  jb_baseDelayMs :: real
  jb_maxJitterMs :: real

definition jb_shouldRetry :: "jitter_backoff \<Rightarrow> string \<Rightarrow> nat \<Rightarrow> bool" where
  "jb_shouldRetry p code attempt = (int attempt \<le> jb_maxRetries p \<and> isRetryable code)"

text \<open>\<open>rnd\<close> is the value of \<open>Math.random()\<close>; \<open>Math.pow(2, attempt - 1)\<close> with attempts from 1.\<close>

definition jb_getDelay :: "jitter_backoff \<Rightarrow> real \<Rightarrow> nat \<Rightarrow> real" where
  "jb_getDelay p rnd attempt =
    (let exponentialDelay = jb_baseDelayMs p * 2 ^ (attempt - 1);
         jitter = rnd * jb_maxJitterMs p
     in exponentialDelay + jitter)"

record circuit_breaker =
  cb_maxRetries :: int
  cb_failureThreshold :: int
  cb_openCircuitTimeoutMs :: int
  cb_delayMs :: real
  cb_consecutiveFailures :: int
  cb_circuitOpenAt :: "int option"
  cb_halfOpenProbeInFlight :: bool

definition cb_new :: "int \<Rightarrow> int \<Rightarrow> int \<Rightarrow> real \<Rightarrow> circuit_breaker" where
  "cb_new maxRetries failureThreshold openCircuitTimeoutMs delayMs =
    \<lparr>cb_maxRetries = maxRetries, cb_failureThreshold = failureThreshold,
     cb_openCircuitTimeoutMs = openCircuitTimeoutMs, cb_delayMs = delayMs,
     cb_consecutiveFailures = 0, cb_circuitOpenAt = None, cb_halfOpenProbeInFlight = False\<rparr>"

text \<open>
  The tail of \<open>shouldRetry\<close>: count the failure, open the circuit at the threshold, otherwise
  apply the attempt limit and the retryability of the code. \<open>now'\<close> is the second clock reading.
\<close>

definition cb_count_failure :: "circuit_breaker \<Rightarrow> string \<Rightarrow> nat \<Rightarrow> int \<Rightarrow> bool \<times> circuit_breaker" where
  "cb_count_failure b code attempt now' =
    (let b1 = b\<lparr>cb_consecutiveFailures := cb_consecutiveFailures b + 1\<rparr>
     in if cb_consecutiveFailures b1 \<ge> cb_failureThreshold b1
        then (False, b1\<lparr>cb_circuitOpenAt := Some now', cb_halfOpenProbeInFlight := False\<rparr>)
        else (int attempt \<le> cb_maxRetries b1 \<and> isRetryable code, b1))"

definition cb_shouldRetry ::
  "circuit_breaker \<Rightarrow> string \<Rightarrow> nat \<Rightarrow> int \<Rightarrow> int \<Rightarrow> bool \<times> circuit_breaker" where
  "cb_shouldRetry b code attempt now now' =
    (case cb_circuitOpenAt b of
       None \<Rightarrow> cb_count_failure b code attempt now'
     | Some openAt \<Rightarrow>
         (if now - openAt > cb_openCircuitTimeoutMs b
          then (if cb_halfOpenProbeInFlight b then (False, b)
                else cb_count_failure
                       (b\<lparr>cb_halfOpenProbeInFlight := True, cb_consecutiveFailures := 0\<rparr>)
                       code attempt now')
          else (False, b)))"

definition cb_reset :: "circuit_breaker \<Rightarrow> circuit_breaker" where
  "cb_reset b = b\<lparr>cb_consecutiveFailures := 0, cb_circuitOpenAt := None,
                  cb_halfOpenProbeInFlight := False\<rparr>"

text \<open>Any of the four behind the \<open>RetryPolicy\<close> interface; only the breaker has \<open>reset\<close>.\<close>

datatype policy =
    Exponential exponential_backoff
  | Fixed fixed_delay
  | Jitter jitter_backoff
  | Circuit circuit_breaker

record policy_env =
  pe_now :: int
  pe_now2 :: int
  pe_rnd :: real

fun pol_maxRetries :: "policy \<Rightarrow> int" where
  "pol_maxRetries (Exponential p) = eb_maxRetries p"
| "pol_maxRetries (Fixed p) = fd_maxRetries p"
| "pol_maxRetries (Jitter p) = jb_maxRetries p"
| "pol_maxRetries (Circuit p) = cb_maxRetries p"

fun pol_shouldRetry :: "policy \<Rightarrow> string \<Rightarrow> nat \<Rightarrow> policy_env \<Rightarrow> bool \<times> policy" where
  "pol_shouldRetry (Exponential p) code a env = (eb_shouldRetry p code a, Exponential p)"
| "pol_shouldRetry (Fixed p) code a env = (fd_shouldRetry p code a, Fixed p)"
| "pol_shouldRetry (Jitter p) code a env = (jb_shouldRetry p code a, Jitter p)"
| "pol_shouldRetry (Circuit p) code a env =
    (let (r, p') = cb_shouldRetry p code a (pe_now env) (pe_now2 env) in (r, Circuit p'))"

fun pol_getDelay :: "policy \<Rightarrow> nat \<Rightarrow> policy_env \<Rightarrow> real" where
  "pol_getDelay (Exponential p) a env = eb_getDelay p a"
| "pol_getDelay (Fixed p) a env = fd_getDelay p a"
| "pol_getDelay (Jitter p) a env = jb_getDelay p (pe_rnd env) a"
| "pol_getDelay (Circuit p) a env = cb_delayMs p"

fun pol_reset :: "policy \<Rightarrow> policy" where
  "pol_reset (Circuit p) = Circuit (cb_reset p)"
| "pol_reset p = p"

section \<open>What a retry loop relies on\<close>

text \<open>
  A policy grants a retry only for a retryable code and within its limit, and neither asking nor
  resetting moves the limit. The bound on attempts of every retry loop follows from these laws.
\<close>

locale retry_policy =
  fixes should :: "'p \<Rightarrow> string \<Rightarrow> nat \<Rightarrow> 'env \<Rightarrow> bool \<times> 'p"
    and limit :: "'p \<Rightarrow> int"
    and reset :: "'p \<Rightarrow> 'p"
  assumes grant_retryable: "fst (should p c a e) \<Longrightarrow> isRetryable c"
    and grant_limit: "fst (should p c a e) \<Longrightarrow> int a \<le> limit p"
    and limit_should: "limit (snd (should p c a e)) = limit p"
    and limit_reset: "limit (reset p) = limit p"
begin

text \<open>Successive refusals and grants, one per failed attempt, as a retry loop asks for them.\<close>

lemma grants_bounded:
  assumes "\<And>i. i < n \<Longrightarrow> fst (should (ps i) (cs i) (Suc i) (es i))"
    and "\<And>i. i < n \<Longrightarrow> ps (Suc i) = snd (should (ps i) (cs i) (Suc i) (es i))"
  shows "int n \<le> max 0 (limit (ps 0))"
proof -
  have lim: "i \<le> n \<Longrightarrow> limit (ps i) = limit (ps 0)" for i
    by (induction i) (use assms(2) limit_should in \<open>auto\<close>)
  show ?thesis
  proof (cases n)
    case (Suc m)
    then have "int (Suc m) \<le> limit (ps m)"
      using assms(1) [of m] grant_limit by blast
    then show ?thesis using Suc lim [of m] by simp
  qed simp
qed

lemma refuse_nonretryable: "\<not> isRetryable c \<Longrightarrow> \<not> fst (should p c a e)"
  using grant_retryable by blast

lemma refuse_beyond: "limit p < int a \<Longrightarrow> \<not> fst (should p c a e)"
  using grant_limit by fastforce

end

text \<open>
  A failed half-open probe wedges the breaker: the probe flag stays up and the opening time is
  not renewed, so every later question is refused until \<open>reset\<close>, however much time passes.
\<close>

definition cb_wedged :: "circuit_breaker \<Rightarrow> bool" where
  "cb_wedged b = (cb_circuitOpenAt b \<noteq> None \<and> cb_halfOpenProbeInFlight b)"

fun cb_run :: "circuit_breaker \<Rightarrow> (string \<times> nat \<times> int \<times> int) list \<Rightarrow> bool list \<times> circuit_breaker" where
  "cb_run b [] = ([], b)"
| "cb_run b ((c, a, n, n') # qs) =
    (let (r, b1) = cb_shouldRetry b c a n n'; (rs, b2) = cb_run b1 qs in (r # rs, b2))"

lemma cb_wedged_refuses: "cb_wedged b \<Longrightarrow> cb_shouldRetry b c a n n' = (False, b)"
  by (auto simp: cb_wedged_def cb_shouldRetry_def)

lemma cb_wedged_run: "cb_wedged b \<Longrightarrow> cb_run b qs = (replicate (length qs) False, b)"
  by (induction qs) (auto simp: cb_wedged_refuses)

lemma cb_probe_wedges:
  assumes "cb_circuitOpenAt b = Some t" and "n - t > cb_openCircuitTimeoutMs b"
    and "\<not> cb_halfOpenProbeInFlight b" and "1 < cb_failureThreshold b"
  shows "cb_wedged (snd (cb_shouldRetry b c a n n'))"
    and "fst (cb_shouldRetry b c a n n') \<longleftrightarrow> int a \<le> cb_maxRetries b \<and> isRetryable c"
  using assms by (auto simp: cb_shouldRetry_def cb_count_failure_def cb_wedged_def)

text \<open>The counter stays below the threshold while the circuit is closed.\<close>

definition cb_inv :: "circuit_breaker \<Rightarrow> bool" where
  "cb_inv b = (0 \<le> cb_consecutiveFailures b \<and>
     (cb_circuitOpenAt b = None \<longrightarrow> cb_consecutiveFailures b < cb_failureThreshold b
        \<and> \<not> cb_halfOpenProbeInFlight b))"

lemma cb_inv_new: "0 < th \<Longrightarrow> cb_inv (cb_new m th t d)"
  by (simp add: cb_inv_def cb_new_def)

lemma cb_inv_should: "cb_inv b \<Longrightarrow> cb_inv (snd (cb_shouldRetry b c a n n'))"
  by (auto simp: cb_inv_def cb_shouldRetry_def cb_count_failure_def Let_def split: option.splits)

lemma cb_inv_reset: "0 < cb_failureThreshold b \<Longrightarrow> cb_inv (cb_reset b)"
  by (simp add: cb_inv_def cb_reset_def)

text \<open>The n-th consecutive failure opens a closed circuit, exactly at the threshold.\<close>

lemma cb_opens_iff:
  assumes "cb_circuitOpenAt b = None"
  shows "cb_circuitOpenAt (snd (cb_shouldRetry b c a n n')) \<noteq> None \<longleftrightarrow>
         cb_failureThreshold b \<le> cb_consecutiveFailures b + 1"
  using assms by (simp add: cb_shouldRetry_def cb_count_failure_def Let_def)

lemma cb_open_fails_fast:
  assumes "cb_circuitOpenAt b = Some t" and "n - t \<le> cb_openCircuitTimeoutMs b"
  shows "cb_shouldRetry b c a n n' = (False, b)"
  using assms by (simp add: cb_shouldRetry_def)

lemma cb_count_failure_limit: "cb_maxRetries (snd (cb_count_failure b c a n)) = cb_maxRetries b"
  by (simp add: cb_count_failure_def Let_def)

lemma cb_count_failure_grant:
  "fst (cb_count_failure b c a n) \<Longrightarrow> isRetryable c \<and> int a \<le> cb_maxRetries b"
  by (simp add: cb_count_failure_def Let_def split: if_splits)

lemma cb_shouldRetry_limit: "cb_maxRetries (snd (cb_shouldRetry b c a n n')) = cb_maxRetries b"
  by (simp add: cb_shouldRetry_def cb_count_failure_limit split: option.split)

lemma cb_shouldRetry_grant:
  "fst (cb_shouldRetry b c a n n') \<Longrightarrow> isRetryable c \<and> int a \<le> cb_maxRetries b"
  by (auto simp: cb_shouldRetry_def dest: cb_count_failure_grant split: option.splits if_splits)

lemma cb_shouldRetry_eq:
  "cb_shouldRetry b c a n n' = (True, q) \<Longrightarrow> isRetryable c \<and> int a \<le> cb_maxRetries b"
  using cb_shouldRetry_grant [of b c a n n'] by simp

interpretation breaker: retry_policy
  "\<lambda>b c a (n, n'). cb_shouldRetry b c a n n'" cb_maxRetries cb_reset
  by unfold_locales
    (auto dest: cb_shouldRetry_grant simp: cb_shouldRetry_limit cb_reset_def split: prod.splits)

interpretation pol: retry_policy pol_shouldRetry pol_maxRetries pol_reset
proof unfold_locales
  fix p c a e
  show "fst (pol_shouldRetry p c a e) \<Longrightarrow> isRetryable c"
    by (cases p) (auto simp: eb_shouldRetry_def fd_shouldRetry_def jb_shouldRetry_def
        split: prod.splits dest: cb_shouldRetry_eq)
  show "fst (pol_shouldRetry p c a e) \<Longrightarrow> int a \<le> pol_maxRetries p"
    by (cases p) (auto simp: eb_shouldRetry_def fd_shouldRetry_def jb_shouldRetry_def
        split: prod.splits dest: cb_shouldRetry_eq)
  show "pol_maxRetries (snd (pol_shouldRetry p c a e)) = pol_maxRetries p"
    using cb_shouldRetry_limit by (cases p) (auto split: prod.splits, metis snd_conv)
  show "pol_maxRetries (pol_reset p) = pol_maxRetries p"
    by (cases p) (auto simp: cb_reset_def)
qed

section \<open>The transport retry loop\<close>

text \<open>
  What an operation can reject with: a \<open>JsonRpcTransportError\<close> with its status, retryability and
  \<open>Retry-After\<close> wait, or anything else.
\<close>

datatype call_err =
    TransportError (te_status: "int option") (te_retryable: bool) (te_retryAfterMs: "real option")
  | OtherError string

record retry_options =
  ro_maxRetries :: int
  ro_getDelay :: "nat \<Rightarrow> real"
  ro_deadlineMs :: "real option"

text \<open>
  \<open>op\<close> is the outcome of the n-th attempt, \<open>clock\<close> the reading of \<open>now()\<close> after it. The waits
  slept are returned beside the outcome.
\<close>

definition retry_wait :: "retry_options \<Rightarrow> nat \<Rightarrow> call_err \<Rightarrow> real" where
  "retry_wait ro attempt e = (case te_retryAfterMs e of Some w \<Rightarrow> w | None \<Rightarrow> ro_getDelay ro attempt)"

definition retry_stops :: "retry_options \<Rightarrow> nat \<Rightarrow> call_err \<Rightarrow> bool" where
  "retry_stops ro attempt e = (case e of
     OtherError m \<Rightarrow> True
   | TransportError st retryable after \<Rightarrow> \<not> retryable \<or> ro_maxRetries ro < int attempt)"

definition past_deadline :: "retry_options \<Rightarrow> real \<Rightarrow> real \<Rightarrow> bool" where
  "past_deadline ro elapsed delayMs = (case ro_deadlineMs ro of
     None \<Rightarrow> False | Some d \<Rightarrow> d < elapsed + delayMs)"

function withRetry_loop ::
  "(nat \<Rightarrow> call_err + 'a) \<Rightarrow> retry_options \<Rightarrow> real \<Rightarrow> (nat \<Rightarrow> real) \<Rightarrow> nat \<Rightarrow>
   (call_err + 'a) \<times> real list" where
  "withRetry_loop op ro startedAt clock attempt =
    (case op attempt of
       Inr v \<Rightarrow> (Inr v, [])
     | Inl e \<Rightarrow>
         (if retry_stops ro attempt e then (Inl e, [])
          else let delayMs = retry_wait ro attempt e
               in if past_deadline ro (clock attempt - startedAt) delayMs then (Inl e, [])
                  else let (r, ws) = withRetry_loop op ro startedAt clock (Suc attempt)
                       in (r, delayMs # ws)))"
  by pat_completeness auto
termination
  by (relation "measure (\<lambda>(op, ro, s, c, a). nat (ro_maxRetries ro + 1 - int a))")
    (auto simp: retry_stops_def split: call_err.splits)

declare withRetry_loop.simps [simp del]

definition withRetry ::
  "(nat \<Rightarrow> call_err + 'a) \<Rightarrow> retry_options \<Rightarrow> real \<Rightarrow> (nat \<Rightarrow> real) \<Rightarrow> (call_err + 'a) \<times> real list" where
  "withRetry op ro startedAt clock = withRetry_loop op ro startedAt clock 1"

text \<open>
  The outcome is that of attempt \<open>attempt + length ws\<close>, the last one made; each wait is the
  server's or the policy's and ended within the budget; and no more than \<open>maxRetries\<close> were made.
\<close>

lemma withRetry_loop_step:
  assumes "withRetry_loop op ro s clock a = (r, ws)"
  shows "ws = [] \<and> r = op a \<or>
    (\<exists>e ws'. op a = Inl e \<and> \<not> retry_stops ro a e \<and> ws = retry_wait ro a e # ws'
       \<and> \<not> past_deadline ro (clock a - s) (retry_wait ro a e)
       \<and> withRetry_loop op ro s clock (Suc a) = (r, ws'))"
  using assms
  by (subst (asm) withRetry_loop.simps) (auto simp: Let_def split: sum.splits if_splits prod.splits)

lemma withRetry_loop_result:
  "withRetry_loop op ro s clock a = (r, ws) \<Longrightarrow> r = op (a + length ws)"
  by (induction ws arbitrary: a) (use withRetry_loop_step in fastforce)+

lemma withRetry_loop_waits:
  assumes "withRetry_loop op ro s clock a = (r, ws)" and "i < length ws"
  shows "\<exists>e. op (a + i) = Inl e \<and> \<not> retry_stops ro (a + i) e \<and> ws ! i = retry_wait ro (a + i) e
           \<and> \<not> past_deadline ro (clock (a + i) - s) (ws ! i)"
  using assms
proof (induction ws arbitrary: a i)
  case Nil
  then show ?case by simp
next
  case (Cons w ws)
  then obtain e where e: "op a = Inl e" "\<not> retry_stops ro a e" "w = retry_wait ro a e"
      "\<not> past_deadline ro (clock a - s) w" "withRetry_loop op ro s clock (Suc a) = (r, ws)"
    using withRetry_loop_step [OF Cons.prems(1)] by auto
  show ?case
  proof (cases i)
    case 0
    then show ?thesis using e by simp
  next
    case (Suc j)
    then show ?thesis using Cons.IH [OF e(5), of j] Cons.prems(2) by simp
  qed
qed

lemma retry_stops_limit: "\<not> retry_stops ro a e \<Longrightarrow> int a \<le> ro_maxRetries ro"
  by (auto simp: retry_stops_def split: call_err.splits)

lemma withRetry_loop_attempts:
  assumes "withRetry_loop op ro s clock a = (r, ws)"
  shows "int (length ws) \<le> max 0 (ro_maxRetries ro - int a + 1)"
proof (cases "length ws")
  case (Suc m)
  then obtain e where "\<not> retry_stops ro (a + m) e"
    using withRetry_loop_waits [OF assms, of m] by auto
  then have "int (a + m) \<le> ro_maxRetries ro" by (rule retry_stops_limit)
  then show ?thesis using Suc by simp
qed simp

section \<open>The Retry-After header\<close>

text \<open>
  \<open>dateParse\<close> is \<open>Date.parse\<close>, whose accepted formats are implementation-defined; \<open>None\<close> is NaN.
  \<open>is_plain_number\<close> is the regular expression \<open>^[-+]?\d*\.?\d+$\<close>.
\<close>

definition is_plain_number :: "string \<Rightarrow> bool" where
  "is_plain_number s =
    (let t = (case s of [] \<Rightarrow> [] | c # cs \<Rightarrow> if c = CHR ''-'' \<or> c = CHR ''+'' then cs else s);
         whole = takeWhile is_digit t; rest = dropWhile is_digit t
     in case rest of [] \<Rightarrow> whole \<noteq> []
        | c # decimals \<Rightarrow> c = CHR ''.'' \<and> decimals \<noteq> [] \<and> list_all is_digit decimals)"

definition parseRetryAfter ::
  "(string \<Rightarrow> real option) \<Rightarrow> string option \<Rightarrow> real \<Rightarrow> real option" where
  "parseRetryAfter dateParse value now =
    (case value of None \<Rightarrow> None
     | Some v \<Rightarrow>
         (let trimmed = js_trim v
          in if trimmed = [] then None
             else if list_all is_digit trimmed then Some (real (dec_value trimmed) * 1000)
             else if is_plain_number trimmed then None
             else (case dateParse trimmed of None \<Rightarrow> None | Some when \<Rightarrow> Some (max 0 (when - now)))))"

lemma parseRetryAfter_nonneg: "parseRetryAfter dp v now = Some ms \<Longrightarrow> 0 \<le> ms"
  by (auto simp: parseRetryAfter_def Let_def split: option.splits if_splits)

lemma parseRetryAfter_seconds: "parseRetryAfter dp (Some (nat_dec n)) now = Some (real n * 1000)"
  using nat_dec_digits [of n]
  by (simp add: parseRetryAfter_def js_trim_digits dec_value_nat_dec)

section \<open>Properties\<close>

text \<open>
  Once the open timeout has passed and the one half-open probe of a circuit breaker has been
  granted, every later \<open>shouldRetry\<close> is refused and changes nothing, whatever the errors, attempts
  and clock readings, until \<open>reset\<close> is called: a failed probe never reopens or re-times the circuit.
\<close>

theorem breaker_wedges_after_probe:
  assumes "cb_circuitOpenAt b = Some t" and "n - t > cb_openCircuitTimeoutMs b"
    and "\<not> cb_halfOpenProbeInFlight b" and "1 < cb_failureThreshold b"
    and "int a \<le> cb_maxRetries b" and "isRetryable c"
  shows "\<exists>b'. cb_shouldRetry b c a n n' = (True, b') \<and>
           cb_run b' qs = (replicate (length qs) False, b')"
proof -
  obtain r b' where r: "cb_shouldRetry b c a n n' = (r, b')" by force
  with cb_probe_wedges [OF assms(1-4), of c a n'] assms(5,6)
  have "r" and "cb_wedged b'" by auto
  with r show ?thesis by (simp add: cb_wedged_run)
qed

theorem breaker_wedges_after_probe_witness:
  "\<exists>b'. cb_shouldRetry ((cb_new 3 5 30000 1000)\<lparr>cb_circuitOpenAt := Some 0\<rparr>) ''NETWORK_ERROR'' 1 30001 30001
          = (True, b')
      \<and> cb_run b' [(''NETWORK_ERROR'', 1, 99999999, 99999999)] = ([False], b')"
  using breaker_wedges_after_probe [of "(cb_new 3 5 30000 1000)\<lparr>cb_circuitOpenAt := Some 0\<rparr>" 0 30001 1
      "''NETWORK_ERROR''" 30001 "[(''NETWORK_ERROR'', 1, 99999999, 99999999)]"]
  by (simp add: cb_new_def isRetryable_def RETRYABLE_ERROR_CODES_def)

text \<open>
  C1: \<open>withRetry\<close> always returns, with the outcome of the last attempt it made; it makes at most
  \<open>maxRetries\<close> retries; and every wait it sleeps follows a retryable transport error, is the server's
  \<open>Retry-After\<close> when that was given, and ends within the deadline.
\<close>

theorem withRetry_contract:
  assumes "withRetry op ro startedAt clock = (r, ws)"
  shows "r = op (Suc (length ws)) \<and> int (length ws) \<le> max 0 (ro_maxRetries ro) \<and>
    (\<forall>i < length ws. \<exists>status after. op (Suc i) = Inl (TransportError status True after)
       \<and> ws ! i = (case after of Some w \<Rightarrow> w | None \<Rightarrow> ro_getDelay ro (Suc i))
       \<and> (\<forall>d. ro_deadlineMs ro = Some d \<longrightarrow> clock (Suc i) - startedAt + ws ! i \<le> d))"
proof -
  have loop: "withRetry_loop op ro startedAt clock 1 = (r, ws)"
    using assms by (simp add: withRetry_def)
  have "\<exists>status after. op (Suc i) = Inl (TransportError status True after)
       \<and> ws ! i = (case after of Some w \<Rightarrow> w | None \<Rightarrow> ro_getDelay ro (Suc i))
       \<and> (\<forall>d. ro_deadlineMs ro = Some d \<longrightarrow> clock (Suc i) - startedAt + ws ! i \<le> d)"
    if i: "i < length ws" for i
  proof -
    obtain e where e: "op (Suc i) = Inl e" "\<not> retry_stops ro (Suc i) e"
        "ws ! i = retry_wait ro (Suc i) e" "\<not> past_deadline ro (clock (Suc i) - startedAt) (ws ! i)"
      using withRetry_loop_waits [OF loop i] by auto
    then obtain st after where "e = TransportError st True after"
      by (cases e) (auto simp: retry_stops_def)
    with e show ?thesis
      by (auto simp: retry_wait_def past_deadline_def not_less)
  qed
  then show ?thesis
    using withRetry_loop_result [OF loop] withRetry_loop_attempts [OF loop] by simp
qed

theorem withRetry_contract_witness:
  "withRetry (\<lambda>n. if n = 1 then Inl (TransportError (Some 429) True (Some 250)) else Inr (7::nat))
     \<lparr>ro_maxRetries = 3, ro_getDelay = (\<lambda>a. 500), ro_deadlineMs = Some 1000\<rparr> 0 (\<lambda>a. 10) = (Inr 7, [250])
   \<and> (10 - 0) + (250::real) \<le> 1000"
proof -
  let ?op = "\<lambda>n. if n = 1 then Inl (TransportError (Some 429) True (Some 250)) else Inr (7::nat)"
  let ?ro = "\<lparr>ro_maxRetries = 3, ro_getDelay = (\<lambda>a. 500), ro_deadlineMs = Some 1000\<rparr>"
  have run: "withRetry ?op ?ro 0 (\<lambda>a. 10) = (Inr 7, [250])"
    by (simp add: withRetry_def withRetry_loop.simps retry_stops_def retry_wait_def past_deadline_def)
  have "\<forall>i < length [250::real]. \<forall>d. ro_deadlineMs ?ro = Some d \<longrightarrow> 10 - 0 + [250] ! i \<le> d"
    using withRetry_contract [OF run] by blast
  then show ?thesis
    using run by simp
qed

text \<open>
  A \<open>Retry-After\<close> header of decimal seconds is read as exactly that many milliseconds, and no
  header, whatever the date parser answers, ever yields a negative wait.
\<close>

theorem retry_after_roundtrip:
  "parseRetryAfter dateParse (Some (nat_dec n)) now = Some (real n * 1000) \<and>
   (\<forall>v ms. parseRetryAfter dateParse v now = Some ms \<longrightarrow> 0 \<le> ms)"
  using parseRetryAfter_seconds parseRetryAfter_nonneg by blast

theorem retry_after_roundtrip_witness:
  "parseRetryAfter (\<lambda>_. Some 5) (Some ''120'') 9 = Some 120000 \<and>
   (\<exists>ms. parseRetryAfter (\<lambda>_. Some 5) (Some ''Fri'') 9 = Some ms \<and> 0 \<le> ms)"
proof -
  have dec: "nat_dec 120 = ''120''" by code_simp
  have v: "parseRetryAfter (\<lambda>_. Some 5) (Some ''Fri'') 9 = Some 0"
    by (simp add: parseRetryAfter_def js_trim_def is_ws_def is_digit_def is_plain_number_def)
  show ?thesis
    using retry_after_roundtrip [of "\<lambda>_. Some 5" 120 9] v by (auto simp: dec)
qed

end
