(* ===== verification/SimCache.thy ===== *)
theory SimCache
  imports Prelude "HOL-Library.Word"
begin

text \<open>
  The simulation-result cache of \<open>packages/rpc/src/simulation-cache.ts\<close>: a least-recently-used
  cache with a time to live, its key hash, and the resolution of its settings. The cached results
  are a type parameter. Clock readings (\<open>Date.now()\<close>) are arguments. Strings are sequences of
  code units below 256, which covers the base64 and ASCII inputs of the key.
\<close>

unbundle bit_operations_syntax

section \<open>The key hash\<close>

text \<open>
  \<open>hash << 5\<close> and \<open>hash & hash\<close> convert to 32-bit integers, and the exact sum between them is
  reduced by the second one: the loop computes in 32-bit words.
\<close>

definition hash_step :: "32 word \<Rightarrow> char \<Rightarrow> 32 word" where
  "hash_step h c = push_bit 5 h - h + of_nat (of_char c)"

definition hash_loop :: "string \<Rightarrow> 32 word" where
  "hash_loop s = foldl hash_step 0 s"

definition hex_digit :: "nat \<Rightarrow> char" where
  "hex_digit d = (if d < 10 then char_of (48 + d) else char_of (87 + d))"

fun nat_hex :: "nat \<Rightarrow> string" where
  "nat_hex n = (if n < 16 then [hex_digit n] else nat_hex (n div 16) @ [hex_digit (n mod 16)])"

declare nat_hex.simps [simp del]

definition padStart :: "nat \<Rightarrow> char \<Rightarrow> string \<Rightarrow> string" where
  "padStart n c s = replicate (n - length s) c @ s"

definition hashKey :: "string \<Rightarrow> string" where
  "hashKey input = padStart 8 (CHR ''0'') (nat_hex (nat \<bar>sint (hash_loop input)\<bar>))"

definition opt_str :: "string option \<Rightarrow> string" where
  "opt_str v = (case v of None \<Rightarrow> [] | Some s \<Rightarrow> s)"

definition generateKey :: "string \<Rightarrow> string option \<Rightarrow> int option \<Rightarrow> string option \<Rightarrow> string" where
  "generateKey txXDR source ledgerSequence networkPassphrase =
    hashKey (txXDR @ ''|'' @ opt_str source @ ''|'' @
             (case ledgerSequence of None \<Rightarrow> [] | Some n \<Rightarrow> if n = 0 then [] else int_dec n) @ ''|'' @
             opt_str networkPassphrase)"

lemma length_nat_hex: "n < 16 ^ Suc k \<Longrightarrow> length (nat_hex n) \<le> Suc k"
proof (induction n arbitrary: k rule: nat_hex.induct)
  case (1 n)
  show ?case
  proof (cases "n < 16")
    case True
    then show ?thesis by (subst nat_hex.simps) simp
  next
    case False
    with "1.prems" obtain j where k: "k = Suc j" by (cases k) auto
    with "1.prems" have "n div 16 < 16 ^ Suc j"
      by (simp add: less_mult_imp_div_less mult.commute)
    with "1.IH" False k show ?thesis by (subst nat_hex.simps) simp
  qed
qed

lemma abs_sint_32: "nat \<bar>sint (w :: 32 word)\<bar> < 16 ^ Suc 7"
proof -
  have "- (2 ^ 31) \<le> sint w" and "sint w < 2 ^ 31"
    using sint_greater_eq [of w] sint_lt [of w] by auto
  then have "\<bar>sint w\<bar> \<le> 2 ^ 31" by linarith
  then show ?thesis by simp
qed

lemma length_hashKey: "length (hashKey s) = 8"
  using length_nat_hex [OF abs_sint_32, of "hash_loop s"] by (simp add: hashKey_def padStart_def)

text \<open>Appending the same text to two inputs with equal hashes keeps them equal.\<close>

lemma hash_loop_append: "hash_loop s = hash_loop t \<Longrightarrow> hash_loop (s @ u) = hash_loop (t @ u)"
  by (simp add: hash_loop_def)

section \<open>Settings\<close>

text \<open>A JavaScript number is a finite real or one of NaN and the infinities.\<close>

datatype js_num = Finite real | NotFinite

record cache_partial =
  cp_enabled :: "bool option"
  cp_maxSize :: "js_num option"
  cp_ttlMs :: "js_num option"

record cache_settings =
  cs_enabled :: bool
  cs_maxSize :: js_num
  cs_ttlMs :: js_num

definition DEFAULT_SIMULATION_CACHE_CONFIG :: cache_settings where
  "DEFAULT_SIMULATION_CACHE_CONFIG =
    \<lparr>cs_enabled = True, cs_maxSize = Finite 1000, cs_ttlMs = Finite 60000\<rparr>"

definition merge_settings :: "cache_settings \<Rightarrow> cache_partial \<Rightarrow> cache_settings" where
  "merge_settings d p =
    \<lparr>cs_enabled = (case cp_enabled p of None \<Rightarrow> cs_enabled d | Some v \<Rightarrow> v),
     cs_maxSize = (case cp_maxSize p of None \<Rightarrow> cs_maxSize d | Some v \<Rightarrow> v),
     cs_ttlMs = (case cp_ttlMs p of None \<Rightarrow> cs_ttlMs d | Some v \<Rightarrow> v)\<rparr>"

definition resolveSimulationCacheConfig ::
  "(cache_partial \<times> (string \<Rightarrow> cache_partial option)) option \<Rightarrow> string \<Rightarrow> cache_settings" where
  "resolveSimulationCacheConfig config networkPassphrase =
    (let merged = (case config of
           None \<Rightarrow> DEFAULT_SIMULATION_CACHE_CONFIG
         | Some (shared, perNetwork) \<Rightarrow>
             (let base = merge_settings DEFAULT_SIMULATION_CACHE_CONFIG shared
              in case perNetwork networkPassphrase of None \<Rightarrow> base | Some p \<Rightarrow> merge_settings base p));
         size = (case cs_maxSize merged of
                   Finite x \<Rightarrow> if x < 1 then cs_maxSize DEFAULT_SIMULATION_CACHE_CONFIG else Finite x
                 | NotFinite \<Rightarrow> cs_maxSize DEFAULT_SIMULATION_CACHE_CONFIG);
         ttl = (case cs_ttlMs merged of
                  Finite x \<Rightarrow> if x < 0 then cs_ttlMs DEFAULT_SIMULATION_CACHE_CONFIG else Finite x
                | NotFinite \<Rightarrow> cs_ttlMs DEFAULT_SIMULATION_CACHE_CONFIG)
     in merged\<lparr>cs_maxSize := (case size of Finite x \<Rightarrow> Finite (of_int \<lfloor>x\<rfloor>) | NotFinite \<Rightarrow> NotFinite),
               cs_ttlMs := ttl\<rparr>)"

lemma resolveSimulationCacheConfig_valid:
  "\<exists>n t. cs_maxSize (resolveSimulationCacheConfig cfg net) = Finite (real_of_int n) \<and> 1 \<le> n
     \<and> cs_ttlMs (resolveSimulationCacheConfig cfg net) = Finite t \<and> 0 \<le> t"
proof -
  have floor: "1 \<le> \<lfloor>x\<rfloor>" if "\<not> x < 1" for x :: real
    using that by (simp add: le_floor_iff)
  have k: "(1000 :: real) = of_int 1000" by simp
  show ?thesis
    by (auto simp: resolveSimulationCacheConfig_def Let_def DEFAULT_SIMULATION_CACHE_CONFIG_def
        split: js_num.splits intro: floor exI [of _ 1000])
qed

section \<open>The cache\<close>

record 'r cache_entry =
  ce_result :: 'r
  ce_expiresAt :: real
  ce_accessCount :: nat
  ce_lastAccessedAt :: real

record 'r sim_cache =
  sc_cache :: "(string, 'r cache_entry) js_map"
  sc_maxSize :: nat
  sc_ttlMs :: real
  sc_hits :: nat
  sc_misses :: nat
  sc_evictions :: nat

definition sc_new :: "real \<Rightarrow> real \<Rightarrow> 'r sim_cache" where
  "sc_new maxSize ttlMs =
    \<lparr>sc_cache = [], sc_maxSize = nat (max 1 \<lfloor>maxSize\<rfloor>), sc_ttlMs = ttlMs,
     sc_hits = 0, sc_misses = 0, sc_evictions = 0\<rparr>"

text \<open>\<open>now\<close> is the reading of the expiry test, \<open>now'\<close> the one stored as last access.\<close>

definition sc_get :: "'r sim_cache \<Rightarrow> string \<Rightarrow> real \<Rightarrow> real \<Rightarrow> 'r option \<times> 'r sim_cache" where
  "sc_get c key now now' =
    (case jget (sc_cache c) key of
       None \<Rightarrow> (None, c\<lparr>sc_misses := Suc (sc_misses c)\<rparr>)
     | Some e \<Rightarrow>
         (if now > ce_expiresAt e
          then (None, c\<lparr>sc_cache := jdel (sc_cache c) key, sc_misses := Suc (sc_misses c)\<rparr>)
          else let e' = e\<lparr>ce_accessCount := Suc (ce_accessCount e), ce_lastAccessedAt := now'\<rparr>
               in (Some (ce_result e'),
                   c\<lparr>sc_cache := jset (jdel (sc_cache c) key) key e', sc_hits := Suc (sc_hits c)\<rparr>)))"

definition sc_evictLRU :: "'r sim_cache \<Rightarrow> 'r sim_cache" where
  "sc_evictLRU c =
    (case jkeys (sc_cache c) of
       [] \<Rightarrow> c
     | k # _ \<Rightarrow> c\<lparr>sc_cache := jdel (sc_cache c) k, sc_evictions := Suc (sc_evictions c)\<rparr>)"

definition sc_set :: "'r sim_cache \<Rightarrow> string \<Rightarrow> 'r \<Rightarrow> real \<Rightarrow> 'r sim_cache" where
  "sc_set c key result now =
    (let c1 = (if sc_maxSize c \<le> length (sc_cache c) \<and> \<not> jhas (sc_cache c) key
               then sc_evictLRU c else c);
         e = \<lparr>ce_result = result, ce_expiresAt = now + sc_ttlMs c1, ce_accessCount = 0,
              ce_lastAccessedAt = now\<rparr>
     in c1\<lparr>sc_cache := jset (jdel (sc_cache c1) key) key e\<rparr>)"

definition sc_clearExpired :: "'r sim_cache \<Rightarrow> real \<Rightarrow> 'r sim_cache" where
  "sc_clearExpired c now =
    c\<lparr>sc_cache := filter (\<lambda>(k, e). \<not> now > ce_expiresAt e) (sc_cache c)\<rparr>"

definition sc_clear :: "'r sim_cache \<Rightarrow> 'r sim_cache" where
  "sc_clear c = c\<lparr>sc_cache := [], sc_hits := 0, sc_misses := 0, sc_evictions := 0\<rparr>"

definition sc_invalidate :: "'r sim_cache \<Rightarrow> string \<Rightarrow> 'r sim_cache" where
  "sc_invalidate c key = c\<lparr>sc_cache := jdel (sc_cache c) key\<rparr>"

definition sc_invalidateAll :: "'r sim_cache \<Rightarrow> 'r sim_cache" where
  "sc_invalidateAll c = c\<lparr>sc_cache := []\<rparr>"

record cache_statistics =
  st_hits :: nat
  st_misses :: nat
  st_evictions :: nat
  st_size :: nat
  st_hitRate :: real

definition sc_getStatistics :: "'r sim_cache \<Rightarrow> real \<Rightarrow> cache_statistics \<times> 'r sim_cache" where
  "sc_getStatistics c now =
    (let c1 = sc_clearExpired c now; total = sc_hits c1 + sc_misses c1
     in (\<lparr>st_hits = sc_hits c1, st_misses = sc_misses c1, st_evictions = sc_evictions c1,
          st_size = length (sc_cache c1),
          st_hitRate = (if total > 0 then real (sc_hits c1) / real total * 100 else 0)\<rparr>, c1))"

definition sc_has :: "'r sim_cache \<Rightarrow> string \<Rightarrow> real \<Rightarrow> bool \<times> 'r sim_cache" where
  "sc_has c key now =
    (case jget (sc_cache c) key of
       None \<Rightarrow> (False, c)
     | Some e \<Rightarrow>
         (if now > ce_expiresAt e then (False, c\<lparr>sc_cache := jdel (sc_cache c) key\<rparr>)
          else (True, c)))"

definition sc_resetStatistics :: "'r sim_cache \<Rightarrow> 'r sim_cache" where
  "sc_resetStatistics c = c\<lparr>sc_hits := 0, sc_misses := 0, sc_evictions := 0\<rparr>"

definition sc_getCapacity :: "'r sim_cache \<Rightarrow> nat" where
  "sc_getCapacity c = sc_maxSize c"

definition sc_getSize :: "'r sim_cache \<Rightarrow> nat" where
  "sc_getSize c = length (sc_cache c)"

text \<open>The public operations that change the cache, and runs of them.\<close>

datatype 'r sc_op =
    Get string real real | Put string 'r real | Has string real | Invalidate string
  | InvalidateAll | Clear | ClearExpired real | Statistics real | ResetStatistics

fun sc_step :: "'r sim_cache \<Rightarrow> 'r sc_op \<Rightarrow> 'r sim_cache" where
  "sc_step c (Get k n n') = snd (sc_get c k n n')"
| "sc_step c (Put k r n) = sc_set c k r n"
| "sc_step c (Has k n) = snd (sc_has c k n)"
| "sc_step c (Invalidate k) = sc_invalidate c k"
| "sc_step c InvalidateAll = sc_invalidateAll c"
| "sc_step c Clear = sc_clear c"
| "sc_step c (ClearExpired n) = sc_clearExpired c n"
| "sc_step c (Statistics n) = snd (sc_getStatistics c n)"
| "sc_step c ResetStatistics = sc_resetStatistics c"

definition sc_run :: "'r sim_cache \<Rightarrow> 'r sc_op list \<Rightarrow> 'r sim_cache" where
  "sc_run c ops = foldl sc_step c ops"

section \<open>Bounds and order\<close>

definition sc_inv :: "'r sim_cache \<Rightarrow> bool" where
  "sc_inv c = (jwf (sc_cache c) \<and> length (sc_cache c) \<le> sc_maxSize c \<and> 1 \<le> sc_maxSize c)"

text \<open>The recency list: oldest first, a touched key moves to the end, a full list drops its head.\<close>

definition lru_push :: "nat \<Rightarrow> 'k \<Rightarrow> 'k list \<Rightarrow> 'k list" where
  "lru_push cap k ks =
    (if cap \<le> length ks \<and> k \<notin> set ks then tl ks @ [k] else filter (\<lambda>x. x \<noteq> k) ks @ [k])"

lemma sc_inv_new: "sc_inv (sc_new m t)"
  by (simp add: sc_inv_def sc_new_def)

lemma keys_evict:
  assumes "sc_inv c"
  shows "jkeys (sc_cache (sc_evictLRU c)) = tl (jkeys (sc_cache c))"
    and "jwf (sc_cache (sc_evictLRU c))"
proof -
  show "jkeys (sc_cache (sc_evictLRU c)) = tl (jkeys (sc_cache c))"
    using assms
    by (auto simp: sc_evictLRU_def sc_inv_def jwf_keys jsmap filter_id_conv split: list.split)
  then show "jwf (sc_cache (sc_evictLRU c))"
    using assms by (simp add: jwf_keys sc_inv_def distinct_tl)
qed

lemma sc_evict_fields [simp]:
  "sc_maxSize (sc_evictLRU c) = sc_maxSize c"
  "sc_ttlMs (sc_evictLRU c) = sc_ttlMs c"
  by (simp_all add: sc_evictLRU_def split: list.split)

lemma sc_set_fields [simp]:
  "sc_maxSize (sc_set c k r n) = sc_maxSize c"
  "sc_ttlMs (sc_set c k r n) = sc_ttlMs c"
  by (simp_all add: sc_set_def Let_def)

lemma sc_set_keys:
  assumes "sc_inv c"
  shows "jkeys (sc_cache (sc_set c k r n)) = lru_push (sc_maxSize c) k (jkeys (sc_cache c))"
  using keys_evict [OF assms]
  by (auto simp: sc_set_def Let_def lru_push_def jsmap jm.keys_touch
      intro!: filter_neq_id dest: in_set_tl)

lemma lru_push_length: "length ks \<le> cap \<Longrightarrow> 1 \<le> cap \<Longrightarrow> length (lru_push cap k ks) \<le> cap"
  using length_filter_neq [of k ks] by (cases "k \<in> set ks") (auto simp: lru_push_def filter_neq_id)

lemma lru_push_distinct: "distinct ks \<Longrightarrow> distinct (lru_push cap k ks)"
  by (auto simp: lru_push_def distinct_tl dest: in_set_tl)

lemma sc_inv_set:
  assumes "sc_inv c"
  shows "sc_inv (sc_set c k r n)"
proof -
  have "length (jkeys (sc_cache (sc_set c k r n))) \<le> sc_maxSize c"
    using assms unfolding sc_set_keys [OF assms] by (simp add: sc_inv_def lru_push_length)
  then show ?thesis
    using assms sc_set_keys [OF assms, of k r n]
    using length_jkeys [of "sc_cache (sc_set c k r n)"]
    by (simp add: sc_inv_def jwf_keys lru_push_distinct del: length_jkeys)
qed

lemma sc_get_fields [simp]:
  "sc_maxSize (snd (sc_get c k n n')) = sc_maxSize c"
  "sc_ttlMs (snd (sc_get c k n n')) = sc_ttlMs c"
  by (simp_all add: sc_get_def Let_def split: option.split)

lemma sc_get_hit:
  "fst (sc_get c k n n') = Some r \<Longrightarrow>
   jkeys (sc_cache (snd (sc_get c k n n'))) = filter (\<lambda>x. x \<noteq> k) (jkeys (sc_cache c)) @ [k]
   \<and> k \<in> set (jkeys (sc_cache c))"
  by (auto simp: sc_get_def Let_def jm.keys_touch jkeys_jget split: option.splits if_splits)

lemma sc_get_miss:
  "fst (sc_get c k n n') = None \<Longrightarrow>
   jkeys (sc_cache (snd (sc_get c k n n'))) = filter (\<lambda>x. x \<noteq> k) (jkeys (sc_cache c))"
  by (auto simp: sc_get_def Let_def jsmap jkeys_jget filter_id_conv split: option.splits if_splits
      intro!: filter_True [symmetric])

lemma sc_inv_get:
  assumes "sc_inv c"
  shows "sc_inv (snd (sc_get c k n n'))"
proof (cases "fst (sc_get c k n n')")
  case None
  have "length (filter (\<lambda>x. x \<noteq> k) (jkeys (sc_cache c))) \<le> sc_maxSize c"
    using assms length_filter_le [of "\<lambda>x. x \<noteq> k" "jkeys (sc_cache c)"] by (simp add: sc_inv_def)
  then show ?thesis
    using sc_get_miss [OF None] assms length_jkeys [of "sc_cache (snd (sc_get c k n n'))"]
    by (simp add: sc_inv_def jwf_keys del: length_jkeys)
next
  case (Some r)
  have "length (filter (\<lambda>x. x \<noteq> k) (jkeys (sc_cache c))) < length (jkeys (sc_cache c))"
    using sc_get_hit [OF Some] by (intro length_filter_less [of k]) auto
  then have "length (filter (\<lambda>x. x \<noteq> k) (jkeys (sc_cache c)) @ [k]) \<le> sc_maxSize c"
    using assms by (simp add: sc_inv_def)
  then show ?thesis
    using sc_get_hit [OF Some] assms length_jkeys [of "sc_cache (snd (sc_get c k n n'))"]
    by (simp add: sc_inv_def jwf_keys del: length_jkeys)
qed

lemma sc_inv_sub:
  "sc_inv c \<Longrightarrow> sc_inv (c\<lparr>sc_cache := filter P (sc_cache c)\<rparr>)"
  "sc_inv (c\<lparr>sc_cache := filter P (sc_cache c)\<rparr>) \<Longrightarrow>
     sc_inv (c\<lparr>sc_cache := filter P (sc_cache c), sc_hits := h, sc_misses := m, sc_evictions := e\<rparr>)"
  by (auto simp: sc_inv_def jwf_filter intro: le_trans [OF length_filter_le])

lemma sc_inv_clearExpired: "sc_inv c \<Longrightarrow> sc_inv (sc_clearExpired c n)"
  by (simp add: sc_clearExpired_def sc_inv_sub)

lemma sc_inv_step: "sc_inv c \<Longrightarrow> sc_inv (sc_step c op)"
proof (cases op)
  case (Has k n)
  then show "sc_inv c \<Longrightarrow> ?thesis"
    by (auto simp: sc_has_def jdel_def sc_inv_sub split: option.split)
next
  case (Invalidate k)
  then show "sc_inv c \<Longrightarrow> ?thesis" by (simp add: sc_invalidate_def jdel_def sc_inv_sub)
next
  case (Statistics n)
  then show "sc_inv c \<Longrightarrow> ?thesis" by (simp add: sc_getStatistics_def Let_def sc_inv_clearExpired)
qed (auto simp: sc_inv_get sc_inv_set sc_inv_clearExpired,
     auto simp: sc_inv_def sc_invalidateAll_def sc_clear_def sc_resetStatistics_def)

lemma sc_inv_run: "sc_inv c \<Longrightarrow> sc_inv (sc_run c ops)"
  unfolding sc_run_def by (induction ops arbitrary: c) (auto intro: sc_inv_step)

section \<open>What a hit may return\<close>

text \<open>
  The abstract cache: an unbounded map from keys to the time and value of the last \<open>set\<close>. It is
  what the implementation must agree with whenever it answers.
\<close>

type_synonym 'r spec_cache = "string \<Rightarrow> (real \<times> 'r) option"

fun spec_step :: "'r spec_cache \<Rightarrow> 'r sc_op \<Rightarrow> 'r spec_cache" where
  "spec_step m (Put k r n) = m(k := Some (n, r))"
| "spec_step m (Invalidate k) = m(k := None)"
| "spec_step m InvalidateAll = (\<lambda>_. None)"
| "spec_step m Clear = (\<lambda>_. None)"
| "spec_step m _ = m"

definition spec_run :: "'r sc_op list \<Rightarrow> 'r spec_cache" where
  "spec_run ops = foldl spec_step (\<lambda>_. None) ops"

definition spec_get :: "'r spec_cache \<Rightarrow> real \<Rightarrow> string \<Rightarrow> real \<Rightarrow> 'r option" where
  "spec_get m ttl k now =
    (case m k of None \<Rightarrow> None | Some (t, r) \<Rightarrow> if now \<le> t + ttl then Some r else None)"

definition sc_abs :: "'r sim_cache \<Rightarrow> 'r spec_cache \<Rightarrow> bool" where
  "sc_abs c m = (\<forall>k e. jget (sc_cache c) k = Some e \<longrightarrow>
     (\<exists>t. m k = Some (t, ce_result e) \<and> ce_expiresAt e = t + sc_ttlMs c))"

lemma sc_absD: "sc_abs c m \<Longrightarrow> jget (sc_cache c) k = Some e \<Longrightarrow>
    \<exists>t. m k = Some (t, ce_result e) \<and> ce_expiresAt e = t + sc_ttlMs c"
  by (auto simp: sc_abs_def)

lemma sc_step_ttl [simp]: "sc_ttlMs (sc_step c op) = sc_ttlMs c"
  by (cases op) (auto simp: sc_has_def sc_invalidate_def sc_invalidateAll_def sc_clear_def
      sc_clearExpired_def sc_getStatistics_def Let_def sc_resetStatistics_def split: option.split)

lemma jget_evict: "jget (sc_cache (sc_evictLRU c)) k = Some e \<Longrightarrow> jget (sc_cache c) k = Some e"
  by (auto simp: sc_evictLRU_def jsmap split: list.splits if_splits)

lemma jget_expired:
  "sc_inv c \<Longrightarrow> jget (sc_cache (sc_clearExpired c n)) k = Some e \<Longrightarrow> jget (sc_cache c) k = Some e"
  by (auto simp: sc_clearExpired_def sc_inv_def jget_filter split: option.splits if_splits)

lemma sc_abs_expired:
  assumes "sc_abs c m" and "sc_inv c"
  shows "sc_abs (sc_clearExpired c n) m"
proof -
  have "sc_ttlMs (sc_clearExpired c n) = sc_ttlMs c" by (simp add: sc_clearExpired_def)
  then show ?thesis using assms jget_expired [OF assms(2), of n] unfolding sc_abs_def by metis
qed

lemma jget_sc_set:
  "jget (sc_cache (sc_set c k r n)) k = Some \<lparr>ce_result = r, ce_expiresAt = n + sc_ttlMs c,
      ce_accessCount = 0, ce_lastAccessedAt = n\<rparr>"
  "k' \<noteq> k \<Longrightarrow> jget (sc_cache (sc_set c k r n)) k' = Some e \<Longrightarrow> jget (sc_cache c) k' = Some e"
  by (auto simp: sc_set_def Let_def jm.get_touch split: if_splits dest: jget_evict)

lemma sc_abs_step:
  assumes "sc_abs c m" and "sc_inv c"
  shows "sc_abs (sc_step c op) (spec_step m op)"
proof (cases op)
  case (Get k n n')
  then show ?thesis
    using assms unfolding sc_abs_def
    by (auto simp: sc_get_def Let_def jsmap split: option.splits if_splits)
next
  case (Put k r n)
  then show ?thesis
    using assms jget_sc_set(1) [of c k r n] jget_sc_set(2) [where c = c and k = k and r = r and n = n]
    unfolding sc_abs_def by (auto split: if_splits)
next
  case (Has k n)
  then show ?thesis
    using assms unfolding sc_abs_def by (auto simp: sc_has_def jsmap split: option.splits if_splits)
next
  case (Invalidate k)
  then show ?thesis
    using assms unfolding sc_abs_def by (auto simp: sc_invalidate_def jsmap)
next
  case (ClearExpired n)
  then show ?thesis using sc_abs_expired [OF assms] by simp
next
  case (Statistics n)
  then show ?thesis using sc_abs_expired [OF assms] by (simp add: sc_getStatistics_def Let_def)
qed (use assms in \<open>auto simp: sc_abs_def sc_invalidateAll_def sc_clear_def sc_resetStatistics_def\<close>)

lemma sc_abs_run:
  "sc_abs c m \<Longrightarrow> sc_inv c \<Longrightarrow> sc_abs (foldl sc_step c ops) (foldl spec_step m ops)"
  by (induction ops arbitrary: c m) (auto intro: sc_abs_step sc_inv_step)

lemma sc_get_abs:
  assumes "sc_abs c m" and "fst (sc_get c k n n') = Some r"
  shows "spec_get m (sc_ttlMs c) k n = Some r"
  using assms(2) sc_absD [OF assms(1), of k]
  by (auto simp: sc_get_def Let_def spec_get_def split: option.splits if_splits)

section \<open>What the capacity keeps\<close>

fun sc_puts :: "'r sim_cache \<Rightarrow> (string \<times> 'r \<times> real) list \<Rightarrow> 'r sim_cache" where
  "sc_puts c [] = c"
| "sc_puts c ((k, r, n) # ps) = sc_puts (sc_set c k r n) ps"

text \<open>\<open>k\<close> is present, and everything more recent than it is among \<open>S\<close>.\<close>

definition behind :: "'k \<Rightarrow> 'k set \<Rightarrow> 'k list \<Rightarrow> bool" where
  "behind k S ks = (\<exists>pre post. ks = pre @ k # post \<and> set post \<subseteq> S)"

lemma behind_push:
  assumes "behind k S ks" and "distinct ks" and "k' \<noteq> k" and "k \<notin> S" and "finite S"
    and "card (insert k' S) < cap"
  shows "behind k (insert k' S) (lru_push cap k' ks)"
proof -
  obtain pre post where ks: "ks = pre @ k # post" "set post \<subseteq> S"
    using assms(1) by (auto simp: behind_def)
  show ?thesis
  proof (cases "cap \<le> length ks \<and> k' \<notin> set ks")
    case True
    have "pre \<noteq> []"
    proof
      assume "pre = []"
      then have "length ks = Suc (card (set post))"
        using ks assms(2) by (simp add: distinct_card)
      moreover have "card (set post) < card (insert k' S)"
        using ks True assms(5) \<open>pre = []\<close> by (intro psubset_card_mono) auto
      ultimately show False using True assms(6) by simp
    qed
    then have "tl ks @ [k'] = tl pre @ k # (post @ [k'])" using ks by (cases pre) auto
    then show ?thesis
      using True ks(2) unfolding behind_def lru_push_def by (intro exI conjI) auto
  next
    case False
    have "filter (\<lambda>x. x \<noteq> k') ks @ [k'] =
        filter (\<lambda>x. x \<noteq> k') pre @ k # (filter (\<lambda>x. x \<noteq> k') post @ [k'])"
      using ks assms(3) by simp
    then show ?thesis
      using False ks(2) unfolding behind_def lru_push_def by (intro exI conjI) auto
  qed
qed

lemma behind_mem: "behind k S ks \<Longrightarrow> k \<in> set ks"
  by (auto simp: behind_def)

lemma behind_touch: "behind k {} (lru_push cap k ks)"
  by (auto simp: behind_def lru_push_def)

lemma jget_set_other:
  assumes "sc_inv c" and "k \<in> set (jkeys (sc_cache (sc_set c k' r n)))" and "k' \<noteq> k"
  shows "jget (sc_cache (sc_set c k' r n)) k = jget (sc_cache c) k"
proof -
  have "jget (sc_cache (sc_set c k' r n)) k \<noteq> None"
    using assms(2) by (simp add: jkeys_jget)
  then show ?thesis using jget_sc_set(2) [of k k'] assms(3) by fastforce
qed

lemma sc_puts_keeps:
  assumes "sc_inv c" and "behind k S (jkeys (sc_cache c))" and "finite S" and "k \<notin> S"
    and "k \<notin> fst ` set ps" and "card (S \<union> fst ` set ps) < sc_maxSize c"
  shows "jget (sc_cache (sc_puts c ps)) k = jget (sc_cache c) k"
  using assms
proof (induction ps arbitrary: c S)
  case Nil
  then show ?case by simp
next
  case (Cons p ps)
  obtain k' r n where p: "p = (k', r, n)" by (cases p)
  let ?c = "sc_set c k' r n"
  have ne: "k' \<noteq> k" using Cons.prems(5) p by force
  have "card (insert k' S) \<le> card (S \<union> fst ` set (p # ps))"
    using Cons.prems(3) p by (intro card_mono) auto
  with Cons.prems(6) have small: "card (insert k' S) < sc_maxSize c" by simp
  have b: "behind k (insert k' S) (jkeys (sc_cache ?c))"
    unfolding sc_set_keys [OF Cons.prems(1)]
    using Cons.prems ne small by (intro behind_push) (auto simp: sc_inv_def jwf_keys)
  have eq: "insert k' S \<union> fst ` set ps = S \<union> fst ` set (p # ps)" using p by auto
  have "jget (sc_cache (sc_puts ?c ps)) k = jget (sc_cache ?c) k"
    using Cons.prems ne b by (intro Cons.IH [of ?c "insert k' S"]) (auto simp: sc_inv_set eq p)
  then show ?case
    using jget_set_other [OF Cons.prems(1) behind_mem [OF b] ne] p by simp
qed

section \<open>Properties\<close>

text \<open>
  C2: in every run of the public operations from a new cache, the number of entries never exceeds
  the capacity fixed by the constructor (at least one), and no key is held twice.
\<close>

theorem sim_cache_bounded:
  "sc_getSize (sc_run (sc_new maxSize ttlMs) ops) \<le> nat (max 1 \<lfloor>maxSize\<rfloor>) \<and>
   distinct (jkeys (sc_cache (sc_run (sc_new maxSize ttlMs) ops)))"
proof -
  have inv: "sc_inv (sc_run (sc_new maxSize ttlMs) ops)"
    by (rule sc_inv_run [OF sc_inv_new])
  have "sc_maxSize (sc_step c op) = sc_maxSize c" for c :: "'a sim_cache" and op
    by (cases op) (auto simp: sc_has_def sc_invalidate_def sc_invalidateAll_def sc_clear_def
        sc_clearExpired_def sc_getStatistics_def Let_def sc_resetStatistics_def split: option.split)
  then have "sc_maxSize (foldl sc_step c ops) = sc_maxSize c" for c :: "'a sim_cache"
    by (induction ops arbitrary: c) auto
  then have "sc_maxSize (sc_run (sc_new maxSize ttlMs :: 'a sim_cache) ops) = nat (max 1 \<lfloor>maxSize\<rfloor>)"
    by (simp add: sc_run_def) (simp add: sc_new_def)
  then show ?thesis
    using inv by (simp add: sc_inv_def sc_getSize_def jwf_keys)
qed

text \<open>
  C3: the cache refines the unbounded time-to-live map: whatever a run of operations answers to
  \<open>get\<close> is the value of the latest \<open>set\<close> for that key, not invalidated since and not older than the
  time to live.
\<close>

theorem sim_cache_sound:
  assumes "fst (sc_get (sc_run (sc_new maxSize ttlMs) ops) k now now') = Some r"
  shows "spec_get (spec_run ops) ttlMs k now = Some r"
proof -
  let ?c = "sc_new maxSize ttlMs :: 'a sim_cache"
  have "sc_abs ?c (\<lambda>_. None)" by (simp add: sc_abs_def sc_new_def)
  then have abs: "sc_abs (sc_run ?c ops) (spec_run ops)"
    unfolding sc_run_def spec_run_def by (rule sc_abs_run [OF _ sc_inv_new])
  have "sc_ttlMs (foldl sc_step c ops) = sc_ttlMs c" for c :: "'a sim_cache"
    by (induction ops arbitrary: c) auto
  then have "sc_ttlMs (sc_run ?c ops) = ttlMs" by (simp add: sc_run_def) (simp add: sc_new_def)
  with sc_get_abs [OF abs assms] show ?thesis by simp
qed

theorem sim_cache_sound_witness:
  "fst (sc_get (sc_run (sc_new 2 100) [Put ''a'' (1::nat) 0, Put ''a'' 2 10, Get ''b'' 11 11]) ''a'' 50 50) = Some 2
   \<and> spec_get (spec_run [Put ''a'' (1::nat) 0, Put ''a'' 2 10, Get ''b'' 11 11]) 100 ''a'' 50 = Some 2"
proof -
  have "fst (sc_get (sc_run (sc_new 2 100) [Put ''a'' (1::nat) 0, Put ''a'' 2 10, Get ''b'' 11 11]) ''a'' 50 50) = Some 2"
    by (simp add: sc_run_def sc_new_def sc_set_def sc_get_def jhas_def jdel_def jget_def)
  then show ?thesis by (intro conjI sim_cache_sound)
qed

text \<open>
  Eviction is least-recently-used: an entry survives, and is still returned within its time to
  live, as long as fewer than \<open>maxSize\<close> distinct other keys are set after it.
\<close>

theorem sim_cache_retains:
  assumes "sc_inv c" and "k \<notin> fst ` set ps" and "card (fst ` set ps) < sc_maxSize c"
    and "now \<le> n + sc_ttlMs c"
  shows "fst (sc_get (sc_puts (sc_set c k r n) ps) k now now') = Some r"
proof -
  let ?c = "sc_set c k r n"
  have "jget (sc_cache (sc_puts ?c ps)) k = jget (sc_cache ?c) k"
    using assms by (intro sc_puts_keeps [where S = "{}"]) (auto simp: sc_inv_set sc_set_keys behind_touch)
  then show ?thesis
    using assms(4) by (simp add: jget_sc_set(1) sc_get_def Let_def)
qed

theorem sim_cache_retains_witness:
  "fst (sc_get (sc_puts (sc_set (sc_new 3 1000) ''k'' (7::nat) 0) [(''a'', 1, 1), (''b'', 2, 2), (''a'', 3, 3)])
     ''k'' 900 900) = Some 7"
proof (rule sim_cache_retains)
  show "sc_inv (sc_new 3 1000 :: nat sim_cache)" by (rule sc_inv_new)
  show "card (fst ` set [(''a'', 1::nat, 1::real), (''b'', 2, 2), (''a'', 3, 3)])
      < sc_maxSize (sc_new 3 1000 :: nat sim_cache)"
    by (simp add: card_insert_if sc_new_def)
qed (simp_all add: sc_new_def)

text \<open>
  A cache key has always eight hexadecimal digits, so distinct transactions can share one: two
  envelopes that differ only in their first two characters \<open>Aa\<close>/\<open>BB\<close> do, for every remainder,
  source, ledger and network, and a \<open>get\<close> for the second returns the result stored for the first.
\<close>

theorem sim_cache_key_collision:
  "length (generateKey (''Aa'' @ u) source ledger net) = 8 \<and>
   generateKey (''Aa'' @ u) source ledger net = generateKey (''BB'' @ u) source ledger net \<and>
   (now \<le> n + sc_ttlMs c \<longrightarrow>
      fst (sc_get (sc_set c (generateKey (''Aa'' @ u) source ledger net) r n)
             (generateKey (''BB'' @ u) source ledger net) now now') = Some r)"
proof -
  have base: "hash_loop ''Aa'' = hash_loop ''BB''"
    by (simp add: hash_loop_def hash_step_def)
  have eq: "generateKey (''Aa'' @ u) source ledger net = generateKey (''BB'' @ u) source ledger net"
    using hash_loop_append [OF base]
    unfolding generateKey_def hashKey_def by (simp only: append_assoc)
  show ?thesis
    unfolding eq [symmetric]
    by (simp add: eq jget_sc_set(1) sc_get_def Let_def) (simp add: generateKey_def length_hashKey)
qed

theorem sim_cache_key_collision_witness:
  "fst (sc_get (sc_set (sc_new 10 60000) (generateKey ''AaAA'' None None None) (7::nat) 0)
     (generateKey ''BBAA'' None None None) 5 5) = Some 7"
proof -
  have "5 \<le> 0 + sc_ttlMs (sc_new 10 60000 :: nat sim_cache)" by (simp add: sc_new_def)
  with sim_cache_key_collision [of "''AA''" None None None 5 0 "sc_new 10 60000" "7::nat" 5]
  show ?thesis unfolding append.simps by blast
qed

end
