(* ===== verification/Failover.thy ===== *)
theory Failover
  imports Prelude
begin

text \<open>
  The endpoint failover manager of \<open>packages/rpc/src/rpc-failover.ts\<close>: per-endpoint health with
  failure and success thresholds, round-robin selection of the next healthy endpoint, and the sticky
  window. Clock readings are arguments; the interval timer is the flag whether it is running, and a
  health-check round is the sequence of its probe outcomes.
\<close>

section \<open>State and operations\<close>

record endpoint =
  ep_url :: string
  ep_isHealthy :: bool
  ep_consecutiveFailures :: nat
  ep_consecutiveSuccesses :: nat
  ep_lastChecked :: "int option"

record failover_config =
  fc_healthCheckIntervalMs :: int
  fc_maxFailuresBeforeFallback :: int
  fc_successThresholdToRestore :: int
  fc_stickyDurationMs :: "int option"

definition DEFAULT_FAILOVER_CONFIG :: failover_config where
  "DEFAULT_FAILOVER_CONFIG =
    \<lparr>fc_healthCheckIntervalMs = 30000, fc_maxFailuresBeforeFallback = 3,
     fc_successThresholdToRestore = 2, fc_stickyDurationMs = Some 0\<rparr>"

record failover =
  fo_endpoints :: "endpoint list"
  fo_config :: failover_config
  fo_currentIndex :: nat
  fo_timer :: bool
  fo_stickyUrl :: "string option"
  fo_stickySince :: "int option"

text \<open>A partial configuration, spread over the defaults.\<close>

record failover_partial =
  fp_healthCheckIntervalMs :: "int option"
  fp_maxFailuresBeforeFallback :: "int option"
  fp_successThresholdToRestore :: "int option"
  fp_stickyDurationMs :: "int option"

definition merge_failover_config :: "failover_partial \<Rightarrow> failover_config" where
  "merge_failover_config p =
    (let d = DEFAULT_FAILOVER_CONFIG; over = (\<lambda>v x. case v of None \<Rightarrow> x | Some y \<Rightarrow> y)
     in \<lparr>fc_healthCheckIntervalMs = over (fp_healthCheckIntervalMs p) (fc_healthCheckIntervalMs d),
         fc_maxFailuresBeforeFallback = over (fp_maxFailuresBeforeFallback p) (fc_maxFailuresBeforeFallback d),
         fc_successThresholdToRestore = over (fp_successThresholdToRestore p) (fc_successThresholdToRestore d),
         fc_stickyDurationMs = (case fp_stickyDurationMs p of None \<Rightarrow> fc_stickyDurationMs d | Some y \<Rightarrow> Some y)\<rparr>)"

definition no_override :: failover_partial where
  "no_override = \<lparr>fp_healthCheckIntervalMs = None, fp_maxFailuresBeforeFallback = None,
     fp_successThresholdToRestore = None, fp_stickyDurationMs = None\<rparr>"

definition fo_new :: "string list \<Rightarrow> failover_partial \<Rightarrow> string + failover" where
  "fo_new urls cfg =
    (if urls = [] then Inl ''RpcFailoverManager requires at least one RPC URL''
     else Inr \<lparr>fo_endpoints = map (\<lambda>u. \<lparr>ep_url = u, ep_isHealthy = True, ep_consecutiveFailures = 0,
                                        ep_consecutiveSuccesses = 0, ep_lastChecked = None\<rparr>) urls,
               fo_config = merge_failover_config cfg, fo_currentIndex = 0, fo_timer = False,
               fo_stickyUrl = None, fo_stickySince = None\<rparr>)"

text \<open>\<open>this.endpoints[i]\<close> is \<open>undefined\<close> out of range.\<close>

definition ep_at :: "endpoint list \<Rightarrow> nat \<Rightarrow> endpoint option" where
  "ep_at eps i = (if i < length eps then Some (eps ! i) else None)"

definition sticky_on :: "failover_config \<Rightarrow> bool" where
  "sticky_on cfg = (case fc_stickyDurationMs cfg of None \<Rightarrow> False | Some d \<Rightarrow> d > 0)"

definition least_failed :: "endpoint list \<Rightarrow> nat" where
  "least_failed eps = foldl (\<lambda>least i.
      if ep_consecutiveFailures (eps ! i) < ep_consecutiveFailures (eps ! least) then i else least)
    0 [1..<length eps]"

definition pick_order :: "nat \<Rightarrow> nat \<Rightarrow> nat list" where
  "pick_order cur len = map (\<lambda>offset. (cur + offset) mod len) [1..<Suc len]"

definition pickNextHealthy :: "failover \<Rightarrow> failover" where
  "pickNextHealthy f =
    (let eps = fo_endpoints f
     in case find (\<lambda>candidate. ep_isHealthy (eps ! candidate))
               (pick_order (fo_currentIndex f) (length eps)) of
          Some candidate \<Rightarrow> f\<lparr>fo_currentIndex := candidate\<rparr>
        | None \<Rightarrow> f\<lparr>fo_currentIndex := least_failed eps\<rparr>)"

definition mark_sticky :: "failover \<Rightarrow> endpoint \<Rightarrow> int \<Rightarrow> failover" where
  "mark_sticky f ep now' =
    (if sticky_on (fo_config f)
     then f\<lparr>fo_stickyUrl := Some (ep_url ep), fo_stickySince := Some now'\<rparr> else f)"

text \<open>The selection below the sticky window; \<open>None\<close> is the property read of \<open>undefined\<close>.\<close>

definition select_url :: "failover \<Rightarrow> int \<Rightarrow> string option \<times> failover" where
  "select_url f now' =
    (case ep_at (fo_endpoints f) (fo_currentIndex f) of
       Some ep \<Rightarrow>
         (if ep_isHealthy ep then (Some (ep_url ep), mark_sticky f ep now')
          else let f1 = pickNextHealthy f
               in case ep_at (fo_endpoints f1) (fo_currentIndex f1) of
                    None \<Rightarrow> (None, f1) | Some nxt \<Rightarrow> (Some (ep_url nxt), mark_sticky f1 nxt now'))
     | None \<Rightarrow>
         (let f1 = pickNextHealthy f
          in case ep_at (fo_endpoints f1) (fo_currentIndex f1) of
               None \<Rightarrow> (None, f1) | Some nxt \<Rightarrow> (Some (ep_url nxt), mark_sticky f1 nxt now')))"

definition sticky_live :: "failover \<Rightarrow> bool" where
  "sticky_live f = (sticky_on (fo_config f)
     \<and> (case fo_stickyUrl f of None \<Rightarrow> False | Some u \<Rightarrow> u \<noteq> [])
     \<and> (case fo_stickySince f of None \<Rightarrow> False | Some t \<Rightarrow> t \<noteq> 0))"

definition getCurrentUrl :: "failover \<Rightarrow> int \<Rightarrow> int \<Rightarrow> string option \<times> failover" where
  "getCurrentUrl f now now' =
    (if sticky_live f then
       (let url = the (fo_stickyUrl f);
            stickyElapsed = now - the (fo_stickySince f);
            stillSticky = stickyElapsed < the (fc_stickyDurationMs (fo_config f));
            cleared = f\<lparr>fo_stickyUrl := None, fo_stickySince := None\<rparr>
        in if stillSticky then
             (case find (\<lambda>ep. ep_url ep = url) (fo_endpoints f) of
                Some ep \<Rightarrow> if ep_isHealthy ep then (Some url, f) else select_url cleared now'
              | None \<Rightarrow> select_url cleared now')
           else select_url cleared now')
     else select_url f now')"

text \<open>\<open>findEndpoint\<close> followed by assignments: the first endpoint with the URL is rewritten.\<close>

fun upd_first :: "(endpoint \<Rightarrow> endpoint) \<Rightarrow> string \<Rightarrow> endpoint list \<Rightarrow> endpoint list" where
  "upd_first g url [] = []"
| "upd_first g url (e # es) = (if ep_url e = url then g e # es else e # upd_first g url es)"

definition ep_success :: "failover_config \<Rightarrow> int \<Rightarrow> endpoint \<Rightarrow> endpoint" where
  "ep_success cfg now ep =
    (let e1 = ep\<lparr>ep_consecutiveFailures := 0,
                 ep_consecutiveSuccesses := ep_consecutiveSuccesses ep + 1,
                 ep_lastChecked := Some now\<rparr>
     in if \<not> ep_isHealthy e1 \<and> int (ep_consecutiveSuccesses e1) \<ge> fc_successThresholdToRestore cfg
        then e1\<lparr>ep_isHealthy := True, ep_consecutiveSuccesses := 0\<rparr> else e1)"

definition ep_trips :: "failover_config \<Rightarrow> endpoint \<Rightarrow> bool" where
  "ep_trips cfg ep = (ep_isHealthy ep \<and>
     int (ep_consecutiveFailures ep + 1) \<ge> fc_maxFailuresBeforeFallback cfg)"

definition ep_failure :: "failover_config \<Rightarrow> int \<Rightarrow> endpoint \<Rightarrow> endpoint" where
  "ep_failure cfg now ep =
    (let e1 = ep\<lparr>ep_consecutiveSuccesses := 0,
                 ep_consecutiveFailures := ep_consecutiveFailures ep + 1,
                 ep_lastChecked := Some now\<rparr>
     in if ep_trips cfg ep then e1\<lparr>ep_isHealthy := False, ep_consecutiveFailures := 0\<rparr> else e1)"

definition recordSuccess :: "failover \<Rightarrow> string \<Rightarrow> int \<Rightarrow> failover" where
  "recordSuccess f url now =
    f\<lparr>fo_endpoints := upd_first (ep_success (fo_config f) now) url (fo_endpoints f)\<rparr>"

definition recordFailure :: "failover \<Rightarrow> string \<Rightarrow> int \<Rightarrow> failover" where
  "recordFailure f url now =
    (case find (\<lambda>ep. ep_url ep = url) (fo_endpoints f) of
       None \<Rightarrow> f
     | Some ep \<Rightarrow>
         (let f1 = f\<lparr>fo_endpoints := upd_first (ep_failure (fo_config f) now) url (fo_endpoints f)\<rparr>
          in if ep_trips (fo_config f) ep then pickNextHealthy f1 else f1))"

definition getHealthStatus :: "failover \<Rightarrow> endpoint list" where
  "getHealthStatus f = fo_endpoints f"

definition startHealthChecks :: "failover \<Rightarrow> failover" where
  "startHealthChecks f = (if fo_timer f then f else f\<lparr>fo_timer := True\<rparr>)"

definition stopHealthChecks :: "failover \<Rightarrow> failover" where
  "stopHealthChecks f = (if fo_timer f then f\<lparr>fo_timer := False\<rparr> else f)"

definition fo_destroy :: "failover \<Rightarrow> failover" where
  "fo_destroy f = stopHealthChecks f"

text \<open>One round of \<open>runHealthChecks\<close>: the URL, the probe's outcome and the clock, per endpoint.\<close>

fun check_round :: "failover \<Rightarrow> (string \<times> bool \<times> int) list \<Rightarrow> failover" where
  "check_round f [] = f"
| "check_round f ((url, ok, now) # probes) =
    check_round (if ok then recordSuccess f url now else recordFailure f url now) probes"

definition runHealthChecks :: "failover \<Rightarrow> (nat \<Rightarrow> bool) \<Rightarrow> (nat \<Rightarrow> int) \<Rightarrow> failover" where
  "runHealthChecks f reachable clock =
    check_round f (map (\<lambda>i. (ep_url (fo_endpoints f ! i), reachable i, clock i))
      [0..<length (fo_endpoints f)])"

datatype fo_op =
    Current int int | Success string int | Failure string int | Start | Stop
  | Round "(string \<times> bool \<times> int) list"

fun fo_step :: "failover \<Rightarrow> fo_op \<Rightarrow> failover" where
  "fo_step f (Current n n') = snd (getCurrentUrl f n n')"
| "fo_step f (Success u n) = recordSuccess f u n"
| "fo_step f (Failure u n) = recordFailure f u n"
| "fo_step f Start = startHealthChecks f"
| "fo_step f Stop = stopHealthChecks f"
| "fo_step f (Round ps) = check_round f ps"

section \<open>Invariant\<close>

text \<open>
  The index is in range; a healthy endpoint has not reached the failure threshold, an unhealthy one
  has not reached the success threshold.
\<close>

definition ep_ok :: "failover_config \<Rightarrow> endpoint \<Rightarrow> bool" where
  "ep_ok cfg e = (if ep_isHealthy e
     then int (ep_consecutiveFailures e) < max 1 (fc_maxFailuresBeforeFallback cfg)
     else int (ep_consecutiveSuccesses e) < max 1 (fc_successThresholdToRestore cfg))"

definition fo_inv :: "failover \<Rightarrow> bool" where
  "fo_inv f = (fo_currentIndex f < length (fo_endpoints f)
     \<and> (\<forall>e \<in> set (fo_endpoints f). ep_ok (fo_config f) e))"

lemma fo_inv_new: "fo_new urls cfg = Inr f \<Longrightarrow> fo_inv f"
  by (auto simp: fo_new_def fo_inv_def ep_ok_def split: if_splits)

lemma least_failed_fold:
  assumes "least < length eps" and "\<forall>i \<in> set is. i < length eps"
  shows "foldl (\<lambda>l i. if ep_consecutiveFailures (eps ! i) < ep_consecutiveFailures (eps ! l) then i else l)
           least is < length eps
    \<and> (\<forall>i \<in> insert least (set is). ep_consecutiveFailures (eps !
         foldl (\<lambda>l i. if ep_consecutiveFailures (eps ! i) < ep_consecutiveFailures (eps ! l) then i else l)
           least is) \<le> ep_consecutiveFailures (eps ! i))"
  using assms by (induction "is" arbitrary: least) force+

lemma least_failed_min:
  assumes "eps \<noteq> []"
  shows "least_failed eps < length eps"
    and "e \<in> set eps \<Longrightarrow> ep_consecutiveFailures (eps ! least_failed eps) \<le> ep_consecutiveFailures e"
proof -
  have *: "least_failed eps < length eps
    \<and> (\<forall>i \<in> insert 0 (set [1..<length eps]).
         ep_consecutiveFailures (eps ! least_failed eps) \<le> ep_consecutiveFailures (eps ! i))"
    unfolding least_failed_def using assms by (intro least_failed_fold) auto
  then show "least_failed eps < length eps" by simp
  assume "e \<in> set eps"
  then obtain i where "i < length eps" "e = eps ! i" by (auto simp: in_set_conv_nth)
  with * show "ep_consecutiveFailures (eps ! least_failed eps) \<le> ep_consecutiveFailures e"
    by (cases i) auto
qed

lemma pick_fields [simp]:
  "fo_endpoints (pickNextHealthy f) = fo_endpoints f"
  "fo_config (pickNextHealthy f) = fo_config f"
  by (simp_all add: pickNextHealthy_def Let_def split: option.split)

lemma pick_order_bound: "0 < n \<Longrightarrow> c \<in> set (pick_order cur n) \<Longrightarrow> c < n"
  by (auto simp: pick_order_def)

lemma pick_order_covers:
  assumes "i < n"
  shows "i \<in> set (pick_order cur n)"
proof -
  define k where "k = cur mod n"
  have k: "k < n" using assms by (simp add: k_def)
  define off where "off = (if k < i then i - k else i + n - k)"
  have "1 \<le> off" "off < Suc n" using assms k by (auto simp: off_def)
  moreover have "(cur + off) mod n = (k + off) mod n" by (simp add: k_def mod_add_left_eq)
  moreover have "(k + off) mod n = i" using assms k by (auto simp: off_def)
  ultimately have "i = (cur + off) mod n" and "off \<in> {1..<Suc n}" by auto
  then show ?thesis unfolding pick_order_def set_map set_upt by (rule image_eqI)
qed

lemma pick_index:
  assumes "fo_endpoints f \<noteq> []"
  shows "fo_currentIndex (pickNextHealthy f) < length (fo_endpoints f)"
  using assms least_failed_min(1) [OF assms]
  by (auto simp: pickNextHealthy_def Let_def dest!: find_SomeD intro: pick_order_bound split: option.split)

lemma pick_healthy:
  assumes "e \<in> set (fo_endpoints f)" and "ep_isHealthy e"
  shows "ep_isHealthy (fo_endpoints f ! fo_currentIndex (pickNextHealthy f))"
proof -
  obtain i where i: "i < length (fo_endpoints f)" "e = fo_endpoints f ! i"
    using assms(1) by (auto simp: in_set_conv_nth)
  let ?h = "\<lambda>c. ep_isHealthy (fo_endpoints f ! c)"
  let ?cs = "pick_order (fo_currentIndex f) (length (fo_endpoints f))"
  have "?h i" using i(2) assms(2) by simp
  from find_exists [where P = ?h, OF pick_order_covers [OF i(1)] this]
  obtain c where c: "find ?h ?cs = Some c" by blast
  then have "fo_currentIndex (pickNextHealthy f) = c" by (simp add: pickNextHealthy_def)
  then show ?thesis using find_SomeD [OF c] by simp
qed

lemma pick_none_healthy:
  assumes "\<forall>e \<in> set (fo_endpoints f). \<not> ep_isHealthy e" and "fo_endpoints f \<noteq> []"
  shows "fo_currentIndex (pickNextHealthy f) = least_failed (fo_endpoints f)"
proof -
  have "find (\<lambda>c. ep_isHealthy (fo_endpoints f ! c))
      (pick_order (fo_currentIndex f) (length (fo_endpoints f))) = None"
    using assms pick_order_bound by (intro find_none) (auto intro: nth_mem)
  then show ?thesis by (simp add: pickNextHealthy_def Let_def)
qed

lemma upd_first_url [simp]:
  "(\<And>e. ep_url (g e) = ep_url e) \<Longrightarrow> map ep_url (upd_first g u es) = map ep_url es"
  by (induction es) auto

lemma upd_first_length [simp]: "length (upd_first g u es) = length es"
  by (induction es) auto

lemma upd_first_all:
  "x \<in> set (upd_first g u es) \<Longrightarrow> \<forall>e \<in> set es. P e \<Longrightarrow> (\<And>e. P e \<Longrightarrow> P (g e)) \<Longrightarrow> P x"
  by (induction es) (auto split: if_splits)

lemma ep_step_url [simp]: "ep_url (ep_success c n e) = ep_url e" "ep_url (ep_failure c n e) = ep_url e"
  by (simp_all add: ep_success_def ep_failure_def Let_def)

lemma ep_ok_success: "ep_ok c e \<Longrightarrow> ep_ok c (ep_success c n e)"
  by (auto simp: ep_ok_def ep_success_def Let_def)

lemma ep_ok_failure: "ep_ok c e \<Longrightarrow> ep_ok c (ep_failure c n e)"
  by (auto simp: ep_ok_def ep_failure_def ep_trips_def Let_def)

lemma fo_inv_pick: "fo_inv f \<Longrightarrow> fo_inv (pickNextHealthy f)"
  using pick_index [of f] by (cases "fo_endpoints f = []") (auto simp: fo_inv_def)

lemma fo_inv_success: "fo_inv f \<Longrightarrow> fo_inv (recordSuccess f u n)"
  unfolding fo_inv_def recordSuccess_def
  by (auto elim: upd_first_all [where P = "ep_ok (fo_config f)"] intro: ep_ok_success)

lemma fo_inv_failure:
  assumes "fo_inv f"
  shows "fo_inv (recordFailure f u n)"
proof -
  have "fo_inv (f\<lparr>fo_endpoints := upd_first (ep_failure (fo_config f) n) u (fo_endpoints f)\<rparr>)"
    using assms unfolding fo_inv_def
    by (auto elim: upd_first_all [where P = "ep_ok (fo_config f)"] intro: ep_ok_failure)
  then show ?thesis
    using assms by (simp add: recordFailure_def Let_def fo_inv_pick split: option.split)
qed

lemma mark_sticky_fields [simp]:
  "fo_endpoints (mark_sticky f e n) = fo_endpoints f"
  "fo_config (mark_sticky f e n) = fo_config f"
  "fo_currentIndex (mark_sticky f e n) = fo_currentIndex f"
  by (simp_all add: mark_sticky_def)

lemma fo_inv_same:
  "fo_inv f \<Longrightarrow> fo_endpoints g = fo_endpoints f \<Longrightarrow> fo_config g = fo_config f \<Longrightarrow>
   fo_currentIndex g = fo_currentIndex f \<Longrightarrow> fo_inv g"
  by (simp add: fo_inv_def)

lemma select_inv:
  assumes "fo_inv f"
  shows "fo_inv (snd (select_url f n))"
  using assms fo_inv_pick [OF assms]
  by (auto simp: select_url_def Let_def intro: fo_inv_same split: option.split)

lemma current_inv:
  assumes "fo_inv f"
  shows "fo_inv (snd (getCurrentUrl f n n'))"
proof -
  have "fo_inv (f\<lparr>fo_stickyUrl := None, fo_stickySince := None\<rparr>)"
    using assms by (simp add: fo_inv_def)
  then show ?thesis
    using assms by (auto simp: getCurrentUrl_def Let_def select_inv split: option.split)
qed

lemma fo_inv_round: "fo_inv f \<Longrightarrow> fo_inv (check_round f ps)"
  by (induction f ps rule: check_round.induct) (auto simp: fo_inv_success fo_inv_failure)

lemma fo_inv_step: "fo_inv f \<Longrightarrow> fo_inv (fo_step f op)"
  by (cases op)
    (auto simp: current_inv fo_inv_success fo_inv_failure fo_inv_round startHealthChecks_def
      stopHealthChecks_def intro: fo_inv_same)

lemma fo_inv_run: "fo_inv f \<Longrightarrow> fo_inv (foldl fo_step f ops)"
  by (induction ops arbitrary: f) (auto intro: fo_inv_step)

section \<open>Selection\<close>

definition some_healthy :: "failover \<Rightarrow> bool" where
  "some_healthy f = list_ex ep_isHealthy (fo_endpoints f)"

definition healthy_url :: "failover \<Rightarrow> string \<Rightarrow> bool" where
  "healthy_url f u = list_ex (\<lambda>e. ep_url e = u \<and> ep_isHealthy e) (fo_endpoints f)"

lemma healthy_urlI: "e \<in> set (fo_endpoints f) \<Longrightarrow> ep_isHealthy e \<Longrightarrow> healthy_url f (ep_url e)"
  by (auto simp: healthy_url_def list_ex_iff)

lemma select_spec:
  assumes "fo_inv f"
  shows "\<exists>u. fst (select_url f n) = Some u \<and> u \<in> ep_url ` set (fo_endpoints f)
           \<and> (some_healthy f \<longrightarrow> healthy_url f u)"
proof -
  let ?e = "fo_endpoints f ! fo_currentIndex f"
  let ?g = "pickNextHealthy f"
  let ?e' = "fo_endpoints f ! fo_currentIndex ?g"
  have ne: "fo_endpoints f \<noteq> []" and i: "fo_currentIndex f < length (fo_endpoints f)"
    using assms by (auto simp: fo_inv_def)
  note j = pick_index [OF ne]
  have "some_healthy f \<Longrightarrow> healthy_url f (ep_url ?e')"
    using pick_healthy [of _ f] nth_mem [OF j] by (auto simp: some_healthy_def list_ex_iff intro: healthy_urlI)
  then show ?thesis
    using i j nth_mem [OF i] nth_mem [OF j]
    by (auto simp: select_url_def ep_at_def Let_def intro: healthy_urlI)
qed

lemma sticky_find:
  assumes "find (\<lambda>ep. ep_url ep = u) (fo_endpoints f) = Some e" and "ep_isHealthy e"
  shows "u \<in> ep_url ` set (fo_endpoints f) \<and> healthy_url f u"
  using find_SomeD [OF assms(1)] assms(2) healthy_urlI [of e f] by auto

lemma current_spec:
  assumes "fo_inv f"
  shows "\<exists>u. fst (getCurrentUrl f n n') = Some u \<and> u \<in> ep_url ` set (fo_endpoints f)
           \<and> (some_healthy f \<longrightarrow> healthy_url f u)"
proof -
  let ?g = "f\<lparr>fo_stickyUrl := None, fo_stickySince := None\<rparr>"
  have "fo_inv ?g" using assms by (simp add: fo_inv_def)
  from select_spec [OF this] select_spec [OF assms] show ?thesis
    by (auto simp: getCurrentUrl_def Let_def some_healthy_def healthy_url_def
        split: option.split dest: sticky_find [unfolded healthy_url_def])
qed

lemma fo_urls_step: "map ep_url (fo_endpoints (fo_step f op)) = map ep_url (fo_endpoints f)"
proof -
  have fail: "map ep_url (fo_endpoints (recordFailure g u n)) = map ep_url (fo_endpoints g)" for g u n
    by (simp add: recordFailure_def Let_def split: option.split)
  have succ: "map ep_url (fo_endpoints (recordSuccess g u n)) = map ep_url (fo_endpoints g)" for g u n
    by (simp add: recordSuccess_def)
  have round: "map ep_url (fo_endpoints (check_round g ps)) = map ep_url (fo_endpoints g)" for g ps
    by (induction g ps rule: check_round.induct) (auto simp: fail succ)
  have sel: "fo_endpoints (snd (select_url g n)) = fo_endpoints g" for g n
    by (simp add: select_url_def Let_def split: option.split)
  have "fo_endpoints (snd (getCurrentUrl f n n')) = fo_endpoints f" for n n'
    by (simp add: getCurrentUrl_def Let_def sel split: option.split)
  then show ?thesis
    by (cases op) (auto simp: fail succ round startHealthChecks_def stopHealthChecks_def)
qed

lemma fo_urls_run: "map ep_url (fo_endpoints (foldl fo_step f ops)) = map ep_url (fo_endpoints f)"
  by (induction ops arbitrary: f) (auto simp: fo_urls_step)

section \<open>Thresholds of one endpoint\<close>

lemma failures_count:
  assumes "ep_isHealthy e" and "int (ep_consecutiveFailures e + length ns) < fc_maxFailuresBeforeFallback cfg"
  shows "ep_isHealthy (foldl (\<lambda>e n. ep_failure cfg n e) e ns) \<and>
    ep_consecutiveFailures (foldl (\<lambda>e n. ep_failure cfg n e) e ns) = ep_consecutiveFailures e + length ns"
  using assms
proof (induction ns arbitrary: e)
  case (Cons n ns)
  let ?e = "ep_failure cfg n e"
  have "ep_isHealthy ?e" "ep_consecutiveFailures ?e = Suc (ep_consecutiveFailures e)"
    using Cons.prems by (auto simp: ep_failure_def ep_trips_def Let_def)
  with Cons.IH [of ?e] Cons.prems(2) show ?case by simp
qed simp

lemma successes_count:
  assumes "\<not> ep_isHealthy e" and "int (ep_consecutiveSuccesses e + length ns) < fc_successThresholdToRestore cfg"
  shows "\<not> ep_isHealthy (foldl (\<lambda>e n. ep_success cfg n e) e ns) \<and>
    ep_consecutiveSuccesses (foldl (\<lambda>e n. ep_success cfg n e) e ns) = ep_consecutiveSuccesses e + length ns"
  using assms
proof (induction ns arbitrary: e)
  case (Cons n ns)
  let ?e = "ep_success cfg n e"
  have "\<not> ep_isHealthy ?e" "ep_consecutiveSuccesses ?e = Suc (ep_consecutiveSuccesses e)"
    using Cons.prems by (auto simp: ep_success_def Let_def)
  with Cons.IH [of ?e] Cons.prems(2) show ?case by simp
qed simp

section \<open>Properties\<close>



text \<open>
  Hysteresis: a healthy endpoint with a clean counter stays healthy through fewer than
  \<open>maxFailuresBeforeFallback\<close> consecutive failures and is unhealthy after exactly that many; an
  unhealthy one needs exactly \<open>successThresholdToRestore\<close> consecutive successes to come back.
\<close>

theorem endpoint_hysteresis:
  assumes "ep_isHealthy e" and "ep_consecutiveFailures e = 0"
    and "int (length fs) \<le> fc_maxFailuresBeforeFallback cfg" and "fs \<noteq> []"
    and "\<not> ep_isHealthy e'" and "ep_consecutiveSuccesses e' = 0"
    and "int (length ss) \<le> fc_successThresholdToRestore cfg" and "ss \<noteq> []"
  shows "(ep_isHealthy (foldl (\<lambda>e n. ep_failure cfg n e) e fs)
            \<longleftrightarrow> int (length fs) < fc_maxFailuresBeforeFallback cfg) \<and>
         (ep_isHealthy (foldl (\<lambda>e n. ep_success cfg n e) e' ss)
            \<longleftrightarrow> int (length ss) = fc_successThresholdToRestore cfg)"
proof
  obtain xs n where fs: "fs = xs @ [n]" using assms(4) by (cases fs rule: rev_cases) auto
  from failures_count [of e xs cfg] assms(1-3) fs
  show "ep_isHealthy (foldl (\<lambda>e n. ep_failure cfg n e) e fs)
          \<longleftrightarrow> int (length fs) < fc_maxFailuresBeforeFallback cfg"
    by (auto simp: ep_failure_def ep_trips_def Let_def)
  obtain ys m where ss: "ss = ys @ [m]" using assms(8) by (cases ss rule: rev_cases) auto
  from successes_count [of e' ys cfg] assms(5-7) ss
  show "ep_isHealthy (foldl (\<lambda>e n. ep_success cfg n e) e' ss)
          \<longleftrightarrow> int (length ss) = fc_successThresholdToRestore cfg"
    by (auto simp: ep_success_def Let_def)
qed

theorem endpoint_hysteresis_witness:
  "\<not> ep_isHealthy (foldl (\<lambda>e n. ep_failure DEFAULT_FAILOVER_CONFIG n e)
       \<lparr>ep_url = ''a'', ep_isHealthy = True, ep_consecutiveFailures = 0, ep_consecutiveSuccesses = 0,
        ep_lastChecked = None\<rparr> [1, 2, 3])"
  using endpoint_hysteresis [of "\<lparr>ep_url = ''a'', ep_isHealthy = True, ep_consecutiveFailures = 0,
      ep_consecutiveSuccesses = 0, ep_lastChecked = None\<rparr>" "[1, 2, 3]" DEFAULT_FAILOVER_CONFIG
      "\<lparr>ep_url = ''a'', ep_isHealthy = False, ep_consecutiveFailures = 0,
      ep_consecutiveSuccesses = 0, ep_lastChecked = None\<rparr>" "[1, 2]"]
  by (simp add: DEFAULT_FAILOVER_CONFIG_def)

text \<open>
  When every endpoint is unhealthy and no sticky endpoint is held, \<open>getCurrentUrl\<close> still
  answers, with an endpoint whose consecutive failure count is least.
\<close>

theorem failover_all_unhealthy:
  assumes "fo_inv f" and "\<forall>e \<in> set (fo_endpoints f). \<not> ep_isHealthy e" and "\<not> sticky_live f"
  shows "\<exists>ep \<in> set (fo_endpoints f). fst (getCurrentUrl f now now') = Some (ep_url ep) \<and>
    (\<forall>e \<in> set (fo_endpoints f). ep_consecutiveFailures ep \<le> ep_consecutiveFailures e)"
proof -
  have ne: "fo_endpoints f \<noteq> []" and i: "fo_currentIndex f < length (fo_endpoints f)"
    using assms(1) by (auto simp: fo_inv_def)
  let ?k = "least_failed (fo_endpoints f)"
  have k: "?k < length (fo_endpoints f)" by (rule least_failed_min(1) [OF ne])
  have "\<not> ep_isHealthy (fo_endpoints f ! fo_currentIndex f)" using assms(2) nth_mem [OF i] by blast
  then have "fst (getCurrentUrl f now now') = Some (ep_url (fo_endpoints f ! ?k))"
    using i k assms(3) pick_none_healthy [OF assms(2) ne]
    by (simp add: getCurrentUrl_def select_url_def ep_at_def Let_def)
  then show ?thesis using nth_mem [OF k] least_failed_min(2) [OF ne] by blast
qed

theorem failover_all_unhealthy_witness:
  "\<exists>(f :: failover) (ep :: endpoint). map ep_consecutiveFailures (fo_endpoints f) = [2, 1] \<and>
    fst (getCurrentUrl f 5 5) = Some (ep_url ep) \<and> ep_consecutiveFailures ep \<le> 1"
proof -
  let ?ep = "\<lambda>u n. \<lparr>ep_url = u, ep_isHealthy = False, ep_consecutiveFailures = n,
      ep_consecutiveSuccesses = 0, ep_lastChecked = None\<rparr>"
  let ?f = "\<lparr>fo_endpoints = [?ep ''a'' 2, ?ep ''b'' 1], fo_config = DEFAULT_FAILOVER_CONFIG,
      fo_currentIndex = 0, fo_timer = False, fo_stickyUrl = None, fo_stickySince = None\<rparr>"
  have "fo_inv ?f" and "\<forall>e \<in> set (fo_endpoints ?f). \<not> ep_isHealthy e" and "\<not> sticky_live ?f"
    by (auto simp: fo_inv_def ep_ok_def DEFAULT_FAILOVER_CONFIG_def sticky_live_def sticky_on_def)
  from failover_all_unhealthy [OF this, of 5 5] obtain ep :: endpoint where
    "fst (getCurrentUrl ?f 5 5) = Some (ep_url ep)"
    "\<forall>e \<in> set (fo_endpoints ?f). ep_consecutiveFailures ep \<le> ep_consecutiveFailures e" by blast
  then show ?thesis by (intro exI [of _ ?f] exI [of _ ep]) simp
qed

end
