(* ===== verification/Footprint.thy ===== *)
theory Footprint
  imports Prelude
begin

text \<open>
  Ledger keys and their classification (\<open>packages/footprint-parser/src/index.ts\<close> and the key types
  of \<open>packages/types/src/index.ts\<close>).

  The XDR objects belong to the Stellar SDK. A ledger key is modelled by what the accessors used
  here return: the contract id and \<open>ScVal\<close> key of contract data, the hash of contract code and of a
  TTL entry; the entry types this package does not name fall to its default case. Its base64 encoding is a parameter where it is needed.
\<close>

section \<open>Keys\<close>

datatype scval =
    ScSymbol string
  | ScVec "scval list option"
  | ScLedgerKeyNonce
  | ScLedgerKeyContractInstance
  | ScOther nat

datatype ledger_key =
    ContractData (lk_contract: "string option") (lk_dataKey: scval)
  | ContractCode (lk_codeHash: string)
  | Ttl (lk_ttlHash: string)
  | LiquidityPool (lk_pool: string)
  | ClaimableBalance (lk_balance: string)
  | OtherKey string

definition SCV_SYMBOL :: nat where "SCV_SYMBOL = 15"
definition SCV_VEC :: nat where "SCV_VEC = 16"
definition SCV_LEDGER_KEY_NONCE :: nat where "SCV_LEDGER_KEY_NONCE = 21"
definition SCV_LEDGER_KEY_CONTRACT_INSTANCE :: nat where "SCV_LEDGER_KEY_CONTRACT_INSTANCE = 20"

text \<open>
  \<open>dataKey.switch().value\<close>, the discriminant the SDK reports. \<open>ScOther\<close> enumerates the remaining ones:
  0 to 14, 17 to 19 and those above 21.
\<close>

fun scv_switch :: "scval \<Rightarrow> nat" where
  "scv_switch (ScSymbol s) = SCV_SYMBOL"
| "scv_switch (ScVec v) = SCV_VEC"
| "scv_switch ScLedgerKeyNonce = SCV_LEDGER_KEY_NONCE"
| "scv_switch ScLedgerKeyContractInstance = SCV_LEDGER_KEY_CONTRACT_INSTANCE"
| "scv_switch (ScOther n) = (if n < 15 then n else if n < 18 then n + 2 else n + 4)"

datatype sac_key_type = SacBalance | SacAllowance | SacNonce | SacAdmin | SacMetadata

datatype key_type = KtContractInstance | KtContractData | KtContractCode | KtTtlEntry | KtUnknown

record archived_key =
  ak_key :: ledger_key
  ak_keyBase64 :: string
  ak_keyType :: key_type
  ak_sacKeyType :: "sac_key_type option"
  ak_contractId :: "string option"
  ak_restorePriority :: nat

lemmas scv_consts = SCV_SYMBOL_def SCV_VEC_def SCV_LEDGER_KEY_NONCE_def SCV_LEDGER_KEY_CONTRACT_INSTANCE_def

lemma scv_switch_iff:
  "scv_switch k = SCV_LEDGER_KEY_CONTRACT_INSTANCE \<longleftrightarrow> k = ScLedgerKeyContractInstance"
  "scv_switch k = SCV_LEDGER_KEY_NONCE \<longleftrightarrow> k = ScLedgerKeyNonce"
  by (cases k; simp add: scv_consts)+

section \<open>Classification\<close>

definition SAC_SYMBOL_KEYS :: "string list" where
  "SAC_SYMBOL_KEYS = [''Admin'', ''Name'', ''Symbol'', ''Decimals'']"

definition classifySacKey :: "scval \<Rightarrow> sac_key_type option" where
  "classifySacKey dataKey =
    (let typeVal = scv_switch dataKey
     in if typeVal = SCV_LEDGER_KEY_NONCE then Some SacNonce
        else if typeVal = SCV_LEDGER_KEY_CONTRACT_INSTANCE then None
        else case dataKey of
          ScSymbol sname \<Rightarrow>
            (if sname = ''Admin'' then Some SacAdmin
             else if List.member SAC_SYMBOL_KEYS sname then Some SacMetadata else None)
        | ScVec (Some (ScSymbol sname # rest)) \<Rightarrow>
            (if sname = ''Balance'' then Some SacBalance
             else if sname = ''Allowance'' then Some SacAllowance else None)
        | _ \<Rightarrow> None)"

text \<open>
  What the \<open>isSacContract\<close> predicate evaluates to: a boolean, a promise of one (with the boolean it
  will resolve to, or a rejection), or an exception. Every promise is truthy.
\<close>

datatype sac_verdict = VBool bool | VPromise "bool option" | VThrows

fun verdict_truthy :: "sac_verdict \<Rightarrow> bool" where
  "verdict_truthy (VBool b) = b"
| "verdict_truthy (VPromise r) = True"
| "verdict_truthy VThrows = False"

definition classifySacKeyAsync ::
  "scval \<Rightarrow> string option \<Rightarrow> (string \<Rightarrow> sac_verdict) option \<Rightarrow> sac_key_type option" where
  "classifySacKeyAsync dataKey contractId isSacContract =
    (case classifySacKey dataKey of
       None \<Rightarrow> None
     | Some shape \<Rightarrow>
         (case (isSacContract, contractId) of
            (Some p, Some c) \<Rightarrow>
              (if c = [] then Some shape
               else case p c of
                 VBool b \<Rightarrow> if b then Some shape else None
               | VPromise (Some b) \<Rightarrow> if b then Some shape else None
               | VPromise None \<Rightarrow> None
               | VThrows \<Rightarrow> None)
          | _ \<Rightarrow> Some shape))"

text \<open>\<open>extractContractIdFromTtlKey\<close> returns \<open>undefined\<close> on each of its paths.\<close>

definition extractContractIdFromTtlKey :: "string \<Rightarrow> string option" where
  "extractContractIdFromTtlKey keyHash = (if keyHash = [] then None else None)"

record classification =
  cl_keyType :: key_type
  cl_sacKeyType :: "sac_key_type option"
  cl_contractId :: "string option"
  cl_restorePriority :: nat

fun classifyLedgerKey :: "ledger_key \<Rightarrow> (string \<Rightarrow> sac_verdict) option \<Rightarrow> classification" where
  "classifyLedgerKey (ContractData contractId dataKey) isSac =
    (if scv_switch dataKey = SCV_LEDGER_KEY_CONTRACT_INSTANCE
     then \<lparr>cl_keyType = KtContractInstance, cl_sacKeyType = None, cl_contractId = contractId,
           cl_restorePriority = 0\<rparr>
     else
       (let shape = classifySacKey dataKey;
            sacKeyType = (case (shape, isSac, contractId) of
               (Some t, Some p, Some c) \<Rightarrow>
                 (if c = [] then Some t else if verdict_truthy (p c) then Some t else None)
             | _ \<Rightarrow> shape)
        in \<lparr>cl_keyType = KtContractData, cl_sacKeyType = sacKeyType, cl_contractId = contractId,
            cl_restorePriority = 2\<rparr>))"
| "classifyLedgerKey (ContractCode h) isSac =
    \<lparr>cl_keyType = KtContractCode, cl_sacKeyType = None, cl_contractId = Some h, cl_restorePriority = 1\<rparr>"
| "classifyLedgerKey (Ttl h) isSac =
    \<lparr>cl_keyType = KtTtlEntry, cl_sacKeyType = None, cl_contractId = extractContractIdFromTtlKey h,
     cl_restorePriority = 2\<rparr>"
| "classifyLedgerKey (LiquidityPool x) isSac =
    \<lparr>cl_keyType = KtUnknown, cl_sacKeyType = None, cl_contractId = None, cl_restorePriority = 3\<rparr>"
| "classifyLedgerKey (ClaimableBalance x) isSac =
    \<lparr>cl_keyType = KtUnknown, cl_sacKeyType = None, cl_contractId = None, cl_restorePriority = 3\<rparr>"
| "classifyLedgerKey (OtherKey x) isSac =
    \<lparr>cl_keyType = KtUnknown, cl_sacKeyType = None, cl_contractId = None, cl_restorePriority = 3\<rparr>"

text \<open>A deferred key is the ledger key with its encoding.\<close>

type_synonym deferred_key = "ledger_key \<times> string"

definition classify_one :: "deferred_key \<Rightarrow> archived_key" where
  "classify_one d =
    (let c = classifyLedgerKey (fst d) None
     in \<lparr>ak_key = fst d, ak_keyBase64 = snd d, ak_keyType = cl_keyType c,
         ak_sacKeyType = cl_sacKeyType c, ak_contractId = cl_contractId c,
         ak_restorePriority = cl_restorePriority c\<rparr>)"

definition classifyDeferredKeys :: "deferred_key list \<Rightarrow> archived_key list" where
  "classifyDeferredKeys deferred = sort_key ak_restorePriority (map classify_one deferred)"

record footprint_keys =
  fk_readOnly :: "ledger_key list"
  fk_readWrite :: "ledger_key list"
  fk_all :: "ledger_key list"

text \<open>A footprint is the pair of its read-only and read-write keys.\<close>

definition extractKeysFromFootprint :: "ledger_key list \<times> ledger_key list \<Rightarrow> footprint_keys" where
  "extractKeysFromFootprint fp =
    \<lparr>fk_readOnly = fst fp, fk_readWrite = snd fp, fk_all = fst fp @ snd fp\<rparr>"

section \<open>Lemmas\<close>

lemma classify_one_sel [simp]:
  "ak_key (classify_one d) = fst d" "ak_keyBase64 (classify_one d) = snd d"
  by (simp_all add: classify_one_def Let_def)

lemma classify_priority:
  "ak_restorePriority (classify_one d) =
    (case fst d of ContractData c k \<Rightarrow> if k = ScLedgerKeyContractInstance then 0 else 2
     | ContractCode h \<Rightarrow> 1 | Ttl h \<Rightarrow> 2 | _ \<Rightarrow> 3)"
  by (simp add: classify_one_def Let_def scv_switch_iff split: ledger_key.split)

lemma classifyDeferredKeys_mset:
  "mset (classifyDeferredKeys ds) = mset (map classify_one ds)"
  by (simp add: classifyDeferredKeys_def)

lemma classifyDeferredKeys_length [simp]: "length (classifyDeferredKeys ds) = length ds"
  by (simp add: classifyDeferredKeys_def)

lemma classifyDeferredKeys_keys:
  "mset (map (\<lambda>k. (ak_key k, ak_keyBase64 k)) (classifyDeferredKeys ds)) = mset ds"
  by (simp add: classifyDeferredKeys_mset image_mset.compositionality comp_def)

lemma classifyDeferredKeys_sorted: "sorted (map ak_restorePriority (classifyDeferredKeys ds))"
  by (simp add: classifyDeferredKeys_def)

lemma classifyDeferredKeys_stable:
  "filter (\<lambda>k. ak_restorePriority k = p) (classifyDeferredKeys ds) =
   filter (\<lambda>k. ak_restorePriority k = p) (map classify_one ds)"
  by (simp add: classifyDeferredKeys_def sort_key_filter_eq)

text \<open>Without a predicate the synchronous and the asynchronous classifier agree.\<close>

lemma classifySacKeyAsync_no_predicate: "classifySacKeyAsync k c None = classifySacKey k"
  by (simp add: classifySacKeyAsync_def split: option.split)

lemma sac_shape:
  "classifySacKey k = None \<or> k = ScLedgerKeyNonce \<or> (\<exists>s. k = ScSymbol s) \<or> (\<exists>s r. k = ScVec (Some (ScSymbol s # r)))"
  by (auto simp: classifySacKey_def Let_def scv_switch_iff split: scval.splits option.splits list.splits)

section \<open>Properties\<close>

text \<open>
  \<open>classifyDeferredKeys\<close> loses and invents no key, orders by restore priority (instances before
  code before data and TTL entries before the rest), and keeps the input order within a priority.
\<close>

theorem classify_deferred_order:
  "mset (map (\<lambda>k. (ak_key k, ak_keyBase64 k)) (classifyDeferredKeys ds)) = mset ds \<and>
   sorted (map ak_restorePriority (classifyDeferredKeys ds)) \<and>
   (\<forall>p. filter (\<lambda>k. ak_restorePriority k = p) (classifyDeferredKeys ds) =
        filter (\<lambda>k. ak_restorePriority k = p) (map classify_one ds))"
  using classifyDeferredKeys_keys classifyDeferredKeys_sorted classifyDeferredKeys_stable by blast

text \<open>
  The synchronous classifier ignores an asynchronous verdict: a SAC-shaped key of a contract
  whose predicate returns a promise keeps its SAC label even when the promise resolves to \<open>false\<close>,
  where the asynchronous classifier drops it.
\<close>

theorem sync_classifier_trusts_promise:
  assumes "classifySacKey k = Some t" and "c \<noteq> []" and "p c = VPromise (Some False)"
  shows "cl_sacKeyType (classifyLedgerKey (ContractData (Some c) k) (Some p)) = Some t \<and>
         classifySacKeyAsync k (Some c) (Some p) = None"
proof -
  have "scv_switch k \<noteq> SCV_LEDGER_KEY_CONTRACT_INSTANCE"
    using assms(1) by (auto simp: classifySacKey_def Let_def scv_switch_iff split: if_splits)
  then show ?thesis using assms by (simp add: classifySacKeyAsync_def)
qed

theorem sync_classifier_trusts_promise_witness:
  "cl_sacKeyType (classifyLedgerKey (ContractData (Some ''cafe'') (ScSymbol ''Admin''))
     (Some (\<lambda>_. VPromise (Some False)))) = Some SacAdmin"
proof -
  have "classifySacKey (ScSymbol ''Admin'') = Some SacAdmin"
    by (simp add: classifySacKey_def scv_consts)
  then show ?thesis
    using sync_classifier_trusts_promise [of "ScSymbol ''Admin''" SacAdmin "''cafe''" "\<lambda>_. VPromise (Some False)"]
    by blast
qed

end
