(* ===== verification/Batching.thy ===== *)
theory Batching
  imports Footprint
begin

text \<open>
  How archived keys are split into restore transactions: the grouping and size-bounded batching of
  \<open>packages/core/src/soroban-resurrect.ts\<close> and the batching helpers of
  \<open>packages/utils/src/batching.ts\<close>.
\<close>

section \<open>Grouping by a key\<close>

text \<open>
  \<open>if (!groups.has(k)) groups.set(k, []); groups.get(k).push(x)\<close>, the loop all four grouping
  functions share.
\<close>

definition group_push :: "('k, 'a list) js_map \<Rightarrow> 'k \<Rightarrow> 'a \<Rightarrow> ('k, 'a list) js_map" where
  "group_push m k x = (case jget m k of None \<Rightarrow> jset m k [x] | Some l \<Rightarrow> jset m k (l @ [x]))"

definition group_by :: "('a \<Rightarrow> 'k) \<Rightarrow> 'a list \<Rightarrow> ('k, 'a list) js_map" where
  "group_by f xs = foldl (\<lambda>m x. group_push m (f x) x) [] xs"

lemma group_by_Nil [simp]: "group_by f [] = []"
  by (simp add: group_by_def)

lemma group_by_snoc: "group_by f (xs @ [x]) = group_push (group_by f xs) (f x) x"
  by (simp add: group_by_def)

lemma group_push_get:
  "jget (group_push m k x) k' =
    (if k' = k then Some ((case jget m k of None \<Rightarrow> [] | Some l \<Rightarrow> l) @ [x]) else jget m k')"
  by (auto simp: group_push_def jget_set split: option.split)

lemma group_by_get:
  "jget (group_by f xs) k = (if k \<in> f ` set xs then Some (filter (\<lambda>x. f x = k) xs) else None)"
proof (induction xs rule: rev_induct)
  case (snoc x xs)
  then show ?case
    by (auto simp: group_by_snoc group_push_get image_iff) (metis (mono_tags, lifting) filter_False)
qed simp

lemma group_by_wf: "jwf (group_by f xs)"
proof (induction xs rule: rev_induct)
  case (snoc x xs)
  then show ?case by (auto simp: group_by_snoc group_push_def jm.invar_put split: option.split)
qed simp

lemma jset_concat:
  "jget m k = Some l \<Longrightarrow> mset (concat (map snd (jset m k (l @ [x])))) = add_mset x (mset (concat (map snd m)))"
  by (induction m) (auto simp: jget_def split: if_splits)

lemma jset_concat_new:
  "jget m k = None \<Longrightarrow> mset (concat (map snd (jset m k [x]))) = add_mset x (mset (concat (map snd m)))"
  by (induction m) (auto simp: jget_def split: if_splits)

lemma group_by_mset: "mset (concat (map snd (group_by f xs))) = mset xs"
proof (induction xs rule: rev_induct)
  case (snoc x xs)
  then show ?case
    by (auto simp: group_by_snoc group_push_def jset_concat jset_concat_new simp del: mset_concat
        split: option.split)
qed simp

lemma jwf_get_mem: "jwf m \<Longrightarrow> (k, l) \<in> set m \<Longrightarrow> jget m k = Some l"
  by (simp add: jwf_def jget_def)

lemma group_by_mem:
  assumes "(k, g) \<in> set (group_by f xs)"
  shows "g = filter (\<lambda>x. f x = k) xs \<and> g \<noteq> []"
  using jwf_get_mem [OF group_by_wf assms]
  by (auto simp: group_by_get filter_empty_conv split: if_splits)

lemma group_by_covers:
  assumes "x \<in> set xs"
  shows "(f x, filter (\<lambda>y. f y = f x) xs) \<in> set (group_by f xs)"
  using assms group_by_get [of f xs "f x"] by (auto simp: jget_def dest: map_of_SomeD)

section \<open>Batches of the engine\<close>

definition MAX_XDR_SIZE_BYTES :: nat where "MAX_XDR_SIZE_BYTES = 100000"

definition headerOverhead :: nat where "headerOverhead = 200"

definition UNKNOWN_GROUP :: string where "UNKNOWN_GROUP = ''__unknown__''"

definition contract_of :: "('a) archived_key_scheme \<Rightarrow> string" where
  "contract_of k = (case ak_contractId k of Some c \<Rightarrow> c | None \<Rightarrow> UNKNOWN_GROUP)"

type_synonym 'a contract_key_group = "string \<times> 'a list"

definition groupKeysByContract :: "archived_key list \<Rightarrow> archived_key contract_key_group list" where
  "groupKeysByContract keys = group_by contract_of keys"

definition key_size :: "archived_key \<Rightarrow> nat" where
  "key_size k = length (ak_keyBase64 k)"

text \<open>The loop of \<open>batchKeys\<close> over its three variables; the last line is the final flush.\<close>

fun batchKeys_loop ::
  "archived_key list list \<Rightarrow> archived_key list \<Rightarrow> nat \<Rightarrow> archived_key list \<Rightarrow> archived_key list list" where
  "batchKeys_loop batches currentBatch currentSize (key # keys) =
    (let keySize = key_size key;
         estimatedTotalSize = currentSize + keySize + headerOverhead
     in if MAX_XDR_SIZE_BYTES < estimatedTotalSize \<and> currentBatch \<noteq> []
        then batchKeys_loop (batches @ [currentBatch]) [key] keySize keys
        else batchKeys_loop batches (currentBatch @ [key]) estimatedTotalSize keys)"
| "batchKeys_loop batches currentBatch currentSize [] =
    (if currentBatch \<noteq> [] then batches @ [currentBatch] else batches)"

definition batchKeys :: "archived_key list \<Rightarrow> archived_key list list" where
  "batchKeys keys = batchKeys_loop [] [] 0 keys"

definition batchKeyGroups :: "archived_key contract_key_group list \<Rightarrow> archived_key list list" where
  "batchKeyGroups groups = concat (map (\<lambda>g. batchKeys (snd g)) groups)"

text \<open>
  What a batch weighs: its encodings and one header for every key but the first, as the code charges
  a batch that follows another one.
\<close>

definition batch_weight :: "archived_key list \<Rightarrow> nat" where
  "batch_weight b = sum_list (map key_size b) + headerOverhead * (length b - 1)"

definition batch_fits :: "archived_key list \<Rightarrow> bool" where
  "batch_fits b = (b \<noteq> [] \<and> (length b = 1 \<or> batch_weight b \<le> MAX_XDR_SIZE_BYTES))"

lemma batchKeys_loop_concat: "concat (batchKeys_loop bs cur n ks) = concat bs @ cur @ ks"
  by (induction bs cur n ks rule: batchKeys_loop.induct) (auto simp: Let_def)

lemma batchKeys_loop_step:
  "MAX_XDR_SIZE_BYTES < n + key_size k + headerOverhead \<and> cur \<noteq> [] \<Longrightarrow>
    batchKeys_loop bs cur n (k # ks) = batchKeys_loop (bs @ [cur]) [k] (key_size k) ks"
  "\<not> (MAX_XDR_SIZE_BYTES < n + key_size k + headerOverhead \<and> cur \<noteq> []) \<Longrightarrow>
    batchKeys_loop bs cur n (k # ks) = batchKeys_loop bs (cur @ [k]) (n + key_size k + headerOverhead) ks"
  by (auto simp: Let_def)

lemma batch_weight_snoc:
  "b \<noteq> [] \<Longrightarrow> batch_weight (b @ [k]) = batch_weight b + key_size k + headerOverhead"
  by (cases b) (auto simp: batch_weight_def)

lemma batch_weight_single [simp]: "batch_weight [k] = key_size k"
  by (simp add: batch_weight_def)

lemma batchKeys_loop_fits:
  assumes "\<forall>b \<in> set bs. batch_fits b" and "cur = [] \<or> (batch_fits cur \<and> batch_weight cur \<le> n)"
  shows "\<forall>b \<in> set (batchKeys_loop bs cur n ks). batch_fits b"
  using assms
proof (induction ks arbitrary: bs cur n)
  case (Cons k ks)
  let ?t = "n + key_size k + headerOverhead"
  show ?case
  proof (cases "MAX_XDR_SIZE_BYTES < ?t \<and> cur \<noteq> []")
    case True
    have "\<forall>b \<in> set (bs @ [cur]). batch_fits b" using Cons.prems True by auto
    moreover have "[k] = [] \<or> (batch_fits [k] \<and> batch_weight [k] \<le> key_size k)"
      by (simp add: batch_fits_def)
    ultimately show ?thesis unfolding batchKeys_loop_step(1) [OF True] by (rule Cons.IH)
  next
    case False
    have "batch_fits (cur @ [k]) \<and> batch_weight (cur @ [k]) \<le> ?t"
      using False Cons.prems(2) by (cases "cur = []") (auto simp: batch_fits_def batch_weight_snoc)
    then show ?thesis unfolding batchKeys_loop_step(2) [OF False] using Cons.prems(1)
      by (intro Cons.IH) auto
  qed
qed auto

text \<open>
  Greedy: a batch is closed only when the next key, with a header, would not fit any more; the
  first batch is charged one header more than the others.
\<close>

definition batch_closed :: "archived_key list \<Rightarrow> archived_key list \<Rightarrow> bool" where
  "batch_closed b c = (MAX_XDR_SIZE_BYTES < batch_weight b + headerOverhead + key_size (hd c) + headerOverhead)"

lemma batchKeys_concat: "concat (batchKeys ks) = ks"
  by (simp add: batchKeys_def batchKeys_loop_concat)

lemma batchKeys_fits: "b \<in> set (batchKeys ks) \<Longrightarrow> batch_fits b"
  using batchKeys_loop_fits [of "[]" "[]" 0 ks] by (simp add: batchKeys_def)

lemma batchKeys_subset: "b \<in> set (batchKeys ks) \<Longrightarrow> set b \<subseteq> set ks"
  using batchKeys_concat [of ks] by (metis UN_upper set_concat)

lemma batchKeys_Nil_iff: "batchKeys ks = [] \<longleftrightarrow> ks = []"
  using batchKeys_concat [of ks] by (auto simp: batchKeys_def)

text \<open>Closing and greedy order, by the pairs of neighbours.\<close>

fun neighbours :: "('a \<Rightarrow> 'a \<Rightarrow> bool) \<Rightarrow> 'a list \<Rightarrow> bool" where
  "neighbours R (x # y # zs) = (R x y \<and> neighbours R (y # zs))"
| "neighbours R _ = True"

lemma neighbours_snoc:
  "neighbours R (xs @ [y]) \<longleftrightarrow> neighbours R xs \<and> (xs = [] \<or> R (last xs) y)"
  by (induction R xs rule: neighbours.induct) auto

lemma batchKeys_loop_greedy:
  assumes "neighbours batch_closed (bs @ (if cur = [] then [] else [cur]))"
    and "cur \<noteq> [] \<longrightarrow> n \<le> batch_weight cur + headerOverhead"
    and "cur = [] \<longrightarrow> bs = [] \<and> n = 0"
  shows "neighbours batch_closed (batchKeys_loop bs cur n ks)"
  using assms
proof (induction ks arbitrary: bs cur n)
  case (Cons k ks)
  let ?t = "n + key_size k + headerOverhead"
  show ?case
  proof (cases "MAX_XDR_SIZE_BYTES < ?t \<and> cur \<noteq> []")
    case True
    have nb: "neighbours batch_closed (bs @ [cur])" using Cons.prems(1) True by simp
    have cl: "batch_closed cur [k]" using Cons.prems(2) True by (simp add: batch_closed_def)
    from nb cl have "neighbours batch_closed ((bs @ [cur]) @ [[k]])"
      by (simp only: neighbours_snoc) simp
    then show ?thesis unfolding batchKeys_loop_step(1) [OF True] by (intro Cons.IH) auto
  next
    case False
    have "neighbours batch_closed (bs @ [cur @ [k]])"
      using Cons.prems(1,3) by (cases "cur = []") (auto simp: neighbours_snoc, simp add: batch_closed_def)
    moreover have "?t \<le> batch_weight (cur @ [k]) + headerOverhead"
      using Cons.prems(2,3) by (cases "cur = []") (auto simp: batch_weight_snoc)
    ultimately show ?thesis unfolding batchKeys_loop_step(2) [OF False]
      by (intro Cons.IH) auto
  qed
qed (auto split: if_splits)

lemma batchKeys_greedy: "neighbours batch_closed (batchKeys ks)"
  using batchKeys_loop_greedy [of "[]" "[]" 0 ks] by (simp add: batchKeys_def)

section \<open>Batches per contract\<close>

lemma batchKeyGroups_concat: "concat (batchKeyGroups gs) = concat (map snd gs)"
  by (induction gs) (auto simp: batchKeyGroups_def batchKeys_concat)

lemma batchKeyGroups_mem:
  "b \<in> set (batchKeyGroups gs) \<longleftrightarrow> (\<exists>c g. (c, g) \<in> set gs \<and> b \<in> set (batchKeys g))"
  by (force simp: batchKeyGroups_def)

lemma grouped_mset: "mset (concat (batchKeyGroups (groupKeysByContract ks))) = mset ks"
  by (simp only: batchKeyGroups_concat groupKeysByContract_def group_by_mset)

lemma grouped_single:
  assumes "b \<in> set (batchKeyGroups (groupKeysByContract ks))"
  shows "batch_fits b \<and> (\<exists>c. \<forall>k \<in> set b. k \<in> set ks \<and> contract_of k = c)"
proof -
  from assms obtain c g where g: "(c, g) \<in> set (group_by contract_of ks)" "b \<in> set (batchKeys g)"
    by (auto simp: batchKeyGroups_mem groupKeysByContract_def)
  have "\<forall>k \<in> set b. k \<in> set ks \<and> contract_of k = c"
    using group_by_mem [OF g(1)] batchKeys_subset [OF g(2)] by auto
  then show ?thesis using batchKeys_fits [OF g(2)] by blast
qed

section \<open>The batching helpers\<close>

text \<open>
  \<open>batching.ts\<close> reads two fields an \<open>ArchivedKey\<close> does not declare: \<open>id\<close> and \<open>extendsKeyId\<close>. They
  extend the record here, \<open>None\<close> when absent.
\<close>

record batch_key = archived_key +
  bk_id :: "string option"
  bk_extendsKeyId :: "string option"

definition contractByKeyId :: "batch_key list \<Rightarrow> (string option, string) js_map" where
  "contractByKeyId keys =
    foldl (\<lambda>m k. if truthy_str (ak_contractId k) then jset m (bk_id k) (the (ak_contractId k)) else m)
      [] keys"

definition resolveContractId :: "(string option, string) js_map \<Rightarrow> batch_key \<Rightarrow> string" where
  "resolveContractId m key =
    (if truthy_str (ak_contractId key) then the (ak_contractId key)
     else if truthy_str (bk_extendsKeyId key) \<and> truthy_str (jget m (bk_extendsKeyId key))
     then the (jget m (bk_extendsKeyId key))
     else UNKNOWN_GROUP)"

definition batchKeysByContract :: "batch_key list \<Rightarrow> batch_key contract_key_group list" where
  "batchKeysByContract keys = group_by (resolveContractId (contractByKeyId keys)) keys"

definition groupKeysByPriority :: "batch_key list \<Rightarrow> (nat, batch_key list) js_map" where
  "groupKeysByPriority keys = group_by ak_restorePriority keys"

text \<open>\<open>options.maxBatchSize || 50\<close>, of an integer option.\<close>

definition resolve_max :: "int option \<Rightarrow> int" where
  "resolve_max m = (case m of None \<Rightarrow> 50 | Some n \<Rightarrow> if n = 0 then 50 else n)"

definition group_priority :: "batch_key contract_key_group \<Rightarrow> nat" where
  "group_priority g = (case snd g of [] \<Rightarrow> 0 | k # _ \<Rightarrow> ak_restorePriority k)"

definition sortedGroups :: "batch_key list \<Rightarrow> batch_key contract_key_group list" where
  "sortedGroups keys =
    sort_key group_priority
      (map (\<lambda>(c, ks). (c, sort_key ak_restorePriority ks)) (batchKeysByContract keys))"

definition flush :: "'a list list \<Rightarrow> 'a list \<Rightarrow> 'a list list" where
  "flush batches current = (if current \<noteq> [] then batches @ [current] else batches)"

text \<open>
  \<open>for (let i = 0; i < keys.length; i += maxBatchSize)\<close>. A negative step never ends it, so the loop
  is partial: \<open>None\<close> is not returning.
\<close>

partial_function (option) slice_loop :: "int \<Rightarrow> 'a list \<Rightarrow> int \<Rightarrow> 'a list list \<Rightarrow> 'a list list option" where
  "slice_loop step keys i batches =
    (if i < int (length keys)
     then slice_loop step keys (i + step) (batches @ [js_slice keys i (i + step)])
     else Some batches)"

fun pack_groups ::
  "int \<Rightarrow> 'a list list \<Rightarrow> 'a list \<Rightarrow> 'a contract_key_group list \<Rightarrow> 'a list list option" where
  "pack_groups mx batches current ((c, keys) # groups) =
    (if int (length keys) \<le> mx
     then (if mx < int (length current) + int (length keys)
           then pack_groups mx (flush batches current) keys groups
           else pack_groups mx batches (current @ keys) groups)
     else (case slice_loop mx keys 0 (flush batches current) of
         None \<Rightarrow> None
       | Some batches' \<Rightarrow> pack_groups mx batches' [] groups))"
| "pack_groups mx batches current [] = Some (flush batches current)"

definition createBatches :: "batch_key list \<Rightarrow> int option \<Rightarrow> batch_key list list option" where
  "createBatches keys maxBatchSize = pack_groups (resolve_max maxBatchSize) [] [] (sortedGroups keys)"

text \<open>
  \<open>keepTtlWithSibling\<close>: the result and the ids placed so far. \<open>undefined === undefined\<close> holds, so the
  ids are compared as options.
\<close>

type_synonym placing = "batch_key list \<times> string option list"

definition place :: "batch_key \<Rightarrow> placing \<Rightarrow> placing" where
  "place k s = (fst s @ [k], bk_id k # snd s)"

definition pull_candidate :: "batch_key \<Rightarrow> placing \<Rightarrow> batch_key \<Rightarrow> placing" where
  "pull_candidate key s candidate =
    (if List.member (snd s) (bk_id candidate) then s
     else if bk_extendsKeyId candidate = bk_id key then place candidate s else s)"

definition place_key :: "batch_key list \<Rightarrow> placing \<Rightarrow> batch_key \<Rightarrow> placing" where
  "place_key keys s key =
    (if List.member (snd s) (bk_id key) then s
     else foldl (pull_candidate key) (place key s) keys)"

definition keepTtlWithSibling :: "batch_key list \<Rightarrow> batch_key list" where
  "keepTtlWithSibling keys = fst (foldl (place_key keys) ([], []) keys)"

subsection \<open>Packing\<close>

lemma slice_loop_returns:
  assumes "0 < step" "0 \<le> i"
  shows "\<exists>cs. slice_loop step ks i bs = Some (bs @ cs) \<and> concat cs = drop (nat i) ks \<and>
    (\<forall>c \<in> set cs. c \<noteq> [] \<and> int (length c) \<le> step)"
  using assms(2)
proof (induction "nat (int (length ks) - i)" arbitrary: i bs rule: less_induct)
  case less
  show ?case
  proof (cases "i < int (length ks)")
    case True
    have "\<exists>cs. slice_loop step ks (i + step) (bs @ [js_slice ks i (i + step)]) =
        Some ((bs @ [js_slice ks i (i + step)]) @ cs) \<and> concat cs = drop (nat (i + step)) ks \<and>
        (\<forall>c \<in> set cs. c \<noteq> [] \<and> int (length c) \<le> step)"
      using True assms(1) less.prems by (intro less.hyps) auto
    then obtain cs where
        out: "slice_loop step ks (i + step) (bs @ [js_slice ks i (i + step)]) =
          Some ((bs @ [js_slice ks i (i + step)]) @ cs)"
        and cs: "concat cs = drop (nat (i + step)) ks" "\<forall>c \<in> set cs. c \<noteq> [] \<and> int (length c) \<le> step"
      by blast
    have "slice_loop step ks i bs = Some (bs @ js_slice ks i (i + step) # cs)"
      using True out by (subst slice_loop.simps) simp
    then show ?thesis
      using cs js_slice_chunk [OF less.prems True assms(1)]
      by (intro exI [of _ "js_slice ks i (i + step) # cs"]) auto
  next
    case False
    then show ?thesis by (subst slice_loop.simps) auto
  qed
qed

lemma slice_loop_diverges:
  assumes "step < 0" "i < int (length ks)"
  shows "slice_loop step ks i bs = None"
proof -
  have "step < 0 \<longrightarrow> \<not> i < int (length ks)" if "slice_loop step ks i bs = Some r" for r
    by (rule slice_loop.raw_induct [OF _ that, where P = "\<lambda>step ks i bs r. step < 0 \<longrightarrow> \<not> i < int (length ks)"])
      (auto split: if_splits, fastforce)
  then show ?thesis using assms by (cases "slice_loop step ks i bs") auto
qed

definition batch_sized :: "int \<Rightarrow> 'a list \<Rightarrow> bool" where
  "batch_sized mx b = (b \<noteq> [] \<and> int (length b) \<le> mx)"

text \<open>What packing promises from any intermediate state.\<close>

definition packed ::
  "int \<Rightarrow> 'a list list \<Rightarrow> 'a list \<Rightarrow> 'a contract_key_group list \<Rightarrow> 'a list list \<Rightarrow> bool" where
  "packed mx bs cur gs out =
    (concat out = concat bs @ cur @ concat (map snd gs) \<and> (\<forall>b \<in> set out. batch_sized mx b) \<and>
     set bs \<subseteq> set out \<and> (cur = [] \<or> (\<exists>b \<in> set out. set cur \<subseteq> set b)) \<and>
     (\<forall>g \<in> set gs. int (length (snd g)) \<le> mx \<longrightarrow> snd g = [] \<or> (\<exists>b \<in> set out. set (snd g) \<subseteq> set b)))"

lemma pack_groups_packed:
  assumes "0 < mx" and "\<forall>b \<in> set bs. batch_sized mx b" and "int (length cur) \<le> mx"
  shows "\<exists>out. pack_groups mx bs cur gs = Some out \<and> packed mx bs cur gs out"
  using assms(2,3)
proof (induction gs arbitrary: bs cur)
  case Nil
  then show ?case by (auto simp: packed_def flush_def batch_sized_def)
next
  case (Cons g gs)
  obtain c ks where g: "g = (c, ks)" by force
  have fl: "\<forall>b \<in> set (flush bs cur). batch_sized mx b" "set bs \<subseteq> set (flush bs cur)"
      "concat (flush bs cur) = concat bs @ cur" "cur = [] \<or> cur \<in> set (flush bs cur)"
    using Cons.prems by (auto simp: flush_def batch_sized_def)
  consider (fits) "int (length ks) \<le> mx" "\<not> mx < int (length cur) + int (length ks)"
    | (closes) "int (length ks) \<le> mx" "mx < int (length cur) + int (length ks)"
    | (big) "\<not> int (length ks) \<le> mx" by blast
  then show ?case
  proof cases
    case fits
    have "\<exists>out. pack_groups mx bs (cur @ ks) gs = Some out \<and> packed mx bs (cur @ ks) gs out"
      using Cons.prems fits by (intro Cons.IH) auto
    then obtain out where out: "pack_groups mx bs (cur @ ks) gs = Some out" "packed mx bs (cur @ ks) gs out"
      by blast
    have "packed mx bs cur (g # gs) out" using out(2) by (auto simp: packed_def g)
    then show ?thesis using out(1) fits g by auto
  next
    case closes
    have "\<exists>out. pack_groups mx (flush bs cur) ks gs = Some out \<and> packed mx (flush bs cur) ks gs out"
      using fl(1) closes by (intro Cons.IH) auto
    then obtain out where out: "pack_groups mx (flush bs cur) ks gs = Some out" "packed mx (flush bs cur) ks gs out"
      by blast
    have "packed mx bs cur (g # gs) out" using out(2) fl by (auto simp: packed_def g)
    then show ?thesis using out(1) closes g by auto
  next
    case big
    obtain cs where cs: "slice_loop mx ks 0 (flush bs cur) = Some (flush bs cur @ cs)"
        "concat cs = ks" "\<forall>c \<in> set cs. c \<noteq> [] \<and> int (length c) \<le> mx"
      using slice_loop_returns [OF assms(1), of 0 ks "flush bs cur"] by auto
    have "\<exists>out. pack_groups mx (flush bs cur @ cs) [] gs = Some out \<and> packed mx (flush bs cur @ cs) [] gs out"
      using fl(1) cs(3) assms(1) by (intro Cons.IH) (auto simp: batch_sized_def)
    then obtain out where out: "pack_groups mx (flush bs cur @ cs) [] gs = Some out"
        "packed mx (flush bs cur @ cs) [] gs out" by blast
    have "packed mx bs cur (g # gs) out"
      using out(2) fl(2-4) cs(2) big by (auto simp: packed_def g)
    then show ?thesis using out(1) cs(1) big g by auto
  qed
qed

lemma sortedGroups_mset: "mset (concat (map snd (sortedGroups keys))) = mset keys"
proof -
  have 1: "mset (concat (map snd (sort_key f gs))) = mset (concat (map snd gs))" for f and gs :: "batch_key contract_key_group list"
    by (simp add: mset_concat) (metis mset_map mset_sort sum_mset_sum_list)
  have 2: "mset (concat (map snd (map (\<lambda>(c, ks). (c, sort_key f ks)) gs))) = mset (concat (map snd gs))"
    for f :: "batch_key \<Rightarrow> nat" and gs :: "batch_key contract_key_group list"
    by (induction gs) auto
  show ?thesis
    by (simp only: sortedGroups_def 1 2 batchKeysByContract_def group_by_mset)
qed

lemma sortedGroups_mem:
  assumes "k \<in> set keys"
  shows "\<exists>g \<in> set (sortedGroups keys). snd g = sort_key ak_restorePriority
    (filter (\<lambda>x. resolveContractId (contractByKeyId keys) x = resolveContractId (contractByKeyId keys) k) keys)"
  using group_by_covers [OF assms, of "resolveContractId (contractByKeyId keys)"]
  by (force simp: sortedGroups_def batchKeysByContract_def)

lemma createBatches_packed:
  "0 < resolve_max m \<Longrightarrow> \<exists>out. createBatches keys m = Some out \<and>
     packed (resolve_max m) [] [] (sortedGroups keys) out"
  unfolding createBatches_def by (rule pack_groups_packed) auto

subsection \<open>Keeping TTL entries with their sibling\<close>

definition placing_ok :: "batch_key list \<Rightarrow> placing \<Rightarrow> bool" where
  "placing_ok keys s = (snd s = rev (map bk_id (fst s)) \<and> distinct (map bk_id (fst s)) \<and> set (fst s) \<subseteq> set keys)"

lemma place_ok:
  "placing_ok keys s \<Longrightarrow> k \<in> set keys \<Longrightarrow> bk_id k \<notin> set (snd s) \<Longrightarrow> placing_ok keys (place k s)"
  by (auto simp: placing_ok_def place_def)

lemma pull_candidate_ok:
  "placing_ok keys s \<Longrightarrow> c \<in> set keys \<Longrightarrow> placing_ok keys (pull_candidate k s c)"
  by (auto simp: pull_candidate_def place_ok)

lemma pull_candidates_ok:
  "placing_ok keys s \<Longrightarrow> set cs \<subseteq> set keys \<Longrightarrow> placing_ok keys (foldl (pull_candidate k) s cs)"
  by (induction cs arbitrary: s) (auto simp: pull_candidate_ok)

lemma pull_candidates_mono: "set (snd s) \<subseteq> set (snd (foldl (pull_candidate k) s cs))"
proof (induction cs arbitrary: s)
  case (Cons c cs)
  have "set (snd s) \<subseteq> set (snd (pull_candidate k s c))"
    by (auto simp: pull_candidate_def place_def)
  then show ?case using Cons.IH [of "pull_candidate k s c"] by auto
qed simp

lemma place_key_ok:
  assumes "placing_ok keys s" "k \<in> set keys"
  shows "placing_ok keys (place_key keys s k) \<and> insert (bk_id k) (set (snd s)) \<subseteq> set (snd (place_key keys s k))"
proof (cases "bk_id k \<in> set (snd s)")
  case False
  have "placing_ok keys (foldl (pull_candidate k) (place k s) keys)"
    using False assms by (intro pull_candidates_ok place_ok) auto
  moreover have "insert (bk_id k) (set (snd s)) \<subseteq> set (snd (foldl (pull_candidate k) (place k s) keys))"
    using pull_candidates_mono [of "place k s" k keys] by (auto simp: place_def)
  ultimately show ?thesis using False by (simp add: place_key_def)
qed (use assms in \<open>auto simp: place_key_def\<close>)

lemma place_keys_ok:
  "placing_ok keys s \<Longrightarrow> set ks \<subseteq> set keys \<Longrightarrow>
   placing_ok keys (foldl (place_key keys) s ks) \<and>
   bk_id ` set ks \<union> set (snd s) \<subseteq> set (snd (foldl (place_key keys) s ks))"
proof (induction ks arbitrary: s)
  case (Cons k ks)
  have k: "placing_ok keys (place_key keys s k)"
      "insert (bk_id k) (set (snd s)) \<subseteq> set (snd (place_key keys s k))"
    using place_key_ok [of keys s k] Cons.prems by auto
  show ?case using Cons.IH [OF k(1)] Cons.prems k(2) by auto
qed simp

lemma keepTtlWithSibling_mset:
  assumes "distinct (map bk_id keys)"
  shows "mset (keepTtlWithSibling keys) = mset keys"
proof -
  let ?s = "foldl (place_key keys) ([], []) keys"
  have ok: "placing_ok keys ?s" and all: "bk_id ` set keys \<subseteq> set (snd ?s)"
    using place_keys_ok [of keys "([], [])" keys] by (auto simp: placing_ok_def)
  have ids: "bk_id ` set keys \<subseteq> bk_id ` set (fst ?s)" using ok all by (auto simp: placing_ok_def)
  have inj: "inj_on bk_id (set keys)" using assms by (simp add: distinct_map)
  have "set (fst ?s) = set keys"
  proof
    show "set (fst ?s) \<subseteq> set keys" using ok by (simp add: placing_ok_def)
    show "set keys \<subseteq> set (fst ?s)"
    proof
      fix k assume k: "k \<in> set keys"
      then have "bk_id k \<in> bk_id ` set (fst ?s)" using ids by blast
      then obtain k' where k': "bk_id k = bk_id k'" "k' \<in> set (fst ?s)" by (rule imageE)
      have "k' \<in> set keys" using ok k'(2) unfolding placing_ok_def by blast
      then have "k = k'" using inj_onD [OF inj k'(1) k] by simp
      then show "k \<in> set (fst ?s)" using k'(2) by simp
    qed
  qed
  moreover have "distinct (fst ?s)" "distinct keys"
    using ok assms by (auto simp: placing_ok_def distinct_map)
  ultimately show ?thesis by (simp add: keepTtlWithSibling_def set_eq_iff_mset_eq_distinct)
qed

section \<open>Properties\<close>


definition sample_key :: "nat \<Rightarrow> string option \<Rightarrow> nat \<Rightarrow> archived_key" where
  "sample_key n c p = \<lparr>ak_key = OtherKey [], ak_keyBase64 = replicate n CHR ''A'',
     ak_keyType = KtContractData, ak_sacKeyType = None, ak_contractId = c, ak_restorePriority = p\<rparr>"

lemma sample_key_size [simp]: "key_size (sample_key n c p) = n"
  by (simp add: key_size_def sample_key_def)


text \<open>
  The batches of the concurrent restore hold each key once, stay within the XDR limit, and every
  one belongs to a single contract.
\<close>

theorem concurrent_batches_single_contract:
  "mset (concat (batchKeyGroups (groupKeysByContract ks))) = mset ks \<and>
   (\<forall>b \<in> set (batchKeyGroups (groupKeysByContract ks)).
      batch_fits b \<and> (\<exists>c. \<forall>k \<in> set b. contract_of k = c))"
  using grouped_mset grouped_single by blast

theorem concurrent_batches_single_contract_witness:
  "mset (concat (batchKeyGroups (groupKeysByContract
     [sample_key 9 (Some ''a'') 2, sample_key 9 None 2, sample_key 9 (Some ''a'') 2]))) =
   {# sample_key 9 (Some ''a'') 2, sample_key 9 None 2, sample_key 9 (Some ''a'') 2 #}"
  using concurrent_batches_single_contract
    [of "[sample_key 9 (Some ''a'') 2, sample_key 9 None 2, sample_key 9 (Some ''a'') 2]"]
  by simp

text \<open>
  For a positive batch size \<open>createBatches\<close> returns; its batches, in order, are the contract groups
  in priority order, so every key once; none is empty or larger than the limit; and the keys of a
  contract that fit one batch are in one batch.
\<close>

theorem createBatches_contract:
  assumes "0 < resolve_max m"
  shows "\<exists>out. createBatches keys m = Some out \<and>
    concat out = concat (map snd (sortedGroups keys)) \<and> mset (concat out) = mset keys \<and>
    (\<forall>b \<in> set out. b \<noteq> [] \<and> int (length b) \<le> resolve_max m) \<and>
    (\<forall>g \<in> set (sortedGroups keys). int (length (snd g)) \<le> resolve_max m \<longrightarrow>
       (\<exists>b \<in> set out. set (snd g) \<subseteq> set b))"
proof -
  obtain out where out: "createBatches keys m = Some out"
      "packed (resolve_max m) [] [] (sortedGroups keys) out"
    using createBatches_packed [OF assms] by blast
  have ne: "snd g \<noteq> []" if "g \<in> set (sortedGroups keys)" for g
    using that group_by_mem [of _ _ "resolveContractId (contractByKeyId keys)" keys]
    by (auto simp: sortedGroups_def batchKeysByContract_def dest!: arg_cong [where f = length])
  have cc: "concat out = concat (map snd (sortedGroups keys))" using out(2) by (simp add: packed_def)
  show ?thesis
    using out ne sortedGroups_mset [of keys] by (auto simp: packed_def batch_sized_def cc simp del: mset_concat)
qed

definition sample_batch_key :: "string option \<Rightarrow> nat \<Rightarrow> batch_key" where
  "sample_batch_key c p = archived_key.extend (sample_key 9 c p) (batch_key.fields None None)"

theorem createBatches_contract_witness:
  "\<exists>out. createBatches [sample_batch_key (Some ''a'') 2, sample_batch_key None 1] (Some 1) = Some out \<and>
     mset (concat out) = {# sample_batch_key (Some ''a'') 2, sample_batch_key None 1 #}"
  using createBatches_contract [of "Some 1" "[sample_batch_key (Some ''a'') 2, sample_batch_key None 1]"]
  by (auto simp: resolve_max_def simp del: mset_concat)

text \<open>A negative batch size makes \<open>createBatches\<close> loop for ever on any non-empty list of keys.\<close>

theorem createBatches_negative_diverges:
  assumes "resolve_max m < 0" and "keys \<noteq> []"
  shows "createBatches keys m = None"
proof (cases "sortedGroups keys")
  case Nil
  then show ?thesis using sortedGroups_mset [of keys] assms(2) by simp
next
  case (Cons g gs)
  obtain c ks where g: "g = (c, ks)" by force
  have "(c, ks) \<in> set (sortedGroups keys)" by (simp add: Cons g)
  then have "ks \<noteq> []"
    using group_by_mem [of _ _ "resolveContractId (contractByKeyId keys)" keys]
    by (auto simp: sortedGroups_def batchKeysByContract_def) (metis length_sort length_0_conv)
  moreover have "slice_loop (resolve_max m) ks 0 bs = None" for bs
    using \<open>ks \<noteq> []\<close> by (intro slice_loop_diverges [OF assms(1)]) simp
  ultimately show ?thesis using assms(1) by (simp add: createBatches_def Cons g)
qed

theorem createBatches_negative_diverges_witness:
  "createBatches [sample_batch_key (Some ''a'') 2] (Some (-1)) = None"
  by (rule createBatches_negative_diverges) (simp_all add: resolve_max_def)

end
