(* ===== verification/Client.thy ===== *)
theory Client
  imports Retry SimCache Failover Batching
begin

text \<open>
  The client of \<open>packages/core/src/soroban-resurrect.ts\<close>: its configuration and state, the event
  listeners, the retry and timeout wrappers around RPC calls, the checks before signing, and the
  submission of one signed transaction up to its confirmation.

  RPC servers, the wallet, clocks and the Stellar SDK are not part of the repository. They are the
  functions of the record \<open>env\<close>; the stateful ones are given the whole history of calls made so far,
  newest first, so that nothing is assumed of them. Log lines are left out: \<open>onLog\<close> returns nothing
  and the code never reads what it logged.
\<close>

section \<open>Calls to the outside\<close>

datatype event =
    RestoreStart "archived_key list"
  | RestoreBatchComplete nat nat
  | RestoreComplete string nat
  | OriginalStart
  | OriginalComplete string
  | ErrorEvent resurrect_error

fun event_name :: "event \<Rightarrow> string" where
  "event_name (RestoreStart ks) = ''restore:start''"
| "event_name (RestoreBatchComplete i n) = ''restore:batch:complete''"
| "event_name (RestoreComplete x n) = ''restore:complete''"
| "event_name OriginalStart = ''original:start''"
| "event_name (OriginalComplete h) = ''original:complete''"
| "event_name (ErrorEvent e) = ''error''"

datatype call =
    CNetwork
  | CAccount string string
  | CSimulate string string
  | CEntries string "ledger_key list"
  | CProbe string
  | CSign string
  | CSend string string
  | CReceipt string string
  | CWs string
  | CDelay real
  | CNotify nat event

text \<open>
  What a WebSocket delivers, in order: a frame (\<open>None\<close> when it is not JSON) with its method, hash,
  status and error text; an error; a close with its code. The list ends where the timer fires.
\<close>

record ws_frame =
  wf_method :: string
  wf_hash :: "string option"
  wf_status :: string
  wf_error :: "string option"

datatype ws_event = WsMessage "ws_frame option" | WsError | WsClose nat

text \<open>A simulation answer: an error, a success with footprint and \<open>minResourceFee\<close>, or neither.\<close>

datatype sim_response =
    SimError string
  | SimSuccess "ledger_key list \<times> ledger_key list" string
  | SimOther

text \<open>What the code reads of a transaction parsed by the SDK.\<close>

record parsed_tx =
  pt_feeBump :: bool
  pt_footprint :: "(ledger_key list \<times> ledger_key list) option"
  pt_sorobanData :: "string option"
  pt_innerXDR :: string
  pt_feeAccountID :: "string option"
  pt_feeBumpFee :: "string option"

section \<open>Configuration and environment\<close>

record engine_config =
  ec_rpcUrls :: "string list"
  ec_networkPassphrase :: string
  ec_allowHttp :: bool
  ec_restoreFee :: string
  ec_simulateOnly :: bool
  ec_dynamicFeeEstimation :: bool
  ec_strictNetworkValidation :: bool
  ec_useWebSocket :: bool
  ec_pollIntervalMs :: int
  ec_maxPollAttempts :: int
  ec_restoreConfirmationPolicy :: string
  ec_rpcMethodTimeouts :: "string \<Rightarrow> int option"
  ec_maxConcurrency :: "int option"

text \<open>The SDK: parsing and building of transactions, the encoders, the URL parser and the redactor.\<close>

record sdk = engine_config +
  x_fromXDR :: "string \<Rightarrow> js_err + parsed_tx"
  x_parseSigned :: "string \<Rightarrow> js_err + string"
  x_encodeKey :: "ledger_key \<Rightarrow> string"
  x_footprintData :: "ledger_key list \<Rightarrow> string"
  x_account :: "string \<Rightarrow> int \<Rightarrow> js_err + unit"
  x_buildRestore :: "string \<Rightarrow> int \<Rightarrow> string \<Rightarrow> string \<Rightarrow> js_err + string"
  x_buildFeeBump :: "string \<Rightarrow> string \<Rightarrow> js_err + string"
  x_parseUrl :: "string \<Rightarrow> (string \<times> string) option"
  x_redactUrl :: "string \<Rightarrow> string"
  x_redactText :: "string \<Rightarrow> string"

text \<open>
  The world. The last three fields are methods the class calls and does not define
  (\<open>assertSignerMatchesSource\<close>, \<open>describeBatchFailure\<close>, \<open>verifyRestorationConfirmed\<close>): \<open>None\<close> is the
  class as it stands, where the call is a \<open>TypeError\<close>; \<open>Some\<close> is a subclass or a mock that adds it.
\<close>

record env = sdk +
  w_getNetwork :: "call list \<Rightarrow> js_err + string"
  w_getAccount :: "call list \<Rightarrow> string \<Rightarrow> js_err + int"
  w_simulate :: "call list \<Rightarrow> string \<Rightarrow> js_err + sim_response"
  w_getEntries :: "call list \<Rightarrow> ledger_key list \<Rightarrow> js_err + ledger_key list"
  w_probe :: "call list \<Rightarrow> string \<Rightarrow> js_err + string list"
  w_sign :: "call list \<Rightarrow> string \<Rightarrow> js_err + string"
  w_send :: "call list \<Rightarrow> string \<Rightarrow> js_err + string \<times> string"
  w_getTransaction :: "call list \<Rightarrow> string \<Rightarrow> js_err + string \<times> string"
  w_wsProbe :: "call list \<Rightarrow> string \<Rightarrow> bool"
  w_ws :: "call list \<Rightarrow> string \<Rightarrow> js_err + ws_event list"
  w_aborted :: "call list \<Rightarrow> bool"
  w_timedOut :: "call list \<Rightarrow> bool"
  w_now :: "call list \<Rightarrow> int"
  w_policyEnv :: "call list \<Rightarrow> policy_env"
  w_notify :: "call list \<Rightarrow> nat \<Rightarrow> event \<Rightarrow> js_err option"
  w_assertSigner :: "(string \<Rightarrow> string \<Rightarrow> js_err option) option"
  w_describeFailure :: "(js_err \<Rightarrow> string option \<times> bool option) option"
  w_verifyRestoration :: "(call list \<Rightarrow> string \<Rightarrow> js_err option) option"

section \<open>State\<close>

datatype batch_status = Pending | Success | Failed

record restore_batch =
  rb_batchIndex :: nat
  rb_transactionXDR :: string
  rb_keysRestored :: nat
  rb_restoredKeys :: "string list"
  rb_status :: batch_status
  rb_errorCode :: "string option"
  rb_retryable :: "bool option"
  rb_txHash :: "string option"
  rb_error :: "string option"

record failed_restore =
  fr_sourceAccountID :: string
  fr_failedBatches :: "restore_batch list"
  fr_failedKeys :: "archived_key list"
  fr_failedBatchIndex :: nat
  fr_partialEntriesRestored :: nat

record sim_check =
  sk_needsRestoration :: bool
  sk_archivedKeys :: "archived_key list"
  sk_totalKeysInFootprint :: nat

text \<open>
  \<open>networkIdentityCheck\<close> and \<open>restoreMethodChecks\<close> hold promises; once settled only the successful
  ones stay, so a flag and the list of checked URLs are their state between operations. A server
  object is its URL.
\<close>

record engine =
  en_calls :: "call list"
  en_policy :: policy
  en_listeners :: "(string, nat list) js_map"
  en_failover :: failover
  en_servers :: "string list"
  en_simulationCache :: "sim_check sim_cache option"
  en_lastFailed :: "failed_restore option"
  en_identityOk :: bool
  en_methodsOk :: "string list"

type_synonym 'a act = "(engine, js_err, 'a) eff"

section \<open>Primitives\<close>

text \<open>One call: answered by the world from the history before it, then added to the history.\<close>

definition call_out :: "call \<Rightarrow> (call list \<Rightarrow> js_err + 'a) \<Rightarrow> 'a act" where
  "call_out c f = (\<lambda>s. (f (en_calls s), s\<lparr>en_calls := c # en_calls s\<rparr>))"

definition asking :: "(call list \<Rightarrow> 'a) \<Rightarrow> 'a act" where
  "asking f = (\<lambda>s. (Inr (f (en_calls s)), s))"

definition pause :: "real \<Rightarrow> unit act" where
  "pause ms = call_out (CDelay ms) (\<lambda>h. Inr ())"

definition type_error :: "string \<Rightarrow> js_err" where
  "type_error m = PlainError ''TypeError'' (''this.'' @ m @ '' is not a function'')"

text \<open>
  \<open>new SorobanResurrectError(first, second, ...)\<close>: most call sites of this class pass the message first
  and the code second, while the constructor takes the code first.
\<close>

definition positional :: "string \<Rightarrow> string \<Rightarrow> js_err" where
  "positional first second = Resurrect (SorobanResurrectError first (Some second))"

definition is_resurrect :: "js_err \<Rightarrow> bool" where
  "is_resurrect e = (case e of Resurrect r \<Rightarrow> True | _ \<Rightarrow> False)"

definition redactedRpcUrl :: "env \<Rightarrow> string" where
  "redactedRpcUrl v = join_with '','' (map (x_redactUrl v) (ec_rpcUrls v))"

definition redacted_message :: "env \<Rightarrow> js_err \<Rightarrow> string" where
  "redacted_message v e = x_redactText v (js_message e)"

subsection \<open>Listeners\<close>

definition on_event :: "string \<Rightarrow> nat \<Rightarrow> engine \<Rightarrow> engine" where
  "on_event ev l s =
    (let old = (case jget (en_listeners s) ev of None \<Rightarrow> [] | Some ls \<Rightarrow> ls)
     in s\<lparr>en_listeners := jset (en_listeners s) ev (if List.member old l then old else old @ [l])\<rparr>)"

definition off_event :: "string \<Rightarrow> nat \<Rightarrow> engine \<Rightarrow> engine" where
  "off_event ev l s = (case jget (en_listeners s) ev of
     None \<Rightarrow> s
   | Some ls \<Rightarrow> s\<lparr>en_listeners := jset (en_listeners s) ev (filter (\<lambda>x. x \<noteq> l) ls)\<rparr>)"

fun notify_all :: "env \<Rightarrow> event \<Rightarrow> nat list \<Rightarrow> unit act" where
  "notify_all v ev [] = eret ()"
| "notify_all v ev (l # ls) =
    ebind (call_out (CNotify l ev) (\<lambda>h. case w_notify v h l ev of None \<Rightarrow> Inr () | Some e \<Rightarrow> Inl e))
      (\<lambda>_. notify_all v ev ls)"

definition emit :: "env \<Rightarrow> event \<Rightarrow> unit act" where
  "emit v ev = (\<lambda>s. case jget (en_listeners s) (event_name ev) of
     None \<Rightarrow> (Inr (), s)
   | Some ls \<Rightarrow> notify_all v ev ls s)"

subsection \<open>Servers, retries and timeouts\<close>

definition primaryServer :: "env \<Rightarrow> string" where
  "primaryServer v = hd (ec_rpcUrls v)"

definition getServer :: "env \<Rightarrow> string act" where
  "getServer v = (\<lambda>s.
     let now = w_now v (en_calls s);
         (u, f) = getCurrentUrl (en_failover s) now now;
         s1 = s\<lparr>en_failover := f\<rparr>
     in case u of
          None \<Rightarrow> (Inl (PlainError ''TypeError'' ''Invalid URL''), s1)
        | Some url \<Rightarrow>
            (Inr url, if List.member (en_servers s1) url then s1
                      else s1\<lparr>en_servers := en_servers s1 @ [url]\<rparr>))"

definition wrap_error :: "js_err \<Rightarrow> resurrect_error" where
  "wrap_error e = (case e of
     Resurrect r \<Rightarrow> r
   | _ \<Rightarrow> SorobanResurrectError (js_String e) (Some ''NETWORK_ERROR''))"

definition policy_should :: "env \<Rightarrow> resurrect_error \<Rightarrow> nat \<Rightarrow> bool act" where
  "policy_should v e attempt = (\<lambda>s.
     let (b, p) = pol_shouldRetry (en_policy s) (err_code e) attempt (w_policyEnv v (en_calls s))
     in (Inr b, s\<lparr>en_policy := p\<rparr>))"

definition policy_delay :: "env \<Rightarrow> nat \<Rightarrow> real act" where
  "policy_delay v attempt =
    (\<lambda>s. (Inr (pol_getDelay (en_policy s) attempt (w_policyEnv v (en_calls s))), s))"

definition policy_reset :: "unit act" where
  "policy_reset = (\<lambda>s. (Inr (), s\<lparr>en_policy := pol_reset (en_policy s)\<rparr>))"

definition policy_limit :: "int act" where
  "policy_limit = (\<lambda>s. (Inr (pol_maxRetries (en_policy s)), s))"

text \<open>
  The attempts that are left and the number of the next one. \<open>maxRetries\<close> is a read-only field, so
  the loop condition \<open>attempt <= policy.maxRetries + 1\<close> is the count down.
\<close>

fun retry_attempts :: "env \<Rightarrow> 'a act \<Rightarrow> string \<Rightarrow> nat \<Rightarrow> nat \<Rightarrow> 'a act" where
  "retry_attempts v fn context 0 attempt =
    ethrow (positional (''Operation failed after 3 retries: '' @ context) ''NETWORK_ERROR'')"
| "retry_attempts v fn context (Suc left) attempt =
    (\<lambda>s. case fn s of
       (Inr x, t) \<Rightarrow> ebind policy_reset (\<lambda>_. eret x) t
     | (Inl e, t) \<Rightarrow>
         ebind policy_limit (\<lambda>mx.
           if int attempt \<le> mx
           then ebind (policy_should v (wrap_error e) attempt) (\<lambda>again.
                  if again
                  then ebind (policy_delay v attempt) (\<lambda>ms.
                         ebind (pause ms) (\<lambda>_. retry_attempts v fn context left (Suc attempt)))
                  else ethrow (Resurrect (wrap_error e)))
           else ethrow (Resurrect (wrap_error e))) t)"

definition retryOnFailure :: "env \<Rightarrow> 'a act \<Rightarrow> string \<Rightarrow> 'a act" where
  "retryOnFailure v fn context =
    ebind policy_limit (\<lambda>mx. retry_attempts v fn context (nat (mx + 1)) 1)"

text \<open>
  \<open>Promise.race\<close> of the call and its deadline: the call is made either way, and its outcome is
  dropped when the deadline came first. These two call sites pass the code first.
\<close>

definition withMethodTimeout :: "env \<Rightarrow> string \<Rightarrow> 'a act \<Rightarrow> 'a act" where
  "withMethodTimeout v method m =
    (case ec_rpcMethodTimeouts v method of
       None \<Rightarrow> m
     | Some limitMs \<Rightarrow>
         (\<lambda>s. let (r, t) = m s
              in if w_timedOut v (en_calls t)
                 then (Inl (Resurrect (SorobanResurrectError ''NETWORK_ERROR''
                        (Some (''RPC method '' @ method @ '' timed out after '' @ int_dec limitMs @
                               ''ms (rpcUrl='' @ join_with '','' (ec_rpcUrls v) @ '')'')))), t)
                 else (r, t)))"

section \<open>Before signing\<close>

definition throwIfCancelled :: "env \<Rightarrow> string \<Rightarrow> string option \<Rightarrow> unit act" where
  "throwIfCancelled v stage txHash =
    (\<lambda>s. if w_aborted v (en_calls s) then (Inl (AbortErr stage txHash), s) else (Inr (), s))"

definition checkNetworkIdentity :: "env \<Rightarrow> unit act" where
  "checkNetworkIdentity v =
    ebind (ecatch (call_out CNetwork (w_getNetwork v))
            (\<lambda>e. ethrow (Resurrect (SorobanResurrectError ''NETWORK_ERROR''
               (Some (''Could not verify network passphrase before signing (rpcUrl='' @ primaryServer v @
                      ''): '' @ js_message e))))))
      (\<lambda>reported.
         if reported \<noteq> ec_networkPassphrase v
         then ethrow (Resurrect (SorobanResurrectError ''NETWORK_MISMATCH''
                (Some (''Refusing to sign: configured \"'' @ ec_networkPassphrase v @
                       ''\" but RPC server reports \"'' @ reported @ ''\" (rpcUrl='' @ primaryServer v @ '')''))))
         else eret ())"

definition ensureNetworkIdentityMatches :: "env \<Rightarrow> unit act" where
  "ensureNetworkIdentityMatches v =
    (\<lambda>s. if en_identityOk s then (Inr (), s)
         else ebind (checkNetworkIdentity v) (\<lambda>_ t. (Inr (), t\<lparr>en_identityOk := True\<rparr>)) s)"

definition assertSignerMatchesSource :: "env \<Rightarrow> string \<Rightarrow> string \<Rightarrow> unit act" where
  "assertSignerMatchesSource v txXDR tx = (case w_assertSigner v of
     None \<Rightarrow> ethrow (type_error ''assertSignerMatchesSource'')
   | Some f \<Rightarrow> (case f txXDR tx of None \<Rightarrow> eret () | Some e \<Rightarrow> ethrow e))"

definition restoreAwaitsConfirmation :: "env \<Rightarrow> bool" where
  "restoreAwaitsConfirmation v = (ec_restoreConfirmationPolicy v \<noteq> ''submitted'')"

section \<open>Waiting for a transaction\<close>

definition getWaitBudgetMs :: "env \<Rightarrow> int \<Rightarrow> int" where
  "getWaitBudgetMs v maxPollAttempts = maxPollAttempts * ec_pollIntervalMs v"

fun poll_attempts :: "env \<Rightarrow> string \<Rightarrow> int \<Rightarrow> nat \<Rightarrow> string act" where
  "poll_attempts v hash totalWaitMs 0 =
    ethrow (positional (''Transaction '' @ hash @ '' not confirmed after '' @ int_dec totalWaitMs @
              ''ms (rpcUrl='' @ redactedRpcUrl v @ '')'') ''NETWORK_ERROR'')"
| "poll_attempts v hash totalWaitMs (Suc left) =
    ebind (throwIfCancelled v ''confirmation'' (Some hash)) (\<lambda>_.
    ebind (withMethodTimeout v ''getTransaction''
             (ebind (getServer v) (\<lambda>u. call_out (CReceipt u hash) (\<lambda>h. w_getTransaction v h hash))))
      (\<lambda>(status, json).
         if status \<noteq> ''NOT_FOUND''
         then if status = ''SUCCESS'' then eret hash
              else ethrow (positional (''Transaction failed (txHash='' @ hash @ '', rpcUrl='' @
                     redactedRpcUrl v @ ''): '' @ json) ''ORIGINAL_TX_FAILED'')
         else ebind (pause (of_int (ec_pollIntervalMs v)))
                (\<lambda>_. poll_attempts v hash totalWaitMs left)))"

definition pollForReceipt :: "env \<Rightarrow> string \<Rightarrow> int \<Rightarrow> int \<Rightarrow> string act" where
  "pollForReceipt v hash maxAttempts totalWaitMs = poll_attempts v hash totalWaitMs (nat maxAttempts)"

definition getWebSocketUrl :: "env \<Rightarrow> string option" where
  "getWebSocketUrl v = (case x_parseUrl v (primaryServer v) of
     None \<Rightarrow> None
   | Some (protocol, rest) \<Rightarrow>
       if protocol = ''https:'' then Some (''wss:'' @ rest)
       else if protocol = ''http:'' \<and> ec_allowHttp v then Some (''ws:'' @ rest)
       else None)"

text \<open>The handlers of the socket, in the order its events arrive; the first to settle wins.\<close>

fun ws_settle :: "string \<Rightarrow> int \<Rightarrow> ws_event list \<Rightarrow> js_err + unit" where
  "ws_settle hash timeoutMs [] =
    Inl (positional (''Transaction '' @ hash @ '' not confirmed via WebSocket after '' @
           int_dec timeoutMs @ ''ms'') ''NETWORK_ERROR'')"
| "ws_settle hash timeoutMs (WsMessage None # evs) = ws_settle hash timeoutMs evs"
| "ws_settle hash timeoutMs (WsMessage (Some f) # evs) =
    (if wf_method f \<noteq> ''transaction_status'' then ws_settle hash timeoutMs evs
     else if wf_hash f \<noteq> Some hash then ws_settle hash timeoutMs evs
     else if wf_status f = ''SUCCESS'' then Inr ()
     else if wf_status f = ''FAILED''
     then Inl (positional (''Transaction '' @ hash @ '' failed: '' @
                 (case wf_error f of None \<Rightarrow> ''unknown error'' | Some m \<Rightarrow> m)) ''ORIGINAL_TX_FAILED'')
     else ws_settle hash timeoutMs evs)"
| "ws_settle hash timeoutMs (WsError # evs) =
    Inl (positional (''WebSocket error waiting for transaction '' @ hash) ''NETWORK_ERROR'')"
| "ws_settle hash timeoutMs (WsClose code # evs) =
    Inl (positional (''WebSocket closed unexpectedly (code '' @ nat_dec code @ '') while waiting for '' @ hash)
           ''NETWORK_ERROR'')"

definition wsWaitForTransaction :: "env \<Rightarrow> string \<Rightarrow> string \<Rightarrow> int \<Rightarrow> unit act" where
  "wsWaitForTransaction v hash wsUrl timeoutMs =
    call_out (CWs hash) (\<lambda>h. case w_ws v h wsUrl of Inl e \<Rightarrow> Inl e | Inr evs \<Rightarrow> ws_settle hash timeoutMs evs)"

datatype transport = Websocket | Polling

text \<open>
  The WebSocket attempt: \<open>Some\<close> when it confirmed, \<open>None\<close> when the code goes on to poll; an error of
  the class is final.
\<close>

definition ws_attempt :: "env \<Rightarrow> string \<Rightarrow> int \<Rightarrow> bool act" where
  "ws_attempt v hash totalWaitMs =
    (if ec_useWebSocket v
     then (case getWebSocketUrl v of
         None \<Rightarrow> eret False
       | Some wsUrl \<Rightarrow>
           ebind (asking (\<lambda>h. w_wsProbe v h wsUrl)) (\<lambda>supported.
             if supported
             then ecatch (ebind (wsWaitForTransaction v hash wsUrl totalWaitMs) (\<lambda>_. eret True))
                    (\<lambda>e. if is_resurrect e then ethrow e else eret False)
             else eret False))
     else eret False)"

definition waitForTransaction :: "env \<Rightarrow> string \<Rightarrow> int \<Rightarrow> (string \<times> transport) act" where
  "waitForTransaction v hash maxPollAttempts =
    (let totalWaitMs = getWaitBudgetMs v maxPollAttempts
     in ebind (ws_attempt v hash totalWaitMs) (\<lambda>confirmed.
          if confirmed then eret (hash, Websocket)
          else ebind (pollForReceipt v hash maxPollAttempts totalWaitMs) (\<lambda>_. eret (hash, Polling))))"

section \<open>Submitting a signed transaction\<close>

definition lift_result :: "js_err + 'a \<Rightarrow> 'a act" where
  "lift_result r = (\<lambda>s. (r, s))"

definition send_signed :: "env \<Rightarrow> string \<Rightarrow> (string \<times> string) act" where
  "send_signed v tx =
    retryOnFailure v
      (withMethodTimeout v ''sendTransaction''
        (ebind (getServer v) (\<lambda>u. call_out (CSend u tx) (\<lambda>h. w_send v h tx))))
      ''sendTransaction''"

definition after_send :: "env \<Rightarrow> bool \<Rightarrow> string \<times> string \<Rightarrow> string act" where
  "after_send v awaitConfirmation res =
    (let (status, hash) = res
     in if status = ''PENDING'' \<or> status = ''DUPLICATE''
        then if \<not> awaitConfirmation then eret hash
             else ebind (throwIfCancelled v ''confirmation'' (Some hash)) (\<lambda>_.
                  ebind (waitForTransaction v hash (ec_maxPollAttempts v)) (\<lambda>(confirmedHash, _).
                  eret confirmedHash))
        else if status = ''ERROR''
        then ethrow (positional (''Transaction submission error (rpcUrl='' @ redactedRpcUrl v @ '')'')
               ''ORIGINAL_TX_FAILED'')
        else ethrow (positional (''Unexpected submission status: '' @ status @ '' (rpcUrl='' @
               redactedRpcUrl v @ '')'') ''NETWORK_ERROR''))"

definition submitSignedTransaction :: "env \<Rightarrow> string \<Rightarrow> bool \<Rightarrow> string act" where
  "submitSignedTransaction v txXDR awaitConfirmation =
    ebind (ensureNetworkIdentityMatches v) (\<lambda>_.
    ebind (throwIfCancelled v ''signing'' None) (\<lambda>_.
    ebind (call_out (CSign txXDR) (\<lambda>h. w_sign v h txXDR)) (\<lambda>signedXDR.
    ebind (throwIfCancelled v ''submission'' None) (\<lambda>_.
    ebind (lift_result (x_parseSigned v signedXDR)) (\<lambda>tx.
    ebind (assertSignerMatchesSource v txXDR tx) (\<lambda>_.
    ebind (send_signed v tx) (\<lambda>sendResult.
    after_send v awaitConfirmation sendResult)))))))"

section \<open>What every operation keeps\<close>

text \<open>
  Invariants of the history. A property that reads only the history, the identity flag and the record
  of the last failure, and that survives the calls in \<open>free\<close>, is kept by every operation that makes no other call. Each operation
  gets its lemma once, for all such properties.
\<close>

locale trace_invariant =
  fixes P :: "engine \<Rightarrow> bool" and free :: "call \<Rightarrow> bool"
  assumes frame: "P s \<Longrightarrow> en_calls t = en_calls s \<Longrightarrow> en_identityOk t = en_identityOk s \<Longrightarrow>
      en_lastFailed t = en_lastFailed s \<Longrightarrow> P t"
    and push: "P s \<Longrightarrow> free c \<Longrightarrow> P (s\<lparr>en_calls := c # en_calls s\<rparr>)"
    and free_delay: "free (CDelay ms)"
    and free_notify: "free (CNotify l ev)"
begin

lemma keeps_call_out: "free c \<Longrightarrow> keeps P (call_out c f)"
  by (simp add: keeps_def call_out_def push)

lemma keeps_asking: "keeps P (asking f)"
  by (simp add: keeps_def asking_def)

lemma keeps_lift: "keeps P (lift_result r)"
  by (simp add: keeps_def lift_result_def)

lemma keeps_pause: "keeps P (pause ms)"
  unfolding pause_def by (rule keeps_call_out [OF free_delay])

lemma keeps_notify_all: "keeps P (notify_all v ev ls)"
  by (induction ls) (auto intro!: guar keeps_call_out free_notify)

lemma keeps_emit: "keeps P (emit v ev)"
  using keeps_notify_all [of v ev] by (auto simp: keeps_def emit_def split: option.split)

lemma keeps_getServer: "keeps P (getServer v)"
  by (auto simp: keeps_def getServer_def Let_def split: prod.split option.split elim!: frame)

lemma keeps_policy:
  "keeps P (policy_should v e n)" "keeps P (policy_delay v n)" "keeps P policy_reset" "keeps P policy_limit"
  by (auto simp: keeps_def policy_should_def policy_delay_def policy_reset_def policy_limit_def
      split: prod.split elim!: frame)

lemma keeps_throwIfCancelled: "keeps P (throwIfCancelled v st h)"
  by (simp add: keeps_def throwIfCancelled_def)

lemma keeps_assertSigner: "keeps P (assertSignerMatchesSource v x y)"
  by (auto simp: assertSignerMatchesSource_def intro!: guar split: option.split)

lemma keeps_timeout: "keeps P m \<Longrightarrow> keeps P (withMethodTimeout v meth m)"
  by (auto simp: withMethodTimeout_def keeps_def Let_def split: option.split prod.split)

lemma keeps_retry_attempts: "keeps P fn \<Longrightarrow> keeps P (retry_attempts v fn ctx left n)"
proof (induction left arbitrary: n)
  case (Suc left)
  let ?h = "\<lambda>e. ebind policy_limit (\<lambda>mx. if int n \<le> mx
      then ebind (policy_should v (wrap_error e) n) (\<lambda>again. if again
             then ebind (policy_delay v n) (\<lambda>ms. ebind (pause ms) (\<lambda>_. retry_attempts v fn ctx left (Suc n)))
             else ethrow (Resurrect (wrap_error e)))
      else ethrow (Resurrect (wrap_error e)))"
  have h: "keeps P (?h e)" for e
    using Suc by (intro keeps_bind keeps_policy) (auto intro!: guar keeps_policy keeps_pause)
  have r: "keeps P (ebind policy_reset (\<lambda>_. eret x))" for x :: 'a
    by (intro guar keeps_policy)
  show ?case
  proof (rule keepsI)
    fix s r t assume P: "P s" and run: "retry_attempts v fn ctx (Suc left) n s = (r, t)"
    obtain res u where fn: "fn s = (res, u)" by force
    have u: "P u" by (rule keepsD [OF Suc.prems P fn])
    show "P t"
    proof (cases res)
      case (Inl e)
      then have "?h e u = (r, t)" using run fn by simp
      then show ?thesis by (rule keepsD [OF h u])
    next
      case (Inr x)
      then have "ebind policy_reset (\<lambda>_. eret x) u = (r, t)" using run fn by simp
      then show ?thesis by (rule keepsD [OF r u])
    qed
  qed
qed (auto intro: guar)

lemma keeps_retry: "keeps P fn \<Longrightarrow> keeps P (retryOnFailure v fn ctx)"
  unfolding retryOnFailure_def by (intro guar keeps_policy keeps_retry_attempts)

lemma keeps_poll_attempts:
  "(\<And>u. free (CReceipt u hash)) \<Longrightarrow> keeps P (poll_attempts v hash budget left)"
proof (induction left)
  case (Suc left)
  then show ?case
    by (auto intro!: guar keeps_throwIfCancelled keeps_timeout keeps_getServer keeps_call_out keeps_pause
        split: prod.split)
qed (auto intro: guar)

lemma keeps_waitForTransaction:
  assumes "\<And>u. free (CReceipt u hash)" and "free (CWs hash)"
  shows "keeps P (waitForTransaction v hash n)"
  using assms
  by (auto simp: waitForTransaction_def ws_attempt_def wsWaitForTransaction_def pollForReceipt_def Let_def
      intro!: guar keeps_asking keeps_call_out keeps_poll_attempts split: option.split)

lemma keeps_send_signed: "(\<And>u. free (CSend u tx)) \<Longrightarrow> keeps P (send_signed v tx)"
  unfolding send_signed_def
  by (intro keeps_retry keeps_timeout guar keeps_getServer keeps_call_out)

lemma keeps_after_send:
  "(\<And>u h. free (CReceipt u h)) \<Longrightarrow> (\<And>h. free (CWs h)) \<Longrightarrow> keeps P (after_send v aw res)"
  by (cases res) (auto simp: after_send_def Let_def
      intro!: guar keeps_throwIfCancelled keeps_waitForTransaction split: prod.split)

end

text \<open>The history only grows.\<close>

definition grown_from :: "call list \<Rightarrow> engine \<Rightarrow> bool" where
  "grown_from h s = (\<exists>new. en_calls s = new @ h)"

interpretation grow: trace_invariant "grown_from h" "\<lambda>c. True" for h
  by unfold_locales (auto simp: grown_from_def)

text \<open>
  Signing is safe when every \<open>CSign\<close> has an older \<open>getNetwork\<close> answer with the configured passphrase.
\<close>

fun verified :: "env \<Rightarrow> call list \<Rightarrow> bool" where
  "verified v [] = False"
| "verified v (CNetwork # h) = (w_getNetwork v h = Inr (ec_networkPassphrase v) \<or> verified v h)"
| "verified v (_ # h) = verified v h"

fun is_sign :: "call \<Rightarrow> bool" where
  "is_sign (CSign x) = True"
| "is_sign _ = False"

fun is_send :: "call \<Rightarrow> bool" where
  "is_send (CSend u x) = True"
| "is_send _ = False"

fun signed_safely :: "env \<Rightarrow> call list \<Rightarrow> bool" where
  "signed_safely v [] = True"
| "signed_safely v (c # h) = ((is_sign c \<longrightarrow> verified v h) \<and> signed_safely v h)"

definition network_safe :: "env \<Rightarrow> engine \<Rightarrow> bool" where
  "network_safe v s = (signed_safely v (en_calls s) \<and> (en_identityOk s \<longrightarrow> verified v (en_calls s)))"

lemma verified_push: "verified v h \<Longrightarrow> verified v (c # h)"
  by (cases c) auto

interpretation sig: trace_invariant "network_safe v" "\<lambda>c. \<not> is_sign c" for v
  by unfold_locales (auto simp: network_safe_def verified_push)

text \<open>Neither the wallet nor \<open>sendTransaction\<close> is called.\<close>

definition quiet_since :: "call list \<Rightarrow> engine \<Rightarrow> bool" where
  "quiet_since h s = (filter (\<lambda>c. is_sign c \<or> is_send c) (en_calls s) = filter (\<lambda>c. is_sign c \<or> is_send c) h)"

interpretation quiet: trace_invariant "quiet_since h" "\<lambda>c. \<not> is_sign c \<and> \<not> is_send c" for h
  by unfold_locales (auto simp: quiet_since_def)

text \<open>At most a number of signatures and of submissions.\<close>

definition at_most :: "(call \<Rightarrow> bool) \<Rightarrow> nat \<Rightarrow> engine \<Rightarrow> bool" where
  "at_most p n s = (length (filter p (en_calls s)) \<le> n)"

interpretation signs: trace_invariant "at_most is_sign n" "\<lambda>c. \<not> is_sign c" for n
  by unfold_locales (auto simp: at_most_def)

interpretation sends: trace_invariant "at_most is_send n" "\<lambda>c. \<not> is_send c" for n
  by unfold_locales (auto simp: at_most_def)

subsection \<open>The identity check\<close>

context trace_invariant
begin

lemma keeps_checkNetworkIdentity: "free CNetwork \<Longrightarrow> keeps P (checkNetworkIdentity v)"
  by (auto simp: checkNetworkIdentity_def intro!: guar keeps_call_out)

end

lemma checkNetworkIdentity_verified:
  "guarantees (network_safe v) (checkNetworkIdentity v)
     (\<lambda>_ t. network_safe v t \<and> verified v (en_calls t)) (\<lambda>_. network_safe v)"
proof (rule guaranteesI)
  fix s x t assume P: "network_safe v s" and run: "checkNetworkIdentity v s = (Inr x, t)"
  have "w_getNetwork v (en_calls s) = Inr (ec_networkPassphrase v) \<and> en_calls t = CNetwork # en_calls s"
    using run by (auto simp: checkNetworkIdentity_def eff_cases call_out_def split: if_splits)
  moreover have "network_safe v t"
    by (rule keepsD [OF sig.keeps_checkNetworkIdentity P run]) simp
  ultimately show "network_safe v t \<and> verified v (en_calls t)" by simp
next
  fix s e t assume P: "network_safe v s" and run: "checkNetworkIdentity v s = (Inl e, t)"
  show "network_safe v t"
    by (rule keepsD [OF sig.keeps_checkNetworkIdentity P run]) simp
qed

lemma ensure_verified:
  "guarantees (network_safe v) (ensureNetworkIdentityMatches v)
     (\<lambda>_ t. network_safe v t \<and> verified v (en_calls t)) (\<lambda>_. network_safe v)"
proof (rule guaranteesI)
  fix s x t assume P: "network_safe v s" and run: "ensureNetworkIdentityMatches v s = (Inr x, t)"
  show "network_safe v t \<and> verified v (en_calls t)"
  proof (cases "en_identityOk s")
    case True
    then show ?thesis using P run by (simp add: ensureNetworkIdentityMatches_def network_safe_def)
  next
    case False
    then obtain y u where u: "checkNetworkIdentity v s = (Inr y, u)" "t = u\<lparr>en_identityOk := True\<rparr>"
      using run by (auto simp: ensureNetworkIdentityMatches_def ebind_Inr)
    show ?thesis using guarantees_Inr [OF checkNetworkIdentity_verified P u(1)] u(2)
      by (simp add: network_safe_def)
  qed
next
  fix s e t assume P: "network_safe v s" and run: "ensureNetworkIdentityMatches v s = (Inl e, t)"
  then have "checkNetworkIdentity v s = (Inl e, t)"
    by (auto simp: ensureNetworkIdentityMatches_def ebind_Inl split: if_splits)
  then show "network_safe v t" by (rule guarantees_Inl [OF checkNetworkIdentity_verified P])
qed

text \<open>Everything after the signature, for any invariant that allows submissions and receipts.\<close>

definition after_sign :: "env \<Rightarrow> string \<Rightarrow> bool \<Rightarrow> string \<Rightarrow> string act" where
  "after_sign v txXDR awaitConfirmation signedXDR =
    ebind (throwIfCancelled v ''submission'' None) (\<lambda>_.
    ebind (lift_result (x_parseSigned v signedXDR)) (\<lambda>tx.
    ebind (assertSignerMatchesSource v txXDR tx) (\<lambda>_.
    ebind (send_signed v tx) (\<lambda>sendResult.
    after_send v awaitConfirmation sendResult))))"

lemma submit_after_sign:
  "submitSignedTransaction v x aw =
    ebind (ensureNetworkIdentityMatches v) (\<lambda>_.
    ebind (throwIfCancelled v ''signing'' None) (\<lambda>_.
    ebind (call_out (CSign x) (\<lambda>h. w_sign v h x)) (after_sign v x aw)))"
  by (simp add: submitSignedTransaction_def after_sign_def [abs_def])

context trace_invariant
begin

lemma keeps_after_sign:
  assumes "\<And>u x. free (CSend u x)" "\<And>u h. free (CReceipt u h)" "\<And>h. free (CWs h)"
  shows "keeps P (after_sign v x aw y)"
  using assms unfolding after_sign_def
  by (auto intro!: guar keeps_throwIfCancelled keeps_lift keeps_assertSigner keeps_send_signed keeps_after_send)

end

lemma submit_network_safe: "keeps (network_safe v) (submitSignedTransaction v x aw)"
proof -
  have after: "keeps (network_safe v) (after_sign v x aw y)" for y
    by (rule sig.keeps_after_sign) auto
  have sign: "guarantees (\<lambda>t. network_safe v t \<and> verified v (en_calls t))
      (call_out (CSign x) (\<lambda>h. w_sign v h x)) (\<lambda>_. network_safe v) (\<lambda>_. network_safe v)"
    by (rule guaranteesI) (auto simp: call_out_def network_safe_def)
  have rest: "guarantees (\<lambda>t. network_safe v t \<and> verified v (en_calls t))
      (ebind (throwIfCancelled v ''signing'' None) (\<lambda>_. ebind (call_out (CSign x) (\<lambda>h. w_sign v h x)) (after_sign v x aw)))
      (\<lambda>_. network_safe v) (\<lambda>_. network_safe v)"
  proof (rule guarantees_bind)
    show "guarantees (\<lambda>t. network_safe v t \<and> verified v (en_calls t)) (throwIfCancelled v ''signing'' None)
        (\<lambda>_ t. network_safe v t \<and> verified v (en_calls t)) (\<lambda>_. network_safe v)"
      by (auto simp: guarantees_def throwIfCancelled_def)
    show "guarantees (\<lambda>t. network_safe v t \<and> verified v (en_calls t))
        (ebind (call_out (CSign x) (\<lambda>h. w_sign v h x)) (after_sign v x aw)) (\<lambda>_. network_safe v) (\<lambda>_. network_safe v)"
      by (rule guarantees_bind [OF sign]) (use after in \<open>simp only: guarantees_keeps\<close>)
  qed
  have "guarantees (network_safe v) (submitSignedTransaction v x aw) (\<lambda>_. network_safe v) (\<lambda>_. network_safe v)"
    unfolding submit_after_sign by (rule guarantees_bind [OF ensure_verified rest])
  then show ?thesis by (simp only: guarantees_keeps)
qed

end
