(* ===== verification/Submit.thy ===== *)
theory Submit
  imports Client
begin

text \<open>
  Properties of the retry wrapper and of \<open>submitSignedTransaction\<close>: what is retried, how often the wallet
  and the RPC are asked, what a returned hash means, and what cancelling prevents.
\<close>

section \<open>The retry wrapper\<close>

lemma retry_attempts_step:
  "retry_attempts v fn ctx (Suc left) n s =
    (case fn s of
       (Inr x, t) \<Rightarrow> (Inr x, t\<lparr>en_policy := pol_reset (en_policy t)\<rparr>)
     | (Inl e, t) \<Rightarrow>
         if int n \<le> pol_maxRetries (en_policy t)
         then (let (again, p) = pol_shouldRetry (en_policy t) (err_code (wrap_error e)) n (w_policyEnv v (en_calls t));
                   u = t\<lparr>en_policy := p\<rparr>
               in if again
                  then retry_attempts v fn ctx left (Suc n)
                    (u\<lparr>en_calls := CDelay (pol_getDelay p n (w_policyEnv v (en_calls u))) # en_calls u\<rparr>)
                  else (Inl (Resurrect (wrap_error e)), u))
         else (Inl (Resurrect (wrap_error e)), t))"
  by (auto simp: ebind_def policy_reset_def eret_def ethrow_def policy_limit_def policy_should_def policy_delay_def
      pause_def call_out_def Let_def split: prod.split sum.split)

declare retry_attempts.simps(2) [simp del]

lemma retryOnFailure_run:
  "retryOnFailure v fn ctx s = retry_attempts v fn ctx (nat (pol_maxRetries (en_policy s) + 1)) 1 s"
  by (simp add: retryOnFailure_def ebind_def policy_limit_def)

text \<open>A result comes from the last attempt.\<close>

lemma retry_attempts_success:
  "retry_attempts v fn ctx left n s = (Inr x, t) \<Longrightarrow>
   \<exists>s' u. fn s' = (Inr x, u) \<and> t = u\<lparr>en_policy := pol_reset (en_policy u)\<rparr>"
proof (induction left arbitrary: n s)
  case (Suc left)
  obtain res u where fn: "fn s = (res, u)" by force
  show ?case
  proof (cases res)
    case (Inr y)
    then show ?thesis using Suc.prems fn by (auto simp: retry_attempts_step)
  next
    case (Inl e)
    then show ?thesis using Suc.prems fn Suc.IH
      by (auto simp: retry_attempts_step Let_def split: if_splits prod.splits)
  qed
qed simp

lemma retry_success:
  "retryOnFailure v fn ctx s = (Inr x, t) \<Longrightarrow>
   \<exists>s' u. fn s' = (Inr x, u) \<and> t = u\<lparr>en_policy := pol_reset (en_policy u)\<rparr>"
  unfolding retryOnFailure_run by (rule retry_attempts_success)

text \<open>Every rejection is an error of the class.\<close>

lemma retry_attempts_error:
  "retry_attempts v fn ctx left n s = (Inl e, t) \<Longrightarrow> is_resurrect e"
proof (induction left arbitrary: n s)
  case (Suc left)
  obtain res u where fn: "fn s = (res, u)" by force
  show ?case
  proof (cases res)
    case (Inr y)
    then show ?thesis using Suc.prems fn by (auto simp: retry_attempts_step)
  next
    case (Inl e')
    then show ?thesis using Suc.prems fn Suc.IH
      by (auto simp: retry_attempts_step Let_def is_resurrect_def split: if_splits prod.splits)
  qed
qed (auto simp: positional_def is_resurrect_def)

lemma retry_error: "retryOnFailure v fn ctx s = (Inl e, t) \<Longrightarrow> is_resurrect e"
  unfolding retryOnFailure_run by (rule retry_attempts_error)

text \<open>A function that makes at most one call of a kind makes at most one per attempt.\<close>

lemma retry_attempts_at_most:
  assumes fn: "\<And>n. guarantees (at_most p n) fn (\<lambda>_. at_most p (Suc n)) (\<lambda>_. at_most p (Suc n))"
    and del: "\<And>ms. \<not> p (CDelay ms)"
  shows "at_most p k s \<Longrightarrow> retry_attempts v fn ctx left n s = (r, t) \<Longrightarrow> at_most p (k + left) t"
proof (induction left arbitrary: n s k)
  case (Suc left)
  obtain res u where run: "fn s = (res, u)" by force
  have u: "at_most p (Suc k) u"
    using guarantees_Inr [OF fn Suc.prems(1)] guarantees_Inl [OF fn Suc.prems(1)] run by (cases res) auto
  have mono: "at_most p (k + Suc left) u" using u by (simp add: at_most_def)
  show ?case
  proof (cases res)
    case (Inr y)
    then show ?thesis using Suc.prems run mono by (auto simp: retry_attempts_step at_most_def)
  next
    case (Inl e)
    let ?p = "snd (pol_shouldRetry (en_policy u) (err_code (wrap_error e)) n (w_policyEnv v (en_calls u)))"
    have nxt: "at_most p (Suc k) (u\<lparr>en_policy := q, en_calls := CDelay d # en_calls u\<rparr>)" for q d
      using u del by (simp add: at_most_def)
    show ?thesis using Suc.prems(2) Inl run mono Suc.IH [OF nxt]
      by (auto simp: retry_attempts_step at_most_def Let_def split: if_splits prod.splits)
  qed
qed (simp add: at_most_def)

text \<open>Only an error of the class is ever tried again: everything else is wrapped into one with a code
  that is not retryable.\<close>

lemma wrap_foreign: "\<not> is_resurrect e \<Longrightarrow> \<not> isRetryable (err_code (wrap_error e))"
  by (cases e) (auto simp: is_resurrect_def wrap_error_def js_String_not_retryable)

lemma retry_foreign:
  assumes "fn s = (Inl e, t)" and "\<not> is_resurrect e" and "0 \<le> pol_maxRetries (en_policy s)"
    and "retryOnFailure v fn ctx s = (r, u)"
  shows "r = Inl (Resurrect (SorobanResurrectError (js_String e) (Some ''NETWORK_ERROR''))) \<and>
    en_calls u = en_calls t"
proof -
  obtain k where k: "nat (pol_maxRetries (en_policy s) + 1) = Suc k"
    using assms(3) by (metis Suc_nat_eq_nat_zadd1 add.commute)
  have no: "\<not> fst (pol_shouldRetry p (err_code (wrap_error e)) n env)" for p n env
    by (rule pol.refuse_nonretryable [OF wrap_foreign [OF assms(2)]])
  have w: "wrap_error e = SorobanResurrectError (js_String e) (Some ''NETWORK_ERROR'')"
    using assms(2) by (cases e) (auto simp: is_resurrect_def wrap_error_def)
  show ?thesis
    using assms(1,4) no [of "en_policy t" 1 "w_policyEnv v (en_calls t)"]
    by (auto simp: retryOnFailure_run k retry_attempts_step Let_def w split: if_splits prod.splits)
qed

section \<open>Sending\<close>

text \<open>The history after a send that answered: the answer was given to its last call.\<close>

definition answered_send :: "env \<Rightarrow> string \<Rightarrow> string \<times> string \<Rightarrow> call list \<Rightarrow> bool" where
  "answered_send v tx res cs =
    (\<exists>u h. cs = CSend u tx # h \<and> w_send v h tx = Inr res)"

lemma timeout_Inr: "withMethodTimeout v meth m s = (Inr x, t) \<Longrightarrow> m s = (Inr x, t)"
  by (auto simp: withMethodTimeout_def Let_def split: option.splits prod.splits if_splits)

lemma timeout_snd: "withMethodTimeout v meth m s = (r, t) \<Longrightarrow> \<exists>r'. m s = (r', t)"
  by (auto simp: withMethodTimeout_def Let_def split: option.splits prod.splits if_splits)

lemma getServer_calls: "getServer v s = (r, t) \<Longrightarrow> en_calls t = en_calls s"
  by (auto simp: getServer_def Let_def split: prod.splits option.splits if_splits)

lemma send_signed_answered:
  "send_signed v tx s = (Inr res, t) \<Longrightarrow> answered_send v tx res (en_calls t)"
  unfolding send_signed_def
  by (drule retry_success)
    (auto dest!: timeout_Inr getServer_calls simp: ebind_Inr call_out_def answered_send_def)

lemma send_signed_at_most:
  assumes "send_signed v tx s = (r, t)" and "at_most is_send k s"
  shows "at_most is_send (k + nat (pol_maxRetries (en_policy s) + 1)) t"
proof -
  let ?fn = "withMethodTimeout v ''sendTransaction''
        (ebind (getServer v) (\<lambda>u. call_out (CSend u tx) (\<lambda>h. w_send v h tx)))"
  have one: "at_most is_send (Suc n) u" if pre: "at_most is_send n s'" and run: "?fn s' = (r', u)" for n s' r' u
  proof -
    obtain r2 where "ebind (getServer v) (\<lambda>u. call_out (CSend u tx) (\<lambda>h. w_send v h tx)) s' = (r2, u)"
      using timeout_snd [OF run] by blast
    then show ?thesis using pre
      by (cases r2) (auto simp: eff_cases call_out_def at_most_def dest!: getServer_calls)
  qed
  have g: "guarantees (at_most is_send n) ?fn (\<lambda>_. at_most is_send (Suc n)) (\<lambda>_. at_most is_send (Suc n))" for n
    by (rule guaranteesI) (erule (1) one)+
  show ?thesis
    using assms retry_attempts_at_most [OF g, of k s v _ _ 1 r t]
    by (simp add: send_signed_def retryOnFailure_run)
qed

section \<open>Confirmation\<close>

definition ws_confirms :: "string \<Rightarrow> ws_event list \<Rightarrow> bool" where
  "ws_confirms hash evs = list_ex (\<lambda>e. case e of
     WsMessage (Some f) \<Rightarrow> wf_method f = ''transaction_status'' \<and> wf_hash f = Some hash \<and> wf_status f = ''SUCCESS''
   | _ \<Rightarrow> False) evs"

text \<open>The last call is the one that reported success for the hash.\<close>

definition confirmed_last :: "env \<Rightarrow> string \<Rightarrow> call list \<Rightarrow> bool" where
  "confirmed_last v hash cs = (case cs of
     CReceipt u h' # h \<Rightarrow> h' = hash \<and> (\<exists>json. w_getTransaction v h hash = Inr (''SUCCESS'', json))
   | CWs h' # h \<Rightarrow> h' = hash \<and> (\<exists>url evs. w_ws v h url = Inr evs \<and> ws_confirms hash evs)
   | _ \<Rightarrow> False)"

lemma ws_settle_confirms: "ws_settle hash b evs = Inr () \<Longrightarrow> ws_confirms hash evs"
  by (induction hash b evs rule: ws_settle.induct) (auto simp: ws_confirms_def split: if_splits)

lemma throwIfCancelled_Inr:
  "throwIfCancelled v st h s = (Inr x, t) \<longleftrightarrow> t = s \<and> \<not> w_aborted v (en_calls s)"
  by (auto simp: throwIfCancelled_def)

lemma throwIfCancelled_Inl:
  "throwIfCancelled v st h s = (Inl e, t) \<longleftrightarrow> t = s \<and> w_aborted v (en_calls s) \<and> e = AbortErr st h"
  by (auto simp: throwIfCancelled_def)

lemma receipt_answer:
  assumes "withMethodTimeout v meth
    (ebind (getServer v) (\<lambda>u. call_out (CReceipt u hash) (\<lambda>h. w_getTransaction v h hash))) s = (Inr x, t)"
  shows "\<exists>u h. en_calls t = CReceipt u hash # h \<and> w_getTransaction v h hash = Inr x"
  using timeout_Inr [OF assms] by (auto simp: ebind_Inr call_out_def dest!: getServer_calls)

lemma poll_confirmed:
  "poll_attempts v hash b left s = (Inr x, t) \<Longrightarrow> x = hash \<and> confirmed_last v hash (en_calls t)"
proof (induction left arbitrary: s)
  case (Suc left)
  from Suc.prems obtain status json u where
    call: "withMethodTimeout v ''getTransaction''
      (ebind (getServer v) (\<lambda>u. call_out (CReceipt u hash) (\<lambda>h. w_getTransaction v h hash))) s = (Inr (status, json), u)"
    and rest: "(if status \<noteq> ''NOT_FOUND''
         then if status = ''SUCCESS'' then eret hash
              else ethrow (positional (''Transaction failed (txHash='' @ hash @ '', rpcUrl='' @
                     redactedRpcUrl v @ ''): '' @ json) ''ORIGINAL_TX_FAILED'')
         else ebind (pause (of_int (ec_pollIntervalMs v)))
                (\<lambda>_. poll_attempts v hash b left)) u = (Inr x, t)"
    by (auto simp: ebind_Inr throwIfCancelled_Inr)
  show ?case
  proof (cases "status = ''NOT_FOUND''")
    case True
    then obtain y u' where "poll_attempts v hash b left u' = (Inr x, t)"
      using rest by (auto simp: ebind_Inr)
    then show ?thesis by (rule Suc.IH)
  next
    case False
    then have "status = ''SUCCESS''" "x = hash" "t = u" using rest by (auto split: if_splits)
    then show ?thesis using receipt_answer [OF call] by (auto simp: confirmed_last_def)
  qed
qed simp

lemma ws_attempt_confirms:
  "ws_attempt v hash b s = (Inr True, t) \<Longrightarrow> confirmed_last v hash (en_calls t)"
  by (auto simp: ws_attempt_def eff_cases asking_def wsWaitForTransaction_def call_out_def confirmed_last_def
      split: if_splits option.splits sum.splits dest!: ws_settle_confirms)

lemma wait_confirmed:
  assumes "waitForTransaction v hash n s = (Inr (x, tr), t)"
  shows "x = hash \<and> confirmed_last v hash (en_calls t)"
proof -
  obtain c u where c: "ws_attempt v hash (getWaitBudgetMs v n) s = (Inr c, u)"
      "(if c then eret (hash, Websocket)
        else ebind (pollForReceipt v hash n (getWaitBudgetMs v n)) (\<lambda>_. eret (hash, Polling))) u = (Inr (x, tr), t)"
    using assms by (auto simp: waitForTransaction_def Let_def ebind_Inr)
  show ?thesis
  proof (cases c)
    case True
    then show ?thesis using c ws_attempt_confirms by auto
  next
    case False
    then show ?thesis using c(2) by (auto simp: ebind_Inr pollForReceipt_def dest!: poll_confirmed)
  qed
qed

lemma after_send_confirmed:
  assumes "after_send v True res s = (Inr x, t)"
  shows "x = snd res \<and> (fst res = ''PENDING'' \<or> fst res = ''DUPLICATE'') \<and> confirmed_last v x (en_calls t)"
  using assms by (cases res) (auto simp: after_send_def Let_def ebind_Inr throwIfCancelled_Inr
      split: if_splits prod.splits dest!: wait_confirmed)

definition sent_in :: "env \<Rightarrow> string \<Rightarrow> string \<times> string \<Rightarrow> call list \<Rightarrow> bool" where
  "sent_in v tx res cs = (\<exists>new h. cs = new @ h \<and> answered_send v tx res h)"

lemma after_send_grows: "keeps (grown_from h) (after_send v aw res)"
  by (rule grow.keeps_after_send) auto

lemma after_sign_confirmed:
  assumes "after_sign v x True y s = (Inr h, t)"
  shows "confirmed_last v h (en_calls t) \<and>
    (\<exists>tx st. (st = ''PENDING'' \<or> st = ''DUPLICATE'') \<and> sent_in v tx (st, h) (en_calls t) \<and> x_parseSigned v y = Inr tx)"
proof -
  from assms obtain tx st h' u u' where tx: "x_parseSigned v y = Inr tx"
      and send: "send_signed v tx u = (Inr (st, h'), u')"
      and aft: "after_send v True (st, h') u' = (Inr h, t)"
    by (auto simp: after_sign_def ebind_Inr lift_result_def)
  have "grown_from (en_calls u') t"
    by (rule keepsD [OF after_send_grows _ aft]) (simp add: grown_from_def)
  then show ?thesis
    using after_send_confirmed [OF aft] send_signed_answered [OF send] tx
    by (auto simp: sent_in_def grown_from_def)
qed

lemma submit_Inr_split:
  "submitSignedTransaction v x aw s = (Inr h, t) \<Longrightarrow>
   \<exists>y hs u. w_sign v hs x = Inr y \<and> after_sign v x aw y u = (Inr h, t)"
  by (auto simp: submit_after_sign ebind_Inr call_out_def)

section \<open>Cancelling\<close>

lemma ensure_calls:
  "ensureNetworkIdentityMatches v s = (r, t) \<Longrightarrow> en_calls t = en_calls s \<or> en_calls t = CNetwork # en_calls s"
  by (cases r) (auto simp: ensureNetworkIdentityMatches_def checkNetworkIdentity_def eff_cases call_out_def
      split: if_splits)

lemma submit_aborted:
  assumes "w_aborted v (en_calls s)" and "\<And>c h. w_aborted v h \<Longrightarrow> w_aborted v (c # h)"
    and "submitSignedTransaction v x aw s = (r, t)"
  shows "(\<exists>e. r = Inl e) \<and> quiet_since (en_calls s) t"
proof -
  obtain r1 u where e: "ensureNetworkIdentityMatches v s = (r1, u)" by force
  have u: "quiet_since (en_calls s) u" "w_aborted v (en_calls u)"
    using ensure_calls [OF e] assms(1,2) by (auto simp: quiet_since_def)
  show ?thesis
  proof (cases r1)
    case (Inl err)
    then show ?thesis using assms(3) e u by (cases r) (auto simp: submitSignedTransaction_def ebind_def)
  next
    case (Inr y)
    then show ?thesis using assms(3) e u
      by (cases r) (auto simp: submitSignedTransaction_def ebind_def throwIfCancelled_def)
  qed
qed

lemma ensure_no_send: "keeps (at_most is_send n) (ensureNetworkIdentityMatches v)"
  by (rule keepsI) (auto dest!: ensure_calls simp: at_most_def)

lemma submit_aborted_after_sign:
  assumes "\<And>h. w_aborted v (CSign x # h)" and "submitSignedTransaction v x aw s = (r, t)"
  shows "(\<exists>e. r = Inl e) \<and> at_most is_send (length (filter is_send (en_calls s))) t"
proof -
  let ?n = "length (filter is_send (en_calls s))"
  obtain r1 u where e: "ensureNetworkIdentityMatches v s = (r1, u)" by force
  have u: "at_most is_send ?n u" by (rule keepsD [OF ensure_no_send _ e]) (simp add: at_most_def)
  show ?thesis
  proof (cases r1)
    case (Inl err)
    then show ?thesis using assms(2) e u by (cases r) (auto simp: submitSignedTransaction_def ebind_def)
  next
    case (Inr y)
    then show ?thesis using assms e u
      by (cases r) (auto simp: submitSignedTransaction_def ebind_def throwIfCancelled_def call_out_def at_most_def
          split: if_splits sum.splits)
  qed
qed

section \<open>How often the wallet and the RPC are asked\<close>

definition budget_before :: "nat \<Rightarrow> nat \<Rightarrow> int \<Rightarrow> engine \<Rightarrow> bool" where
  "budget_before k n mx s = (at_most is_sign k s \<and> at_most is_send n s \<and> pol_maxRetries (en_policy s) = mx)"

lemma ensure_policy: "ensureNetworkIdentityMatches v s = (r, t) \<Longrightarrow> en_policy t = en_policy s"
  by (cases r) (auto simp: ensureNetworkIdentityMatches_def checkNetworkIdentity_def eff_cases call_out_def
      split: if_splits)

lemma assertSigner_state: "assertSignerMatchesSource v x y s = (r, t) \<Longrightarrow> t = s"
  by (cases r) (auto simp: assertSignerMatchesSource_def split: option.splits)

lemma after_sign_budget:
  assumes "after_sign v x aw y s = (r, t)" and "budget_before k n mx s"
  shows "at_most is_sign k t \<and> at_most is_send (n + nat (mx + 1)) t"
proof
  show "at_most is_sign k t"
    by (rule keepsD [OF signs.keeps_after_sign _ assms(1)]) (use assms(2) in \<open>auto simp: budget_before_def\<close>)
  have le: "at_most is_send (n + nat (mx + 1)) s" using assms(2) by (simp add: budget_before_def at_most_def)
  have send: "at_most is_send (n + nat (mx + 1)) u'"
    if "send_signed v tx s = (r', u')" for tx r' u'
    using send_signed_at_most [OF that, of n] assms(2) by (simp add: budget_before_def)
  have aft: "at_most is_send (n + nat (mx + 1)) u''"
    if "after_send v aw res u' = (r'', u'')" "at_most is_send (n + nat (mx + 1)) u'" for res u' r'' u''
    by (rule keepsD [OF sends.keeps_after_send that(2,1)]) auto
  show "at_most is_send (n + nat (mx + 1)) t"
    using assms(1) le
    by (cases r) (auto simp: after_sign_def eff_cases lift_result_def throwIfCancelled_Inr throwIfCancelled_Inl
        dest!: assertSigner_state dest: send aft)
qed

lemma submit_budget:
  assumes "submitSignedTransaction v x aw s = (r, t)" and "budget_before k n mx s"
  shows "at_most is_sign (Suc k) t \<and> at_most is_send (n + nat (mx + 1)) t"
proof -
  obtain r1 u where e: "ensureNetworkIdentityMatches v s = (r1, u)" by force
  have u: "budget_before k n mx u"
    using ensure_calls [OF e] ensure_policy [OF e] assms(2) by (auto simp: budget_before_def at_most_def)
  have signed: "budget_before (Suc k) n mx (u\<lparr>en_calls := CSign x # en_calls u\<rparr>)"
    using u by (simp add: budget_before_def at_most_def)
  have stop: "at_most is_sign (Suc k) u' \<and> at_most is_send (n + nat (mx + 1)) u'"
    if "budget_before j n mx u'" "j \<le> Suc k" for j u'
    using that by (simp add: budget_before_def at_most_def)
  show ?thesis
    using assms(1) e stop [OF u] stop [OF signed] after_sign_budget [OF _ signed]
    by (cases r1; cases "w_aborted v (en_calls u)"; cases "w_sign v (en_calls u) x")
      (auto simp: submit_after_sign ebind_def throwIfCancelled_def call_out_def)
qed

section \<open>Properties\<close>

text \<open>
  A world in which every call succeeds at once, the missing methods are supplied and accept, and the
  first breath of a client in it: the instance the witnesses run.
\<close>

definition sample_env :: env where
  "sample_env = \<lparr>ec_rpcUrls = [''u''], ec_networkPassphrase = ''net'', ec_allowHttp = False,
     ec_restoreFee = ''100'', ec_simulateOnly = False, ec_dynamicFeeEstimation = False,
     ec_strictNetworkValidation = False, ec_useWebSocket = False, ec_pollIntervalMs = 1000,
     ec_maxPollAttempts = 2, ec_restoreConfirmationPolicy = ''confirmed'',
     ec_rpcMethodTimeouts = (\<lambda>_. None), ec_maxConcurrency = None,
     x_fromXDR = (\<lambda>x. Inr \<lparr>pt_feeBump = False, pt_footprint = Some ([], []), pt_sorobanData = None,
        pt_innerXDR = x, pt_feeAccountID = None, pt_feeBumpFee = None\<rparr>),
     x_parseSigned = Inr, x_encodeKey = (\<lambda>k. case k of OtherKey b \<Rightarrow> b | _ \<Rightarrow> ''?''),
     x_footprintData = (\<lambda>ks. ''data''), x_account = (\<lambda>a q. Inr ()), x_buildRestore = (\<lambda>a q f d. Inr (a @ int_dec q)),
     x_buildFeeBump = (\<lambda>i f. Inr i), x_parseUrl = (\<lambda>u. None), x_redactUrl = id, x_redactText = id,
     w_getNetwork = (\<lambda>h. Inr ''net''), w_getAccount = (\<lambda>h a. Inr 7), w_simulate = (\<lambda>h x. Inr SimOther),
     w_getEntries = (\<lambda>h ks. Inr []), w_probe = (\<lambda>h u. Inr []), w_sign = (\<lambda>h x. Inr (''s'' @ x)),
     w_send = (\<lambda>h tx. Inr (''PENDING'', tx)), w_getTransaction = (\<lambda>h x. Inr (''SUCCESS'', [])),
     w_wsProbe = (\<lambda>h u. False), w_ws = (\<lambda>h u. Inr []), w_aborted = (\<lambda>h. False),
     w_timedOut = (\<lambda>h. False), w_now = (\<lambda>h. 0),
     w_policyEnv = (\<lambda>h. \<lparr>pe_now = 0, pe_now2 = 0, pe_rnd = 0\<rparr>), w_notify = (\<lambda>h l e. None),
     w_assertSigner = Some (\<lambda>x y. None), w_describeFailure = Some (\<lambda>e. (None, None)),
     w_verifyRestoration = Some (\<lambda>h x. None)\<rparr>"

lemma sample_env_sel [simp]:
  "ec_rpcUrls sample_env = [''u'']" "ec_networkPassphrase sample_env = ''net''"
  "ec_restoreFee sample_env = ''100''" "\<not> ec_simulateOnly sample_env" "\<not> ec_dynamicFeeEstimation sample_env"
  "\<not> ec_useWebSocket sample_env" "ec_maxPollAttempts sample_env = 2"
  "ec_restoreConfirmationPolicy sample_env = ''confirmed''" "ec_rpcMethodTimeouts sample_env m = None"
  "x_fromXDR sample_env x = Inr \<lparr>pt_feeBump = False, pt_footprint = Some ([], []), pt_sorobanData = None,
     pt_innerXDR = x, pt_feeAccountID = None, pt_feeBumpFee = None\<rparr>"
  "x_parseSigned sample_env y = Inr y" "x_buildRestore sample_env a q f d = Inr (a @ int_dec q)"
  "x_account sample_env a q = Inr ()" "x_encodeKey sample_env (OtherKey b) = b" "x_footprintData sample_env ks = ''data''"
  "w_getNetwork sample_env h = Inr ''net''" "w_getAccount sample_env h a = Inr 7"
  "w_getEntries sample_env h ks = Inr []" "w_probe sample_env h u = Inr []"
  "w_sign sample_env h x = Inr (''s'' @ x)" "w_send sample_env h tx = Inr (''PENDING'', tx)"
  "w_getTransaction sample_env h x = Inr (''SUCCESS'', [])" "\<not> w_aborted sample_env h"
  "w_now sample_env h = 0" "w_assertSigner sample_env = Some (\<lambda>x y. None)"
  "w_describeFailure sample_env = Some (\<lambda>e. (None, None))"
  "w_verifyRestoration sample_env = Some (\<lambda>h x. None)"
  by (simp_all add: sample_env_def)

definition sample_failover :: failover where
  "sample_failover = (case fo_new [''u''] no_override of Inr f \<Rightarrow> f)"

lemma sample_current [simp]: "getCurrentUrl sample_failover a b = (Some ''u'', sample_failover)"
  by (simp add: getCurrentUrl_def sample_failover_def fo_new_def sticky_live_def sticky_on_def select_url_def
      ep_at_def mark_sticky_def merge_failover_config_def no_override_def DEFAULT_FAILOVER_CONFIG_def Let_def)

definition sample_engine :: engine where
  "sample_engine = \<lparr>en_calls = [], en_policy = Exponential DEFAULT_RETRY_POLICY, en_listeners = [],
     en_failover = sample_failover, en_servers = [],
     en_simulationCache = None, en_lastFailed = None, en_identityOk = False, en_methodsOk = []\<rparr>"

text \<open>
  \<open>retryOnFailure\<close> never tries again after an error that is not a \<open>SorobanResurrectError\<close>: it is
  wrapped into one whose code is its own text, which no policy regards as retryable, and rethrown
  after the one attempt. So a dropped connection is not retried under any of the policies.
\<close>

theorem foreign_errors_never_retried:
  assumes "fn s = (Inl e, t)" and "\<not> is_resurrect e" and "0 \<le> pol_maxRetries (en_policy s)"
    and "retryOnFailure v fn ctx s = (r, u)"
  shows "r = Inl (Resurrect (SorobanResurrectError (js_String e) (Some ''NETWORK_ERROR''))) \<and>
    en_calls u = en_calls t"
  using retry_foreign [OF assms] .

theorem foreign_errors_never_retried_witness:
  "\<exists>u. retryOnFailure sample_env (call_out (CSend ''u'' ''x'') (\<lambda>h. Inl (PlainError ''TypeError'' ''fetch failed'')))
      ''sendTransaction'' sample_engine =
      ((Inl (Resurrect (SorobanResurrectError ''TypeError: fetch failed'' (Some ''NETWORK_ERROR''))) :: js_err + nat), u) \<and>
    en_calls u = [CSend ''u'' ''x'']"
proof -
  let ?fn = "call_out (CSend ''u'' ''x'') (\<lambda>h. Inl (PlainError ''TypeError'' ''fetch failed'')) :: nat act"
  obtain r u where run: "retryOnFailure sample_env ?fn ''sendTransaction'' sample_engine = (r, u)" by force
  have "?fn sample_engine = (Inl (PlainError ''TypeError'' ''fetch failed''), sample_engine\<lparr>en_calls := [CSend ''u'' ''x'']\<rparr>)"
    by (simp add: call_out_def sample_engine_def)
  from foreign_errors_never_retried [OF this _ _ run] run show ?thesis
    by (simp add: is_resurrect_def sample_engine_def DEFAULT_RETRY_POLICY_def js_String_def)
qed

text \<open>
  C7: a hash returned by \<open>submitSignedTransaction\<close> with confirmation is confirmed: the last call made is
  a receipt (or socket) that reported \<open>SUCCESS\<close> for it, and the hash was returned as accepted for a
  transaction parsed from what the wallet signed for this XDR.
\<close>

theorem submit_confirmed:
  assumes "submitSignedTransaction v x True s = (Inr hash, t)"
  shows "confirmed_last v hash (en_calls t) \<and>
    (\<exists>hs y tx st. w_sign v hs x = Inr y \<and> x_parseSigned v y = Inr tx \<and>
       (st = ''PENDING'' \<or> st = ''DUPLICATE'') \<and> sent_in v tx (st, hash) (en_calls t))"
proof -
  obtain y hs u where y: "w_sign v hs x = Inr y" "after_sign v x True y u = (Inr hash, t)"
    using submit_Inr_split [OF assms] by blast
  from after_sign_confirmed [OF y(2)] y(1) show ?thesis by blast
qed

lemma retry_once:
  "fn s = (Inr x, t) \<Longrightarrow> 0 \<le> pol_maxRetries (en_policy s) \<Longrightarrow>
   retryOnFailure v fn ctx s = (Inr x, t\<lparr>en_policy := pol_reset (en_policy t)\<rparr>)"
proof -
  assume fn: "fn s = (Inr x, t)" and "0 \<le> pol_maxRetries (en_policy s)"
  then obtain k where "nat (pol_maxRetries (en_policy s) + 1) = Suc k"
    by (metis Suc_nat_eq_nat_zadd1 add.commute)
  then show ?thesis using fn by (simp add: retryOnFailure_run retry_attempts_step)
qed

text \<open>A submission in the sample world, from any state whose servers it knows.\<close>

definition sample_ready :: "engine \<Rightarrow> bool" where
  "sample_ready s = (en_failover s = sample_failover \<and> (\<exists>p. en_policy s = Exponential p \<and> 0 \<le> eb_maxRetries p))"

lemma sample_getServer:
  "en_failover s = sample_failover \<Longrightarrow> \<exists>ss. getServer sample_env s = (Inr ''u'', s\<lparr>en_servers := ss\<rparr>)"
  by (cases s) (auto simp: getServer_def Let_def intro: exI [of _ "en_servers s"])

lemma sample_ensure:
  "sample_ready s \<Longrightarrow> \<exists>t. ensureNetworkIdentityMatches sample_env s = (Inr (), t) \<and> sample_ready t"
  by (auto simp: ensureNetworkIdentityMatches_def checkNetworkIdentity_def ebind_def ecatch_def call_out_def
      sample_ready_def eret_def)

lemma sample_send:
  assumes "sample_ready s"
  shows "\<exists>t. send_signed sample_env tx s = (Inr (''PENDING'', tx), t) \<and> sample_ready t"
proof -
  obtain ss where ss: "getServer sample_env s = (Inr ''u'', s\<lparr>en_servers := ss\<rparr>)"
    using sample_getServer assms sample_ready_def by blast
  show ?thesis
    using assms unfolding send_signed_def
    by (subst retry_once) (auto simp: withMethodTimeout_def ebind_def ss call_out_def sample_ready_def)
qed

lemma sample_poll:
  assumes "sample_ready s"
  shows "\<exists>t. poll_attempts sample_env hash b (Suc n) s = (Inr hash, t) \<and> sample_ready t"
proof -
  obtain ss where ss: "getServer sample_env s = (Inr ''u'', s\<lparr>en_servers := ss\<rparr>)"
    using sample_getServer assms sample_ready_def by blast
  show ?thesis
    using assms by (auto simp: withMethodTimeout_def ebind_def ss call_out_def sample_ready_def throwIfCancelled_def eret_def)
qed

lemma sample_submit:
  assumes "sample_ready s"
  shows "\<exists>t. submitSignedTransaction sample_env x aw s = (Inr (''s'' @ x), t) \<and> sample_ready t"
proof -
  obtain t1 where t1: "ensureNetworkIdentityMatches sample_env s = (Inr (), t1)" "sample_ready t1"
    using sample_ensure [OF assms] by blast
  have "sample_ready (t1\<lparr>en_calls := CSign x # en_calls t1\<rparr>)" using t1(2) by (simp add: sample_ready_def)
  from sample_send [OF this, of "''s'' @ x"] obtain t2 where t2:
    "send_signed sample_env (''s'' @ x) (t1\<lparr>en_calls := CSign x # en_calls t1\<rparr>) = (Inr (''PENDING'', ''s'' @ x), t2)"
    "sample_ready t2" by blast
  obtain t3 where t3: "poll_attempts sample_env (''s'' @ x) (getWaitBudgetMs sample_env 2) (nat 2) t2 = (Inr (''s'' @ x), t3)"
    "sample_ready t3" using sample_poll [OF t2(2), of "''s'' @ x" _ 1] by (auto simp: numeral_2_eq_2)
  show ?thesis
    using t1 t2 t3
    by (cases aw) (auto simp: submitSignedTransaction_def ebind_def throwIfCancelled_def call_out_def lift_result_def
        assertSignerMatchesSource_def after_send_def waitForTransaction_def ws_attempt_def pollForReceipt_def
        eret_def Let_def)
qed

lemma sample_engine_ready [simp]: "sample_ready sample_engine"
  by (simp add: sample_ready_def sample_engine_def DEFAULT_RETRY_POLICY_def)

theorem submit_confirmed_witness:
  "\<exists>t. submitSignedTransaction sample_env ''x'' True sample_engine = (Inr ''sx'', t) \<and>
     confirmed_last sample_env ''sx'' (en_calls t)"
proof -
  obtain t where run: "submitSignedTransaction sample_env ''x'' True sample_engine = (Inr ''sx'', t)"
    using sample_submit [OF sample_engine_ready, of "''x''" True] by auto
  from run submit_confirmed [OF run] show ?thesis by blast
qed

text \<open>
  An aborted signal stops a submission before the wallet: when the signal is aborted (and stays so)
  nothing is signed or sent; when it is aborted once the wallet has signed, nothing is sent.
\<close>

theorem cancelled_submit_has_no_effect:
  assumes "submitSignedTransaction v x aw s = (r, t)"
  shows "(w_aborted v (en_calls s) \<and> (\<forall>c h. w_aborted v h \<longrightarrow> w_aborted v (c # h)) \<longrightarrow>
            (\<exists>e. r = Inl e) \<and> quiet_since (en_calls s) t) \<and>
         ((\<forall>h. w_aborted v (CSign x # h)) \<longrightarrow>
            (\<exists>e. r = Inl e) \<and> length (filter is_send (en_calls t)) \<le> length (filter is_send (en_calls s)))"
  using submit_aborted [OF _ _ assms] submit_aborted_after_sign [OF _ assms] unfolding at_most_def by blast

theorem cancelled_submit_has_no_effect_witness:
  "\<exists>e t. submitSignedTransaction (sample_env\<lparr>w_aborted := \<lambda>h. True\<rparr>) ''x'' True sample_engine = (Inl e, t) \<and>
     quiet_since [] t"
proof -
  let ?v = "sample_env\<lparr>w_aborted := \<lambda>h. True\<rparr>"
  obtain r t where run: "submitSignedTransaction ?v ''x'' True sample_engine = (r, t)" by force
  have "en_calls sample_engine = []" by (simp add: sample_engine_def)
  then show ?thesis using cancelled_submit_has_no_effect [OF run] run by auto
qed

text \<open>
  One submission asks the wallet at most once and calls \<open>sendTransaction\<close> at most \<open>maxRetries + 1\<close>
  times, whatever fails.
\<close>

theorem submit_call_budget:
  assumes "submitSignedTransaction v x aw s = (r, t)"
  shows "length (filter is_sign (en_calls t)) \<le> Suc (length (filter is_sign (en_calls s))) \<and>
    length (filter is_send (en_calls t)) \<le>
      length (filter is_send (en_calls s)) + nat (pol_maxRetries (en_policy s) + 1)"
  using submit_budget [OF assms] unfolding budget_before_def at_most_def by blast

theorem submit_call_budget_witness:
  "\<exists>r t. submitSignedTransaction sample_env ''x'' True sample_engine = (r, t) \<and>
     length (filter is_sign (en_calls t)) \<le> 1 \<and> length (filter is_send (en_calls t)) \<le> 4"
proof -
  obtain r t where run: "submitSignedTransaction sample_env ''x'' True sample_engine = (r, t)" by force
  from submit_call_budget [OF run] run show ?thesis
    by (auto simp: sample_engine_def DEFAULT_RETRY_POLICY_def)
qed

end
