(* ===== verification/RestoreFlow.thy ===== *)
theory RestoreFlow
  imports Submit
begin

text \<open>
  The restore flow of \<open>packages/core/src/soroban-resurrect.ts\<close>: detection of archived keys, building of
  the restore transactions with their sequence numbers and fees, their sequential execution with
  partial-failure tracking, the retry of what failed, and the original transaction afterwards.
\<close>

section \<open>Results\<close>

record restore_tx =
  rt_transactionXDR :: string
  rt_keysRestored :: nat

record all_batches =
  ab_success :: bool
  ab_batches :: "restore_batch list"
  ab_totalKeysRestored :: nat
  ab_failedAtBatchIndex :: "nat option"
  ab_error :: "string option"

record execution =
  ex_success :: bool
  ex_restoreTxHash :: "string option"
  ex_originalTxHash :: "string option"
  ex_entriesRestored :: nat
  ex_simulateOnly :: bool
  ex_error :: "string option"
  ex_failedBatchIndex :: "nat option"
  ex_partialEntriesRestored :: "nat option"
  ex_restoreConfirmed :: "bool option"
  ex_originalConfirmed :: "bool option"
  ex_batchResults :: "all_batches option"

definition execution_of :: "bool \<Rightarrow> nat \<Rightarrow> execution" where
  "execution_of ok n = \<lparr>ex_success = ok, ex_restoreTxHash = None, ex_originalTxHash = None,
     ex_entriesRestored = n, ex_simulateOnly = False, ex_error = None, ex_failedBatchIndex = None,
     ex_partialEntriesRestored = None, ex_restoreConfirmed = None, ex_originalConfirmed = None,
     ex_batchResults = None\<rparr>"

section \<open>The client object\<close>

definition engine_new :: "env \<Rightarrow> policy \<Rightarrow> js_err + engine" where
  "engine_new v p = (case fo_new (ec_rpcUrls v) no_override of
     Inl m \<Rightarrow> Inl (PlainError ''Error'' m)
   | Inr f \<Rightarrow> Inr \<lparr>en_calls = [], en_policy = p, en_listeners = [], en_failover = f, en_servers = [],
       en_simulationCache = None, en_lastFailed = None, en_identityOk = False, en_methodsOk = []\<rparr>)"

text \<open>The constructor's own check. It only logs, unless validation is strict.\<close>

definition validateNetworkPassphrase :: "env \<Rightarrow> unit act" where
  "validateNetworkPassphrase v =
    ecatch (ebind (call_out CNetwork (w_getNetwork v)) (\<lambda>p.
        if p \<noteq> ec_networkPassphrase v \<and> ec_strictNetworkValidation v
        then ethrow (positional (''Network passphrase mismatch: configured \"'' @ ec_networkPassphrase v @
               ''\" but RPC server reports \"'' @ p @ ''\"'') ''NETWORK_ERROR'')
        else eret ()))
      (\<lambda>e. if is_resurrect e then ethrow e else eret ())"

definition primaryEndpointUrl :: "env \<Rightarrow> engine \<Rightarrow> string" where
  "primaryEndpointUrl v s = (case find ep_isHealthy (getHealthStatus (en_failover s)) of
     Some ep \<Rightarrow> ep_url ep
   | None \<Rightarrow> primaryServer v)"

definition probeRestoreMethods :: "env \<Rightarrow> string \<Rightarrow> unit act" where
  "probeRestoreMethods v url =
    ebind (ecatch (call_out (CProbe url) (\<lambda>h. w_probe v h url))
            (\<lambda>e. ethrow (Resurrect (SorobanResurrectError ''NETWORK_ERROR''
               (Some (''Could not verify restore RPC methods at '' @ url @ '': '' @ js_message e))))))
      (\<lambda>missing.
         if missing \<noteq> []
         then ethrow (Resurrect (SorobanResurrectError ''RPC_METHOD_UNAVAILABLE''
                (Some (''RPC endpoint '' @ url @ '' lacks methods required for restore: '' @ join_with '', '' missing))))
         else eret ())"

definition ensureRestoreMethodsAvailable :: "env \<Rightarrow> unit act" where
  "ensureRestoreMethodsAvailable v = (\<lambda>s.
     let url = primaryEndpointUrl v s
     in if List.member (en_methodsOk s) url then (Inr (), s)
        else ebind (probeRestoreMethods v url) (\<lambda>_ t. (Inr (), t\<lparr>en_methodsOk := url # en_methodsOk t\<rparr>)) s)"

record diagnostics =
  dg_activeEndpoint :: "string option"
  dg_networkPassphrase :: "string option"
  dg_networkError :: "string option"
  dg_endpoints :: "endpoint list"

definition getDiagnostics :: "env \<Rightarrow> diagnostics act" where
  "getDiagnostics v = (\<lambda>s.
     let eps = getHealthStatus (en_failover s);
         active = map_option ep_url (find ep_isHealthy eps);
         (r, t) = call_out CNetwork (w_getNetwork v) s
     in (Inr \<lparr>dg_activeEndpoint = active,
              dg_networkPassphrase = (case r of Inr p \<Rightarrow> Some p | Inl e \<Rightarrow> None),
              dg_networkError = (case r of Inr p \<Rightarrow> None | Inl e \<Rightarrow> Some (js_message e)),
              dg_endpoints = eps\<rparr>, t))"

section \<open>Detection\<close>

definition unclassified :: "env \<Rightarrow> ledger_key \<Rightarrow> archived_key" where
  "unclassified v k = \<lparr>ak_key = k, ak_keyBase64 = x_encodeKey v k, ak_keyType = KtUnknown,
     ak_sacKeyType = None, ak_contractId = None, ak_restorePriority = 3\<rparr>"

definition no_restoration :: sim_check where
  "no_restoration = \<lparr>sk_needsRestoration = False, sk_archivedKeys = [], sk_totalKeysInFootprint = 0\<rparr>"

definition missing_keys :: "env \<Rightarrow> ledger_key list \<Rightarrow> ledger_key list \<Rightarrow> archived_key list" where
  "missing_keys v existing keys =
    (let existingEntries = map (x_encodeKey v) existing
     in map (unclassified v) (filter (\<lambda>k. \<not> List.member existingEntries (x_encodeKey v k)) keys))"

definition detectArchivedKeys :: "env \<Rightarrow> footprint_keys \<Rightarrow> sim_check act" where
  "detectArchivedKeys v keys =
    (if fk_all keys = [] then eret no_restoration
     else ebind
       (ecatch
         (retryOnFailure v
           (withMethodTimeout v ''getLedgerEntries''
             (ebind (getServer v) (\<lambda>u. call_out (CEntries u (fk_all keys)) (\<lambda>h. w_getEntries v h (fk_all keys)))))
           ''getLedgerEntries'')
         (\<lambda>e. ethrow (positional (''Failed to query '' @ nat_dec (length (fk_all keys)) @
            '' ledger entries (rpcUrl='' @ redactedRpcUrl v @ ''): '' @ redacted_message v e)
            ''ARCHIVE_DETECTION_FAILED'')))
       (\<lambda>existing.
          let archived = missing_keys v existing (fk_all keys)
          in eret \<lparr>sk_needsRestoration = (archived \<noteq> []), sk_archivedKeys = archived,
                   sk_totalKeysInFootprint = length (fk_all keys)\<rparr>))"

definition cache_lookup :: "env \<Rightarrow> string \<Rightarrow> string option \<Rightarrow> sim_check option act" where
  "cache_lookup v txXDR source = (\<lambda>s. case en_simulationCache s of
     None \<Rightarrow> (Inr None, s)
   | Some c \<Rightarrow>
       (let now = of_int (w_now v (en_calls s));
            (r, c') = sc_get c (generateKey txXDR source None None) now now
        in (Inr r, s\<lparr>en_simulationCache := Some c'\<rparr>)))"

definition cache_store :: "env \<Rightarrow> string \<Rightarrow> string option \<Rightarrow> sim_check \<Rightarrow> unit act" where
  "cache_store v txXDR source r = (\<lambda>s. case en_simulationCache s of
     None \<Rightarrow> (Inr (), s)
   | Some c \<Rightarrow> (Inr (), s\<lparr>en_simulationCache :=
       Some (sc_set c (generateKey txXDR source None None) r (of_int (w_now v (en_calls s))))\<rparr>))"

definition footprint_of :: "parsed_tx \<Rightarrow> sim_response \<Rightarrow> (ledger_key list \<times> ledger_key list) option" where
  "footprint_of tx r = (case r of SimSuccess fp m \<Rightarrow> Some fp | _ \<Rightarrow> pt_footprint tx)"

definition simulate_uncached :: "env \<Rightarrow> string \<Rightarrow> string option \<Rightarrow> sim_check act" where
  "simulate_uncached v txXDR source = (case x_fromXDR v txXDR of
     Inl e \<Rightarrow> ethrow (positional ''Invalid transaction XDR'' ''INVALID_XDR'')
   | Inr tx \<Rightarrow>
       if pt_feeBump tx then ethrow (positional ''Fee bump transactions are not supported'' ''INVALID_XDR'')
       else ebind
         (ecatch
           (retryOnFailure v
             (withMethodTimeout v ''simulateTransaction''
               (call_out (CSimulate (primaryServer v) txXDR) (\<lambda>h. w_simulate v h txXDR)))
             ''simulateTransaction'')
           (\<lambda>e. ethrow (positional (''Simulation failed (rpcUrl='' @ redactedRpcUrl v @ ''): '' @
              (if is_resurrect e then js_message e else js_String e)) ''SIMULATION_FAILED'')))
         (\<lambda>r. case r of
            SimError m \<Rightarrow> ethrow (positional (''Simulation error (rpcUrl='' @ redactedRpcUrl v @ ''): '' @
                            x_redactText v m) ''SIMULATION_FAILED'')
          | _ \<Rightarrow> (case footprint_of tx r of
                None \<Rightarrow> eret no_restoration
              | Some fp \<Rightarrow>
                  ebind (detectArchivedKeys v (extractKeysFromFootprint fp)) (\<lambda>res.
                  ebind (cache_store v txXDR source res) (\<lambda>_. eret res)))))"

definition simulate :: "env \<Rightarrow> string \<Rightarrow> string option \<Rightarrow> sim_check act" where
  "simulate v txXDR source =
    ebind (cache_lookup v txXDR source) (\<lambda>hit. case hit of
        Some r \<Rightarrow> eret r
      | None \<Rightarrow> simulate_uncached v txXDR source)"

definition invalidateSimulationCache :: "string option \<Rightarrow> string option \<Rightarrow> engine \<Rightarrow> engine" where
  "invalidateSimulationCache txXDR source s = (case en_simulationCache s of
     None \<Rightarrow> s
   | Some c \<Rightarrow> s\<lparr>en_simulationCache := Some
       (if truthy_str txXDR then sc_invalidate c (generateKey (the txXDR) source None None)
        else sc_invalidateAll c)\<rparr>)"

section \<open>Fees and restore transactions\<close>

definition PLACEHOLDER_ACCOUNT :: string where
  "PLACEHOLDER_ACCOUNT = ''GAAZI4TCR3TY5OJHCTJC2A4QSY6CJWJH5IAJTGKIN2ER7LBNVKOCCWN''"

text \<open>\<open>None\<close> stands for leaving the \<open>try\<close> block without a return.\<close>

definition fee_from :: "sim_response \<Rightarrow> string option act" where
  "fee_from r = (case r of
     SimSuccess fp m \<Rightarrow>
       if m = [] then eret None
       else (case js_BigInt m of
           None \<Rightarrow> ethrow (PlainError ''SyntaxError'' (''Cannot convert '' @ m @ '' to a BigInt''))
         | Some minFee \<Rightarrow> eret (Some (int_dec (minFee + bigint_div minFee 10))))
   | _ \<Rightarrow> eret None)"

definition estimateRestoreFee :: "env \<Rightarrow> nat \<Rightarrow> string act" where
  "estimateRestoreFee v batchSize =
    (if \<not> ec_dynamicFeeEstimation v then eret (ec_restoreFee v)
     else ebind
       (ecatch
         (ebind (lift_result (x_account v PLACEHOLDER_ACCOUNT 0)) (\<lambda>_.
          ebind (lift_result (x_buildRestore v PLACEHOLDER_ACCOUNT 0 (ec_restoreFee v) (x_footprintData v []))) (\<lambda>tx.
          ebind (retryOnFailure v
              (withMethodTimeout v ''simulateTransaction''
                (ebind (getServer v) (\<lambda>u. call_out (CSimulate u tx) (\<lambda>h. w_simulate v h tx))))
              ''simulateTransaction(estimateRestoreFee)'')
            fee_from)))
         (\<lambda>e. eret None))
       (\<lambda>fee. case fee of Some f \<Rightarrow> eret f | None \<Rightarrow> eret (ec_restoreFee v)))"

definition buildSingleRestoreTransaction :: "env \<Rightarrow> archived_key list \<Rightarrow> string \<Rightarrow> restore_tx act" where
  "buildSingleRestoreTransaction v keys source =
    ebind (retryOnFailure v
        (withMethodTimeout v ''getAccount''
          (ebind (getServer v) (\<lambda>u. call_out (CAccount u source) (\<lambda>h. w_getAccount v h source))))
        (''getAccount('' @ source @ '')'')) (\<lambda>sequence.
    ebind (estimateRestoreFee v (length keys)) (\<lambda>fee.
    ebind (lift_result (x_buildRestore v source sequence fee (x_footprintData v (map ak_key keys)))) (\<lambda>tx.
    eret \<lparr>rt_transactionXDR = tx, rt_keysRestored = length keys\<rparr>)))"

definition classify_again :: "archived_key list \<Rightarrow> archived_key list" where
  "classify_again keys = classifyDeferredKeys (map (\<lambda>k. (ak_key k, ak_keyBase64 k)) keys)"

definition no_keys_error :: js_err where
  "no_keys_error = positional ''No archived keys to restore'' ''INVALID_XDR''"

definition buildRestoreTransaction :: "env \<Rightarrow> archived_key list \<Rightarrow> string \<Rightarrow> restore_tx act" where
  "buildRestoreTransaction v archivedKeys source =
    (if archivedKeys = [] then ethrow no_keys_error
     else ebind (ensureRestoreMethodsAvailable v) (\<lambda>_.
       let classified = classify_again archivedKeys;
           batches = batchKeys classified
       in ebind (emit v (RestoreStart classified)) (\<lambda>_.
          ebind (buildSingleRestoreTransaction v (hd batches) source) (\<lambda>result.
          ebind (emit v (RestoreBatchComplete 0 (length batches))) (\<lambda>_.
          ebind (emit v (RestoreComplete (rt_transactionXDR result) (rt_keysRestored result))) (\<lambda>_.
          eret result))))))"

definition pending_batch :: "nat \<Rightarrow> string \<Rightarrow> archived_key list \<Rightarrow> restore_batch" where
  "pending_batch i tx keys = \<lparr>rb_batchIndex = i, rb_transactionXDR = tx, rb_keysRestored = length keys,
     rb_restoredKeys = map ak_keyBase64 keys, rb_status = Pending, rb_errorCode = None,
     rb_retryable = None, rb_txHash = None, rb_error = None\<rparr>"

fun build_batches :: "env \<Rightarrow> string \<Rightarrow> nat \<Rightarrow> int \<Rightarrow> archived_key list list \<Rightarrow> restore_batch list act" where
  "build_batches v source i currentSequence [] = eret []"
| "build_batches v source i currentSequence (keys # batches) =
    ebind (lift_result (x_account v source currentSequence)) (\<lambda>_.
    ebind (estimateRestoreFee v (length keys)) (\<lambda>fee.
    ebind (lift_result (x_buildRestore v source currentSequence fee (x_footprintData v (map ak_key keys)))) (\<lambda>tx.
    ebind (build_batches v source (Suc i) (currentSequence + 1) batches) (\<lambda>rest.
    eret (pending_batch i tx keys # rest)))))"

text \<open>The account is fetched once, from the first server, without a method timeout.\<close>

definition fetch_sequence :: "env \<Rightarrow> string \<Rightarrow> int act" where
  "fetch_sequence v source =
    retryOnFailure v (call_out (CAccount (primaryServer v) source) (\<lambda>h. w_getAccount v h source))
      (''getAccount('' @ source @ '')'')"

definition buildRestoreTransactionBatches ::
  "env \<Rightarrow> archived_key list \<Rightarrow> string \<Rightarrow> restore_batch list act" where
  "buildRestoreTransactionBatches v archivedKeys source =
    (if archivedKeys = [] then ethrow no_keys_error
     else ebind (ensureRestoreMethodsAvailable v) (\<lambda>_.
          let batches = batchKeys (classify_again archivedKeys)
          in ebind (fetch_sequence v source) (\<lambda>sequence. build_batches v source 0 sequence batches)))"

definition buildRestoreTransactionBatchesConcurrent ::
  "env \<Rightarrow> archived_key list \<Rightarrow> string \<Rightarrow> restore_batch list act" where
  "buildRestoreTransactionBatchesConcurrent v archivedKeys source =
    (if archivedKeys = [] then ethrow no_keys_error
     else let batches = batchKeyGroups (groupKeysByContract (classify_again archivedKeys))
          in ebind (fetch_sequence v source) (\<lambda>sequence. build_batches v source 0 sequence batches))"

definition checkAndPrepare :: "env \<Rightarrow> string \<Rightarrow> string \<Rightarrow> (sim_check \<times> string option) act" where
  "checkAndPrepare v txXDR source =
    ebind (simulate v txXDR (Some source)) (\<lambda>res.
      if \<not> sk_needsRestoration res then eret (res, None)
      else ebind (buildRestoreTransaction v (sk_archivedKeys res) source)
             (\<lambda>tx. eret (res, Some (rt_transactionXDR tx))))"

end
