(* ===== verification/RestoreRun.thy ===== *)
theory RestoreRun
  imports RestoreFlow
begin

text \<open>
  Execution of restore transactions (\<open>packages/core/src/soroban-resurrect.ts\<close>): batch after batch with
  partial-failure tracking, the original transaction afterwards, and the retry of what failed.
\<close>

section \<open>Batches in sequence\<close>

text \<open>
  The state of the loop: the results so far and the keys they restored. On a failure the \<open>catch\<close>
  block first builds the failed result, which calls \<open>describeBatchFailure\<close>; where that method does not
  exist the \<open>TypeError\<close> leaves the whole function.
\<close>

definition succeeded :: "restore_batch \<Rightarrow> string \<Rightarrow> restore_batch" where
  "succeeded b hash = b\<lparr>rb_txHash := Some hash, rb_status := Success\<rparr>"

definition failed_with :: "restore_batch \<Rightarrow> string \<Rightarrow> string option \<times> bool option \<Rightarrow> restore_batch" where
  "failed_with b msg d = b\<lparr>rb_status := Failed, rb_error := Some msg,
     rb_errorCode := (case fst d of None \<Rightarrow> rb_errorCode b | Some c \<Rightarrow> Some c),
     rb_retryable := (case snd d of None \<Rightarrow> rb_retryable b | Some c \<Rightarrow> Some c)\<rparr>"

definition batch_failure ::
  "env \<Rightarrow> string option \<Rightarrow> nat \<Rightarrow> restore_batch list \<Rightarrow> nat \<Rightarrow> restore_batch \<Rightarrow> restore_batch list \<Rightarrow>
   js_err \<Rightarrow> all_batches act" where
  "batch_failure v source i results restored b rest e = (\<lambda>s. case w_describeFailure v of
     None \<Rightarrow> (Inl (type_error ''describeBatchFailure''), s)
   | Some describe \<Rightarrow>
       (let failed = failed_with b (js_message e) (describe e);
            state = \<lparr>fr_sourceAccountID = (case source of None \<Rightarrow> [] | Some a \<Rightarrow> a),
              fr_failedBatches = failed # rest, fr_failedKeys = [], fr_failedBatchIndex = i,
              fr_partialEntriesRestored = restored\<rparr>
        in (Inr \<lparr>ab_success = False, ab_batches = results @ [failed], ab_totalKeysRestored = restored,
                 ab_failedAtBatchIndex = Some i,
                 ab_error = Some (''Batch '' @ nat_dec (i + 1) @ '' failed: '' @ js_message e)\<rparr>,
            s\<lparr>en_lastFailed := Some state\<rparr>)))"

fun execute_from ::
  "env \<Rightarrow> string option \<Rightarrow> nat \<Rightarrow> restore_batch list \<Rightarrow> nat \<Rightarrow> restore_batch list \<Rightarrow> all_batches act" where
  "execute_from v source i results restored [] =
    (\<lambda>s. (Inr \<lparr>ab_success = True, ab_batches = results, ab_totalKeysRestored = restored,
               ab_failedAtBatchIndex = None, ab_error = None\<rparr>, s\<lparr>en_lastFailed := None\<rparr>))"
| "execute_from v source i results restored (b # rest) =
    (\<lambda>s. case submitSignedTransaction v (rb_transactionXDR b) (restoreAwaitsConfirmation v) s of
       (Inr hash, t) \<Rightarrow>
         execute_from v source (Suc i) (results @ [succeeded b hash]) (restored + rb_keysRestored b) rest t
     | (Inl e, t) \<Rightarrow> batch_failure v source i results restored b rest e t)"

definition executeRestoreBatches :: "env \<Rightarrow> restore_batch list \<Rightarrow> string option \<Rightarrow> all_batches act" where
  "executeRestoreBatches v batches source = execute_from v source 0 [] 0 batches"

definition getFailedKeys :: "engine \<Rightarrow> failed_restore option" where
  "getFailedKeys s = en_lastFailed s"

section \<open>Restore, then the original transaction\<close>

definition count_keys :: "env \<Rightarrow> string \<Rightarrow> nat" where
  "count_keys v restoreXDR = (case x_fromXDR v restoreXDR of
     Inl e \<Rightarrow> 0
   | Inr tx \<Rightarrow> (case pt_footprint tx of
       None \<Rightarrow> 0
     | Some fp \<Rightarrow> length (fk_all (extractKeysFromFootprint fp))))"

record fee_bump_metadata =
  fb_isFeeBump :: bool
  fb_innerTransactionXDR :: "string option"
  fb_feeAccountID :: "string option"
  fb_feeBumpFee :: "string option"

definition extractFeeBumpMetadata :: "parsed_tx \<Rightarrow> fee_bump_metadata" where
  "extractFeeBumpMetadata tx =
    (if \<not> pt_feeBump tx
     then \<lparr>fb_isFeeBump = False, fb_innerTransactionXDR = None, fb_feeAccountID = None, fb_feeBumpFee = None\<rparr>
     else \<lparr>fb_isFeeBump = True, fb_innerTransactionXDR = Some (pt_innerXDR tx),
           fb_feeAccountID = pt_feeAccountID tx, fb_feeBumpFee = pt_feeBumpFee tx\<rparr>)"

definition reWrapFeeBumpTransaction :: "env \<Rightarrow> string \<Rightarrow> parsed_tx \<Rightarrow> js_err + string" where
  "reWrapFeeBumpTransaction v innerXDR originalTx =
    (let m = extractFeeBumpMetadata originalTx
     in if \<not> fb_isFeeBump m \<or> \<not> truthy_str (fb_feeAccountID m) \<or> \<not> truthy_str (fb_feeBumpFee m)
        then Inl (positional ''Cannot re-wrap: missing fee-bump metadata'' ''INVALID_XDR'')
        else (case x_fromXDR v innerXDR of
            Inl e \<Rightarrow> Inl (positional (''Failed to re-wrap fee-bump transaction: '' @ redacted_message v e) ''INVALID_XDR'')
          | Inr inner \<Rightarrow> (case x_buildFeeBump v innerXDR (the (fb_feeBumpFee m)) of
              Inl e \<Rightarrow> Inl (positional (''Failed to re-wrap fee-bump transaction: '' @ redacted_message v e) ''INVALID_XDR'')
            | Inr x \<Rightarrow> Inr x)))"

text \<open>What is submitted in place of the original: a fee bump is wrapped again, or left as it was.\<close>

definition tx_to_submit :: "env \<Rightarrow> string \<Rightarrow> string" where
  "tx_to_submit v originalXDR = (case x_fromXDR v originalXDR of
     Inl e \<Rightarrow> originalXDR
   | Inr tx \<Rightarrow>
       if pt_feeBump tx
       then (case reWrapFeeBumpTransaction v (pt_innerXDR tx) tx of Inl e \<Rightarrow> originalXDR | Inr x \<Rightarrow> x)
       else originalXDR)"

text \<open>The error an execution step throws is emitted first.\<close>

definition throw_emitted :: "env \<Rightarrow> string \<Rightarrow> string \<Rightarrow> 'a act" where
  "throw_emitted v first second =
    (let err = SorobanResurrectError first (Some second)
     in ebind (emit v (ErrorEvent err)) (\<lambda>_. ethrow (Resurrect err)))"

definition submit_original :: "env \<Rightarrow> string \<Rightarrow> string act" where
  "submit_original v tx =
    ebind (emit v OriginalStart) (\<lambda>_.
    ebind (submitSignedTransaction v tx True) (\<lambda>hash.
    ebind (emit v (OriginalComplete hash)) (\<lambda>_. eret hash)))"

definition executeRestoreThenOriginal :: "env \<Rightarrow> string \<Rightarrow> string \<Rightarrow> execution act" where
  "executeRestoreThenOriginal v restoreXDR originalXDR =
    (if ec_simulateOnly v
     then eret ((execution_of True (count_keys v restoreXDR))
            \<lparr>ex_simulateOnly := True, ex_restoreConfirmed := Some False, ex_originalConfirmed := Some False\<rparr>)
     else
       ebind (ecatch (submitSignedTransaction v restoreXDR (restoreAwaitsConfirmation v))
                (\<lambda>e. throw_emitted v (''Restore transaction failed (rpcUrl='' @ redactedRpcUrl v @ ''): '' @
                       redacted_message v e) ''RESTORE_FAILED'')) (\<lambda>restoreTxHash.
       ebind (ecatch (submit_original v (tx_to_submit v originalXDR))
                (\<lambda>e. throw_emitted v (''Original transaction failed after successful restore (rpcUrl='' @
                       redactedRpcUrl v @ '', restoreTxHash='' @ restoreTxHash @ ''): '' @ redacted_message v e)
                       ''ORIGINAL_TX_FAILED'')) (\<lambda>originalTxHash.
       eret ((execution_of True (count_keys v restoreXDR))
         \<lparr>ex_restoreTxHash := Some restoreTxHash, ex_originalTxHash := Some originalTxHash,
          ex_restoreConfirmed := Some (restoreAwaitsConfirmation v), ex_originalConfirmed := Some True\<rparr>))))"

definition verifyRestorationConfirmed :: "env \<Rightarrow> string \<Rightarrow> unit act" where
  "verifyRestorationConfirmed v hash = (\<lambda>s. case w_verifyRestoration v of
     None \<Rightarrow> (Inl (type_error ''verifyRestorationConfirmed''), s)
   | Some f \<Rightarrow> (case f (en_calls s) hash of None \<Rightarrow> (Inr (), s) | Some e \<Rightarrow> (Inl e, s)))"

fun verify_batches :: "env \<Rightarrow> restore_batch list \<Rightarrow> unit act" where
  "verify_batches v [] = eret ()"
| "verify_batches v (b # bs) =
    ebind (if rb_status b = Success \<and> truthy_str (rb_txHash b)
           then verifyRestorationConfirmed v (the (rb_txHash b)) else eret ())
      (\<lambda>_. verify_batches v bs)"

definition restore_all_or_throw :: "env \<Rightarrow> restore_batch list \<Rightarrow> all_batches act" where
  "restore_all_or_throw v restoreBatches =
    ecatch
      (ebind (executeRestoreBatches v restoreBatches None) (\<lambda>res.
       ebind (if \<not> ab_success res
              then ethrow (positional (if truthy_str (ab_error res) then the (ab_error res)
                     else ''Batch '' @ (case ab_failedAtBatchIndex res of None \<Rightarrow> ''undefined'' | Some i \<Rightarrow> nat_dec i)
                       @ '' failed'') ''RESTORE_FAILED'')
              else eret ()) (\<lambda>_.
       ebind (verify_batches v (ab_batches res)) (\<lambda>_. eret res))))
      (\<lambda>e. if (case e of Resurrect r \<Rightarrow> err_code r = ''RESTORE_FAILED'' | _ \<Rightarrow> False)
           then ethrow e
           else ethrow (positional (''Restore batches failed: '' @ redacted_message v e) ''RESTORE_FAILED''))"

definition executeRestoreThenOriginalBatches :: "env \<Rightarrow> restore_batch list \<Rightarrow> string \<Rightarrow> execution act" where
  "executeRestoreThenOriginalBatches v restoreBatches originalXDR =
    ebind (restore_all_or_throw v restoreBatches) (\<lambda>res.
    ebind (ecatch (submitSignedTransaction v originalXDR True)
             (\<lambda>e. ethrow (positional (''Original transaction failed after successful restore batches: '' @
                redacted_message v e) ''ORIGINAL_TX_FAILED''))) (\<lambda>originalTxHash.
    eret ((execution_of True (ab_totalKeysRestored res))
      \<lparr>ex_originalTxHash := Some originalTxHash, ex_restoreConfirmed := Some (restoreAwaitsConfirmation v),
       ex_originalConfirmed := Some True, ex_batchResults := Some res\<rparr>)))"

section \<open>Retrying what failed\<close>

text \<open>
  One failed batch is rebuilt on the given sequence number. The number is spent as soon as the account
  object exists, so a failure after that leaves a gap; a failure keeps the old transaction. The second
  component is the next number.
\<close>

definition rebuild_batch :: "env \<Rightarrow> string \<Rightarrow> int \<Rightarrow> restore_batch \<Rightarrow> (string \<times> int) act" where
  "rebuild_batch v source currentSequence b =
    (case x_fromXDR v (rb_transactionXDR b) of
       Inl e \<Rightarrow> eret (rb_transactionXDR b, currentSequence)
     | Inr tx \<Rightarrow> (case x_account v source currentSequence of
         Inl e \<Rightarrow> eret (rb_transactionXDR b, currentSequence)
       | Inr _ \<Rightarrow>
           ecatch
             (ebind (estimateRestoreFee v (rb_keysRestored b)) (\<lambda>fee.
              ebind (lift_result (x_buildRestore v source currentSequence fee
                  (case pt_sorobanData tx of Some d \<Rightarrow> d | None \<Rightarrow> rb_transactionXDR b))) (\<lambda>x.
              eret (x, currentSequence + 1))))
             (\<lambda>e. eret (rb_transactionXDR b, currentSequence + 1))))"

fun rebuild_batches :: "env \<Rightarrow> string \<Rightarrow> int \<Rightarrow> restore_batch list \<Rightarrow> restore_batch list act" where
  "rebuild_batches v source currentSequence [] = eret []"
| "rebuild_batches v source currentSequence (b # bs) =
    ebind (rebuild_batch v source currentSequence b) (\<lambda>(x, n).
    ebind (rebuild_batches v source n bs) (\<lambda>rest.
    eret (b\<lparr>rb_transactionXDR := x, rb_status := Pending, rb_txHash := None, rb_error := None\<rparr> # rest)))"

definition fetch_sequence_current :: "env \<Rightarrow> string \<Rightarrow> int act" where
  "fetch_sequence_current v source =
    retryOnFailure v (ebind (getServer v) (\<lambda>u. call_out (CAccount u source) (\<lambda>h. w_getAccount v h source)))
      (''getAccount('' @ source @ '')'')"

definition clear_failed :: "unit act" where
  "clear_failed = (\<lambda>s. (Inr (), s\<lparr>en_lastFailed := None\<rparr>))"

definition retryFailedRestore :: "env \<Rightarrow> failed_restore \<Rightarrow> execution act" where
  "retryFailedRestore v state =
    (if fr_failedBatches state = [] then eret (execution_of True (fr_partialEntriesRestored state))
     else
       ebind (fetch_sequence_current v (fr_sourceAccountID state)) (\<lambda>sequence.
       ebind (rebuild_batches v (fr_sourceAccountID state) sequence (fr_failedBatches state)) (\<lambda>rebuilt.
       ebind (executeRestoreBatches v rebuilt (Some (fr_sourceAccountID state))) (\<lambda>res.
       let totalRestored = fr_partialEntriesRestored state + ab_totalKeysRestored res
       in if ab_success res
          then ebind clear_failed (\<lambda>_.
                 eret ((execution_of True totalRestored)
                   \<lparr>ex_restoreConfirmed := Some (restoreAwaitsConfirmation v), ex_batchResults := Some res\<rparr>))
          else eret ((execution_of False totalRestored)
                 \<lparr>ex_failedBatchIndex := ab_failedAtBatchIndex res, ex_partialEntriesRestored := Some totalRestored,
                  ex_error := ab_error res, ex_restoreConfirmed := Some False, ex_batchResults := Some res\<rparr>)))))"

end
