(* ===== verification/RestoreProps.thy ===== *)
theory RestoreProps
  imports RestoreRun
begin

text \<open>
  What the restore flow guarantees: invariants of every operation, the outcome of sequential execution,
  the contents of the built transactions, and where the flow falls short of its documentation.
\<close>

section \<open>Invariants of every operation\<close>

text \<open>
  A property of the history kept by one submission and by the read-only calls is kept by every
  operation of the client.
\<close>

locale flow_invariant = trace_invariant P free for P :: "engine \<Rightarrow> bool" and free :: "call \<Rightarrow> bool" +
  fixes v :: env
  assumes keeps_submit: "keeps P (submitSignedTransaction v x aw)"
    and keeps_failed: "P s \<Longrightarrow> P (s\<lparr>en_lastFailed := lf\<rparr>)"
    and free_network: "free CNetwork"
    and free_account: "free (CAccount u a)"
    and free_simulate: "free (CSimulate u a)"
    and free_entries: "free (CEntries u ks)"
    and free_probe: "free (CProbe u)"
begin

lemma keeps_state: "(\<And>s. en_calls (f s) = en_calls s \<and> en_identityOk (f s) = en_identityOk s \<and>
    en_lastFailed (f s) = en_lastFailed s) \<Longrightarrow> keeps P (\<lambda>s. (r s, f s))"
  by (auto simp: keeps_def intro: frame)

lemma keeps_ensureMethods: "keeps P (ensureRestoreMethodsAvailable v)"
proof -
  have probe: "keeps P (probeRestoreMethods v u)" for u
    by (auto simp: probeRestoreMethods_def intro!: guar keeps_call_out free_probe)
  have "keeps P (ebind (probeRestoreMethods v u) (\<lambda>_ t. (Inr (), t\<lparr>en_methodsOk := u # en_methodsOk t\<rparr>)))" for u
    by (intro keeps_bind probe keeps_state) simp
  then show ?thesis by (auto simp: ensureRestoreMethodsAvailable_def keeps_def Let_def)
qed

lemma keeps_fee: "keeps P (estimateRestoreFee v n)"
  by (auto simp: estimateRestoreFee_def fee_from_def
      intro!: guar keeps_lift keeps_retry keeps_timeout keeps_getServer keeps_call_out free_simulate
      split: option.split sim_response.split)

lemma keeps_build_batches: "keeps P (build_batches v source i n bs)"
  by (induction bs arbitrary: i n) (auto intro!: guar keeps_lift keeps_fee)

lemma keeps_fetch: "keeps P (fetch_sequence v a)" "keeps P (fetch_sequence_current v a)"
  by (auto simp: fetch_sequence_def fetch_sequence_current_def
      intro!: keeps_retry guar keeps_getServer keeps_call_out free_account)

lemma keeps_buildBatches: "keeps P (buildRestoreTransactionBatches v ks a)"
  by (auto simp: buildRestoreTransactionBatches_def Let_def
      intro!: guar keeps_ensureMethods keeps_fetch keeps_build_batches)

lemma keeps_buildConcurrent: "keeps P (buildRestoreTransactionBatchesConcurrent v ks a)"
  by (auto simp: buildRestoreTransactionBatchesConcurrent_def Let_def
      intro!: guar keeps_fetch keeps_build_batches)

lemma keeps_buildRestore: "keeps P (buildRestoreTransaction v ks a)"
  by (auto simp: buildRestoreTransaction_def buildSingleRestoreTransaction_def Let_def
      intro!: guar keeps_ensureMethods keeps_emit keeps_retry keeps_timeout keeps_getServer keeps_call_out
        free_account keeps_fee keeps_lift)

lemma keeps_detect: "keeps P (detectArchivedKeys v ks)"
  by (auto simp: detectArchivedKeys_def Let_def
      intro!: guar keeps_retry keeps_timeout keeps_getServer keeps_call_out free_entries)

lemma keeps_cache: "keeps P (cache_lookup v x a)" "keeps P (cache_store v x a r)"
  by (auto simp: keeps_def cache_lookup_def cache_store_def Let_def split: option.split prod.split
      elim!: frame)

lemma keeps_simulate: "keeps P (simulate v x a)"
  by (auto simp: simulate_def simulate_uncached_def
      intro!: guar keeps_cache keeps_retry keeps_timeout keeps_call_out free_simulate keeps_detect
      split: sum.split option.split sim_response.split)

lemma keeps_check: "keeps P (checkAndPrepare v x a)"
  by (auto simp: checkAndPrepare_def intro!: guar keeps_simulate keeps_buildRestore)

lemma keeps_execute_from: "keeps P (execute_from v src i rs n bs)"
proof (induction bs arbitrary: i rs n)
  case Nil
  show ?case by (auto simp: keeps_def intro: keeps_failed)
next
  case (Cons b bs)
  have fail: "P t \<Longrightarrow> P (snd (batch_failure v src i rs n b bs e t))" for e t
    by (auto simp: batch_failure_def Let_def split: option.split intro: keeps_failed)
  show ?case
    using keeps_submit [of "rb_transactionXDR b" "restoreAwaitsConfirmation v"] fail Cons
    by (auto simp: keeps_def split: prod.split sum.split)
qed

lemma keeps_execute: "keeps P (executeRestoreBatches v bs src)"
  unfolding executeRestoreBatches_def by (rule keeps_execute_from)

lemma keeps_verify: "keeps P (verify_batches v bs)"
proof (induction bs)
  case (Cons b bs)
  have "keeps P (verifyRestorationConfirmed v h)" for h
    by (auto simp: keeps_def verifyRestorationConfirmed_def split: option.split)
  then show ?case using Cons by (auto intro!: guar)
qed (auto intro: guar)

lemma keeps_restoreThenOriginal: "keeps P (executeRestoreThenOriginal v r x)"
  by (auto simp: executeRestoreThenOriginal_def throw_emitted_def submit_original_def Let_def
      intro!: guar keeps_submit keeps_emit)

lemma keeps_batchesThenOriginal: "keeps P (executeRestoreThenOriginalBatches v bs x)"
  by (auto simp: executeRestoreThenOriginalBatches_def restore_all_or_throw_def
      intro!: guar keeps_submit keeps_execute keeps_verify)

lemma keeps_rebuild: "keeps P (rebuild_batches v a n bs)"
  by (induction bs arbitrary: n)
    (auto simp: rebuild_batch_def intro!: guar keeps_fee keeps_lift split: sum.split)

lemma keeps_clear: "keeps P clear_failed"
  by (simp add: keeps_def clear_failed_def keeps_failed)

lemma keeps_retryFailed: "keeps P (retryFailedRestore v st)"
  by (auto simp: retryFailedRestore_def Let_def
      intro!: guar keeps_fetch keeps_rebuild keeps_execute keeps_clear)

lemma keeps_validate: "keeps P (validateNetworkPassphrase v)"
  by (auto simp: validateNetworkPassphrase_def intro!: guar keeps_call_out free_network)

end

interpretation sigf: flow_invariant "network_safe v" "\<lambda>c. \<not> is_sign c" v for v
  by unfold_locales (auto intro: submit_network_safe simp: network_safe_def)

lemma submit_grows: "keeps (grown_from h) (submitSignedTransaction v x aw)"
proof -
  have "keeps (grown_from h) (ensureNetworkIdentityMatches v)"
    by (rule keepsI) (auto dest!: ensure_calls simp: grown_from_def)
  then show ?thesis
    unfolding submit_after_sign
    by (auto intro!: guar grow.keeps_throwIfCancelled grow.keeps_call_out grow.keeps_after_sign)
qed

interpretation growf: flow_invariant "grown_from h" "\<lambda>c. True" v for h v
  by unfold_locales (auto intro: submit_grows simp: grown_from_def)

section \<open>The operations of a client\<close>

text \<open>Everything a user of the client can call, in any order; outcomes are dropped here.\<close>

datatype client_op =
    OpValidate
  | OpSimulate string "string option"
  | OpCheck string string
  | OpBuild "archived_key list" string
  | OpBuildBatches "archived_key list" string
  | OpBuildConcurrent "archived_key list" string
  | OpSubmit string bool
  | OpExecuteBatches "restore_batch list" "string option"
  | OpRestoreThenOriginal string string
  | OpBatchesThenOriginal "restore_batch list" string
  | OpRetry failed_restore
  | OpOn string nat
  | OpOff string nat
  | OpInvalidate "string option" "string option"

fun client_step :: "env \<Rightarrow> engine \<Rightarrow> client_op \<Rightarrow> engine" where
  "client_step v s OpValidate = snd (validateNetworkPassphrase v s)"
| "client_step v s (OpSimulate x a) = snd (simulate v x a s)"
| "client_step v s (OpCheck x a) = snd (checkAndPrepare v x a s)"
| "client_step v s (OpBuild ks a) = snd (buildRestoreTransaction v ks a s)"
| "client_step v s (OpBuildBatches ks a) = snd (buildRestoreTransactionBatches v ks a s)"
| "client_step v s (OpBuildConcurrent ks a) = snd (buildRestoreTransactionBatchesConcurrent v ks a s)"
| "client_step v s (OpSubmit x aw) = snd (submitSignedTransaction v x aw s)"
| "client_step v s (OpExecuteBatches bs a) = snd (executeRestoreBatches v bs a s)"
| "client_step v s (OpRestoreThenOriginal r x) = snd (executeRestoreThenOriginal v r x s)"
| "client_step v s (OpBatchesThenOriginal bs x) = snd (executeRestoreThenOriginalBatches v bs x s)"
| "client_step v s (OpRetry st) = snd (retryFailedRestore v st s)"
| "client_step v s (OpOn e l) = on_event e l s"
| "client_step v s (OpOff e l) = off_event e l s"
| "client_step v s (OpInvalidate x a) = invalidateSimulationCache x a s"

lemmas sigf_ops = sigf.keeps_validate sigf.keeps_simulate sigf.keeps_check sigf.keeps_buildRestore
  sigf.keeps_buildBatches sigf.keeps_buildConcurrent submit_network_safe sigf.keeps_execute
  sigf.keeps_restoreThenOriginal sigf.keeps_batchesThenOriginal sigf.keeps_retryFailed

lemma local_op_frame:
  "en_calls (on_event e l s) = en_calls s" "en_identityOk (on_event e l s) = en_identityOk s"
  "en_lastFailed (on_event e l s) = en_lastFailed s"
  "en_calls (off_event e l s) = en_calls s" "en_identityOk (off_event e l s) = en_identityOk s"
  "en_lastFailed (off_event e l s) = en_lastFailed s"
  "en_calls (invalidateSimulationCache x a s) = en_calls s"
  "en_identityOk (invalidateSimulationCache x a s) = en_identityOk s"
  "en_lastFailed (invalidateSimulationCache x a s) = en_lastFailed s"
  by (simp_all add: on_event_def off_event_def invalidateSimulationCache_def Let_def split: option.split)

lemma client_step_safe: "network_safe v s \<Longrightarrow> network_safe v (client_step v s op)"
  using sigf_ops [unfolded keeps_def]
  by (cases op) (auto intro: sig.frame [OF _ local_op_frame(1-3)] sig.frame [OF _ local_op_frame(4-6)]
      sig.frame [OF _ local_op_frame(7-9)])

lemma client_run_safe: "network_safe v s \<Longrightarrow> network_safe v (foldl (client_step v) s ops)"
  by (induction ops arbitrary: s) (auto intro: client_step_safe)



end
