(* ===== verification/RestoreOutcome.thy ===== *)
theory RestoreOutcome
  imports RestoreProps
begin

text \<open>
  Outcomes of the restore flow: which batches were signed, what the result and the recorded failure
  say, what the built transactions hold, and what a recovery starts from.
\<close>

section \<open>The signatures of a history\<close>

fun signs_of :: "call list \<Rightarrow> string list" where
  "signs_of [] = []"
| "signs_of (CSign x # h) = signs_of h @ [x]"
| "signs_of (_ # h) = signs_of h"

lemma signs_of_other: "\<not> is_sign c \<Longrightarrow> signs_of (c # h) = signs_of h"
  by (cases c) auto

interpretation signed: trace_invariant "\<lambda>s. signs_of (en_calls s) = xs" "\<lambda>c. \<not> is_sign c" for xs
  by unfold_locales (auto simp: signs_of_other)

interpretation failedk: trace_invariant "\<lambda>s. en_lastFailed s = f" "\<lambda>c. True" for f
  by unfold_locales auto

lemma ensure_signs: "ensureNetworkIdentityMatches v s = (r, t) \<Longrightarrow> signs_of (en_calls t) = signs_of (en_calls s)"
  by (auto dest!: ensure_calls)

lemma ensure_failed: "keeps (\<lambda>s. en_lastFailed s = f) (ensureNetworkIdentityMatches v)"
  by (rule keepsI)
    (auto simp: ensureNetworkIdentityMatches_def checkNetworkIdentity_def ebind_def ecatch_def call_out_def
      eret_def ethrow_def split: if_splits sum.splits)

lemma submit_failed: "keeps (\<lambda>s. en_lastFailed s = f) (submitSignedTransaction v x aw)"
  unfolding submit_after_sign
  by (auto intro!: guar ensure_failed failedk.keeps_throwIfCancelled failedk.keeps_call_out failedk.keeps_after_sign)

text \<open>A submission asks for one signature, of its own transaction, or for none; none only if it fails.\<close>

lemma submit_signs:
  assumes "submitSignedTransaction v x aw s = (r, t)"
  shows "signs_of (en_calls t) = signs_of (en_calls s) @ [x] \<or>
    (signs_of (en_calls t) = signs_of (en_calls s) \<and> (\<exists>e. r = Inl e))"
proof -
  obtain r1 u where e: "ensureNetworkIdentityMatches v s = (r1, u)" by force
  let ?u = "u\<lparr>en_calls := CSign x # en_calls u\<rparr>"
  have sg: "signs_of (en_calls u) = signs_of (en_calls s)" by (rule ensure_signs [OF e])
  have aft: "signs_of (en_calls t') = signs_of (en_calls s) @ [x]"
    if "after_sign v x aw y ?u = (r', t')" for y r' t'
    by (rule keepsD [OF signed.keeps_after_sign _ that]) (auto simp: sg)
  show ?thesis
    using assms e sg aft
    by (cases r1; cases "w_aborted v (en_calls u)"; cases "w_sign v (en_calls u) x")
      (auto simp: submit_after_sign ebind_def throwIfCancelled_def call_out_def)
qed

lemma submit_signs_Inr:
  "submitSignedTransaction v x aw s = (Inr h, t) \<Longrightarrow> signs_of (en_calls t) = signs_of (en_calls s) @ [x]"
  using submit_signs by fastforce

section \<open>Sequential execution\<close>

definition keys_of :: "restore_batch list \<Rightarrow> nat" where
  "keys_of bs = sum_list (map rb_keysRestored bs)"

text \<open>Every batch succeeded, in order, each with its hash; nothing is left to recover.\<close>

definition run_completed ::
  "restore_batch list \<Rightarrow> restore_batch list \<Rightarrow> nat \<Rightarrow> engine \<Rightarrow> all_batches \<Rightarrow> engine \<Rightarrow> bool" where
  "run_completed done bs n s res t =
    (\<exists>hs. length hs = length bs \<and>
       res = \<lparr>ab_success = True, ab_batches = done @ map2 succeeded bs hs,
              ab_totalKeysRestored = n + keys_of bs, ab_failedAtBatchIndex = None, ab_error = None\<rparr> \<and>
       en_lastFailed t = None \<and>
       signs_of (en_calls t) = signs_of (en_calls s) @ map rb_transactionXDR bs)"

text \<open>
  The k-th batch failed: the ones before it succeeded, the ones after it were not touched, and the
  recorded failure holds exactly the failed batch and the untouched ones.
\<close>

definition run_stopped ::
  "string option \<Rightarrow> nat \<Rightarrow> restore_batch list \<Rightarrow> restore_batch list \<Rightarrow> nat \<Rightarrow> engine \<Rightarrow> nat \<Rightarrow>
   all_batches \<Rightarrow> engine \<Rightarrow> bool" where
  "run_stopped src i done bs n s k res t =
    (\<exists>hs failed m. k < length bs \<and> length hs = k \<and>
       rb_transactionXDR failed = rb_transactionXDR (bs ! k) \<and> rb_status failed = Failed \<and>
       res = \<lparr>ab_success = False, ab_batches = done @ map2 succeeded (take k bs) hs @ [failed],
              ab_totalKeysRestored = n + keys_of (take k bs), ab_failedAtBatchIndex = Some (i + k),
              ab_error = Some m\<rparr> \<and> take 6 m = ''Batch '' \<and>
       en_lastFailed t = Some \<lparr>fr_sourceAccountID = (case src of None \<Rightarrow> [] | Some a \<Rightarrow> a),
              fr_failedBatches = failed # drop (Suc k) bs, fr_failedKeys = [],
              fr_failedBatchIndex = i + k, fr_partialEntriesRestored = n + keys_of (take k bs)\<rparr> \<and>
       (\<exists>j. (j = k \<or> j = Suc k) \<and>
          signs_of (en_calls t) = signs_of (en_calls s) @ map rb_transactionXDR (take j bs)))"

lemma execute_from_outcome:
  assumes "w_describeFailure v = Some d"
  shows "execute_from v src i done n bs s = (r, t) \<Longrightarrow>
    \<exists>res. r = Inr res \<and> (run_completed done bs n s res t \<or> (\<exists>k. run_stopped src i done bs n s k res t))"
proof (induction bs arbitrary: i "done" n s)
  case Nil
  then show ?case by (auto simp: run_completed_def keys_of_def)
next
  case (Cons b bs)
  obtain o1 u where sub: "submitSignedTransaction v (rb_transactionXDR b) (restoreAwaitsConfirmation v) s = (o1, u)"
    by force
  show ?case
  proof (cases o1)
    case (Inl e)
    let ?f = "failed_with b (js_message e) (d e)"
    have "execute_from v src i done n (b # bs) s = batch_failure v src i done n b bs e u"
      using sub Inl by simp
    then have out: "r = Inr \<lparr>ab_success = False, ab_batches = done @ [?f], ab_totalKeysRestored = n,
           ab_failedAtBatchIndex = Some i,
           ab_error = Some (''Batch '' @ nat_dec (i + 1) @ '' failed: '' @ js_message e)\<rparr>"
        "t = u\<lparr>en_lastFailed := Some \<lparr>fr_sourceAccountID = (case src of None \<Rightarrow> [] | Some a \<Rightarrow> a),
              fr_failedBatches = ?f # bs, fr_failedKeys = [], fr_failedBatchIndex = i,
              fr_partialEntriesRestored = n\<rparr>\<rparr>"
      using Cons.prems assms by (simp_all add: batch_failure_def Let_def)
    obtain j where j: "j = 0 \<or> j = Suc 0"
        "signs_of (en_calls t) = signs_of (en_calls s) @ map rb_transactionXDR (take j (b # bs))"
      using submit_signs [OF sub] that [of 0] that [of "Suc 0"] by (auto simp: out(2))
    have f: "rb_transactionXDR ?f = rb_transactionXDR b" "rb_status ?f = Failed"
      by (simp_all add: failed_with_def)
    have "run_stopped src i done (b # bs) n s 0 (case r of Inr x \<Rightarrow> x) t"
      unfolding run_stopped_def
    proof (intro exI conjI)
      show "signs_of (en_calls t) = signs_of (en_calls s) @ map rb_transactionXDR (take j (b # bs))"
        by (rule j(2))
      show "rb_transactionXDR ?f = rb_transactionXDR ((b # bs) ! 0)" "rb_status ?f = Failed" using f by simp_all
      show "length ([] :: string list) = 0" by simp
      show "take 6 (''Batch '' @ nat_dec (i + 1) @ '' failed: '' @ js_message e) = ''Batch ''" by simp
    qed (use j(1) in \<open>simp_all add: keys_of_def out\<close>)
    then have "\<exists>res. r = Inr res \<and> run_stopped src i done (b # bs) n s 0 res t" using out(1) by auto
    then show ?thesis by blast
  next
    case (Inr h)
    have sg: "signs_of (en_calls u) = signs_of (en_calls s) @ [rb_transactionXDR b]"
      using submit_signs_Inr sub Inr by simp
    have "execute_from v src (Suc i) (done @ [succeeded b h]) (n + rb_keysRestored b) bs u = (r, t)"
      using Cons.prems sub Inr by simp
    from Cons.IH [OF this] obtain res where res: "r = Inr res" and
      "run_completed (done @ [succeeded b h]) bs (n + rb_keysRestored b) u res t \<or>
       (\<exists>k. run_stopped src (Suc i) (done @ [succeeded b h]) bs (n + rb_keysRestored b) u k res t)" by blast
    then show ?thesis
    proof (elim disjE exE)
      assume "run_completed (done @ [succeeded b h]) bs (n + rb_keysRestored b) u res t"
      then obtain hs where hs: "length hs = length bs"
        "res = \<lparr>ab_success = True, ab_batches = (done @ [succeeded b h]) @ map2 succeeded bs hs,
              ab_totalKeysRestored = n + rb_keysRestored b + keys_of bs, ab_failedAtBatchIndex = None,
              ab_error = None\<rparr>"
        "en_lastFailed t = None" "signs_of (en_calls t) = signs_of (en_calls u) @ map rb_transactionXDR bs"
        unfolding run_completed_def by blast
      have "run_completed done (b # bs) n s res t"
        unfolding run_completed_def using hs sg
        by (intro exI [of _ "h # hs"]) (simp add: keys_of_def)
      then show ?thesis using res by blast
    next
      fix k assume "run_stopped src (Suc i) (done @ [succeeded b h]) bs (n + rb_keysRestored b) u k res t"
      then obtain hs failed m j where st: "k < length bs" "length hs = k"
        "rb_transactionXDR failed = rb_transactionXDR (bs ! k)" "rb_status failed = Failed" "take 6 m = ''Batch ''"
        "res = \<lparr>ab_success = False, ab_batches = (done @ [succeeded b h]) @ map2 succeeded (take k bs) hs @ [failed],
              ab_totalKeysRestored = n + rb_keysRestored b + keys_of (take k bs),
              ab_failedAtBatchIndex = Some (Suc i + k), ab_error = Some m\<rparr>"
        "en_lastFailed t = Some \<lparr>fr_sourceAccountID = (case src of None \<Rightarrow> [] | Some a \<Rightarrow> a),
              fr_failedBatches = failed # drop (Suc k) bs, fr_failedKeys = [],
              fr_failedBatchIndex = Suc i + k, fr_partialEntriesRestored = n + rb_keysRestored b + keys_of (take k bs)\<rparr>"
        "j = k \<or> j = Suc k"
        "signs_of (en_calls t) = signs_of (en_calls u) @ map rb_transactionXDR (take j bs)"
        unfolding run_stopped_def by blast
      have "\<exists>j. (j = Suc k \<or> j = Suc (Suc k)) \<and>
          signs_of (en_calls t) = signs_of (en_calls s) @ map rb_transactionXDR (take j (b # bs))"
        using st(8,9) sg by (intro exI [of _ "Suc j"]) auto
      then have "run_stopped src i done (b # bs) n s (Suc k) res t"
        unfolding run_stopped_def using st
        by (intro exI [of _ "h # hs"] exI [of _ failed] exI [of _ m]) (simp add: keys_of_def)
      then show ?thesis using res by blast
    qed
  qed
qed

section \<open>The class without its missing methods\<close>

lemma after_sign_unsendable:
  "w_assertSigner v = None \<Longrightarrow> after_sign v x aw y s = (r, t) \<Longrightarrow> (\<exists>e. r = Inl e) \<and> en_calls t = en_calls s"
  by (cases r) (auto simp: after_sign_def eff_cases throwIfCancelled_Inr throwIfCancelled_Inl lift_result_def
      assertSignerMatchesSource_def)

lemma submit_unsendable:
  assumes "w_assertSigner v = None" and "submitSignedTransaction v x aw s = (r, t)"
  shows "(\<exists>e. r = Inl e) \<and> filter is_send (en_calls t) = filter is_send (en_calls s)"
proof -
  obtain r1 u where e: "ensureNetworkIdentityMatches v s = (r1, u)" by force
  have u: "filter is_send (en_calls u) = filter is_send (en_calls s)" using ensure_calls [OF e] by auto
  show ?thesis
    using assms(2) e u
    by (cases r; cases r1; cases "w_aborted v (en_calls u)"; cases "w_sign v (en_calls u) x")
      (auto simp: submit_after_sign ebind_def throwIfCancelled_def call_out_def
        dest!: after_sign_unsendable [OF assms(1)])
qed

section \<open>Building\<close>

lemma build_batches_spec:
  "build_batches v src i n bs s = (Inr rs, t) \<Longrightarrow>
   length rs = length bs \<and>
   (\<forall>j < length bs. \<exists>fee tx. rs ! j = pending_batch (i + j) tx (bs ! j) \<and>
      x_buildRestore v src (n + int j) fee (x_footprintData v (map ak_key (bs ! j))) = Inr tx)"
proof (induction bs arbitrary: i n s rs)
  case (Cons b bs)
  from Cons.prems obtain fee tx rest u where
    tx: "x_buildRestore v src n fee (x_footprintData v (map ak_key b)) = Inr tx"
    and rest: "build_batches v src (Suc i) (n + 1) bs u = (Inr rest, t)" and rs: "rs = pending_batch i tx b # rest"
    by (auto simp: ebind_Inr lift_result_def)
  note ih = Cons.IH [OF rest]
  show ?case
  proof (intro conjI allI impI)
    show "length rs = length (b # bs)" using ih rs by simp
    fix j assume "j < length (b # bs)"
    then show "\<exists>fee tx. rs ! j = pending_batch (i + j) tx ((b # bs) ! j) \<and>
      x_buildRestore v src (n + int j) fee (x_footprintData v (map ak_key ((b # bs) ! j))) = Inr tx"
      using tx rs ih by (cases j) (auto simp: algebra_simps)
  qed
qed simp

text \<open>
  Restore batches are well built when each holds one batch of keys that fits, on its own index and
  consecutive sequence number, and together they list every requested key once.
\<close>

definition built_from :: "env \<Rightarrow> string \<Rightarrow> int \<Rightarrow> nat \<Rightarrow> archived_key list \<Rightarrow> restore_batch \<Rightarrow> bool" where
  "built_from v src n j b r = (batch_fits b \<and> (\<exists>fee tx. r = pending_batch j tx b \<and>
     x_buildRestore v src (n + int j) fee (x_footprintData v (map ak_key b)) = Inr tx))"

definition well_built :: "env \<Rightarrow> string \<Rightarrow> archived_key list \<Rightarrow> archived_key list list \<Rightarrow> restore_batch list \<Rightarrow> bool" where
  "well_built v src keys bs rs =
    (length rs = length bs \<and>
     (\<exists>n h. w_getAccount v h src = Inr n \<and> (\<forall>j < length bs. built_from v src n j (bs ! j) (rs ! j))) \<and>
     mset (concat (map rb_restoredKeys rs)) = mset (map ak_keyBase64 keys))"

lemma fetch_answer:
  "fetch_sequence v src s = (Inr n, t) \<Longrightarrow> \<exists>h. w_getAccount v h src = Inr n"
  unfolding fetch_sequence_def by (drule retry_success) (auto simp: call_out_def)

lemma classify_again_keys:
  "mset (map ak_keyBase64 (classify_again keys)) = mset (map ak_keyBase64 keys)"
proof -
  have "mset (map ak_keyBase64 (classify_again keys)) =
      image_mset snd (mset (map (\<lambda>k. (ak_key k, ak_keyBase64 k)) (classify_again keys)))"
    by (simp add: multiset.map_comp comp_def)
  also have "\<dots> = mset (map ak_keyBase64 keys)"
    unfolding classify_again_def classifyDeferredKeys_keys by (simp add: multiset.map_comp comp_def)
  finally show ?thesis .
qed

lemma well_builtI:
  assumes "build_batches v src 0 n bs s = (Inr rs, t)" and "w_getAccount v h src = Inr n"
    and "\<forall>b \<in> set bs. batch_fits b" and "mset (concat bs) = mset (classify_again keys)"
  shows "well_built v src keys bs rs"
proof -
  note spec = build_batches_spec [OF assms(1)]
  have "map rb_restoredKeys rs = map (map ak_keyBase64) bs"
    using spec by (intro nth_equalityI) (auto simp: pending_batch_def)
  then have "mset (concat (map rb_restoredKeys rs)) = mset (map ak_keyBase64 (concat bs))"
    by (simp only: map_concat)
  also have "\<dots> = mset (map ak_keyBase64 keys)"
    using assms(4) classify_again_keys by (metis mset_map)
  finally show ?thesis
    using spec assms(2,3) unfolding well_built_def built_from_def by (auto intro!: exI [of _ n] exI [of _ h])
qed

section \<open>Properties\<close>


definition sample_batch :: "nat \<Rightarrow> string \<Rightarrow> restore_batch" where
  "sample_batch i x = pending_batch i x [sample_key 9 None 2]"


text \<open>
  As the class is written, \<open>assertSignerMatchesSource\<close> and \<open>describeBatchFailure\<close> do not exist: no
  submission ever reaches \<open>sendTransaction\<close>, and executing batches rejects with a \<open>TypeError\<close> that
  leaves no failure to recover from.
\<close>

theorem class_as_written_never_sends:
  assumes "w_assertSigner v = None" and "w_describeFailure v = None" and "bs \<noteq> []"
    and "executeRestoreBatches v bs src s = (r, t)"
  shows "r = Inl (type_error ''describeBatchFailure'') \<and> en_lastFailed t = en_lastFailed s \<and>
    filter is_send (en_calls t) = filter is_send (en_calls s)"
proof -
  obtain b rest where bs: "bs = b # rest" using assms(3) by (cases bs) auto
  obtain o1 u where sub: "submitSignedTransaction v (rb_transactionXDR b) (restoreAwaitsConfirmation v) s = (o1, u)"
    by force
  obtain e where e: "o1 = Inl e" using submit_unsendable [OF assms(1) sub] by blast
  have "en_lastFailed u = en_lastFailed s" by (rule keepsD [OF submit_failed _ sub]) simp
  then show ?thesis
    using assms(2,4) sub e submit_unsendable [OF assms(1) sub]
    by (auto simp: bs executeRestoreBatches_def batch_failure_def)
qed

theorem class_as_written_never_sends_witness:
  "\<exists>t. executeRestoreBatches (sample_env\<lparr>w_assertSigner := None, w_describeFailure := None\<rparr>)
      [sample_batch 0 ''a''] None sample_engine = (Inl (type_error ''describeBatchFailure''), t) \<and>
    filter is_send (en_calls t) = []"
proof -
  let ?v = "sample_env\<lparr>w_assertSigner := None, w_describeFailure := None\<rparr>"
  obtain r t where run: "executeRestoreBatches ?v [sample_batch 0 ''a''] None sample_engine = (r, t)" by force
  from class_as_written_never_sends [OF _ _ _ run] run show ?thesis by (auto simp: sample_engine_def)
qed

text \<open>
  C10: the restore transactions of \<open>buildRestoreTransactionBatches\<close> carry every requested key exactly
  once, each fits the XDR limit, and they use consecutive sequence numbers from the account's; those of
  the concurrent variant hold, in addition, the keys of a single contract each.
\<close>

theorem built_batches_cover_keys:
  shows "(buildRestoreTransactionBatches v keys src s = (Inr rs, t) \<longrightarrow>
      well_built v src keys (batchKeys (classify_again keys)) rs) \<and>
    (buildRestoreTransactionBatchesConcurrent v keys src s = (Inr rs, t) \<longrightarrow>
      well_built v src keys (batchKeyGroups (groupKeysByContract (classify_again keys))) rs \<and>
      (\<forall>b \<in> set (batchKeyGroups (groupKeysByContract (classify_again keys))). \<exists>c. \<forall>k \<in> set b. contract_of k = c))"
proof (intro conjI impI)
  assume "buildRestoreTransactionBatches v keys src s = (Inr rs, t)"
  then obtain n u u' where "fetch_sequence v src u = (Inr n, u')"
      "build_batches v src 0 n (batchKeys (classify_again keys)) u' = (Inr rs, t)"
    by (auto simp: buildRestoreTransactionBatches_def Let_def ebind_Inr split: if_splits)
  then show "well_built v src keys (batchKeys (classify_again keys)) rs"
    using fetch_answer batchKeys_fits batchKeys_concat well_builtI by metis
next
  assume "buildRestoreTransactionBatchesConcurrent v keys src s = (Inr rs, t)"
  then obtain n u' where run: "fetch_sequence v src s = (Inr n, u')"
      "build_batches v src 0 n (batchKeyGroups (groupKeysByContract (classify_again keys))) u' = (Inr rs, t)"
    by (auto simp: buildRestoreTransactionBatchesConcurrent_def Let_def ebind_Inr split: if_splits)
  then show "well_built v src keys (batchKeyGroups (groupKeysByContract (classify_again keys))) rs"
    using fetch_answer [OF run(1)] grouped_single grouped_mset well_builtI by metis
  show "\<forall>b \<in> set (batchKeyGroups (groupKeysByContract (classify_again keys))). \<exists>c. \<forall>k \<in> set b. contract_of k = c"
    using grouped_single by blast
qed

lemma sample_fetch:
  "sample_ready s \<Longrightarrow> \<exists>t. fetch_sequence sample_env a s = (Inr 7, t)"
  unfolding fetch_sequence_def by (subst retry_once) (auto simp: call_out_def sample_ready_def)

theorem built_batches_cover_keys_witness:
  "\<exists>rs t. buildRestoreTransactionBatchesConcurrent sample_env [sample_key 9 None 2] ''acc'' sample_engine = (Inr rs, t) \<and>
     well_built sample_env ''acc'' [sample_key 9 None 2]
       (batchKeyGroups (groupKeysByContract (classify_again [sample_key 9 None 2]))) rs"
proof -
  have "\<exists>rs. build_batches sample_env a i n bs s = (Inr rs, s)" for a i n bs s
  proof (induction bs arbitrary: i n)
    case (Cons b bs)
    then obtain rest where "build_batches sample_env a (Suc i) (n + 1) bs s = (Inr rest, s)" by blast
    then show ?case by (simp add: ebind_def lift_result_def estimateRestoreFee_def eret_def)
  qed (simp add: eret_def)
  then obtain rs t where run: "buildRestoreTransactionBatchesConcurrent sample_env [sample_key 9 None 2] ''acc'' sample_engine = (Inr rs, t)"
    using sample_fetch [OF sample_engine_ready, of "''acc''"]
    by (force simp: buildRestoreTransactionBatchesConcurrent_def ebind_def Let_def)
  from run built_batches_cover_keys show ?thesis by blast
qed

text \<open>
  \<open>buildRestoreTransaction\<close> builds the first batch only: what it reports as restored is the size of
  that batch, so with more than one batch some requested keys are in no transaction at all, although
  \<open>restore:complete\<close> is emitted.
\<close>

theorem single_restore_drops_batches:
  assumes "buildRestoreTransaction v keys src s = (Inr res, t)"
  shows "rt_keysRestored res = length (hd (batchKeys (classify_again keys))) \<and>
    (1 < length (batchKeys (classify_again keys)) \<longrightarrow> rt_keysRestored res < length keys)"
proof -
  let ?bs = "batchKeys (classify_again keys)"
  have n: "rt_keysRestored res = length (hd ?bs)"
    using assms by (auto simp: buildRestoreTransaction_def buildSingleRestoreTransaction_def Let_def ebind_Inr
        split: if_splits)
  have len: "length (concat ?bs) = length keys"
    by (simp add: batchKeys_concat classify_again_def)
  have "length (hd ?bs) < length (concat ?bs)" if long: "1 < length ?bs"
  proof -
    obtain b cs where b: "?bs = b # cs" using long by (cases ?bs) auto
    then obtain c rest where "cs = c # rest" using long by (cases cs) auto
    with b have bs: "?bs = b # c # rest" by simp
    then have "c \<noteq> []" using batchKeys_fits [of c "classify_again keys"] by (simp add: batch_fits_def)
    then show ?thesis by (simp add: bs)
  qed
  then show ?thesis using n len by simp
qed

lemma sample_build_single:
  assumes "sample_ready s"
  shows "\<exists>t. buildSingleRestoreTransaction sample_env ks a s = (Inr \<lparr>rt_transactionXDR = a @ int_dec 7, rt_keysRestored = length ks\<rparr>, t)"
proof -
  obtain ss where ss: "getServer sample_env s = (Inr ''u'', s\<lparr>en_servers := ss\<rparr>)"
    using sample_getServer assms sample_ready_def by blast
  show ?thesis
    using assms unfolding buildSingleRestoreTransaction_def ebind_def
    by (subst retry_once)
      (auto simp: withMethodTimeout_def ss call_out_def sample_ready_def estimateRestoreFee_def eret_def lift_result_def)
qed

theorem single_restore_drops_batches_witness:
  "\<exists>res t. buildRestoreTransaction sample_env [sample_key 60000 None 2, sample_key 60000 None 2] ''acc''
      (sample_engine\<lparr>en_methodsOk := [''u'']\<rparr>) = (Inr res, t) \<and> rt_keysRestored res < 2"
proof -
  let ?ks = "[sample_key 60000 None 2, sample_key 60000 None 2]"
  let ?s = "sample_engine\<lparr>en_methodsOk := [''u'']\<rparr>"
  let ?k = "classify_one (OtherKey [], replicate 60000 CHR ''A'')"
  have cls: "classify_again ?ks = [?k, ?k]"
    by (simp add: classify_again_def classifyDeferredKeys_def sample_key_def)
  have size: "key_size ?k = 60000" by (simp add: key_size_def)
  have two: "batchKeys (classify_again ?ks) = [[?k], [?k]]"
    unfolding cls batchKeys_def by (simp add: size MAX_XDR_SIZE_BYTES_def headerOverhead_def)
  have ok: "ensureRestoreMethodsAvailable sample_env ?s = (Inr (), ?s)"
    by (simp add: ensureRestoreMethodsAvailable_def primaryEndpointUrl_def sample_engine_def sample_failover_def
        fo_new_def getHealthStatus_def Let_def)
  have "sample_ready ?s" using sample_engine_ready by (simp add: sample_ready_def)
  from sample_build_single [OF this, of "[?k]" "''acc''"] obtain t where
    "buildSingleRestoreTransaction sample_env [?k] ''acc'' ?s = (Inr \<lparr>rt_transactionXDR = ''acc'' @ int_dec 7, rt_keysRestored = 1\<rparr>, t)"
    by auto
  moreover have "\<exists>u. emit sample_env ev s' = (Inr (), u)" for ev s'
  proof -
    have "\<exists>u. notify_all sample_env ev ls s' = (Inr (), u)" for ls
    proof (induction ls arbitrary: s')
      case (Cons l ls)
      then show ?case by (simp add: ebind_def call_out_def) (simp add: sample_env_def)
    qed (simp add: eret_def)
    then show ?thesis by (auto simp: emit_def split: option.split)
  qed
  moreover have "emit sample_env (RestoreStart ks) ?s = (Inr (), ?s)" for ks
    by (simp add: emit_def sample_engine_def)
  ultimately obtain res u where run: "buildRestoreTransaction sample_env ?ks ''acc'' ?s = (Inr res, u)"
    unfolding buildRestoreTransaction_def Let_def ebind_def eret_def
    by (simp add: ok two) (metis (no_types, lifting) case_prod_conv sum.case(2))
  from single_restore_drops_batches [OF run] run two show ?thesis by auto
qed

end
