(* ===== verification/Recovery.thy ===== *)
theory Recovery
  imports RestoreOutcome
begin

text \<open>
  Detection, fees, the original transaction after a restore, and recovery from a partial failure.
\<close>

section \<open>Detection\<close>

lemma missing_keys_map:
  "map ak_key (missing_keys v existing keys) =
    filter (\<lambda>k. x_encodeKey v k \<notin> x_encodeKey v ` set existing) keys"
  by (simp add: missing_keys_def unclassified_def comp_def)

lemma entries_answer:
  assumes "retryOnFailure v (withMethodTimeout v m
      (ebind (getServer v) (\<lambda>u. call_out (CEntries u ks) (\<lambda>h. w_getEntries v h ks)))) ctx s = (Inr existing, t)"
  shows "\<exists>h. w_getEntries v h ks = Inr existing"
  using retry_success [OF assms] by (auto dest!: timeout_Inr simp: ebind_Inr call_out_def)

text \<open>
  Detection reports exactly the footprint keys whose encoding is not among the entries the server
  returned, in footprint order, and asks for restoration exactly when there is one.
\<close>

theorem detect_exactly_missing:
  assumes "detectArchivedKeys v keys s = (Inr res, t)"
  shows "sk_totalKeysInFootprint res = length (fk_all keys) \<and>
    (sk_needsRestoration res \<longleftrightarrow> sk_archivedKeys res \<noteq> []) \<and>
    (fk_all keys \<noteq> [] \<longrightarrow> (\<exists>h existing. w_getEntries v h (fk_all keys) = Inr existing \<and>
       map ak_key (sk_archivedKeys res) =
         filter (\<lambda>k. x_encodeKey v k \<notin> x_encodeKey v ` set existing) (fk_all keys)))"
proof (cases "fk_all keys = []")
  case True
  then show ?thesis using assms by (simp add: detectArchivedKeys_def no_restoration_def)
next
  case False
  then obtain existing u where
    "retryOnFailure v (withMethodTimeout v ''getLedgerEntries''
       (ebind (getServer v) (\<lambda>u. call_out (CEntries u (fk_all keys)) (\<lambda>h. w_getEntries v h (fk_all keys)))))
       ''getLedgerEntries'' s = (Inr existing, u)"
    and res: "res = \<lparr>sk_needsRestoration = (missing_keys v existing (fk_all keys) \<noteq> []),
        sk_archivedKeys = missing_keys v existing (fk_all keys), sk_totalKeysInFootprint = length (fk_all keys)\<rparr>"
    using assms by (auto simp: detectArchivedKeys_def Let_def ebind_Inr ecatch_Inr)
  from entries_answer [OF this(1)] show ?thesis by (auto simp: res missing_keys_map)
qed

theorem detect_exactly_missing_witness:
  "\<exists>res t. detectArchivedKeys sample_env (extractKeysFromFootprint ([OtherKey ''a''], [OtherKey ''b''])) sample_engine = (Inr res, t) \<and>
     sk_totalKeysInFootprint res = 2 \<and> (sk_needsRestoration res \<longleftrightarrow> sk_archivedKeys res \<noteq> [])"
proof -
  let ?k = "extractKeysFromFootprint ([OtherKey ''a''], [OtherKey ''b''])"
  have ks: "fk_all ?k = [OtherKey ''a'', OtherKey ''b'']" by (simp add: extractKeysFromFootprint_def)
  obtain ss where ss: "getServer sample_env sample_engine = (Inr ''u'', sample_engine\<lparr>en_servers := ss\<rparr>)"
    using sample_getServer sample_engine_ready sample_ready_def by blast
  have "\<exists>t. retryOnFailure sample_env (withMethodTimeout sample_env ''getLedgerEntries''
       (ebind (getServer sample_env) (\<lambda>u. call_out (CEntries u (fk_all ?k)) (\<lambda>h. w_getEntries sample_env h (fk_all ?k)))))
       ''getLedgerEntries'' sample_engine = (Inr [], t)"
    using sample_engine_ready
    by (subst retry_once) (auto simp: withMethodTimeout_def ebind_def ss call_out_def sample_ready_def)
  then obtain res t where run: "detectArchivedKeys sample_env ?k sample_engine = (Inr res, t)"
    by (force simp: detectArchivedKeys_def ks ebind_def ecatch_def eret_def Let_def)
  from detect_exactly_missing [OF run] run show ?thesis by (auto simp: ks)
qed

section \<open>Fees\<close>

lemma simulate_answer:
  assumes "retryOnFailure v (withMethodTimeout v m
      (ebind (getServer v) (\<lambda>u. call_out (CSimulate u tx) (\<lambda>h. w_simulate v h tx)))) ctx s = (Inr r, t)"
  shows "\<exists>h. w_simulate v h tx = Inr r"
  using retry_success [OF assms] by (auto dest!: timeout_Inr simp: ebind_Inr call_out_def)

lemma fee_from_Some:
  "fee_from r s = (Inr (Some f), t) \<Longrightarrow>
   \<exists>fp m n. r = SimSuccess fp m \<and> js_BigInt m = Some n \<and> f = int_dec (n + bigint_div n 10)"
  by (auto simp: fee_from_def split: sim_response.splits if_splits option.splits)

text \<open>
  A fee estimate never rejects. It is the configured fee, or, when a simulation reported a minimum
  resource fee \<open>n\<close>, that fee and a tenth of it, rounded down.
\<close>

theorem fee_estimate_buffered:
  assumes "estimateRestoreFee v k s = (r, t)"
  shows "r = Inr (ec_restoreFee v) \<or>
    (\<exists>h tx fp m n. w_simulate v h tx = Inr (SimSuccess fp m) \<and> js_BigInt m = Some n \<and>
       r = Inr (int_dec (n + bigint_div n 10)))"
proof (cases "ec_dynamicFeeEstimation v")
  case False
  then show ?thesis using assms by (simp add: estimateRestoreFee_def)
next
  case True
  let ?attempt = "ebind (lift_result (x_account v PLACEHOLDER_ACCOUNT 0)) (\<lambda>_.
          ebind (lift_result (x_buildRestore v PLACEHOLDER_ACCOUNT 0 (ec_restoreFee v) (x_footprintData v []))) (\<lambda>tx.
          ebind (retryOnFailure v
              (withMethodTimeout v ''simulateTransaction''
                (ebind (getServer v) (\<lambda>u. call_out (CSimulate u tx) (\<lambda>h. w_simulate v h tx))))
              ''simulateTransaction(estimateRestoreFee)'')
            fee_from))"
  obtain o1 u where tr: "?attempt s = (o1, u)" by force
  show ?thesis
  proof (cases "\<exists>f. o1 = Inr (Some f)")
    case False
    then show ?thesis using True assms tr
      by (cases o1) (auto simp: estimateRestoreFee_def ebind_def ecatch_def eret_def split: option.splits)
  next
    case True
    then obtain f where f: "o1 = Inr (Some f)" by blast
    from tr f obtain tx resp u1 u2 where
      call: "retryOnFailure v (withMethodTimeout v ''simulateTransaction''
          (ebind (getServer v) (\<lambda>u. call_out (CSimulate u tx) (\<lambda>h. w_simulate v h tx))))
          ''simulateTransaction(estimateRestoreFee)'' u1 = (Inr resp, u2)"
      and fee: "fee_from resp u2 = (Inr (Some f), u)"
      by (auto simp: ebind_Inr)
    have "r = Inr f" using assms \<open>ec_dynamicFeeEstimation v\<close> tr f
      unfolding estimateRestoreFee_def by (simp add: ebind_def ecatch_def eret_def)
    then show ?thesis using simulate_answer [OF call] fee_from_Some [OF fee] by blast
  qed
qed

theorem fee_estimate_buffered_witness:
  "\<exists>r t. estimateRestoreFee (sample_env\<lparr>ec_dynamicFeeEstimation := True,
        w_simulate := \<lambda>h x. Inr (SimSuccess ([], []) ''1005'')\<rparr>) 3 sample_engine = (r, t) \<and>
     (r = Inr ''100'' \<or> r = Inr ''1105'')"
proof -
  let ?v = "sample_env\<lparr>ec_dynamicFeeEstimation := True, w_simulate := \<lambda>h x. Inr (SimSuccess ([], []) ''1005'')\<rparr>"
  obtain r t where run: "estimateRestoreFee ?v 3 sample_engine = (r, t)" by force
  have big: "js_BigInt ''1005'' = Some 1005"
    by (simp add: js_BigInt_def js_trim_def is_ws_def is_digit_def dec_value_def digit_val_def)
  have fee: "int_dec (1005 + bigint_div 1005 10) = ''1105''"
    by code_simp
  have "r = Inr ''100'' \<or> r = Inr ''1105''"
    using fee_estimate_buffered [OF run] big fee by auto
  then show ?thesis using run by blast
qed

section \<open>The original transaction\<close>

lemma emit_signs: "emit v ev s = (r, t) \<Longrightarrow> signs_of (en_calls t) = signs_of (en_calls s)"
  by (rule keepsD [OF signed.keeps_emit]) auto

lemma throw_emitted_Inl: "throw_emitted v a b s = (r, t) \<Longrightarrow>
    (\<exists>e. r = Inl e) \<and> signs_of (en_calls t) = signs_of (en_calls s)"
  by (cases r) (auto simp: throw_emitted_def Let_def eff_cases dest: emit_signs)

text \<open>
  C9: the original transaction is handed to the wallet only after the restore transaction was accepted
  (and, unless the policy is \<open>submitted\<close>, confirmed): a result carries both hashes, the original's
  confirmed, and exactly these two signatures; when the restore fails, so does the call, with no
  further signature.
\<close>

theorem original_only_after_restore:
  assumes "\<not> ec_simulateOnly v" and "executeRestoreThenOriginal v restoreXDR originalXDR s = (r, t)"
    and "submitSignedTransaction v restoreXDR (restoreAwaitsConfirmation v) s = (o1, u)"
  shows "case o1 of
      Inl e \<Rightarrow> (\<exists>e'. r = Inl e') \<and> signs_of (en_calls t) = signs_of (en_calls u)
    | Inr h1 \<Rightarrow> (restoreAwaitsConfirmation v \<longrightarrow> confirmed_last v h1 (en_calls u)) \<and>
        (\<forall>res. r = Inr res \<longrightarrow> ex_restoreTxHash res = Some h1 \<and>
           ex_restoreConfirmed res = Some (restoreAwaitsConfirmation v) \<and>
           (\<exists>h2 s2 t2. submitSignedTransaction v (tx_to_submit v originalXDR) True s2 = (Inr h2, t2) \<and>
              confirmed_last v h2 (en_calls t2) \<and> ex_originalTxHash res = Some h2) \<and>
           signs_of (en_calls t) = signs_of (en_calls s) @ [restoreXDR, tx_to_submit v originalXDR])"
proof (cases o1)
  case (Inl e)
  let ?msg = "''Restore transaction failed (rpcUrl='' @ redactedRpcUrl v @ ''): '' @ redacted_message v e"
  obtain r1 u1 where th: "throw_emitted v ?msg ''RESTORE_FAILED'' u = (r1 :: js_err + string, u1)" by force
  obtain e1 where e1: "r1 = Inl e1" "signs_of (en_calls u1) = signs_of (en_calls u)"
    using throw_emitted_Inl [OF th] by blast
  have "r = Inl e1 \<and> t = u1"
    using assms(1,2) assms(3) Inl th e1(1)
    unfolding executeRestoreThenOriginal_def by (simp add: ebind_def ecatch_def)
  then show ?thesis using Inl e1 by simp
next
  case (Inr h1)
  have conf: "restoreAwaitsConfirmation v \<longrightarrow> confirmed_last v h1 (en_calls u)"
    using submit_confirmed assms(3) Inr by fastforce
  have res: "ex_restoreTxHash x = Some h1 \<and> ex_restoreConfirmed x = Some (restoreAwaitsConfirmation v) \<and>
      (\<exists>h2 s2 t2. submitSignedTransaction v (tx_to_submit v originalXDR) True s2 = (Inr h2, t2) \<and>
         confirmed_last v h2 (en_calls t2) \<and> ex_originalTxHash x = Some h2) \<and>
      signs_of (en_calls t) = signs_of (en_calls s) @ [restoreXDR, tx_to_submit v originalXDR]"
    if x: "r = Inr x" for x
  proof -
    have so: "\<exists>h2. submit_original v (tx_to_submit v originalXDR) u = (Inr h2, t) \<and>
        ex_restoreTxHash x = Some h1 \<and> ex_originalTxHash x = Some h2 \<and>
        ex_restoreConfirmed x = Some (restoreAwaitsConfirmation v)"
      using assms(1-3) Inr x throw_emitted_Inl
      by (fastforce simp: executeRestoreThenOriginal_def eff_cases)
    then obtain h2 where h2: "submit_original v (tx_to_submit v originalXDR) u = (Inr h2, t)"
        "ex_restoreTxHash x = Some h1" "ex_originalTxHash x = Some h2"
        "ex_restoreConfirmed x = Some (restoreAwaitsConfirmation v)" by blast
    from h2(1) obtain s2 t2 where sub: "emit v OriginalStart u = (Inr (), s2)"
        "submitSignedTransaction v (tx_to_submit v originalXDR) True s2 = (Inr h2, t2)"
        "emit v (OriginalComplete h2) t2 = (Inr (), t)"
      by (auto simp: submit_original_def ebind_Inr)
    have "signs_of (en_calls t) = signs_of (en_calls s) @ [restoreXDR, tx_to_submit v originalXDR]"
      using emit_signs [OF sub(1)] emit_signs [OF sub(3)] submit_signs_Inr [OF sub(2)]
        submit_signs_Inr assms(3) Inr by fastforce
    then show ?thesis using h2 sub(2) submit_confirmed [OF sub(2)] by blast
  qed
  show ?thesis using Inr conf res by simp
qed

theorem original_only_after_restore_witness:
  "\<exists>r t h1 u. executeRestoreThenOriginal sample_env ''r'' ''o'' sample_engine = (r, t) \<and>
     submitSignedTransaction sample_env ''r'' True sample_engine = (Inr h1, u) \<and>
     confirmed_last sample_env h1 (en_calls u)"
proof -
  obtain u where u: "submitSignedTransaction sample_env ''r'' True sample_engine = (Inr ''sr'', u)"
    using sample_submit [OF sample_engine_ready, of "''r''" True] by auto
  have aw: "restoreAwaitsConfirmation sample_env" by (simp add: restoreAwaitsConfirmation_def)
  obtain r t where run: "executeRestoreThenOriginal sample_env ''r'' ''o'' sample_engine = (r, t)" by force
  have "confirmed_last sample_env ''sr'' (en_calls u)"
    using original_only_after_restore [OF sample_env_sel(4) run, of "Inr ''sr''" u] u aw by simp
  then show ?thesis using run u by blast
qed

section \<open>Recovery\<close>

text \<open>
  A retry that fails again reports the cumulative number of restored entries in its result, but
  records only its own in the state the next retry starts from: the entries restored before are lost.
\<close>

theorem retry_forgets_restored:
  assumes "w_describeFailure v = Some d" and "retryFailedRestore v st s = (Inr res, t)"
    and "\<not> ex_success res"
  shows "\<exists>st'. en_lastFailed t = Some st' \<and>
    ex_entriesRestored res = fr_partialEntriesRestored st + fr_partialEntriesRestored st'"
proof -
  from assms(2,3) obtain rebuilt ares u u1 where
    run: "executeRestoreBatches v rebuilt (Some (fr_sourceAccountID st)) u = (Inr ares, u1)"
    and fail: "\<not> ab_success ares" and t: "t = u1"
    and n: "ex_entriesRestored res = fr_partialEntriesRestored st + ab_totalKeysRestored ares"
    by (auto simp: retryFailedRestore_def Let_def ebind_Inr clear_failed_def execution_of_def split: if_splits)
  from execute_from_outcome [OF assms(1) run [unfolded executeRestoreBatches_def]] fail
  show ?thesis using t n by (auto simp: run_completed_def run_stopped_def)
qed

definition refusing_env :: env where
  "refusing_env = sample_env\<lparr>w_sign := \<lambda>h x. Inl (PlainError ''Error'' ''user rejected'')\<rparr>"

lemma refusing_sel [simp]:
  "w_getAccount refusing_env h a = Inr 7" "getServer refusing_env = getServer sample_env"
  by (simp_all add: refusing_env_def fun_eq_iff getServer_def)

lemma refusing_submit:
  "\<exists>e t. submitSignedTransaction refusing_env x aw s = (Inl e, t)"
proof -
  have "\<exists>t. ensureNetworkIdentityMatches refusing_env s = (Inr (), t)"
    by (auto simp: ensureNetworkIdentityMatches_def checkNetworkIdentity_def ebind_def ecatch_def call_out_def
        eret_def refusing_env_def)
  then show ?thesis
    by (force simp: submitSignedTransaction_def ebind_def throwIfCancelled_def call_out_def refusing_env_def)
qed

lemma refusing_execute:
  "\<exists>res t. executeRestoreBatches refusing_env (b # bs) src s = (Inr res, t) \<and> \<not> ab_success res"
proof -
  obtain e t where "submitSignedTransaction refusing_env (rb_transactionXDR b) (restoreAwaitsConfirmation refusing_env) s = (Inl e, t)"
    using refusing_submit by blast
  moreover have "w_describeFailure refusing_env = Some (\<lambda>e. (None, None))" by (simp add: refusing_env_def)
  ultimately show ?thesis by (simp add: executeRestoreBatches_def batch_failure_def Let_def)
qed

definition sample_failure :: failed_restore where
  "sample_failure = \<lparr>fr_sourceAccountID = ''acc'', fr_failedBatches = [sample_batch 1 ''b''], fr_failedKeys = [],
     fr_failedBatchIndex = 1, fr_partialEntriesRestored = 5\<rparr>"

theorem retry_forgets_restored_witness:
  "\<exists>res t st'. retryFailedRestore refusing_env sample_failure sample_engine = (Inr res, t) \<and>
     en_lastFailed t = Some st' \<and> ex_entriesRestored res = 5 + fr_partialEntriesRestored st'"
proof -
  have d: "w_describeFailure refusing_env = Some (\<lambda>e. (None, None))" by (simp add: refusing_env_def)
  obtain ss where ss: "getServer sample_env sample_engine = (Inr ''u'', sample_engine\<lparr>en_servers := ss\<rparr>)"
    using sample_getServer sample_engine_ready sample_ready_def by blast
  have "\<exists>t1. fetch_sequence_current refusing_env ''acc'' sample_engine = (Inr 7, t1)"
    unfolding fetch_sequence_current_def using sample_engine_ready
    by (subst retry_once) (auto simp: ebind_def ss call_out_def sample_ready_def)
  then obtain t1 where t1: "fetch_sequence_current refusing_env ''acc'' sample_engine = (Inr 7, t1)" by blast
  have "\<exists>b t2. rebuild_batches refusing_env ''acc'' 7 [sample_batch 1 ''b''] t1 = (Inr [b], t2)"
    by (simp add: rebuild_batch_def ebind_def ecatch_def eret_def lift_result_def estimateRestoreFee_def refusing_env_def)
  then obtain b t2 where t2: "rebuild_batches refusing_env ''acc'' 7 [sample_batch 1 ''b''] t1 = (Inr [b], t2)" by blast
  obtain ares t where ex: "executeRestoreBatches refusing_env [b] (Some ''acc'') t2 = (Inr ares, t)" "\<not> ab_success ares"
    using refusing_execute by blast
  obtain res where run: "retryFailedRestore refusing_env sample_failure sample_engine = (Inr res, t)" "\<not> ex_success res"
    using t1 t2 ex by (simp add: retryFailedRestore_def sample_failure_def ebind_def Let_def eret_def execution_of_def)
  from retry_forgets_restored [OF d run] run(1) show ?thesis by (auto simp: sample_failure_def)
qed

text \<open>
  The recovery described for \<open>executeRestoreThenOriginalBatches\<close> does not work: when a batch fails,
  the error thrown does not carry the code \<open>RESTORE_FAILED\<close> (the code is its message, the arguments are
  swapped), and the recorded failure has an empty source account, so a retry would fetch the account
  of the empty string.
\<close>

theorem documented_recovery_broken:
  assumes "w_describeFailure v = Some d" and "executeRestoreBatches v bs None s = (Inr ares, u)"
    and "\<not> ab_success ares" and "executeRestoreThenOriginalBatches v bs originalXDR s = (r, t)"
  shows "\<exists>err st. r = Inl (Resurrect err) \<and> err_code err \<noteq> ''RESTORE_FAILED'' \<and>
    err_code err = ''Restore batches failed: '' @ x_redactText v ''RESTORE_FAILED'' \<and>
    en_lastFailed t = Some st \<and> fr_sourceAccountID st = []"
proof -
  from execute_from_outcome [OF assms(1) assms(2) [unfolded executeRestoreBatches_def]] assms(3)
  obtain st m where st: "en_lastFailed u = Some st" "fr_sourceAccountID st = []"
    and m: "ab_error ares = Some m" "take 6 m = ''Batch ''"
    by (fastforce simp: run_completed_def run_stopped_def)
  have "truthy_str (ab_error ares)" and ne: "m \<noteq> ''RESTORE_FAILED''" using m by auto
  then have "restore_all_or_throw v bs s =
      (Inl (positional (''Restore batches failed: '' @ x_redactText v ''RESTORE_FAILED'') ''RESTORE_FAILED''), u)"
    using assms(2,3) m
    by (simp add: restore_all_or_throw_def ecatch_def ebind_def ethrow_def positional_def redacted_message_def
        js_message_def SorobanResurrectError_def)
  then have "r = Inl (positional (''Restore batches failed: '' @ x_redactText v ''RESTORE_FAILED'') ''RESTORE_FAILED'') \<and> t = u"
    using assms(4) by (simp add: executeRestoreThenOriginalBatches_def ebind_def)
  then show ?thesis using st by (simp add: positional_def SorobanResurrectError_def)
qed

theorem documented_recovery_broken_witness:
  "\<exists>err t st. executeRestoreThenOriginalBatches refusing_env [sample_batch 0 ''a''] ''o'' sample_engine = (Inl (Resurrect err), t) \<and>
     err_code err \<noteq> ''RESTORE_FAILED'' \<and> en_lastFailed t = Some st \<and> fr_sourceAccountID st = []"
proof -
  have d: "w_describeFailure refusing_env = Some (\<lambda>e. (None, None))" by (simp add: refusing_env_def)
  obtain ares u where ex: "executeRestoreBatches refusing_env [sample_batch 0 ''a''] None sample_engine = (Inr ares, u)"
      "\<not> ab_success ares" using refusing_execute by blast
  obtain r t where run: "executeRestoreThenOriginalBatches refusing_env [sample_batch 0 ''a''] ''o'' sample_engine = (r, t)"
    by force
  from documented_recovery_broken [OF d ex run] run show ?thesis by blast
qed

end
