(* ===== verification/Limiter.thy ===== *)
theory Limiter
  imports Prelude
begin

text \<open>
  Slot pools: the FIFO limiter of \<open>packages/rpc/src/concurrency.ts\<close> and the inline semaphore of
  \<open>executeRestoreBatchesConcurrent\<close> in \<open>packages/core/src/soroban-resurrect.ts\<close>, the tasks that run
  through them in any interleaving, and the concurrent execution of restore batches.

  Tasks are numbered by their submission. A waiter's resolve function is the number of its task.
\<close>

section \<open>The two pools\<close>

record limiter =
  lm_active :: nat
  lm_queue :: "nat list"

definition createConcurrencyLimiter :: "int \<Rightarrow> string + limiter" where
  "createConcurrencyLimiter maxConcurrent =
    (if \<not> 1 \<le> maxConcurrent
     then Inl (''maxConcurrent must be at least 1, received '' @ int_dec maxConcurrent)
     else Inr \<lparr>lm_active = 0, lm_queue = []\<rparr>)"

definition lim_acquire :: "nat \<Rightarrow> limiter \<Rightarrow> nat \<Rightarrow> bool \<times> limiter" where
  "lim_acquire mx s t =
    (if lm_active s < mx then (True, s\<lparr>lm_active := lm_active s + 1\<rparr>)
     else (False, s\<lparr>lm_queue := lm_queue s @ [t]\<rparr>))"

definition lim_release :: "limiter \<Rightarrow> nat option \<times> limiter" where
  "lim_release s = (case lm_queue s of
     nxt # q \<Rightarrow> (Some nxt, s\<lparr>lm_queue := q\<rparr>)
   | [] \<Rightarrow> (None, s\<lparr>lm_active := lm_active s - 1\<rparr>))"

definition lim_pending :: "limiter \<Rightarrow> nat" where
  "lim_pending s = length (lm_queue s)"

text \<open>The semaphore never shortens its queue; \<open>queueHead\<close> walks along it.\<close>

record semaphore =
  sm_active :: int
  sm_queue :: "nat list"
  sm_head :: nat

definition sem_acquire :: "nat \<Rightarrow> semaphore \<Rightarrow> nat \<Rightarrow> bool \<times> semaphore" where
  "sem_acquire limit s t =
    (if sm_active s < int limit then (True, s\<lparr>sm_active := sm_active s + 1\<rparr>)
     else (False, s\<lparr>sm_queue := sm_queue s @ [t]\<rparr>))"

definition sem_release :: "semaphore \<Rightarrow> nat option \<times> semaphore" where
  "sem_release s =
    (let s1 = s\<lparr>sm_active := sm_active s - 1\<rparr>
     in if sm_head s < length (sm_queue s)
        then (Some (sm_queue s ! sm_head s), s1\<lparr>sm_head := sm_head s + 1, sm_active := sm_active s1 + 1\<rparr>)
        else (None, s1))"

section \<open>Tasks over a pool\<close>

text \<open>
  A task arrives once, holds a slot from the moment it is granted or handed one, and gives it back when
  it finishes. \<open>sy_started\<close> is the order in which slots were given.
\<close>

record 'p sys =
  sy_pool :: 'p
  sy_running :: "nat list"
  sy_started :: "nat list"
  sy_arrived :: "nat list"
  sy_done :: "nat list"

definition sys_new :: "'p \<Rightarrow> 'p sys" where
  "sys_new p = \<lparr>sy_pool = p, sy_running = [], sy_started = [], sy_arrived = [], sy_done = []\<rparr>"

definition sys_arrive :: "('p \<Rightarrow> nat \<Rightarrow> bool \<times> 'p) \<Rightarrow> nat \<Rightarrow> 'p sys \<Rightarrow> 'p sys" where
  "sys_arrive acq t y =
    (let (granted, p) = acq (sy_pool y) t; new = (if granted then [t] else [])
     in y\<lparr>sy_pool := p, sy_arrived := sy_arrived y @ [t], sy_running := sy_running y @ new,
          sy_started := sy_started y @ new\<rparr>)"

definition sys_finish :: "('p \<Rightarrow> nat option \<times> 'p) \<Rightarrow> nat \<Rightarrow> 'p sys \<Rightarrow> 'p sys" where
  "sys_finish rel t y =
    (let (handed, p) = rel (sy_pool y); new = (case handed of None \<Rightarrow> [] | Some u \<Rightarrow> [u])
     in y\<lparr>sy_pool := p, sy_running := remove1 t (sy_running y) @ new, sy_started := sy_started y @ new,
          sy_done := sy_done y @ [t]\<rparr>)"

inductive sys_step ::
  "('p \<Rightarrow> nat \<Rightarrow> bool \<times> 'p) \<Rightarrow> ('p \<Rightarrow> nat option \<times> 'p) \<Rightarrow> 'p sys \<Rightarrow> 'p sys \<Rightarrow> bool" for acq rel where
  Arrive: "t \<notin> set (sy_arrived y) \<Longrightarrow> sys_step acq rel y (sys_arrive acq t y)"
| Finish: "t \<in> set (sy_running y) \<Longrightarrow> sys_step acq rel y (sys_finish rel t y)"

inductive sys_reach ::
  "('p \<Rightarrow> nat \<Rightarrow> bool \<times> 'p) \<Rightarrow> ('p \<Rightarrow> nat option \<times> 'p) \<Rightarrow> 'p \<Rightarrow> 'p sys \<Rightarrow> bool" for acq rel p where
  Start: "sys_reach acq rel p (sys_new p)"
| Step: "sys_reach acq rel p y \<Longrightarrow> sys_step acq rel y z \<Longrightarrow> sys_reach acq rel p z"

inductive_cases sys_stepE: "sys_step acq rel y z"

section \<open>The contract of a pool\<close>

text \<open>
  What the tasks rely on: a free slot is granted, a full pool queues at the end, and a release hands the
  slot to the head of the queue or frees it.
\<close>

locale slot_pool =
  fixes acq :: "'p \<Rightarrow> nat \<Rightarrow> bool \<times> 'p" and rel :: "'p \<Rightarrow> nat option \<times> 'p"
    and active :: "'p \<Rightarrow> nat" and waiting :: "'p \<Rightarrow> nat list" and inv :: "'p \<Rightarrow> bool"
    and mx :: nat and start :: 'p
  assumes grant: "inv s \<Longrightarrow> active s < mx \<Longrightarrow>
      fst (acq s t) \<and> active (snd (acq s t)) = Suc (active s) \<and> waiting (snd (acq s t)) = waiting s"
    and enqueue: "inv s \<Longrightarrow> \<not> active s < mx \<Longrightarrow>
      \<not> fst (acq s t) \<and> active (snd (acq s t)) = active s \<and> waiting (snd (acq s t)) = waiting s @ [t]"
    and hand: "inv s \<Longrightarrow> 0 < active s \<Longrightarrow> waiting s = t # ts \<Longrightarrow>
      fst (rel s) = Some t \<and> active (snd (rel s)) = active s \<and> waiting (snd (rel s)) = ts"
    and free: "inv s \<Longrightarrow> 0 < active s \<Longrightarrow> waiting s = [] \<Longrightarrow>
      fst (rel s) = None \<and> Suc (active (snd (rel s))) = active s \<and> waiting (snd (rel s)) = []"
    and inv_acq: "inv s \<Longrightarrow> inv (snd (acq s t))"
    and inv_rel: "inv s \<Longrightarrow> 0 < active s \<Longrightarrow> inv (snd (rel s))"
    and inv_start: "inv start" and idle_start: "active start = 0" "waiting start = []"
begin

text \<open>The tasks with a slot are counted, the others wait in arrival order, and nobody waits while a
  slot is free.\<close>

definition sys_inv :: "'p sys \<Rightarrow> bool" where
  "sys_inv y = (inv (sy_pool y) \<and> length (sy_running y) = active (sy_pool y) \<and> active (sy_pool y) \<le> mx \<and>
     sy_arrived y = sy_started y @ waiting (sy_pool y) \<and> distinct (sy_arrived y) \<and>
     mset (sy_started y) = mset (sy_running y) + mset (sy_done y) \<and>
     (waiting (sy_pool y) \<noteq> [] \<longrightarrow> active (sy_pool y) = mx))"

lemma sys_inv_new: "sys_inv (sys_new start)"
  by (simp add: sys_inv_def sys_new_def inv_start idle_start)

lemma sys_inv_arrive:
  assumes "sys_inv y" and "t \<notin> set (sy_arrived y)"
  shows "sys_inv (sys_arrive acq t y)"
proof (cases "active (sy_pool y) < mx")
  case True
  have inv: "inv (sy_pool y)" using assms(1) by (simp add: sys_inv_def)
  have w: "waiting (sy_pool y) = []" using True assms(1) by (auto simp: sys_inv_def)
  show ?thesis using assms grant [OF inv True, of t] inv_acq [OF inv, of t] True w
    by (auto simp: sys_inv_def sys_arrive_def Let_def split: prod.splits)
next
  case False
  have inv: "inv (sy_pool y)" using assms(1) by (simp add: sys_inv_def)
  show ?thesis using assms enqueue [OF inv False, of t] inv_acq [OF inv, of t] False
    by (auto simp: sys_inv_def sys_arrive_def Let_def split: prod.splits)
qed

lemma sys_inv_finish:
  assumes "sys_inv y" and "t \<in> set (sy_running y)"
  shows "sys_inv (sys_finish rel t y)"
proof -
  have inv: "inv (sy_pool y)" and pos: "0 < active (sy_pool y)"
    using assms by (auto simp: sys_inv_def) (metis length_pos_if_in_set)
  have len: "Suc (length (remove1 t (sy_running y))) = active (sy_pool y)"
    using assms length_pos_if_in_set [OF assms(2)] by (auto simp: sys_inv_def length_remove1)
  have ms: "add_mset t (mset (remove1 t (sy_running y))) = mset (sy_running y)"
    using assms(2) by simp
  show ?thesis
  proof (cases "waiting (sy_pool y)")
    case Nil
    show ?thesis using assms free [OF inv pos Nil] inv_rel [OF inv pos] len ms Nil
      by (auto simp: sys_inv_def sys_finish_def Let_def split: prod.splits)
  next
    case (Cons u us)
    show ?thesis using assms hand [OF inv pos Cons] inv_rel [OF inv pos] len ms Cons
      by (auto simp: sys_inv_def sys_finish_def Let_def split: prod.splits)
  qed
qed

lemma sys_inv_reach: "sys_reach acq rel start y \<Longrightarrow> sys_inv y"
  by (induction rule: sys_reach.induct)
    (auto intro: sys_inv_new elim!: sys_stepE intro: sys_inv_arrive sys_inv_finish)

lemma reach_bounded: "sys_reach acq rel start y \<Longrightarrow> length (sy_running y) \<le> mx"
  using sys_inv_reach by (auto simp: sys_inv_def)

lemma reach_active: "sys_reach acq rel start y \<Longrightarrow> active (sy_pool y) = length (sy_running y)"
  using sys_inv_reach by (auto simp: sys_inv_def)

lemma reach_fifo: "sys_reach acq rel start y \<Longrightarrow> sy_arrived y = sy_started y @ waiting (sy_pool y)"
  using sys_inv_reach by (auto simp: sys_inv_def)

lemma reach_work_conserving:
  "sys_reach acq rel start y \<Longrightarrow> waiting (sy_pool y) \<noteq> [] \<Longrightarrow> length (sy_running y) = mx"
  using sys_inv_reach by (auto simp: sys_inv_def)

lemma reach_drained:
  assumes "sys_reach acq rel start y" "0 < mx" "sy_running y = []"
  shows "mset (sy_done y) = mset (sy_arrived y)"
  using sys_inv_reach [OF assms(1)] assms(2,3) by (auto simp: sys_inv_def)

lemma reach_distinct:
  assumes "sys_reach acq rel start y"
  shows "distinct (sy_running y @ sy_done y)"
proof -
  have "mset (sy_running y @ sy_done y) = mset (sy_started y)" "distinct (sy_started y)"
    using sys_inv_reach [OF assms] by (auto simp: sys_inv_def)
  then show ?thesis by (metis mset_eq_imp_distinct_iff)
qed

end

definition sem_inv :: "semaphore \<Rightarrow> bool" where
  "sem_inv s = (0 \<le> sm_active s \<and> sm_head s \<le> length (sm_queue s))"

definition sem_waiting :: "semaphore \<Rightarrow> nat list" where
  "sem_waiting s = drop (sm_head s) (sm_queue s)"

definition lim_new :: limiter where
  "lim_new = \<lparr>lm_active = 0, lm_queue = []\<rparr>"

definition sem_new :: semaphore where
  "sem_new = \<lparr>sm_active = 0, sm_queue = [], sm_head = 0\<rparr>"

lemma drop_ConsD: "drop n xs = y # ys \<Longrightarrow> n < length xs \<and> xs ! n = y \<and> drop (Suc n) xs = ys"
  by (metis Cons_nth_drop_Suc drop_all list.distinct(1) list.inject not_le_imp_less)

interpretation lim: slot_pool "lim_acquire mx" lim_release lm_active lm_queue "\<lambda>s. True" mx lim_new for mx
  by unfold_locales (auto simp: lim_acquire_def lim_release_def lim_new_def split: list.split)

interpretation sem: slot_pool "sem_acquire mx" sem_release "\<lambda>s. nat (sm_active s)" sem_waiting sem_inv mx sem_new for mx
proof unfold_locales
  fix s t
  assume i: "sem_inv s"
  show "nat (sm_active s) < mx \<Longrightarrow> fst (sem_acquire mx s t) \<and>
      nat (sm_active (snd (sem_acquire mx s t))) = Suc (nat (sm_active s)) \<and>
      sem_waiting (snd (sem_acquire mx s t)) = sem_waiting s"
    using i by (auto simp: sem_acquire_def sem_waiting_def sem_inv_def)
  show "\<not> nat (sm_active s) < mx \<Longrightarrow> \<not> fst (sem_acquire mx s t) \<and>
      nat (sm_active (snd (sem_acquire mx s t))) = nat (sm_active s) \<and>
      sem_waiting (snd (sem_acquire mx s t)) = sem_waiting s @ [t]"
    using i by (auto simp: sem_acquire_def sem_waiting_def sem_inv_def)
  show "sem_inv (snd (sem_acquire mx s t))" using i by (auto simp: sem_acquire_def sem_inv_def)
  assume pos: "0 < nat (sm_active s)"
  show "sem_inv (snd (sem_release s))" using i pos by (auto simp: sem_release_def sem_inv_def Let_def)
  show "sem_waiting s = u # us \<Longrightarrow> fst (sem_release s) = Some u \<and>
      nat (sm_active (snd (sem_release s))) = nat (sm_active s) \<and> sem_waiting (snd (sem_release s)) = us" for u us
    using i pos by (auto simp: sem_release_def sem_waiting_def Let_def dest: drop_ConsD)
  show "sem_waiting s = [] \<Longrightarrow> fst (sem_release s) = None \<and>
      Suc (nat (sm_active (snd (sem_release s)))) = nat (sm_active s) \<and> sem_waiting (snd (sem_release s)) = []"
    using i pos by (auto simp: sem_release_def sem_waiting_def Let_def)
qed (auto simp: sem_inv_def sem_waiting_def sem_new_def)

end
