(* ===== verification/ConcurrentRun.thy ===== *)
theory ConcurrentRun
  imports Limiter
begin

text \<open>
  Concurrent execution of restore batches, as both clients write it (\<open>executeRestoreBatchesConcurrent\<close> of
  \<open>packages/core/src/soroban-resurrect.ts\<close> and of \<open>packages/sdk/src/soroban-resurrect.ts\<close>). All tasks are
  started in order before any of them runs on; after that they finish in any order the inline semaphore
  allows. A run is given by the sequence of completions, each a batch index and the outcome of its
  submission. The clients differ in how a batch records its outcome and in the record of a batch: those are
  the arguments \<open>outcome\<close> and \<open>keys\<close>, the second the number of keys the batch restores.
\<close>

section \<open>Execution\<close>

definition DEFAULT_MAX_CONCURRENCY :: int where
  "DEFAULT_MAX_CONCURRENCY = 5"

definition concurrency_limit :: "int option \<Rightarrow> int option \<Rightarrow> nat" where
  "concurrency_limit configured concurrency =
    nat (max 1 (case concurrency of Some c \<Rightarrow> c | None \<Rightarrow>
      (case configured of Some c \<Rightarrow> c | None \<Rightarrow> DEFAULT_MAX_CONCURRENCY)))"

record 'b concurrent_run =
  cc_sys :: "semaphore sys"
  cc_results :: "'b option list"
  cc_totalKeysRestored :: nat
  cc_failedIndices :: "nat list"

definition conc_start :: "nat \<Rightarrow> 'b list \<Rightarrow> 'b concurrent_run" where
  "conc_start limit batches =
    \<lparr>cc_sys = foldl (\<lambda>y i. sys_arrive (sem_acquire limit) i y) (sys_new sem_new) [0..<length batches],
     cc_results = replicate (length batches) None, cc_totalKeysRestored = 0, cc_failedIndices = []\<rparr>"

definition conc_finish ::
  "('b \<Rightarrow> 'e + string \<Rightarrow> 'b) \<Rightarrow> ('b \<Rightarrow> nat) \<Rightarrow> 'b list \<Rightarrow> 'b concurrent_run \<Rightarrow> nat \<Rightarrow> 'e + string \<Rightarrow>
   'b concurrent_run" where
  "conc_finish outcome keys batches s idx out =
    (let s1 = s\<lparr>cc_results := (cc_results s)[idx := Some (outcome (batches ! idx) out)]\<rparr>;
         s2 = (case out of
            Inr hash \<Rightarrow> s1\<lparr>cc_totalKeysRestored := cc_totalKeysRestored s1 + keys (batches ! idx)\<rparr>
          | Inl e \<Rightarrow> s1\<lparr>cc_failedIndices := cc_failedIndices s1 @ [idx]\<rparr>)
     in s2\<lparr>cc_sys := sys_finish sem_release idx (cc_sys s2)\<rparr>)"

text \<open>A completion of a batch that holds no slot is not an execution.\<close>

fun conc_run ::
  "('b \<Rightarrow> 'e + string \<Rightarrow> 'b) \<Rightarrow> ('b \<Rightarrow> nat) \<Rightarrow> 'b list \<Rightarrow> 'b concurrent_run \<Rightarrow> (nat \<times> ('e + string)) list \<Rightarrow>
   'b concurrent_run option" where
  "conc_run outcome keys batches s [] = Some s"
| "conc_run outcome keys batches s ((idx, out) # evs) =
    (if List.member (sy_running (cc_sys s)) idx
     then conc_run outcome keys batches (conc_finish outcome keys batches s idx out) evs else None)"

record 'b concurrent_result =
  cr_success :: bool
  cr_batches :: "'b option list"
  cr_totalKeysRestored :: nat
  cr_failedBatchCount :: nat
  cr_failedBatchIndices :: "nat list"
  cr_error :: "string option"
  cr_concurrencyUsed :: nat

definition conc_result :: "nat \<Rightarrow> nat \<Rightarrow> 'b concurrent_run \<Rightarrow> 'b concurrent_result" where
  "conc_result limit tot s =
    \<lparr>cr_success = (cc_failedIndices s = []), cr_batches = cc_results s,
     cr_totalKeysRestored = cc_totalKeysRestored s, cr_failedBatchCount = length (cc_failedIndices s),
     cr_failedBatchIndices = sort (cc_failedIndices s),
     cr_error = (if cc_failedIndices s = [] then None
       else Some (nat_dec (length (cc_failedIndices s)) @ '' of '' @ nat_dec tot @
              '' restore batches failed (indices: '' @ join_with '', '' (map nat_dec (cc_failedIndices s)) @ '')'')),
     cr_concurrencyUsed = limit\<rparr>"

text \<open>The result once every task has settled; \<open>None\<close> where the completions are not a whole execution.\<close>

definition execute_concurrent ::
  "('b \<Rightarrow> 'e + string \<Rightarrow> 'b) \<Rightarrow> ('b \<Rightarrow> nat) \<Rightarrow> nat \<Rightarrow> 'b list \<Rightarrow> (nat \<times> ('e + string)) list \<Rightarrow>
   'b concurrent_result option" where
  "execute_concurrent outcome keys limit batches evs =
    (case conc_run outcome keys batches (conc_start limit batches) evs of
       None \<Rightarrow> None
     | Some s \<Rightarrow> if sy_running (cc_sys s) = [] then Some (conc_result limit (length batches) s) else None)"

section \<open>Lemmas\<close>

abbreviation sem_reach :: "nat \<Rightarrow> semaphore sys \<Rightarrow> bool" where
  "sem_reach limit y \<equiv> sys_reach (sem_acquire limit) sem_release sem_new y"

lemma conc_start_reach:
  "sem_reach limit (foldl (\<lambda>y i. sys_arrive (sem_acquire limit) i y) (sys_new sem_new) [0..<n]) \<and>
   sy_arrived (foldl (\<lambda>y i. sys_arrive (sem_acquire limit) i y) (sys_new sem_new) [0..<n]) = [0..<n] \<and>
   sy_done (foldl (\<lambda>y i. sys_arrive (sem_acquire limit) i y) (sys_new sem_new) [0..<n]) = []"
proof (induction n)
  case 0
  then show ?case by (simp add: sys_new_def) (use sys_reach.Start [of "sem_acquire limit" sem_release sem_new] in \<open>simp add: sys_new_def\<close>)
next
  case (Suc n)
  let ?y = "foldl (\<lambda>y i. sys_arrive (sem_acquire limit) i y) (sys_new sem_new) [0..<n]"
  have "sys_step (sem_acquire limit) sem_release ?y (sys_arrive (sem_acquire limit) n ?y)"
    using Suc by (intro sys_step.Arrive) simp
  then have "sem_reach limit (sys_arrive (sem_acquire limit) n ?y)"
    by (rule sys_reach.Step [OF conjunct1 [OF Suc]])
  moreover have "sy_arrived (sys_arrive (sem_acquire limit) n ?y) = [0..<n] @ [n]"
      "sy_done (sys_arrive (sem_acquire limit) n ?y) = []"
    using Suc by (auto simp: sys_arrive_def Let_def split: prod.split)
  ultimately show ?case by simp
qed

lemma sys_finish_fields [simp]:
  "sy_done (sys_finish rel t y) = sy_done y @ [t]" "sy_arrived (sys_finish rel t y) = sy_arrived y"
  by (simp_all add: sys_finish_def Let_def split: prod.split)

definition restored_by :: "('b \<Rightarrow> nat) \<Rightarrow> 'b list \<Rightarrow> (nat \<times> ('e + string)) list \<Rightarrow> nat" where
  "restored_by keys batches evs =
    sum_list (map (\<lambda>(i, out). case out of Inr h \<Rightarrow> keys (batches ! i) | Inl e \<Rightarrow> 0) evs)"

definition failed_in :: "(nat \<times> ('e + string)) list \<Rightarrow> nat list" where
  "failed_in evs = map fst (filter (\<lambda>(i, out). case out of Inr h \<Rightarrow> False | Inl e \<Rightarrow> True) evs)"

definition conc_writes ::
  "('b \<Rightarrow> 'e + string \<Rightarrow> 'b) \<Rightarrow> 'b list \<Rightarrow> 'b option list \<Rightarrow> (nat \<times> ('e + string)) list \<Rightarrow> 'b option list" where
  "conc_writes outcome batches rs evs =
    foldl (\<lambda>rs (i, out). rs[i := Some (outcome (batches ! i) out)]) rs evs"

lemma conc_run_spec:
  assumes "conc_run d ks bs s evs = Some s'" and "sem_reach limit (cc_sys s)"
  shows "sem_reach limit (cc_sys s') \<and> sy_done (cc_sys s') = sy_done (cc_sys s) @ map fst evs \<and>
    sy_arrived (cc_sys s') = sy_arrived (cc_sys s) \<and>
    cc_results s' = conc_writes d bs (cc_results s) evs \<and>
    cc_totalKeysRestored s' = cc_totalKeysRestored s + restored_by ks bs evs \<and>
    cc_failedIndices s' = cc_failedIndices s @ failed_in evs"
  using assms
proof (induction evs arbitrary: s)
  case Nil
  then show ?case by (simp add: conc_writes_def restored_by_def failed_in_def)
next
  case (Cons ev evs)
  obtain i out where ev: "ev = (i, out)" by force
  let ?s = "conc_finish d ks bs s i out"
  have run: "i \<in> set (sy_running (cc_sys s))" "conc_run d ks bs ?s evs = Some s'"
    using Cons.prems(1) by (auto simp: ev split: if_splits)
  have sys: "cc_sys ?s = sys_finish sem_release i (cc_sys s)"
    by (simp add: conc_finish_def Let_def split: sum.split)
  have "sem_reach limit (cc_sys ?s)"
    unfolding sys using Cons.prems(2) run(1) by (blast intro: sys_reach.Step sys_step.Finish)
  note ih = Cons.IH [OF run(2) this]
  have upd: "cc_results ?s = (cc_results s)[i := Some (d (bs ! i) out)]"
    "cc_totalKeysRestored ?s + restored_by ks bs evs = cc_totalKeysRestored s + restored_by ks bs (ev # evs)"
    "cc_failedIndices ?s @ failed_in evs = cc_failedIndices s @ failed_in (ev # evs)"
    by (cases out; simp add: conc_finish_def Let_def restored_by_def failed_in_def ev)+
  show ?case using ih upd by (simp add: sys conc_writes_def ev)
qed

lemma conc_writes_other:
  "i \<notin> fst ` set evs \<Longrightarrow> conc_writes d bs rs evs ! i = rs ! i"
  unfolding conc_writes_def by (induction evs arbitrary: rs) (auto split: prod.splits)

lemma conc_writes_at:
  "distinct (map fst evs) \<Longrightarrow> (i, out) \<in> set evs \<Longrightarrow> i < length rs \<Longrightarrow>
   conc_writes d bs rs evs ! i = Some (d (bs ! i) out)"
proof (induction evs arbitrary: rs)
  case (Cons ev evs)
  let ?rs = "rs[fst ev := Some (d (bs ! fst ev) (snd ev))]"
  have step: "conc_writes d bs rs (ev # evs) = conc_writes d bs ?rs evs"
    by (simp add: conc_writes_def split: prod.split)
  show ?case
  proof (cases "(i, out) \<in> set evs")
    case True
    then show ?thesis using Cons step by simp
  next
    case False
    then have "ev = (i, out)" using Cons.prems(2) by auto
    moreover have "i \<notin> fst ` set evs" using Cons.prems(1) \<open>ev = (i, out)\<close> by simp
    ultimately show ?thesis using Cons.prems(3) step by (simp add: conc_writes_other)
  qed
qed simp

lemma conc_writes_length: "length (conc_writes d bs rs evs) = length rs"
  unfolding conc_writes_def by (induction evs arbitrary: rs) (auto split: prod.splits)

lemma sorted_failed: "distinct (map fst evs) \<Longrightarrow> distinct (failed_in evs)"
  unfolding failed_in_def by (rule distinct_map_filter)

section \<open>A whole execution\<close>

definition conc_complete ::
  "('b \<Rightarrow> 'e + string \<Rightarrow> 'b) \<Rightarrow> ('b \<Rightarrow> nat) \<Rightarrow> 'b list \<Rightarrow> (nat \<times> ('e + string)) list \<Rightarrow> 'b concurrent_result \<Rightarrow> bool" where
  "conc_complete outcome keys bs evs res \<longleftrightarrow>
    mset (map fst evs) = mset [0..<length bs] \<and> length (cr_batches res) = length bs \<and>
    (\<forall>(i, out) \<in> set evs. cr_batches res ! i = Some (outcome (bs ! i) out)) \<and>
    cr_totalKeysRestored res = restored_by keys bs evs \<and>
    cr_failedBatchIndices res = sort (failed_in evs) \<and> (cr_success res \<longleftrightarrow> failed_in evs = [])"

lemma conc_run_bounded:
  assumes "conc_run d ks bs (conc_start limit bs) evs = Some s"
  shows "length (sy_running (cc_sys s)) \<le> limit"
proof -
  have "sem_reach limit (cc_sys (conc_start limit bs))" using conc_start_reach by (simp add: conc_start_def)
  from conc_run_spec [OF assms this] show ?thesis by (blast intro: sem.reach_bounded)
qed

lemma execute_concurrent_complete:
  assumes "execute_concurrent d ks limit bs evs = Some res" and "0 < limit"
  shows "conc_complete d ks bs evs res"
proof -
  from assms(1) obtain s where run: "conc_run d ks bs (conc_start limit bs) evs = Some s"
      and idle: "sy_running (cc_sys s) = []" and res: "res = conc_result limit (length bs) s"
    by (auto simp: execute_concurrent_def split: option.splits if_splits)
  note start = conc_start_reach [of limit "length bs"]
  have "sem_reach limit (cc_sys (conc_start limit bs))" using start by (simp add: conc_start_def)
  note spec = conc_run_spec [OF run this]
  have reach: "sem_reach limit (cc_sys s)" using spec by blast
  have fin: "sy_done (cc_sys s) = map fst evs" and arr: "sy_arrived (cc_sys s) = [0..<length bs]"
    using spec start by (simp_all add: conc_start_def)
  have perm: "mset (map fst evs) = mset [0..<length bs]"
    using sem.reach_drained [OF reach assms(2) idle] by (simp only: fin arr)
  then have dist: "distinct (map fst evs)" by (metis distinct_upt mset_eq_imp_distinct_iff)
  have bound: "i < length bs" if "(i, out) \<in> set evs" for i out
    using that perm by (metis atLeastLessThan_iff fst_conv image_eqI image_set mset_eq_setD set_upt)
  have "length (cr_batches res) = length bs"
    using spec by (simp add: res conc_result_def conc_start_def conc_writes_length)
  moreover have "\<forall>(i, out) \<in> set evs. cr_batches res ! i = Some (d (bs ! i) out)"
    using spec dist bound by (auto simp: res conc_result_def conc_start_def intro!: conc_writes_at)
  moreover have "cr_totalKeysRestored res = restored_by ks bs evs" "cr_failedBatchIndices res = sort (failed_in evs)"
      "cr_success res \<longleftrightarrow> failed_in evs = []"
    using spec by (simp_all add: res conc_result_def conc_start_def)
  ultimately show ?thesis using perm by (simp add: conc_complete_def)
qed

end
