(* ===== verification/Concurrent.thy ===== *)
theory Concurrent
  imports ConcurrentRun RestoreOutcome
begin

text \<open>
  \<open>executeRestoreBatchesConcurrent\<close> of the \<open>core\<close> client and the flow built on it
  (\<open>packages/core/src/soroban-resurrect.ts\<close>), on the execution of \<open>ConcurrentRun\<close>.
\<close>

section \<open>Execution\<close>

type_synonym describe_failure = "js_err \<Rightarrow> string option \<times> bool option"

definition batch_outcome :: "describe_failure \<Rightarrow> restore_batch \<Rightarrow> js_err + string \<Rightarrow> restore_batch" where
  "batch_outcome describe b out = (case out of
     Inr hash \<Rightarrow> succeeded b hash
   | Inl e \<Rightarrow> failed_with b (js_message e) (describe e))"

definition executeRestoreBatchesConcurrent ::
  "env \<Rightarrow> describe_failure \<Rightarrow> int option \<Rightarrow> restore_batch list \<Rightarrow> (nat \<times> (js_err + string)) list \<Rightarrow>
   restore_batch concurrent_result option" where
  "executeRestoreBatchesConcurrent v describe concurrency batches evs =
    execute_concurrent (batch_outcome describe) rb_keysRestored
      (concurrency_limit (ec_maxConcurrency v) concurrency) batches evs"

text \<open>The flow around it; \<open>run\<close> is the concurrent execution of the batches it is given.\<close>

definition executeRestoreThenOriginalBatchesConcurrent ::
  "env \<Rightarrow> (restore_batch list \<Rightarrow> restore_batch concurrent_result act) \<Rightarrow> archived_key list \<Rightarrow> string \<Rightarrow> string \<Rightarrow> bool \<Rightarrow>
   (execution \<times> restore_batch concurrent_result) act" where
  "executeRestoreThenOriginalBatchesConcurrent v run archivedKeys originalXDR source requireAllBatches =
    ebind (buildRestoreTransactionBatchesConcurrent v (classify_again archivedKeys) source) (\<lambda>batches.
    ebind (run batches) (\<lambda>res.
      if \<not> cr_success res \<and> requireAllBatches
      then ethrow (positional (case cr_error res of Some m \<Rightarrow> m | None \<Rightarrow> ''One or more restore batches failed'')
             ''RESTORE_FAILED'')
      else
        ebind (verify_batches v (List.map_filter id (cr_batches res))) (\<lambda>_.
        ebind (ecatch (submitSignedTransaction v originalXDR True)
                 (\<lambda>e. ethrow (positional (''Original transaction failed after restore: '' @ redacted_message v e)
                    ''ORIGINAL_TX_FAILED''))) (\<lambda>originalTxHash.
        eret ((execution_of True (cr_totalKeysRestored res))
          \<lparr>ex_originalTxHash := Some originalTxHash,
           ex_restoreConfirmed := Some (cr_success res \<and> restoreAwaitsConfirmation v),
           ex_originalConfirmed := Some True\<rparr>, res)))))"

section \<open>Properties\<close>

text \<open>
  C11: through the FIFO limiter at most \<open>maxConcurrent\<close> tasks hold a slot in any interleaving, slots are
  given in the order of submission, no task waits while a slot is free, and when nothing runs every
  task that was submitted has finished.
\<close>

theorem limiter_fifo_bounded:
  assumes "sys_reach (lim_acquire mx) lim_release lim_new y" and "0 < mx"
  shows "length (sy_running y) \<le> mx \<and> lm_active (sy_pool y) = length (sy_running y) \<and>
    sy_arrived y = sy_started y @ lm_queue (sy_pool y) \<and>
    (lm_queue (sy_pool y) \<noteq> [] \<longrightarrow> length (sy_running y) = mx) \<and>
    (sy_running y = [] \<longrightarrow> mset (sy_done y) = mset (sy_arrived y))"
  using lim.reach_bounded [OF assms(1)] lim.reach_active [OF assms(1)] lim.reach_fifo [OF assms(1)]
    lim.reach_work_conserving [OF assms(1)] lim.reach_drained [OF assms] by blast

theorem limiter_fifo_bounded_witness:
  "length (sy_running (sys_arrive (lim_acquire 1) 8 (sys_arrive (lim_acquire 1) 7 (sys_new lim_new)))) \<le> 1"
proof -
  have "sys_reach (lim_acquire 1) lim_release lim_new (sys_arrive (lim_acquire 1) 7 (sys_new lim_new))"
    by (rule sys_reach.Step [OF sys_reach.Start sys_step.Arrive]) (simp add: sys_new_def)
  then have "sys_reach (lim_acquire 1) lim_release lim_new
      (sys_arrive (lim_acquire 1) 8 (sys_arrive (lim_acquire 1) 7 (sys_new lim_new)))"
    by (rule sys_reach.Step [OF _ sys_step.Arrive]) (simp add: sys_arrive_def sys_new_def Let_def split: prod.split)
  from limiter_fifo_bounded [OF this] show ?thesis by simp
qed

text \<open>
  Concurrent execution of the \<open>core\<close> client resolves only after each batch was attempted exactly once;
  every result stands at its own index, the total is that of the batches that succeeded, and the failed
  indices are exactly those that failed, in order.
\<close>

theorem concurrent_execution_complete:
  assumes "executeRestoreBatchesConcurrent v d concurrency bs evs = Some res"
  shows "conc_complete (batch_outcome d) rb_keysRestored bs evs res"
  using assms unfolding executeRestoreBatchesConcurrent_def
  by (rule execute_concurrent_complete) (simp add: concurrency_limit_def)

theorem concurrent_execution_complete_witness:
  "\<exists>res. conc_complete (batch_outcome (\<lambda>e. (None, None))) rb_keysRestored
     [sample_batch 0 ''a'', sample_batch 1 ''b''] [(1, Inr ''k''), (0, Inr ''h'')] res"
proof -
  have "\<exists>res. executeRestoreBatchesConcurrent sample_env (\<lambda>e. (None, None)) (Some 2)
      [sample_batch 0 ''a'', sample_batch 1 ''b''] [(1, Inr ''k''), (0, Inr ''h'')] = Some res"
    by (simp add: executeRestoreBatchesConcurrent_def execute_concurrent_def concurrency_limit_def conc_start_def
        conc_finish_def sys_arrive_def sys_finish_def sys_new_def sem_new_def sem_acquire_def sem_release_def
        Let_def upt_rec)
  then show ?thesis using concurrent_execution_complete by blast
qed

end
