(* ===== verification/Values.thy ===== *)
theory Values
  imports Prelude
begin

text \<open>
  JavaScript values the packages read from outside: numbers with their non-finite values, JSON values and
  the string functions on them. A finite number is a rational; \<open>JSON.parse\<close> and \<open>JSON.stringify\<close>, whose
  error messages and number formats belong to the engine, are the fields of \<open>json_codec\<close>.
\<close>

section \<open>Numbers\<close>

datatype js_number = Fin rat | PosInf | NegInf | NaN

fun js_isFinite :: "js_number \<Rightarrow> bool" where
  "js_isFinite (Fin q) = True"
| "js_isFinite _ = False"

text \<open>\<open>Number.isInteger\<close>, with the integer: the second function is meant for its integers only.\<close>

fun js_isInteger :: "js_number \<Rightarrow> bool" where
  "js_isInteger (Fin q) = (of_int \<lfloor>q\<rfloor> = q)"
| "js_isInteger _ = False"

fun js_toInt :: "js_number \<Rightarrow> int" where
  "js_toInt (Fin q) = \<lfloor>q\<rfloor>"
| "js_toInt _ = 0"

fun js_le :: "js_number \<Rightarrow> js_number \<Rightarrow> bool" where
  "js_le NaN _ = False"
| "js_le _ NaN = False"
| "js_le NegInf _ = True"
| "js_le _ PosInf = True"
| "js_le (Fin a) (Fin b) = (a \<le> b)"
| "js_le _ _ = False"

abbreviation js_int :: "int \<Rightarrow> js_number" where
  "js_int n \<equiv> Fin (of_int n)"

lemma js_int_simps [simp]: "js_isInteger (js_int n)" "js_toInt (js_int n) = n" "js_isFinite (js_int n)"
  by simp_all

lemma js_isInteger_iff: "js_isInteger x \<longleftrightarrow> (\<exists>n. x = js_int n)"
  by (cases x) (auto intro: exI [where x = "js_toInt x"])

section \<open>JSON values\<close>

datatype json =
    JNull
  | JBool bool
  | JNum js_number
  | JStr string
  | JArr "json list"
  | JObj "(string \<times> json) list"

record json_codec =
  jc_parse :: "string \<Rightarrow> string + json"
  jc_stringify :: "json option \<Rightarrow> string"
  jc_number :: "js_number \<Rightarrow> string"

section \<open>Strings\<close>

definition js_endsWith :: "string \<Rightarrow> string \<Rightarrow> bool" where
  "js_endsWith s t = (length t \<le> length s \<and> drop (length s - length t) s = t)"

text \<open>\<open>toLowerCase\<close> on the characters of Latin-1.\<close>

definition lower_char :: "char \<Rightarrow> char" where
  "lower_char c = (let n = (of_char c :: nat)
     in if (65 \<le> n \<and> n \<le> 90) \<or> (192 \<le> n \<and> n \<le> 222 \<and> n \<noteq> 215) then char_of (n + 32) else c)"

definition js_toLowerCase :: "string \<Rightarrow> string" where
  "js_toLowerCase s = map lower_char s"

text \<open>Does \<open>t\<close> occur in \<open>s\<close>?\<close>

fun js_includes :: "string \<Rightarrow> string \<Rightarrow> bool" where
  "js_includes s t = (take (length t) s = t \<or> (case s of [] \<Rightarrow> False | c # cs \<Rightarrow> js_includes cs t))"

declare js_includes.simps [simp del]

lemma js_includes_iff: "js_includes s t \<longleftrightarrow> (\<exists>a b. s = a @ t @ b)"
proof (induction s)
  case Nil
  then show ?case by (auto simp: js_includes.simps [of "[]"])
next
  case (Cons c s)
  have "take (length t) (c # s) = t \<longleftrightarrow> (\<exists>b. c # s = t @ b)"
    by (metis append_eq_conv_conj append_take_drop_id)
  moreover have "(\<exists>a b. c # s = a @ t @ b) \<longleftrightarrow> (\<exists>b. c # s = t @ b) \<or> (\<exists>a b. s = a @ t @ b)"
    by (metis append_Cons append_Nil list.exhaust list.inject)
  ultimately show ?case using Cons by (subst js_includes.simps) auto
qed

end
