(* ===== verification/FeeSponsorship.thy ===== *)
theory FeeSponsorship
  imports Values
begin

text \<open>
  The metadata check that comes before a wallet is asked to authorise a fee-sponsored transaction
  (\<open>packages/core/src/fee-sponsorship.ts\<close>). \<open>null\<close> and \<open>undefined\<close> are \<open>None\<close>; the clock reading in
  milliseconds is the argument \<open>clock\<close>.
\<close>

section \<open>Metadata\<close>

datatype fee_amount = FNumber js_number | FString string | FBigInt int

record fee_metadata =
  fs_sponsor :: "string option"
  fs_network :: "string option"
  fs_asset :: "string option"
  fs_maxFee :: "fee_amount option"
  fs_expiresAt :: "js_number option"

record fee_context =
  fx_network :: string
  fx_asset :: string
  fx_maxFee :: "fee_amount option"
  fx_now :: "js_number option"

datatype fee_code =
    missing_metadata | missing_sponsor | invalid_sponsor | missing_network | network_mismatch
  | missing_asset | asset_mismatch | missing_max_fee | invalid_max_fee | max_fee_exceeded | expired

record fee_error =
  fv_code :: fee_code
  fv_message :: string

record fee_result =
  fv_valid :: bool
  fv_errors :: "fee_error list"

section \<open>The check\<close>

definition fee_err :: "fee_code \<Rightarrow> string \<Rightarrow> fee_error" where
  "fee_err c m = \<lparr>fv_code = c, fv_message = m\<rparr>"

text \<open>The characters of \<open>SPONSOR_PATTERN\<close>, \<open>[A-Za-z0-9:_-]\<close>.\<close>

definition sponsor_char :: "char \<Rightarrow> bool" where
  "sponsor_char c = (let n = (of_char c :: nat)
     in (65 \<le> n \<and> n \<le> 90) \<or> (97 \<le> n \<and> n \<le> 122) \<or> is_digit c \<or> List.member '':_-'' c)"

definition SPONSOR_PATTERN :: "string \<Rightarrow> bool" where
  "SPONSOR_PATTERN s = (3 \<le> length s \<and> length s \<le> 128 \<and> list_all sponsor_char s)"

definition normalize :: "string option \<Rightarrow> string option" where
  "normalize s = (case s of None \<Rightarrow> None
     | Some t \<Rightarrow> (let trimmed = js_trim t in if trimmed \<noteq> [] then Some trimmed else None))"

text \<open>The regular expression \<open>^-?\d+$\<close>; a string of that form is an argument \<open>BigInt\<close> accepts.\<close>

definition is_int_text :: "string \<Rightarrow> bool" where
  "is_int_text s = (let t = (case s of [] \<Rightarrow> [] | c # cs \<Rightarrow> if c = CHR ''-'' then cs else s)
     in t \<noteq> [] \<and> list_all is_digit t)"

definition toBigInt :: "fee_amount option \<Rightarrow> int option" where
  "toBigInt v = (case v of
     None \<Rightarrow> None
   | Some (FBigInt n) \<Rightarrow> Some n
   | Some (FNumber x) \<Rightarrow> if \<not> js_isFinite x \<or> \<not> js_isInteger x then None else Some (js_toInt x)
   | Some (FString s) \<Rightarrow> (let trimmed = js_trim s
       in if \<not> is_int_text trimmed then None else js_BigInt trimmed))"

definition sponsor_errors :: "fee_metadata \<Rightarrow> fee_error list" where
  "sponsor_errors m = (case normalize (fs_sponsor m) of
     None \<Rightarrow> [fee_err missing_sponsor ''Fee-sponsorship metadata is missing a sponsor account.'']
   | Some sponsor \<Rightarrow> if \<not> SPONSOR_PATTERN sponsor
       then [fee_err invalid_sponsor (''Fee-sponsorship sponsor '' @ [CHR 0x22] @ sponsor @ [CHR 0x22] @
               '' is not a valid account identifier.'')]
       else [])"

definition network_errors :: "fee_metadata \<Rightarrow> fee_context \<Rightarrow> fee_error list" where
  "network_errors m x = (case normalize (fs_network m) of
     None \<Rightarrow> [fee_err missing_network ''Fee-sponsorship metadata is missing a network.'']
   | Some network \<Rightarrow> if network \<noteq> fx_network x
       then [fee_err network_mismatch (''Fee-sponsorship network '' @ [CHR 0x22] @ network @ [CHR 0x22] @
               '' does not match wallet network '' @ [CHR 0x22] @ fx_network x @ [CHR 0x22] @ ''.'')]
       else [])"

definition asset_errors :: "fee_metadata \<Rightarrow> fee_context \<Rightarrow> fee_error list" where
  "asset_errors m x = (case normalize (fs_asset m) of
     None \<Rightarrow> [fee_err missing_asset ''Fee-sponsorship metadata is missing an asset.'']
   | Some asset \<Rightarrow> if asset \<noteq> fx_asset x
       then [fee_err asset_mismatch (''Fee-sponsorship asset '' @ [CHR 0x22] @ asset @ [CHR 0x22] @
               '' does not match expected asset '' @ [CHR 0x22] @ fx_asset x @ [CHR 0x22] @ ''.'')]
       else [])"

definition fee_errors :: "fee_metadata \<Rightarrow> fee_context \<Rightarrow> fee_error list" where
  "fee_errors m x = (case toBigInt (fs_maxFee m) of
     None \<Rightarrow> [fee_err (if fs_maxFee m = None then missing_max_fee else invalid_max_fee)
               ''Fee-sponsorship metadata must declare a positive integer maxFee.'']
   | Some maxFee \<Rightarrow>
       if maxFee \<le> 0
       then [fee_err invalid_max_fee ''Fee-sponsorship maxFee must be greater than zero.'']
       else if fx_maxFee x \<noteq> None
       then (case toBigInt (fx_maxFee x) of
           None \<Rightarrow> [fee_err invalid_max_fee ''Caller-provided maxFee ceiling is not a valid integer.'']
         | Some ceil \<Rightarrow> if ceil < maxFee
             then [fee_err max_fee_exceeded (''Fee-sponsorship maxFee '' @ int_dec maxFee @
                     '' exceeds allowed ceiling '' @ int_dec ceil @ ''.'')]
             else [])
       else [])"

definition expiry_errors :: "fee_metadata \<Rightarrow> fee_context \<Rightarrow> int \<Rightarrow> fee_error list" where
  "expiry_errors m x clock = (case fs_expiresAt m of
     None \<Rightarrow> []
   | Some expiresAt \<Rightarrow>
       (let now = (case fx_now x of Some t \<Rightarrow> t | None \<Rightarrow> js_int (clock div 1000))
        in if \<not> js_isFinite expiresAt \<or> js_le expiresAt now
           then [fee_err expired ''Fee-sponsorship metadata has expired.''] else []))"

definition validateFeeSponsorship :: "fee_metadata option \<Rightarrow> fee_context \<Rightarrow> int \<Rightarrow> fee_result" where
  "validateFeeSponsorship metadata x clock = (case metadata of
     None \<Rightarrow> \<lparr>fv_valid = False, fv_errors = [fee_err missing_metadata
       ''Fee-sponsorship metadata is required before requesting wallet authorization.'']\<rparr>
   | Some m \<Rightarrow>
       (let errors = sponsor_errors m @ network_errors m x @ asset_errors m x @ fee_errors m x @
                     expiry_errors m x clock
        in \<lparr>fv_valid = (errors = []), fv_errors = errors\<rparr>))"

definition assertValidFeeSponsorship :: "fee_metadata option \<Rightarrow> fee_context \<Rightarrow> int \<Rightarrow> string + unit" where
  "assertValidFeeSponsorship metadata x clock =
    (let result = validateFeeSponsorship metadata x clock
     in if \<not> fv_valid result
        then Inl (''Invalid fee-sponsorship metadata: '' @ join_with '' '' (map fv_message (fv_errors result)))
        else Inr ())"

section \<open>Lemmas\<close>

lemma sponsor_ok: "sponsor_errors m = [] \<longleftrightarrow> (\<exists>s. normalize (fs_sponsor m) = Some s \<and> SPONSOR_PATTERN s)"
  by (auto simp: sponsor_errors_def split: option.split)

lemma network_ok: "network_errors m x = [] \<longleftrightarrow> normalize (fs_network m) = Some (fx_network x)"
  by (auto simp: network_errors_def split: option.split)

lemma asset_ok: "asset_errors m x = [] \<longleftrightarrow> normalize (fs_asset m) = Some (fx_asset x)"
  by (auto simp: asset_errors_def split: option.split)

lemma fee_ok: "fee_errors m x = [] \<longleftrightarrow>
    (\<exists>n. toBigInt (fs_maxFee m) = Some n \<and> 0 < n \<and>
       (fx_maxFee x = None \<or> (\<exists>c. toBigInt (fx_maxFee x) = Some c \<and> n \<le> c)))"
  by (auto simp: fee_errors_def split: option.split)

definition fee_now :: "fee_context \<Rightarrow> int \<Rightarrow> js_number" where
  "fee_now x clock = (case fx_now x of Some t \<Rightarrow> t | None \<Rightarrow> js_int (clock div 1000))"

lemma expiry_ok: "expiry_errors m x clock = [] \<longleftrightarrow>
    (case fs_expiresAt m of None \<Rightarrow> True | Some t \<Rightarrow> js_isFinite t \<and> \<not> js_le t (fee_now x clock))"
  by (auto simp: expiry_errors_def fee_now_def Let_def split: option.split)

lemma toBigInt_amount: "toBigInt (Some (FString (nat_dec n))) = Some (int n)"
proof -
  have "list_all is_digit (nat_dec n)" "nat_dec n \<noteq> []" using nat_dec_digits by auto
  moreover from this have "is_int_text (nat_dec n)"
    by (cases "nat_dec n") (auto simp: is_int_text_def is_digit_def)
  ultimately show ?thesis by (simp add: toBigInt_def Let_def js_trim_digits js_BigInt_nat)
qed

section \<open>Properties\<close>

text \<open>
  Sponsorship metadata is valid exactly when the trimmed sponsor has the account pattern, network
  and asset are the wallet's, the fee is a positive integer within the caller's ceiling, and it has not
  expired; a decimal string is read as its number; and the guard throws exactly when it is not valid.
\<close>

theorem fee_sponsorship_valid:
  "(fv_valid (validateFeeSponsorship (Some m) x clock) \<longleftrightarrow>
     (\<exists>s. normalize (fs_sponsor m) = Some s \<and> SPONSOR_PATTERN s) \<and>
     normalize (fs_network m) = Some (fx_network x) \<and> normalize (fs_asset m) = Some (fx_asset x) \<and>
     (\<exists>n. toBigInt (fs_maxFee m) = Some n \<and> 0 < n \<and>
        (fx_maxFee x = None \<or> (\<exists>c. toBigInt (fx_maxFee x) = Some c \<and> n \<le> c))) \<and>
     (case fs_expiresAt m of None \<Rightarrow> True | Some t \<Rightarrow> js_isFinite t \<and> \<not> js_le t (fee_now x clock))) \<and>
   toBigInt (Some (FString (nat_dec k))) = Some (int k) \<and>
   (assertValidFeeSponsorship md x clock = Inr () \<longleftrightarrow> fv_valid (validateFeeSponsorship md x clock)) \<and>
   fv_valid (validateFeeSponsorship None x clock) = False"
  by (simp add: validateFeeSponsorship_def assertValidFeeSponsorship_def Let_def sponsor_ok network_ok asset_ok
      fee_ok expiry_ok toBigInt_amount del: Product_Type.unit_abs_eta_conv)

theorem fee_sponsorship_valid_witness:
  "fv_valid (validateFeeSponsorship
     (Some \<lparr>fs_sponsor = Some '' GAB1 '', fs_network = Some ''testnet'', fs_asset = Some ''native'',
        fs_maxFee = Some (FString (nat_dec 100)), fs_expiresAt = Some (Fin 60)\<rparr>)
     \<lparr>fx_network = ''testnet'', fx_asset = ''native'', fx_maxFee = Some (FBigInt 100), fx_now = None\<rparr> 59999)"
proof -
  have n: "normalize (Some '' GAB1 '') = Some ''GAB1''" "SPONSOR_PATTERN ''GAB1''"
    "normalize (Some ''testnet'') = Some ''testnet''" "normalize (Some ''native'') = Some ''native''"
    "toBigInt (Some (FBigInt 100)) = Some 100"
    by (code_simp)+
  show ?thesis
    using fee_sponsorship_valid [of "\<lparr>fs_sponsor = Some '' GAB1 '', fs_network = Some ''testnet'',
        fs_asset = Some ''native'', fs_maxFee = Some (FString (nat_dec 100)), fs_expiresAt = Some (Fin 60)\<rparr>"
        "\<lparr>fx_network = ''testnet'', fx_asset = ''native'', fx_maxFee = Some (FBigInt 100), fx_now = None\<rparr>"
        59999 100 None]
    by (simp add: n fee_now_def)
qed

end
