(* ===== verification/RedactUrl.thy ===== *)
theory RedactUrl
  imports Values
begin

text \<open>
  Redaction of endpoints (\<open>packages/rpc/src/redact-url.ts\<close>). Parsing and printing a URL is that of the class \<open>URL\<close> of
  the platform and is an argument; the parts the code reads and sets are the fields of a record. Setting a search
  parameter replaces the first one of its name and removes the others, as the URL standard says.
\<close>

section \<open>One endpoint\<close>

record url =
  url_username :: string
  url_password :: string
  url_searchParams :: "(string \<times> string) list"
  url_others :: string

record url_codec =
  url_parse :: "string \<Rightarrow> url option"
  url_print :: "url \<Rightarrow> string"

definition REDACTED :: string where
  "REDACTED = ''REDACTED''"

definition INVALID_URL_PLACEHOLDER :: string where
  "INVALID_URL_PLACEHOLDER = ''<invalid url>''"

definition SENSITIVE_PARAM_NAME :: "string \<Rightarrow> bool" where
  "SENSITIVE_PARAM_NAME name =
    list_ex (js_includes (js_toLowerCase name)) [''key'', ''token'', ''secret'', ''auth'', ''password'', ''signature'']"

fun params_set :: "string \<Rightarrow> string \<Rightarrow> (string \<times> string) list \<Rightarrow> (string \<times> string) list" where
  "params_set name x [] = [(name, x)]"
| "params_set name x (p # ps) =
    (if fst p = name then (name, x) # filter (\<lambda>q. fst q \<noteq> name) ps else p # params_set name x ps)"

definition redact_name :: "string \<Rightarrow> (string \<times> string) list \<Rightarrow> (string \<times> string) list" where
  "redact_name name ps = (if SENSITIVE_PARAM_NAME name then params_set name REDACTED ps else ps)"

definition redact_params :: "(string \<times> string) list \<Rightarrow> (string \<times> string) list" where
  "redact_params ps = fold redact_name (remdups (map fst ps)) ps"

definition redact_parts :: "url \<Rightarrow> url" where
  "redact_parts u = u\<lparr>url_username := if url_username u \<noteq> [] then REDACTED else [],
     url_password := if url_password u \<noteq> [] then REDACTED else [], url_searchParams := redact_params (url_searchParams u)\<rparr>"

definition redactRpcUrl :: "url_codec \<Rightarrow> string \<Rightarrow> string" where
  "redactRpcUrl c input = (case url_parse c input of None \<Rightarrow> INVALID_URL_PLACEHOLDER | Some u \<Rightarrow> url_print c (redact_parts u))"

definition redactRpcUrls :: "url_codec \<Rightarrow> string + string list \<Rightarrow> string + string list" where
  "redactRpcUrls c rpcUrl = map_sum (redactRpcUrl c) (map (redactRpcUrl c)) rpcUrl"

section \<open>Text\<close>

text \<open>A match of the expression: a scheme in any case, and the characters up to white space, a quote or a bracket.\<close>

definition url_char :: "char \<Rightarrow> bool" where
  "url_char c \<longleftrightarrow> \<not> is_ws c \<and> c \<notin> {CHR 0x27, CHR 0x22, CHR ''<'', CHR ''>''}"

definition scheme_length :: "string \<Rightarrow> nat option" where
  "scheme_length s = (if js_toLowerCase (take 7 s) = ''http://'' then Some 7
     else if js_toLowerCase (take 8 s) = ''https://'' then Some 8 else None)"

definition url_match :: "string \<Rightarrow> nat option" where
  "url_match s = (case scheme_length s of
     None \<Rightarrow> None
   | Some n \<Rightarrow> (let k = length (takeWhile url_char (drop n s)) in if k = 0 then None else Some (n + k)))"

lemma url_match_pos: "url_match s = Some n \<Longrightarrow> 0 < n"
  by (auto simp: url_match_def scheme_length_def Let_def split: option.splits if_splits)

function redactUrlsInText :: "url_codec \<Rightarrow> string \<Rightarrow> string" where
  "redactUrlsInText c [] = []"
| "redactUrlsInText c (x # xs) = (case url_match (x # xs) of
     None \<Rightarrow> x # redactUrlsInText c xs
   | Some n \<Rightarrow> redactRpcUrl c (take n (x # xs)) @ redactUrlsInText c (drop n (x # xs)))"
  by pat_completeness auto
termination by (relation "measure (\<lambda>(c, s). length s)") (auto dest: url_match_pos)

section \<open>Lemmas\<close>

lemma params_set_names: "name \<in> fst ` set ps \<Longrightarrow> fst ` set (params_set name x ps) = fst ` set ps"
proof (induction ps)
  case (Cons p ps)
  then show ?case by (cases "fst p = name") (auto simp: image_iff)
qed simp

lemma params_set_values:
  "q \<in> set (params_set name x ps) \<Longrightarrow> (fst q = name \<and> snd q = x) \<or> (q \<in> set ps \<and> fst q \<noteq> name)"
  by (induction ps) (auto split: if_splits)

lemma params_set_others: "\<not> P name \<Longrightarrow> filter (\<lambda>q. P (fst q)) (params_set name x ps) = filter (\<lambda>q. P (fst q)) ps"
proof (induction ps)
  case (Cons p ps)
  have "filter (\<lambda>q. P (fst q)) (filter (\<lambda>q. fst q \<noteq> name) ps) = filter (\<lambda>q. P (fst q)) ps"
    using Cons.prems by (auto simp: intro!: filter_cong)
  then show ?case using Cons by auto
qed simp

lemma redact_fold:
  "set names \<subseteq> fst ` set ps \<Longrightarrow> fst ` set (fold redact_name names ps) = fst ` set ps \<and>
    filter (\<lambda>q. \<not> SENSITIVE_PARAM_NAME (fst q)) (fold redact_name names ps) = filter (\<lambda>q. \<not> SENSITIVE_PARAM_NAME (fst q)) ps \<and>
    (\<forall>q \<in> set (fold redact_name names ps). SENSITIVE_PARAM_NAME (fst q) \<longrightarrow> fst q \<in> set names \<longrightarrow> snd q = REDACTED)"
proof (induction names rule: rev_induct)
  case (snoc name names)
  define qs where "qs = fold redact_name names ps"
  have IH: "fst ` set qs = fst ` set ps" "filter (\<lambda>q. \<not> SENSITIVE_PARAM_NAME (fst q)) qs = filter (\<lambda>q. \<not> SENSITIVE_PARAM_NAME (fst q)) ps"
    "\<And>q. q \<in> set qs \<Longrightarrow> SENSITIVE_PARAM_NAME (fst q) \<Longrightarrow> fst q \<in> set names \<Longrightarrow> snd q = REDACTED"
    using snoc by (auto simp: qs_def)
  have step: "fold redact_name (names @ [name]) ps = redact_name name qs" by (simp add: qs_def)
  show ?case
  proof (cases "SENSITIVE_PARAM_NAME name")
    case True
    have "name \<in> fst ` set qs" using snoc.prems IH(1) by auto
    then have names: "fst ` set (params_set name REDACTED qs) = fst ` set ps" using IH(1) by (simp add: params_set_names)
    have others: "filter (\<lambda>q. \<not> SENSITIVE_PARAM_NAME (fst q)) (params_set name REDACTED qs) = filter (\<lambda>q. \<not> SENSITIVE_PARAM_NAME (fst q)) ps"
      using True IH(2) params_set_others [of "\<lambda>n. \<not> SENSITIVE_PARAM_NAME n" name] by simp
    have "snd q = REDACTED" if "q \<in> set (params_set name REDACTED qs)" "SENSITIVE_PARAM_NAME (fst q)" "fst q \<in> set (names @ [name])" for q
      using params_set_values [OF that(1)] that(2,3) IH(3) [of q] by auto
    moreover have "redact_name name qs = params_set name REDACTED qs" using True by (simp add: redact_name_def)
    ultimately show ?thesis using names others unfolding step by metis
  next
    case False
    then have "snd q = REDACTED" if "q \<in> set qs" "SENSITIVE_PARAM_NAME (fst q)" "fst q \<in> set (names @ [name])" for q
      using that IH(3) [of q] by auto
    moreover have "redact_name name qs = qs" using False by (simp add: redact_name_def)
    ultimately show ?thesis using IH(1,2) unfolding step by metis
  qed
qed simp

lemma redacted_params:
  "fst ` set (redact_params ps) = fst ` set ps"
  "filter (\<lambda>q. \<not> SENSITIVE_PARAM_NAME (fst q)) (redact_params ps) = filter (\<lambda>q. \<not> SENSITIVE_PARAM_NAME (fst q)) ps"
  "q \<in> set (redact_params ps) \<Longrightarrow> SENSITIVE_PARAM_NAME (fst q) \<Longrightarrow> snd q = REDACTED"
proof -
  have "set (remdups (map fst ps)) \<subseteq> fst ` set ps" by auto
  note all = redact_fold [OF this, folded redact_params_def]
  then show "fst ` set (redact_params ps) = fst ` set ps"
    and "filter (\<lambda>q. \<not> SENSITIVE_PARAM_NAME (fst q)) (redact_params ps) = filter (\<lambda>q. \<not> SENSITIVE_PARAM_NAME (fst q)) ps" by auto
  assume q: "q \<in> set (redact_params ps)" "SENSITIVE_PARAM_NAME (fst q)"
  then have "fst q \<in> fst ` set ps" using all by blast
  then show "snd q = REDACTED" using all q by auto
qed

text \<open>Text before a match is kept, a match is redacted, and the search goes on after it.\<close>

definition no_match :: "string \<Rightarrow> string \<Rightarrow> bool" where
  "no_match p s \<longleftrightarrow> (\<forall>i < length p. url_match (drop i p @ s) = None)"

lemma redact_after: "no_match p s \<Longrightarrow> redactUrlsInText c (p @ s) = p @ redactUrlsInText c s"
proof (induction p)
  case (Cons x p)
  then have "url_match (x # p @ s) = None" and "no_match p s" by (force simp: no_match_def)+
  then show ?case using Cons by simp
qed simp

section \<open>Properties\<close>

text \<open>
  C39: of an endpoint that parses, what is printed has neither user name nor password nor the value of a parameter with a
  sensitive name, the rest of it is as it was, and the other parameters keep their values and order; what does not
  parse is not shown at all. In a text every URL is replaced so, and everything else kept.
\<close>

theorem redaction_hides_credentials:
  "(case url_parse c input of
      None \<Rightarrow> redactRpcUrl c input = INVALID_URL_PLACEHOLDER
    | Some u \<Rightarrow> \<exists>r. redactRpcUrl c input = url_print c r \<and> url_username r \<in> {[], REDACTED} \<and> url_password r \<in> {[], REDACTED} \<and>
        (\<forall>q \<in> set (url_searchParams r). SENSITIVE_PARAM_NAME (fst q) \<longrightarrow> snd q = REDACTED) \<and>
        filter (\<lambda>q. \<not> SENSITIVE_PARAM_NAME (fst q)) (url_searchParams r) =
          filter (\<lambda>q. \<not> SENSITIVE_PARAM_NAME (fst q)) (url_searchParams u) \<and>
        fst ` set (url_searchParams r) = fst ` set (url_searchParams u) \<and> url_others r = url_others u) \<and>
   (no_match p s \<longrightarrow> redactUrlsInText c (p @ s) = p @ (case url_match s of
      None \<Rightarrow> redactUrlsInText c s | Some n \<Rightarrow> redactRpcUrl c (take n s) @ redactUrlsInText c (drop n s)))"
proof
  show "case url_parse c input of
      None \<Rightarrow> redactRpcUrl c input = INVALID_URL_PLACEHOLDER
    | Some u \<Rightarrow> \<exists>r. redactRpcUrl c input = url_print c r \<and> url_username r \<in> {[], REDACTED} \<and> url_password r \<in> {[], REDACTED} \<and>
        (\<forall>q \<in> set (url_searchParams r). SENSITIVE_PARAM_NAME (fst q) \<longrightarrow> snd q = REDACTED) \<and>
        filter (\<lambda>q. \<not> SENSITIVE_PARAM_NAME (fst q)) (url_searchParams r) =
          filter (\<lambda>q. \<not> SENSITIVE_PARAM_NAME (fst q)) (url_searchParams u) \<and>
        fst ` set (url_searchParams r) = fst ` set (url_searchParams u) \<and> url_others r = url_others u"
  proof (cases "url_parse c input")
    case (Some u)
    have "redactRpcUrl c input = url_print c (redact_parts u)" by (simp add: redactRpcUrl_def Some)
    moreover have params: "url_searchParams (redact_parts u) = redact_params (url_searchParams u)"
      and "url_username (redact_parts u) \<in> {[], REDACTED}" and "url_password (redact_parts u) \<in> {[], REDACTED}"
      and "url_others (redact_parts u) = url_others u" by (simp_all add: redact_parts_def)
    moreover have "\<forall>q \<in> set (url_searchParams (redact_parts u)). SENSITIVE_PARAM_NAME (fst q) \<longrightarrow> snd q = REDACTED"
      using redacted_params(3) by (simp only: params) blast
    ultimately show ?thesis using redacted_params(1,2) by (simp only: Some option.case) metis
  qed (simp add: redactRpcUrl_def)
  show "no_match p s \<longrightarrow> redactUrlsInText c (p @ s) = p @ (case url_match s of
      None \<Rightarrow> redactUrlsInText c s | Some n \<Rightarrow> redactRpcUrl c (take n s) @ redactUrlsInText c (drop n s))"
  proof
    assume "no_match p s"
    then have "redactUrlsInText c (p @ s) = p @ redactUrlsInText c s" by (rule redact_after)
    moreover have "redactUrlsInText c s = (case url_match s of
        None \<Rightarrow> redactUrlsInText c s | Some n \<Rightarrow> redactRpcUrl c (take n s) @ redactUrlsInText c (drop n s))"
      by (cases s) (auto simp: url_match_def scheme_length_def split: option.split)
    ultimately show "redactUrlsInText c (p @ s) = p @ (case url_match s of
        None \<Rightarrow> redactUrlsInText c s | Some n \<Rightarrow> redactRpcUrl c (take n s) @ redactUrlsInText c (drop n s))" by simp
  qed
qed

text \<open>A codec of two endpoints, one with a secret in its path, which the redaction does not look at.\<close>

definition sample_url_codec :: url_codec where
  "sample_url_codec = \<lparr>url_parse = (\<lambda>s. if s = ''http://rpc?api_key=7'' then Some \<lparr>url_username = [], url_password = [],
       url_searchParams = [(''api_key'', ''7'')], url_others = ''http://rpc''\<rparr> else None),
     url_print = (\<lambda>u. url_others u @ concat (map (\<lambda>(k, x). CHR ''?'' # k @ ''='' @ x) (url_searchParams u)))\<rparr>"

theorem redaction_hides_credentials_witness:
  "redactUrlsInText sample_url_codec ''to http://rpc?api_key=7 x'' = ''to '' @ redactRpcUrl sample_url_codec ''http://rpc?api_key=7'' @ redactUrlsInText sample_url_codec '' x''"
proof -
  have none: "no_match ''to '' ''http://rpc?api_key=7 x''"
    by (auto simp: no_match_def url_match_def scheme_length_def less_Suc_eq numeral_2_eq_2 js_toLowerCase_def lower_char_def Let_def)
  have some: "url_match ''http://rpc?api_key=7 x'' = Some 20" by code_simp
  show ?thesis using redaction_hides_credentials [of sample_url_codec "[]" "''to ''" "''http://rpc?api_key=7 x''"] none some
    by simp
qed

end
