(* ===== verification/WsProbe.thy ===== *)
theory WsProbe
  imports Prelude
begin

text \<open>
  Two private helpers that \<open>packages/core/src/soroban-resurrect.ts\<close> and \<open>packages/sdk/src/soroban-resurrect.ts\<close> share:
  the probe that tells whether a WebSocket can be opened, as a race of the socket with a timer, and the copying of
  signatures of a fee bump transaction, which neither client calls. Signatures are objects and compared by identity.
\<close>

section \<open>The probe\<close>

record ws_probe =
  wp_settled :: bool
  wp_timer :: bool
  wp_closes :: nat
  wp_answers :: "bool list"

datatype probe_outcome = WsOpen | WsError | WsTimeout

text \<open>\<open>constructed\<close>: \<open>new WebSocket\<close> did not throw. Only an armed timer fires; the socket may open and fail at any time.\<close>

definition probe_start :: "bool \<Rightarrow> ws_probe" where
  "probe_start constructed = (if \<not> constructed then \<lparr>wp_settled = False, wp_timer = False, wp_closes = 0, wp_answers = [False]\<rparr>
     else \<lparr>wp_settled = False, wp_timer = True, wp_closes = 0, wp_answers = []\<rparr>)"

definition probe_settle :: "bool \<Rightarrow> ws_probe \<Rightarrow> ws_probe" where
  "probe_settle result s = (if wp_settled s then s
     else s\<lparr>wp_settled := True, wp_timer := False, wp_closes := wp_closes s + 1, wp_answers := wp_answers s @ [result]\<rparr>)"

definition probe_event :: "probe_outcome \<Rightarrow> ws_probe \<Rightarrow> ws_probe" where
  "probe_event e s = (case e of
     WsOpen \<Rightarrow> probe_settle True s
   | WsError \<Rightarrow> probe_settle False s
   | WsTimeout \<Rightarrow> if wp_timer s then probe_settle False s else s)"

definition probeWebSocketSupport :: "bool \<Rightarrow> probe_outcome list \<Rightarrow> ws_probe" where
  "probeWebSocketSupport constructed events =
    (if constructed then fold probe_event events (probe_start True) else probe_start False)"

section \<open>Signatures\<close>

text \<open>\<open>None\<close> is a transaction without a list of signatures.\<close>

definition add_signature :: "nat \<Rightarrow> nat list \<Rightarrow> nat list" where
  "add_signature sig sigs = (if List.member sigs sig then sigs else sigs @ [sig])"

definition preserveFeeBumpSignatures :: "bool \<Rightarrow> nat list option \<Rightarrow> nat list option \<Rightarrow> nat list option" where
  "preserveFeeBumpSignatures feeBump originalSignatures newSignatures =
    (if \<not> feeBump then newSignatures
     else case newSignatures of
         None \<Rightarrow> None
       | Some sigs \<Rightarrow> Some (fold add_signature
           (case originalSignatures of None \<Rightarrow> [] | Some os \<Rightarrow> os) sigs))"

section \<open>Properties\<close>

lemma probe_settled_stays: "wp_settled s \<Longrightarrow> \<not> wp_timer s \<Longrightarrow> fold probe_event es s = s"
  by (induction es) (auto simp: probe_event_def probe_settle_def split: probe_outcome.split)

text \<open>
  The probe answers at most once, and with its first event: whether the socket opened. Until then the timer is armed,
  so an answer comes; afterwards it is not, and the socket was closed exactly once. Where no socket can be made the
  answer is no, at once.
\<close>

theorem probe_answers_once:
  "probeWebSocketSupport constructed es =
    (if \<not> constructed then \<lparr>wp_settled = False, wp_timer = False, wp_closes = 0, wp_answers = [False]\<rparr>
     else case es of
         [] \<Rightarrow> \<lparr>wp_settled = False, wp_timer = True, wp_closes = 0, wp_answers = []\<rparr>
       | e # rest \<Rightarrow> \<lparr>wp_settled = True, wp_timer = False, wp_closes = 1, wp_answers = [e = WsOpen]\<rparr>)"
proof (cases es)
  case (Cons e rest)
  have "probe_event e (probe_start True) = \<lparr>wp_settled = True, wp_timer = False, wp_closes = 1, wp_answers = [e = WsOpen]\<rparr>"
    by (cases e) (simp_all add: probe_event_def probe_settle_def probe_start_def)
  then show ?thesis using Cons by (simp add: probeWebSocketSupport_def probe_start_def probe_settled_stays)
qed (simp add: probeWebSocketSupport_def probe_start_def)

lemma push_missing: "distinct acc \<Longrightarrow> set (fold add_signature os acc) = set acc \<union> set os \<and>
    distinct (fold add_signature os acc) \<and> take (length acc) (fold add_signature os acc) = acc"
proof (induction os arbitrary: acc)
  case (Cons x os)
  let ?all = "fold add_signature os (add_signature x acc)"
  have IH: "set ?all = set (add_signature x acc) \<union> set os \<and> distinct ?all \<and> take (length (add_signature x acc)) ?all = add_signature x acc"
    using Cons.prems by (intro Cons.IH) (simp add: add_signature_def)
  have "take (length acc) ?all = take (length acc) (take (length (add_signature x acc)) ?all)"
    by (simp add: add_signature_def)
  also have "\<dots> = take (length acc) (add_signature x acc)" using IH by simp
  also have "\<dots> = acc" by (simp add: add_signature_def)
  finally have "take (length acc) ?all = acc" .
  moreover have "set (add_signature x acc) = insert x (set acc)" by (auto simp: add_signature_def)
  ultimately show ?case using IH by simp
qed simp

text \<open>The new transaction keeps its signatures first and gets each of the others once.\<close>

theorem signatures_preserved:
  assumes "distinct new"
  shows "\<exists>more. preserveFeeBumpSignatures True (Some old) (Some new) = Some (new @ more) \<and> distinct (new @ more) \<and>
    set (new @ more) = set new \<union> set old"
proof -
  obtain all where all: "preserveFeeBumpSignatures True (Some old) (Some new) = Some all" "take (length new) all = new"
    "set all = set new \<union> set old" "distinct all"
    using push_missing [OF assms, of old] by (simp add: preserveFeeBumpSignatures_def)
  then have "all = new @ drop (length new) all" by (metis append_take_drop_id)
  then show ?thesis using all by metis
qed

end
