(* ===== verification/Utils.thy ===== *)
theory Utils
  imports Values
begin

text \<open>
  Helpers of the packages: polling (\<open>packages/utils/src/polling.ts\<close>), the warnings about deprecated functions
  (\<open>packages/utils/src/deprecate.ts\<close>) and the diagnosis of base64 text
  (\<open>packages/rpc/src/xdr-diagnostics.ts\<close>).
\<close>

section \<open>Polling\<close>

text \<open>
  \<open>po_condition\<close> is what the condition does at an attempt: it throws, or answers with a value or with
  \<open>null\<close>; \<open>po_aborted n\<close> is the abort flag at its \<open>n\<close>-th inspection, \<open>po_random\<close> what \<open>Math.random\<close> gives
  before an attempt is waited for. The run records the attempts made and the delays.
\<close>

record 'a poll_options =
  po_intervalMs :: "int option"
  po_maxAttempts :: "int option"
  po_jitterMs :: "int option"
  po_condition :: "nat \<Rightarrow> string + 'a option"
  po_aborted :: "nat \<Rightarrow> bool"
  po_random :: "nat \<Rightarrow> rat"

datatype 'a poll_result = Polled 'a | PollingAborted | PollingExhausted int "string option"

definition or_default :: "int option \<Rightarrow> int \<Rightarrow> int" where
  "or_default x d = (case x of None \<Rightarrow> d | Some n \<Rightarrow> if n = 0 then d else n)"

definition nextDelay :: "int \<Rightarrow> int option \<Rightarrow> rat \<Rightarrow> int" where
  "nextDelay intervalMs jitterMs random = (case jitterMs of
     None \<Rightarrow> intervalMs
   | Some j \<Rightarrow> if j \<le> 0 then intervalMs else intervalMs + \<lfloor>random * of_int j\<rfloor>)"

text \<open>The attempts from number \<open>attempt\<close> on, \<open>n\<close> of them still allowed; \<open>lastError\<close> is what was thrown last.\<close>

fun poll_from :: "'a poll_options \<Rightarrow> nat \<Rightarrow> nat \<Rightarrow> string option \<Rightarrow> 'a poll_result \<times> nat list \<times> int list" where
  "poll_from w attempt 0 lastError = (PollingExhausted (or_default (po_maxAttempts w) 30) lastError, [], [])"
| "poll_from w attempt (Suc n) lastError =
    (if po_aborted w (2 * attempt) then (PollingAborted, [], [])
     else let answer = po_condition w attempt;
              thrown = (case answer of Inl e \<Rightarrow> Some e | Inr r \<Rightarrow> lastError)
          in if po_aborted w (2 * attempt + 1) then (PollingAborted, [attempt], [])
             else case answer of
                 Inr (Some result) \<Rightarrow> (Polled result, [attempt], [])
               | _ \<Rightarrow> (let waits = (if n = 0 then []
                            else [nextDelay (or_default (po_intervalMs w) 1000) (po_jitterMs w) (po_random w attempt)]);
                         (r, tried, ds) = poll_from w (attempt + 1) n thrown
                      in (r, attempt # tried, waits @ ds)))"

definition pollWithRetry :: "'a poll_options \<Rightarrow> 'a poll_result \<times> nat list \<times> int list" where
  "pollWithRetry w = poll_from w 1 (nat (or_default (po_maxAttempts w) 30)) None"

section \<open>Deprecation\<close>

text \<open>The state is the set of warned items, in order, and what the console printed; the console is there.\<close>

record deprecations =
  dp_warnedItems :: "string list"
  dp_console :: "string list"

definition deprecate :: "string \<Rightarrow> string \<Rightarrow> deprecations \<Rightarrow> deprecations" where
  "deprecate message version s =
    (let key = message @ '':'' @ version
     in if List.member (dp_warnedItems s) key then s
        else s\<lparr>dp_warnedItems := dp_warnedItems s @ [key],
               dp_console := dp_console s @ [''[DEPRECATION WARNING] '' @ message @ ''. This will be removed in '' @ version @ ''.'']\<rparr>)"

definition clearDeprecationCache :: "deprecations \<Rightarrow> deprecations" where
  "clearDeprecationCache s = s\<lparr>dp_warnedItems := []\<rparr>"

text \<open>A wrapped function: whether it has warned, and the state after the calls.\<close>

definition deprecateFn_call :: "string \<Rightarrow> string \<Rightarrow> bool \<times> deprecations \<Rightarrow> bool \<times> deprecations" where
  "deprecateFn_call message version = (\<lambda>(hasWarned, s). (True, if hasWarned then s else deprecate message version s))"

lemma deprecate_twice: "deprecate m v (deprecate m v s) = deprecate m v s"
  by (simp add: deprecate_def Let_def)

lemma deprecate_distinct: "distinct (dp_warnedItems s) \<Longrightarrow> distinct (dp_warnedItems (deprecate m v s))"
  by (simp add: deprecate_def Let_def)

section \<open>Base64 text\<close>

record encoding_diagnostic =
  xd_valid :: bool
  xd_inputLength :: nat
  xd_decodedByteLength :: "nat option"
  xd_invalidCharIndex :: "nat option"
  xd_invalidByteOffset :: "nat option"
  xd_problem :: "string option"

definition BASE64_CHAR :: "char \<Rightarrow> bool" where
  "BASE64_CHAR c = (let n = (of_char c :: nat)
     in (65 \<le> n \<and> n \<le> 90) \<or> (97 \<le> n \<and> n \<le> 122) \<or> (48 \<le> n \<and> n \<le> 57) \<or> n = 43 \<or> n = 47)"

definition paddingStart :: "string \<Rightarrow> nat" where
  "paddingStart s = (if js_endsWith s ''=='' then length s - 2 else if js_endsWith s ''='' then length s - 1 else length s)"

definition allowed_at :: "string \<Rightarrow> nat \<Rightarrow> bool" where
  "allowed_at s i = (if i < paddingStart s then BASE64_CHAR (s ! i) else s ! i = CHR ''='')"

definition describeXdrEncoding :: "string \<Rightarrow> encoding_diagnostic" where
  "describeXdrEncoding s =
    (let n = length s;
         failed = (\<lambda>i offset problem. \<lparr>xd_valid = False, xd_inputLength = n, xd_decodedByteLength = None,
            xd_invalidCharIndex = i, xd_invalidByteOffset = offset, xd_problem = Some problem\<rparr>)
     in if n = 0 then failed None None ''empty input''
        else case find (\<lambda>i. \<not> allowed_at s i) [0..<n] of
            Some i \<Rightarrow> failed (Some i) (Some (i * 3 div 4)) (''invalid base64 character at index '' @ nat_dec i)
          | None \<Rightarrow>
              if n mod 4 \<noteq> 0
              then failed None (Some (n * 3 div 4))
                     (''truncated input: length '' @ nat_dec n @ '' is not a multiple of 4'')
              else \<lparr>xd_valid = True, xd_inputLength = n, xd_decodedByteLength = Some (n * 3 div 4 - (n - paddingStart s)),
                     xd_invalidCharIndex = None, xd_invalidByteOffset = None, xd_problem = None\<rparr>)"

text \<open>A reference: whole groups of four characters, the last one of them with up to two padding characters.\<close>

fun base64_groups :: "string \<Rightarrow> nat option" where
  "base64_groups [] = Some 0"
| "base64_groups [a, b, c, d] =
    (if BASE64_CHAR a \<and> BASE64_CHAR b \<and> BASE64_CHAR c \<and> BASE64_CHAR d then Some 3
     else if BASE64_CHAR a \<and> BASE64_CHAR b \<and> BASE64_CHAR c \<and> d = CHR ''='' then Some 2
     else if BASE64_CHAR a \<and> BASE64_CHAR b \<and> c = CHR ''='' \<and> d = CHR ''='' then Some 1 else None)"
| "base64_groups (a # b # c # d # s) =
    (if BASE64_CHAR a \<and> BASE64_CHAR b \<and> BASE64_CHAR c \<and> BASE64_CHAR d then map_option ((+) 3) (base64_groups s) else None)"
| "base64_groups s = None"


section \<open>Lemmas\<close>

lemma endsWith_app: "length t \<le> length ys \<Longrightarrow> js_endsWith (xs @ ys) t = js_endsWith ys t"
  by (simp add: js_endsWith_def)

lemma paddingStart_app: "2 \<le> length ys \<Longrightarrow> paddingStart (xs @ ys) = length xs + paddingStart ys"
  by (simp add: paddingStart_def endsWith_app)

lemma paddingStart_le: "paddingStart s \<le> length s"
  by (simp add: paddingStart_def)

definition all_allowed :: "string \<Rightarrow> bool" where
  "all_allowed s \<longleftrightarrow> (\<forall>i < length s. allowed_at s i)"

lemma all_allowed_app:
  assumes "2 \<le> length ys"
  shows "all_allowed (xs @ ys) \<longleftrightarrow> list_all BASE64_CHAR xs \<and> all_allowed ys"
proof -
  have "allowed_at (xs @ ys) (length xs + i) = allowed_at ys i" for i
    using assms by (simp add: allowed_at_def paddingStart_app)
  moreover have "i < length xs \<Longrightarrow> allowed_at (xs @ ys) i = BASE64_CHAR (xs ! i)" for i
    using assms by (simp add: allowed_at_def paddingStart_app nth_append)
  ultimately show ?thesis
    by (auto simp: all_allowed_def list_all_length nat_add_left_cancel_less)
      (metis add_less_cancel_left, metis add_diff_inverse_nat nat_add_left_cancel_less)
qed


lemma padding_char: "\<not> BASE64_CHAR (CHR ''='')"
  by (simp add: BASE64_CHAR_def)

lemma paddingStart_four:
  "paddingStart [a, b, c, d] = (if c = CHR ''='' \<and> d = CHR ''='' then 2 else if d = CHR ''='' then 3 else 4)"
  by (simp add: paddingStart_def js_endsWith_def numeral_eq_Suc)

lemma all_allowed_four: "all_allowed [a, b, c, d] \<longleftrightarrow> BASE64_CHAR a \<and> BASE64_CHAR b \<and>
    (BASE64_CHAR c \<and> (BASE64_CHAR d \<or> d = CHR ''='') \<or> c = CHR ''='' \<and> d = CHR ''='')"
proof -
  have "all_allowed [a, b, c, d] \<longleftrightarrow> allowed_at [a, b, c, d] 0 \<and> allowed_at [a, b, c, d] 1 \<and> allowed_at [a, b, c, d] 2 \<and>
      allowed_at [a, b, c, d] 3"
    by (simp add: all_allowed_def numeral_eq_Suc All_less_Suc conj_ac)
  then have "all_allowed [a, b, c, d] \<longleftrightarrow> BASE64_CHAR a \<and> BASE64_CHAR b \<and>
      (if 2 < paddingStart [a, b, c, d] then BASE64_CHAR c else c = CHR ''='') \<and>
      (if 3 < paddingStart [a, b, c, d] then BASE64_CHAR d else d = CHR ''='')"
    by (simp add: allowed_at_def paddingStart_four)
  then show ?thesis using padding_char by (simp add: paddingStart_four)
qed

lemma add_group: "4 \<le> n \<Longrightarrow> p \<le> 2 \<Longrightarrow> (4 + n) * 3 div 4 - p = 3 + (n * 3 div 4 - p)" for n p :: nat
proof -
  assume "4 \<le> n" "p \<le> 2"
  have "(4 + n) * 3 = 3 * 4 + n * 3" by simp
  then have "(4 + n) * 3 div 4 = 3 + n * 3 div 4" by (simp only: div_mult_self3)
  moreover have "3 \<le> n * 3 div 4" using \<open>4 \<le> n\<close> by (simp add: less_eq_div_iff_mult_less_eq)
  ultimately show ?thesis using \<open>p \<le> 2\<close> by linarith
qed

lemma groups_decide:
  "length s mod 4 = 0 \<Longrightarrow> s \<noteq> [] \<Longrightarrow> base64_groups s =
     (if all_allowed s then Some (length s * 3 div 4 - (length s - paddingStart s)) else None)"
proof (induction s rule: base64_groups.induct)
  case (2 a b c d)
  then show ?case by (auto simp: all_allowed_four paddingStart_four padding_char)
next
  case (3 a b c d v vs)
  let ?s = "v # vs"
  have "length (a # b # c # d # ?s) = 4 + length ?s" by simp
  then have len: "length ?s mod 4 = 0" using 3(2) by (metis mod_add_self1)
  have "0 < length ?s" by simp
  with len have four: "4 \<le> length ?s" by presburger
  then have long: "2 \<le> length ?s" by linarith
  have app: "a # b # c # d # ?s = [a, b, c, d] @ ?s" by simp
  have short: "length ?s - paddingStart ?s \<le> 2" by (simp add: paddingStart_def) linarith
  have "(4 + length ?s) * 3 div 4 - (4 + length ?s - (4 + paddingStart ?s)) =
      3 + (length ?s * 3 div 4 - (length ?s - paddingStart ?s))"
    using add_group [OF four short] by simp
  then show ?case
    using 3(1) len long all_allowed_app [OF long, of "[a, b, c, d]"] paddingStart_app [OF long, of "[a, b, c, d]"]
    by (simp only: app) auto
qed simp_all

lemma find_first: "find P [0..<n] = Some i \<longleftrightarrow> i < n \<and> P i \<and> (\<forall>j < i. \<not> P j)"
  by (auto simp: find_Some_iff)

lemma find_all: "find P [0..<n] = None \<longleftrightarrow> (\<forall>i < n. \<not> P i)"
  by (auto simp: find_None_iff)

section \<open>Properties\<close>

text \<open>
  The diagnosis calls a text valid exactly when it is a non-empty sequence of base64 groups, of which only the
  last is padded, and then gives the number of bytes they encode; otherwise it names the first character that
  cannot stand at its place, with the byte its bits fall in, or a length that is no multiple of four.
\<close>

theorem xdr_diagnosis_exact:
  "let r = describeXdrEncoding s
   in (xd_valid r \<longleftrightarrow> s \<noteq> [] \<and> length s mod 4 = 0 \<and> base64_groups s \<noteq> None) \<and>
      xd_decodedByteLength r = (if xd_valid r then base64_groups s else None) \<and>
      (case xd_invalidCharIndex r of
         Some i \<Rightarrow> i < length s \<and> \<not> allowed_at s i \<and> (\<forall>j < i. allowed_at s j) \<and>
           (\<exists>k. xd_invalidByteOffset r = Some k \<and> 8 * k \<le> 6 * i \<and> 6 * i < 8 * (k + 1))
       | None \<Rightarrow> xd_valid r \<or> s = [] \<or> length s mod 4 \<noteq> 0)"
proof (cases "find (\<lambda>i. \<not> allowed_at s i) [0..<length s]")
  case None
  then have "all_allowed s" by (simp add: find_all all_allowed_def)
  then show ?thesis using None groups_decide [of s]
    by (auto simp: describeXdrEncoding_def Let_def)
next
  case (Some i)
  then have i: "i < length s" "\<not> allowed_at s i" "\<forall>j < i. allowed_at s j" by (auto simp: find_first)
  then have "\<not> all_allowed s" by (auto simp: all_allowed_def)
  moreover have "8 * (i * 3 div 4) \<le> 6 * i" "6 * i < 8 * (i * 3 div 4 + 1)" by presburger+
  ultimately show ?thesis using Some i groups_decide [of s]
    by (cases "length s mod 4 = 0") (auto simp: describeXdrEncoding_def Let_def)
qed

theorem xdr_diagnosis_exact_witness:
  "xd_decodedByteLength (describeXdrEncoding ''QUI='') = Some 2 \<and> xd_invalidCharIndex (describeXdrEncoding ''Q=I='') = Some 1"
proof -
  have "xd_valid (describeXdrEncoding ''QUI='')"
    by (simp add: describeXdrEncoding_def Let_def upt_rec allowed_at_def paddingStart_def js_endsWith_def BASE64_CHAR_def)
  then have "xd_decodedByteLength (describeXdrEncoding ''QUI='') = base64_groups ''QUI=''"
    using xdr_diagnosis_exact [of "''QUI=''"] by (simp add: Let_def)
  moreover have "xd_invalidCharIndex (describeXdrEncoding ''Q=I='') = Some 1"
    by (simp add: describeXdrEncoding_def Let_def upt_rec allowed_at_def paddingStart_def js_endsWith_def BASE64_CHAR_def)
  ultimately show ?thesis by (simp add: BASE64_CHAR_def)
qed

text \<open>
  What a poll may give, by the attempts made: they have consecutive numbers, each but the first follows a delay, and
  none but the last was answered with a value.
\<close>

definition poll_answers :: "'a poll_options \<Rightarrow> nat \<Rightarrow> 'a option" where
  "poll_answers w i = (case po_condition w i of Inl e \<Rightarrow> None | Inr r \<Rightarrow> r)"

fun poll_ends :: "'a poll_options \<Rightarrow> nat \<Rightarrow> nat \<Rightarrow> nat \<Rightarrow> 'a poll_result \<Rightarrow> bool" where
  "poll_ends w first n k (Polled x) = (0 < k \<and> poll_answers w (first + k - 1) = Some x)"
| "poll_ends w first n k PollingAborted =
    (k < n \<and> po_aborted w (2 * (first + k)) \<or> 0 < k \<and> po_aborted w (2 * (first + k - 1) + 1))"
| "poll_ends w first n k (PollingExhausted m e) =
    (k = n \<and> m = or_default (po_maxAttempts w) 30 \<and> (0 < k \<longrightarrow> poll_answers w (first + k - 1) = None))"

definition poll_outcome :: "'a poll_options \<Rightarrow> nat \<Rightarrow> nat \<Rightarrow> 'a poll_result \<Rightarrow> nat list \<Rightarrow> int list \<Rightarrow> bool" where
  "poll_outcome w first n r tried ds \<longleftrightarrow> (\<exists>k \<le> n. tried = [first..<first + k] \<and> k \<le> length ds + 1 \<and> length ds \<le> k \<and>
     (0 < n \<longrightarrow> length ds < n) \<and> (\<forall>i. first \<le> i \<and> i + 1 < first + k \<longrightarrow> poll_answers w i = None) \<and>
     poll_ends w first n k r)"

lemma outcome_more:
  assumes "poll_answers w a = None" and "poll_outcome w (a + 1) n r tried ds" and "length ws = (if n = 0 then 0 else 1)"
  shows "poll_outcome w a (Suc n) r (a # tried) (ws @ ds)"
proof -
  obtain k where k: "k \<le> n" "tried = [a + 1..<a + 1 + k]" "k \<le> length ds + 1" "length ds \<le> k" "0 < n \<longrightarrow> length ds < n"
    and before: "\<forall>i. a + 1 \<le> i \<and> i + 1 < a + 1 + k \<longrightarrow> poll_answers w i = None" and ends: "poll_ends w (a + 1) n k r"
    using assms(2) unfolding poll_outcome_def by blast
  have tried: "a # tried = [a..<a + Suc k]" using k(2) by (simp add: upt_conv_Cons)
  have "poll_ends w a (Suc n) (Suc k) r" using ends assms(1) by (cases r; cases k) auto
  moreover have "\<forall>i. a \<le> i \<and> i + 1 < a + Suc k \<longrightarrow> poll_answers w i = None"
    using before assms(1) by (metis Suc_eq_plus1 Suc_leI add_Suc_right add_Suc_shift le_neq_implies_less)
  ultimately show ?thesis unfolding poll_outcome_def
    using k tried assms(3) by (intro exI [of _ "Suc k"]) auto
qed

lemma poll_from_outcome: "poll_from w a n e = (r, tried, ds) \<Longrightarrow> poll_outcome w a n r tried ds"
proof (induction n arbitrary: a e r tried ds)
  case 0
  then show ?case by (auto simp: poll_outcome_def)
next
  case (Suc n)
  consider "po_aborted w (2 * a)" | "\<not> po_aborted w (2 * a)" "po_aborted w (2 * a + 1)"
    | x where "\<not> po_aborted w (2 * a)" "\<not> po_aborted w (2 * a + 1)" "poll_answers w a = Some x"
    | "\<not> po_aborted w (2 * a)" "\<not> po_aborted w (2 * a + 1)" "poll_answers w a = None" by fastforce
  then show ?case
  proof cases
    case 1
    then show ?thesis using Suc.prems by (auto simp: poll_outcome_def)
  next
    case 2
    then show ?thesis using Suc.prems
      by (auto simp: poll_outcome_def Let_def intro!: exI [of _ "1::nat"])
  next
    case (3 x)
    then have "po_condition w a = Inr (Some x)" by (auto simp: poll_answers_def split: sum.splits)
    then show ?thesis using Suc.prems 3
      by (auto simp: poll_outcome_def Let_def intro!: exI [of _ "1::nat"])
  next
    case 4
    define thrown where "thrown = (case po_condition w a of Inl x \<Rightarrow> Some x | Inr y \<Rightarrow> e)"
    define ws where "ws = (if n = 0 then []
        else [nextDelay (or_default (po_intervalMs w) 1000) (po_jitterMs w) (po_random w a)])"
    obtain q tr es where rest: "poll_from w (a + 1) n thrown = (q, tr, es)" using prod_cases3 by blast
    have "poll_from w a (Suc n) e = (q, a # tr, ws @ es)"
      using 4 rest by (auto simp: poll_answers_def thrown_def ws_def Let_def split: sum.splits option.splits)
    then show ?thesis using Suc.prems outcome_more [OF 4(3) Suc.IH [OF rest], of ws] by (simp add: ws_def)
  qed
qed

text \<open>
  Polling makes at most the attempts it may, one after another with a delay between them and none after the
  last, returns the first answer that is a value, gives up only after all attempts failed, and is aborted only by
  the signal; with no jitter every delay is the interval, else it is less than the jitter longer.
\<close>

theorem polling_contract:
  assumes "pollWithRetry w = (r, tried, ds)"
  shows "poll_outcome w 1 (nat (or_default (po_maxAttempts w) 30)) r tried ds \<and>
    (0 \<le> q \<and> q < 1 \<and> 0 < j \<longrightarrow> i \<le> nextDelay i (Some j) q \<and> nextDelay i (Some j) q < i + j)"
proof
  show "poll_outcome w 1 (nat (or_default (po_maxAttempts w) 30)) r tried ds"
    using assms poll_from_outcome by (auto simp: pollWithRetry_def)
next
  show "0 \<le> q \<and> q < 1 \<and> 0 < j \<longrightarrow> i \<le> nextDelay i (Some j) q \<and> nextDelay i (Some j) q < i + j"
  proof
    assume q: "0 \<le> q \<and> q < 1 \<and> 0 < j"
    then have "0 \<le> q * of_int j" "q * of_int j < of_int j" by simp_all
    then show "i \<le> nextDelay i (Some j) q \<and> nextDelay i (Some j) q < i + j"
      using q by (simp add: nextDelay_def floor_less_iff)
  qed
qed

definition third_time :: "nat poll_options" where
  "third_time = \<lparr>po_intervalMs = Some 0, po_maxAttempts = Some 5, po_jitterMs = None,
     po_condition = (\<lambda>n. if n = 1 then Inl ''timeout'' else if n = 2 then Inr None else Inr (Some n)),
     po_aborted = (\<lambda>n. False), po_random = (\<lambda>n. 0)\<rparr>"

theorem polling_contract_witness:
  "pollWithRetry third_time = (Polled 3, [1, 2, 3], [1000, 1000]) \<and>
   poll_outcome third_time 1 5 (Polled 3) [1, 2, 3] [1000, 1000] \<and> nextDelay 100 (Some 10) (1 / 2) < 110"
proof -
  have run: "pollWithRetry third_time = (Polled 3, [1, 2, 3], [1000, 1000])"
    by (simp add: pollWithRetry_def third_time_def or_default_def nextDelay_def numeral_eq_Suc)
  show ?thesis using polling_contract [OF run, of "1 / 2" 10 100] run by (simp add: third_time_def or_default_def)
qed

end
