(* ===== verification/SdkFootprint.thy ===== *)
theory SdkFootprint
  imports Footprint
begin

text \<open>
  Ledger keys as the \<open>sdk\<close> package classifies them (\<open>packages/sdk/src/footprint-parser.ts\<close> and the key
  types of \<open>packages/sdk/src/types.ts\<close>), and its two footprint readers. It names more entry types than
  \<open>packages/footprint-parser\<close>, labels every symbol key as SAC metadata and lets the caller override
  priorities.
\<close>

section \<open>Classification\<close>

datatype sdk_key_type =
    SkContractInstance | SkContractData | SkContractCode | SkLiquidityPool | SkClaimableBalance
  | SkTtlEntry | SkUnknown

record sdk_key =
  kx_key :: ledger_key
  kx_keyBase64 :: string
  kx_keyType :: sdk_key_type
  kx_sacKeyType :: "sac_key_type option"
  kx_contractId :: "string option"
  kx_restorePriority :: nat

record sdk_classification =
  kc_keyType :: sdk_key_type
  kc_sacKeyType :: "sac_key_type option"
  kc_contractId :: "string option"
  kc_restorePriority :: nat

definition sdk_classifySacKey :: "scval \<Rightarrow> sac_key_type option" where
  "sdk_classifySacKey dataKey =
    (let typeVal = scv_switch dataKey
     in if typeVal = SCV_LEDGER_KEY_NONCE then Some SacNonce
        else if typeVal = SCV_LEDGER_KEY_CONTRACT_INSTANCE then None
        else case dataKey of
          ScSymbol sname \<Rightarrow> if sname = ''Admin'' then Some SacAdmin else Some SacMetadata
        | ScVec (Some (ScSymbol sname # rest)) \<Rightarrow>
            (if sname = ''Balance'' then Some SacBalance
             else if sname = ''Allowance'' then Some SacAllowance else None)
        | _ \<Rightarrow> None)"

fun sdk_classifyLedgerKey :: "ledger_key \<Rightarrow> sdk_classification" where
  "sdk_classifyLedgerKey (ContractData contractId dataKey) =
    (if scv_switch dataKey = SCV_LEDGER_KEY_CONTRACT_INSTANCE
     then \<lparr>kc_keyType = SkContractInstance, kc_sacKeyType = None, kc_contractId = contractId,
           kc_restorePriority = 0\<rparr>
     else \<lparr>kc_keyType = SkContractData, kc_sacKeyType = sdk_classifySacKey dataKey,
           kc_contractId = contractId, kc_restorePriority = 2\<rparr>)"
| "sdk_classifyLedgerKey (ContractCode h) =
    \<lparr>kc_keyType = SkContractCode, kc_sacKeyType = None, kc_contractId = Some h, kc_restorePriority = 1\<rparr>"
| "sdk_classifyLedgerKey (LiquidityPool x) =
    \<lparr>kc_keyType = SkLiquidityPool, kc_sacKeyType = None, kc_contractId = None, kc_restorePriority = 3\<rparr>"
| "sdk_classifyLedgerKey (ClaimableBalance x) =
    \<lparr>kc_keyType = SkClaimableBalance, kc_sacKeyType = None, kc_contractId = None, kc_restorePriority = 3\<rparr>"
| "sdk_classifyLedgerKey (Ttl h) =
    \<lparr>kc_keyType = SkTtlEntry, kc_sacKeyType = None, kc_contractId = None, kc_restorePriority = 3\<rparr>"
| "sdk_classifyLedgerKey (OtherKey x) =
    \<lparr>kc_keyType = SkUnknown, kc_sacKeyType = None, kc_contractId = None, kc_restorePriority = 3\<rparr>"

text \<open>The optional priority map is a function to options; without a map it is \<open>\<lambda>t. None\<close>.\<close>

type_synonym priority_map = "sdk_key_type \<Rightarrow> nat option"

definition final_priority :: "priority_map \<Rightarrow> sdk_classification \<Rightarrow> nat" where
  "final_priority pm c = (case pm (kc_keyType c) of Some p \<Rightarrow> p | None \<Rightarrow> kc_restorePriority c)"

definition sdk_classify_one :: "priority_map \<Rightarrow> deferred_key \<Rightarrow> sdk_key" where
  "sdk_classify_one pm d =
    (let c = sdk_classifyLedgerKey (fst d)
     in \<lparr>kx_key = fst d, kx_keyBase64 = snd d, kx_keyType = kc_keyType c, kx_sacKeyType = kc_sacKeyType c,
         kx_contractId = kc_contractId c, kx_restorePriority = final_priority pm c\<rparr>)"

definition sdk_classifyDeferredKeys :: "priority_map \<Rightarrow> deferred_key list \<Rightarrow> sdk_key list" where
  "sdk_classifyDeferredKeys pm deferred = sort_key kx_restorePriority (map (sdk_classify_one pm) deferred)"

definition sdk_extractKeysFromFootprint :: "ledger_key list \<times> ledger_key list \<Rightarrow> footprint_keys" where
  "sdk_extractKeysFromFootprint fp =
    \<lparr>fk_readOnly = fst fp, fk_readWrite = snd fp, fk_all = fst fp @ snd fp\<rparr>"

section \<open>Reading a footprint from an envelope\<close>

text \<open>
  What the XDR accessors return for an envelope. A transaction without Soroban data has no
  \<open>sorobanData\<close> arm, and reading it throws, as does reading an arm of another envelope type.
\<close>

type_synonym footprint = "ledger_key list \<times> ledger_key list"

datatype envelope = EnvV1 "footprint option" | EnvFeeBump "footprint option" | EnvOther

text \<open>\<open>parse\<close> is \<open>TransactionEnvelope.fromXDR\<close>.\<close>

definition extractFootprintFromTransactionStreaming ::
  "(string \<Rightarrow> envelope option) \<Rightarrow> string \<Rightarrow> footprint_keys option" where
  "extractFootprintFromTransactionStreaming parse txXDR =
    (case parse txXDR of
       None \<Rightarrow> None
     | Some envelope \<Rightarrow>
         (let sorobanData = (case envelope of
                EnvV1 (Some fp) \<Rightarrow> Some fp
              | EnvV1 None \<Rightarrow> None
              | EnvFeeBump (Some fp) \<Rightarrow> Some fp
              | EnvFeeBump None \<Rightarrow> None
              | EnvOther \<Rightarrow> None)
          in map_option sdk_extractKeysFromFootprint sorobanData))"

text \<open>
  \<open>fromXDR\<close> is \<open>TransactionBuilder.fromXDR\<close>: \<open>None\<close> when it throws, otherwise the value of the
  \<open>sorobanData\<close> property of the transaction object, \<open>None\<close> when there is no such property.
\<close>

definition extractFootprintFromTransaction ::
  "(string \<Rightarrow> footprint option option) \<Rightarrow> string \<Rightarrow> footprint_keys option" where
  "extractFootprintFromTransaction fromXDR txXDR =
    (case fromXDR txXDR of
       None \<Rightarrow> None
     | Some None \<Rightarrow> None
     | Some (Some fp) \<Rightarrow> Some (sdk_extractKeysFromFootprint fp))"

section \<open>Lemmas\<close>

lemma sdk_classify_one_sel [simp]:
  "kx_key (sdk_classify_one pm d) = fst d" "kx_keyBase64 (sdk_classify_one pm d) = snd d"
  by (simp_all add: sdk_classify_one_def Let_def)

lemma sdk_classifyDeferredKeys_keys:
  "mset (map (\<lambda>k. (kx_key k, kx_keyBase64 k)) (sdk_classifyDeferredKeys pm ds)) = mset ds"
  by (simp add: sdk_classifyDeferredKeys_def image_mset.compositionality comp_def)

lemma sdk_classifyDeferredKeys_length [simp]: "length (sdk_classifyDeferredKeys pm ds) = length ds"
  by (simp add: sdk_classifyDeferredKeys_def)

lemma sdk_classifyDeferredKeys_Nil [simp]: "sdk_classifyDeferredKeys pm ds = [] \<longleftrightarrow> ds = []"
  by (metis length_0_conv sdk_classifyDeferredKeys_length)

text \<open>
  Classifying twice, as the flows do, changes nothing when the priorities are the same: the sort is stable.
\<close>

lemma sdk_classify_twice:
  "sdk_classifyDeferredKeys pm (map (\<lambda>k. (kx_key k, kx_keyBase64 k)) (sdk_classifyDeferredKeys pm ds)) =
   sdk_classifyDeferredKeys pm ds"
proof -
  have re: "sdk_classify_one pm (kx_key (sdk_classify_one pm d), kx_keyBase64 (sdk_classify_one pm d)) =
      sdk_classify_one pm d" for d
    by simp
  have "map (sdk_classify_one pm) (map (\<lambda>k. (kx_key k, kx_keyBase64 k)) (sdk_classifyDeferredKeys pm ds)) =
      sdk_classifyDeferredKeys pm ds"
    using re by (auto simp: sdk_classifyDeferredKeys_def intro!: map_idI)
  then show ?thesis
    by (simp add: sdk_classifyDeferredKeys_def [of pm "map _ _"])
      (simp add: sdk_classifyDeferredKeys_def sort_key_id_if_sorted)
qed

end
