(* ===== verification/WasmParser.thy ===== *)
theory WasmParser
  imports SdkFootprint
begin

text \<open>
  The switch between the WebAssembly parser and the TypeScript one (\<open>packages/footprint-parser-wasm/src/index.ts\<close>): the
  lazy load of the module by concurrent calls of \<open>initWasm\<close>, and the fallbacks. The module that \<open>wasm-pack\<close> builds and
  the XDR decoders are arguments; what the module returns is what its JSON text parses to.
\<close>

section \<open>Loading the module\<close>

datatype init_promise = InitPending | InitResolved bool

record wasm_init =
  wi_module :: bool
  wi_promise :: "init_promise option"
  wi_imports :: nat
  wi_waiting :: "nat list"
  wi_answers :: "(nat \<times> bool) list"

definition wasm_unloaded :: wasm_init where
  "wasm_unloaded = \<lparr>wi_module = False, wi_promise = None, wi_imports = 0, wi_waiting = [], wi_answers = []\<rparr>"

definition init_answer :: "bool \<Rightarrow> nat list \<Rightarrow> wasm_init \<Rightarrow> wasm_init" where
  "init_answer b cs s = s\<lparr>wi_answers := wi_answers s @ map (\<lambda>c. (c, b)) cs\<rparr>"

definition initWasm :: "bool \<Rightarrow> nat \<Rightarrow> wasm_init \<Rightarrow> wasm_init" where
  "initWasm supported c s =
    (if wi_module s then init_answer True [c] s
     else case wi_promise s of
         Some (InitResolved b) \<Rightarrow> init_answer b [c] s
       | Some InitPending \<Rightarrow> s\<lparr>wi_waiting := wi_waiting s @ [c]\<rparr>
       | None \<Rightarrow> if \<not> supported then init_answer False [c] (s\<lparr>wi_promise := Some (InitResolved False)\<rparr>)
                 else s\<lparr>wi_promise := Some InitPending, wi_imports := wi_imports s + 1, wi_waiting := [c]\<rparr>)"

text \<open>The import with its initialization has succeeded or thrown.\<close>

definition import_settled :: "bool \<Rightarrow> wasm_init \<Rightarrow> wasm_init" where
  "import_settled ok s = (if wi_promise s \<noteq> Some InitPending then s
     else init_answer ok (wi_waiting s) (s\<lparr>wi_module := ok, wi_promise := Some (InitResolved ok), wi_waiting := []\<rparr>))"

datatype wasm_op = InitWasm nat | ImportSettled bool

fun wasm_step :: "bool \<Rightarrow> wasm_op \<Rightarrow> wasm_init \<Rightarrow> wasm_init" where
  "wasm_step supported (InitWasm c) s = initWasm supported c s"
| "wasm_step supported (ImportSettled ok) s = import_settled ok s"

definition wasm_run :: "bool \<Rightarrow> wasm_op list \<Rightarrow> wasm_init \<Rightarrow> wasm_init" where
  "wasm_run supported ops s = fold (wasm_step supported) ops s"

section \<open>Reading keys\<close>

record wasm_keys =
  wk_readOnlyCount :: nat
  wk_readWriteCount :: nat
  wk_totalCount :: nat
  wk_keysBase64 :: "string list"

record wasm_classification =
  wc_keyBase64 :: string
  wc_class :: sdk_classification

record wasm_module =
  wm_extract :: "string \<Rightarrow> string + wasm_keys"
  wm_classify :: "string \<Rightarrow> string + wasm_classification"
  wm_classify_batch :: "string list \<Rightarrow> string + wasm_classification list"
  wm_extract_tx :: "string \<Rightarrow> string + wasm_keys"

record xdr_decoder =
  xd_footprint :: "string \<Rightarrow> string + (ledger_key list \<times> ledger_key list)"
  xd_key :: "string \<Rightarrow> string + ledger_key"
  xd_toXDR :: "ledger_key \<Rightarrow> string"
  xd_envelope :: "string \<Rightarrow> envelope option"

definition toWasmKeys :: "xdr_decoder \<Rightarrow> footprint_keys \<Rightarrow> wasm_keys" where
  "toWasmKeys x r = \<lparr>wk_readOnlyCount = length (fk_readOnly r), wk_readWriteCount = length (fk_readWrite r),
     wk_totalCount = length (fk_all r), wk_keysBase64 = map (xd_toXDR x) (fk_all r)\<rparr>"

definition classifyWithJs :: "xdr_decoder \<Rightarrow> string \<Rightarrow> string + wasm_classification" where
  "classifyWithJs x keyXdrBase64 = (case xd_key x keyXdrBase64 of
     Inl e \<Rightarrow> Inl e | Inr k \<Rightarrow> Inr \<lparr>wc_keyBase64 = keyXdrBase64, wc_class = sdk_classifyLedgerKey k\<rparr>)"

definition extractFootprintKeys :: "xdr_decoder \<Rightarrow> wasm_module option \<Rightarrow> string \<Rightarrow> string + wasm_keys" where
  "extractFootprintKeys x wasm footprintXdr = (case wasm of
     Some m \<Rightarrow> wm_extract m footprintXdr
   | None \<Rightarrow> (case xd_footprint x footprintXdr of
       Inl e \<Rightarrow> Inl e | Inr fp \<Rightarrow> Inr (toWasmKeys x (sdk_extractKeysFromFootprint fp))))"

definition classifyKey :: "xdr_decoder \<Rightarrow> wasm_module option \<Rightarrow> string \<Rightarrow> string + wasm_classification" where
  "classifyKey x wasm k = (case wasm of Some m \<Rightarrow> wm_classify m k | None \<Rightarrow> classifyWithJs x k)"

text \<open>\<open>Promise.all\<close>: all results in order, or the first rejection.\<close>

fun promise_all :: "(string + 'a) list \<Rightarrow> string + 'a list" where
  "promise_all [] = Inr []"
| "promise_all (Inl e # rs) = Inl e"
| "promise_all (Inr x # rs) = (case promise_all rs of Inl e \<Rightarrow> Inl e | Inr xs \<Rightarrow> Inr (x # xs))"

definition classifyKeysBatch :: "xdr_decoder \<Rightarrow> wasm_module option \<Rightarrow> string list \<Rightarrow> string + wasm_classification list" where
  "classifyKeysBatch x wasm ks = (case wasm of
     Some m \<Rightarrow> wm_classify_batch m ks | None \<Rightarrow> promise_all (map (classifyWithJs x) ks))"

definition extractFootprintFromTxXdr :: "xdr_decoder \<Rightarrow> wasm_module option \<Rightarrow> string \<Rightarrow> string + wasm_keys" where
  "extractFootprintFromTxXdr x wasm txXdr = (case wasm of
     Some m \<Rightarrow> wm_extract_tx m txXdr
   | None \<Rightarrow> (case extractFootprintFromTransactionStreaming (xd_envelope x) txXdr of
       None \<Rightarrow> Inl ''Failed to parse transaction XDR'' | Some r \<Rightarrow> Inr (toWasmKeys x r)))"

section \<open>Properties\<close>

definition init_calls :: "wasm_op list \<Rightarrow> nat list" where
  "init_calls ops = List.map_filter (\<lambda>p. case p of InitWasm c \<Rightarrow> Some c | ImportSettled ok \<Rightarrow> None) ops"

definition init_agrees :: "bool \<Rightarrow> wasm_op list \<Rightarrow> wasm_init \<Rightarrow> bool" where
  "init_agrees supported ops s \<longleftrightarrow>
    wi_imports s \<le> (if supported then 1 else 0) \<and> (wi_imports s = 0 \<longrightarrow> \<not> wi_module s) \<and>
    list_all (\<lambda>p. snd p = wi_module s) (wi_answers s) \<and>
    (wi_waiting s \<noteq> [] \<longrightarrow> wi_promise s = Some InitPending) \<and>
    mset (wi_waiting s @ map fst (wi_answers s)) = mset (init_calls ops)"

definition init_promised :: "wasm_init \<Rightarrow> bool" where
  "init_promised s \<longleftrightarrow> (case wi_promise s of
     None \<Rightarrow> wi_imports s = 0 \<and> \<not> wi_module s \<and> wi_answers s = []
   | Some InitPending \<Rightarrow> wi_imports s = 1 \<and> \<not> wi_module s \<and> wi_answers s = []
   | Some (InitResolved b) \<Rightarrow> wi_module s = b)"

lemma init_calls_snoc: "init_calls (ops @ [p]) = init_calls ops @ (case p of InitWasm c \<Rightarrow> [c] | ImportSettled ok \<Rightarrow> [])"
  by (simp add: init_calls_def List.map_filter_def split: wasm_op.split)

lemma init_step:
  assumes "init_agrees supported ops s" and "init_promised s"
  shows "init_agrees supported (ops @ [p]) (wasm_step supported p s) \<and> init_promised (wasm_step supported p s)"
proof (cases p)
  case (InitWasm c)
  then show ?thesis using assms
    by (auto simp: init_agrees_def init_promised_def init_calls_snoc initWasm_def init_answer_def
        split: option.splits init_promise.splits if_splits)
next
  case (ImportSettled ok)
  then show ?thesis using assms
    by (auto simp: init_agrees_def init_promised_def init_calls_snoc import_settled_def init_answer_def list_all_iff
        image_mset.compositionality comp_def split: option.splits init_promise.splits if_splits)
qed

lemma init_run: "init_agrees supported ops (wasm_run supported ops wasm_unloaded) \<and> init_promised (wasm_run supported ops wasm_unloaded)"
proof (induction ops rule: rev_induct)
  case Nil
  show ?case by (simp add: wasm_run_def wasm_unloaded_def init_agrees_def init_promised_def init_calls_def List.map_filter_def)
next
  case (snoc p ops)
  then show ?case using init_step [of supported ops _ p] by (simp add: wasm_run_def)
qed

text \<open>
  However calls of \<open>initWasm\<close> overlap, the module is imported at most once, and never where WebAssembly is
  missing; every call waits for that import or was answered exactly once, and every answer given says whether the
  module is in use.
\<close>

theorem wasm_loaded_once:
  "init_agrees supported ops (wasm_run supported ops wasm_unloaded)"
  using init_run by blast

lemma promise_all_map [simp]: "promise_all (map Inr xs) = Inr xs"
  by (induction xs) simp_all

lemma promise_all_Inr: "promise_all rs = Inr xs \<longleftrightarrow> rs = map Inr xs"
proof -
  have "promise_all rs = Inr xs \<Longrightarrow> rs = map Inr xs" for xs
    by (induction rs arbitrary: xs rule: promise_all.induct) (auto split: sum.splits)
  then show ?thesis by auto
qed

text \<open>
  Without the module, the counts and keys are those of the footprint that was decoded, read-only keys first, and a
  batch is classified like its keys one by one.
\<close>

theorem fallback_exact:
  "(extractFootprintKeys x None t = Inr r \<longleftrightarrow> (\<exists>ro rw. xd_footprint x t = Inr (ro, rw) \<and>
      r = \<lparr>wk_readOnlyCount = length ro, wk_readWriteCount = length rw, wk_totalCount = length ro + length rw,
           wk_keysBase64 = map (xd_toXDR x) ro @ map (xd_toXDR x) rw\<rparr>)) \<and>
   (classifyKeysBatch x None ks = Inr cs \<longleftrightarrow> map (classifyKey x None) ks = map Inr cs)"
  by (auto simp: extractFootprintKeys_def toWasmKeys_def sdk_extractKeysFromFootprint_def classifyKeysBatch_def
      promise_all_Inr classifyKey_def [abs_def] split: sum.split)

end
