(* ===== verification/SdkClient.thy ===== *)
theory SdkClient
  imports Client SdkFootprint
begin

text \<open>
  The client of the \<open>sdk\<close> package (\<open>packages/sdk/src/soroban-resurrect.ts\<close>, error class and predicates of
  \<open>packages/sdk/src/types.ts\<close>): errors, configuration, state, listeners, the server cache, the retry loop,
  waiting for a transaction, and one submission with the reconciliation of an unknown outcome.

  It differs from the client of \<open>packages/core\<close>: errors carry the message first and may carry a transaction
  hash, nothing is checked before signing, and a submission that fails is looked up by its hash. As there,
  the outside world is a record of functions of the history of calls, newest first; log lines, span
  attributes and metrics are left out.
\<close>

section \<open>Errors\<close>

record sdk_error =
  er_code :: string
  er_message :: string
  er_txHash :: "string option"
  er_attempts :: "int option"

datatype sdk_err = SdkErr sdk_error | OtherErr (oe_name: string) (oe_message: string)

definition sdk_error_new :: "string \<Rightarrow> string \<Rightarrow> string option \<Rightarrow> sdk_err" where
  "sdk_error_new message code txHash =
    SdkErr \<lparr>er_code = code, er_message = message, er_txHash = txHash, er_attempts = None\<rparr>"

fun sdk_message :: "sdk_err \<Rightarrow> string" where
  "sdk_message (SdkErr e) = er_message e"
| "sdk_message (OtherErr n m) = m"

fun sdk_String :: "sdk_err \<Rightarrow> string" where
  "sdk_String (SdkErr e) = ''SorobanResurrectError: '' @ er_message e"
| "sdk_String (OtherErr n m) = n @ '': '' @ m"

fun is_sdk_error :: "sdk_err \<Rightarrow> bool" where
  "is_sdk_error (SdkErr e) = True"
| "is_sdk_error (OtherErr n m) = False"

fun isAmbiguousSubmissionError :: "sdk_err \<Rightarrow> bool" where
  "isAmbiguousSubmissionError (SdkErr e) = (er_code e = ''NETWORK_ERROR'' \<and> er_txHash e \<noteq> None)"
| "isAmbiguousSubmissionError (OtherErr n m) = False"

text \<open>The regular expression \<open>/result=(txBadSeq|txTooLate)\b/\<close>, tried at every position.\<close>

definition word_char :: "char \<Rightarrow> bool" where
  "word_char c = (let n = (of_char c :: nat)
     in (65 \<le> n \<and> n \<le> 90) \<or> (97 \<le> n \<and> n \<le> 122) \<or> is_digit c \<or> c = CHR ''_'')"

definition starts_word :: "string \<Rightarrow> string \<Rightarrow> bool" where
  "starts_word s t = (take (length t) s = t \<and>
     (case drop (length t) s of [] \<Rightarrow> True | c # cs \<Rightarrow> \<not> word_char c))"

fun stale_mark :: "string \<Rightarrow> bool" where
  "stale_mark [] = False"
| "stale_mark (c # cs) =
    (starts_word (c # cs) ''result=txBadSeq'' \<or> starts_word (c # cs) ''result=txTooLate'' \<or> stale_mark cs)"

fun isStaleSequenceError :: "sdk_err \<Rightarrow> bool" where
  "isStaleSequenceError (SdkErr e) = (er_code e = ''ORIGINAL_TX_FAILED'' \<and> stale_mark (er_message e))"
| "isStaleSequenceError (OtherErr n m) = False"

section \<open>Configuration and environment\<close>

datatype sdk_event =
    SdkRestoreStart "sdk_key list"
  | SdkBatchComplete nat "nat option"
  | SdkRestoreComplete string nat
  | SdkOriginalStart
  | SdkOriginalComplete string

fun sdk_event_name :: "sdk_event \<Rightarrow> string" where
  "sdk_event_name (SdkRestoreStart ks) = ''restore:start''"
| "sdk_event_name (SdkBatchComplete i n) = ''restore:batch:complete''"
| "sdk_event_name (SdkRestoreComplete x n) = ''restore:complete''"
| "sdk_event_name SdkOriginalStart = ''original:start''"
| "sdk_event_name (SdkOriginalComplete h) = ''original:complete''"

datatype sdk_call =
    KNetwork
  | KHealth
  | KAccount string string
  | KSimulate string string
  | KSign string
  | KSend string string
  | KReceipt string string
  | KWs string
  | KDelay real
  | KNotify nat sdk_event
  | KEntries string "ledger_key list"

record sdk_config =
  cf_rpcUrls :: "string list"
  cf_networkPassphrase :: string
  cf_allowHttp :: bool
  cf_restoreFee :: string
  cf_maxRestoreBatchSize :: int
  cf_maxRestoreFeeStroops :: "string option"
  cf_simulateOnly :: bool
  cf_dynamicFeeEstimation :: bool
  cf_strictNetworkValidation :: bool
  cf_useWebSocket :: bool
  cf_pollIntervalMs :: int
  cf_maxPollAttempts :: int
  cf_feeBumpSponsor :: "string option"
  cf_restorePriorityMap :: priority_map
  cf_maxConcurrency :: "int option"
  cf_tracing :: bool
  cf_telemetry :: bool

text \<open>
  The Stellar SDK. \<open>y_parseSigned\<close> gives the signed transaction and its hash in hex; the first argument of
  \<open>y_buildFeeBump\<close> is the sponsor account, absent where the code passes an empty object.
\<close>

record sdk_lib = sdk_config +
  y_fromXDR :: "string \<Rightarrow> sdk_err + parsed_tx"
  y_parseSigned :: "string \<Rightarrow> sdk_err + string \<times> string"
  y_decodeResult :: "string \<Rightarrow> string option"
  y_footprintData :: "ledger_key list \<Rightarrow> string"
  y_account :: "string \<Rightarrow> int \<Rightarrow> sdk_err + unit"
  y_buildRestore :: "string \<Rightarrow> int \<Rightarrow> string \<Rightarrow> string \<Rightarrow> sdk_err + string"
  y_buildFeeBump :: "string option \<Rightarrow> string \<Rightarrow> string \<Rightarrow> sdk_err + string"
  y_parseUrl :: "string \<Rightarrow> (string \<times> string) option"
  y_encodeKey :: "ledger_key \<Rightarrow> string"
  y_keyXDR :: "ledger_key \<Rightarrow> string"
  y_base64 :: "string \<Rightarrow> string"

text \<open>A read of ledger entries: of each its key, the XDR bytes of its data, and the ledger it lives until.\<close>

record entry_read =
  ey_key :: ledger_key
  ey_data :: "string option"
  ey_liveUntil :: "int option"

record entries_read =
  es_entries :: "entry_read list"
  es_latestLedger :: "int option"

text \<open>
  The world. A send answers with status, hash and \<open>errorResultXdr\<close>; a receipt with its status and its result
  as JSON text; a socket with its events and their times in milliseconds.
\<close>

record sdk_env = sdk_lib +
  u_getNetwork :: "sdk_call list \<Rightarrow> sdk_err + string"
  u_getHealth :: "sdk_call list \<Rightarrow> sdk_err + unit"
  u_getAccount :: "sdk_call list \<Rightarrow> string \<Rightarrow> sdk_err + int"
  u_getEntries :: "sdk_call list \<Rightarrow> ledger_key list \<Rightarrow> sdk_err + entries_read"
  u_simulate :: "sdk_call list \<Rightarrow> string \<Rightarrow> sdk_err + sim_response"
  u_sign :: "sdk_call list \<Rightarrow> string \<Rightarrow> sdk_err + string"
  u_send :: "sdk_call list \<Rightarrow> string \<Rightarrow> sdk_err + string \<times> string \<times> string option"
  u_getTransaction :: "sdk_call list \<Rightarrow> string \<Rightarrow> sdk_err + string \<times> string"
  u_wsProbe :: "sdk_call list \<Rightarrow> string \<Rightarrow> bool"
  u_ws :: "sdk_call list \<Rightarrow> string \<Rightarrow> sdk_err + (int \<times> ws_event) list"
  u_now :: "sdk_call list \<Rightarrow> int"
  u_policyEnv :: "sdk_call list \<Rightarrow> policy_env"
  u_notify :: "sdk_call list \<Rightarrow> nat \<Rightarrow> sdk_event \<Rightarrow> sdk_err option"

definition rpcUrl_text :: "sdk_env \<Rightarrow> string" where
  "rpcUrl_text v = join_with '','' (cf_rpcUrls v)"

section \<open>State\<close>

record sdk_batch =
  bt_batchIndex :: nat
  bt_transactionXDR :: string
  bt_keysRestored :: nat
  bt_status :: batch_status
  bt_txHash :: "string option"
  bt_error :: "string option"

record sdk_failed =
  sl_sourceAccountID :: string
  sl_failedBatches :: "sdk_batch list"
  sl_failedKeys :: "sdk_key list"
  sl_failedBatchIndex :: nat
  sl_partialEntriesRestored :: nat

record sdk_check =
  ch_needsRestoration :: bool
  ch_archivedKeys :: "sdk_key list"
  ch_totalKeysInFootprint :: nat

text \<open>\<open>sd_tracing\<close> says whether \<open>activeTraceHeaders\<close> holds a header; a server object is its URL.\<close>

record sdk_engine =
  sd_calls :: "sdk_call list"
  sd_policy :: policy
  sd_listeners :: "(string, nat list) js_map"
  sd_failover :: failover
  sd_servers :: "string list"
  sd_simulationCache :: "sdk_check sim_cache option"
  sd_tracing :: bool
  sd_lastFailed :: "sdk_failed option"
  sd_passphraseValid :: bool
  sd_lastRestoreSuccess :: bool
  sd_lastRestoreTimestamp :: "int option"
  sd_startedAt :: int

type_synonym 'a sact = "(sdk_engine, sdk_err, 'a) eff"

definition k_call :: "sdk_call \<Rightarrow> (sdk_call list \<Rightarrow> sdk_err + 'a) \<Rightarrow> 'a sact" where
  "k_call c f = (\<lambda>s. (f (sd_calls s), s\<lparr>sd_calls := c # sd_calls s\<rparr>))"

definition k_ask :: "(sdk_call list \<Rightarrow> 'a) \<Rightarrow> 'a sact" where
  "k_ask f = (\<lambda>s. (Inr (f (sd_calls s)), s))"

definition k_pause :: "real \<Rightarrow> unit sact" where
  "k_pause ms = k_call (KDelay ms) (\<lambda>h. Inr ())"

definition k_lift :: "sdk_err + 'a \<Rightarrow> 'a sact" where
  "k_lift r = (\<lambda>s. (r, s))"

subsection \<open>Listeners\<close>

definition sdk_on :: "string \<Rightarrow> nat \<Rightarrow> sdk_engine \<Rightarrow> sdk_engine" where
  "sdk_on ev l s =
    (let old = (case jget (sd_listeners s) ev of None \<Rightarrow> [] | Some ls \<Rightarrow> ls)
     in s\<lparr>sd_listeners := jset (sd_listeners s) ev (if List.member old l then old else old @ [l])\<rparr>)"

definition sdk_off :: "string \<Rightarrow> nat \<Rightarrow> sdk_engine \<Rightarrow> sdk_engine" where
  "sdk_off ev l s = (case jget (sd_listeners s) ev of
     None \<Rightarrow> s
   | Some ls \<Rightarrow> s\<lparr>sd_listeners := jset (sd_listeners s) ev (filter (\<lambda>x. x \<noteq> l) ls)\<rparr>)"

fun sdk_notify_all :: "sdk_env \<Rightarrow> sdk_event \<Rightarrow> nat list \<Rightarrow> unit sact" where
  "sdk_notify_all v ev [] = eret ()"
| "sdk_notify_all v ev (l # ls) =
    ebind (k_call (KNotify l ev) (\<lambda>h. case u_notify v h l ev of None \<Rightarrow> Inr () | Some e \<Rightarrow> Inl e))
      (\<lambda>_. sdk_notify_all v ev ls)"

definition sdk_emit :: "sdk_env \<Rightarrow> sdk_event \<Rightarrow> unit sact" where
  "sdk_emit v ev = (\<lambda>s. case jget (sd_listeners s) (sdk_event_name ev) of
     None \<Rightarrow> (Inr (), s)
   | Some ls \<Rightarrow> sdk_notify_all v ev ls s)"

section \<open>Servers and retries\<close>

definition MAX_SERVER_CACHE_SIZE :: nat where
  "MAX_SERVER_CACHE_SIZE = 16"

definition server_cache_add :: "string \<Rightarrow> string list \<Rightarrow> string list" where
  "server_cache_add url servers =
    (if List.member servers url then servers
     else (if MAX_SERVER_CACHE_SIZE \<le> length servers then tl servers else servers) @ [url])"

definition sdk_getServer :: "sdk_env \<Rightarrow> string sact" where
  "sdk_getServer v = (\<lambda>s.
     let now = u_now v (sd_calls s);
         (u, f) = getCurrentUrl (sd_failover s) now now;
         s1 = s\<lparr>sd_failover := f\<rparr>
     in case u of
          None \<Rightarrow> (Inl (OtherErr ''TypeError'' ''Invalid URL''), s1)
        | Some url \<Rightarrow>
            (Inr url, if cf_tracing v \<and> sd_tracing s1 then s1
                      else s1\<lparr>sd_servers := server_cache_add url (sd_servers s1)\<rparr>))"

definition sdk_wrap :: "sdk_err \<Rightarrow> sdk_error" where
  "sdk_wrap e = (case e of
     SdkErr r \<Rightarrow> r
   | OtherErr n m \<Rightarrow> \<lparr>er_code = ''NETWORK_ERROR'', er_message = sdk_String e, er_txHash = None, er_attempts = None\<rparr>)"

definition sdk_policy_should :: "sdk_env \<Rightarrow> sdk_error \<Rightarrow> nat \<Rightarrow> bool sact" where
  "sdk_policy_should v e attempt = (\<lambda>s.
     let (b, p) = pol_shouldRetry (sd_policy s) (er_code e) attempt (u_policyEnv v (sd_calls s))
     in (Inr b, s\<lparr>sd_policy := p\<rparr>))"

definition sdk_policy_delay :: "sdk_env \<Rightarrow> nat \<Rightarrow> real sact" where
  "sdk_policy_delay v attempt =
    (\<lambda>s. (Inr (pol_getDelay (sd_policy s) attempt (u_policyEnv v (sd_calls s))), s))"

definition sdk_policy_reset :: "unit sact" where
  "sdk_policy_reset = (\<lambda>s. (Inr (), s\<lparr>sd_policy := pol_reset (sd_policy s)\<rparr>))"

definition sdk_policy_limit :: "int sact" where
  "sdk_policy_limit = (\<lambda>s. (Inr (pol_maxRetries (sd_policy s)), s))"

definition exhausted :: "sdk_error \<Rightarrow> nat \<Rightarrow> sdk_err" where
  "exhausted e attempt = SdkErr (e\<lparr>er_attempts := Some (int attempt)\<rparr>)"

text \<open>As in the other client, the loop condition is a count down of the attempts that are left.\<close>

fun sdk_attempts :: "sdk_env \<Rightarrow> 'a sact \<Rightarrow> string \<Rightarrow> nat \<Rightarrow> nat \<Rightarrow> 'a sact" where
  "sdk_attempts v fn context 0 attempt =
    ebind sdk_policy_limit (\<lambda>mx.
      ethrow (SdkErr \<lparr>er_code = ''NETWORK_ERROR'', er_message = ''Operation failed after 3 retries: '' @ context @
        ''. Fix: check the RPC endpoint is reachable, or configure additional rpcUrl fallbacks.'',
        er_txHash = None, er_attempts = Some (mx + 1)\<rparr>))"
| "sdk_attempts v fn context (Suc left) attempt =
    (\<lambda>s. case fn s of
       (Inr x, t) \<Rightarrow> ebind sdk_policy_reset (\<lambda>_. eret x) t
     | (Inl e, t) \<Rightarrow>
         ebind sdk_policy_limit (\<lambda>mx.
           if int attempt \<le> mx
           then ebind (sdk_policy_should v (sdk_wrap e) attempt) (\<lambda>again.
                  if again
                  then ebind (sdk_policy_delay v attempt) (\<lambda>ms.
                         ebind (k_pause ms) (\<lambda>_. sdk_attempts v fn context left (Suc attempt)))
                  else ethrow (exhausted (sdk_wrap e) attempt))
           else ethrow (exhausted (sdk_wrap e) attempt)) t)"

definition sdk_retryLoop :: "sdk_env \<Rightarrow> 'a sact \<Rightarrow> string \<Rightarrow> 'a sact" where
  "sdk_retryLoop v fn context =
    ebind sdk_policy_limit (\<lambda>mx. sdk_attempts v fn context (nat (mx + 1)) 1)"

text \<open>With a tracer, the headers of its span are active during the calls and restored afterwards.\<close>

definition sdk_retryOnFailure :: "sdk_env \<Rightarrow> 'a sact \<Rightarrow> string \<Rightarrow> 'a sact" where
  "sdk_retryOnFailure v fn context =
    (if cf_tracing v
     then (\<lambda>s. let previous = sd_tracing s;
                    (u, f) = getCurrentUrl (sd_failover s) (u_now v (sd_calls s)) (u_now v (sd_calls s));
                    (r, t) = sdk_retryLoop v fn context (s\<lparr>sd_failover := f, sd_tracing := True\<rparr>)
                in (r, t\<lparr>sd_tracing := previous\<rparr>))
     else sdk_retryLoop v fn context)"

end
