(* ===== verification/SdkSubmit.thy ===== *)
theory SdkSubmit
  imports SdkClient
begin

text \<open>
  One submission of the \<open>sdk\<close> client (\<open>packages/sdk/src/soroban-resurrect.ts\<close>): signing, sending, the look-up
  of a submission with an unknown outcome, and waiting for the receipt over a socket or by polling.
\<close>

section \<open>Waiting for a transaction\<close>

fun sdk_poll_attempts :: "sdk_env \<Rightarrow> string \<Rightarrow> int \<Rightarrow> nat \<Rightarrow> string sact" where
  "sdk_poll_attempts v hash totalMs 0 =
    ethrow (sdk_error_new (''Transaction '' @ hash @ '' not confirmed after '' @ int_dec totalMs @
              ''ms (rpcUrl='' @ rpcUrl_text v @ '')'') ''NETWORK_ERROR'' (Some hash))"
| "sdk_poll_attempts v hash totalMs (Suc left) =
    ebind (ebind (sdk_getServer v) (\<lambda>u. k_call (KReceipt u hash) (\<lambda>h. u_getTransaction v h hash)))
      (\<lambda>(status, json).
         if status \<noteq> ''NOT_FOUND''
         then if status = ''SUCCESS'' then eret hash
              else ethrow (sdk_error_new (''Transaction failed (txHash='' @ hash @ '', rpcUrl='' @
                     rpcUrl_text v @ ''): '' @ json) ''ORIGINAL_TX_FAILED'' (Some hash))
         else ebind (k_pause (of_int (cf_pollIntervalMs v)))
                (\<lambda>_. sdk_poll_attempts v hash totalMs left))"

definition sdk_pollForReceipt :: "sdk_env \<Rightarrow> string \<Rightarrow> int \<Rightarrow> string sact" where
  "sdk_pollForReceipt v hash maxAttempts =
    sdk_poll_attempts v hash (maxAttempts * cf_pollIntervalMs v) (nat maxAttempts)"

definition sdk_getWebSocketUrl :: "sdk_env \<Rightarrow> string option" where
  "sdk_getWebSocketUrl v = (case y_parseUrl v (rpcUrl_text v) of
     None \<Rightarrow> None
   | Some (protocol, rest) \<Rightarrow>
       if protocol = ''https:'' then Some (''wss:'' @ rest)
       else if protocol = ''http:'' \<and> cf_allowHttp v then Some (''ws:'' @ rest)
       else None)"

text \<open>
  The timers of the socket: the overall one, and the one for a silent drop, which a notification about
  this transaction stops. A timer fires before an event that comes at its time or later; the overall
  one was set first. \<open>None\<close>: neither fires before the time given.
\<close>

definition ws_timeout :: "string \<Rightarrow> int \<Rightarrow> sdk_err" where
  "ws_timeout hash timeoutMs = sdk_error_new
     (''Transaction '' @ hash @ '' not confirmed via WebSocket after '' @ int_dec timeoutMs @ ''ms'') ''NETWORK_ERROR'' None"

definition ws_silent :: "string \<Rightarrow> sdk_err" where
  "ws_silent hash = OtherErr ''Error'' (''Silent WebSocket drop detected for '' @ hash)"

definition ws_timer :: "string \<Rightarrow> int \<Rightarrow> int option \<Rightarrow> int option \<Rightarrow> sdk_err option" where
  "ws_timer hash timeoutMs silent until =
    (let due = (\<lambda>at'. case until of None \<Rightarrow> True | Some t \<Rightarrow> at' \<le> t)
     in case silent of
          Some s \<Rightarrow>
            if s < timeoutMs then (if due s then Some (ws_silent hash) else None)
            else if due timeoutMs then Some (ws_timeout hash timeoutMs) else None
        | None \<Rightarrow> if due timeoutMs then Some (ws_timeout hash timeoutMs) else None)"

fun sdk_ws_settle :: "string \<Rightarrow> int \<Rightarrow> int option \<Rightarrow> (int \<times> ws_event) list \<Rightarrow> sdk_err + unit" where
  "sdk_ws_settle hash timeoutMs silent [] =
    Inl (case ws_timer hash timeoutMs silent None of Some e \<Rightarrow> e | None \<Rightarrow> ws_timeout hash timeoutMs)"
| "sdk_ws_settle hash timeoutMs silent ((t, ev) # evs) =
    (case ws_timer hash timeoutMs silent (Some t) of
       Some e \<Rightarrow> Inl e
     | None \<Rightarrow>
       (case ev of
          WsMessage None \<Rightarrow> sdk_ws_settle hash timeoutMs silent evs
        | WsMessage (Some f) \<Rightarrow>
            if wf_method f \<noteq> ''transaction_status'' then sdk_ws_settle hash timeoutMs silent evs
            else if wf_hash f \<noteq> Some hash then sdk_ws_settle hash timeoutMs silent evs
            else if wf_status f = ''SUCCESS'' then Inr ()
            else if wf_status f = ''FAILED''
            then Inl (sdk_error_new (''Transaction '' @ hash @ '' failed: '' @
                        (case wf_error f of None \<Rightarrow> ''unknown error'' | Some m \<Rightarrow> m)) ''ORIGINAL_TX_FAILED'' None)
            else sdk_ws_settle hash timeoutMs None evs
        | WsError \<Rightarrow>
            Inl (sdk_error_new (''WebSocket error waiting for transaction '' @ hash) ''NETWORK_ERROR'' None)
        | WsClose code \<Rightarrow>
            Inl (sdk_error_new (''WebSocket closed unexpectedly (code '' @ nat_dec code @ '') while waiting for '' @ hash)
              ''NETWORK_ERROR'' None)))"

definition sdk_wsWaitForTransaction :: "sdk_env \<Rightarrow> string \<Rightarrow> string \<Rightarrow> int \<Rightarrow> unit sact" where
  "sdk_wsWaitForTransaction v hash wsUrl maxPollAttempts =
    (let timeoutMs = maxPollAttempts * cf_pollIntervalMs v;
         silentDropTimeoutMs = cf_pollIntervalMs v * 5
     in k_call (KWs hash) (\<lambda>h. case u_ws v h wsUrl of
          Inl e \<Rightarrow> Inl e
        | Inr evs \<Rightarrow> sdk_ws_settle hash timeoutMs (Some silentDropTimeoutMs) evs))"

text \<open>The socket first, when it is wanted and reachable: \<open>False\<close> when the code goes on to poll.\<close>

definition sdk_ws_attempt :: "sdk_env \<Rightarrow> string \<Rightarrow> int \<Rightarrow> bool sact" where
  "sdk_ws_attempt v hash maxPollAttempts =
    (if cf_useWebSocket v
     then (case sdk_getWebSocketUrl v of
         None \<Rightarrow> eret False
       | Some wsUrl \<Rightarrow>
           ebind (k_ask (\<lambda>h. u_wsProbe v h wsUrl)) (\<lambda>supported.
             if supported
             then ecatch (ebind (sdk_wsWaitForTransaction v hash wsUrl maxPollAttempts) (\<lambda>_. eret True))
                    (\<lambda>e. if is_sdk_error e then ethrow e else eret False)
             else eret False))
     else eret False)"

definition sdk_waitForTransaction :: "sdk_env \<Rightarrow> string \<Rightarrow> int \<Rightarrow> (string \<times> transport) sact" where
  "sdk_waitForTransaction v hash maxPollAttempts =
    ebind (sdk_ws_attempt v hash maxPollAttempts) (\<lambda>confirmed.
      if confirmed then eret (hash, Websocket)
      else ebind (sdk_pollForReceipt v hash maxPollAttempts) (\<lambda>_. eret (hash, Polling)))"

section \<open>Submission\<close>

definition decodeSubmissionResultCode :: "sdk_env \<Rightarrow> string option \<Rightarrow> string" where
  "decodeSubmissionResultCode v errorResultXdr =
    (if \<not> truthy_str errorResultXdr then ''unknown''
     else case y_decodeResult v (the errorResultXdr) of Some n \<Rightarrow> n | None \<Rightarrow> ''unknown'')"

definition sdk_send :: "sdk_env \<Rightarrow> string \<Rightarrow> (string \<times> string \<times> string option) sact" where
  "sdk_send v tx =
    sdk_retryOnFailure v (ebind (sdk_getServer v) (\<lambda>u. k_call (KSend u tx) (\<lambda>h. u_send v h tx))) ''sendTransaction''"

definition sdk_lookup :: "sdk_env \<Rightarrow> string \<Rightarrow> string sact" where
  "sdk_lookup v txHash =
    ecatch (ebind (ebind (sdk_getServer v) (\<lambda>u. k_call (KReceipt u txHash) (\<lambda>h. u_getTransaction v h txHash)))
             (\<lambda>(status, json). eret status))
      (\<lambda>e. eret ''UNKNOWN'')"

definition reconcileAmbiguousSubmission :: "sdk_env \<Rightarrow> string \<Rightarrow> string sact" where
  "reconcileAmbiguousSubmission v txHash =
    ebind (sdk_lookup v txHash) (\<lambda>status.
      if status = ''SUCCESS'' then eret txHash
      else if status = ''FAILED''
      then ethrow (sdk_error_new (''Transaction failed (txHash='' @ txHash @ '', rpcUrl='' @ rpcUrl_text v @ '')'')
             ''ORIGINAL_TX_FAILED'' (Some txHash))
      else ethrow (sdk_error_new (''Submission outcome unknown for '' @ txHash @
             ''; it may still be included. Check status by hash before retrying (rpcUrl='' @ rpcUrl_text v @ '')'')
             ''SUBMISSION_AMBIGUOUS'' (Some txHash)))"

definition sdk_after_send :: "sdk_env \<Rightarrow> string \<times> string \<times> string option \<Rightarrow> string sact" where
  "sdk_after_send v res =
    (let (status, hash, errorResultXdr) = res
     in if status = ''PENDING'' \<or> status = ''DUPLICATE''
        then ebind (sdk_waitForTransaction v hash (cf_maxPollAttempts v)) (\<lambda>(confirmedHash, _). eret confirmedHash)
        else if status = ''ERROR''
        then ethrow (sdk_error_new (''Transaction submission error (rpcUrl='' @ rpcUrl_text v @ '', result='' @
               decodeSubmissionResultCode v errorResultXdr @ '')'') ''ORIGINAL_TX_FAILED'' None)
        else ethrow (sdk_error_new (''Unexpected submission status: '' @ status @ '' (rpcUrl='' @
               rpcUrl_text v @ '')'') ''NETWORK_ERROR'' None))"

text \<open>
  The result of the send, or of the look-up where the send failed: only the send is inside the
  \<open>try\<close> block.
\<close>

definition sdk_send_or_lookup :: "sdk_env \<Rightarrow> string \<Rightarrow> string \<Rightarrow> string sact" where
  "sdk_send_or_lookup v tx txHash = (\<lambda>s. case sdk_send v tx s of
     (Inr res, t) \<Rightarrow> sdk_after_send v res t
   | (Inl e, t) \<Rightarrow> reconcileAmbiguousSubmission v txHash t)"

definition sendSignedTransaction :: "sdk_env \<Rightarrow> string \<Rightarrow> string sact" where
  "sendSignedTransaction v txXDR =
    ebind (k_call (KSign txXDR) (\<lambda>h. u_sign v h txXDR)) (\<lambda>signedXDR.
    ebind (k_lift (y_parseSigned v signedXDR)) (\<lambda>(tx, txHash).
    sdk_send_or_lookup v tx txHash))"

section \<open>What every operation keeps\<close>

text \<open>
  Invariants of the history, as for the other client: a property that reads only the history and the
  record of the last failure.
\<close>

locale sdk_trace =
  fixes P :: "sdk_engine \<Rightarrow> bool" and free :: "sdk_call \<Rightarrow> bool"
  assumes frame: "P s \<Longrightarrow> sd_calls t = sd_calls s \<Longrightarrow> sd_lastFailed t = sd_lastFailed s \<Longrightarrow> P t"
    and push: "P s \<Longrightarrow> free c \<Longrightarrow> P (s\<lparr>sd_calls := c # sd_calls s\<rparr>)"
    and free_delay: "free (KDelay ms)"
    and free_notify: "free (KNotify l ev)"
begin

lemma keeps_call: "free c \<Longrightarrow> keeps P (k_call c f)"
  by (simp add: keeps_def k_call_def push)

lemma keeps_ask: "keeps P (k_ask f)"
  by (simp add: keeps_def k_ask_def)

lemma keeps_lift: "keeps P (k_lift r)"
  by (simp add: keeps_def k_lift_def)

lemma keeps_pause: "keeps P (k_pause ms)"
  unfolding k_pause_def by (rule keeps_call [OF free_delay])

lemma keeps_notify_all: "keeps P (sdk_notify_all v ev ls)"
  by (induction ls) (auto intro!: guar keeps_call free_notify)

lemma keeps_emit: "keeps P (sdk_emit v ev)"
  using keeps_notify_all [of v ev] by (auto simp: keeps_def sdk_emit_def split: option.split)

lemma keeps_getServer: "keeps P (sdk_getServer v)"
  by (auto simp: keeps_def sdk_getServer_def Let_def split: prod.split option.split elim!: frame)

lemma keeps_policy:
  "keeps P (sdk_policy_should v e n)" "keeps P (sdk_policy_delay v n)" "keeps P sdk_policy_reset"
  "keeps P sdk_policy_limit"
  by (auto simp: keeps_def sdk_policy_should_def sdk_policy_delay_def sdk_policy_reset_def sdk_policy_limit_def
      split: prod.split elim!: frame)

lemma keeps_attempts: "keeps P fn \<Longrightarrow> keeps P (sdk_attempts v fn ctx left n)"
proof (induction left arbitrary: n)
  case (Suc left)
  let ?h = "\<lambda>e. ebind sdk_policy_limit (\<lambda>mx. if int n \<le> mx
      then ebind (sdk_policy_should v (sdk_wrap e) n) (\<lambda>again. if again
             then ebind (sdk_policy_delay v n) (\<lambda>ms. ebind (k_pause ms) (\<lambda>_. sdk_attempts v fn ctx left (Suc n)))
             else ethrow (exhausted (sdk_wrap e) n))
      else ethrow (exhausted (sdk_wrap e) n))"
  have h: "keeps P (?h e)" for e
    using Suc by (intro keeps_bind keeps_policy) (auto intro!: guar keeps_policy keeps_pause)
  have r: "keeps P (ebind sdk_policy_reset (\<lambda>_. eret x))" for x :: 'a
    by (intro guar keeps_policy)
  show ?case
  proof (rule keepsI)
    fix s r t assume P: "P s" and run: "sdk_attempts v fn ctx (Suc left) n s = (r, t)"
    obtain res u where fn: "fn s = (res, u)" by force
    have u: "P u" by (rule keepsD [OF Suc.prems P fn])
    show "P t"
    proof (cases res)
      case (Inl e)
      then have "?h e u = (r, t)" using run fn by simp
      then show ?thesis by (rule keepsD [OF h u])
    next
      case (Inr x)
      then have "ebind sdk_policy_reset (\<lambda>_. eret x) u = (r, t)" using run fn by simp
      then show ?thesis by (rule keepsD [OF r u])
    qed
  qed
qed (auto intro!: guar keeps_policy)

lemma keeps_retryLoop: "keeps P fn \<Longrightarrow> keeps P (sdk_retryLoop v fn ctx)"
  unfolding sdk_retryLoop_def by (intro guar keeps_policy keeps_attempts)

lemma keeps_retry:
  assumes "keeps P fn"
  shows "keeps P (sdk_retryOnFailure v fn ctx)"
proof (cases "cf_tracing v")
  case True
  show ?thesis
  proof (rule keepsI)
    fix s r t assume P: "P s" and run: "sdk_retryOnFailure v fn ctx s = (r, t)"
    obtain x f where f: "getCurrentUrl (sd_failover s) (u_now v (sd_calls s)) (u_now v (sd_calls s)) = (x, f)" by force
    obtain q u where u: "sdk_retryLoop v fn ctx (s\<lparr>sd_failover := f, sd_tracing := True\<rparr>) = (q, u)" by force
    have "P (s\<lparr>sd_failover := f, sd_tracing := True\<rparr>)" by (rule frame [OF P]) simp_all
    then have "P u" by (rule keepsD [OF keeps_retryLoop [OF assms] _ u])
    moreover have "t = u\<lparr>sd_tracing := sd_tracing s\<rparr>"
      using run f u True by (simp add: sdk_retryOnFailure_def Let_def)
    ultimately show "P t" by (auto intro: frame)
  qed
next
  case False
  then show ?thesis using keeps_retryLoop [OF assms] by (simp add: sdk_retryOnFailure_def)
qed

lemma keeps_receipt: "(\<And>u. free (KReceipt u hash)) \<Longrightarrow>
    keeps P (ebind (sdk_getServer v) (\<lambda>u. k_call (KReceipt u hash) f))"
  by (intro guar keeps_getServer keeps_call)

lemma keeps_poll: "(\<And>u. free (KReceipt u hash)) \<Longrightarrow> keeps P (sdk_poll_attempts v hash total' left)"
proof (induction left)
  case (Suc left)
  then show ?case by (auto intro!: guar keeps_receipt keeps_pause split: prod.split)
qed (auto intro: guar)

lemma keeps_wait:
  assumes "\<And>u. free (KReceipt u hash)" and "free (KWs hash)"
  shows "keeps P (sdk_waitForTransaction v hash n)"
  using assms
  by (auto simp: sdk_waitForTransaction_def sdk_ws_attempt_def sdk_wsWaitForTransaction_def sdk_pollForReceipt_def Let_def
      intro!: guar keeps_ask keeps_call keeps_poll split: option.split)

lemma keeps_send: "(\<And>u. free (KSend u tx)) \<Longrightarrow> keeps P (sdk_send v tx)"
  unfolding sdk_send_def by (intro keeps_retry guar keeps_getServer keeps_call)

lemma keeps_lookup: "(\<And>u. free (KReceipt u h)) \<Longrightarrow> keeps P (sdk_lookup v h)"
  unfolding sdk_lookup_def by (auto intro!: guar keeps_receipt split: prod.split)

lemma keeps_reconcile: "(\<And>u. free (KReceipt u h)) \<Longrightarrow> keeps P (reconcileAmbiguousSubmission v h)"
  unfolding reconcileAmbiguousSubmission_def by (auto intro!: guar keeps_lookup)

lemma keeps_after_send:
  "(\<And>u h. free (KReceipt u h)) \<Longrightarrow> (\<And>h. free (KWs h)) \<Longrightarrow> keeps P (sdk_after_send v res)"
  by (cases res) (auto simp: sdk_after_send_def Let_def intro!: guar keeps_wait split: prod.split)

lemma keeps_send_or_lookup:
  assumes "\<And>u x. free (KSend u x)" "\<And>u h. free (KReceipt u h)" "\<And>h. free (KWs h)"
  shows "keeps P (sdk_send_or_lookup v tx h)"
proof (rule keepsI)
  fix s r t assume P: "P s" and run: "sdk_send_or_lookup v tx h s = (r, t)"
  obtain q u where q: "sdk_send v tx s = (q, u)" by force
  have u: "P u" by (rule keepsD [OF keeps_send P q]) (rule assms)
  show "P t"
  proof (cases q)
    case (Inl e)
    then have "reconcileAmbiguousSubmission v h u = (r, t)" using run q by (simp add: sdk_send_or_lookup_def)
    from keepsD [OF keeps_reconcile u this] show ?thesis using assms by blast
  next
    case (Inr res)
    then have "sdk_after_send v res u = (r, t)" using run q by (simp add: sdk_send_or_lookup_def)
    from keepsD [OF keeps_after_send u this] show ?thesis using assms by blast
  qed
qed

lemma keeps_sendSigned:
  assumes "\<And>x. free (KSign x)" "\<And>u x. free (KSend u x)" "\<And>u h. free (KReceipt u h)" "\<And>h. free (KWs h)"
  shows "keeps P (sendSignedTransaction v x)"
  using assms unfolding sendSignedTransaction_def
  by (auto intro!: guar keeps_call keeps_lift keeps_send_or_lookup split: prod.split)

end

definition sdk_grown :: "sdk_call list \<Rightarrow> sdk_engine \<Rightarrow> bool" where
  "sdk_grown h s = (\<exists>new. sd_calls s = new @ h)"

interpretation sgrow: sdk_trace "sdk_grown h" "\<lambda>c. True" for h
  by unfold_locales (auto simp: sdk_grown_def)

fun is_ksign :: "sdk_call \<Rightarrow> bool" where
  "is_ksign (KSign x) = True"
| "is_ksign _ = False"

fun is_ksend :: "sdk_call \<Rightarrow> bool" where
  "is_ksend (KSend u x) = True"
| "is_ksend _ = False"

text \<open>The transactions handed to the wallet, oldest first.\<close>

fun signed_tx :: "sdk_call \<Rightarrow> string list" where
  "signed_tx (KSign x) = [x]"
| "signed_tx _ = []"

definition signed_since :: "sdk_engine \<Rightarrow> string list" where
  "signed_since s = concat (map signed_tx (rev (sd_calls s)))"

text \<open>The wallet was asked for exactly this list.\<close>

definition signed_is :: "string list \<Rightarrow> sdk_engine \<Rightarrow> bool" where
  "signed_is xs s = (signed_since s = xs)"

interpretation ssigned: sdk_trace "signed_is xs" "\<lambda>c. \<not> is_ksign c" for xs
proof unfold_locales
  fix s c assume "signed_is xs s" and "\<not> is_ksign c"
  then show "signed_is xs (s\<lparr>sd_calls := c # sd_calls s\<rparr>)"
    by (cases c) (simp_all add: signed_is_def signed_since_def)
qed (simp_all add: signed_is_def signed_since_def)

text \<open>The record of the last failure is untouched.\<close>

definition failed_is :: "sdk_failed option \<Rightarrow> sdk_engine \<Rightarrow> bool" where
  "failed_is f s = (sd_lastFailed s = f)"

interpretation sfailed: sdk_trace "failed_is f" "\<lambda>c. True" for f
  by unfold_locales (auto simp: failed_is_def)

text \<open>One submission asks the wallet once, for its own transaction.\<close>

lemma sendSigned_signs:
  assumes "sendSignedTransaction v x s = (r, t)"
  shows "signed_since t = signed_since s @ [x]"
proof -
  let ?u = "s\<lparr>sd_calls := KSign x # sd_calls s\<rparr>"
  have u: "signed_is (signed_since s @ [x]) ?u" by (simp add: signed_is_def signed_since_def)
  show ?thesis
  proof (cases "u_sign v (sd_calls s) x")
    case (Inl e)
    then show ?thesis using assms u by (auto simp: sendSignedTransaction_def ebind_def k_call_def signed_is_def)
  next
    case (Inr y)
    have k: "keeps (signed_is (signed_since s @ [x])) (ebind (k_lift (y_parseSigned v y)) (\<lambda>(tx, h). sdk_send_or_lookup v tx h))"
      by (auto intro!: guar ssigned.keeps_lift ssigned.keeps_send_or_lookup split: prod.split)
    have "ebind (k_lift (y_parseSigned v y)) (\<lambda>(tx, h). sdk_send_or_lookup v tx h) ?u = (r, t)"
      using assms Inr unfolding sendSignedTransaction_def
      by (subst (asm) ebind_def) (simp add: k_call_def)
    from keepsD [OF k u this] show ?thesis by (simp add: signed_is_def)
  qed
qed

end
