(* ===== verification/SdkRestore.thy ===== *)
theory SdkRestore
  imports SdkSubmit
begin

text \<open>
  The restore flow of the \<open>sdk\<close> client (\<open>packages/sdk/src/soroban-resurrect.ts\<close>): fees, batches under
  three limits, the restore transactions, their execution with one refresh of stale sequence numbers,
  receipts, recovery, and the original transaction afterwards.

  A flow that runs alone never finds an in-flight submission of its own transaction, so a submission is
  \<open>sendSignedTransaction\<close> here; the sharing of submissions between calls that overlap is modelled apart.
\<close>

section \<open>Results\<close>

record sdk_all =
  al_success :: bool
  al_batches :: "sdk_batch list"
  al_totalKeysRestored :: nat
  al_failedAtBatchIndex :: "nat option"
  al_error :: "string option"
  al_ambiguous :: bool

record sdk_execution =
  xe_success :: bool
  xe_restoreTxHash :: "string option"
  xe_originalTxHash :: "string option"
  xe_entriesRestored :: nat
  xe_simulateOnly :: bool
  xe_error :: "string option"
  xe_failedBatchIndex :: "nat option"
  xe_partialEntriesRestored :: "nat option"
  xe_batchResults :: "sdk_all option"

definition sdk_execution_of :: "bool \<Rightarrow> nat \<Rightarrow> sdk_execution" where
  "sdk_execution_of ok n = \<lparr>xe_success = ok, xe_restoreTxHash = None, xe_originalTxHash = None,
     xe_entriesRestored = n, xe_simulateOnly = False, xe_error = None, xe_failedBatchIndex = None,
     xe_partialEntriesRestored = None, xe_batchResults = None\<rparr>"

definition sdk_type_error :: "string \<Rightarrow> sdk_err" where
  "sdk_type_error m = OtherErr ''TypeError'' m"

definition bigint_error :: "string \<Rightarrow> sdk_err" where
  "bigint_error m = OtherErr ''SyntaxError'' (''Cannot convert '' @ m @ '' to a BigInt'')"

text \<open>
  Operations that run inside \<open>this.telemetry.trace\<close>. No assignment to \<open>telemetry\<close> exists in the class;
  \<open>cf_telemetry\<close> says whether the field holds a reporter all the same, and its \<open>trace\<close> runs the body.
\<close>

definition traced :: "sdk_env \<Rightarrow> 'a sact \<Rightarrow> 'a sact" where
  "traced v body = (if cf_telemetry v then body
     else ethrow (sdk_type_error ''Cannot read properties of undefined (reading 'trace')''))"

section \<open>Fees\<close>

definition SDK_PLACEHOLDER_ACCOUNT :: string where
  "SDK_PLACEHOLDER_ACCOUNT = ''GAAZI4TCR3TY5OJHCTJC2A4QSY6CJWJH5IAJTGKIN2ER7LBNVKOCCWN''"

text \<open>\<open>None\<close> stands for leaving the \<open>try\<close> block without a return.\<close>

definition sdk_fee_from :: "sim_response \<Rightarrow> string option sact" where
  "sdk_fee_from r = (case r of
     SimSuccess fp m \<Rightarrow>
       if m = [] then eret None
       else (case js_BigInt m of
           None \<Rightarrow> ethrow (bigint_error m)
         | Some minFee \<Rightarrow> eret (Some (int_dec (minFee + bigint_div minFee 10))))
   | _ \<Rightarrow> eret None)"

definition sdk_estimateRestoreFee :: "sdk_env \<Rightarrow> nat \<Rightarrow> string sact" where
  "sdk_estimateRestoreFee v batchSize =
    (if \<not> cf_dynamicFeeEstimation v then eret (cf_restoreFee v)
     else ebind
       (ecatch
         (ebind (k_lift (y_account v SDK_PLACEHOLDER_ACCOUNT 0)) (\<lambda>_.
          ebind (k_lift (y_buildRestore v SDK_PLACEHOLDER_ACCOUNT 0 (cf_restoreFee v) (y_footprintData v []))) (\<lambda>tx.
          ebind (sdk_retryOnFailure v
              (ebind (sdk_getServer v) (\<lambda>u. k_call (KSimulate u tx) (\<lambda>h. u_simulate v h tx)))
              ''simulateTransaction(estimateRestoreFee)'')
            sdk_fee_from)))
         (\<lambda>e. eret None))
       (\<lambda>fee. case fee of Some f \<Rightarrow> eret f | None \<Rightarrow> eret (cf_restoreFee v)))"

section \<open>Batches\<close>

definition SDK_MAX_XDR_SIZE_BYTES :: nat where
  "SDK_MAX_XDR_SIZE_BYTES = 100000"

definition fee_budget_exceeded :: "sdk_env \<Rightarrow> int option \<Rightarrow> nat \<Rightarrow> bool sact" where
  "fee_budget_exceeded v maxFee n = (case maxFee of
     None \<Rightarrow> eret False
   | Some budget \<Rightarrow>
       if n = 0 then eret False
       else ebind (sdk_estimateRestoreFee v (n + 1)) (\<lambda>f. case js_BigInt f of
           None \<Rightarrow> ethrow (bigint_error f)
         | Some fee \<Rightarrow> eret (budget < fee)))"

fun sdk_batch_loop ::
  "sdk_env \<Rightarrow> int option \<Rightarrow> int \<Rightarrow> sdk_key list list \<Rightarrow> sdk_key list \<Rightarrow> nat \<Rightarrow> sdk_key list \<Rightarrow>
   sdk_key list list sact" where
  "sdk_batch_loop v maxFee maxBatchSize batches currentBatch currentSize [] =
    eret (if currentBatch \<noteq> [] then batches @ [currentBatch] else batches)"
| "sdk_batch_loop v maxFee maxBatchSize batches currentBatch currentSize (key # keys) =
    (let keySize = length (kx_keyBase64 key);
         estimatedTotalSize = currentSize + keySize + 200;
         xdrSizeExceeded = (SDK_MAX_XDR_SIZE_BYTES < estimatedTotalSize \<and> currentBatch \<noteq> []);
         batchSizeExceeded = (maxBatchSize \<le> int (length currentBatch))
     in ebind (fee_budget_exceeded v maxFee (length currentBatch)) (\<lambda>feeBudgetExceeded.
          if (xdrSizeExceeded \<or> batchSizeExceeded \<or> feeBudgetExceeded) \<and> currentBatch \<noteq> []
          then sdk_batch_loop v maxFee maxBatchSize (batches @ [currentBatch]) [key] keySize keys
          else sdk_batch_loop v maxFee maxBatchSize batches (currentBatch @ [key]) estimatedTotalSize keys))"

definition batch_size_limit :: "sdk_env \<Rightarrow> int" where
  "batch_size_limit v = (if cf_maxRestoreBatchSize v = 0 then 50 else cf_maxRestoreBatchSize v)"

definition sdk_batchKeys :: "sdk_env \<Rightarrow> sdk_key list \<Rightarrow> sdk_key list list sact" where
  "sdk_batchKeys v keys =
    (if truthy_str (cf_maxRestoreFeeStroops v)
     then (case js_BigInt (the (cf_maxRestoreFeeStroops v)) of
         None \<Rightarrow> ethrow (bigint_error (the (cf_maxRestoreFeeStroops v)))
       | Some budget \<Rightarrow> sdk_batch_loop v (Some budget) (batch_size_limit v) [] [] 0 keys)
     else sdk_batch_loop v None (batch_size_limit v) [] [] 0 keys)"

definition sdk_group_id :: "sdk_key \<Rightarrow> string" where
  "sdk_group_id k = (case kx_contractId k of Some i \<Rightarrow> i | None \<Rightarrow> ''__unknown__'')"

definition sdk_groupKeysByContract :: "sdk_key list \<Rightarrow> (string, sdk_key list) js_map" where
  "sdk_groupKeysByContract keys = group_by sdk_group_id keys"

fun sdk_batchKeyGroups :: "sdk_env \<Rightarrow> (string, sdk_key list) js_map \<Rightarrow> sdk_key list list sact" where
  "sdk_batchKeyGroups v [] = eret []"
| "sdk_batchKeyGroups v (g # groups) =
    ebind (sdk_batchKeys v (snd g)) (\<lambda>subBatches.
    ebind (sdk_batchKeyGroups v groups) (\<lambda>rest. eret (subBatches @ rest)))"

section \<open>Restore transactions\<close>

definition sdk_fetch_sequence :: "sdk_env \<Rightarrow> string \<Rightarrow> int sact" where
  "sdk_fetch_sequence v source =
    sdk_retryOnFailure v (ebind (sdk_getServer v) (\<lambda>u. k_call (KAccount u source) (\<lambda>h. u_getAccount v h source)))
      (''getAccount('' @ source @ '')'')"

definition bump_wrap_error :: "sdk_err \<Rightarrow> sdk_err" where
  "bump_wrap_error e = sdk_error_new (''Failed to wrap restore transaction in fee-bump: '' @ sdk_message e) ''INVALID_XDR'' None"

definition wrapRestoreTransactionInFeeBump :: "sdk_env \<Rightarrow> string \<Rightarrow> string \<Rightarrow> string \<Rightarrow> sdk_err + string" where
  "wrapRestoreTransactionInFeeBump v inner sponsor innerFee = (case y_account v sponsor 0 of
     Inl e \<Rightarrow> Inl (bump_wrap_error e)
   | Inr _ \<Rightarrow> (case js_BigInt innerFee of
       None \<Rightarrow> Inl (bump_wrap_error (bigint_error innerFee))
     | Some f \<Rightarrow> (case y_buildFeeBump v (Some sponsor) (int_dec (f * 2)) inner of
         Inl e \<Rightarrow> Inl (bump_wrap_error e)
       | Inr x \<Rightarrow> Inr x)))"

definition sdk_pending_batch :: "nat \<Rightarrow> string \<Rightarrow> sdk_key list \<Rightarrow> sdk_batch" where
  "sdk_pending_batch i tx keys = \<lparr>bt_batchIndex = i, bt_transactionXDR = tx, bt_keysRestored = length keys,
     bt_status = Pending, bt_txHash = None, bt_error = None\<rparr>"

text \<open>
  One transaction per batch on consecutive sequence numbers; the sponsor is absent in the concurrent
  variant, which never wraps.
\<close>

fun sdk_build_batches ::
  "sdk_env \<Rightarrow> string option \<Rightarrow> string \<Rightarrow> nat \<Rightarrow> int \<Rightarrow> sdk_key list list \<Rightarrow> sdk_batch list sact" where
  "sdk_build_batches v sponsor source i currentSequence [] = eret []"
| "sdk_build_batches v sponsor source i currentSequence (keys # batches) =
    ebind (k_lift (y_account v source currentSequence)) (\<lambda>_.
    ebind (sdk_estimateRestoreFee v (length keys)) (\<lambda>fee.
    ebind (k_lift (y_buildRestore v source currentSequence fee (y_footprintData v (map kx_key keys)))) (\<lambda>tx.
    ebind (if truthy_str sponsor then k_lift (wrapRestoreTransactionInFeeBump v tx (the sponsor) fee) else eret tx)
      (\<lambda>transactionXDR.
    ebind (sdk_build_batches v sponsor source (Suc i) (currentSequence + 1) batches) (\<lambda>rest.
    eret (sdk_pending_batch i transactionXDR keys # rest))))))"

definition sdk_no_keys :: sdk_err where
  "sdk_no_keys = sdk_error_new (''No archived keys to restore. Fix: call detectArchived()/simulate first and '' @
     ''pass the archived keys it returns.'') ''INVALID_XDR'' None"

definition sdk_classify_again :: "priority_map \<Rightarrow> sdk_key list \<Rightarrow> sdk_key list" where
  "sdk_classify_again pm keys = sdk_classifyDeferredKeys pm (map (\<lambda>k. (kx_key k, kx_keyBase64 k)) keys)"

definition sdk_buildRestoreTransactionBatches :: "sdk_env \<Rightarrow> sdk_key list \<Rightarrow> string \<Rightarrow> sdk_batch list sact" where
  "sdk_buildRestoreTransactionBatches v archivedKeys source =
    (if archivedKeys = [] then ethrow sdk_no_keys
     else ebind (sdk_batchKeys v (sdk_classify_again (cf_restorePriorityMap v) archivedKeys)) (\<lambda>batches.
          ebind (sdk_fetch_sequence v source) (\<lambda>sequence.
          sdk_build_batches v (cf_feeBumpSponsor v) source 0 sequence batches)))"

definition sdk_buildRestoreTransactionBatchesConcurrent ::
  "sdk_env \<Rightarrow> sdk_key list \<Rightarrow> string \<Rightarrow> sdk_batch list sact" where
  "sdk_buildRestoreTransactionBatchesConcurrent v archivedKeys source =
    (if archivedKeys = [] then ethrow sdk_no_keys
     else ebind (sdk_batchKeyGroups v
            (sdk_groupKeysByContract (sdk_classify_again (cf_restorePriorityMap v) archivedKeys))) (\<lambda>batches.
          ebind (sdk_fetch_sequence v source) (\<lambda>sequence.
          sdk_build_batches v None source 0 sequence batches)))"

text \<open>\<open>None\<close> for the keys is \<open>undefined\<close>: it is read only after the account has been fetched.\<close>

definition sdk_buildSingleRestoreTransaction ::
  "sdk_env \<Rightarrow> sdk_key list option \<Rightarrow> string \<Rightarrow> (string \<times> nat) sact" where
  "sdk_buildSingleRestoreTransaction v keys source =
    ebind (sdk_fetch_sequence v source) (\<lambda>sequence. case keys of
        None \<Rightarrow> ethrow (sdk_type_error ''Cannot read properties of undefined (reading 'map')'')
      | Some ks \<Rightarrow>
          ebind (sdk_estimateRestoreFee v (length ks)) (\<lambda>fee.
          ebind (k_lift (y_buildRestore v source sequence fee (y_footprintData v (map kx_key ks)))) (\<lambda>tx.
          eret (tx, length ks))))"

text \<open>
  \<open>batchKeys\<close> is \<open>async\<close> and its promise is not awaited here, so \<open>batches[0]\<close> is \<open>undefined\<close> and
  \<open>batches.length\<close> too. What the abandoned promise does, fee simulations at most, is left out.
\<close>

definition sdk_buildRestoreTransaction :: "sdk_env \<Rightarrow> sdk_key list \<Rightarrow> string \<Rightarrow> (string \<times> nat) sact" where
  "sdk_buildRestoreTransaction v archivedKeys source =
    (if archivedKeys = [] then ethrow sdk_no_keys
     else traced v
       (let classified = sdk_classify_again (\<lambda>t. None) archivedKeys; batches_0 = None
        in ebind (sdk_emit v (SdkRestoreStart classified)) (\<lambda>_.
           ebind (sdk_buildSingleRestoreTransaction v batches_0 source) (\<lambda>result.
           ebind (sdk_emit v (SdkBatchComplete 0 None)) (\<lambda>_.
           ebind (sdk_emit v (SdkRestoreComplete (fst result) (snd result))) (\<lambda>_. eret result))))))"

end
