(* ===== verification/SdkRun.thy ===== *)
theory SdkRun
  imports SdkRestore Values
begin

text \<open>
  Execution in the \<open>sdk\<close> client (\<open>packages/sdk/src/soroban-resurrect.ts\<close>): batches in sequence with one
  refresh of stale sequence numbers, receipts and their resumption, the retry of what failed, the original
  transaction after a restore, and the health report.
\<close>

section \<open>Rebuilding batches\<close>

text \<open>
  As in the other client a sequence number is spent once the account object exists. The second component
  is the next number.
\<close>

definition sdk_rebuild_batch :: "sdk_env \<Rightarrow> string \<Rightarrow> int \<Rightarrow> sdk_batch \<Rightarrow> (string \<times> int) sact" where
  "sdk_rebuild_batch v source currentSequence b =
    (case y_fromXDR v (bt_transactionXDR b) of
       Inl e \<Rightarrow> eret (bt_transactionXDR b, currentSequence)
     | Inr tx \<Rightarrow> (case y_account v source currentSequence of
         Inl e \<Rightarrow> eret (bt_transactionXDR b, currentSequence)
       | Inr _ \<Rightarrow>
           ecatch
             (ebind (sdk_estimateRestoreFee v (bt_keysRestored b)) (\<lambda>fee.
              ebind (k_lift (y_buildRestore v source currentSequence fee
                  (case pt_sorobanData tx of Some d \<Rightarrow> d | None \<Rightarrow> bt_transactionXDR b))) (\<lambda>x.
              eret (x, currentSequence + 1))))
             (\<lambda>e. eret (bt_transactionXDR b, currentSequence + 1))))"

definition reset_batch :: "sdk_batch \<Rightarrow> sdk_batch" where
  "reset_batch b = b\<lparr>bt_status := Pending, bt_txHash := None, bt_error := None\<rparr>"

fun sdk_rebuild_batches :: "sdk_env \<Rightarrow> string \<Rightarrow> int \<Rightarrow> sdk_batch list \<Rightarrow> sdk_batch list sact" where
  "sdk_rebuild_batches v source currentSequence [] = eret []"
| "sdk_rebuild_batches v source currentSequence (b # bs) =
    ebind (sdk_rebuild_batch v source currentSequence b) (\<lambda>(x, n).
    ebind (sdk_rebuild_batches v source n bs) (\<lambda>rest.
    eret (reset_batch (b\<lparr>bt_transactionXDR := x\<rparr>) # rest)))"

definition rebuildRestoreBatches :: "sdk_env \<Rightarrow> sdk_batch list \<Rightarrow> string \<Rightarrow> sdk_batch list sact" where
  "rebuildRestoreBatches v batches source =
    ebind (sdk_fetch_sequence v source) (\<lambda>sequence. sdk_rebuild_batches v source sequence batches)"

section \<open>Batches in sequence\<close>

definition sdk_succeeded :: "sdk_batch \<Rightarrow> string \<Rightarrow> sdk_batch" where
  "sdk_succeeded b hash = b\<lparr>bt_txHash := Some hash, bt_status := Success\<rparr>"

definition sdk_failed_with :: "sdk_batch \<Rightarrow> string \<Rightarrow> sdk_batch" where
  "sdk_failed_with b msg = b\<lparr>bt_status := Failed, bt_error := Some msg\<rparr>"

definition sdk_batch_failure ::
  "string option \<Rightarrow> nat \<Rightarrow> sdk_batch list \<Rightarrow> nat \<Rightarrow> sdk_batch \<Rightarrow> sdk_batch list \<Rightarrow> sdk_err \<Rightarrow> sdk_all sact" where
  "sdk_batch_failure source i results restored b rest e = (\<lambda>s.
     let failed = sdk_failed_with b (sdk_message e)
     in (Inr \<lparr>al_success = False, al_batches = results @ [failed], al_totalKeysRestored = restored,
              al_failedAtBatchIndex = Some i,
              al_error = Some (''Batch '' @ nat_dec (i + 1) @ '' failed: '' @ sdk_message e),
              al_ambiguous = isAmbiguousSubmissionError e\<rparr>,
         s\<lparr>sd_lastFailed := Some \<lparr>sl_sourceAccountID = (case source of None \<Rightarrow> [] | Some a \<Rightarrow> a),
              sl_failedBatches = failed # rest, sl_failedKeys = [], sl_failedBatchIndex = i,
              sl_partialEntriesRestored = restored\<rparr>\<rparr>))"

definition wants_refresh :: "string option \<Rightarrow> bool \<Rightarrow> sdk_err \<Rightarrow> bool" where
  "wants_refresh source refreshed e = (truthy_str source \<and> \<not> refreshed \<and> isStaleSequenceError e)"

text \<open>
  The loop: \<open>queue\<close> is what \<open>queue.slice(i)\<close> holds. A refresh replaces it and stays at the same position; a
  failed refresh leaves the function. It ends because the refresh happens once and every other round
  shortens the queue.
\<close>

function sdk_execute_from ::
  "sdk_env \<Rightarrow> string option \<Rightarrow> bool \<Rightarrow> nat \<Rightarrow> sdk_batch list \<Rightarrow> nat \<Rightarrow> sdk_batch list \<Rightarrow> sdk_engine \<Rightarrow>
   (sdk_err + sdk_all) \<times> sdk_engine" where
  "sdk_execute_from v source refreshed i results restored [] s =
    (Inr \<lparr>al_success = True, al_batches = results, al_totalKeysRestored = restored,
          al_failedAtBatchIndex = None, al_error = None, al_ambiguous = False\<rparr>, s\<lparr>sd_lastFailed := None\<rparr>)"
| "sdk_execute_from v source refreshed i results restored (b # queue) s =
    (case sendSignedTransaction v (bt_transactionXDR b) s of
       (Inr hash, t) \<Rightarrow>
         sdk_execute_from v source refreshed (Suc i) (results @ [sdk_succeeded b hash])
           (restored + bt_keysRestored b) queue t
     | (Inl e, t) \<Rightarrow>
         if wants_refresh source refreshed e
         then (case rebuildRestoreBatches v (b # queue) (the source) t of
             (Inl e', u) \<Rightarrow> (Inl e', u)
           | (Inr rebuilt, u) \<Rightarrow> sdk_execute_from v source True i results restored rebuilt u)
         else sdk_batch_failure source i results restored b queue e t)"
  by pat_completeness auto
termination
  by (relation "measures [\<lambda>(v, source, refreshed, i, results, restored, queue, s). if refreshed then 0 else 1,
        \<lambda>(v, source, refreshed, i, results, restored, queue, s). length queue]")
    (auto simp: wants_refresh_def)

definition sdk_executeRestoreBatches :: "sdk_env \<Rightarrow> sdk_batch list \<Rightarrow> string option \<Rightarrow> sdk_all sact" where
  "sdk_executeRestoreBatches v batches source = sdk_execute_from v source False 0 [] 0 batches"

definition sdk_getFailedKeys :: "sdk_engine \<Rightarrow> sdk_failed option" where
  "sdk_getFailedKeys s = sd_lastFailed s"

definition sdk_clear_failed :: "unit sact" where
  "sdk_clear_failed = (\<lambda>s. (Inr (), s\<lparr>sd_lastFailed := None\<rparr>))"

definition sdk_retryFailedRestore :: "sdk_env \<Rightarrow> sdk_failed \<Rightarrow> sdk_execution sact" where
  "sdk_retryFailedRestore v state =
    (if sl_failedBatches state = [] then eret (sdk_execution_of True (sl_partialEntriesRestored state))
     else
       ebind (rebuildRestoreBatches v (sl_failedBatches state) (sl_sourceAccountID state)) (\<lambda>rebuilt.
       ebind (sdk_executeRestoreBatches v rebuilt (Some (sl_sourceAccountID state))) (\<lambda>res.
       let totalRestored = sl_partialEntriesRestored state + al_totalKeysRestored res
       in if al_success res
          then ebind sdk_clear_failed (\<lambda>_.
                 eret ((sdk_execution_of True totalRestored)\<lparr>xe_batchResults := Some res\<rparr>))
          else eret ((sdk_execution_of False totalRestored)
                 \<lparr>xe_failedBatchIndex := al_failedAtBatchIndex res, xe_partialEntriesRestored := Some totalRestored,
                  xe_error := al_error res, xe_batchResults := Some res\<rparr>))))"

section \<open>Receipts\<close>

record sdk_receipt =
  rc_version :: nat
  rc_sourceAccountID :: string
  rc_batches :: "sdk_batch list"

text \<open>\<open>new Map(bs.map(b => [b.batchIndex, b]))\<close>: the last batch of an index counts.\<close>

definition by_index :: "sdk_batch list \<Rightarrow> nat \<Rightarrow> sdk_batch option" where
  "by_index bs i = find (\<lambda>b. bt_batchIndex b = i) (rev bs)"

definition or_same :: "(nat \<Rightarrow> sdk_batch option) \<Rightarrow> sdk_batch \<Rightarrow> sdk_batch" where
  "or_same m b = (case m (bt_batchIndex b) of Some r \<Rightarrow> r | None \<Rightarrow> b)"

definition createExecutionReceipt :: "sdk_all \<Rightarrow> string \<Rightarrow> sdk_batch list \<Rightarrow> sdk_receipt" where
  "createExecutionReceipt result source plannedBatches =
    \<lparr>rc_version = 1, rc_sourceAccountID = source,
     rc_batches = map (or_same (by_index (al_batches result))) plannedBatches\<rparr>"

definition invalid_receipt :: "string \<Rightarrow> sdk_err" where
  "invalid_receipt reason = sdk_error_new (''Invalid execution receipt: '' @ reason @
     ''. Fix: pass the JSON produced by JSON.stringify(createExecutionReceipt(...)).'') ''INVALID_XDR'' None"

text \<open>
  A property of a JSON value: \<open>undefined\<close> (\<open>None\<close>) of a primitive or where an object has none; \<open>null\<close> has
  no properties at all, which is the \<open>TypeError\<close> of the loop below.
\<close>

definition json_prop :: "json \<Rightarrow> string \<Rightarrow> json option" where
  "json_prop j k = (case j of JObj kvs \<Rightarrow> map_of (rev kvs) k | _ \<Rightarrow> None)"

definition prop_text :: "json_codec \<Rightarrow> json option \<Rightarrow> string" where
  "prop_text c p = (case p of Some (JNum x) \<Rightarrow> jc_number c x | _ \<Rightarrow> ''undefined'')"

definition receipt_batch_error :: "json_codec \<Rightarrow> json \<Rightarrow> sdk_err option" where
  "receipt_batch_error c b =
    (if b = JNull then Some (sdk_type_error ''Cannot read properties of null (reading 'batchIndex')'')
     else if \<not> (case json_prop b ''batchIndex'' of Some (JNum n) \<Rightarrow> True | _ \<Rightarrow> False)
     then Some (invalid_receipt ''batch is missing batchIndex'')
     else if \<not> (case json_prop b ''transactionXDR'' of Some (JStr x) \<Rightarrow> True | _ \<Rightarrow> False)
     then Some (invalid_receipt (''batch '' @ prop_text c (json_prop b ''batchIndex'') @ '' is missing transactionXDR''))
     else if \<not> (case json_prop b ''keysRestored'' of Some (JNum n) \<Rightarrow> True | _ \<Rightarrow> False)
     then Some (invalid_receipt (''batch '' @ prop_text c (json_prop b ''batchIndex'') @ '' is missing keysRestored''))
     else if \<not> (case json_prop b ''status'' of
                  Some (JStr x) \<Rightarrow> List.member [''pending'', ''success'', ''failed''] x | _ \<Rightarrow> False)
     then Some (invalid_receipt (''batch '' @ prop_text c (json_prop b ''batchIndex'') @ '' has an unknown status''))
     else None)"

fun first_batch_error :: "json_codec \<Rightarrow> json list \<Rightarrow> sdk_err option" where
  "first_batch_error c [] = None"
| "first_batch_error c (b # bs) = (case receipt_batch_error c b of Some e \<Rightarrow> Some e | None \<Rightarrow> first_batch_error c bs)"

definition parseExecutionReceipt :: "json_codec \<Rightarrow> string \<Rightarrow> sdk_err + json" where
  "parseExecutionReceipt c json = (case jc_parse c json of
     Inl m \<Rightarrow> Inl (invalid_receipt ''not valid JSON'')
   | Inr parsed \<Rightarrow>
       if \<not> (case parsed of JObj kvs \<Rightarrow> True | JArr xs \<Rightarrow> True | _ \<Rightarrow> False)
       then Inl (invalid_receipt ''expected an object'')
       else if json_prop parsed ''version'' \<noteq> Some (JNum (js_int 1))
       then Inl (invalid_receipt ''unsupported version'')
       else if \<not> (case json_prop parsed ''sourceAccountID'' of Some (JStr x) \<Rightarrow> True | _ \<Rightarrow> False)
       then Inl (invalid_receipt ''missing sourceAccountID'')
       else (case json_prop parsed ''batches'' of
           Some (JArr bs) \<Rightarrow> (case first_batch_error c bs of Some e \<Rightarrow> Inl e | None \<Rightarrow> Inr parsed)
         | _ \<Rightarrow> Inl (invalid_receipt ''missing batches array'')))"

definition sum_keys :: "sdk_batch list \<Rightarrow> nat" where
  "sum_keys bs = sum_list (map bt_keysRestored bs)"

definition resumeRestoreBatches :: "sdk_env \<Rightarrow> sdk_receipt \<Rightarrow> sdk_all sact" where
  "resumeRestoreBatches v receipt =
    (let ordered = sort_key bt_batchIndex (rc_batches receipt);
         pending = filter (\<lambda>b. bt_status b \<noteq> Success \<and> \<not> truthy_str (bt_txHash b)) ordered
     in if pending = []
        then eret \<lparr>al_success = True, al_batches = ordered, al_totalKeysRestored = sum_keys ordered,
                   al_failedAtBatchIndex = None, al_error = None, al_ambiguous = False\<rparr>
        else ebind (sdk_executeRestoreBatches v (map reset_batch pending) (Some (rc_sourceAccountID receipt)))
          (\<lambda>resumed. let merged = map (or_same (by_index (al_batches resumed))) ordered
             in eret \<lparr>al_success = al_success resumed, al_batches = merged,
                      al_totalKeysRestored = sum_keys (filter (\<lambda>b. bt_status b = Success) merged),
                      al_failedAtBatchIndex = al_failedAtBatchIndex resumed, al_error = al_error resumed,
                      al_ambiguous = False\<rparr>))"

end
