(* ===== verification/SdkFlow.thy ===== *)
theory SdkFlow
  imports SdkRun
begin

text \<open>
  The whole flows of the \<open>sdk\<close> client (\<open>packages/sdk/src/soroban-resurrect.ts\<close>): restore and then the
  original transaction, from one restore transaction or from batches, and the self-diagnosis.
\<close>

section \<open>Fee bumps\<close>

record sdk_fee_bump =
  sf_isFeeBump :: bool
  sf_innerTransactionXDR :: "string option"
  sf_feeAccountID :: "string option"
  sf_feeBumpFee :: "string option"

definition sdk_extractFeeBumpMetadata :: "parsed_tx \<Rightarrow> sdk_fee_bump" where
  "sdk_extractFeeBumpMetadata tx =
    (if \<not> pt_feeBump tx
     then \<lparr>sf_isFeeBump = False, sf_innerTransactionXDR = None, sf_feeAccountID = None, sf_feeBumpFee = None\<rparr>
     else \<lparr>sf_isFeeBump = True, sf_innerTransactionXDR = Some (pt_innerXDR tx),
           sf_feeAccountID = pt_feeAccountID tx, sf_feeBumpFee = pt_feeBumpFee tx\<rparr>)"

definition rewrap_error :: "sdk_err \<Rightarrow> sdk_err" where
  "rewrap_error e = sdk_error_new (''Failed to re-wrap fee-bump transaction: '' @ sdk_message e) ''INVALID_XDR'' None"

definition sdk_reWrapFeeBumpTransaction :: "sdk_env \<Rightarrow> string \<Rightarrow> parsed_tx \<Rightarrow> sdk_err + string" where
  "sdk_reWrapFeeBumpTransaction v innerXDR originalTx =
    (let m = sdk_extractFeeBumpMetadata originalTx
     in if \<not> sf_isFeeBump m \<or> \<not> truthy_str (sf_feeAccountID m) \<or> \<not> truthy_str (sf_feeBumpFee m)
        then Inl (sdk_error_new ''Cannot re-wrap: missing fee-bump metadata'' ''INVALID_XDR'' None)
        else (case y_fromXDR v innerXDR of
            Inl e \<Rightarrow> Inl (rewrap_error e)
          | Inr inner \<Rightarrow> (case y_buildFeeBump v None (the (sf_feeBumpFee m)) innerXDR of
              Inl e \<Rightarrow> Inl (rewrap_error e)
            | Inr x \<Rightarrow> Inr x)))"

definition sdk_tx_to_submit :: "sdk_env \<Rightarrow> string \<Rightarrow> string" where
  "sdk_tx_to_submit v originalXDR = (case y_fromXDR v originalXDR of
     Inl e \<Rightarrow> originalXDR
   | Inr tx \<Rightarrow>
       if pt_feeBump tx
       then (case sdk_reWrapFeeBumpTransaction v (pt_innerXDR tx) tx of Inl e \<Rightarrow> originalXDR | Inr x \<Rightarrow> x)
       else originalXDR)"

definition sdk_count_keys :: "sdk_env \<Rightarrow> string \<Rightarrow> nat" where
  "sdk_count_keys v restoreXDR = (case y_fromXDR v restoreXDR of
     Inl e \<Rightarrow> 0
   | Inr tx \<Rightarrow> (case pt_footprint tx of
       None \<Rightarrow> 0
     | Some fp \<Rightarrow> length (fk_all (sdk_extractKeysFromFootprint fp))))"

section \<open>One restore transaction, then the original\<close>

definition sdk_submit_original :: "sdk_env \<Rightarrow> string \<Rightarrow> string sact" where
  "sdk_submit_original v tx =
    ebind (sdk_emit v SdkOriginalStart) (\<lambda>_.
    ebind (sendSignedTransaction v tx) (\<lambda>hash.
    ebind (sdk_emit v (SdkOriginalComplete hash)) (\<lambda>_. eret hash)))"

definition sdk_restore_failed :: "sdk_env \<Rightarrow> sdk_err \<Rightarrow> sdk_err" where
  "sdk_restore_failed v e = sdk_error_new (''Restore transaction failed (rpcUrl='' @ rpcUrl_text v @ ''): '' @
     sdk_message e) ''RESTORE_FAILED'' None"

definition sdk_original_failed :: "sdk_env \<Rightarrow> string \<Rightarrow> sdk_err \<Rightarrow> sdk_err" where
  "sdk_original_failed v restoreTxHash e = sdk_error_new (''Original transaction failed after successful restore (rpcUrl='' @
     rpcUrl_text v @ '', restoreTxHash='' @ restoreTxHash @ ''): '' @ sdk_message e) ''ORIGINAL_TX_FAILED'' (Some restoreTxHash)"

definition sdk_executeRestoreThenOriginal :: "sdk_env \<Rightarrow> string \<Rightarrow> string \<Rightarrow> sdk_execution sact" where
  "sdk_executeRestoreThenOriginal v restoreXDR originalXDR = traced v
    (if cf_simulateOnly v
     then eret ((sdk_execution_of True (sdk_count_keys v restoreXDR))\<lparr>xe_simulateOnly := True\<rparr>)
     else
       ebind (ecatch (sendSignedTransaction v restoreXDR) (\<lambda>e. ethrow (sdk_restore_failed v e))) (\<lambda>restoreTxHash.
       ebind (ecatch (sdk_submit_original v (sdk_tx_to_submit v originalXDR))
                (\<lambda>e. ethrow (sdk_original_failed v restoreTxHash e))) (\<lambda>originalTxHash.
       eret ((sdk_execution_of True (sdk_count_keys v restoreXDR))
         \<lparr>xe_restoreTxHash := Some restoreTxHash, xe_originalTxHash := Some originalTxHash\<rparr>))))"

section \<open>Batches, then the original\<close>

definition is_restore_failed :: "sdk_err \<Rightarrow> bool" where
  "is_restore_failed e = (case e of SdkErr r \<Rightarrow> er_code r = ''RESTORE_FAILED'' | OtherErr n m \<Rightarrow> False)"

definition index_text :: "nat option \<Rightarrow> string" where
  "index_text i = (case i of None \<Rightarrow> ''undefined'' | Some n \<Rightarrow> nat_dec n)"

definition ambiguous_stop :: "sdk_all \<Rightarrow> sdk_err" where
  "ambiguous_stop res = sdk_error_new (''Restore batch '' @
     nat_dec ((case al_failedAtBatchIndex res of None \<Rightarrow> 0 | Some i \<Rightarrow> i) + 1) @
     '' has an unconfirmed outcome; original transaction was not submitted. Fix: confirm the batch transaction '' @
     ''on-chain, then call getFailedKeys() and retryFailedRestore() before resubmitting the original.'')
     ''RESTORE_FAILED'' None"

definition partial_stop :: "sdk_all \<Rightarrow> sdk_err" where
  "partial_stop res = sdk_error_new
     (if truthy_str (al_error res) then the (al_error res)
      else ''Batch '' @ index_text (al_failedAtBatchIndex res) @ '' failed'') ''RESTORE_FAILED'' None"

text \<open>The batches are executed without a source account: their sequence numbers are never refreshed.\<close>

definition restore_batches_first :: "sdk_env \<Rightarrow> sdk_batch list \<Rightarrow> bool \<Rightarrow> sdk_all sact" where
  "restore_batches_first v restoreBatches requireAllBatches =
    ecatch
      (ebind (sdk_executeRestoreBatches v restoreBatches None) (\<lambda>res.
         if al_success res then eret res
         else if al_ambiguous res then ethrow (ambiguous_stop res)
         else if requireAllBatches then ethrow (partial_stop res)
         else eret res))
      (\<lambda>e. if is_restore_failed e then ethrow e
           else ethrow (sdk_error_new (''Restore batches failed: '' @ sdk_message e) ''RESTORE_FAILED'' None))"

definition sdk_executeRestoreThenOriginalBatches ::
  "sdk_env \<Rightarrow> sdk_batch list \<Rightarrow> string \<Rightarrow> bool \<Rightarrow> sdk_execution sact" where
  "sdk_executeRestoreThenOriginalBatches v restoreBatches originalXDR requireAllBatches =
    ebind (restore_batches_first v restoreBatches requireAllBatches) (\<lambda>res.
    ebind (ecatch (sendSignedTransaction v originalXDR)
             (\<lambda>e. ethrow (sdk_error_new (''Original transaction failed: '' @ sdk_message e) ''ORIGINAL_TX_FAILED'' None)))
      (\<lambda>originalTxHash.
    eret ((sdk_execution_of (al_success res) (al_totalKeysRestored res))
      \<lparr>xe_originalTxHash := Some originalTxHash, xe_batchResults := Some res,
       xe_failedBatchIndex := al_failedAtBatchIndex res,
       xe_partialEntriesRestored :=
         (if al_failedAtBatchIndex res \<noteq> None then Some (al_totalKeysRestored res) else None)\<rparr>)))"

section \<open>Diagnosis\<close>

definition sdk_validateNetworkPassphrase :: "sdk_env \<Rightarrow> unit sact" where
  "sdk_validateNetworkPassphrase v =
    ecatch
      (ebind (k_call KNetwork (u_getNetwork v)) (\<lambda>passphrase.
         if passphrase \<noteq> cf_networkPassphrase v
         then ebind (\<lambda>s. (Inr (), s\<lparr>sd_passphraseValid := False\<rparr>)) (\<lambda>_.
                if cf_strictNetworkValidation v
                then ethrow (sdk_error_new (''Network passphrase mismatch: configured \"'' @ cf_networkPassphrase v @
                       ''\" but RPC server reports \"'' @ passphrase @
                       ''\". Fix: set networkPassphrase to match the RPC endpoint (e.g. Networks.TESTNET / '' @
                       ''Networks.PUBLIC) or point rpcUrl at the correct network.'') ''NETWORK_ERROR'' None)
                else eret ())
         else eret ()))
      (\<lambda>e. if is_sdk_error e then ethrow e else eret ())"

text \<open>Called nowhere in the class, so the two fields keep their initial values.\<close>

definition recordRestoreOutcome :: "sdk_env \<Rightarrow> bool \<Rightarrow> sdk_engine \<Rightarrow> sdk_engine" where
  "recordRestoreOutcome v ok s =
    s\<lparr>sd_lastRestoreSuccess := ok, sd_lastRestoreTimestamp := Some (u_now v (sd_calls s))\<rparr>"

record health_report =
  hr_status :: string
  hr_rpcConnected :: bool
  hr_rpcLatencyMs :: int
  hr_networkPassphraseValid :: bool
  hr_accountAccessible :: bool
  hr_sdkVersion :: string
  hr_uptimeMs :: int
  hr_lastRestoreSuccess :: bool
  hr_lastRestoreTimestamp :: "int option"

definition health_status :: "bool \<Rightarrow> bool \<Rightarrow> bool \<Rightarrow> string" where
  "health_status rpcConnected passphraseValid accountAccessible =
    (if \<not> rpcConnected then ''unhealthy''
     else if \<not> passphraseValid \<or> \<not> accountAccessible then ''degraded'' else ''healthy'')"

definition succeeds :: "'a sact \<Rightarrow> bool sact" where
  "succeeds act = ecatch (ebind act (\<lambda>_. eret True)) (\<lambda>e. eret False)"

text \<open>
  \<open>version\<close> is the identifier \<open>VERSION\<close>, which the file neither declares nor imports: \<open>None\<close> is the
  \<open>ReferenceError\<close> of the file as it stands. The object reads the clock twice, so do the arguments.
\<close>

definition sdk_getHealth :: "sdk_env \<Rightarrow> string option \<Rightarrow> string option \<Rightarrow> health_report sact" where
  "sdk_getHealth v version accountId =
    ebind (k_ask (u_now v)) (\<lambda>startedAt.
    ebind (succeeds (k_call KHealth (u_getHealth v))) (\<lambda>rpcConnected.
    ebind (k_ask (u_now v)) (\<lambda>probed.
    ebind (if rpcConnected \<and> truthy_str accountId
           then succeeds (k_call (KAccount (hd (cf_rpcUrls v)) (the accountId)) (\<lambda>h. u_getAccount v h (the accountId)))
           else eret rpcConnected) (\<lambda>accountAccessible.
    ebind (k_ask (u_now v)) (\<lambda>now. \<lambda>s. case version of
       None \<Rightarrow> (Inl (OtherErr ''ReferenceError'' ''VERSION is not defined''), s)
     | Some vs \<Rightarrow> (Inr
         \<lparr>hr_status = health_status rpcConnected (sd_passphraseValid s) accountAccessible,
          hr_rpcConnected = rpcConnected, hr_rpcLatencyMs = probed - startedAt,
          hr_networkPassphraseValid = sd_passphraseValid s, hr_accountAccessible = accountAccessible,
          hr_sdkVersion = vs, hr_uptimeMs = now - sd_startedAt s,
          hr_lastRestoreSuccess = sd_lastRestoreSuccess s,
          hr_lastRestoreTimestamp = sd_lastRestoreTimestamp s\<rparr>, s))))))"

section \<open>A new client\<close>

text \<open>The cache is there when it is configured and enabled.\<close>

definition sdk_cache_new :: "sdk_env \<Rightarrow> (cache_partial \<times> (string \<Rightarrow> cache_partial option)) option \<Rightarrow> sdk_check sim_cache option" where
  "sdk_cache_new v simulationCache = (case simulationCache of
     None \<Rightarrow> None
   | Some c \<Rightarrow> (let cfg = resolveSimulationCacheConfig (Some c) (cf_networkPassphrase v)
       in if cs_enabled cfg
          then (case (cs_maxSize cfg, cs_ttlMs cfg) of (Finite n, Finite t) \<Rightarrow> Some (sc_new n t) | _ \<Rightarrow> None)
          else None))"

definition sdk_engine_new ::
  "sdk_env \<Rightarrow> (cache_partial \<times> (string \<Rightarrow> cache_partial option)) option \<Rightarrow> policy \<Rightarrow> int \<Rightarrow> sdk_err + sdk_engine" where
  "sdk_engine_new v simulationCache p now = (case fo_new (cf_rpcUrls v) no_override of
     Inl m \<Rightarrow> Inl (OtherErr ''Error'' m)
   | Inr f \<Rightarrow> Inr \<lparr>sd_calls = [], sd_policy = p, sd_listeners = [], sd_failover = f, sd_servers = [],
       sd_simulationCache = sdk_cache_new v simulationCache, sd_tracing = False, sd_lastFailed = None, sd_passphraseValid = True, sd_lastRestoreSuccess = False,
       sd_lastRestoreTimestamp = None, sd_startedAt = now\<rparr>)"

end
