(* ===== verification/SdkProps.thy ===== *)
theory SdkProps
  imports SdkFlow
begin

text \<open>
  What the \<open>sdk\<close> client guarantees of its batches and their execution: the limits of a batch, the outcome of
  sequential execution with its one refresh, and the number of signatures it asks for.
\<close>

section \<open>Operations that sign nothing\<close>

locale sdk_quiet = sdk_trace +
  assumes free_account: "free (KAccount u a)" and free_simulate: "free (KSimulate u x)"
begin

lemma keeps_fee: "keeps P (sdk_estimateRestoreFee v n)"
  by (auto simp: sdk_estimateRestoreFee_def sdk_fee_from_def
      intro!: guar keeps_lift keeps_retry keeps_getServer keeps_call free_simulate
      split: option.split sim_response.split)

lemma keeps_fetch: "keeps P (sdk_fetch_sequence v a)"
  unfolding sdk_fetch_sequence_def by (intro keeps_retry guar keeps_getServer keeps_call free_account)

lemma keeps_rebuild_batches: "keeps P (sdk_rebuild_batches v a n bs)"
  by (induction bs arbitrary: n)
    (auto simp: sdk_rebuild_batch_def intro!: guar keeps_fee keeps_lift split: sum.split)

lemma keeps_rebuild: "keeps P (rebuildRestoreBatches v bs a)"
  unfolding rebuildRestoreBatches_def by (intro guar keeps_fetch keeps_rebuild_batches)

lemma keeps_budget: "keeps P (fee_budget_exceeded v m n)"
  by (auto simp: fee_budget_exceeded_def intro!: guar keeps_fee split: option.split)

lemma keeps_batch_loop: "keeps P (sdk_batch_loop v m mx bs cur n ks)"
  by (induction ks arbitrary: bs cur n) (auto simp: Let_def intro!: guar keeps_budget)

lemma keeps_batchKeys: "keeps P (sdk_batchKeys v ks)"
  by (auto simp: sdk_batchKeys_def intro!: guar keeps_batch_loop split: option.split)

lemma keeps_batchKeyGroups: "keeps P (sdk_batchKeyGroups v gs)"
  by (induction gs) (auto intro!: guar keeps_batchKeys)

lemma keeps_build_batches: "keeps P (sdk_build_batches v sp a i n bs)"
  by (induction bs arbitrary: i n) (auto intro!: guar keeps_lift keeps_fee)

lemma keeps_buildBatches: "keeps P (sdk_buildRestoreTransactionBatches v ks a)"
  by (auto simp: sdk_buildRestoreTransactionBatches_def intro!: guar keeps_batchKeys keeps_fetch keeps_build_batches)

lemma keeps_buildConcurrent: "keeps P (sdk_buildRestoreTransactionBatchesConcurrent v ks a)"
  by (auto simp: sdk_buildRestoreTransactionBatchesConcurrent_def
      intro!: guar keeps_batchKeyGroups keeps_fetch keeps_build_batches)

lemma keeps_buildRestore: "keeps P (sdk_buildRestoreTransaction v ks a)"
  by (auto simp: sdk_buildRestoreTransaction_def traced_def sdk_buildSingleRestoreTransaction_def Let_def
      intro!: guar keeps_emit keeps_fetch keeps_fee keeps_lift split: option.split)

lemma keeps_health: "keeps P (sdk_getHealth v ver a)" if "free KHealth"
proof -
  have last: "keeps P (\<lambda>s. case ver of None \<Rightarrow> (Inl e, s) | Some vs \<Rightarrow> (Inr (f vs s), s))"
    for e and f :: "string \<Rightarrow> sdk_engine \<Rightarrow> health_report"
    by (auto simp: keeps_def split: option.split)
  show ?thesis
    by (auto simp: sdk_getHealth_def succeeds_def intro!: guar keeps_ask keeps_call free_account that last)
qed

end

interpretation qgrow: sdk_quiet "sdk_grown h" "\<lambda>c. True" for h
  by unfold_locales auto

interpretation qsigned: sdk_quiet "signed_is xs" "\<lambda>c. \<not> is_ksign c" for xs
  by unfold_locales auto

interpretation qfailed: sdk_quiet "failed_is f" "\<lambda>c. True" for f
  by unfold_locales auto

lemma rebuild_signs: "rebuildRestoreBatches v bs a s = (r, t) \<Longrightarrow> signed_since t = signed_since s"
  using keepsD [OF qsigned.keeps_rebuild, of "signed_since s" s] by (auto simp: signed_is_def)

lemma rebuild_failed: "rebuildRestoreBatches v bs a s = (r, t) \<Longrightarrow> sd_lastFailed t = sd_lastFailed s"
  using keepsD [OF qfailed.keeps_rebuild, of "sd_lastFailed s" s] by (auto simp: failed_is_def)

lemma send_failed:
  assumes "sendSignedTransaction v x s = (r, t)"
  shows "sd_lastFailed t = sd_lastFailed s"
proof -
  have "keeps (failed_is (sd_lastFailed s)) (sendSignedTransaction v x)"
    by (rule sfailed.keeps_sendSigned) simp_all
  from keepsD [OF this _ assms] show ?thesis by (simp add: failed_is_def)
qed

section \<open>Sequential execution\<close>

definition slots :: "sdk_batch list \<Rightarrow> (nat \<times> nat) list" where
  "slots bs = map (\<lambda>b. (bt_batchIndex b, bt_keysRestored b)) bs"

lemma slots_simps [simp]:
  "slots [] = []" "slots (b # bs) = (bt_batchIndex b, bt_keysRestored b) # slots bs"
  "slots (bs @ cs) = slots bs @ slots cs" "length (slots bs) = length bs" "slots bs = [] \<longleftrightarrow> bs = []"
  by (simp_all add: slots_def)

lemma batch_edits [simp]:
  "bt_batchIndex (sdk_succeeded b h) = bt_batchIndex b" "bt_keysRestored (sdk_succeeded b h) = bt_keysRestored b"
  "bt_status (sdk_succeeded b h) = Success" "bt_txHash (sdk_succeeded b h) = Some h"
  "bt_batchIndex (sdk_failed_with b m) = bt_batchIndex b" "bt_keysRestored (sdk_failed_with b m) = bt_keysRestored b"
  "bt_status (sdk_failed_with b m) = Failed"
  "bt_batchIndex (reset_batch b) = bt_batchIndex b" "bt_keysRestored (reset_batch b) = bt_keysRestored b"
  "bt_status (reset_batch b) = Pending" "bt_txHash (reset_batch b) = None"
  "bt_transactionXDR (reset_batch b) = bt_transactionXDR b"
  by (simp_all add: sdk_succeeded_def sdk_failed_with_def reset_batch_def)

lemma rebuild_batches_slots: "sdk_rebuild_batches v a n bs s = (Inr bs', t) \<Longrightarrow> slots bs' = slots bs"
  by (induction bs arbitrary: n s t bs') (auto simp: ebind_Inr)

lemma rebuild_slots: "rebuildRestoreBatches v bs a s = (Inr bs', t) \<Longrightarrow> slots bs' = slots bs"
  by (auto simp: rebuildRestoreBatches_def ebind_Inr dest: rebuild_batches_slots)

text \<open>
  How a run that began at position \<open>i\<close> with the results \<open>done\<close>, the restored keys \<open>n\<close> and the queue \<open>bs\<close>
  ended: the new results stand for a prefix of the queue, all successful but the last one of a run that
  stopped, and the record of the failure begins with it and holds the rest of the queue.
\<close>

definition sdk_completed :: "sdk_batch list \<Rightarrow> sdk_batch list \<Rightarrow> sdk_all \<Rightarrow> sdk_engine \<Rightarrow> bool" where
  "sdk_completed new bs res t \<longleftrightarrow>
    al_success res \<and> slots new = slots bs \<and> (\<forall>b \<in> set new. bt_status b = Success \<and> bt_txHash b \<noteq> None) \<and>
    al_failedAtBatchIndex res = None \<and> sd_lastFailed t = None"

definition sdk_stopped ::
  "string option \<Rightarrow> nat \<Rightarrow> sdk_batch list \<Rightarrow> sdk_batch list \<Rightarrow> sdk_all \<Rightarrow> sdk_engine \<Rightarrow> bool" where
  "sdk_stopped src i new bs res t \<longleftrightarrow>
    \<not> al_success res \<and> (\<exists>ok failed rest. new = ok @ [failed] \<and>
      (\<forall>b \<in> set ok. bt_status b = Success \<and> bt_txHash b \<noteq> None) \<and> bt_status failed = Failed \<and>
      slots (new @ rest) = slots bs \<and> al_failedAtBatchIndex res = Some (i + length ok) \<and>
      sd_lastFailed t = Some \<lparr>sl_sourceAccountID = (case src of None \<Rightarrow> [] | Some a \<Rightarrow> a),
        sl_failedBatches = failed # rest, sl_failedKeys = [], sl_failedBatchIndex = i + length ok,
        sl_partialEntriesRestored = al_totalKeysRestored res\<rparr>)"

definition sdk_ended ::
  "string option \<Rightarrow> nat \<Rightarrow> sdk_batch list \<Rightarrow> nat \<Rightarrow> sdk_batch list \<Rightarrow> sdk_all \<Rightarrow> sdk_engine \<Rightarrow> bool" where
  "sdk_ended src i done n bs res t \<longleftrightarrow>
    (\<exists>new. al_batches res = done @ new \<and>
      al_totalKeysRestored res = n + sum_keys (filter (\<lambda>b. bt_status b = Success) new) \<and>
      (sdk_completed new bs res t \<or> sdk_stopped src i new bs res t))"

lemma ended_slots: "slots bs' = slots bs \<Longrightarrow> sdk_ended src i done n bs' res t \<Longrightarrow> sdk_ended src i done n bs res t"
  by (simp add: sdk_ended_def sdk_completed_def sdk_stopped_def)

lemma ended_Cons:
  assumes "sdk_ended src (Suc i) (done @ [sdk_succeeded b h]) (n + bt_keysRestored b) bs res t"
  shows "sdk_ended src i done n (b # bs) res t"
proof -
  obtain new where new: "al_batches res = done @ sdk_succeeded b h # new"
      "al_totalKeysRestored res = n + bt_keysRestored b + sum_keys (filter (\<lambda>b. bt_status b = Success) new)"
      "sdk_completed new bs res t \<or> sdk_stopped src (Suc i) new bs res t"
    using assms unfolding sdk_ended_def by auto
  have "sdk_completed (sdk_succeeded b h # new) (b # bs) res t" if "sdk_completed new bs res t"
    using that by (simp add: sdk_completed_def)
  moreover have "sdk_stopped src i (sdk_succeeded b h # new) (b # bs) res t" if st: "sdk_stopped src (Suc i) new bs res t"
  proof -
    obtain ok failed rest where *: "new = ok @ [failed]"
      "\<forall>b \<in> set ok. bt_status b = Success \<and> bt_txHash b \<noteq> None" "bt_status failed = Failed"
      "slots (new @ rest) = slots bs" "al_failedAtBatchIndex res = Some (Suc i + length ok)"
      "sd_lastFailed t = Some \<lparr>sl_sourceAccountID = (case src of None \<Rightarrow> [] | Some a \<Rightarrow> a),
        sl_failedBatches = failed # rest, sl_failedKeys = [], sl_failedBatchIndex = Suc i + length ok,
        sl_partialEntriesRestored = al_totalKeysRestored res\<rparr>" "\<not> al_success res"
      using st unfolding sdk_stopped_def by blast
    then show ?thesis
      unfolding sdk_stopped_def
      by (intro conjI exI [of _ "sdk_succeeded b h # ok"] exI [of _ failed] exI [of _ rest]) auto
  qed
  ultimately show ?thesis
    using new unfolding sdk_ended_def by (intro exI [of _ "sdk_succeeded b h # new"]) (auto simp: sum_keys_def)
qed

lemma execute_from_ended:
  "sdk_execute_from v src ref i done n bs s = (r, t) \<Longrightarrow>
   (case r of Inl e \<Rightarrow> truthy_str src \<and> \<not> ref \<and> sd_lastFailed t = sd_lastFailed s
    | Inr res \<Rightarrow> sdk_ended src i done n bs res t)"
proof (induction v src ref i "done" n bs s rule: sdk_execute_from.induct)
  case (1 v src ref i "done" n s)
  then show ?case by (auto simp: sdk_ended_def sdk_completed_def sum_keys_def)
next
  case (2 v src ref i "done" n b bs s)
  obtain o1 u where sub: "sendSignedTransaction v (bt_transactionXDR b) s = (o1, u)" by force
  show ?case
  proof (cases o1)
    case (Inr h)
    then have "sdk_execute_from v src ref (Suc i) (done @ [sdk_succeeded b h]) (n + bt_keysRestored b) bs u = (r, t)"
      using 2(3) sub by simp
    from 2(2) [OF sub [symmetric] Inr this] show ?thesis
      using send_failed [OF sub] by (auto intro: ended_Cons split: sum.splits)
  next
    case (Inl e)
    show ?thesis
    proof (cases "wants_refresh src ref e")
      case True
      obtain q w where reb: "rebuildRestoreBatches v (b # bs) (the src) u = (q, w)" by force
      have lf: "sd_lastFailed w = sd_lastFailed s" using rebuild_failed [OF reb] send_failed [OF sub] by simp
      show ?thesis
      proof (cases q)
        case (Inl e')
        then show ?thesis using 2(3) sub \<open>o1 = Inl e\<close> True reb lf by (auto simp: wants_refresh_def)
      next
        case (Inr bs')
        have run: "sdk_execute_from v src True i done n bs' w = (r, t)"
          using 2(3) sub \<open>o1 = Inl e\<close> True reb Inr by simp
        from 2(1) [OF sub [symmetric] \<open>o1 = Inl e\<close> True reb [symmetric] Inr this] show ?thesis
          using rebuild_slots [of v "b # bs" "the src" u bs' w] reb Inr by (auto intro: ended_slots split: sum.splits)
      qed
    next
      case False
      then have "sdk_batch_failure src i done n b bs e u = (r, t)" using 2(3) sub Inl by simp
      then show ?thesis
        by (auto simp: sdk_batch_failure_def sdk_ended_def sdk_stopped_def sum_keys_def Let_def)
    qed
  qed
qed

lemma execute_from_signs:
  "sdk_execute_from v src ref i done n bs s = (r, t) \<Longrightarrow>
   \<exists>xs. signed_since t = signed_since s @ xs \<and>
     length xs \<le> length bs + (if truthy_str src \<and> \<not> ref then 1 else 0) \<and>
     (\<not> truthy_str src \<or> ref \<longrightarrow> xs = take (length xs) (map bt_transactionXDR bs))"
proof (induction v src ref i "done" n bs s rule: sdk_execute_from.induct)
  case (1 v src ref i "done" n s)
  then show ?case by (auto simp: signed_since_def)
next
  case (2 v src ref i "done" n b bs s)
  obtain o1 u where sub: "sendSignedTransaction v (bt_transactionXDR b) s = (o1, u)" by force
  note sg = sendSigned_signs [OF sub]
  show ?case
  proof (cases o1)
    case (Inr h)
    then have "sdk_execute_from v src ref (Suc i) (done @ [sdk_succeeded b h]) (n + bt_keysRestored b) bs u = (r, t)"
      using 2(3) sub by simp
    from 2(2) [OF sub [symmetric] Inr this] obtain xs where "signed_since t = signed_since u @ xs"
      "length xs \<le> length bs + (if truthy_str src \<and> \<not> ref then 1 else 0)"
      "\<not> truthy_str src \<or> ref \<longrightarrow> xs = take (length xs) (map bt_transactionXDR bs)" by blast
    then show ?thesis using sg by (intro exI [of _ "bt_transactionXDR b # xs"]) auto
  next
    case (Inl e)
    show ?thesis
    proof (cases "wants_refresh src ref e")
      case True
      obtain q w where reb: "rebuildRestoreBatches v (b # bs) (the src) u = (q, w)" by force
      have w: "signed_since w = signed_since s @ [bt_transactionXDR b]" using rebuild_signs [OF reb] sg by simp
      have c: "truthy_str src" "\<not> ref" using True by (auto simp: wants_refresh_def)
      show ?thesis
      proof (cases q)
        case (Inl e')
        then have "t = w" using 2(3) sub \<open>o1 = Inl e\<close> True reb by simp
        then show ?thesis using w c by auto
      next
        case (Inr bs')
        have run: "sdk_execute_from v src True i done n bs' w = (r, t)"
          using 2(3) sub \<open>o1 = Inl e\<close> True reb Inr by simp
        from 2(1) [OF sub [symmetric] \<open>o1 = Inl e\<close> True reb [symmetric] Inr this]
        obtain xs where "signed_since t = signed_since w @ xs" "length xs \<le> length bs'" by auto
        moreover have "length bs' = Suc (length bs)"
          using rebuild_slots [of v "b # bs" "the src" u bs' w] reb Inr by (metis length_Cons slots_simps(4))
        ultimately show ?thesis using w c by auto
      qed
    next
      case False
      then have "signed_since t = signed_since u"
        using 2(3) sub Inl by (auto simp: sdk_batch_failure_def Let_def signed_since_def)
      then show ?thesis using sg by auto
    qed
  qed
qed

end
