(* ===== verification/SdkOutcome.thy ===== *)
theory SdkOutcome
  imports SdkProps Submit
begin

text \<open>
  Properties of the \<open>sdk\<close> client: confirmed hashes, the outcome and the signatures of sequential
  execution, resumption from a receipt, and the operations the class as written cannot complete.
\<close>

section \<open>A sample world\<close>

text \<open>The network never answers a send and knows no transaction; the wallet signs.\<close>

definition sdk_sample :: sdk_env where
  "sdk_sample = \<lparr>cf_rpcUrls = [''u''], cf_networkPassphrase = ''net'', cf_allowHttp = False, cf_restoreFee = ''100'',
     cf_maxRestoreBatchSize = 2, cf_maxRestoreFeeStroops = None, cf_simulateOnly = False,
     cf_dynamicFeeEstimation = False, cf_strictNetworkValidation = False, cf_useWebSocket = False,
     cf_pollIntervalMs = 1000, cf_maxPollAttempts = 2, cf_feeBumpSponsor = None,
     cf_restorePriorityMap = (\<lambda>t. None), cf_maxConcurrency = None, cf_tracing = False, cf_telemetry = True,
     y_fromXDR = (\<lambda>x. Inl (OtherErr ''Error'' ''bad'')), y_parseSigned = (\<lambda>x. Inr (x, ''h'' @ x)),
     y_decodeResult = (\<lambda>x. None), y_footprintData = (\<lambda>ks. ''data''), y_account = (\<lambda>a q. Inr ()),
     y_buildRestore = (\<lambda>a q f d. Inr (a @ int_dec q)), y_buildFeeBump = (\<lambda>a f i. Inr i), y_parseUrl = (\<lambda>u. None),
     y_encodeKey = (\<lambda>k. case k of OtherKey x \<Rightarrow> x | _ \<Rightarrow> []), y_keyXDR = (\<lambda>k. ''key''), y_base64 = (\<lambda>x. x),
     u_getNetwork = (\<lambda>h. Inr ''net''), u_getHealth = (\<lambda>h. Inr ()), u_getAccount = (\<lambda>h a. Inr 7),
     u_getEntries = (\<lambda>h ks. Inr \<lparr>es_entries = [], es_latestLedger = Some 5\<rparr>), u_simulate = (\<lambda>h x. Inr SimOther), u_sign = (\<lambda>h x. Inr (''s'' @ x)),
     u_send = (\<lambda>h tx. Inl (OtherErr ''Error'' ''timeout'')),
     u_getTransaction = (\<lambda>h x. Inr (''NOT_FOUND'', [])), u_wsProbe = (\<lambda>h u. False), u_ws = (\<lambda>h u. Inr []),
     u_now = (\<lambda>h. 0), u_policyEnv = (\<lambda>h. \<lparr>pe_now = 0, pe_now2 = 0, pe_rnd = 0\<rparr>), u_notify = (\<lambda>h l e. None)\<rparr>"

definition sdk_sample_engine :: sdk_engine where
  "sdk_sample_engine = \<lparr>sd_calls = [], sd_policy = Fixed \<lparr>fd_maxRetries = 0, fd_delayMs = 0\<rparr>, sd_listeners = [],
     sd_failover = sample_failover, sd_servers = [], sd_simulationCache = None, sd_tracing = False, sd_lastFailed = None,
     sd_passphraseValid = True, sd_lastRestoreSuccess = False, sd_lastRestoreTimestamp = None, sd_startedAt = 0\<rparr>"

definition sdk_sample_batch :: "nat \<Rightarrow> string \<Rightarrow> sdk_batch" where
  "sdk_sample_batch i x = \<lparr>bt_batchIndex = i, bt_transactionXDR = x, bt_keysRestored = 1, bt_status = Pending,
     bt_txHash = None, bt_error = None\<rparr>"

section \<open>Confirmed hashes\<close>

lemma sdk_attempts_success:
  "sdk_attempts v fn ctx left n s = (Inr x, t) \<Longrightarrow> \<exists>s' u. fn s' = (Inr x, u) \<and> sd_calls t = sd_calls u"
proof (induction left arbitrary: n s)
  case 0
  then show ?case by (simp add: ebind_Inr)
next
  case (Suc left)
  obtain res u where fn: "fn s = (res, u)" by force
  show ?case
  proof (cases res)
    case (Inr y)
    then have "sd_calls t = sd_calls u \<and> y = x"
      using Suc.prems fn by (auto simp: ebind_def sdk_policy_reset_def)
    then show ?thesis using fn Inr by blast
  next
    case (Inl e)
    then show ?thesis using Suc.prems fn Suc.IH
      by (auto simp: ebind_Inr split: if_splits)
  qed
qed

lemma sdk_retry_success:
  assumes "sdk_retryOnFailure v fn ctx s = (Inr x, t)"
  shows "\<exists>s' u. fn s' = (Inr x, u) \<and> sd_calls t = sd_calls u"
proof (cases "cf_tracing v")
  case True
  obtain s' u where "sdk_retryLoop v fn ctx s' = (Inr x, u)" "sd_calls t = sd_calls u"
    using assms True by (auto simp: sdk_retryOnFailure_def Let_def split: prod.splits)
  then show ?thesis by (auto simp: sdk_retryLoop_def ebind_Inr dest: sdk_attempts_success)
next
  case False
  then show ?thesis using assms by (auto simp: sdk_retryOnFailure_def sdk_retryLoop_def ebind_Inr dest: sdk_attempts_success)
qed

text \<open>The last call is a receipt that reported success for this hash, or a socket that did.\<close>

fun sdk_confirmed_last :: "sdk_env \<Rightarrow> string \<Rightarrow> sdk_call list \<Rightarrow> bool" where
  "sdk_confirmed_last v hash (KReceipt u h # rest) =
    (h = hash \<and> (\<exists>j. u_getTransaction v rest hash = Inr (''SUCCESS'', j)))"
| "sdk_confirmed_last v hash (KWs h # rest) =
    (h = hash \<and> (\<exists>url evs tm sl. u_ws v rest url = Inr evs \<and> sdk_ws_settle hash tm sl evs = Inr ()))"
| "sdk_confirmed_last v hash _ = False"

definition sdk_accepted :: "sdk_env \<Rightarrow> string \<Rightarrow> string \<Rightarrow> sdk_call list \<Rightarrow> bool" where
  "sdk_accepted v tx hash calls = (\<exists>new u rest st er. calls = new @ KSend u tx # rest \<and>
     u_send v rest tx = Inr (st, hash, er) \<and> (st = ''PENDING'' \<or> st = ''DUPLICATE''))"

lemma receipt_read:
  "ebind (sdk_getServer v) (\<lambda>u. k_call (KReceipt u h) (\<lambda>hs. u_getTransaction v hs h)) s = (Inr (st, j), t) \<Longrightarrow>
   \<exists>u rest. sd_calls t = KReceipt u h # rest \<and> u_getTransaction v rest h = Inr (st, j)"
  by (auto simp: ebind_Inr k_call_def)

lemma sdk_poll_confirmed:
  "sdk_poll_attempts v h m n s = (Inr x, t) \<Longrightarrow> x = h \<and> sdk_confirmed_last v h (sd_calls t)"
proof (induction n arbitrary: s)
  case (Suc n)
  obtain st j u where rd: "ebind (sdk_getServer v) (\<lambda>u. k_call (KReceipt u h) (\<lambda>hs. u_getTransaction v hs h)) s =
      (Inr (st, j), u)"
    and nxt: "(if st \<noteq> ''NOT_FOUND'' then if st = ''SUCCESS'' then eret h
        else ethrow (sdk_error_new (''Transaction failed (txHash='' @ h @ '', rpcUrl='' @ rpcUrl_text v @ ''): '' @ j)
          ''ORIGINAL_TX_FAILED'' (Some h))
      else ebind (k_pause (of_int (cf_pollIntervalMs v))) (\<lambda>_. sdk_poll_attempts v h m n)) u = (Inr x, t)"
    using Suc.prems by (simp only: sdk_poll_attempts.simps ebind_Inr [of "ebind a b" for a b]) auto
  show ?case using nxt receipt_read [OF rd] Suc.IH by (auto simp: ebind_Inr split: if_splits)
qed simp

lemma sdk_wait_confirmed:
  assumes "sdk_waitForTransaction v h n s = (Inr (x, tr), t)"
  shows "x = h \<and> sdk_confirmed_last v h (sd_calls t)"
proof -
  obtain c u where c: "sdk_ws_attempt v h n s = (Inr c, u)"
    and r: "(if c then eret (h, Websocket)
        else ebind (sdk_pollForReceipt v h n) (\<lambda>_. eret (h, Polling))) u = (Inr (x, tr), t)"
    using assms by (auto simp: sdk_waitForTransaction_def ebind_Inr)
  show ?thesis
  proof (cases c)
    case True
    obtain url where "ecatch (ebind (sdk_wsWaitForTransaction v h url n) (\<lambda>_. eret True))
        (\<lambda>e. if is_sdk_error e then ethrow e else eret False) s = (Inr True, u)"
      using c True by (auto simp: sdk_ws_attempt_def ebind_Inr k_ask_def split: if_splits option.splits)
    then have "sdk_confirmed_last v h (sd_calls u)"
      by (auto simp: ecatch_Inr ebind_Inr sdk_wsWaitForTransaction_def k_call_def Let_def split: if_splits sum.splits)
    then show ?thesis using r True by simp
  next
    case False
    then show ?thesis using r by (auto simp: ebind_Inr sdk_pollForReceipt_def dest: sdk_poll_confirmed)
  qed
qed

lemma after_send_accepted:
  "sdk_after_send v (st, h, er) s = (Inr x, t) \<Longrightarrow>
   x = h \<and> (st = ''PENDING'' \<or> st = ''DUPLICATE'') \<and> sdk_confirmed_last v h (sd_calls t)"
  by (auto simp: sdk_after_send_def ebind_Inr split: if_splits dest: sdk_wait_confirmed)

lemma reconcile_confirmed:
  assumes "reconcileAmbiguousSubmission v h s = (Inr x, t)"
  shows "x = h \<and> sdk_confirmed_last v h (sd_calls t)"
proof -
  have "sdk_lookup v h s = (Inr ''SUCCESS'', t)" and x: "x = h"
    using assms by (auto simp: reconcileAmbiguousSubmission_def ebind_Inr split: if_splits)
  then obtain j where "ebind (sdk_getServer v) (\<lambda>u. k_call (KReceipt u h) (\<lambda>hs. u_getTransaction v hs h)) s =
      (Inr (''SUCCESS'', j), t)"
    by (auto simp: sdk_lookup_def ecatch_Inr ebind_Inr [of "ebind a b" for a b])
  from receipt_read [OF this] x show ?thesis by auto
qed

lemma sdk_after_send_grows: "sdk_after_send v res s = (r, t) \<Longrightarrow> \<exists>new. sd_calls t = new @ sd_calls s"
  using keepsD [OF sgrow.keeps_after_send, of "sd_calls s" s v res r t] by (simp add: sdk_grown_def)

lemma send_confirmed:
  assumes "sendSignedTransaction v x s = (Inr hash, t)"
  shows "sdk_confirmed_last v hash (sd_calls t) \<and>
    (\<exists>signed tx txHash. u_sign v (sd_calls s) x = Inr signed \<and> y_parseSigned v signed = Inr (tx, txHash) \<and>
       (hash = txHash \<or> sdk_accepted v tx hash (sd_calls t)))"
proof -
  obtain signed tx txHash u where sg: "u_sign v (sd_calls s) x = Inr signed" "y_parseSigned v signed = Inr (tx, txHash)"
    and run: "sdk_send_or_lookup v tx txHash u = (Inr hash, t)"
    using assms unfolding sendSignedTransaction_def by (auto simp only: ebind_Inr k_call_def k_lift_def prod.case prod.inject)
  obtain q w where q: "sdk_send v tx u = (q, w)" by force
  show ?thesis
  proof (cases q)
    case (Inl e)
    then have "reconcileAmbiguousSubmission v txHash w = (Inr hash, t)" using run q by (simp add: sdk_send_or_lookup_def)
    from reconcile_confirmed [OF this] sg show ?thesis by blast
  next
    case (Inr res)
    obtain st h er where res: "res = (st, h, er)" by (cases res)
    have aft: "sdk_after_send v (st, h, er) w = (Inr hash, t)" using run q Inr res by (simp add: sdk_send_or_lookup_def)
    note acc = after_send_accepted [OF aft]
    have "sdk_retryOnFailure v (ebind (sdk_getServer v) (\<lambda>u. k_call (KSend u tx) (\<lambda>hs. u_send v hs tx)))
        ''sendTransaction'' u = (Inr res, w)"
      using q Inr by (simp add: sdk_send_def)
    from sdk_retry_success [OF this] obtain a s' where
      "ebind (sdk_getServer v) (\<lambda>u. k_call (KSend u tx) (\<lambda>hs. u_send v hs tx)) s' = (Inr res, a)"
      "sd_calls w = sd_calls a" by blast
    then obtain ur rest where "sd_calls w = KSend ur tx # rest" "u_send v rest tx = Inr (st, h, er)"
      by (auto simp: ebind_Inr k_call_def res)
    moreover obtain new where "sd_calls t = new @ sd_calls w" using sdk_after_send_grows [OF aft] by blast
    ultimately have "sdk_accepted v tx hash (sd_calls t)"
      using acc unfolding sdk_accepted_def
      by (intro exI [of _ new] exI [of _ ur] exI [of _ rest] exI [of _ st] exI [of _ er]) simp
    then show ?thesis using acc sg by blast
  qed
qed

text \<open>
  A hash \<open>sendSignedTransaction\<close> returns was confirmed by its last call, a receipt or a socket that
  reported \<open>SUCCESS\<close> for it; it is the hash the network gave when it accepted the signed transaction, or,
  where the send failed, the hash computed from it.
\<close>

theorem sdk_submit_confirmed:
  assumes "sendSignedTransaction v x s = (Inr hash, t)"
  shows "sdk_confirmed_last v hash (sd_calls t) \<and>
    (\<exists>signed tx txHash. u_sign v (sd_calls s) x = Inr signed \<and> y_parseSigned v signed = Inr (tx, txHash) \<and>
       (hash = txHash \<or> sdk_accepted v tx hash (sd_calls t)))"
  using assms by (rule send_confirmed)

lemmas sample_submit_eval = sendSignedTransaction_def sdk_send_or_lookup_def sdk_send_def sdk_retryOnFailure_def
  sdk_retryLoop_def sdk_getServer_def sdk_sample_def sdk_sample_engine_def ebind_def ecatch_def eret_def ethrow_def
  k_call_def k_lift_def sdk_policy_limit_def exhausted_def sdk_wrap_def reconcileAmbiguousSubmission_def
  sdk_lookup_def Let_def

text \<open>In the sample world a submission is signed, its send fails and the look-up answers.\<close>

lemma sample_confirmed:
  "\<exists>t. sendSignedTransaction (sdk_sample\<lparr>u_getTransaction := \<lambda>h x. Inr (''SUCCESS'', [])\<rparr>) ''x'' sdk_sample_engine =
     (Inr ''hsx'', t)"
  by (simp add: sample_submit_eval)

lemma sample_unknown:
  "\<exists>t e. sendSignedTransaction sdk_sample ''x'' sdk_sample_engine = (Inl (SdkErr e), t) \<and>
     er_code e = ''SUBMISSION_AMBIGUOUS''"
  by (simp add: sample_submit_eval sdk_error_new_def)

theorem sdk_submit_confirmed_witness:
  "\<exists>t::sdk_engine. sdk_confirmed_last (sdk_sample\<lparr>u_getTransaction := \<lambda>h x. Inr (''SUCCESS'', [])\<rparr>) ''hsx'' (sd_calls t)"
proof -
  obtain t where "sendSignedTransaction (sdk_sample\<lparr>u_getTransaction := \<lambda>h x. Inr (''SUCCESS'', [])\<rparr>) ''x''
      sdk_sample_engine = (Inr ''hsx'', t)" using sample_confirmed by blast
  from sdk_submit_confirmed [OF this] show ?thesis by blast
qed

section \<open>Execution\<close>

lemma sdk_execute_outcome_lemma:
  "case sdk_executeRestoreBatches v bs src s of
     (Inl e, t) \<Rightarrow> truthy_str src \<and> sd_lastFailed t = sd_lastFailed s
   | (Inr res, t) \<Rightarrow> sdk_ended src 0 [] 0 bs res t"
  using execute_from_ended [of v src False 0 "[]" 0 bs s]
  by (cases "sdk_executeRestoreBatches v bs src s") (auto simp: sdk_executeRestoreBatches_def split: sum.splits)


text \<open>
  However stale the sequence numbers are, one execution asks the wallet for at most one signature per
  batch and one more; without a source account it asks for exactly a prefix of the given transactions.
\<close>

theorem sdk_execute_signatures:
  "\<exists>xs. signed_since (snd (sdk_executeRestoreBatches v bs src s)) = signed_since s @ xs \<and>
     length xs \<le> length bs + (if truthy_str src then 1 else 0) \<and>
     (truthy_str src \<or> xs = take (length xs) (map bt_transactionXDR bs))"
proof -
  obtain r t where run: "sdk_execute_from v src False 0 [] 0 bs s = (r, t)" by force
  from execute_from_signs [OF run] show ?thesis by (auto simp: sdk_executeRestoreBatches_def run)
qed

lemma execute_unrefreshed_failure:
  assumes "sendSignedTransaction v (bt_transactionXDR b) s = (Inl e, t)"
  shows "sdk_executeRestoreBatches v (b # bs) None s = sdk_batch_failure None 0 [] 0 b bs e t"
  using assms by (simp add: sdk_executeRestoreBatches_def wants_refresh_def)

text \<open>
  An unknown outcome does not stop the original transaction. When the submission of a batch ends with
  \<open>SUBMISSION_AMBIGUOUS\<close>, the result is not flagged as ambiguous, and where not all batches are required
  the wallet is asked to sign the original right after it.
\<close>

theorem sdk_unknown_outcome_signs_original:
  assumes "sendSignedTransaction v (bt_transactionXDR b) s = (Inl (SdkErr e), t)"
    and "er_code e = ''SUBMISSION_AMBIGUOUS''"
  shows "signed_since (snd (sdk_executeRestoreThenOriginalBatches v (b # bs) original False s)) =
    signed_since s @ [bt_transactionXDR b, original]"
proof -
  obtain res u where res: "sdk_executeRestoreBatches v (b # bs) None s = (Inr res, u)"
      "\<not> al_ambiguous res" "sd_calls u = sd_calls t"
    using assms by (simp add: execute_unrefreshed_failure [OF assms(1)] sdk_batch_failure_def Let_def)
  then have first: "restore_batches_first v (b # bs) False s = (Inr res, u)"
    by (simp add: restore_batches_first_def ecatch_def ebind_def eret_def)
  obtain q w where q: "sendSignedTransaction v original u = (q, w)" by force
  have "snd (sdk_executeRestoreThenOriginalBatches v (b # bs) original False s) = w"
    using first q by (cases q) (simp_all add: sdk_executeRestoreThenOriginalBatches_def ebind_def ecatch_def eret_def ethrow_def)
  moreover have "signed_since u = signed_since s @ [bt_transactionXDR b]"
    using sendSigned_signs [OF assms(1)] res(3) by (simp add: signed_since_def)
  ultimately show ?thesis using sendSigned_signs [OF q] by simp
qed

theorem sdk_unknown_outcome_signs_original_witness:
  "signed_since (snd (sdk_executeRestoreThenOriginalBatches sdk_sample [sdk_sample_batch 0 ''x''] ''o'' False
     sdk_sample_engine)) = [''x'', ''o'']"
proof -
  obtain t e where e: "sendSignedTransaction sdk_sample (bt_transactionXDR (sdk_sample_batch 0 ''x'')) sdk_sample_engine =
      (Inl (SdkErr e), t)" "er_code e = ''SUBMISSION_AMBIGUOUS''"
    using sample_unknown by (auto simp: sdk_sample_batch_def)
  from sdk_unknown_outcome_signs_original [OF e, of "[]" "''o''"]
  show ?thesis by (simp add: signed_since_def sdk_sample_engine_def sdk_sample_batch_def)
qed

section \<open>The class as written\<close>

lemma ebind_rejects:
  "(\<exists>x t. m s = (Inr x, t)) \<Longrightarrow> (\<And>x t. fst (f x t) = Inl e) \<Longrightarrow> fst (ebind m f s) = Inl e"
  by (auto simp: ebind_def)

text \<open>
  With the class as written no restore transaction is ever built one at a time
  (\<open>buildRestoreTransaction\<close> rejects for every input), and without a telemetry field, which nothing
  assigns, \<open>executeRestoreThenOriginal\<close> rejects without a call, and \<open>getHealth\<close> rejects.
\<close>

theorem sdk_class_as_written:
  "(\<exists>e. fst (sdk_buildRestoreTransaction v keys source s) = Inl e) \<and>
   (cf_telemetry v \<or> (\<exists>e. sdk_executeRestoreThenOriginal v restoreXDR originalXDR s = (Inl e, s))) \<and>
   fst (sdk_getHealth v None account s) = Inl (OtherErr ''ReferenceError'' ''VERSION is not defined'')"
proof (intro conjI)
  have single: "\<exists>e. fst (sdk_buildSingleRestoreTransaction v None source u) = Inl e" for u
    by (auto simp: sdk_buildSingleRestoreTransaction_def ebind_def ethrow_def split: prod.split sum.split)
  then have "\<exists>e. fst (ebind (sdk_buildSingleRestoreTransaction v None source) f u) = Inl e"
    for u and f :: "string \<times> nat \<Rightarrow> (string \<times> nat) sact"
    by (simp add: ebind_def) (metis (mono_tags, lifting) case_prod_conv fst_conv old.sum.simps(5) surj_pair)
  then show "\<exists>e. fst (sdk_buildRestoreTransaction v keys source s) = Inl e"
    by (auto simp: sdk_buildRestoreTransaction_def traced_def Let_def ebind_def [of "sdk_emit v e" for e] ethrow_def
        split: prod.split sum.split)
  show "cf_telemetry v \<or> (\<exists>e. sdk_executeRestoreThenOriginal v restoreXDR originalXDR s = (Inl e, s))"
    by (simp add: sdk_executeRestoreThenOriginal_def traced_def ethrow_def)
  have ok: "\<exists>b t. succeeds m u = (Inr b, t)" for m :: "'z sact" and u
    by (auto simp: succeeds_def ecatch_def ebind_def eret_def split: prod.split sum.split)
  have ask: "\<exists>b t. k_ask f u = (Inr b, t)" for f :: "sdk_call list \<Rightarrow> 'y" and u
    by (simp add: k_ask_def)
  have acc: "\<exists>b t. (if c then succeeds m else eret d) u = (Inr b, t)" for c d and m :: "'z sact" and u
    using ok by (auto simp: eret_def)
  show "fst (sdk_getHealth v None account s) = Inl (OtherErr ''ReferenceError'' ''VERSION is not defined'')"
    unfolding sdk_getHealth_def by (intro ebind_rejects ask ok acc) simp
qed

end
