(* ===== verification/SdkReceipt.thy ===== *)
theory SdkReceipt
  imports SdkOutcome
begin

text \<open>
  Execution receipts of the \<open>sdk\<close> client: what \<open>JSON.stringify\<close> writes of one and what \<open>parseExecutionReceipt\<close>
  gives back, and what a resumption leaves alone.
\<close>

section \<open>The JSON form\<close>

text \<open>\<open>JSON.stringify\<close> keeps the order of the properties and leaves out those that are \<open>undefined\<close>.\<close>

fun status_text :: "batch_status \<Rightarrow> string" where
  "status_text Pending = ''pending''"
| "status_text Success = ''success''"
| "status_text Failed = ''failed''"

definition optional_prop :: "string \<Rightarrow> string option \<Rightarrow> (string \<times> json) list" where
  "optional_prop k x = (case x of None \<Rightarrow> [] | Some t \<Rightarrow> [(k, JStr t)])"

definition batch_json :: "sdk_batch \<Rightarrow> json" where
  "batch_json b = JObj ([(''batchIndex'', JNum (js_int (int (bt_batchIndex b)))),
     (''transactionXDR'', JStr (bt_transactionXDR b)), (''keysRestored'', JNum (js_int (int (bt_keysRestored b)))),
     (''status'', JStr (status_text (bt_status b)))] @ optional_prop ''txHash'' (bt_txHash b) @
     optional_prop ''error'' (bt_error b))"

definition receipt_json :: "sdk_receipt \<Rightarrow> json" where
  "receipt_json r = JObj [(''version'', JNum (js_int (int (rc_version r)))),
     (''sourceAccountID'', JStr (rc_sourceAccountID r)), (''batches'', JArr (map batch_json (rc_batches r)))]"

text \<open>A parsed value read at the type it is cast to.\<close>

definition status_of_text :: "string \<Rightarrow> batch_status option" where
  "status_of_text s = (if s = ''pending'' then Some Pending else if s = ''success'' then Some Success
     else if s = ''failed'' then Some Failed else None)"

definition num_prop :: "json \<Rightarrow> string \<Rightarrow> nat option" where
  "num_prop j k = (case json_prop j k of Some (JNum x) \<Rightarrow> Some (nat (js_toInt x)) | _ \<Rightarrow> None)"

definition str_prop :: "json \<Rightarrow> string \<Rightarrow> string option" where
  "str_prop j k = (case json_prop j k of Some (JStr x) \<Rightarrow> Some x | _ \<Rightarrow> None)"

definition batch_of_json :: "json \<Rightarrow> sdk_batch" where
  "batch_of_json j = \<lparr>bt_batchIndex = the (num_prop j ''batchIndex''), bt_transactionXDR = the (str_prop j ''transactionXDR''),
     bt_keysRestored = the (num_prop j ''keysRestored''), bt_status = the (status_of_text (the (str_prop j ''status''))),
     bt_txHash = str_prop j ''txHash'', bt_error = str_prop j ''error''\<rparr>"

definition receipt_of_json :: "json \<Rightarrow> sdk_receipt" where
  "receipt_of_json j = \<lparr>rc_version = the (num_prop j ''version''), rc_sourceAccountID = the (str_prop j ''sourceAccountID''),
     rc_batches = (case json_prop j ''batches'' of Some (JArr bs) \<Rightarrow> map batch_of_json bs | _ \<Rightarrow> [])\<rparr>"

lemma status_of_status_text [simp]: "status_of_text (status_text st) = Some st"
  by (cases st) (simp_all add: status_of_text_def)

lemma batch_json_props [simp]:
  "json_prop (batch_json b) ''batchIndex'' = Some (JNum (js_int (int (bt_batchIndex b))))"
  "json_prop (batch_json b) ''transactionXDR'' = Some (JStr (bt_transactionXDR b))"
  "json_prop (batch_json b) ''keysRestored'' = Some (JNum (js_int (int (bt_keysRestored b))))"
  "json_prop (batch_json b) ''status'' = Some (JStr (status_text (bt_status b)))"
  "json_prop (batch_json b) ''txHash'' = map_option JStr (bt_txHash b)"
  "json_prop (batch_json b) ''error'' = map_option JStr (bt_error b)"
  by (auto simp: batch_json_def json_prop_def optional_prop_def split: option.split)

lemma receipt_json_props [simp]:
  "json_prop (receipt_json r) ''version'' = Some (JNum (js_int (int (rc_version r))))"
  "json_prop (receipt_json r) ''sourceAccountID'' = Some (JStr (rc_sourceAccountID r))"
  "json_prop (receipt_json r) ''batches'' = Some (JArr (map batch_json (rc_batches r)))"
  by (simp_all add: receipt_json_def json_prop_def)

lemma batch_of_batch_json: "batch_of_json (batch_json b) = b"
  by (cases "bt_txHash b"; cases "bt_error b") (simp_all add: batch_of_json_def num_prop_def str_prop_def)

lemma receipt_of_receipt_json: "receipt_of_json (receipt_json r) = r"
  by (simp add: receipt_of_json_def num_prop_def str_prop_def comp_def batch_of_batch_json)

lemma batch_json_accepted: "receipt_batch_error c (batch_json b) = None"
proof -
  have "batch_json b \<noteq> JNull" by (simp add: batch_json_def)
  then show ?thesis by (cases "bt_status b") (simp_all add: receipt_batch_error_def)
qed

lemma batches_json_accepted: "first_batch_error c (map batch_json bs) = None"
  by (induction bs) (simp_all add: batch_json_accepted)

lemma by_index_Some: "by_index bs i = Some r \<Longrightarrow> r \<in> set bs \<and> bt_batchIndex r = i"
  unfolding by_index_def by (metis (mono_tags, lifting) find_Some_iff nth_mem set_rev)

lemma or_same_index: "bt_batchIndex (or_same (by_index bs) b) = bt_batchIndex b"
  by (auto simp: or_same_def dest: by_index_Some split: option.split)

text \<open>
  C14: a receipt written with \<open>JSON.stringify\<close> and read back is accepted, and what is read is the receipt:
  its account and, batch by batch, the outcome of the executed batches and the plan of the others.
\<close>

theorem sdk_receipt_roundtrip:
  assumes "jc_parse c (jc_stringify c (Some (receipt_json (createExecutionReceipt result source planned)))) =
    Inr (receipt_json (createExecutionReceipt result source planned))"
  shows "\<exists>j. parseExecutionReceipt c
      (jc_stringify c (Some (receipt_json (createExecutionReceipt result source planned)))) = Inr j \<and>
    receipt_of_json j = createExecutionReceipt result source planned \<and>
    map bt_batchIndex (rc_batches (receipt_of_json j)) = map bt_batchIndex planned"
proof -
  let ?r = "createExecutionReceipt result source planned"
  have shape: "\<exists>kvs. receipt_json ?r = JObj kvs" by (simp add: receipt_json_def)
  have "parseExecutionReceipt c (jc_stringify c (Some (receipt_json ?r))) = Inr (receipt_json ?r)"
    using assms shape batches_json_accepted [of c "rc_batches ?r"]
    by (auto simp: parseExecutionReceipt_def simp del: of_int_1) (simp_all add: createExecutionReceipt_def)
  then show ?thesis by (simp add: receipt_of_receipt_json createExecutionReceipt_def comp_def or_same_index)
qed

definition sample_codec :: "string \<Rightarrow> json \<Rightarrow> json_codec" where
  "sample_codec s j = \<lparr>jc_parse = (\<lambda>x. if x = s then Inr j else Inl ''bad''), jc_stringify = (\<lambda>x. s), jc_number = (\<lambda>x. [])\<rparr>"

theorem sdk_receipt_roundtrip_witness:
  "\<exists>c j. parseExecutionReceipt c ''t'' = Inr j \<and>
     receipt_of_json j = createExecutionReceipt
       \<lparr>al_success = True, al_batches = [], al_totalKeysRestored = 0, al_failedAtBatchIndex = None, al_error = None,
        al_ambiguous = False\<rparr> ''G'' [sdk_sample_batch 0 ''x'']"
proof -
  let ?res = "\<lparr>al_success = True, al_batches = [], al_totalKeysRestored = 0, al_failedAtBatchIndex = None,
      al_error = None, al_ambiguous = False\<rparr>"
  let ?r = "createExecutionReceipt ?res ''G'' [sdk_sample_batch 0 ''x'']"
  let ?c = "sample_codec ''t'' (receipt_json ?r)"
  have "jc_parse ?c (jc_stringify ?c (Some (receipt_json ?r))) = Inr (receipt_json ?r)" by (simp add: sample_codec_def)
  from sdk_receipt_roundtrip [OF this] show ?thesis by (auto simp: sample_codec_def)
qed

text \<open>A value that passes has the fields the code goes on to read.\<close>

lemma first_batch_error_None: "first_batch_error c bs = None \<longleftrightarrow> list_all (\<lambda>b. receipt_batch_error c b = None) bs"
  by (induction bs) (auto split: option.split)

section \<open>Resumption\<close>

definition batch_done :: "sdk_batch \<Rightarrow> bool" where
  "batch_done b = (bt_status b = Success \<or> truthy_str (bt_txHash b))"

lemma by_index_None: "i \<notin> bt_batchIndex ` set bs \<Longrightarrow> by_index bs i = None"
  by (auto simp: by_index_def find_None_iff)

lemma by_index_mem: "i \<in> bt_batchIndex ` set bs \<Longrightarrow> \<exists>r. by_index bs i = Some r"
  by (cases "by_index bs i") (auto simp: by_index_def find_None_iff)

lemma ended_indices:
  assumes "sdk_ended src 0 [] 0 bs res t"
  shows "bt_batchIndex ` set (al_batches res) \<subseteq> bt_batchIndex ` set bs"
    and "al_success res \<Longrightarrow> bt_batchIndex ` set (al_batches res) = bt_batchIndex ` set bs \<and>
      (\<forall>b \<in> set (al_batches res). bt_status b = Success)"
proof -
  have slots_idx: "fst ` set (slots xs) = bt_batchIndex ` set xs" for xs by (force simp: slots_def)
  obtain new where new: "al_batches res = new" "sdk_completed new bs res t \<or> sdk_stopped src 0 new bs res t"
    using assms by (auto simp: sdk_ended_def)
  have "\<exists>rest. slots (new @ rest) = slots bs"
    using new(2) by (auto simp: sdk_completed_def sdk_stopped_def intro: exI [of _ "[]"])
  then obtain rest where "slots (new @ rest) = slots bs" by blast
  then have "fst ` set (slots new) \<subseteq> fst ` set (slots bs)" by (metis Un_iff image_mono slots_simps(3) set_append subsetI)
  then show "bt_batchIndex ` set (al_batches res) \<subseteq> bt_batchIndex ` set bs" by (simp add: slots_idx new(1))
  assume "al_success res"
  then have "sdk_completed new bs res t" using new(2) by (auto simp: sdk_stopped_def)
  then show "bt_batchIndex ` set (al_batches res) = bt_batchIndex ` set bs \<and> (\<forall>b \<in> set (al_batches res). bt_status b = Success)"
    by (auto simp: sdk_completed_def new(1) simp flip: slots_idx)
qed

definition resume_pending :: "sdk_receipt \<Rightarrow> sdk_batch list" where
  "resume_pending receipt = filter (\<lambda>b. \<not> batch_done b) (sort_key bt_batchIndex (rc_batches receipt))"

lemma resume_unfold:
  "resumeRestoreBatches v receipt =
    (if resume_pending receipt = []
     then eret \<lparr>al_success = True, al_batches = sort_key bt_batchIndex (rc_batches receipt),
            al_totalKeysRestored = sum_keys (sort_key bt_batchIndex (rc_batches receipt)),
            al_failedAtBatchIndex = None, al_error = None, al_ambiguous = False\<rparr>
     else ebind (sdk_executeRestoreBatches v (map reset_batch (resume_pending receipt)) (Some (rc_sourceAccountID receipt)))
          (\<lambda>resumed. let merged = map (or_same (by_index (al_batches resumed))) (sort_key bt_batchIndex (rc_batches receipt))
             in eret \<lparr>al_success = al_success resumed, al_batches = merged,
                      al_totalKeysRestored = sum_keys (filter (\<lambda>b. bt_status b = Success) merged),
                      al_failedAtBatchIndex = al_failedAtBatchIndex resumed, al_error = al_error resumed,
                      al_ambiguous = False\<rparr>))"
  by (simp add: resumeRestoreBatches_def resume_pending_def batch_done_def Let_def cong: if_cong)

lemma resume_signs:
  "\<exists>xs. signed_since (snd (resumeRestoreBatches v receipt s)) = signed_since s @ xs \<and>
     length xs \<le> (if resume_pending receipt = [] then 0 else Suc (length (resume_pending receipt)))"
proof (cases "resume_pending receipt = []")
  case True
  then show ?thesis by (simp add: resume_unfold eret_def)
next
  case False
  let ?run = "sdk_executeRestoreBatches v (map reset_batch (resume_pending receipt)) (Some (rc_sourceAccountID receipt))"
  obtain q u where q: "?run s = (q, u)" by force
  have "snd (resumeRestoreBatches v receipt s) = u"
    using False q by (cases q) (simp_all add: resume_unfold ebind_def eret_def Let_def)
  moreover obtain xs where "signed_since u = signed_since s @ xs" "length xs \<le> length (resume_pending receipt) + 1"
    using execute_from_signs [OF q [unfolded sdk_executeRestoreBatches_def]] by (auto split: if_splits)
  ultimately show ?thesis using False by auto
qed

definition kept_batches :: "sdk_receipt \<Rightarrow> sdk_batch list" where
  "kept_batches receipt = filter batch_done (rc_batches receipt)"

text \<open>What merging the results of the remaining batches into the ordered list gives.\<close>

lemma resume_merge:
  fixes receipt :: sdk_receipt
  assumes ended: "sdk_ended src 0 [] 0 (map reset_batch (resume_pending receipt)) resumed u"
    and dist: "distinct (map bt_batchIndex (rc_batches receipt))"
  defines "merged \<equiv> map (or_same (by_index (al_batches resumed))) (sort_key bt_batchIndex (rc_batches receipt))"
  shows "set (kept_batches receipt) \<subseteq> set merged" and "al_success resumed \<Longrightarrow> list_all batch_done merged"
proof -
  let ?ord = "sort_key bt_batchIndex (rc_batches receipt)"
  have idx: "bt_batchIndex ` set (map reset_batch (resume_pending receipt)) = bt_batchIndex ` set (resume_pending receipt)"
    by (auto simp: image_iff)
  have inj: "x = y" if "x \<in> set ?ord" "y \<in> set ?ord" "bt_batchIndex x = bt_batchIndex y" for x y
    using that dist by (auto simp: distinct_map dest: inj_onD)
  have keep: "or_same (by_index (al_batches resumed)) b = b" if "b \<in> set (kept_batches receipt)" for b
  proof -
    have "bt_batchIndex b \<notin> bt_batchIndex ` set (resume_pending receipt)"
      using that inj by (auto simp: kept_batches_def resume_pending_def)
    then have "bt_batchIndex b \<notin> bt_batchIndex ` set (al_batches resumed)"
      using ended_indices(1) [OF ended] idx by blast
    then show ?thesis by (simp add: or_same_def by_index_None)
  qed
  show "set (kept_batches receipt) \<subseteq> set merged"
    using keep by (force simp: merged_def kept_batches_def)
  assume ok: "al_success resumed"
  note e = ended_indices(2) [OF ended ok]
  have "batch_done (or_same (by_index (al_batches resumed)) b)" if b: "b \<in> set ?ord" for b
  proof (cases "batch_done b")
    case True
    then show ?thesis using keep [of b] b by (simp add: kept_batches_def)
  next
    case False
    then have "bt_batchIndex b \<in> bt_batchIndex ` set (al_batches resumed)"
      using e idx b by (auto simp: resume_pending_def)
    then obtain r where r: "by_index (al_batches resumed) (bt_batchIndex b) = Some r" using by_index_mem by blast
    then have "bt_status r = Success" using e by_index_Some by metis
    then show ?thesis using r by (simp add: or_same_def batch_done_def)
  qed
  then show "list_all batch_done merged" by (simp add: merged_def list_all_iff)
qed


definition sample_receipt :: sdk_receipt where
  "sample_receipt = \<lparr>rc_version = 1, rc_sourceAccountID = ''G'',
     rc_batches = [sdk_succeeded (sdk_sample_batch 0 ''w'') ''hw'', sdk_sample_batch 1 ''x'']\<rparr>"

lemma sample_resume: "\<exists>res t. resumeRestoreBatches sdk_sample sample_receipt sdk_sample_engine = (Inr res, t)"
proof -
  have pend: "resume_pending sample_receipt = [sdk_sample_batch 1 ''x'']"
    by (simp add: resume_pending_def sample_receipt_def batch_done_def sdk_sample_batch_def)
  obtain e t where e: "sendSignedTransaction sdk_sample ''x'' sdk_sample_engine = (Inl (SdkErr e), t)"
      "er_code e = ''SUBMISSION_AMBIGUOUS''" using sample_unknown by blast
  have "\<exists>res u. sdk_executeRestoreBatches sdk_sample [reset_batch (sdk_sample_batch 1 ''x'')]
      (Some (rc_sourceAccountID sample_receipt)) sdk_sample_engine = (Inr res, u)"
    using e by (simp add: sdk_executeRestoreBatches_def sdk_sample_batch_def reset_batch_def
        wants_refresh_def sdk_batch_failure_def Let_def)
  then show ?thesis by (auto simp: resume_unfold pend ebind_def eret_def Let_def)
qed


end
