(* ===== verification/SdkSharing.thy ===== *)
theory SdkSharing
  imports SdkSubmit
begin

text \<open>
  Work shared between overlapping calls of the \<open>sdk\<close> client: submissions of the same transaction
  (\<open>submitSignedTransaction\<close> of \<open>packages/sdk/src/soroban-resurrect.ts\<close>) and reads of the same ledger key
  (\<open>packages/sdk/src/ledger-read-coalescer.ts\<close>). Promises are numbered in the order they are created, and calls
  and settlements interleave as step relations.
\<close>

section \<open>Submissions\<close>

text \<open>
  \<open>if_inFlight\<close> is the map of the class. \<open>if_prompts\<close> lists the transactions the wallet was asked for, and
  number \<open>p\<close> of it belongs to promise \<open>p\<close>; \<open>if_callers\<close> says which promise each call was given for which
  transaction, \<open>if_settled\<close> the outcomes.
\<close>

record inflight =
  if_inFlight :: "(string, nat) js_map"
  if_prompts :: "string list"
  if_callers :: "(nat \<times> string \<times> nat) list"
  if_settled :: "(nat \<times> (sdk_err + string)) list"

definition inflight_new :: inflight where
  "inflight_new = \<lparr>if_inFlight = [], if_prompts = [], if_callers = [], if_settled = []\<rparr>"

definition submitSignedTransaction_shared :: "nat \<Rightarrow> string \<Rightarrow> inflight \<Rightarrow> inflight" where
  "submitSignedTransaction_shared caller txXDR s = (case jget (if_inFlight s) txXDR of
     Some existing \<Rightarrow> s\<lparr>if_callers := if_callers s @ [(caller, txXDR, existing)]\<rparr>
   | None \<Rightarrow>
       let submission = length (if_prompts s)
       in s\<lparr>if_prompts := if_prompts s @ [txXDR],
            if_inFlight := jset (if_inFlight s) txXDR submission,
            if_callers := if_callers s @ [(caller, txXDR, submission)]\<rparr>)"

text \<open>A submission settles; its \<open>finally\<close> block removes the entry of its transaction.\<close>

definition submission_settles :: "nat \<Rightarrow> sdk_err + string \<Rightarrow> inflight \<Rightarrow> inflight" where
  "submission_settles p out s =
    s\<lparr>if_inFlight := jdel (if_inFlight s) (if_prompts s ! p), if_settled := if_settled s @ [(p, out)]\<rparr>"

definition if_open :: "inflight \<Rightarrow> nat \<Rightarrow> bool" where
  "if_open s p = (p < length (if_prompts s) \<and> p \<notin> fst ` set (if_settled s))"

inductive if_step :: "inflight \<Rightarrow> inflight \<Rightarrow> bool" where
  Call: "if_step s (submitSignedTransaction_shared c x s)"
| Settle: "if_open s p \<Longrightarrow> if_step s (submission_settles p out s)"

inductive_cases if_stepE: "if_step s t"

text \<open>
  An open submission is the entry of its transaction and conversely; every call holds a promise of its own
  transaction.
\<close>

definition inflight_inv :: "inflight \<Rightarrow> bool" where
  "inflight_inv s \<longleftrightarrow>
    (\<forall>x p. jget (if_inFlight s) x = Some p \<longleftrightarrow> if_open s p \<and> if_prompts s ! p = x) \<and>
    (\<forall>(c, x, p) \<in> set (if_callers s). p < length (if_prompts s) \<and> if_prompts s ! p = x) \<and>
    distinct (map fst (if_settled s)) \<and> (\<forall>p \<in> fst ` set (if_settled s). p < length (if_prompts s))"

lemma inflight_inv_new: "inflight_inv inflight_new"
  by (simp add: inflight_inv_def inflight_new_def if_open_def)

lemma inflight_inv_call:
  assumes "inflight_inv s"
  shows "inflight_inv (submitSignedTransaction_shared c x s)"
proof (cases "jget (if_inFlight s) x")
  case None
  let ?t = "submitSignedTransaction_shared c x s"
  have t: "if_prompts ?t = if_prompts s @ [x]" "if_settled ?t = if_settled s"
    "if_inFlight ?t = jset (if_inFlight s) x (length (if_prompts s))"
    "if_callers ?t = if_callers s @ [(c, x, length (if_prompts s))]"
    using None by (simp_all add: submitSignedTransaction_shared_def Let_def)
  have new: "length (if_prompts s) \<notin> fst ` set (if_settled s)" using assms by (auto simp: inflight_inv_def)
  have opn: "if_open ?t p \<longleftrightarrow> if_open s p \<or> p = length (if_prompts s)" for p
    using new by (auto simp: if_open_def t less_Suc_eq)
  have no: "\<not> (if_open s p \<and> if_prompts s ! p = x)" for p
    using assms None unfolding inflight_inv_def by (metis option.distinct(1))
  have "jget (if_inFlight ?t) y = Some p \<longleftrightarrow> if_open ?t p \<and> if_prompts ?t ! p = y" for y p
  proof (cases "p = length (if_prompts s)")
    case True
    have "jget (if_inFlight s) y \<noteq> Some p" using assms True by (auto simp: inflight_inv_def if_open_def)
    then show ?thesis using True by (auto simp: t opn jget_set nth_append)
  next
    case False
    then show ?thesis using assms no by (auto simp: t opn jget_set inflight_inv_def nth_append if_open_def)
  qed
  then show ?thesis using assms new unfolding inflight_inv_def by (auto simp: t nth_append less_Suc_eq)
next
  case (Some p)
  then have "if_open s p \<and> if_prompts s ! p = x" using assms by (simp add: inflight_inv_def)
  moreover have "submitSignedTransaction_shared c x s = s\<lparr>if_callers := if_callers s @ [(c, x, p)]\<rparr>"
    using Some by (simp add: submitSignedTransaction_shared_def)
  ultimately show ?thesis using assms by (auto simp: inflight_inv_def if_open_def)
qed

lemma inflight_inv_settle:
  assumes inv: "inflight_inv s" and opn: "if_open s p"
  shows "inflight_inv (submission_settles p out s)"
proof -
  have same: "q = p" if "if_open s q" "if_prompts s ! q = if_prompts s ! p" for q
    using that inv opn unfolding inflight_inv_def by (metis option.inject)
  have "if_open (submission_settles p out s) q \<longleftrightarrow> if_open s q \<and> q \<noteq> p" for q
    by (auto simp: if_open_def submission_settles_def)
  then have "jget (if_inFlight (submission_settles p out s)) x = Some q \<longleftrightarrow>
      if_open (submission_settles p out s) q \<and> if_prompts (submission_settles p out s) ! q = x" for x q
    using inv same opn by (auto simp: submission_settles_def jget_del inflight_inv_def)
  then show ?thesis using inv opn
    unfolding inflight_inv_def by (auto simp: submission_settles_def if_open_def)
qed

lemma inflight_inv_reach: "if_step\<^sup>*\<^sup>* inflight_new s \<Longrightarrow> inflight_inv s"
  by (induction rule: rtranclp_induct)
    (auto intro: inflight_inv_new elim!: if_stepE intro: inflight_inv_call inflight_inv_settle)

text \<open>The outcome a call sees.\<close>

definition if_answer :: "inflight \<Rightarrow> nat \<Rightarrow> (sdk_err + string) option" where
  "if_answer s p = map_of (if_settled s) p"

lemma settle_all:
  "inflight_inv s \<Longrightarrow> \<exists>t. if_step\<^sup>*\<^sup>* s t \<and> inflight_inv t \<and> if_callers t = if_callers s \<and>
     if_prompts t = if_prompts s \<and> (\<forall>p. \<not> if_open t p)"
proof (induction "card {p. if_open s p}" arbitrary: s)
  case 0
  have "finite {p. if_open s p}" by (rule finite_subset [of _ "{..<length (if_prompts s)}"]) (auto simp: if_open_def)
  then have "\<forall>p. \<not> if_open s p" using 0 by auto
  then show ?case using 0 by blast
next
  case (Suc n)
  have fin: "finite {p. if_open s p}" by (rule finite_subset [of _ "{..<length (if_prompts s)}"]) (auto simp: if_open_def)
  obtain p where p: "if_open s p" using Suc.hyps(2) by (metis card.empty empty_Collect_eq nat.distinct(1))
  let ?u = "submission_settles p (Inr []) s"
  have "{q. if_open ?u q} = {q. if_open s q} - {p}" by (auto simp: if_open_def submission_settles_def)
  then have "n = card {q. if_open ?u q}" using Suc.hyps(2) fin p by simp
  from Suc.hyps(1) [OF this inflight_inv_settle [OF Suc.prems p]] obtain t where t:
    "if_step\<^sup>*\<^sup>* ?u t" "inflight_inv t" "if_callers t = if_callers ?u" "if_prompts t = if_prompts ?u" "\<forall>p. \<not> if_open t p"
    by blast
  have "if_step\<^sup>*\<^sup>* s t" by (rule converse_rtranclp_into_rtranclp [OF if_step.Settle [OF p] t(1)])
  then show ?case using t by (auto simp: submission_settles_def)
qed

text \<open>
  C16: at any moment at most one submission of a transaction is open, however calls and settlements
  interleave; every call holds a promise of its own transaction; and from every state the calls are all
  answered once the open submissions settle, without another prompt of the wallet.
\<close>

theorem sdk_one_submission_in_flight:
  assumes "if_step\<^sup>*\<^sup>* inflight_new s"
  shows "(\<forall>p q. if_open s p \<and> if_open s q \<and> if_prompts s ! p = if_prompts s ! q \<longrightarrow> p = q) \<and>
    (\<forall>c x p. (c, x, p) \<in> set (if_callers s) \<longrightarrow> p < length (if_prompts s) \<and> if_prompts s ! p = x) \<and>
    (\<exists>t. if_step\<^sup>*\<^sup>* s t \<and> if_prompts t = if_prompts s \<and> if_callers t = if_callers s \<and>
       (\<forall>c x p. (c, x, p) \<in> set (if_callers t) \<longrightarrow> if_answer t p \<noteq> None))"
proof (intro conjI)
  have inv: "inflight_inv s" by (rule inflight_inv_reach [OF assms])
  show "\<forall>p q. if_open s p \<and> if_open s q \<and> if_prompts s ! p = if_prompts s ! q \<longrightarrow> p = q"
    using inv unfolding inflight_inv_def by (metis option.inject)
  show "\<forall>c x p. (c, x, p) \<in> set (if_callers s) \<longrightarrow> p < length (if_prompts s) \<and> if_prompts s ! p = x"
    using inv by (auto simp: inflight_inv_def)
  obtain t where t: "if_step\<^sup>*\<^sup>* s t" "inflight_inv t" "if_callers t = if_callers s" "if_prompts t = if_prompts s"
      "\<forall>p. \<not> if_open t p" using settle_all [OF inv] by blast
  have "if_answer t p \<noteq> None" if "(c, x, p) \<in> set (if_callers t)" for c x p
    using t(2,5) that by (force simp: inflight_inv_def if_open_def if_answer_def map_of_eq_None_iff)
  then show "\<exists>t. if_step\<^sup>*\<^sup>* s t \<and> if_prompts t = if_prompts s \<and> if_callers t = if_callers s \<and>
       (\<forall>c x p. (c, x, p) \<in> set (if_callers t) \<longrightarrow> if_answer t p \<noteq> None)"
    using t by blast
qed

theorem sdk_one_submission_in_flight_witness:
  "if_prompts (submitSignedTransaction_shared 2 ''x'' (submitSignedTransaction_shared 1 ''x'' inflight_new)) = [''x''] \<and>
   (\<exists>t. if_step\<^sup>*\<^sup>* (submitSignedTransaction_shared 2 ''x'' (submitSignedTransaction_shared 1 ''x'' inflight_new)) t \<and>
      if_prompts t = [''x''])"
proof -
  let ?s = "submitSignedTransaction_shared 2 ''x'' (submitSignedTransaction_shared 1 ''x'' inflight_new)"
  have "if_step\<^sup>*\<^sup>* inflight_new ?s"
    by (rule rtranclp.rtrancl_into_rtrancl [OF r_into_rtranclp [of if_step, OF if_step.Call] if_step.Call])
  from sdk_one_submission_in_flight [OF this] have "\<exists>t. if_step\<^sup>*\<^sup>* ?s t \<and> if_prompts t = if_prompts ?s" by blast
  moreover have "if_prompts ?s = [''x'']"
    by (simp add: submitSignedTransaction_shared_def inflight_new_def jget_def Let_def)
  ultimately show ?thesis by simp
qed

end
