(* ===== verification/SdkLimits.thy ===== *)
theory SdkLimits
  imports SdkOutcome
begin

text \<open>
  The restore transactions the \<open>sdk\<close> client builds: its three batch limits, grouping by contract, and what each
  transaction holds.
\<close>

section \<open>The limits of a batch\<close>

definition sdk_weight :: "sdk_key list \<Rightarrow> nat" where
  "sdk_weight b = sum_list (map (\<lambda>k. length (kx_keyBase64 k)) b) + 200 * (length b - 1)"

definition fee_budget :: "sdk_env \<Rightarrow> int option" where
  "fee_budget v = (if truthy_str (cf_maxRestoreFeeStroops v) then js_BigInt (the (cf_maxRestoreFeeStroops v)) else None)"

text \<open>The fee of a batch of this size was estimated within the budget, if there is one.\<close>

definition fee_affordable :: "sdk_env \<Rightarrow> int option \<Rightarrow> nat \<Rightarrow> bool" where
  "fee_affordable v maxFee n = (case maxFee of
     None \<Rightarrow> True
   | Some budget \<Rightarrow> \<exists>s f t fee. sdk_estimateRestoreFee v n s = (Inr f, t) \<and> js_BigInt f = Some fee \<and> fee \<le> budget)"

text \<open>A batch of one key is always made; a larger one respects every limit.\<close>

definition batch_within :: "sdk_env \<Rightarrow> int option \<Rightarrow> int \<Rightarrow> sdk_key list \<Rightarrow> bool" where
  "batch_within v maxFee mx b = (b \<noteq> [] \<and> (1 < length b \<longrightarrow>
     int (length b) \<le> mx \<and> sdk_weight b \<le> SDK_MAX_XDR_SIZE_BYTES \<and> fee_affordable v maxFee (length b)))"

definition sdk_batch_fits :: "sdk_env \<Rightarrow> sdk_key list \<Rightarrow> bool" where
  "sdk_batch_fits v b = batch_within v (fee_budget v) (batch_size_limit v) b"

lemma sdk_weight_snoc: "b \<noteq> [] \<Longrightarrow> sdk_weight (b @ [k]) = sdk_weight b + length (kx_keyBase64 k) + 200"
  by (cases b) (auto simp: sdk_weight_def)

lemma budget_ok:
  "fee_budget_exceeded v maxFee n s = (Inr False, t) \<Longrightarrow> 0 < n \<Longrightarrow> fee_affordable v maxFee (Suc n)"
  by (auto simp: fee_budget_exceeded_def fee_affordable_def ebind_Inr not_less split: option.splits)

lemma batch_loop_concat:
  "sdk_batch_loop v m mx bs cur n ks s = (Inr out, t) \<Longrightarrow> concat out = concat bs @ cur @ ks"
  by (induction ks arbitrary: bs cur n s) (auto simp: Let_def ebind_Inr split: if_splits)

lemma batch_loop_within:
  assumes "sdk_batch_loop v m mx bs cur n ks s = (Inr out, t)"
    and "list_all (batch_within v m mx) bs" and "cur = [] \<or> (batch_within v m mx cur \<and> sdk_weight cur \<le> n)"
  shows "list_all (batch_within v m mx) out"
  using assms
proof (induction ks arbitrary: bs cur n s)
  case Nil
  then show ?case by (auto split: if_splits)
next
  case (Cons k ks)
  let ?n = "n + length (kx_keyBase64 k) + 200"
  obtain f u where f: "fee_budget_exceeded v m (length cur) s = (Inr f, u)"
    and nxt: "(if ((SDK_MAX_XDR_SIZE_BYTES < ?n \<and> cur \<noteq> []) \<or> mx \<le> int (length cur) \<or> f) \<and> cur \<noteq> []
      then sdk_batch_loop v m mx (bs @ [cur]) [k] (length (kx_keyBase64 k)) ks
      else sdk_batch_loop v m mx bs (cur @ [k]) ?n ks) u = (Inr out, t)"
    using Cons.prems(1) by (auto simp: Let_def ebind_Inr)
  have one: "batch_within v m mx [k]" by (simp add: batch_within_def)
  show ?case
  proof (cases "((SDK_MAX_XDR_SIZE_BYTES < ?n \<and> cur \<noteq> []) \<or> mx \<le> int (length cur) \<or> f) \<and> cur \<noteq> []")
    case True
    have run: "sdk_batch_loop v m mx (bs @ [cur]) [k] (length (kx_keyBase64 k)) ks u = (Inr out, t)"
      by (rule nxt [unfolded if_P [OF True]])
    show ?thesis by (rule Cons.IH [OF run]) (use Cons.prems True one in \<open>auto simp: sdk_weight_def\<close>)
  next
    case False
    have run: "sdk_batch_loop v m mx bs (cur @ [k]) ?n ks u = (Inr out, t)"
      by (rule nxt [unfolded if_not_P [OF False]])
    have "batch_within v m mx (cur @ [k]) \<and> sdk_weight (cur @ [k]) \<le> ?n"
    proof (cases "cur = []")
      case True
      then show ?thesis using one by (simp add: sdk_weight_def)
    next
      case c: False
      then have "fee_affordable v m (Suc (length cur))" using f False budget_ok [of v m "length cur" s u] by auto
      then show ?thesis using c False Cons.prems(3) by (auto simp: batch_within_def sdk_weight_snoc)
    qed
    then show ?thesis by (intro Cons.IH [OF run]) (use Cons.prems in auto)
  qed
qed

lemma batchKeys_run:
  "sdk_batchKeys v ks s = (Inr bs, t) \<Longrightarrow> sdk_batch_loop v (fee_budget v) (batch_size_limit v) [] [] 0 ks s = (Inr bs, t)"
  by (auto simp: sdk_batchKeys_def fee_budget_def split: if_splits option.splits)

lemma sdk_batchKeys_spec:
  assumes "sdk_batchKeys v ks s = (Inr bs, t)"
  shows "concat bs = ks \<and> list_all (sdk_batch_fits v) bs"
  using batch_loop_concat [OF batchKeys_run [OF assms]] batch_loop_within [OF batchKeys_run [OF assms]]
  by (simp add: sdk_batch_fits_def [abs_def])

definition one_contract :: "sdk_key list \<Rightarrow> bool" where
  "one_contract b = (\<exists>c. \<forall>k \<in> set b. sdk_group_id k = c)"

lemma batchKeyGroups_spec:
  "sdk_batchKeyGroups v gs s = (Inr bs, t) \<Longrightarrow> list_all (\<lambda>g. one_contract (snd g)) gs \<Longrightarrow>
   concat bs = concat (map snd gs) \<and> list_all (\<lambda>b. sdk_batch_fits v b \<and> one_contract b) bs"
proof (induction gs arbitrary: s t bs)
  case (Cons g gs)
  obtain b1 b2 u where b: "sdk_batchKeys v (snd g) s = (Inr b1, u)" "sdk_batchKeyGroups v gs u = (Inr b2, t)" "bs = b1 @ b2"
    using Cons.prems(1) by (auto simp: ebind_Inr)
  have "list_all one_contract b1"
  proof -
    obtain c where c: "\<forall>k \<in> set (snd g). sdk_group_id k = c" using Cons.prems(2) by (auto simp: one_contract_def)
    have "set (concat b1) = set (snd g)" using sdk_batchKeys_spec [OF b(1)] by simp
    then have "\<forall>x \<in> set b1. \<forall>k \<in> set x. sdk_group_id k = c" using c by auto
    then show ?thesis by (auto simp: one_contract_def list_all_iff)
  qed
  then show ?case using Cons.IH [OF b(2)] sdk_batchKeys_spec [OF b(1)] Cons.prems(2)
    by (auto simp: b(3) list_all_iff)
qed simp

lemma grouped_one_contract: "list_all (\<lambda>g. one_contract (snd g)) (sdk_groupKeysByContract ks)"
  using group_by_mem [of _ _ sdk_group_id ks]
  by (fastforce simp: list_all_iff one_contract_def sdk_groupKeysByContract_def)

section \<open>The transactions\<close>

definition sdk_built :: "sdk_env \<Rightarrow> string option \<Rightarrow> string \<Rightarrow> int \<Rightarrow> nat \<times> sdk_key list \<Rightarrow> sdk_batch \<Rightarrow> bool" where
  "sdk_built v sponsor source seq ik b = (case ik of (i, keys) \<Rightarrow>
     bt_batchIndex b = i \<and> bt_keysRestored b = length keys \<and> bt_status b = Pending \<and>
     (\<exists>fee tx. y_buildRestore v source (seq + int i) fee (y_footprintData v (map kx_key keys)) = Inr tx \<and>
        (if truthy_str sponsor
         then wrapRestoreTransactionInFeeBump v tx (the sponsor) fee = Inr (bt_transactionXDR b)
         else bt_transactionXDR b = tx)))"

lemma build_batches_built:
  "sdk_build_batches v sp a i (seq + int i) bs s = (Inr out, t) \<Longrightarrow>
   list_all2 (sdk_built v sp a seq) (List.enumerate i bs) out"
proof (induction bs arbitrary: i s out)
  case (Cons keys bs)
  obtain fee tx x rest u w w' where b: "y_buildRestore v a (seq + int i) fee (y_footprintData v (map kx_key keys)) = Inr tx"
    "(if truthy_str sp then k_lift (wrapRestoreTransactionInFeeBump v tx (the sp) fee) else eret tx) u = (Inr x, w)"
    "sdk_build_batches v sp a (Suc i) (seq + int i + 1) bs w = (Inr rest, w')" "out = sdk_pending_batch i x keys # rest" "w' = t"
    using Cons.prems by (simp only: sdk_build_batches.simps ebind_Inr k_lift_def eret_eq prod.inject sum.inject) blast
  have x: "if truthy_str sp then wrapRestoreTransactionInFeeBump v tx (the sp) fee = Inr x else x = tx"
    using b(2) by (auto simp: k_lift_def split: if_splits)
  have "sdk_build_batches v sp a (Suc i) (seq + int (Suc i)) bs w = (Inr rest, t)" using b(3,5) by (simp add: ac_simps)
  moreover have "sdk_built v sp a seq (i, keys) (sdk_pending_batch i x keys)"
    unfolding sdk_built_def prod.case using b(1) x by (intro conjI exI [of _ fee] exI [of _ tx]) (simp_all add: sdk_pending_batch_def)
  ultimately show ?case using Cons.IH by (simp add: b(4))
qed simp

lemma again_keys:
  "mset (map kx_key (sdk_classify_again pm ks)) = mset (map kx_key ks)"
proof -
  have "image_mset fst (mset (map (\<lambda>k. (kx_key k, kx_keyBase64 k)) (sdk_classify_again pm ks))) =
      image_mset fst (mset (map (\<lambda>k. (kx_key k, kx_keyBase64 k)) ks))"
    unfolding sdk_classify_again_def sdk_classifyDeferredKeys_keys ..
  then show ?thesis by (simp add: image_mset.compositionality comp_def)
qed

text \<open>What the built batches stand for: a division of the keys and a first sequence number.\<close>

definition sdk_plan :: "sdk_env \<Rightarrow> string option \<Rightarrow> string \<Rightarrow> sdk_key list \<Rightarrow> (sdk_key list \<Rightarrow> bool) \<Rightarrow> sdk_batch list \<Rightarrow> bool" where
  "sdk_plan v sponsor source keys fits out =
    (\<exists>seq parts. mset (map kx_key (concat parts)) = mset (map kx_key keys) \<and> list_all fits parts \<and>
       list_all2 (sdk_built v sponsor source seq) (List.enumerate 0 parts) out)"

text \<open>
  Built restore batches hold every archived key exactly once; a batch of several keys respects the XDR
  size, the configured number of entries and the fee budget; transactions carry consecutive sequence numbers
  from the account's, and are wrapped for the sponsor when there is one. The concurrent variant puts one
  contract in a batch and never wraps.
\<close>

theorem sdk_built_batches:
  assumes "sdk_buildRestoreTransactionBatches v keys source s = (Inr out, t)"
    and "sdk_buildRestoreTransactionBatchesConcurrent v keys source s' = (Inr out', t')"
  shows "sdk_plan v (cf_feeBumpSponsor v) source keys (sdk_batch_fits v) out \<and>
    sdk_plan v None source keys (\<lambda>b. sdk_batch_fits v b \<and> one_contract b) out'"
proof
  let ?ks = "sdk_classify_again (cf_restorePriorityMap v) keys"
  show "sdk_plan v (cf_feeBumpSponsor v) source keys (sdk_batch_fits v) out"
  proof -
    obtain parts seq u w where b: "sdk_batchKeys v ?ks s = (Inr parts, u)"
      "sdk_build_batches v (cf_feeBumpSponsor v) source 0 (seq + int 0) parts w = (Inr out, t)"
      using assms(1) by (auto simp: sdk_buildRestoreTransactionBatches_def ebind_Inr split: if_splits)
    have "mset (map kx_key (concat parts)) = mset (map kx_key keys)"
      using sdk_batchKeys_spec [OF b(1)] again_keys [of "cf_restorePriorityMap v" keys] by simp
    then show ?thesis using sdk_batchKeys_spec [OF b(1)] build_batches_built [OF b(2)]
      unfolding sdk_plan_def by blast
  qed
  show "sdk_plan v None source keys (\<lambda>b. sdk_batch_fits v b \<and> one_contract b) out'"
  proof -
    obtain parts seq u w where b: "sdk_batchKeyGroups v (sdk_groupKeysByContract ?ks) s' = (Inr parts, u)"
      "sdk_build_batches v None source 0 (seq + int 0) parts w = (Inr out', t')"
      using assms(2) by (auto simp: sdk_buildRestoreTransactionBatchesConcurrent_def ebind_Inr split: if_splits)
    have g: "concat parts = concat (map snd (sdk_groupKeysByContract ?ks))"
      "list_all (\<lambda>b. sdk_batch_fits v b \<and> one_contract b) parts"
      using batchKeyGroups_spec [OF b(1) grouped_one_contract] by simp_all
    have "mset (concat parts) = mset ?ks"
      unfolding g(1) sdk_groupKeysByContract_def by (rule group_by_mset)
    then have "mset (map kx_key (concat parts)) = mset (map kx_key keys)"
      using again_keys [of "cf_restorePriorityMap v" keys] by (simp only: mset_map) 
    then show ?thesis using g(2) build_batches_built [OF b(2)] unfolding sdk_plan_def by blast
  qed
qed

definition sdk_sample_key :: sdk_key where
  "sdk_sample_key = \<lparr>kx_key = ContractCode ''c'', kx_keyBase64 = ''AAAA'', kx_keyType = SkContractCode,
     kx_sacKeyType = None, kx_contractId = Some ''c'', kx_restorePriority = 1\<rparr>"

lemmas sample_build_eval = sdk_classify_again_def sdk_classifyDeferredKeys_def sdk_classify_one_def final_priority_def
  sdk_batchKeys_def fee_budget_exceeded_def batch_size_limit_def sdk_fetch_sequence_def sdk_estimateRestoreFee_def
  SDK_MAX_XDR_SIZE_BYTES_def sdk_policy_reset_def sdk_groupKeysByContract_def sdk_group_id_def

lemma sample_built:
  "\<exists>out t. sdk_buildRestoreTransactionBatches sdk_sample [sdk_sample_key] ''G'' sdk_sample_engine = (Inr out, t)"
  "\<exists>out t. sdk_buildRestoreTransactionBatchesConcurrent sdk_sample [sdk_sample_key] ''G'' sdk_sample_engine = (Inr out, t)"
  by (simp_all add: sdk_buildRestoreTransactionBatches_def sdk_buildRestoreTransactionBatchesConcurrent_def
      sample_submit_eval sample_build_eval sdk_sample_key_def group_by_def group_push_def)

theorem sdk_built_batches_witness:
  "\<exists>out. sdk_plan sdk_sample (cf_feeBumpSponsor sdk_sample) ''G'' [sdk_sample_key] (sdk_batch_fits sdk_sample) out"
  using sample_built sdk_built_batches by blast

end
