(* ===== verification/SdkConcurrent.thy ===== *)
theory SdkConcurrent
  imports ConcurrentRun SdkLimits
begin

text \<open>
  \<open>executeRestoreBatchesConcurrent\<close> of the \<open>sdk\<close> client and the flow built on it
  (\<open>packages/sdk/src/soroban-resurrect.ts\<close>), on the execution of \<open>ConcurrentRun\<close>. Unlike the \<open>core\<close> client
  the flow verifies nothing on the ledger between the batches and the original transaction.
\<close>

section \<open>Execution\<close>

definition sdk_concurrent_outcome :: "sdk_batch \<Rightarrow> sdk_err + string \<Rightarrow> sdk_batch" where
  "sdk_concurrent_outcome b out = (case out of
     Inr hash \<Rightarrow> sdk_succeeded b hash
   | Inl e \<Rightarrow> sdk_failed_with b (sdk_message e))"

definition sdk_executeRestoreBatchesConcurrent ::
  "sdk_env \<Rightarrow> int option \<Rightarrow> sdk_batch list \<Rightarrow> (nat \<times> (sdk_err + string)) list \<Rightarrow> sdk_batch concurrent_result option" where
  "sdk_executeRestoreBatchesConcurrent v concurrency batches evs =
    execute_concurrent sdk_concurrent_outcome bt_keysRestored
      (concurrency_limit (cf_maxConcurrency v) concurrency) batches evs"

text \<open>\<open>run\<close> is the concurrent execution of the batches it is given.\<close>

definition sdk_executeRestoreThenOriginalBatchesConcurrent ::
  "sdk_env \<Rightarrow> (sdk_batch list \<Rightarrow> sdk_batch concurrent_result sact) \<Rightarrow> sdk_key list \<Rightarrow> string \<Rightarrow> string \<Rightarrow> bool \<Rightarrow>
   (sdk_execution \<times> sdk_batch concurrent_result) sact" where
  "sdk_executeRestoreThenOriginalBatchesConcurrent v run archivedKeys originalXDR source requireAllBatches =
    ebind (sdk_buildRestoreTransactionBatchesConcurrent v
        (sdk_classify_again (cf_restorePriorityMap v) archivedKeys) source) (\<lambda>restoreBatches.
    ebind (run restoreBatches) (\<lambda>res.
      if \<not> cr_success res \<and> requireAllBatches
      then ethrow (sdk_error_new
             (case cr_error res of Some m \<Rightarrow> m | None \<Rightarrow> ''One or more restore batches failed'') ''RESTORE_FAILED'' None)
      else
        ebind (ecatch (sendSignedTransaction v originalXDR)
                 (\<lambda>e. ethrow (sdk_error_new (''Original transaction failed after restore: '' @ sdk_message e)
                    ''ORIGINAL_TX_FAILED'' None))) (\<lambda>originalTxHash.
        eret ((sdk_execution_of True (cr_totalKeysRestored res))\<lparr>xe_originalTxHash := Some originalTxHash\<rparr>, res))))"

section \<open>Properties\<close>

text \<open>What the flow does once the batches have been executed with the result \<open>res\<close> in the state \<open>u\<close>.\<close>

definition flow_after ::
  "sdk_env \<Rightarrow> string \<Rightarrow> bool \<Rightarrow> sdk_batch concurrent_result \<Rightarrow> sdk_engine \<Rightarrow>
   (sdk_err + (sdk_execution \<times> sdk_batch concurrent_result)) \<times> sdk_engine \<Rightarrow> bool" where
  "flow_after v originalXDR requireAllBatches res u out =
    (if \<not> cr_success res \<and> requireAllBatches
     then (\<exists>m. out = (Inl (sdk_error_new m ''RESTORE_FAILED'' None), u))
     else signed_since (snd out) = signed_since u @ [originalXDR] \<and>
       (case out of
          (Inl e, t) \<Rightarrow> \<exists>m. e = sdk_error_new m ''ORIGINAL_TX_FAILED'' None
        | (Inr (x, res'), t) \<Rightarrow> res' = res \<and> xe_entriesRestored x = cr_totalKeysRestored res \<and>
            (\<exists>hash. xe_originalTxHash x = Some hash \<and> sdk_confirmed_last v hash (sd_calls t))))"

text \<open>
  C19: the concurrent flow of the \<open>sdk\<close> client attempts every batch exactly once before it goes on. Where a
  batch failed and all are required it rejects with \<open>RESTORE_FAILED\<close> and no further call; otherwise the wallet
  is asked for the original transaction next, once, and a result reports the hash the network confirmed.
\<close>

theorem sdk_concurrent_flow:
  assumes "sdk_executeRestoreBatchesConcurrent v concurrency batches evs = Some res"
    and "sdk_buildRestoreTransactionBatchesConcurrent v (sdk_classify_again (cf_restorePriorityMap v) keys) source s =
      (Inr batches, w)"
    and "run batches w = (Inr res, u)"
  shows "conc_complete sdk_concurrent_outcome bt_keysRestored batches evs res \<and>
    flow_after v original requireAll res u
      (sdk_executeRestoreThenOriginalBatchesConcurrent v run keys original source requireAll s)"
proof
  show "conc_complete sdk_concurrent_outcome bt_keysRestored batches evs res"
    using assms(1) unfolding sdk_executeRestoreBatchesConcurrent_def
    by (rule execute_concurrent_complete) (simp add: concurrency_limit_def)
  obtain q t where q: "sendSignedTransaction v original u = (q, t)" by force
  have sg: "signed_since t = signed_since u @ [original]" by (rule sendSigned_signs [OF q])
  show "flow_after v original requireAll res u
      (sdk_executeRestoreThenOriginalBatchesConcurrent v run keys original source requireAll s)"
  proof (cases "\<not> cr_success res \<and> requireAll")
    case True
    then show ?thesis using assms(2,3)
      by (auto simp: flow_after_def sdk_executeRestoreThenOriginalBatchesConcurrent_def ebind_def ethrow_def)
  next
    case False
    then have "sdk_executeRestoreThenOriginalBatchesConcurrent v run keys original source requireAll s =
      (case q of Inl e \<Rightarrow> (Inl (sdk_error_new (''Original transaction failed after restore: '' @ sdk_message e)
            ''ORIGINAL_TX_FAILED'' None), t)
        | Inr hash \<Rightarrow> (Inr ((sdk_execution_of True (cr_totalKeysRestored res))\<lparr>xe_originalTxHash := Some hash\<rparr>, res), t))"
      using assms(2,3) q by (auto simp: sdk_executeRestoreThenOriginalBatchesConcurrent_def ebind_def ethrow_def
          ecatch_def eret_def split: sum.split)
    with False sg show ?thesis
      using send_confirmed [of v original u _ t] q
      by (cases q) (auto simp: flow_after_def sdk_execution_of_def)
  qed
qed

theorem sdk_concurrent_flow_witness:
  "\<exists>batches w res. sdk_executeRestoreBatchesConcurrent sdk_sample (Some 2) batches [(0, Inl (OtherErr ''Error'' ''no''))] =
       Some res \<and>
     flow_after sdk_sample ''o'' True res w
       (sdk_executeRestoreThenOriginalBatchesConcurrent sdk_sample (\<lambda>bs t. (Inr res, t)) [sdk_sample_key] ''o'' ''G'' True
          sdk_sample_engine)"
proof -
  obtain batches w where built: "sdk_buildRestoreTransactionBatchesConcurrent sdk_sample
      (sdk_classify_again (cf_restorePriorityMap sdk_sample) [sdk_sample_key]) ''G'' sdk_sample_engine = (Inr batches, w)"
      "length batches = 1"
    by (simp add: sdk_buildRestoreTransactionBatchesConcurrent_def
        sample_submit_eval sample_build_eval sdk_sample_key_def group_by_def group_push_def)
  then obtain b where b: "batches = [b]" by (cases batches) auto
  obtain res where "sdk_executeRestoreBatchesConcurrent sdk_sample (Some 2) batches [(0, Inl (OtherErr ''Error'' ''no''))] = Some res"
    by (simp add: b sdk_executeRestoreBatchesConcurrent_def execute_concurrent_def concurrency_limit_def conc_start_def
        conc_finish_def sys_arrive_def sys_finish_def sys_new_def sem_new_def sem_acquire_def sem_release_def Let_def)
  with sdk_concurrent_flow [OF this built(1), of "\<lambda>bs t. (Inr res, t)" w "''o''" True]
  show ?thesis by blast
qed

end
