(* ===== verification/SdkStreams.thy ===== *)
theory SdkStreams
  imports SdkClient
begin

text \<open>
  The observables of the \<open>sdk\<close> client (\<open>initializeObservables\<close> of \<open>packages/sdk/src/soroban-resurrect.ts\<close>): a
  subscription registers its handlers with the listeners of the client and takes them out again. The state shown
  by \<open>state$\<close> is one variable of all its subscriptions, set by their handlers. Listeners are called in the order
  in which they were registered, so subscriptions are kept in their order. RxJS itself runs the subscribe function
  at once and the teardown on \<open>unsubscribe\<close>.
\<close>

section \<open>Streams\<close>

datatype restore_state = StateIdle | StateRestoring | StateOriginal | StateComplete | StateError

datatype stream_event = Lifecycle sdk_event | ErrorEvent sdk_err

datatype stream = EventStream | StateStream | ProgressStream

datatype told = ToldEvent stream_event | ToldState restore_state | ToldProgress nat "nat option"

record observables =
  ob_currentState :: restore_state
  ob_subscriptions :: "(nat \<times> stream) list"
  ob_told :: "(nat \<times> told) list"

definition observables_new :: observables where
  "observables_new = \<lparr>ob_currentState = StateIdle, ob_subscriptions = [], ob_told = []\<rparr>"

definition tell_subscriber :: "nat \<Rightarrow> told \<Rightarrow> observables \<Rightarrow> observables" where
  "tell_subscriber k t s = s\<lparr>ob_told := ob_told s @ [(k, t)]\<rparr>"

definition stream_subscribe :: "nat \<Rightarrow> stream \<Rightarrow> observables \<Rightarrow> observables" where
  "stream_subscribe k m s =
    (let t = (if m = StateStream then tell_subscriber k (ToldState (ob_currentState s)) s else s)
     in t\<lparr>ob_subscriptions := ob_subscriptions t @ [(k, m)]\<rparr>)"

definition stream_unsubscribe :: "nat \<Rightarrow> observables \<Rightarrow> observables" where
  "stream_unsubscribe k s = s\<lparr>ob_subscriptions := filter (\<lambda>p. fst p \<noteq> k) (ob_subscriptions s)\<rparr>"

fun state_after :: "stream_event \<Rightarrow> restore_state option" where
  "state_after (Lifecycle (SdkRestoreStart ks)) = Some StateRestoring"
| "state_after (Lifecycle (SdkRestoreComplete x n)) = Some StateOriginal"
| "state_after (Lifecycle (SdkOriginalComplete h)) = Some StateComplete"
| "state_after (ErrorEvent e) = Some StateError"
| "state_after (Lifecycle (SdkBatchComplete i n)) = None"
| "state_after (Lifecycle SdkOriginalStart) = None"

fun progress_of :: "stream_event \<Rightarrow> (nat \<times> nat option) option" where
  "progress_of (Lifecycle (SdkBatchComplete i n)) = Some (i, n)"
| "progress_of _ = None"

definition handle_event :: "stream_event \<Rightarrow> nat \<times> stream \<Rightarrow> observables \<Rightarrow> observables" where
  "handle_event e p s = (case snd p of
     EventStream \<Rightarrow> tell_subscriber (fst p) (ToldEvent e) s
   | StateStream \<Rightarrow> (case state_after e of
       None \<Rightarrow> s
     | Some st \<Rightarrow> tell_subscriber (fst p) (ToldState st) (s\<lparr>ob_currentState := st\<rparr>))
   | ProgressStream \<Rightarrow> (case progress_of e of
       None \<Rightarrow> s
     | Some (i, n) \<Rightarrow> tell_subscriber (fst p) (ToldProgress i n) s))"

definition stream_emit :: "stream_event \<Rightarrow> observables \<Rightarrow> observables" where
  "stream_emit e s = fold (handle_event e) (ob_subscriptions s) s"

datatype stream_op = StreamSubscribe nat stream | StreamUnsubscribe nat | StreamEmit stream_event

text \<open>Subscriptions are numbered by their caller; a number is used once.\<close>

fun stream_step :: "stream_op \<Rightarrow> observables \<Rightarrow> observables" where
  "stream_step (StreamSubscribe k m) s = stream_subscribe k m s"
| "stream_step (StreamUnsubscribe k) s = stream_unsubscribe k s"
| "stream_step (StreamEmit e) s = stream_emit e s"

definition stream_run :: "stream_op list \<Rightarrow> observables \<Rightarrow> observables" where
  "stream_run ops s = fold stream_step ops s"

section \<open>What one subscription is told\<close>

definition told_to :: "nat \<Rightarrow> observables \<Rightarrow> told list" where
  "told_to k s = map snd (filter (\<lambda>p. fst p = k) (ob_told s))"

definition watches_state :: "observables \<Rightarrow> bool" where
  "watches_state s \<longleftrightarrow> (\<exists>k. (k, StateStream) \<in> set (ob_subscriptions s))"

text \<open>A stream hears an event as this, if at all.\<close>

definition heard :: "stream \<Rightarrow> stream_event \<Rightarrow> told option" where
  "heard m e = (case m of
     EventStream \<Rightarrow> Some (ToldEvent e)
   | StateStream \<Rightarrow> map_option ToldState (state_after e)
   | ProgressStream \<Rightarrow> map_option (\<lambda>(i, n). ToldProgress i n) (progress_of e))"

definition hears :: "stream \<Rightarrow> stream_op list \<Rightarrow> told list" where
  "hears m ops = List.map_filter (\<lambda>p. case p of StreamEmit e \<Rightarrow> heard m e | _ \<Rightarrow> None) ops"

definition concerns :: "nat \<Rightarrow> stream_op \<Rightarrow> bool" where
  "concerns k p = (case p of StreamSubscribe j m \<Rightarrow> j = k | StreamUnsubscribe j \<Rightarrow> j = k | StreamEmit e \<Rightarrow> False)"

lemma handle_told: "ob_told (handle_event e p s) =
    ob_told s @ (case heard (snd p) e of None \<Rightarrow> [] | Some t \<Rightarrow> [(fst p, t)])"
  by (auto simp: handle_event_def heard_def tell_subscriber_def split: stream.split option.split)

lemma handle_subscriptions [simp]: "ob_subscriptions (handle_event e p s) = ob_subscriptions s"
  by (auto simp: handle_event_def tell_subscriber_def split: stream.split option.split)

lemma fold_subscriptions [simp]: "ob_subscriptions (fold (handle_event e) ps s) = ob_subscriptions s"
  by (induction ps arbitrary: s) simp_all

lemma emit_told_to: "told_to k (fold (handle_event e) ps s) =
    told_to k s @ List.map_filter (\<lambda>p. if fst p = k then heard (snd p) e else None) ps"
proof (induction ps arbitrary: s)
  case (Cons p ps)
  have "told_to k (handle_event e p s) = told_to k s @ List.map_filter (\<lambda>p. if fst p = k then heard (snd p) e else None) [p]"
    by (auto simp: told_to_def handle_told List.map_filter_def split: option.split)
  then show ?case using Cons.IH [of "handle_event e p s"] by (simp add: List.map_filter_def)
qed (simp add: List.map_filter_def)

lemma only_subscription:
  "filter (\<lambda>p. fst p = k) ps = [(k, m)] \<Longrightarrow>
   List.map_filter (\<lambda>p. if fst p = k then heard (snd p) e else None) ps = (case heard m e of None \<Rightarrow> [] | Some t \<Rightarrow> [t])"
proof (induction ps)
  case (Cons p ps)
  have none: "List.map_filter (\<lambda>p. if fst p = k then heard (snd p) e else None) qs = []"
    if "filter (\<lambda>p. fst p = k) qs = []" for qs
    using that by (auto simp: List.map_filter_def filter_empty_conv)
  show ?case
  proof (cases "fst p = k")
    case True
    then have "p = (k, m)" and "filter (\<lambda>p. fst p = k) ps = []" using Cons.prems by auto
    then show ?thesis using none [of ps] by (auto simp: List.map_filter_def split: option.split)
  next
    case False
    then show ?thesis using Cons by (simp add: List.map_filter_def)
  qed
qed simp

lemma step_told:
  assumes "filter (\<lambda>p. fst p = k) (ob_subscriptions s) = [(k, m)]" and "\<not> concerns k p"
  shows "filter (\<lambda>p. fst p = k) (ob_subscriptions (stream_step p s)) = [(k, m)] \<and>
    told_to k (stream_step p s) = told_to k s @ hears m [p]"
proof (cases p)
  case (StreamSubscribe j n)
  then show ?thesis using assms
    by (auto simp: stream_subscribe_def tell_subscriber_def told_to_def hears_def concerns_def List.map_filter_def Let_def)
next
  case (StreamUnsubscribe j)
  then have "j \<noteq> k" using assms(2) by (simp add: concerns_def)
  then have "filter (\<lambda>p. fst p = k) (filter (\<lambda>p. fst p \<noteq> j) xs) = filter (\<lambda>p. fst p = k) xs" for xs :: "(nat \<times> stream) list"
    by (induction xs) auto
  then show ?thesis using StreamUnsubscribe assms(1)
    by (simp add: stream_unsubscribe_def told_to_def hears_def List.map_filter_def)
next
  case (StreamEmit e)
  moreover have "hears m [StreamEmit e] = (case heard m e of None \<Rightarrow> [] | Some t \<Rightarrow> [t])"
    by (auto simp: hears_def List.map_filter_def split: option.split)
  ultimately show ?thesis using assms(1) by (simp add: stream_emit_def emit_told_to only_subscription)
qed

lemma run_told:
  "filter (\<lambda>p. fst p = k) (ob_subscriptions s) = [(k, m)] \<Longrightarrow> list_all (\<lambda>p. \<not> concerns k p) ops \<Longrightarrow>
   told_to k (fold stream_step ops s) = told_to k s @ hears m ops"
proof (induction ops arbitrary: s)
  case (Cons p ops)
  have "told_to k (fold stream_step ops (stream_step p s)) = told_to k (stream_step p s) @ hears m ops"
    using Cons step_told [OF Cons.prems(1), of p] by simp
  then show ?case using Cons step_told [OF Cons.prems(1), of p] by (simp add: hears_def List.map_filter_def)
qed (simp add: hears_def List.map_filter_def)

lemma unwatched_emit:
  "\<forall>p \<in> set ps. snd p \<noteq> StateStream \<Longrightarrow> ob_currentState (fold (handle_event e) ps s) = ob_currentState s"
  by (induction ps arbitrary: s)
    (auto simp: handle_event_def tell_subscriber_def split: stream.split option.split)

section \<open>Properties\<close>

text \<open>
  A subscription is told every event its stream carries, from the moment it is made until it is taken back,
  once and in order; one to \<open>state$\<close> is told the current state first. The current state follows the events only
  while some subscription to \<open>state$\<close> is there to set it: what happens without one is forgotten.
\<close>

theorem streams_tell_all:
  assumes "k \<notin> fst ` set (ob_subscriptions s)" and "told_to k s = []" and "list_all (\<lambda>p. \<not> concerns k p) ops"
  shows "told_to k (stream_run (StreamSubscribe k m # ops) s) =
      (if m = StateStream then [ToldState (ob_currentState s)] else []) @ hears m ops \<and>
    (\<not> watches_state s \<longrightarrow> ob_currentState (stream_step (StreamEmit e) s) = ob_currentState s)"
proof
  let ?s = "stream_subscribe k m s"
  have none: "filter (\<lambda>p. fst p = k) (ob_subscriptions s) = []" using assms(1) by (auto simp: filter_empty_conv)
  have "filter (\<lambda>p. fst p = k) (ob_subscriptions ?s) = [(k, m)]"
    using none by (simp add: stream_subscribe_def tell_subscriber_def Let_def)
  moreover have "told_to k ?s = (if m = StateStream then [ToldState (ob_currentState s)] else [])"
    using assms(2) by (simp add: stream_subscribe_def tell_subscriber_def told_to_def Let_def)
  ultimately show "told_to k (stream_run (StreamSubscribe k m # ops) s) =
      (if m = StateStream then [ToldState (ob_currentState s)] else []) @ hears m ops"
    using run_told [OF _ assms(3)] by (simp add: stream_run_def)
  show "\<not> watches_state s \<longrightarrow> ob_currentState (stream_step (StreamEmit e) s) = ob_currentState s"
  proof
    assume "\<not> watches_state s"
    then have "\<forall>p \<in> set (ob_subscriptions s). snd p \<noteq> StateStream" by (auto simp: watches_state_def)
    then show "ob_currentState (stream_step (StreamEmit e) s) = ob_currentState s"
      by (simp add: stream_emit_def unwatched_emit)
  qed
qed

theorem streams_tell_all_witness:
  "told_to 0 (stream_run [StreamSubscribe 0 StateStream, StreamEmit (Lifecycle (SdkRestoreStart [])),
      StreamEmit (Lifecycle SdkOriginalStart), StreamEmit (Lifecycle (SdkOriginalComplete ''h''))] observables_new) =
    [ToldState StateIdle, ToldState StateRestoring, ToldState StateComplete]"
  using streams_tell_all [of 0 observables_new "[StreamEmit (Lifecycle (SdkRestoreStart [])),
      StreamEmit (Lifecycle SdkOriginalStart), StreamEmit (Lifecycle (SdkOriginalComplete ''h''))]" StateStream]
  by (simp add: observables_new_def told_to_def concerns_def hears_def heard_def List.map_filter_def)

end
