(* ===== verification/SdkDetect.thy ===== *)
theory SdkDetect
  imports SdkFlow SdkOutcome SimCache
begin

text \<open>
  What the \<open>sdk\<close> client finds out before it restores (\<open>packages/sdk/src/soroban-resurrect.ts\<close>): simulation, its
  cache, the detection of archived entries, and the report of \<open>simulateDiff\<close>. The file interleaves two versions
  of \<open>detectArchivedKeys\<close>, and the end of the older one stands inside \<open>simulateDiff\<close>. Modelled are the newer version
  whole (its first line is that of the older one), the loop of the older version, and \<open>simulateDiff\<close> without the
  lines that do not belong to it.
\<close>

section \<open>Detection\<close>

definition sdk_no_restoration :: sdk_check where
  "sdk_no_restoration = \<lparr>ch_needsRestoration = False, ch_archivedKeys = [], ch_totalKeysInFootprint = 0\<rparr>"

definition unknown_key :: "sdk_env \<Rightarrow> ledger_key \<Rightarrow> sdk_key" where
  "unknown_key v k = \<lparr>kx_key = k, kx_keyBase64 = y_encodeKey v k, kx_keyType = SkUnknown, kx_sacKeyType = None,
     kx_contractId = None, kx_restorePriority = 3\<rparr>"

definition sdk_missing_keys :: "sdk_env \<Rightarrow> entry_read list \<Rightarrow> ledger_key list \<Rightarrow> sdk_key list" where
  "sdk_missing_keys v entries keys =
    (let existingEntries = map (\<lambda>e. y_encodeKey v (ey_key e)) entries
     in map (unknown_key v) (filter (\<lambda>k. \<not> List.member existingEntries (y_encodeKey v k)) keys))"

text \<open>The loop of the older version: a key is reported once, and classified at once.\<close>

fun missing_once :: "sdk_env \<Rightarrow> string list \<Rightarrow> string list \<Rightarrow> ledger_key list \<Rightarrow> sdk_key list" where
  "missing_once v existing seen [] = []"
| "missing_once v existing seen (k # ks) =
    (let encoded = y_encodeKey v k
     in if List.member existing encoded \<or> List.member seen encoded then missing_once v existing seen ks
        else sdk_classify_one (\<lambda>t. None) (k, encoded) # missing_once v existing (encoded # seen) ks)"

definition read_failed :: "sdk_env \<Rightarrow> nat \<Rightarrow> sdk_err \<Rightarrow> sdk_err" where
  "read_failed v n e = sdk_error_new (''Failed to query '' @ nat_dec n @ '' ledger entries (rpcUrl='' @ rpcUrl_text v @ ''): '' @
     sdk_message e @ ''. Fix: check the RPC endpoint is reachable and supports getLedgerEntries.'')
     ''ARCHIVE_DETECTION_FAILED'' None"

definition read_ledger :: "sdk_env \<Rightarrow> ledger_key list \<Rightarrow> string \<Rightarrow> entries_read sact" where
  "read_ledger v ks context =
    sdk_retryOnFailure v (ebind (sdk_getServer v) (\<lambda>u. k_call (KEntries u ks) (\<lambda>h. u_getEntries v h ks))) context"

definition sdk_detectArchivedKeys :: "sdk_env \<Rightarrow> footprint_keys \<Rightarrow> sdk_check sact" where
  "sdk_detectArchivedKeys v keys =
    (if fk_all keys = [] then eret sdk_no_restoration
     else traced v
       (ebind (ecatch (read_ledger v (fk_all keys) ''getLedgerEntries'') (\<lambda>e. ethrow (read_failed v (length (fk_all keys)) e)))
         (\<lambda>existing.
            let archived = sdk_missing_keys v (es_entries existing) (fk_all keys)
            in eret \<lparr>ch_needsRestoration = (archived \<noteq> []), ch_archivedKeys = archived,
                     ch_totalKeysInFootprint = length (fk_all keys)\<rparr>)))"

section \<open>Simulation\<close>

definition sdk_cache_lookup :: "sdk_env \<Rightarrow> string \<Rightarrow> string option \<Rightarrow> sdk_check option sact" where
  "sdk_cache_lookup v txXDR source = (\<lambda>s. case sd_simulationCache s of
     None \<Rightarrow> (Inr None, s)
   | Some c \<Rightarrow>
       (let now = of_int (u_now v (sd_calls s));
            (r, c') = sc_get c (generateKey txXDR source None None) now now
        in (Inr r, s\<lparr>sd_simulationCache := Some c'\<rparr>)))"

definition sdk_cache_store :: "sdk_env \<Rightarrow> string \<Rightarrow> string option \<Rightarrow> sdk_check \<Rightarrow> unit sact" where
  "sdk_cache_store v txXDR source r = (\<lambda>s. (Inr (), s\<lparr>sd_simulationCache :=
     map_option (\<lambda>c. sc_set c (generateKey txXDR source None None) r (of_int (u_now v (sd_calls s)))) (sd_simulationCache s)\<rparr>))"

definition invalid_tx :: sdk_err where
  "invalid_tx = sdk_error_new (''Invalid transaction XDR. Fix: pass a base64-encoded transaction envelope built for the '' @
     ''configured networkPassphrase.'') ''INVALID_XDR'' None"

definition no_fee_bumps :: sdk_err where
  "no_fee_bumps = sdk_error_new (''Fee bump transactions are not supported. Fix: pass the inner transaction and apply the '' @
     ''fee bump after restoration.'') ''INVALID_XDR'' None"

definition simulation_failed :: "sdk_env \<Rightarrow> sdk_err \<Rightarrow> sdk_err" where
  "simulation_failed v e = sdk_error_new (''Simulation failed (rpcUrl='' @ rpcUrl_text v @ ''): '' @
     (if is_sdk_error e then sdk_message e else sdk_String e)) ''SIMULATION_FAILED'' None"

definition simulation_error :: "sdk_env \<Rightarrow> string \<Rightarrow> sdk_err" where
  "simulation_error v m = sdk_error_new (''Simulation error (rpcUrl='' @ rpcUrl_text v @ ''): '' @ m @
     ''. Fix: verify the contract ID, function arguments and source account, then retry.'') ''SIMULATION_FAILED'' None"

definition ask_simulation :: "sdk_env \<Rightarrow> string \<Rightarrow> string \<Rightarrow> sim_response sact" where
  "ask_simulation v tx context =
    sdk_retryOnFailure v (ebind (sdk_getServer v) (\<lambda>u. k_call (KSimulate u tx) (\<lambda>h. u_simulate v h tx))) context"

definition sdk_footprint_of :: "parsed_tx \<Rightarrow> sim_response \<Rightarrow> (ledger_key list \<times> ledger_key list) option" where
  "sdk_footprint_of tx r = (case r of SimSuccess fp m \<Rightarrow> Some fp | _ \<Rightarrow> pt_footprint tx)"

text \<open>A footprint of neither the simulation nor the transaction ends the call without a cache entry.\<close>

definition detect_and_store :: "sdk_env \<Rightarrow> string \<Rightarrow> string option \<Rightarrow> (ledger_key list \<times> ledger_key list) option \<Rightarrow> sdk_check sact" where
  "detect_and_store v txXDR source footprint = (case footprint of
     None \<Rightarrow> eret sdk_no_restoration
   | Some fp \<Rightarrow>
       ebind (sdk_detectArchivedKeys v (sdk_extractKeysFromFootprint fp)) (\<lambda>r.
       ebind (sdk_cache_store v txXDR source r) (\<lambda>_. eret r)))"

definition sdk_simulate_uncached :: "sdk_env \<Rightarrow> string \<Rightarrow> string option \<Rightarrow> sdk_check sact" where
  "sdk_simulate_uncached v txXDR source = (case y_fromXDR v txXDR of
     Inl e \<Rightarrow> ethrow invalid_tx
   | Inr tx \<Rightarrow>
       if pt_feeBump tx then ethrow no_fee_bumps
       else ebind (ecatch (ask_simulation v txXDR ''simulateTransaction'') (\<lambda>e. ethrow (simulation_failed v e)))
         (\<lambda>r. case r of
            SimError m \<Rightarrow> ethrow (simulation_error v m)
          | _ \<Rightarrow> detect_and_store v txXDR source (sdk_footprint_of tx r)))"

definition sdk_simulate :: "sdk_env \<Rightarrow> string \<Rightarrow> string option \<Rightarrow> sdk_check sact" where
  "sdk_simulate v txXDR source = traced v
    (ebind (sdk_cache_lookup v txXDR source) (\<lambda>hit. case hit of
        Some r \<Rightarrow> eret r
      | None \<Rightarrow> sdk_simulate_uncached v txXDR source))"

definition sdk_checkTransaction :: "sdk_env \<Rightarrow> string \<Rightarrow> string option \<Rightarrow> sdk_check sact" where
  "sdk_checkTransaction v txXDR source = sdk_simulate v txXDR source"

definition sdk_checkAndPrepare :: "sdk_env \<Rightarrow> string \<Rightarrow> string \<Rightarrow> (bool \<times> sdk_check \<times> string option) sact" where
  "sdk_checkAndPrepare v txXDR source = traced v
    (ebind (sdk_simulate v txXDR (Some source)) (\<lambda>r.
       if \<not> ch_needsRestoration r then eret (False, r, None)
       else ebind (sdk_buildRestoreTransaction v (ch_archivedKeys r) source) (\<lambda>restoreTx.
            eret (True, r, Some (fst restoreTx)))))"

definition sdk_invalidateSimulationCache :: "sdk_env \<Rightarrow> string option \<Rightarrow> string option \<Rightarrow> sdk_engine \<Rightarrow> sdk_engine" where
  "sdk_invalidateSimulationCache v txXDR source s = s\<lparr>sd_simulationCache := map_option
     (\<lambda>c. if truthy_str txXDR
          then sc_invalidate c (generateKey (the txXDR) source None (Some (cf_networkPassphrase v)))
          else sc_invalidateAll c) (sd_simulationCache s)\<rparr>"

section \<open>The report of a restoration\<close>

datatype diff_status = DiffLive | DiffArchived | DiffRestored

record entry_diff =
  ed_key :: sdk_key
  ed_keyBase64 :: string
  ed_before :: "string option"
  ed_after :: "string option"
  ed_status :: diff_status

record ttl_change =
  tc_key :: string
  tc_oldTTL :: int
  tc_newTTL :: int

record sim_diff =
  df_entries :: "entry_diff list"
  df_totalBytesRestored :: nat
  df_ttlChanges :: "ttl_change list"
  df_latestLedger :: "int option"
  df_needsRestoration :: bool

definition RESTORED_ENTRY_TTL_LEDGERS :: int where
  "RESTORED_ENTRY_TTL_LEDGERS = 4096"

definition no_diff :: sim_diff where
  "no_diff = \<lparr>df_entries = [], df_totalBytesRestored = 0, df_ttlChanges = [], df_latestLedger = None,
     df_needsRestoration = False\<rparr>"

definition on_chain :: "sdk_env \<Rightarrow> entry_read list \<Rightarrow> (string, entry_read) js_map" where
  "on_chain v entries = foldl (\<lambda>m e. jset m (y_encodeKey v (ey_key e)) e) [] entries"

definition is_live :: "int option \<Rightarrow> entry_read option \<Rightarrow> bool" where
  "is_live latestLedger r = (case r of
     None \<Rightarrow> False
   | Some e \<Rightarrow> (case ey_liveUntil e of
       None \<Rightarrow> True
     | Some l \<Rightarrow> (case latestLedger of None \<Rightarrow> True | Some n \<Rightarrow> n \<le> l)))"

definition before_xdr :: "sdk_env \<Rightarrow> entry_read option \<Rightarrow> string option" where
  "before_xdr v r = map_option (y_base64 v) (Option.bind r ey_data)"

definition entry_bytes :: "sdk_env \<Rightarrow> entry_read option \<Rightarrow> sdk_key \<Rightarrow> nat" where
  "entry_bytes v r key = (case Option.bind r ey_data of
     Some d \<Rightarrow> length d | None \<Rightarrow> length (y_keyXDR v (kx_key key)))"

definition diff_key :: "sdk_env \<Rightarrow> (string, entry_read) js_map \<Rightarrow> int option \<Rightarrow> int \<Rightarrow> sim_diff \<Rightarrow> sdk_key \<Rightarrow> sim_diff" where
  "diff_key v onChain latestLedger projectedTtl d key =
    (let r = jget onChain (kx_keyBase64 key);
         entry = (\<lambda>st. \<lparr>ed_key = key, ed_keyBase64 = kx_keyBase64 key, ed_before = before_xdr v r,
                       ed_after = before_xdr v r, ed_status = st\<rparr>)
     in if is_live latestLedger r then d\<lparr>df_entries := df_entries d @ [entry DiffLive]\<rparr>
        else d\<lparr>df_totalBytesRestored := df_totalBytesRestored d + entry_bytes v r key,
               df_entries := df_entries d @ [entry DiffRestored],
               df_ttlChanges := df_ttlChanges d @ [\<lparr>tc_key = kx_keyBase64 key,
                 tc_oldTTL = (case Option.bind r ey_liveUntil of None \<Rightarrow> 0 | Some l \<Rightarrow> l), tc_newTTL = projectedTtl\<rparr>]\<rparr>)"

definition diff_of :: "sdk_env \<Rightarrow> int option \<Rightarrow> ledger_key list \<Rightarrow> entries_read \<Rightarrow> sim_diff" where
  "diff_of v restoredTtlLedgers ks response =
    (let classified = sdk_classifyDeferredKeys (\<lambda>t. None) (map (\<lambda>k. (k, y_encodeKey v k)) ks);
         restoredTtl = (case restoredTtlLedgers of None \<Rightarrow> RESTORED_ENTRY_TTL_LEDGERS | Some n \<Rightarrow> n);
         projectedTtl = (case es_latestLedger response of Some n \<Rightarrow> n + restoredTtl | None \<Rightarrow> restoredTtl);
         d = foldl (diff_key v (on_chain v (es_entries response)) (es_latestLedger response) projectedTtl) no_diff classified
     in d\<lparr>df_latestLedger := es_latestLedger response, df_needsRestoration := df_ttlChanges d \<noteq> []\<rparr>)"

definition diff_footprint :: "sdk_env \<Rightarrow> string \<Rightarrow> parsed_tx \<Rightarrow> (ledger_key list \<times> ledger_key list) option sact" where
  "diff_footprint v txXDR tx = (case pt_footprint tx of
     Some fp \<Rightarrow> eret (Some fp)
   | None \<Rightarrow> ebind (ask_simulation v txXDR ''simulateTransaction(diff)'') (\<lambda>r.
       eret (case r of SimSuccess fp m \<Rightarrow> Some fp | _ \<Rightarrow> None)))"

definition simulateDiff :: "sdk_env \<Rightarrow> string \<Rightarrow> int option \<Rightarrow> sim_diff sact" where
  "simulateDiff v txXDR restoredTtlLedgers = (case y_fromXDR v txXDR of
     Inl e \<Rightarrow> ethrow invalid_tx
   | Inr tx \<Rightarrow>
       if pt_feeBump tx then ethrow no_fee_bumps
       else ebind (diff_footprint v txXDR tx) (\<lambda>footprint. case footprint of
           None \<Rightarrow> eret no_diff
         | Some fp \<Rightarrow>
             (let ks = fk_all (sdk_extractKeysFromFootprint fp)
              in if ks = [] then eret no_diff
                 else ebind (read_ledger v ks ''getLedgerEntries(diff)'') (\<lambda>response.
                        eret (diff_of v restoredTtlLedgers ks response)))))"

section \<open>Lemmas\<close>

text \<open>None of these operations asks the wallet or sends.\<close>

context sdk_quiet
begin

lemma keeps_read: "(\<And>u ks. free (KEntries u ks)) \<Longrightarrow> keeps P (read_ledger v ks ctx)"
  unfolding read_ledger_def by (intro keeps_retry guar keeps_getServer keeps_call)

lemma keeps_ask_simulation: "keeps P (ask_simulation v tx ctx)"
  unfolding ask_simulation_def by (intro keeps_retry guar keeps_getServer keeps_call free_simulate)

lemma keeps_cache: "keeps P (sdk_cache_lookup v tx source)" "keeps P (sdk_cache_store v tx source r)"
  by (auto simp: keeps_def sdk_cache_lookup_def sdk_cache_store_def Let_def split: option.split prod.split elim!: frame)

lemma keeps_detect: "(\<And>u ks. free (KEntries u ks)) \<Longrightarrow> keeps P (sdk_detectArchivedKeys v keys)"
  by (auto simp: sdk_detectArchivedKeys_def traced_def Let_def intro!: guar keeps_read)

lemma keeps_uncached: "(\<And>u ks. free (KEntries u ks)) \<Longrightarrow> keeps P (sdk_simulate_uncached v tx source)"
  by (auto simp: sdk_simulate_uncached_def detect_and_store_def intro!: guar keeps_ask_simulation keeps_detect keeps_cache
      split: sum.split sim_response.split option.split)

lemma keeps_simulate: "(\<And>u ks. free (KEntries u ks)) \<Longrightarrow> keeps P (sdk_simulate v tx source)"
  by (auto simp: sdk_simulate_def traced_def intro!: guar keeps_cache keeps_uncached split: option.split)

lemma keeps_simulateDiff: "(\<And>u ks. free (KEntries u ks)) \<Longrightarrow> keeps P (simulateDiff v tx n)"
  by (auto simp: simulateDiff_def diff_footprint_def Let_def intro!: guar keeps_ask_simulation keeps_read
      split: sum.split option.split)

lemma keeps_prepare: "(\<And>u ks. free (KEntries u ks)) \<Longrightarrow> keeps P (sdk_checkAndPrepare v tx source)"
  by (auto simp: sdk_checkAndPrepare_def traced_def intro!: guar keeps_simulate keeps_buildRestore)

end

lemma read_answer:
  assumes "read_ledger v ks ctx s = (Inr res, t)"
  shows "\<exists>h. u_getEntries v h ks = Inr res"
  using sdk_retry_success [OF assms [unfolded read_ledger_def]] by (auto simp: ebind_Inr k_call_def)

lemma simulation_answer:
  assumes "ask_simulation v tx ctx s = (Inr res, t)"
  shows "\<exists>h. u_simulate v h tx = Inr res"
  using sdk_retry_success [OF assms [unfolded ask_simulation_def]] by (auto simp: ebind_Inr k_call_def)

lemma sdk_missing_keys_map:
  "map kx_key (sdk_missing_keys v es ks) = filter (\<lambda>k. y_encodeKey v k \<notin> y_encodeKey v ` ey_key ` set es) ks"
proof -
  have "(\<not> List.member (map (\<lambda>e. y_encodeKey v (ey_key e)) es) x) = (x \<notin> y_encodeKey v ` ey_key ` set es)" for x
    by (auto simp: image_image)
  then show ?thesis by (simp add: sdk_missing_keys_def unknown_key_def comp_def)
qed

definition detected :: "sdk_env \<Rightarrow> ledger_key list \<Rightarrow> entry_read list \<Rightarrow> sdk_check \<Rightarrow> bool" where
  "detected v ks es r \<longleftrightarrow> ch_totalKeysInFootprint r = length ks \<and> (ch_needsRestoration r \<longleftrightarrow> ch_archivedKeys r \<noteq> []) \<and>
    map kx_key (ch_archivedKeys r) = filter (\<lambda>k. y_encodeKey v k \<notin> y_encodeKey v ` ey_key ` set es) ks"

lemma detect_run:
  assumes "sdk_detectArchivedKeys v keys s = (Inr r, t)"
  shows "\<exists>es. detected v (fk_all keys) es r \<and>
    (fk_all keys \<noteq> [] \<longrightarrow> (\<exists>h n. u_getEntries v h (fk_all keys) = Inr \<lparr>es_entries = es, es_latestLedger = n\<rparr>))"
proof (cases "fk_all keys = []")
  case True
  then show ?thesis using assms by (simp add: sdk_detectArchivedKeys_def sdk_no_restoration_def detected_def)
next
  case False
  then obtain res where read: "read_ledger v (fk_all keys) ''getLedgerEntries'' s = (Inr res, t)"
    and r: "r = \<lparr>ch_needsRestoration = (sdk_missing_keys v (es_entries res) (fk_all keys) \<noteq> []),
        ch_archivedKeys = sdk_missing_keys v (es_entries res) (fk_all keys), ch_totalKeysInFootprint = length (fk_all keys)\<rparr>"
    using assms by (auto simp: sdk_detectArchivedKeys_def traced_def Let_def ebind_Inr ecatch_Inr ethrow_def split: if_splits)
  have "detected v (fk_all keys) (es_entries res) r" by (simp add: detected_def r sdk_missing_keys_map)
  moreover have "res = \<lparr>es_entries = es_entries res, es_latestLedger = es_latestLedger res\<rparr>" by simp
  ultimately show ?thesis using read_answer [OF read] by metis
qed

text \<open>The older loop reports the same keys, each once.\<close>

lemma missing_once_keys:
  "set (map kx_keyBase64 (missing_once v existing seen ks)) = y_encodeKey v ` set ks - set existing - set seen \<and>
   distinct (map kx_keyBase64 (missing_once v existing seen ks))"
proof (induction ks arbitrary: seen)
  case (Cons k ks)
  show ?case using Cons.IH [of seen] Cons.IH [of "y_encodeKey v k # seen"] by (auto simp: Let_def)
qed simp

subsection \<open>The report\<close>

definition live_on_chain :: "sdk_env \<Rightarrow> entries_read \<Rightarrow> sdk_key \<Rightarrow> bool" where
  "live_on_chain v res k = is_live (es_latestLedger res) (jget (on_chain v (es_entries res)) (kx_keyBase64 k))"

definition ttl_of :: "sdk_env \<Rightarrow> entries_read \<Rightarrow> int \<Rightarrow> sdk_key \<Rightarrow> ttl_change" where
  "ttl_of v res projected k = \<lparr>tc_key = kx_keyBase64 k,
     tc_oldTTL = (case Option.bind (jget (on_chain v (es_entries res)) (kx_keyBase64 k)) ey_liveUntil of None \<Rightarrow> 0 | Some l \<Rightarrow> l),
     tc_newTTL = projected\<rparr>"

lemma diff_fold:
  fixes v :: sdk_env and res :: entries_read
  defines "chain \<equiv> on_chain v (es_entries res)"
  shows "foldl (diff_key v chain (es_latestLedger res) projected) d ks =
    \<lparr>df_entries = df_entries d @ map (\<lambda>k. \<lparr>ed_key = k, ed_keyBase64 = kx_keyBase64 k,
        ed_before = before_xdr v (jget chain (kx_keyBase64 k)), ed_after = before_xdr v (jget chain (kx_keyBase64 k)),
        ed_status = (if live_on_chain v res k then DiffLive else DiffRestored)\<rparr>) ks,
     df_totalBytesRestored = df_totalBytesRestored d +
        sum_list (map (\<lambda>k. entry_bytes v (jget chain (kx_keyBase64 k)) k) (filter (\<lambda>k. \<not> live_on_chain v res k) ks)),
     df_ttlChanges = df_ttlChanges d @ map (ttl_of v res projected) (filter (\<lambda>k. \<not> live_on_chain v res k) ks),
     df_latestLedger = df_latestLedger d, df_needsRestoration = df_needsRestoration d\<rparr>"
proof (induction ks arbitrary: d)
  case (Cons k ks)
  show ?case
    by (simp add: Cons.IH) (simp add: diff_key_def live_on_chain_def ttl_of_def chain_def Let_def)
qed simp

lemma on_chain_last: "jget (on_chain v es) c = find (\<lambda>e. y_encodeKey v (ey_key e) = c) (rev es)"
proof (induction es rule: rev_induct)
  case (snoc e es)
  then show ?case by (simp add: on_chain_def jget_set)
qed (simp add: on_chain_def)

text \<open>What a report says of a footprint, given the entries the server returned.\<close>

definition reports :: "sdk_env \<Rightarrow> ledger_key list \<Rightarrow> int option \<Rightarrow> entries_read \<Rightarrow> sim_diff \<Rightarrow> bool" where
  "reports v ks ttl res d \<longleftrightarrow>
    (let shown = map ed_key (df_entries d); gone = filter (\<lambda>k. \<not> live_on_chain v res k) shown;
         lifetime = (case ttl of None \<Rightarrow> RESTORED_ENTRY_TTL_LEDGERS | Some n \<Rightarrow> n)
     in mset (map kx_key shown) = mset ks \<and> sorted (map kx_restorePriority shown) \<and>
        list_all (\<lambda>e. ed_after e = ed_before e \<and> ed_status e = (if live_on_chain v res (ed_key e) then DiffLive else DiffRestored))
          (df_entries d) \<and>
        map tc_key (df_ttlChanges d) = map kx_keyBase64 gone \<and>
        list_all (\<lambda>c. tc_newTTL c = (case es_latestLedger res of None \<Rightarrow> lifetime | Some l \<Rightarrow> l + lifetime)) (df_ttlChanges d) \<and>
        df_totalBytesRestored d =
          sum_list (map (\<lambda>k. entry_bytes v (jget (on_chain v (es_entries res)) (kx_keyBase64 k)) k) gone) \<and>
        (df_needsRestoration d \<longleftrightarrow> gone \<noteq> []) \<and> df_latestLedger d = es_latestLedger res)"

lemma classified_keys: "mset (map kx_key (sdk_classifyDeferredKeys pm (map (\<lambda>k. (k, f k)) ks))) = mset ks"
proof -
  have "mset (map fst (map (\<lambda>k. (kx_key k, kx_keyBase64 k)) (sdk_classifyDeferredKeys pm (map (\<lambda>k. (k, f k)) ks)))) = mset (map fst (map (\<lambda>k. (k, f k)) ks))"
    by (simp only: mset_map [of fst] sdk_classifyDeferredKeys_keys)
  then show ?thesis by (simp add: comp_def)
qed

lemma diff_reports: "reports v ks ttl res (diff_of v ttl ks res)"
proof -
  let ?ks = "sdk_classifyDeferredKeys (\<lambda>t. None) (map (\<lambda>k. (k, y_encodeKey v k)) ks)"
  have entries: "map ed_key (df_entries (diff_of v ttl ks res)) = ?ks"
    by (simp add: diff_of_def diff_fold no_diff_def Let_def comp_def)
  have "sorted (map kx_restorePriority ?ks)" by (simp add: sdk_classifyDeferredKeys_def)
  then show ?thesis unfolding reports_def Let_def entries
    by (simp add: classified_keys [unfolded mset_map]) (auto simp: diff_of_def diff_fold no_diff_def Let_def comp_def list_all_iff ttl_of_def
        split: option.split)
qed

text \<open>What a footprint is resolved to.\<close>

definition simulated_as :: "sdk_env \<Rightarrow> (ledger_key list \<times> ledger_key list) option \<Rightarrow> sdk_check \<Rightarrow> bool" where
  "simulated_as v footprint r = (case footprint of
     None \<Rightarrow> r = sdk_no_restoration
   | Some fp \<Rightarrow> \<exists>es. detected v (fst fp @ snd fp) es r \<and> (fst fp @ snd fp \<noteq> [] \<longrightarrow>
       (\<exists>h n. u_getEntries v h (fst fp @ snd fp) = Inr \<lparr>es_entries = es, es_latestLedger = n\<rparr>)))"

lemma stored_as:
  assumes "detect_and_store v tx source footprint w = (Inr r, t)"
  shows "simulated_as v footprint r"
proof (cases footprint)
  case None
  then show ?thesis using assms by (simp add: detect_and_store_def simulated_as_def)
next
  case (Some fp)
  then obtain z where "sdk_detectArchivedKeys v (sdk_extractKeysFromFootprint fp) w = (Inr r, z)"
    using assms by (auto simp: detect_and_store_def ebind_Inr)
  from detect_run [OF this] show ?thesis by (simp add: simulated_as_def Some sdk_extractKeysFromFootprint_def)
qed

section \<open>Properties\<close>


text \<open>The sample world with a transaction that names two keys, one of them on the ledger and alive.\<close>

definition detect_sample :: sdk_env where
  "detect_sample = sdk_sample\<lparr>y_fromXDR := (\<lambda>x. Inr \<lparr>pt_feeBump = False, pt_footprint = Some ([OtherKey ''a''], [OtherKey ''b'']),
       pt_sorobanData = None, pt_innerXDR = [], pt_feeAccountID = None, pt_feeBumpFee = None\<rparr>),
     u_getEntries := (\<lambda>h ks. Inr \<lparr>es_entries = [\<lparr>ey_key = OtherKey ''a'', ey_data = Some ''data'', ey_liveUntil = Some 9\<rparr>],
       es_latestLedger = Some 5\<rparr>)\<rparr>"

lemmas detect_eval = detect_sample_def sdk_sample_def sdk_sample_engine_def sdk_retryOnFailure_def sdk_retryLoop_def
  sdk_policy_limit_def sdk_policy_reset_def sdk_getServer_def k_call_def ebind_def ecatch_def eret_def ethrow_def
  traced_def Let_def

lemma sample_simulation:
  "\<exists>t. sdk_simulate detect_sample ''tx'' None sdk_sample_engine =
     (Inr \<lparr>ch_needsRestoration = True, ch_archivedKeys = [unknown_key detect_sample (OtherKey ''b'')],
           ch_totalKeysInFootprint = 2\<rparr>, t)"
  by (simp add: sdk_simulate_def sdk_cache_lookup_def sdk_simulate_uncached_def ask_simulation_def detect_eval
      detect_and_store_def sdk_footprint_of_def sdk_detectArchivedKeys_def sdk_extractKeysFromFootprint_def read_ledger_def
      sdk_missing_keys_def sdk_cache_store_def)



lemma diff_not_empty: "ks \<noteq> [] \<Longrightarrow> diff_of v ttl ks res \<noteq> no_diff"
  using diff_reports [of v ks ttl res] by (auto simp: reports_def Let_def no_diff_def)

lemma sample_diff:
  "\<exists>d t. simulateDiff detect_sample ''tx'' None sdk_sample_engine = (Inr d, t) \<and> d \<noteq> no_diff"
  by (simp add: simulateDiff_def diff_footprint_def detect_eval sdk_extractKeysFromFootprint_def read_ledger_def diff_not_empty)


text \<open>
  \<open>invalidateSimulationCache\<close> for one transaction looks under a key that includes the network passphrase, the cache is
  filled and read under a key without it: unless both hash alike the entry stays and is served. Without a
  transaction the whole cache is emptied.
\<close>

theorem sdk_invalidation_misses:
  assumes "generateKey tx source None (Some (cf_networkPassphrase v)) \<noteq> generateKey tx source None None"
  shows "fst (sdk_cache_lookup v tx source (sdk_invalidateSimulationCache v (Some tx) source s)) =
      (if tx = [] then Inr None else fst (sdk_cache_lookup v tx source s)) \<and>
    fst (sdk_cache_lookup v tx source (sdk_invalidateSimulationCache v None source s)) = Inr None"
  using assms by (auto simp: sdk_cache_lookup_def sdk_invalidateSimulationCache_def sc_invalidate_def sc_invalidateAll_def
      sc_get_def jget_del Let_def split: option.split prod.split)

end
