(* ===== verification/ServerAction.thy ===== *)
theory ServerAction
  imports SdkDetect
begin

text \<open>
  \<open>checkAndPrepare\<close> of \<open>packages/next/src/index.ts\<close>: the flow of the same name of the \<open>sdk\<close> client on a new client, its
  result without the values that cannot be sent to a browser.
\<close>

record serializable_key =
  sk_keyBase64 :: string
  sk_keyType :: sdk_key_type
  sk_sacKeyType :: "sac_key_type option"
  sk_contractId :: "string option"
  sk_restorePriority :: nat

record serializable_result =
  sr_needsRestoration :: bool
  sr_totalKeysInFootprint :: nat
  sr_archivedKeys :: "serializable_key list"
  sr_restoreTransactionXDR :: "string option"

definition serializable_key_of :: "sdk_key \<Rightarrow> serializable_key" where
  "serializable_key_of k = \<lparr>sk_keyBase64 = kx_keyBase64 k, sk_keyType = kx_keyType k, sk_sacKeyType = kx_sacKeyType k,
     sk_contractId = kx_contractId k, sk_restorePriority = kx_restorePriority k\<rparr>"

definition next_checkAndPrepare :: "sdk_env \<Rightarrow> policy \<Rightarrow> int \<Rightarrow> string \<Rightarrow> string \<Rightarrow> sdk_err + serializable_result" where
  "next_checkAndPrepare v p now txXDR sourceAccountID = (case sdk_engine_new v None p now of
     Inl e \<Rightarrow> Inl e
   | Inr resurrect \<Rightarrow> (case fst (sdk_checkAndPrepare v txXDR sourceAccountID resurrect) of
       Inl e \<Rightarrow> Inl e
     | Inr (needs, simulationResult, restoreTransactionXDR) \<Rightarrow>
         Inr \<lparr>sr_needsRestoration = ch_needsRestoration simulationResult,
              sr_totalKeysInFootprint = ch_totalKeysInFootprint simulationResult,
              sr_archivedKeys = map serializable_key_of (ch_archivedKeys simulationResult),
              sr_restoreTransactionXDR = restoreTransactionXDR\<rparr>))"

text \<open>
  The result holds a restore transaction exactly where it says that restoration is needed, and its keys are those
  that \<open>simulate\<close> of the new client reports for the transaction.
\<close>

theorem prepared_iff_needed:
  assumes "next_checkAndPrepare v p now txXDR source = Inr r"
  shows "(sr_restoreTransactionXDR r \<noteq> None \<longleftrightarrow> sr_needsRestoration r) \<and>
    (\<exists>s t check. sdk_engine_new v None p now = Inr s \<and> sdk_simulate v txXDR (Some source) s = (Inr check, t) \<and>
       sr_archivedKeys r = map serializable_key_of (ch_archivedKeys check) \<and> sr_needsRestoration r = ch_needsRestoration check)"
proof -
  obtain s where s: "sdk_engine_new v None p now = Inr s"
    using assms by (auto simp: next_checkAndPrepare_def split: sum.splits)
  then obtain needs check xdr where run: "fst (sdk_checkAndPrepare v txXDR source s) = Inr (needs, check, xdr)"
    and r: "r = \<lparr>sr_needsRestoration = ch_needsRestoration check, sr_totalKeysInFootprint = ch_totalKeysInFootprint check,
       sr_archivedKeys = map serializable_key_of (ch_archivedKeys check), sr_restoreTransactionXDR = xdr\<rparr>"
    using assms by (auto simp: next_checkAndPrepare_def split: sum.splits prod.splits)
  obtain t where "sdk_checkAndPrepare v txXDR source s = (Inr (needs, check, xdr), t)"
    using run by (metis prod.collapse)
  then obtain check' u where sim: "sdk_simulate v txXDR (Some source) s = (Inr check', u)"
    and rest: "(if \<not> ch_needsRestoration check' then eret (False, check', None)
       else ebind (sdk_buildRestoreTransaction v (ch_archivedKeys check') source) (\<lambda>restoreTx.
            eret (True, check', Some (fst restoreTx)))) u = (Inr (needs, check, xdr), t)"
    by (auto simp: sdk_checkAndPrepare_def traced_def ebind_Inr ethrow_def split: if_splits)
  have "check' = check" and "xdr \<noteq> None \<longleftrightarrow> ch_needsRestoration check"
    using rest by (auto simp: ebind_Inr split: if_splits)
  then show ?thesis using s sim by (auto simp: r)
qed

end
