(* ===== verification/LedgerReads.thy ===== *)
theory LedgerReads
  imports Prelude
begin

text \<open>
  Ledger reads shared between overlapping calls (\<open>packages/sdk/src/ledger-read-coalescer.ts\<close>) and the
  suppression of repeated ledger events (\<open>packages/sdk/src/event-deduplicator.ts\<close>).

  Promises and RPC calls are numbered in the order they are created: promise \<open>p\<close> is entry \<open>p\<close> of
  \<open>lr_promises\<close>, its key and the number of the call that fetches it. A key is given with its encoding, which the
  Stellar SDK computes.
\<close>

section \<open>State\<close>

record read_stats =
  ls_keysRequested :: nat
  ls_keysCoalesced :: nat
  ls_duplicateKeysSkipped :: nat
  ls_rpcCalls :: nat

text \<open>A fetch answers with the entries it found, each under the encoding of its key, or fails.\<close>

record ('k, 'e) coalescer =
  lr_inFlight :: "(string, nat) js_map"
  lr_stats :: read_stats
  lr_promises :: "(string \<times> nat) list"
  lr_fetches :: "(string \<times> 'k) list list"
  lr_fetched :: "(nat \<times> (string + (string \<times> 'e) list)) list"
  lr_callers :: "(nat \<times> string list \<times> nat list) list"

definition coalescer_new :: "('k, 'e) coalescer" where
  "coalescer_new = \<lparr>lr_inFlight = [],
     lr_stats = \<lparr>ls_keysRequested = 0, ls_keysCoalesced = 0, ls_duplicateKeysSkipped = 0, ls_rpcCalls = 0\<rparr>,
     lr_promises = [], lr_fetches = [], lr_fetched = [], lr_callers = []\<rparr>"

section \<open>Operations\<close>

fun read_unique :: "(string, 'k) js_map \<Rightarrow> nat \<Rightarrow> (string \<times> 'k) list \<Rightarrow> (string, 'k) js_map \<times> nat" where
  "read_unique m skipped [] = (m, skipped)"
| "read_unique m skipped ((i, k) # ks) =
    (if jhas m i then read_unique m (Suc skipped) ks else read_unique (jset m i k) skipped ks)"

definition start_fetch :: "(string \<times> 'k) list \<Rightarrow> ('k, 'e) coalescer \<Rightarrow> ('k, 'e) coalescer" where
  "start_fetch toFetch s =
    (let f = length (lr_fetches s); n = length (lr_promises s)
     in s\<lparr>lr_stats := (lr_stats s)\<lparr>ls_rpcCalls := ls_rpcCalls (lr_stats s) + 1\<rparr>,
          lr_fetches := lr_fetches s @ [toFetch],
          lr_promises := lr_promises s @ map (\<lambda>(i, k). (i, f)) toFetch,
          lr_inFlight := foldl (\<lambda>m (i, p). jset m i p) (lr_inFlight s)
            (zip (map fst toFetch) [n..<n + length toFetch])\<rparr>)"

definition read_entries :: "nat \<Rightarrow> (string \<times> 'k) list \<Rightarrow> ('k, 'e) coalescer \<Rightarrow> ('k, 'e) coalescer" where
  "read_entries caller keys s =
    (let (unique, skipped) = read_unique [] 0 keys;
         pending = filter (\<lambda>(i, k). jhas (lr_inFlight s) i) unique;
         toFetch = filter (\<lambda>(i, k). \<not> jhas (lr_inFlight s) i) unique;
         st = lr_stats s;
         s1 = s\<lparr>lr_stats := st\<lparr>ls_duplicateKeysSkipped := ls_duplicateKeysSkipped st + skipped,
                 ls_keysRequested := ls_keysRequested st + length unique,
                 ls_keysCoalesced := ls_keysCoalesced st + length pending\<rparr>\<rparr>;
         s2 = (if toFetch \<noteq> [] then start_fetch toFetch s1 else s1);
         waits = map (\<lambda>(i, k). the (jget (lr_inFlight s) i)) pending @
                 [length (lr_promises s)..<length (lr_promises s) + length toFetch]
     in s2\<lparr>lr_callers := lr_callers s @ [(caller, map fst unique, waits)]\<rparr>)"

definition fetch_settles :: "nat \<Rightarrow> string + (string \<times> 'e) list \<Rightarrow> ('k, 'e) coalescer \<Rightarrow> ('k, 'e) coalescer" where
  "fetch_settles f out s = s\<lparr>lr_fetched := lr_fetched s @ [(f, out)]\<rparr>"

definition read_release :: "string \<Rightarrow> nat \<Rightarrow> ('k, 'e) coalescer \<Rightarrow> ('k, 'e) coalescer" where
  "read_release i p s =
    (if jget (lr_inFlight s) i = Some p then s\<lparr>lr_inFlight := jdel (lr_inFlight s) i\<rparr> else s)"

definition coalescing_statistics :: "('k, 'e) coalescer \<Rightarrow> read_stats \<times> nat" where
  "coalescing_statistics s = (lr_stats s, length (lr_inFlight s))"

text \<open>What promise \<open>p\<close> resolves to: the last entry the answer has under its key.\<close>

definition promise_value :: "('k, 'e) coalescer \<Rightarrow> nat \<Rightarrow> (string + 'e option) option" where
  "promise_value s p = (case map_of (lr_fetched s) (snd (lr_promises s ! p)) of
     None \<Rightarrow> None
   | Some (Inl e) \<Rightarrow> Some (Inl e)
   | Some (Inr es) \<Rightarrow> Some (Inr (map_of (rev es) (fst (lr_promises s ! p)))))"

section \<open>Interleaving\<close>

definition fetch_open :: "('k, 'e) coalescer \<Rightarrow> nat \<Rightarrow> bool" where
  "fetch_open s f = (f < length (lr_fetches s) \<and> f \<notin> fst ` set (lr_fetched s))"

inductive read_step :: "('k, 'e) coalescer \<Rightarrow> ('k, 'e) coalescer \<Rightarrow> bool" where
  Read: "read_step s (read_entries c keys s)"
| Fetched: "fetch_open s f \<Longrightarrow> read_step s (fetch_settles f out s)"
| Release: "p < length (lr_promises s) \<Longrightarrow> lr_promises s ! p = (i, f) \<Longrightarrow> f \<in> fst ` set (lr_fetched s) \<Longrightarrow>
    read_step s (read_release i p s)"

inductive_cases read_stepE: "read_step s t"

text \<open>
  A promise whose fetch is open is the entry of its key; entries lead to promises of their key; the
  counters agree with what was started.
\<close>

definition links_inv ::
  "(string, nat) js_map \<Rightarrow> (string \<times> nat) list \<Rightarrow> (string \<times> 'k) list list \<Rightarrow> (nat \<times> (string + (string \<times> 'e) list)) list \<Rightarrow>
   (nat \<times> string list \<times> nat list) list \<Rightarrow> bool" where
  "links_inv inFlight promises fetches fetched callers \<longleftrightarrow>
    (\<forall>i p. jget inFlight i = Some p \<longrightarrow> p < length promises \<and> fst (promises ! p) = i) \<and>
    (\<forall>p < length promises. snd (promises ! p) \<notin> fst ` set fetched \<longrightarrow> jget inFlight (fst (promises ! p)) = Some p) \<and>
    (\<forall>f < length fetches. \<forall>i \<in> fst ` set (fetches ! f). (i, f) \<in> set promises) \<and>
    (\<forall>(i, f) \<in> set promises. f < length fetches) \<and>
    (\<forall>f \<in> fst ` set fetched. f < length fetches) \<and>
    (\<forall>(c, ids, waits) \<in> set callers.
       mset (map (\<lambda>p. fst (promises ! p)) waits) = mset ids \<and> (\<forall>p \<in> set waits. p < length promises))"

definition reads_inv :: "('k, 'e) coalescer \<Rightarrow> bool" where
  "reads_inv s \<longleftrightarrow>
    links_inv (lr_inFlight s) (lr_promises s) (lr_fetches s) (lr_fetched s) (lr_callers s) \<and>
    ls_keysRequested (lr_stats s) = ls_keysCoalesced (lr_stats s) + length (lr_promises s) \<and>
    ls_rpcCalls (lr_stats s) = length (lr_fetches s)"

lemma reads_invD:
  assumes "reads_inv s"
  shows "jget (lr_inFlight s) i = Some p \<Longrightarrow> p < length (lr_promises s) \<and> fst (lr_promises s ! p) = i"
    and "q < length (lr_promises s) \<Longrightarrow> snd (lr_promises s ! q) \<notin> fst ` set (lr_fetched s) \<Longrightarrow>
      jget (lr_inFlight s) (fst (lr_promises s ! q)) = Some q"
    and "f < length (lr_fetches s) \<Longrightarrow> i \<in> fst ` set (lr_fetches s ! f) \<Longrightarrow> (i, f) \<in> set (lr_promises s)"
    and "(i, f) \<in> set (lr_promises s) \<Longrightarrow> f < length (lr_fetches s)"
    and "f \<in> fst ` set (lr_fetched s) \<Longrightarrow> f < length (lr_fetches s)"
    and "(c, ids, waits) \<in> set (lr_callers s) \<Longrightarrow> mset (map (\<lambda>p. fst (lr_promises s ! p)) waits) = mset ids \<and>
      (\<forall>p \<in> set waits. p < length (lr_promises s))"
proof -
  note c = conjunct1 [OF assms [unfolded reads_inv_def links_inv_def]]
  note c2 = conjunct2 [OF c] note c3 = conjunct2 [OF c2] note c4 = conjunct2 [OF c3] note c5 = conjunct2 [OF c4]
  note c8 = conjunct2 [OF c5]
  show "jget (lr_inFlight s) i = Some p \<Longrightarrow> p < length (lr_promises s) \<and> fst (lr_promises s ! p) = i"
    using conjunct1 [OF c] by blast
  show "q < length (lr_promises s) \<Longrightarrow> snd (lr_promises s ! q) \<notin> fst ` set (lr_fetched s) \<Longrightarrow>
      jget (lr_inFlight s) (fst (lr_promises s ! q)) = Some q"
    using conjunct1 [OF c2] by blast
  show "f < length (lr_fetches s) \<Longrightarrow> i \<in> fst ` set (lr_fetches s ! f) \<Longrightarrow> (i, f) \<in> set (lr_promises s)"
    using conjunct1 [OF c3] by blast
  show "(i, f) \<in> set (lr_promises s) \<Longrightarrow> f < length (lr_fetches s)" using conjunct1 [OF c4] by blast
  show "f \<in> fst ` set (lr_fetched s) \<Longrightarrow> f < length (lr_fetches s)" using conjunct1 [OF c5] by blast
  show "(c, ids, waits) \<in> set (lr_callers s) \<Longrightarrow> mset (map (\<lambda>p. fst (lr_promises s ! p)) waits) = mset ids \<and>
      (\<forall>p \<in> set waits. p < length (lr_promises s))"
    using c8 by blast
qed

lemma reads_inv_new: "reads_inv coalescer_new"
  by (simp add: reads_inv_def links_inv_def coalescer_new_def)

lemma reads_inv_fetched: "reads_inv s \<Longrightarrow> fetch_open s f \<Longrightarrow> reads_inv (fetch_settles f out s)"
  unfolding reads_inv_def links_inv_def fetch_settles_def fetch_open_def
  by (elim conjE, intro conjI) (assumption | simp | blast)+

lemma reads_inv_release:
  assumes "reads_inv s" "p < length (lr_promises s)" "lr_promises s ! p = (i, f)" "f \<in> fst ` set (lr_fetched s)"
  shows "reads_inv (read_release i p s)"
proof (cases "jget (lr_inFlight s) i = Some p")
  case True
  let ?t = "read_release i p s"
  have t: "lr_inFlight ?t = jdel (lr_inFlight s) i" "lr_promises ?t = lr_promises s" "lr_fetched ?t = lr_fetched s"
    "lr_fetches ?t = lr_fetches s" "lr_stats ?t = lr_stats s" "lr_callers ?t = lr_callers s"
    using True by (simp_all add: read_release_def)
  have "jget (lr_inFlight ?t) (fst (lr_promises s ! q)) = Some q"
    if "q < length (lr_promises s)" "snd (lr_promises s ! q) \<notin> fst ` set (lr_fetched s)" for q
  proof -
    have q: "jget (lr_inFlight s) (fst (lr_promises s ! q)) = Some q"
      by (rule reads_invD(2) [OF assms(1) that])
    have "p \<noteq> q" using that(2) assms(3,4) by (metis snd_conv)
    then have "fst (lr_promises s ! q) \<noteq> i" using q True by auto
    then show ?thesis using q by (simp add: t(1) jget_del)
  qed
  moreover have "p' < length (lr_promises s) \<and> fst (lr_promises s ! p') = j"
    if "jget (lr_inFlight ?t) j = Some p'" for j p'
    using that reads_invD(1) [OF assms(1), of j p'] by (simp add: t(1) jget_del split: if_splits)
  ultimately show ?thesis using assms(1) unfolding reads_inv_def links_inv_def t
    by (elim conjE, intro conjI) (assumption | simp)+
next
  case False
  then show ?thesis using assms(1) by (simp add: read_release_def)
qed

lemma read_unique_spec:
  "jwf m \<Longrightarrow> jwf (fst (read_unique m n ks)) \<and> length (fst (read_unique m n ks)) + snd (read_unique m n ks) = length m + n + length ks"
  by (induction m n ks rule: read_unique.induct)
    (auto simp: jm.invar_put length_jset jhas_iff)

lemma foldl_jset_get:
  "distinct (map fst kvs) \<Longrightarrow> jget (foldl (\<lambda>m (i, p). jset m i p) m kvs) x =
     (case map_of kvs x of Some p \<Rightarrow> Some p | None \<Rightarrow> jget m x)"
proof (induction kvs arbitrary: m)
  case (Cons kv kvs)
  then have "map_of kvs (fst kv) = None" by (simp add: map_of_eq_None_iff)
  then show ?case using Cons by (cases kv) (auto simp: jget_set split: option.split)
qed simp

lemma nth_promise_new: "j < length tf \<Longrightarrow> map (\<lambda>(i, k). (i, f)) tf ! j = (fst (tf ! j), f)"
  by (simp split: prod.split)

lemma start_fetch_inv:
  assumes inv: "reads_inv s" and dist: "distinct (map fst tf)" and fresh: "\<forall>i \<in> fst ` set tf. jget (lr_inFlight s) i = None"
  shows "reads_inv (let t = start_fetch tf s in t\<lparr>lr_stats := (lr_stats t)\<lparr>ls_keysRequested :=
    ls_keysRequested (lr_stats t) + length tf\<rparr>\<rparr>)"
proof -
  let ?n = "length (lr_promises s)" and ?f = "length (lr_fetches s)"
  let ?t = "let t = start_fetch tf s in t\<lparr>lr_stats := (lr_stats t)\<lparr>ls_keysRequested :=
    ls_keysRequested (lr_stats t) + length tf\<rparr>\<rparr>"
  let ?kvs = "zip (map fst tf) [?n..<?n + length tf]"
  have pr: "lr_promises ?t = lr_promises s @ map (\<lambda>(i, k). (i, ?f)) tf" "lr_fetches ?t = lr_fetches s @ [tf]"
    "lr_fetched ?t = lr_fetched s" "lr_callers ?t = lr_callers s"
    "lr_inFlight ?t = foldl (\<lambda>m (i, p). jset m i p) (lr_inFlight s) ?kvs"
    "ls_keysRequested (lr_stats ?t) = ls_keysRequested (lr_stats s) + length tf"
    "ls_keysCoalesced (lr_stats ?t) = ls_keysCoalesced (lr_stats s)"
    "ls_rpcCalls (lr_stats ?t) = Suc (ls_rpcCalls (lr_stats s))"
    by (simp_all add: start_fetch_def Let_def)
  have get: "jget (lr_inFlight ?t) x = (case map_of ?kvs x of Some p \<Rightarrow> Some p | None \<Rightarrow> jget (lr_inFlight s) x)" for x
    unfolding pr by (rule foldl_jset_get) (simp add: dist)
  have kvs: "map_of ?kvs (fst (tf ! j)) = Some (?n + j)" if "j < length tf" for j
    using dist that by (intro map_of_is_SomeI) (auto simp: set_zip intro!: exI [of _ j])
  have kvs_inv: "\<exists>j < length tf. x = fst (tf ! j) \<and> p = ?n + j" if "map_of ?kvs x = Some p" for x p
    using map_of_SomeD [OF that] by (auto simp: set_zip)
  have kvs_none: "map_of ?kvs x = None" if "x \<notin> fst ` set tf" for x
    using that by (auto simp: map_of_eq_None_iff dest: set_zip_leftD)
  have get_old: "jget (lr_inFlight ?t) x = jget (lr_inFlight s) x" if "x \<notin> fst ` set tf" for x
    unfolding get by (simp only: kvs_none [OF that] option.case)
  have f_new: "?f \<notin> fst ` set (lr_fetched s)" using reads_invD(5) [OF inv, of ?f] by blast
  have old_id: "fst (lr_promises s ! p) \<notin> fst ` set tf"
    if "p < ?n" "snd (lr_promises s ! p) \<notin> fst ` set (lr_fetched s)" for p
    using reads_invD(2) [OF inv that] fresh by fastforce
  show ?thesis
    unfolding reads_inv_def links_inv_def
  proof (intro conjI allI impI)
    fix i p assume "jget (lr_inFlight ?t) i = Some p"
    then consider "map_of ?kvs i = Some p" | "jget (lr_inFlight s) i = Some p" by (auto simp: get split: option.splits)
    then have "p < length (lr_promises ?t) \<and> fst (lr_promises ?t ! p) = i"
    proof cases
      case 1
      then obtain j where "j < length tf" "i = fst (tf ! j)" "p = ?n + j" using kvs_inv by blast
      then show ?thesis by (simp add: pr(1) nth_append nth_promise_new split: prod.split)
    next
      case 2
      then have "p < ?n \<and> fst (lr_promises s ! p) = i" by (rule reads_invD(1) [OF inv])
      then show ?thesis by (simp add: pr(1) nth_append)
    qed
    then show "p < length (lr_promises ?t)" "fst (lr_promises ?t ! p) = i" by blast+
  next
    fix p assume p: "p < length (lr_promises ?t)" "snd (lr_promises ?t ! p) \<notin> fst ` set (lr_fetched ?t)"
    show "jget (lr_inFlight ?t) (fst (lr_promises ?t ! p)) = Some p"
    proof (cases "p < ?n")
      case True
      then have "fst (lr_promises s ! p) \<notin> fst ` set tf" "jget (lr_inFlight s) (fst (lr_promises s ! p)) = Some p"
        using p old_id [of p] reads_invD(2) [OF inv True] by (simp_all add: pr(1,3) nth_append)
      then show ?thesis using True get_old by (simp add: pr(1) nth_append)
    next
      case False
      then show ?thesis using p kvs [of "p - ?n"]
        by (cases "tf ! (p - ?n)") (simp add: pr(1) get nth_append)
    qed
  next
    show "\<forall>i \<in> fst ` set (lr_fetches ?t ! g). (i, g) \<in> set (lr_promises ?t)" if "g < length (lr_fetches ?t)" for g
      using that reads_invD(3) [OF inv] by (cases "g = ?f") (force simp: pr(1,2) nth_append less_Suc_eq)+
  next
    show "\<forall>(c, ids, waits) \<in> set (lr_callers ?t). mset (map (\<lambda>p. fst (lr_promises ?t ! p)) waits) = mset ids \<and>
        (\<forall>p \<in> set waits. p < length (lr_promises ?t))"
    proof (intro ballI, clarify)
      fix c ids waits assume "(c, ids, waits) \<in> set (lr_callers ?t)"
      then have "mset (map (\<lambda>p. fst (lr_promises s ! p)) waits) = mset ids" "\<forall>p \<in> set waits. p < ?n"
        using reads_invD(6) [OF inv] by (simp_all add: pr(4))
      then show "mset (map (\<lambda>p. fst (lr_promises ?t ! p)) waits) = mset ids \<and> (\<forall>p \<in> set waits. p < length (lr_promises ?t))"
        by (auto simp: pr(1) nth_append cong: map_cong)
    qed
  next
    have "\<forall>(i, f) \<in> set (lr_promises s). f < ?f" using inv unfolding reads_inv_def links_inv_def by blast
    then show "\<forall>(i, f) \<in> set (lr_promises ?t). f < length (lr_fetches ?t)" by (auto simp: pr(1,2) less_Suc_eq)
    have "\<forall>f \<in> fst ` set (lr_fetched s). f < ?f" using inv unfolding reads_inv_def links_inv_def by blast
    then show "\<forall>f \<in> fst ` set (lr_fetched ?t). f < length (lr_fetches ?t)" by (simp add: pr(2,3) less_SucI)
    have "ls_keysRequested (lr_stats s) = ls_keysCoalesced (lr_stats s) + ?n" "ls_rpcCalls (lr_stats s) = ?f"
      using inv unfolding reads_inv_def links_inv_def by blast+
    then show "ls_keysRequested (lr_stats ?t) = ls_keysCoalesced (lr_stats ?t) + length (lr_promises ?t)"
      "ls_rpcCalls (lr_stats ?t) = length (lr_fetches ?t)" by (simp_all add: pr(1,2,6-8))
  qed
qed


lemma reads_inv_fields:
  "reads_inv s \<Longrightarrow> lr_inFlight t = lr_inFlight s \<Longrightarrow> lr_promises t = lr_promises s \<Longrightarrow> lr_fetches t = lr_fetches s \<Longrightarrow>
   lr_fetched t = lr_fetched s \<Longrightarrow> lr_callers t = lr_callers s \<Longrightarrow>
   ls_keysRequested (lr_stats t) + ls_keysCoalesced (lr_stats s) = ls_keysRequested (lr_stats s) + ls_keysCoalesced (lr_stats t) \<Longrightarrow>
   ls_rpcCalls (lr_stats t) = ls_rpcCalls (lr_stats s) \<Longrightarrow> reads_inv t"
  by (simp add: reads_inv_def)

lemma reads_inv_caller:
  assumes "reads_inv s" "mset (map (\<lambda>p. fst (lr_promises s ! p)) waits) = mset ids" "\<forall>p \<in> set waits. p < length (lr_promises s)"
  shows "reads_inv (s\<lparr>lr_callers := lr_callers s @ [(c, ids, waits)]\<rparr>)"
proof -
  have "links_inv (lr_inFlight s) (lr_promises s) (lr_fetches s) (lr_fetched s) (lr_callers s @ [(c, ids, waits)])"
    using assms unfolding reads_inv_def links_inv_def by (elim conjE, intro conjI) (assumption | auto)+
  then show ?thesis using assms(1) by (simp add: reads_inv_def)
qed

lemma reads_inv_read:
  assumes inv: "reads_inv s"
  shows "reads_inv (read_entries c keys s)"
proof -
  define u where "u = fst (read_unique [] 0 keys)"
  define pend where "pend = filter (\<lambda>(i, k). jhas (lr_inFlight s) i) u"
  define tf where "tf = filter (\<lambda>(i, k). \<not> jhas (lr_inFlight s) i) u"
  define waits where "waits = map (\<lambda>(i, k). the (jget (lr_inFlight s) i)) pend @
      [length (lr_promises s)..<length (lr_promises s) + length tf]"
  let ?t = "read_entries c keys s"
  have "jwf u" unfolding u_def using read_unique_spec [of "[]" 0 keys] by simp
  then have dist: "distinct (map fst tf)" unfolding tf_def by (metis jwf_def jwf_filter)
  have fresh: "\<forall>i \<in> fst ` set tf. jget (lr_inFlight s) i = None" by (auto simp: tf_def jhas_iff jkeys_jget)
  have pend_get: "\<exists>p. jget (lr_inFlight s) i = Some p" if "i \<in> fst ` set pend" for i
    using that by (auto simp: pend_def jhas_iff jkeys_jget)
  have u_parts: "mset (map fst pend) + mset (map fst tf) = mset (map fst u)"
  proof -
    have "mset u = mset pend + mset tf" unfolding pend_def tf_def by (subst multiset_partition) (simp add: case_prod_beta')
    then show ?thesis by simp
  qed
  have len_u: "length u = length pend + length tf" using u_parts by (metis length_map mset_append size_mset size_union)
  define s' where "s' = (if tf = [] then s else
      (let t = start_fetch tf s in t\<lparr>lr_stats := (lr_stats t)\<lparr>ls_keysRequested := ls_keysRequested (lr_stats t) + length tf\<rparr>\<rparr>))"
  have inv': "reads_inv s'" using start_fetch_inv [OF inv dist fresh] inv by (simp add: s'_def)
  have pr': "lr_promises s' = lr_promises s @ map (\<lambda>(i, k). (i, length (lr_fetches s))) tf"
    by (simp add: s'_def start_fetch_def Let_def)
  have f: "lr_inFlight ?t = lr_inFlight s'" "lr_promises ?t = lr_promises s'" "lr_fetches ?t = lr_fetches s'"
    "lr_fetched ?t = lr_fetched s'" "lr_callers ?t = lr_callers s' @ [(c, map fst u, waits)]"
    "ls_rpcCalls (lr_stats ?t) = ls_rpcCalls (lr_stats s')"
    "ls_keysRequested (lr_stats ?t) + ls_keysCoalesced (lr_stats s') = ls_keysRequested (lr_stats s') + ls_keysCoalesced (lr_stats ?t)"
    by (simp_all add: read_entries_def s'_def start_fetch_def Let_def waits_def len_u [symmetric] split_beta
        flip: u_def pend_def tf_def) (use len_u in \<open>auto simp: split_beta\<close>)
  have ids: "map (\<lambda>p. fst (lr_promises s' ! p)) waits = map fst pend @ map fst tf"
  proof -
    have "fst (lr_promises s' ! the (jget (lr_inFlight s) i)) = i" if "i \<in> fst ` set pend" for i
      using pend_get [OF that] reads_invD(1) [OF inv, of i] by (auto simp: pr' nth_append)
    moreover have "map (\<lambda>p. fst (lr_promises s' ! p)) [length (lr_promises s)..<length (lr_promises s) + length tf] = map fst tf"
      by (rule nth_equalityI) (auto simp: pr' nth_append split: prod.split)
    ultimately show ?thesis by (force simp: waits_def)
  qed
  have bound: "\<forall>p \<in> set waits. p < length (lr_promises s')"
    using pend_get reads_invD(1) [OF inv] by (fastforce simp: waits_def pr')
  have "reads_inv (s'\<lparr>lr_callers := lr_callers s' @ [(c, map fst u, waits)]\<rparr>)"
    using ids u_parts by (intro reads_inv_caller inv' bound) simp
  then show ?thesis by (rule reads_inv_fields) (use f in simp_all)
qed

lemma reads_inv_reach: "read_step\<^sup>*\<^sup>* coalescer_new s \<Longrightarrow> reads_inv s"
  by (induction rule: rtranclp_induct)
    (auto intro: reads_inv_new elim!: read_stepE intro: reads_inv_read reads_inv_fetched reads_inv_release)

lemma one_fetch_per_key:
  assumes inv: "reads_inv s" and "fetch_open s f" "i \<in> fst ` set (lr_fetches s ! f)"
    and "fetch_open s g" "i \<in> fst ` set (lr_fetches s ! g)"
  shows "f = g"
proof -
  have at': "\<exists>p < length (lr_promises s). lr_promises s ! p = (i, h) \<and> jget (lr_inFlight s) i = Some p"
    if "fetch_open s h" "i \<in> fst ` set (lr_fetches s ! h)" for h
  proof -
    have "(i, h) \<in> set (lr_promises s)" using that reads_invD(3) [OF inv] by (simp add: fetch_open_def)
    then obtain p where "p < length (lr_promises s)" "lr_promises s ! p = (i, h)" by (auto simp: in_set_conv_nth)
    then show ?thesis using reads_invD(2) [OF inv, of p] that(1) by (auto simp: fetch_open_def)
  qed
  from at' [OF assms(2,3)] at' [OF assms(4,5)] show ?thesis by auto
qed



section \<open>Repeated events\<close>

record deduplicator =
  dd_windowMs :: int
  dd_recentSequences :: "(int, int) js_map"

definition dedup_new :: "int option \<Rightarrow> deduplicator" where
  "dedup_new windowMs = \<lparr>dd_windowMs = (case windowMs of Some w \<Rightarrow> w | None \<Rightarrow> 2000), dd_recentSequences = []\<rparr>"

definition pruneOldEntries :: "int \<Rightarrow> deduplicator \<Rightarrow> deduplicator" where
  "pruneOldEntries now s =
    s\<lparr>dd_recentSequences := filter (\<lambda>(sequence, emittedAt). \<not> dd_windowMs s \<le> now - emittedAt) (dd_recentSequences s)\<rparr>"

definition isDuplicate :: "int \<Rightarrow> int \<Rightarrow> deduplicator \<Rightarrow> bool \<times> deduplicator" where
  "isDuplicate now sequence s0 =
    (let s = pruneOldEntries now s0;
         record' = s\<lparr>dd_recentSequences := jset (dd_recentSequences s) sequence now\<rparr>
     in case jget (dd_recentSequences s) sequence of
          Some emittedAt \<Rightarrow> if now - emittedAt < dd_windowMs s then (True, s) else (False, record')
        | None \<Rightarrow> (False, record'))"

definition dedup_clear :: "deduplicator \<Rightarrow> deduplicator" where
  "dedup_clear s = s\<lparr>dd_recentSequences := []\<rparr>"

definition dedup_getSize :: "int \<Rightarrow> deduplicator \<Rightarrow> nat \<times> deduplicator" where
  "dedup_getSize now s = (let t = pruneOldEntries now s in (length (dd_recentSequences t), t))"

text \<open>The answers to a sequence of events with their times.\<close>

fun dedup_run :: "deduplicator \<Rightarrow> (int \<times> int) list \<Rightarrow> bool list" where
  "dedup_run s [] = []"
| "dedup_run s ((now, sequence) # evs) = (let (d, t) = isDuplicate now sequence s in d # dedup_run t evs)"

text \<open>The reference: suppressed when the same sequence was let through less than the window ago.\<close>

fun dedup_reference :: "int \<Rightarrow> (int \<times> int) list \<Rightarrow> (int \<times> int) list \<Rightarrow> bool list" where
  "dedup_reference w passed [] = []"
| "dedup_reference w passed ((now, sequence) # evs) =
    (let d = list_ex (\<lambda>(t, q). q = sequence \<and> now - t < w) passed
     in d # dedup_reference w (if d then passed else (now, sequence) # passed) evs)"

definition dedup_rel :: "int \<Rightarrow> int \<Rightarrow> (int \<times> int) list \<Rightarrow> deduplicator \<Rightarrow> bool" where
  "dedup_rel w T passed s \<longleftrightarrow> dd_windowMs s = w \<and> jwf (dd_recentSequences s) \<and> (\<forall>t q. (t, q) \<in> set passed \<longrightarrow> t \<le> T) \<and>
    (\<forall>t q. (t, q) \<in> set passed \<and> T - t < w \<longrightarrow> jget (dd_recentSequences s) q = Some t) \<and>
    (\<forall>t q. jget (dd_recentSequences s) q = Some t \<longrightarrow> (t, q) \<in> set passed)"

lemma dedup_relD:
  assumes "dedup_rel w T passed s"
  shows "(t, q) \<in> set passed \<Longrightarrow> T - t < w \<Longrightarrow> jget (dd_recentSequences s) q = Some t"
    and "jget (dd_recentSequences s) q = Some t \<Longrightarrow> (t, q) \<in> set passed"
    and "(t, q) \<in> set passed \<Longrightarrow> t \<le> T" and "dd_windowMs s = w" and "jwf (dd_recentSequences s)"
  using assms unfolding dedup_rel_def by blast+

lemma jget_pruned:
  "jwf (dd_recentSequences s) \<Longrightarrow> jget (dd_recentSequences (pruneOldEntries now s)) q =
    (case jget (dd_recentSequences s) q of None \<Rightarrow> None | Some t \<Rightarrow> if now - t < dd_windowMs s then Some t else None)"
  by (auto simp: pruneOldEntries_def jget_filter not_le split: option.split)

lemma dedup_step:
  fixes now sequence :: int
  assumes rel: "dedup_rel w T passed s" and "T \<le> now"
  defines "d \<equiv> list_ex (\<lambda>(t, q). q = sequence \<and> now - t < w) passed"
  shows "fst (isDuplicate now sequence s) = d"
    and "dedup_rel w now (if d then passed else (now, sequence) # passed) (snd (isDuplicate now sequence s))"
proof -
  let ?p = "pruneOldEntries now s"
  have wf: "jwf (dd_recentSequences s)" and w: "dd_windowMs s = w" "dd_windowMs ?p = w" and wfp: "jwf (dd_recentSequences ?p)"
    using dedup_relD(4,5) [OF rel] by (simp_all add: pruneOldEntries_def jwf_filter)
  have keep: "jget (dd_recentSequences ?p) q = Some t" if "(t, q) \<in> set passed" "now - t < w" for t q
  proof -
    have "T - t < w" using that(2) \<open>T \<le> now\<close> by simp
    with that(1) have "jget (dd_recentSequences s) q = Some t" by (rule dedup_relD(1) [OF rel])
    then show ?thesis using that(2) by (simp add: jget_pruned [OF wf] w)
  qed
  have only: "(t, q) \<in> set passed \<and> now - t < w" if "jget (dd_recentSequences ?p) q = Some t" for t q
    using that dedup_relD(2) [OF rel] by (auto simp: jget_pruned [OF wf] w split: option.splits if_splits)
  have d: "d \<longleftrightarrow> (\<exists>t. jget (dd_recentSequences ?p) sequence = Some t)"
  proof
    assume d
    then obtain t where "(t, sequence) \<in> set passed" "now - t < w" by (auto simp: d_def list_ex_iff)
    then show "\<exists>t. jget (dd_recentSequences ?p) sequence = Some t" using keep by blast
  next
    assume "\<exists>t. jget (dd_recentSequences ?p) sequence = Some t"
    then obtain t where "(t, sequence) \<in> set passed" "now - t < w" using only by blast
    then show d unfolding d_def list_ex_iff by (intro bexI [of _ "(t, sequence)"]) simp_all
  qed
  have old: "t \<le> now" if "(t, q) \<in> set passed" for t q using dedup_relD(3) [OF rel that] \<open>T \<le> now\<close> by simp
  have dup: "isDuplicate now sequence s = (True, ?p)" if "jget (dd_recentSequences ?p) sequence = Some t" for t
    using that only [OF that] by (simp add: isDuplicate_def Let_def w)
  have nodup: "isDuplicate now sequence s = (False, ?p\<lparr>dd_recentSequences := jset (dd_recentSequences ?p) sequence now\<rparr>)"
    if "jget (dd_recentSequences ?p) sequence = None"
    using that by (simp add: isDuplicate_def Let_def)
  show "fst (isDuplicate now sequence s) = d"
    by (cases "jget (dd_recentSequences ?p) sequence") (simp_all add: d dup nodup)
  show "dedup_rel w now (if d then passed else (now, sequence) # passed) (snd (isDuplicate now sequence s))"
  proof (cases d)
    case True
    then have "snd (isDuplicate now sequence s) = ?p" using d dup by auto
    moreover have "dedup_rel w now passed ?p" unfolding dedup_rel_def using keep only old wfp w(2) by blast
    ultimately show ?thesis using True by simp
  next
    case False
    then have none: "jget (dd_recentSequences ?p) sequence = None" using d by auto
    then have r: "snd (isDuplicate now sequence s) = ?p\<lparr>dd_recentSequences := jset (dd_recentSequences ?p) sequence now\<rparr>"
      by (simp add: nodup)
    have new: "\<not> now - t < w" if "(t, sequence) \<in> set passed" for t using keep [OF that] none by auto
    let ?u = "snd (isDuplicate now sequence s)"
    have get: "jget (dd_recentSequences ?u) q = (if q = sequence then Some now else jget (dd_recentSequences ?p) q)" for q
      by (simp add: r jget_set)
    have "jget (dd_recentSequences ?u) q = Some t" if "(t, q) \<in> set ((now, sequence) # passed)" "now - t < w" for t q
      using that keep [of t q] new [of t] by (cases "q = sequence") (auto simp: get)
    moreover have "(t, q) \<in> set ((now, sequence) # passed)" if "jget (dd_recentSequences ?u) q = Some t" for t q
      using that only [of q t] by (cases "q = sequence") (auto simp: get)
    moreover have "t \<le> now" if "(t, q) \<in> set ((now, sequence) # passed)" for t q using that old by auto
    moreover have "dd_windowMs ?u = w" "jwf (dd_recentSequences ?u)" using w(2) wfp by (simp_all add: r jm.invar_put)
    ultimately have "dedup_rel w now ((now, sequence) # passed) ?u" unfolding dedup_rel_def by blast
    then show ?thesis using False by simp
  qed
qed

text \<open>
  C18: as long as the clock does not go back, the deduplicator suppresses exactly the events whose sequence was
  let through less than the window before.
\<close>

theorem dedup_matches_reference:
  assumes "sorted (map fst evs)"
  shows "dedup_run (dedup_new (Some w)) evs = dedup_reference w [] evs"
proof -
  have "dedup_run s evs = dedup_reference w passed evs"
    if "dedup_rel w T passed s" "sorted (map fst evs)" "\<forall>e \<in> set evs. T \<le> fst e" for s passed T
    using that
  proof (induction evs arbitrary: s passed T)
    case (Cons ev evs)
    obtain now q where ev: "ev = (now, q)" by force
    have T: "T \<le> now" using Cons.prems(3) by (simp add: ev)
    note st = dedup_step [OF Cons.prems(1) T, where sequence = q]
    have "dedup_run (snd (isDuplicate now q s)) evs =
        dedup_reference w (if list_ex (\<lambda>(t, q'). q' = q \<and> now - t < w) passed then passed else (now, q) # passed) evs"
      by (rule Cons.IH [OF st(2)]) (use Cons.prems(2) in \<open>auto simp: ev\<close>)
    then show ?case using st(1) by (simp add: ev Let_def split_beta)
  qed simp
  moreover obtain T where "\<forall>e \<in> set evs. T \<le> fst e"
    using assms by (cases evs) (auto intro: order_refl)
  moreover have "dedup_rel w T [] (dedup_new (Some w))" for T by (simp add: dedup_rel_def dedup_new_def)
  ultimately show ?thesis using assms by blast
qed

theorem dedup_matches_reference_witness:
  "dedup_run (dedup_new (Some 10)) [(0, 7), (5, 7), (10, 7)] = [False, True, False]"
  using dedup_matches_reference [of "[(0, 7), (5, 7), (10, 7)]" 10] by simp

end
