(* ===== verification/FootprintCache.thy ===== *)
theory FootprintCache
  imports SdkFootprint LedgerReads
begin

text \<open>
  The footprint cache (\<open>packages/rpc/src/footprint-cache.ts\<close>) and the accessors of both clients
  (\<open>extractFootprintCached\<close>, \<open>onLedgerClose\<close>, \<open>invalidateFootprintCache\<close>, \<open>emitLedgerClose\<close> in
  \<open>packages/core/src/soroban-resurrect.ts\<close> and \<open>packages/sdk/src/soroban-resurrect.ts\<close>). The store is the package
  \<open>quick-lru\<close> and the keys are SHA-256 digests: both are parameters. Of the store the code relies on what the package
  documents: it holds what was set last for a key until that is deleted, cleared or evicted, and eviction may
  happen at any access.
\<close>

section \<open>The store\<close>

record footprint_entry =
  fe_result :: "footprint_keys option"
  fe_ledgerSequence :: "int option"

record 'c lru =
  lru_has :: "'c \<Rightarrow> string \<Rightarrow> bool"
  lru_get :: "'c \<Rightarrow> string \<Rightarrow> footprint_entry option \<times> 'c"
  lru_set :: "'c \<Rightarrow> string \<Rightarrow> footprint_entry \<Rightarrow> 'c"
  lru_delete :: "'c \<Rightarrow> string \<Rightarrow> 'c"
  lru_clear :: "'c \<Rightarrow> 'c"
  lru_keys :: "'c \<Rightarrow> string list"
  lru_count :: "'c \<Rightarrow> nat"

definition held :: "'c lru \<Rightarrow> 'c \<Rightarrow> string \<Rightarrow> footprint_entry option" where
  "held m c k = fst (lru_get m c k)"

text \<open>\<open>d\<close> holds no more than \<open>c\<close>.\<close>

definition shrinks :: "'c lru \<Rightarrow> 'c \<Rightarrow> 'c \<Rightarrow> bool" where
  "shrinks m c d \<longleftrightarrow> (\<forall>k. held m d k = held m c k \<or> held m d k = None)"

definition lru_laws :: "'c lru \<Rightarrow> bool" where
  "lru_laws m \<longleftrightarrow>
    (\<forall>c k. lru_has m c k \<longleftrightarrow> held m c k \<noteq> None) \<and>
    (\<forall>c k. shrinks m c (snd (lru_get m c k))) \<and>
    (\<forall>c k e. held m (lru_set m c k e) k = Some e \<and>
       (\<forall>j. j \<noteq> k \<longrightarrow> held m (lru_set m c k e) j = held m c j \<or> held m (lru_set m c k e) j = None)) \<and>
    (\<forall>c k. held m (lru_delete m c k) k = None \<and> shrinks m c (lru_delete m c k)) \<and>
    (\<forall>c k. held m (lru_clear m c) k = None) \<and>
    (\<forall>c. set (lru_keys m c) = {k. held m c k \<noteq> None})"

section \<open>The cache\<close>

record 'c footprint_cache =
  fc_store :: 'c
  fc_hits :: nat
  fc_misses :: nat

definition fc_new :: "'c \<Rightarrow> 'c footprint_cache" where
  "fc_new store = \<lparr>fc_store = store, fc_hits = 0, fc_misses = 0\<rparr>"

text \<open>\<open>None\<close> is the \<open>undefined\<close> of a miss; a cached \<open>null\<close> is \<open>Some None\<close>.\<close>

definition fc_get :: "'c lru \<Rightarrow> (string \<Rightarrow> string) \<Rightarrow> string \<Rightarrow> 'c footprint_cache \<Rightarrow>
    footprint_keys option option \<times> 'c footprint_cache" where
  "fc_get m hashXDR txXDR s =
    (let key = hashXDR txXDR
     in if lru_has m (fc_store s) key
        then (case lru_get m (fc_store s) key of
            (e, c) \<Rightarrow> (map_option fe_result e, s\<lparr>fc_store := c, fc_hits := fc_hits s + 1\<rparr>))
        else (None, s\<lparr>fc_misses := fc_misses s + 1\<rparr>))"

definition fc_set :: "'c lru \<Rightarrow> (string \<Rightarrow> string) \<Rightarrow> string \<Rightarrow> footprint_keys option \<Rightarrow> int option \<Rightarrow>
    'c footprint_cache \<Rightarrow> 'c footprint_cache" where
  "fc_set m hashXDR txXDR result ledgerSequence s =
    s\<lparr>fc_store := lru_set m (fc_store s) (hashXDR txXDR) \<lparr>fe_result = result, fe_ledgerSequence = ledgerSequence\<rparr>\<rparr>"

definition drop_stale :: "'c lru \<Rightarrow> int \<Rightarrow> string \<Rightarrow> 'c \<Rightarrow> 'c" where
  "drop_stale m staleThreshold key c = (case lru_get m c key of (e, d) \<Rightarrow>
     if (case Option.bind e fe_ledgerSequence of None \<Rightarrow> False | Some n \<Rightarrow> n \<le> staleThreshold) then lru_delete m d key else d)"

definition fc_onLedgerClose :: "'c lru \<Rightarrow> int \<Rightarrow> 'c footprint_cache \<Rightarrow> 'c footprint_cache" where
  "fc_onLedgerClose m closedLedger s = s\<lparr>fc_store := fold (drop_stale m (closedLedger - 1)) (lru_keys m (fc_store s)) (fc_store s)\<rparr>"

definition fc_invalidateAll :: "'c lru \<Rightarrow> 'c footprint_cache \<Rightarrow> 'c footprint_cache" where
  "fc_invalidateAll m s = s\<lparr>fc_store := lru_clear m (fc_store s)\<rparr>"

definition fc_invalidate :: "'c lru \<Rightarrow> (string \<Rightarrow> string) \<Rightarrow> string \<Rightarrow> 'c footprint_cache \<Rightarrow> 'c footprint_cache" where
  "fc_invalidate m hashXDR txXDR s = s\<lparr>fc_store := lru_delete m (fc_store s) (hashXDR txXDR)\<rparr>"

definition fc_clear :: "'c lru \<Rightarrow> 'c footprint_cache \<Rightarrow> 'c footprint_cache" where
  "fc_clear m s = \<lparr>fc_store = lru_clear m (fc_store s), fc_hits = 0, fc_misses = 0\<rparr>"

definition fc_has :: "'c lru \<Rightarrow> (string \<Rightarrow> string) \<Rightarrow> string \<Rightarrow> 'c footprint_cache \<Rightarrow> bool" where
  "fc_has m hashXDR txXDR s = lru_has m (fc_store s) (hashXDR txXDR)"

record footprint_statistics =
  fs_hits :: nat
  fs_misses :: nat
  fs_size :: nat
  fs_hitRate :: rat

definition fc_getStatistics :: "'c lru \<Rightarrow> 'c footprint_cache \<Rightarrow> footprint_statistics" where
  "fc_getStatistics m s = (let all = fc_hits s + fc_misses s
     in \<lparr>fs_hits = fc_hits s, fs_misses = fc_misses s, fs_size = lru_count m (fc_store s),
         fs_hitRate = (if 0 < all then rat_of_nat (fc_hits s) / rat_of_nat all * 100 else 0)\<rparr>)"

section \<open>The accessors of the clients\<close>

text \<open>The cache is there only when it is configured; the deduplicator belongs to the \<open>sdk\<close> client.\<close>

record 'c footprint_client =
  fp_cache :: "'c footprint_cache option"
  fp_deduplicator :: deduplicator

definition extractFootprintCached ::
  "'c lru \<Rightarrow> (string \<Rightarrow> string) \<Rightarrow> (string \<Rightarrow> footprint_keys option) \<Rightarrow> string \<Rightarrow> 'c footprint_client \<Rightarrow>
   footprint_keys option \<times> 'c footprint_client" where
  "extractFootprintCached m hashXDR extract txXDR s = (case fp_cache s of
     None \<Rightarrow> (extract txXDR, s)
   | Some c \<Rightarrow> (case fc_get m hashXDR txXDR c of
       (Some cached, c') \<Rightarrow> (cached, s\<lparr>fp_cache := Some c'\<rparr>)
     | (None, c') \<Rightarrow> (extract txXDR, s\<lparr>fp_cache := Some (fc_set m hashXDR txXDR (extract txXDR) None c')\<rparr>)))"

definition client_onLedgerClose :: "'c lru \<Rightarrow> int option \<Rightarrow> 'c footprint_client \<Rightarrow> 'c footprint_client" where
  "client_onLedgerClose m closedLedger s = s\<lparr>fp_cache := map_option
     (case closedLedger of Some n \<Rightarrow> fc_onLedgerClose m n | None \<Rightarrow> fc_invalidateAll m) (fp_cache s)\<rparr>"

definition invalidateFootprintCache ::
  "'c lru \<Rightarrow> (string \<Rightarrow> string) \<Rightarrow> string option \<Rightarrow> 'c footprint_client \<Rightarrow> 'c footprint_client" where
  "invalidateFootprintCache m hashXDR txXDR s = s\<lparr>fp_cache := map_option
     (if truthy_str txXDR then fc_invalidate m hashXDR (the txXDR) else fc_invalidateAll m) (fp_cache s)\<rparr>"

definition emitLedgerClose :: "'c lru \<Rightarrow> int \<Rightarrow> int \<Rightarrow> 'c footprint_client \<Rightarrow> bool \<times> 'c footprint_client" where
  "emitLedgerClose m now sequence s = (case isDuplicate now sequence (fp_deduplicator s) of
     (dup, d) \<Rightarrow> if dup then (True, s\<lparr>fp_deduplicator := d\<rparr>)
                 else (False, client_onLedgerClose m None (s\<lparr>fp_deduplicator := d\<rparr>)))"

datatype footprint_op =
    ExtractFootprint string
  | LedgerClose "int option"
  | InvalidateFootprint "string option"
  | EmitClose int int

fun footprint_step ::
  "'c lru \<Rightarrow> (string \<Rightarrow> string) \<Rightarrow> (string \<Rightarrow> footprint_keys option) \<Rightarrow> footprint_op \<Rightarrow> 'c footprint_client \<Rightarrow>
   footprint_keys option list \<times> 'c footprint_client" where
  "footprint_step m h extract (ExtractFootprint tx) s = (case extractFootprintCached m h extract tx s of (r, t) \<Rightarrow> ([r], t))"
| "footprint_step m h extract (LedgerClose n) s = ([], client_onLedgerClose m n s)"
| "footprint_step m h extract (InvalidateFootprint tx) s = ([], invalidateFootprintCache m h tx s)"
| "footprint_step m h extract (EmitClose now n) s = ([], snd (emitLedgerClose m now n s))"

fun footprint_run ::
  "'c lru \<Rightarrow> (string \<Rightarrow> string) \<Rightarrow> (string \<Rightarrow> footprint_keys option) \<Rightarrow> footprint_op list \<Rightarrow> 'c footprint_client \<Rightarrow>
   footprint_keys option list \<times> 'c footprint_client" where
  "footprint_run m h extract [] s = ([], s)"
| "footprint_run m h extract (p # ps) s = (case footprint_step m h extract p s of (rs, t) \<Rightarrow>
     (case footprint_run m h extract ps t of (qs, u) \<Rightarrow> (rs @ qs, u)))"

section \<open>Lemmas\<close>

lemma lruD:
  assumes "lru_laws m"
  shows "lru_has m c k \<longleftrightarrow> held m c k \<noteq> None" and "shrinks m c (snd (lru_get m c k))"
    and "held m (lru_set m c k e) k = Some e" and "j \<noteq> k \<Longrightarrow> held m (lru_set m c k e) j = held m c j \<or> held m (lru_set m c k e) j = None"
    and "held m (lru_delete m c k) k = None" and "shrinks m c (lru_delete m c k)" and "held m (lru_clear m c) k = None"
    and "set (lru_keys m c) = {k. held m c k \<noteq> None}"
  using assms unfolding lru_laws_def by blast+

lemma shrinks_trans: "shrinks m a b \<Longrightarrow> shrinks m b c \<Longrightarrow> shrinks m a c"
  unfolding shrinks_def by metis

lemma drop_stale_shrinks: "lru_laws m \<Longrightarrow> shrinks m c (drop_stale m n k c)"
  by (cases "lru_get m c k") (use lruD(2) [of m c k] lruD(6) [of m _ k] shrinks_trans in \<open>fastforce simp: drop_stale_def\<close>)

lemma fold_stale_shrinks: "lru_laws m \<Longrightarrow> shrinks m c (fold (drop_stale m n) ks c)"
proof (induction ks arbitrary: c)
  case Nil
  then show ?case by (simp add: shrinks_def)
next
  case (Cons k ks)
  then show ?case using drop_stale_shrinks [of m c n k] shrinks_trans by fastforce
qed

text \<open>Every entry holds what its transaction, one of \<open>txs\<close>, is parsed to.\<close>

definition entries_true ::
  "'c lru \<Rightarrow> (string \<Rightarrow> string) \<Rightarrow> (string \<Rightarrow> footprint_keys option) \<Rightarrow> string set \<Rightarrow> 'c \<Rightarrow> bool" where
  "entries_true m h extract txs c \<longleftrightarrow> (\<forall>k e. held m c k = Some e \<longrightarrow> (\<exists>tx\<in>txs. h tx = k \<and> fe_result e = extract tx))"

lemma entries_shrink: "entries_true m h x txs c \<Longrightarrow> shrinks m c d \<Longrightarrow> entries_true m h x txs d"
  unfolding entries_true_def shrinks_def by (metis option.distinct(1))

lemma entries_clear: "lru_laws m \<Longrightarrow> entries_true m h x txs (lru_clear m c)"
  by (simp add: entries_true_def lruD(7))

lemma entries_set:
  assumes "lru_laws m" and "entries_true m h x txs c" and "tx \<in> txs"
  shows "entries_true m h x txs (lru_set m c (h tx) \<lparr>fe_result = x tx, fe_ledgerSequence = n\<rparr>)"
  unfolding entries_true_def
proof (intro allI impI)
  fix k e assume e: "held m (lru_set m c (h tx) \<lparr>fe_result = x tx, fe_ledgerSequence = n\<rparr>) k = Some e"
  show "\<exists>tx\<in>txs. h tx = k \<and> fe_result e = x tx"
  proof (cases "k = h tx")
    case True
    then show ?thesis using e assms(3) lruD(3) [OF assms(1), of c "h tx"] by auto
  next
    case False
    then have "held m c k = Some e"
      using e lruD(4) [OF assms(1) False, of c "\<lparr>fe_result = x tx, fe_ledgerSequence = n\<rparr>"] by auto
    then show ?thesis using assms(2) by (auto simp: entries_true_def)
  qed
qed

definition client_true ::
  "'c lru \<Rightarrow> (string \<Rightarrow> string) \<Rightarrow> (string \<Rightarrow> footprint_keys option) \<Rightarrow> string set \<Rightarrow> 'c footprint_client \<Rightarrow> bool" where
  "client_true m h x txs s \<longleftrightarrow> (case fp_cache s of None \<Rightarrow> True | Some c \<Rightarrow> entries_true m h x txs (fc_store c))"

lemma extract_true:
  assumes "lru_laws m" and "inj_on h txs" and "client_true m h x txs s" and "tx \<in> txs" and "extractFootprintCached m h x tx s = (r, t)"
  shows "r = x tx \<and> client_true m h x txs t"
proof (cases "fp_cache s")
  case None
  then show ?thesis using assms by (auto simp: extractFootprintCached_def)
next
  case (Some c)
  then have true: "entries_true m h x txs (fc_store c)" using assms(3) by (simp add: client_true_def)
  show ?thesis
  proof (cases "held m (fc_store c) (h tx)")
    case None
    then have "\<not> lru_has m (fc_store c) (h tx)" using lruD(1) [OF assms(1)] by simp
    then show ?thesis using assms(5) Some entries_set [OF assms(1) true assms(4)]
      by (auto simp: extractFootprintCached_def fc_get_def fc_set_def client_true_def)
  next
    case (Some e)
    then have "lru_has m (fc_store c) (h tx)" using lruD(1) [OF assms(1)] by simp
    moreover obtain d where d: "lru_get m (fc_store c) (h tx) = (Some e, d)"
      using Some by (cases "lru_get m (fc_store c) (h tx)") (simp add: held_def)
    moreover have "entries_true m h x txs d" using entries_shrink [OF true lruD(2) [OF assms(1)], of "h tx"] d by simp
    moreover have "fe_result e = x tx" using true Some assms(2,4) by (auto simp: entries_true_def dest: inj_onD)
    ultimately show ?thesis using assms(5) \<open>fp_cache s = Some c\<close>
      by (auto simp: extractFootprintCached_def fc_get_def client_true_def)
  qed
qed

lemma close_true: "lru_laws m \<Longrightarrow> client_true m h x txs s \<Longrightarrow> client_true m h x txs (client_onLedgerClose m n s)"
  by (auto simp: client_true_def client_onLedgerClose_def fc_onLedgerClose_def fc_invalidateAll_def entries_clear
      split: option.splits intro: entries_shrink fold_stale_shrinks)

lemma invalidate_true: "lru_laws m \<Longrightarrow> client_true m h x txs s \<Longrightarrow> client_true m h x txs (invalidateFootprintCache m h tx s)"
  by (auto simp: client_true_def invalidateFootprintCache_def fc_invalidate_def fc_invalidateAll_def entries_clear
      split: option.splits intro: entries_shrink lruD(6))

lemma emit_true: "lru_laws m \<Longrightarrow> client_true m h x txs s \<Longrightarrow> client_true m h x txs (snd (emitLedgerClose m now n s))"
proof -
  assume laws: "lru_laws m" and "client_true m h x txs s"
  then have "client_true m h x txs (s\<lparr>fp_deduplicator := d\<rparr>)" for d by (simp add: client_true_def)
  then show ?thesis using close_true [OF laws] by (auto simp: emitLedgerClose_def split: prod.split)
qed

fun parsed_by :: "(string \<Rightarrow> footprint_keys option) \<Rightarrow> footprint_op list \<Rightarrow> footprint_keys option list" where
  "parsed_by x [] = []"
| "parsed_by x (ExtractFootprint tx # ps) = x tx # parsed_by x ps"
| "parsed_by x (_ # ps) = parsed_by x ps"

fun transactions_read :: "footprint_op list \<Rightarrow> string list" where
  "transactions_read [] = []"
| "transactions_read (ExtractFootprint tx # ps) = tx # transactions_read ps"
| "transactions_read (_ # ps) = transactions_read ps"

lemma run_true:
  "lru_laws m \<Longrightarrow> inj_on h txs \<Longrightarrow> client_true m h x txs s \<Longrightarrow> set (transactions_read ps) \<subseteq> txs \<Longrightarrow>
   fst (footprint_run m h x ps s) = parsed_by x ps"
proof (induction ps arbitrary: s)
  case (Cons p ps)
  show ?case
  proof (cases p)
    case (ExtractFootprint tx)
    obtain r t where "extractFootprintCached m h x tx s = (r, t)" by force
    with extract_true [OF Cons.prems(1,2,3) _ this] Cons ExtractFootprint show ?thesis by (simp add: case_prod_beta)
  next
    case (LedgerClose n)
    then show ?thesis using Cons.IH [OF Cons.prems(1,2) close_true [OF Cons.prems(1,3)], of n] Cons.prems(4) by (simp add: case_prod_beta)
  next
    case (InvalidateFootprint tx)
    then show ?thesis using Cons.IH [OF Cons.prems(1,2) invalidate_true [OF Cons.prems(1,3)], of tx] Cons.prems(4) by (simp add: case_prod_beta)
  next
    case (EmitClose now n)
    then show ?thesis using Cons.IH [OF Cons.prems(1,2) emit_true [OF Cons.prems(1,3)], of now n] Cons.prems(4) by (simp add: case_prod_beta)
  qed
qed simp

section \<open>Properties\<close>

text \<open>
  C37: the cache is transparent: in any run of a client, with any store that keeps the laws and a digest that does not
  collide on the transactions of the run, every footprint read through the cache is the one the transaction is parsed to. A close event that
  is a duplicate leaves the cache alone, one that is not empties it.
\<close>

theorem footprints_transparent:
  assumes "lru_laws m" and "inj_on hashXDR (set (transactions_read ps))" and "\<forall>k. held m store k = None"
  shows "fst (footprint_run m hashXDR extract ps \<lparr>fp_cache = Some (fc_new store), fp_deduplicator = d\<rparr>) = parsed_by extract ps \<and>
    (case emitLedgerClose m now n s of (dup, t) \<Rightarrow>
       (if dup then fp_cache t = fp_cache s
        else \<forall>c. fp_cache t = Some c \<longrightarrow> (\<forall>k. held m (fc_store c) k = None)))"
proof
  have "client_true m hashXDR extract (set (transactions_read ps)) \<lparr>fp_cache = Some (fc_new store), fp_deduplicator = d\<rparr>"
    using assms(3) by (simp add: client_true_def entries_true_def fc_new_def)
  from run_true [OF assms(1,2) this subset_refl]
  show "fst (footprint_run m hashXDR extract ps \<lparr>fp_cache = Some (fc_new store), fp_deduplicator = d\<rparr>) = parsed_by extract ps" .
  show "case emitLedgerClose m now n s of (dup, t) \<Rightarrow>
       (if dup then fp_cache t = fp_cache s else \<forall>c. fp_cache t = Some c \<longrightarrow> (\<forall>k. held m (fc_store c) k = None))"
    by (auto simp: emitLedgerClose_def client_onLedgerClose_def fc_invalidateAll_def lruD(7) [OF assms(1)]
        split: prod.split)
qed

definition map_store :: "(string, footprint_entry) js_map lru" where
  "map_store = \<lparr>lru_has = jhas, lru_get = (\<lambda>c k. (jget c k, c)), lru_set = jset, lru_delete = jdel, lru_clear = (\<lambda>c. []),
     lru_keys = jkeys, lru_count = length\<rparr>"

lemma map_store_laws: "lru_laws map_store"
  by (auto simp: lru_laws_def shrinks_def held_def map_store_def jhas_iff jkeys_jget jget_set jget_del)

theorem footprints_transparent_witness:
  "fst (footprint_run map_store (\<lambda>x. x) (\<lambda>x. None) [ExtractFootprint ''a'', LedgerClose (Some 4), ExtractFootprint ''a'']
     \<lparr>fp_cache = Some (fc_new []), fp_deduplicator = dedup_new None\<rparr>) = [None, None]"
  using footprints_transparent [OF map_store_laws, of "\<lambda>x. x"
      "[ExtractFootprint ''a'', LedgerClose (Some 4), ExtractFootprint ''a'']" "[]" "\<lambda>x. None" "dedup_new None"]
  by (simp add: held_def map_store_def)

text \<open>
  Entries are stored without the ledger they belong to, so the close of a ledger by its number flushes none of those
  the clients put there.
\<close>

theorem numbered_close_flushes_nothing:
  assumes "\<forall>k e. held m (fc_store c) k = Some e \<longrightarrow> fe_ledgerSequence e = None" and "lru_laws m"
  shows "\<exists>ks. fc_store (fc_onLedgerClose m n c) = fold (\<lambda>k d. snd (lru_get m d k)) ks (fc_store c)"
proof -
  have "fold (drop_stale m (n - 1)) ks d = fold (\<lambda>k d. snd (lru_get m d k)) ks d"
    if "\<forall>k e. held m d k = Some e \<longrightarrow> fe_ledgerSequence e = None" for ks d
    using that
  proof (induction ks arbitrary: d)
    case (Cons k ks)
    have one: "drop_stale m (n - 1) k d = snd (lru_get m d k)"
      using Cons.prems [rule_format, of k] by (cases "lru_get m d k"; cases "fst (lru_get m d k)") (auto simp: drop_stale_def held_def split: option.split)
    have "\<forall>j e. held m (snd (lru_get m d k)) j = Some e \<longrightarrow> fe_ledgerSequence e = None"
      using Cons.prems lruD(2) [OF assms(2), of d k] unfolding shrinks_def by (metis option.distinct(1))
    from Cons.IH [OF this] show ?case by (simp add: one)
  qed simp
  from this [OF assms(1)] show ?thesis by (auto simp: fc_onLedgerClose_def)
qed

end
