(* ===== verification/Monitoring.thy ===== *)
theory Monitoring
  imports Prelude
begin

text \<open>
  Alerting and usage reports of the \<open>sdk\<close> package (\<open>packages/sdk/src/monitoring.ts\<close>). Rates are exact rationals;
  how the engine rounds and prints a number is the argument \<open>g\<close>, the clock reading is the argument \<open>now\<close>.
\<close>

section \<open>Alerts\<close>

datatype alert_type = restoreFailureRate | restoreLatency | rpcErrorRate

record alert =
  av_type :: alert_type
  av_message :: string
  av_value :: rat
  av_threshold :: rat
  av_timestamp :: int

record number_text =
  nt_round :: "rat \<Rightarrow> string"
  nt_fixed1 :: "rat \<Rightarrow> string"

record alerting_config =
  ag_restoreFailureThreshold :: rat
  ag_restoreLatencyThresholdMs :: rat
  ag_rpcErrorRateThreshold :: rat
  ag_windowSize :: "int option"

record alert_manager =
  am_config :: alerting_config
  am_text :: number_text
  am_restoreOutcomes :: "bool list"
  am_rpcOutcomes :: "bool list"
  am_windowSize :: int

definition alerts_new :: "number_text \<Rightarrow> alerting_config \<Rightarrow> alert_manager" where
  "alerts_new g c = \<lparr>am_config = c, am_text = g, am_restoreOutcomes = [], am_rpcOutcomes = [],
     am_windowSize = (case ag_windowSize c of None \<Rightarrow> 20 | Some w \<Rightarrow> w)\<rparr>"

definition window_push :: "int \<Rightarrow> bool list \<Rightarrow> bool \<Rightarrow> bool list" where
  "window_push wsize window value =
    (let w = window @ [value] in if wsize < int (length w) then tl w else w)"

definition window_rate :: "bool list \<Rightarrow> bool \<Rightarrow> rat" where
  "window_rate window match =
    (if window = [] then 0
     else rat_of_nat (length (filter (\<lambda>v. v = match) window)) / rat_of_nat (length window) * 100)"

text \<open>An exception of the callback is swallowed; the alerts handed to it are the result.\<close>

definition restore_alerts :: "number_text \<Rightarrow> alerting_config \<Rightarrow> int \<Rightarrow> bool list \<Rightarrow> rat \<Rightarrow> alert list" where
  "restore_alerts g c now window latencyMs =
    (if ag_restoreLatencyThresholdMs c < latencyMs
     then [\<lparr>av_type = restoreLatency, av_message = ''Restore took '' @ nt_round g latencyMs @ ''ms'', av_value = latencyMs,
            av_threshold = ag_restoreLatencyThresholdMs c, av_timestamp = now\<rparr>] else []) @
    (let failureRate = window_rate window False
     in if ag_restoreFailureThreshold c < failureRate
        then [\<lparr>av_type = restoreFailureRate, av_message = ''Restore failure rate '' @ nt_fixed1 g failureRate @
                 ''% over last '' @ nat_dec (length window) @ '' attempts'', av_value = failureRate,
               av_threshold = ag_restoreFailureThreshold c, av_timestamp = now\<rparr>] else [])"

definition rpc_alerts :: "number_text \<Rightarrow> alerting_config \<Rightarrow> int \<Rightarrow> bool list \<Rightarrow> alert list" where
  "rpc_alerts g c now window =
    (let errorRate = window_rate window False
     in if ag_rpcErrorRateThreshold c < errorRate
        then [\<lparr>av_type = rpcErrorRate, av_message = ''RPC error rate '' @ nt_fixed1 g errorRate @
                 ''% over last '' @ nat_dec (length window) @ '' calls'', av_value = errorRate,
               av_threshold = ag_rpcErrorRateThreshold c, av_timestamp = now\<rparr>] else [])"

definition alert_recordRestore :: "int \<Rightarrow> bool \<Rightarrow> rat \<Rightarrow> alert_manager \<Rightarrow> alert list \<times> alert_manager" where
  "alert_recordRestore now success latencyMs s =
    (let t = s\<lparr>am_restoreOutcomes := window_push (am_windowSize s) (am_restoreOutcomes s) success\<rparr>
     in (restore_alerts (am_text t) (am_config t) now (am_restoreOutcomes t) latencyMs, t))"

definition alert_recordRpcCall :: "int \<Rightarrow> bool \<Rightarrow> alert_manager \<Rightarrow> alert list \<times> alert_manager" where
  "alert_recordRpcCall now success s =
    (let t = s\<lparr>am_rpcOutcomes := window_push (am_windowSize s) (am_rpcOutcomes s) success\<rparr>
     in (rpc_alerts (am_text t) (am_config t) now (am_rpcOutcomes t), t))"

section \<open>Usage reports\<close>

record telemetry_config =
  tc_enabled :: bool
  tc_endpoint :: string

datatype report_effect = Posted string string | Reported string

text \<open>\<open>fetch\<close> is absent in a runtime without it; \<open>body\<close> is the payload as JSON.\<close>

definition reporter_report ::
  "telemetry_config \<Rightarrow> (string \<Rightarrow> string \<Rightarrow> string + unit) option \<Rightarrow> string \<Rightarrow> report_effect list" where
  "reporter_report c fetch body =
    (if \<not> tc_enabled c \<or> tc_endpoint c = [] then []
     else case fetch of
         None \<Rightarrow> [Reported ''Telemetry skipped: global fetch is not available in this runtime'']
       | Some f \<Rightarrow> Posted (tc_endpoint c) body #
           (case f (tc_endpoint c) body of Inl m \<Rightarrow> [Reported (''Telemetry report failed: '' @ m)] | Inr u \<Rightarrow> []))"

section \<open>Runs and their reference\<close>

datatype sample = Restore int bool rat | RpcCall int bool

fun alert_step :: "sample \<Rightarrow> alert_manager \<Rightarrow> alert list \<times> alert_manager" where
  "alert_step (Restore now ok ms) s = alert_recordRestore now ok ms s"
| "alert_step (RpcCall now ok) s = alert_recordRpcCall now ok s"

fun alert_run :: "sample list \<Rightarrow> alert_manager \<Rightarrow> alert list list" where
  "alert_run [] s = []"
| "alert_run (x # xs) s = (case alert_step x s of (as, t) \<Rightarrow> as # alert_run xs t)"

definition last_of :: "int \<Rightarrow> 'a list \<Rightarrow> 'a list" where
  "last_of n xs = drop (length xs - nat n) xs"

definition restores_in :: "sample list \<Rightarrow> bool list" where
  "restores_in xs = List.map_filter (\<lambda>x. case x of Restore now ok ms \<Rightarrow> Some ok | RpcCall now ok \<Rightarrow> None) xs"

definition rpc_calls_in :: "sample list \<Rightarrow> bool list" where
  "rpc_calls_in xs = List.map_filter (\<lambda>x. case x of Restore now ok ms \<Rightarrow> None | RpcCall now ok \<Rightarrow> Some ok) xs"

text \<open>The alerts of a sample, computed from everything recorded up to it.\<close>

fun reference_alerts :: "number_text \<Rightarrow> alerting_config \<Rightarrow> int \<Rightarrow> sample list \<Rightarrow> sample \<Rightarrow> alert list" where
  "reference_alerts g c wsize before (Restore now ok ms) =
    restore_alerts g c now (last_of wsize (restores_in (before @ [Restore now ok ms]))) ms"
| "reference_alerts g c wsize before (RpcCall now ok) =
    rpc_alerts g c now (last_of wsize (rpc_calls_in (before @ [RpcCall now ok])))"

lemma push_last_of: "window_push wsize (last_of wsize xs) x = last_of wsize (xs @ [x])"
proof (cases "length xs < nat wsize")
  case True
  then have "\<not> wsize < int (length (xs @ [x]))" by simp
  then show ?thesis using True by (simp add: window_push_def last_of_def Let_def)
next
  case False
  then have "length (last_of wsize xs) = nat wsize" by (simp add: last_of_def)
  moreover have "drop (length (xs @ [x]) - nat wsize) (xs @ [x]) = tl (drop (length xs - nat wsize) (xs @ [x]))"
    using False by (simp only: length_append_singleton Suc_diff_le not_less) (simp only: drop_Suc tl_drop)
  ultimately show ?thesis using False by (simp add: window_push_def last_of_def Let_def)
qed

definition windows_of :: "alert_manager \<Rightarrow> sample list \<Rightarrow> bool" where
  "windows_of s xs \<longleftrightarrow> am_restoreOutcomes s = last_of (am_windowSize s) (restores_in xs) \<and>
    am_rpcOutcomes s = last_of (am_windowSize s) (rpc_calls_in xs)"

lemma samples_snoc:
  "restores_in (xs @ [Restore now ok ms]) = restores_in xs @ [ok]" "restores_in (xs @ [RpcCall now ok]) = restores_in xs"
  "rpc_calls_in (xs @ [RpcCall now ok]) = rpc_calls_in xs @ [ok]" "rpc_calls_in (xs @ [Restore now ok ms]) = rpc_calls_in xs"
  by (simp_all add: restores_in_def rpc_calls_in_def List.map_filter_def)

lemma alert_run_reference:
  "windows_of s before \<Longrightarrow>
   alert_run xs s = map (\<lambda>i. reference_alerts (am_text s) (am_config s) (am_windowSize s) (before @ take i xs) (xs ! i)) [0..<length xs]"
proof (induction xs arbitrary: s before)
  case Nil
  then show ?case by simp
next
  case (Cons x xs)
  obtain as t where st: "alert_step x s = (as, t)" by force
  then have same: "am_text t = am_text s" "am_config t = am_config s" "am_windowSize t = am_windowSize s"
    and win: "windows_of t (before @ [x])"
    and out: "as = reference_alerts (am_text s) (am_config s) (am_windowSize s) before x"
    using Cons.prems by (cases x;
      auto simp: alert_recordRestore_def alert_recordRpcCall_def Let_def windows_of_def samples_snoc push_last_of)+
  have "[0..<length (x # xs)] = 0 # map Suc [0..<length xs]" by (simp add: map_Suc_upt upt_conv_Cons del: upt_Suc)
  then show ?case using Cons.IH [OF win] by (simp add: st same out comp_def)
qed

section \<open>Properties\<close>

text \<open>
  Every sample raises exactly the alerts that a recount of the last \<open>windowSize\<close> outcomes of its kind gives,
  the sample included: the latency alert where the latency is above its limit, the rate alerts where the share of
  failures is; a window of no size never raises a rate alert.
\<close>

theorem alerts_recount:
  "alert_run xs (alerts_new g c) =
    map (\<lambda>i. reference_alerts g c (case ag_windowSize c of None \<Rightarrow> 20 | Some w \<Rightarrow> w) (take i xs) (xs ! i)) [0..<length xs]"
proof -
  have "windows_of (alerts_new g c) []"
    by (simp add: windows_of_def alerts_new_def last_of_def restores_in_def rpc_calls_in_def List.map_filter_def)
  from alert_run_reference [OF this, of xs] show ?thesis by (simp add: alerts_new_def cong: option.case_cong)
qed

end
