(* ===== verification/Metrics.thy ===== *)
theory Metrics
  imports Values
begin

text \<open>
  The metrics registry of the \<open>sdk\<close> package (\<open>packages/sdk/src/metrics.ts\<close>): counters and histograms by name
  and label set, their text form, and the fixed set of metrics of the client. Finite numbers are rationals.
  What belongs to the engine is the argument \<open>g\<close>: the order of \<open>localeCompare\<close> and the text of a number.
\<close>

section \<open>Labels\<close>

type_synonym labels = "(string, string) js_map"

record engine_text =
  tx_le :: "string \<Rightarrow> string \<Rightarrow> bool"
  tx_number :: "rat \<Rightarrow> string"

fun insert_by :: "('a \<Rightarrow> 'a \<Rightarrow> bool) \<Rightarrow> 'a \<Rightarrow> 'a list \<Rightarrow> 'a list" where
  "insert_by le x [] = [x]"
| "insert_by le x (y # ys) = (if le x y then x # y # ys else y # insert_by le x ys)"

definition sort_by :: "('a \<Rightarrow> 'a \<Rightarrow> bool) \<Rightarrow> 'a list \<Rightarrow> 'a list" where
  "sort_by le xs = foldr (insert_by le) xs []"

definition label_parts :: "engine_text \<Rightarrow> labels \<Rightarrow> string list" where
  "label_parts g ls =
    map (\<lambda>(k, v). k @ ''='' @ [CHR 0x22] @ v @ [CHR 0x22]) (sort_by (\<lambda>a b. tx_le g (fst a) (fst b)) ls)"

definition labelsToKey :: "engine_text \<Rightarrow> labels \<Rightarrow> string" where
  "labelsToKey g ls = join_with '','' (label_parts g ls)"

definition labelsToString :: "engine_text \<Rightarrow> labels \<Rightarrow> string" where
  "labelsToString g ls =
    (let parts = label_parts g ls in if parts \<noteq> [] then ''{'' @ join_with '','' parts @ ''}'' else [])"

section \<open>The registry\<close>

datatype metric =
    Counter (mt_help: string) (ct_values: "(string, rat) js_map") (mt_labels: "(string, labels) js_map")
  | Histogram (mt_help: string) (hs_buckets: "rat list") (hs_counts: "(string, nat list) js_map")
      (hs_sums: "(string, rat) js_map") (hs_totals: "(string, nat) js_map") (mt_labels: "(string, labels) js_map")

record registry =
  mr_text :: engine_text
  mr_metrics :: "(string, metric) js_map"
  mr_prefix :: string
  mr_defaultLabels :: labels

definition registry_new :: "engine_text \<Rightarrow> string option \<Rightarrow> labels option \<Rightarrow> registry" where
  "registry_new g prefix defaultLabels =
    \<lparr>mr_text = g, mr_metrics = [], mr_prefix = (case prefix of None \<Rightarrow> ''soroban'' | Some p \<Rightarrow> p),
     mr_defaultLabels = (case defaultLabels of None \<Rightarrow> [] | Some ls \<Rightarrow> ls)\<rparr>"

definition metric_name :: "registry \<Rightarrow> string \<Rightarrow> string" where
  "metric_name r base = mr_prefix r @ ''_'' @ base"

definition mergeLabels :: "registry \<Rightarrow> labels \<Rightarrow> labels" where
  "mergeLabels r ls = foldl (\<lambda>m (k, v). jset m k v) (mr_defaultLabels r) ls"

definition label_key :: "registry \<Rightarrow> labels \<Rightarrow> string" where
  "label_key r ls = labelsToKey (mr_text r) (mergeLabels r ls)"

definition or_zero :: "'a::zero option \<Rightarrow> 'a" where
  "or_zero x = (case x of None \<Rightarrow> 0 | Some y \<Rightarrow> y)"

definition ensureCounter :: "registry \<Rightarrow> string \<Rightarrow> string \<Rightarrow> metric" where
  "ensureCounter r fullName help = (case jget (mr_metrics r) fullName of None \<Rightarrow> Counter help [] [] | Some m \<Rightarrow> m)"

definition ensureHistogram :: "registry \<Rightarrow> string \<Rightarrow> string \<Rightarrow> rat list \<Rightarrow> metric" where
  "ensureHistogram r fullName help buckets =
    (case jget (mr_metrics r) fullName of None \<Rightarrow> Histogram help buckets [] [] [] [] | Some m \<Rightarrow> m)"

text \<open>A name registered as the other kind of metric has no such field: the read of it throws.\<close>

definition addCounter :: "string \<Rightarrow> rat \<Rightarrow> labels \<Rightarrow> string \<Rightarrow> registry \<Rightarrow> string + registry" where
  "addCounter metricName amount ls help r =
    (let fullName = metric_name r metricName; key = label_key r ls
     in case ensureCounter r fullName help of
          Histogram h bs cs ss ts lm \<Rightarrow> Inl ''Cannot read properties of undefined (reading 'get')''
        | Counter h vs lm \<Rightarrow>
            Inr (r\<lparr>mr_metrics := jset (mr_metrics r) fullName
              (Counter h (jset vs key (or_zero (jget vs key) + amount)) (jset lm key (mergeLabels r ls)))\<rparr>))"

definition incrementCounter :: "string \<Rightarrow> labels \<Rightarrow> string \<Rightarrow> registry \<Rightarrow> string + registry" where
  "incrementCounter metricName ls help r = addCounter metricName 1 ls help r"

definition bump_buckets :: "rat \<Rightarrow> rat list \<Rightarrow> nat list \<Rightarrow> nat list" where
  "bump_buckets value buckets counts = map (\<lambda>(b, n). if value \<le> b then n + 1 else n) (zip buckets counts)"

definition DEFAULT_BUCKETS :: "rat list" where
  "DEFAULT_BUCKETS = [50, 100, 250, 500, 1000, 2500, 5000]"

definition observeHistogram ::
  "string \<Rightarrow> rat \<Rightarrow> labels \<Rightarrow> string \<Rightarrow> rat list \<Rightarrow> registry \<Rightarrow> string + registry" where
  "observeHistogram metricName value ls help buckets r =
    (let fullName = metric_name r metricName; key = label_key r ls
     in case ensureHistogram r fullName help buckets of
          Counter h vs lm \<Rightarrow> Inl ''Cannot read properties of undefined (reading 'has')''
        | Histogram h bs cs ss ts lm \<Rightarrow>
            let counts = (case jget cs key of None \<Rightarrow> replicate (length bs) 0 | Some c \<Rightarrow> c)
            in Inr (r\<lparr>mr_metrics := jset (mr_metrics r) fullName
                 (Histogram h bs (jset cs key (bump_buckets value bs counts))
                   (jset ss key (or_zero (jget ss key) + value)) (jset ts key (or_zero (jget ts key) + 1))
                   (jset lm key (mergeLabels r ls)))\<rparr>))"

definition registry_reset :: "registry \<Rightarrow> registry" where
  "registry_reset r = r\<lparr>mr_metrics := []\<rparr>"

section \<open>Text form\<close>

definition labels_of :: "metric \<Rightarrow> string \<Rightarrow> labels" where
  "labels_of m key = (case jget (mt_labels m) key of None \<Rightarrow> [] | Some ls \<Rightarrow> ls)"

definition counter_lines :: "engine_text \<Rightarrow> string \<Rightarrow> metric \<Rightarrow> (string, rat) js_map \<Rightarrow> string list" where
  "counter_lines g name m vs =
    map (\<lambda>(key, value). name @ labelsToString g (labels_of m key) @ '' '' @ tx_number g value) vs"

definition histogram_lines ::
  "engine_text \<Rightarrow> string \<Rightarrow> metric \<Rightarrow> rat list \<Rightarrow> (string, rat) js_map \<Rightarrow> (string, nat) js_map \<Rightarrow> string \<times> nat list \<Rightarrow> string list" where
  "histogram_lines g name m bs ss ts = (\<lambda>(key, counts).
     let ls = labels_of m key; n = or_zero (jget ts key)
     in map (\<lambda>(b, c). name @ ''_bucket'' @ labelsToString g (jset ls ''le'' (tx_number g b)) @ '' '' @ nat_dec c)
          (zip bs counts) @
        [name @ ''_bucket'' @ labelsToString g (jset ls ''le'' ''+Inf'') @ '' '' @ nat_dec n,
         name @ ''_sum'' @ labelsToString g ls @ '' '' @ tx_number g (or_zero (jget ss key)),
         name @ ''_count'' @ labelsToString g ls @ '' '' @ nat_dec n])"

definition metric_lines :: "engine_text \<Rightarrow> string \<times> metric \<Rightarrow> string list" where
  "metric_lines g = (\<lambda>(name, m).
     [''# HELP '' @ name @ '' '' @ mt_help m,
      ''# TYPE '' @ name @ (case m of Counter h vs lm \<Rightarrow> '' counter'' | Histogram h bs cs ss ts lm \<Rightarrow> '' histogram'')] @
     (case m of
        Counter h vs lm \<Rightarrow> counter_lines g name m vs
      | Histogram h bs cs ss ts lm \<Rightarrow> concat (map (histogram_lines g name m bs ss ts) cs)))"

definition registry_collect :: "registry \<Rightarrow> string" where
  "registry_collect r =
    (let lines = concat (map (metric_lines (mr_text r)) (mr_metrics r))
     in if lines \<noteq> [] then join_with [CHR 10] lines @ [CHR 10] else [])"

section \<open>The metrics of the client\<close>

definition recordRestore :: "string \<Rightarrow> registry \<Rightarrow> string + registry" where
  "recordRestore status =
    incrementCounter ''restore_total'' [(''status'', status)] ''Total number of restoration operations''"

definition recordRestoreDuration :: "rat \<Rightarrow> registry \<Rightarrow> string + registry" where
  "recordRestoreDuration durationMs =
    observeHistogram ''restore_duration_ms'' durationMs [] ''Restoration duration in ms'' DEFAULT_BUCKETS"

definition recordKeysRestored :: "rat \<Rightarrow> registry \<Rightarrow> string + registry" where
  "recordKeysRestored n = addCounter ''keys_restored_total'' n [] ''Total number of ledger keys restored''"

definition recordRpcError :: "string \<Rightarrow> registry \<Rightarrow> string + registry" where
  "recordRpcError kind = incrementCounter ''rpc_errors_total'' [(''type'', kind)] ''RPC call errors by type''"

section \<open>Runs and their reference\<close>

datatype metric_op = Add string rat labels string | Observe string rat labels string "rat list"

fun metric_step :: "metric_op \<Rightarrow> registry \<Rightarrow> string + registry" where
  "metric_step (Add n a ls h) r = addCounter n a ls h r"
| "metric_step (Observe n v ls h bs) r = observeHistogram n v ls h bs r"

fun metric_run :: "metric_op list \<Rightarrow> registry \<Rightarrow> string + registry" where
  "metric_run [] r = Inr r"
| "metric_run (p # ps) r = (case metric_step p r of Inl e \<Rightarrow> Inl e | Inr r' \<Rightarrow> metric_run ps r')"

fun op_name :: "metric_op \<Rightarrow> string" where
  "op_name (Add n a ls h) = n" | "op_name (Observe n v ls h bs) = n"

fun op_labels :: "metric_op \<Rightarrow> labels" where
  "op_labels (Add n a ls h) = ls" | "op_labels (Observe n v ls h bs) = ls"

fun op_value :: "metric_op \<Rightarrow> rat" where
  "op_value (Add n a ls h) = a" | "op_value (Observe n v ls h bs) = v"

datatype metric_view = CounterView rat | HistogramView "(rat \<times> nat) list" rat nat

definition metric_view_of :: "registry \<Rightarrow> string \<Rightarrow> string \<Rightarrow> metric_view option" where
  "metric_view_of r base key = (case jget (mr_metrics r) (metric_name r base) of
     None \<Rightarrow> None
   | Some (Counter h vs lm) \<Rightarrow> map_option CounterView (jget vs key)
   | Some (Histogram h bs cs ss ts lm) \<Rightarrow>
       (case jget cs key of None \<Rightarrow> None
        | Some c \<Rightarrow> Some (HistogramView (zip bs c) (or_zero (jget ss key)) (or_zero (jget ts key)))))"

definition at_key :: "registry \<Rightarrow> string \<Rightarrow> string \<Rightarrow> metric_op list \<Rightarrow> metric_op list" where
  "at_key r base key ps = filter (\<lambda>p. op_name p = base \<and> label_key r (op_labels p) = key) ps"

definition reference_view :: "registry \<Rightarrow> string \<Rightarrow> string \<Rightarrow> metric_op list \<Rightarrow> metric_view option" where
  "reference_view r base key ps =
    (let own = at_key r base key ps
     in if own = [] then None
        else (case hd (filter (\<lambda>p. op_name p = base) ps) of
            Add n a ls h \<Rightarrow> Some (CounterView (sum_list (map op_value own)))
          | Observe n v ls h bs \<Rightarrow>
              Some (HistogramView (map (\<lambda>b. (b, length (filter (\<lambda>p. op_value p \<le> b) own))) bs)
                (sum_list (map op_value own)) (length own))))"

section \<open>Lemmas\<close>

definition same_setting :: "registry \<Rightarrow> registry \<Rightarrow> bool" where
  "same_setting r t \<longleftrightarrow> mr_text t = mr_text r \<and> mr_prefix t = mr_prefix r \<and> mr_defaultLabels t = mr_defaultLabels r"

lemma setting_facts:
  assumes "same_setting r t"
  shows "metric_name t b = metric_name r b" "label_key t ls = label_key r ls" "at_key t b k ps = at_key r b k ps"
proof -
  show l: "label_key t ls = label_key r ls" for ls
    using assms by (simp add: same_setting_def label_key_def mergeLabels_def)
  show "metric_name t b = metric_name r b" using assms by (simp add: same_setting_def metric_name_def)
  show "at_key t b k ps = at_key r b k ps" by (simp add: at_key_def l)
qed

lemma step_setting: "metric_step p r = Inr t \<Longrightarrow> same_setting r t"
  by (cases p) (auto simp: same_setting_def addCounter_def observeHistogram_def Let_def split: metric.splits)

lemma run_setting: "metric_run ps r = Inr t \<Longrightarrow> same_setting r t"
proof (induction ps arbitrary: r)
  case Nil
  then show ?case by (simp add: same_setting_def)
next
  case (Cons p ps)
  then obtain u where "metric_step p r = Inr u" "metric_run ps u = Inr t" by (auto split: sum.splits)
  then show ?case using step_setting [of p r u] Cons.IH [of u] by (simp add: same_setting_def)
qed

lemma run_snoc: "metric_run (ps @ [p]) r = Inr t \<longleftrightarrow> (\<exists>u. metric_run ps r = Inr u \<and> metric_step p u = Inr t)"
  by (induction ps arbitrary: r) (auto split: sum.splits)

text \<open>A slot of the registry tracks the operations on its name, \<open>own key\<close> those with the labels \<open>key\<close>.\<close>

definition summed :: "metric_op list \<Rightarrow> rat option" where
  "summed own = (if own = [] then None else Some (sum_list (map op_value own)))"

definition below :: "rat list \<Rightarrow> metric_op list \<Rightarrow> nat list" where
  "below bs own = map (\<lambda>b. length (filter (\<lambda>p. op_value p \<le> b) own)) bs"

fun is_add :: "metric_op \<Rightarrow> bool" where
  "is_add (Add n a ls h) = True" | "is_add (Observe n v ls h bs) = False"

fun buckets_of :: "metric_op \<Rightarrow> rat list" where
  "buckets_of (Add n a ls h) = []" | "buckets_of (Observe n v ls h bs) = bs"

definition slot_ok :: "metric_op list \<Rightarrow> (string \<Rightarrow> metric_op list) \<Rightarrow> metric option \<Rightarrow> bool" where
  "slot_ok ops own m = (case m of
     None \<Rightarrow> ops = []
   | Some (Counter h vs lm) \<Rightarrow> ops \<noteq> [] \<and> is_add (hd ops) \<and> (\<forall>k. jget vs k = summed (own k))
   | Some (Histogram h bs cs ss ts lm) \<Rightarrow> ops \<noteq> [] \<and> \<not> is_add (hd ops) \<and> buckets_of (hd ops) = bs \<and>
       (\<forall>k. jget cs k = (if own k = [] then None else Some (below bs (own k))) \<and> jget ss k = summed (own k) \<and>
            jget ts k = (if own k = [] then None else Some (length (own k)))))"

definition tracks :: "registry \<Rightarrow> metric_op list \<Rightarrow> bool" where
  "tracks r ps \<longleftrightarrow> (\<forall>b. slot_ok (filter (\<lambda>p. op_name p = b) ps) (\<lambda>k. at_key r b k ps) (jget (mr_metrics r) (metric_name r b)))"

lemma jget_single [simp]: "jget [(a, x)] k = (if k = a then Some x else None)"
  by (simp add: jget_def)

lemma slot_empty: "slot_ok [] own m \<Longrightarrow> m = None"
  by (auto simp: slot_ok_def split: option.splits metric.splits)

lemma bump_below: "bump_buckets (op_value p) bs (below bs own) = below bs (own @ [p])"
  by (simp add: bump_buckets_def below_def zip_map2 zip_same_conv_map comp_def)

lemma below_Nil: "below bs [] = replicate (length bs) 0"
  by (simp add: below_def map_replicate_const)

lemma summed_snoc: "summed (own @ [p]) = Some (or_zero (summed own) + op_value p)"
  by (simp add: summed_def or_zero_def)

lemma summed_one: "summed [] = None" "summed [p] = Some (op_value p)"
  by (simp_all add: summed_def)

lemma at_key_snoc: "at_key r b k (ps @ [p]) =
    at_key r b k ps @ (if op_name p = b \<and> label_key r (op_labels p) = k then [p] else [])"
  by (simp add: at_key_def)

lemma at_key_none: "filter (\<lambda>p. op_name p = b) ps = [] \<Longrightarrow> at_key r b k ps = []"
  by (auto simp: at_key_def filter_empty_conv)

lemma slot_add:
  assumes "tracks r ps" and "addCounter n a ls h r = Inr t"
  shows "slot_ok (filter (\<lambda>p. op_name p = n) (ps @ [Add n a ls h])) (\<lambda>k. at_key r n k (ps @ [Add n a ls h]))
    (jget (mr_metrics t) (metric_name r n))"
proof -
  note old = assms(1) [unfolded tracks_def, rule_format, of n]
  show ?thesis
  proof (cases "jget (mr_metrics r) (metric_name r n)")
    case None
    then have none: "filter (\<lambda>p. op_name p = n) ps = []" using old by (simp add: slot_ok_def)
    then show ?thesis using assms(2) None
      by (auto simp: slot_ok_def addCounter_def ensureCounter_def Let_def jsmap at_key_snoc at_key_none summed_def or_zero_def)
  next
    case (Some m)
    then show ?thesis using assms(2) old
      by (cases m) (auto simp: slot_ok_def addCounter_def ensureCounter_def Let_def jsmap at_key_snoc summed_snoc)
  qed
qed

lemma slot_observe:
  assumes "tracks r ps" and "observeHistogram n v ls h bs r = Inr t"
  shows "slot_ok (filter (\<lambda>p. op_name p = n) (ps @ [Observe n v ls h bs])) (\<lambda>k. at_key r n k (ps @ [Observe n v ls h bs]))
    (jget (mr_metrics t) (metric_name r n))"
proof -
  note old = assms(1) [unfolded tracks_def, rule_format, of n]
  have bump: "bump_buckets v xs (below xs own) = below xs (own @ [Observe n v ls h bs])" for xs own
    using bump_below [of "Observe n v ls h bs"] by simp
  show ?thesis
  proof (cases "jget (mr_metrics r) (metric_name r n)")
    case None
    then have none: "filter (\<lambda>p. op_name p = n) ps = []" using old by (simp add: slot_ok_def)
    then show ?thesis using assms(2) None bump [of bs "[]"]
      by (auto simp: slot_ok_def observeHistogram_def ensureHistogram_def Let_def jsmap at_key_snoc at_key_none summed_def
          or_zero_def below_Nil)
  next
    case (Some m)
    then show ?thesis using assms(2) old bump [of _ "[]"]
      by (cases m) (auto simp: slot_ok_def observeHistogram_def ensureHistogram_def Let_def jsmap at_key_snoc summed_snoc
          bump below_Nil or_zero_def summed_one)
  qed
qed

lemma tracks_step:
  assumes "tracks r ps" and "metric_step p r = Inr t"
  shows "tracks t (ps @ [p])"
proof -
  note set = setting_facts [OF step_setting [OF assms(2)]]
  have own: "slot_ok (filter (\<lambda>q. op_name q = op_name p) (ps @ [p])) (\<lambda>k. at_key r (op_name p) k (ps @ [p]))
      (jget (mr_metrics t) (metric_name r (op_name p)))"
    using assms slot_add slot_observe by (cases p) auto
  have other: "jget (mr_metrics t) (metric_name r b) = jget (mr_metrics r) (metric_name r b)" if "b \<noteq> op_name p" for b
    using assms(2) that
    by (cases p) (auto simp: addCounter_def observeHistogram_def Let_def jsmap metric_name_def split: metric.splits)
  show ?thesis unfolding tracks_def
  proof
    fix b
    show "slot_ok (filter (\<lambda>q. op_name q = b) (ps @ [p])) (\<lambda>k. at_key t b k (ps @ [p])) (jget (mr_metrics t) (metric_name t b))"
    proof (cases "b = op_name p")
      case True
      then show ?thesis using own by (simp only: set)
    next
      case False
      then show ?thesis using assms(1) by (simp add: set other at_key_snoc tracks_def)
    qed
  qed
qed

lemma tracks_run: "metric_run ps (registry_new g prefix ls) = Inr t \<Longrightarrow> tracks t ps"
proof (induction ps arbitrary: t rule: rev_induct)
  case Nil
  then show ?case by (auto simp: tracks_def slot_ok_def registry_new_def)
next
  case (snoc p ps)
  then show ?case by (auto simp: run_snoc intro: tracks_step)
qed

section \<open>Properties\<close>

text \<open>
  C25: after any operations on a new registry what it holds for a name and a label set is what a recount of these
  operations gives: the sum of the amounts of a counter; for a histogram, with the buckets of the first
  observation under its name, the number of observations not above each bound, their sum and their number.
\<close>

theorem metrics_recount:
  assumes "metric_run ps (registry_new g prefix ls) = Inr r"
  shows "metric_view_of r base key = reference_view r base key ps"
proof -
  let ?ops = "filter (\<lambda>p. op_name p = base) ps" and ?own = "at_key r base key ps"
  have slot: "slot_ok ?ops (\<lambda>k. at_key r base k ps) (jget (mr_metrics r) (metric_name r base))"
    using tracks_run [OF assms] by (simp add: tracks_def)
  show ?thesis
  proof (cases "jget (mr_metrics r) (metric_name r base)")
    case None
    then show ?thesis using slot
      by (simp add: metric_view_of_def reference_view_def slot_ok_def at_key_none)
  next
    case (Some m)
    then show ?thesis using slot
      by (cases m; cases "hd ?ops")
        (auto simp: metric_view_of_def reference_view_def Let_def slot_ok_def summed_def below_def or_zero_def zip_map2
          zip_same_conv_map comp_def)
  qed
qed

definition plain_text :: engine_text where
  "plain_text = \<lparr>tx_le = (\<lambda>a b. True), tx_number = (\<lambda>x. [])\<rparr>"

theorem metrics_recount_witness:
  "\<exists>r. metric_run [Observe ''d'' 70 [] [] [50, 100], Observe ''d'' 40 [] [] []] (registry_new plain_text None None) = Inr r \<and>
     metric_view_of r ''d'' [] = Some (HistogramView [(50, 1), (100, 2)] 110 2)"
proof -
  obtain r where r: "metric_run [Observe ''d'' 70 [] [] [50, 100], Observe ''d'' 40 [] [] []] (registry_new plain_text None None) = Inr r"
      "label_key r [] = []"
    by (simp add: observeHistogram_def registry_new_def metric_name_def label_key_def labelsToKey_def label_parts_def
        mergeLabels_def sort_by_def ensureHistogram_def Let_def jget_def)
  from metrics_recount [OF r(1), of "''d''" "[]"] r show ?thesis
    by (simp add: reference_view_def at_key_def)
qed

end
