(* ===== verification/ClientAccessors.thy ===== *)
theory ClientAccessors
  imports FootprintCache Monitoring SdkFlow Metrics Failover SimCache Values
begin

text \<open>
  What both clients offer beside restoration (\<open>packages/core/src/soroban-resurrect.ts\<close> and
  \<open>packages/sdk/src/soroban-resurrect.ts\<close>): the footprint accessors of \<open>core\<close>, the statistics of the caches, and the recording
  of the outcome of a restoration with its
  alert and its anonymous report. \<open>JSON.stringify\<close> and the digest are arguments.
\<close>

section \<open>Footprints in the core client\<close>

text \<open>The client of \<open>core\<close> has no deduplicator: its state is the cache alone.\<close>

definition core_extractFootprintCached ::
  "'c lru \<Rightarrow> (string \<Rightarrow> string) \<Rightarrow> (string \<Rightarrow> footprint_keys option) \<Rightarrow> string \<Rightarrow> 'c footprint_cache option \<Rightarrow>
   footprint_keys option \<times> 'c footprint_cache option" where
  "core_extractFootprintCached m hashXDR extract txXDR cache = (case cache of
     None \<Rightarrow> (extract txXDR, None)
   | Some c \<Rightarrow> (case fc_get m hashXDR txXDR c of
       (Some cached, c') \<Rightarrow> (cached, Some c')
     | (None, c') \<Rightarrow> (let result = extract txXDR in (result, Some (fc_set m hashXDR txXDR result None c')))))"

definition core_onLedgerClose :: "'c lru \<Rightarrow> 'c footprint_cache option \<Rightarrow> 'c footprint_cache option" where
  "core_onLedgerClose m cache = map_option (fc_invalidateAll m) cache"

definition core_invalidateFootprintCache ::
  "'c lru \<Rightarrow> (string \<Rightarrow> string) \<Rightarrow> string option \<Rightarrow> 'c footprint_cache option \<Rightarrow> 'c footprint_cache option" where
  "core_invalidateFootprintCache m hashXDR txXDR cache = (case cache of
     None \<Rightarrow> None
   | Some c \<Rightarrow> Some (if truthy_str txXDR then fc_invalidate m hashXDR (the txXDR) c else fc_invalidateAll m c))"

definition core_getFootprintCacheStats :: "'c lru \<Rightarrow> 'c footprint_cache option \<Rightarrow> footprint_statistics option" where
  "core_getFootprintCacheStats m cache = map_option (fc_getStatistics m) cache"

text \<open>Reading the statistics of the simulation cache drops its expired entries.\<close>

definition core_getSimulationCacheStats :: "real \<Rightarrow> 'r sim_cache option \<Rightarrow> cache_statistics option \<times> 'r sim_cache option" where
  "core_getSimulationCacheStats now cache = (case cache of
     None \<Rightarrow> (None, None)
   | Some c \<Rightarrow> (case sc_getStatistics c now of (st, d) \<Rightarrow> (Some st, Some d)))"

definition core_destroy :: "failover \<Rightarrow> failover" where
  "core_destroy m = fo_destroy m"

section \<open>Measurements of the sdk client\<close>

definition sdk_getFootprintCacheStats :: "'c lru \<Rightarrow> 'c footprint_client \<Rightarrow> footprint_statistics option" where
  "sdk_getFootprintCacheStats m s = map_option (fc_getStatistics m) (fp_cache s)"

definition collectMetrics :: "registry option \<Rightarrow> string" where
  "collectMetrics metrics = (case metrics of None \<Rightarrow> [] | Some r \<Rightarrow> registry_collect r)"

record client_metrics =
  cm_simulationCache :: "cache_statistics option"
  cm_ledgerReadCoalescing :: "read_stats \<times> nat"

definition client_getMetrics :: "real \<Rightarrow> 'r sim_cache option \<Rightarrow> ('k, 'e) coalescer \<Rightarrow> client_metrics \<times> 'r sim_cache option" where
  "client_getMetrics now cache reads = (case cache of
     None \<Rightarrow> (\<lparr>cm_simulationCache = None, cm_ledgerReadCoalescing = coalescing_statistics reads\<rparr>, None)
   | Some c \<Rightarrow> (case sc_getStatistics c now of (st, d) \<Rightarrow>
       (\<lparr>cm_simulationCache = Some st, cm_ledgerReadCoalescing = coalescing_statistics reads\<rparr>, Some d)))"

section \<open>The outcome of a restoration\<close>

text \<open>The contract ids of the keys, each once and in the order of first occurrence; \<open>null\<close> and empty ones are dropped.\<close>

definition reported_ids :: "sdk_key list \<Rightarrow> string list" where
  "reported_ids keys = rev (remdups (rev (filter (\<lambda>i. i \<noteq> []) (List.map_filter kx_contractId keys))))"

definition usage_payload :: "(string \<Rightarrow> string) \<Rightarrow> string \<Rightarrow> int \<Rightarrow> bool \<Rightarrow> sdk_key list \<Rightarrow> nat list \<Rightarrow> json" where
  "usage_payload sha256 version now success keys batchSizes = JObj [
     (''contractIdHashes'', JArr (map (\<lambda>i. JStr (sha256 i)) (reported_ids keys))),
     (''keyCount'', JNum (js_int (int (length keys)))),
     (''batchSizes'', JArr (map (\<lambda>n. JNum (js_int (int n))) batchSizes)),
     (''outcome'', JStr (if success then ''success'' else ''failure'')),
     (''sdkVersion'', JStr version),
     (''timestamp'', JNum (js_int now))]"

record outcome_sinks =
  os_alerts :: "alert_manager option"
  os_telemetry :: "telemetry_config option"
  os_fetch :: "(string \<Rightarrow> string \<Rightarrow> string + unit) option"

definition record_outcome ::
  "sdk_env \<Rightarrow> (string \<Rightarrow> string) \<Rightarrow> json_codec \<Rightarrow> string \<Rightarrow> bool \<Rightarrow> rat \<Rightarrow> sdk_key list \<Rightarrow> nat list \<Rightarrow> outcome_sinks \<Rightarrow> sdk_engine \<Rightarrow>
   alert list \<times> report_effect list \<times> outcome_sinks \<times> sdk_engine" where
  "record_outcome v sha256 codec version success latencyMs keys batchSizes k s =
    (let now = u_now v (sd_calls s);
         (alerts, k') = (case os_alerts k of
            None \<Rightarrow> ([], k)
          | Some am \<Rightarrow> (case alert_recordRestore now success latencyMs am of (as, am') \<Rightarrow> (as, k\<lparr>os_alerts := Some am'\<rparr>)));
         posted = (case os_telemetry k of
            None \<Rightarrow> []
          | Some c \<Rightarrow> reporter_report c (os_fetch k) (jc_stringify codec (Some (usage_payload sha256 version now success keys batchSizes))))
     in (alerts, posted, k', recordRestoreOutcome v success s))"

section \<open>Properties\<close>

text \<open>The accessors of \<open>core\<close> are those of the \<open>sdk\<close> client without its deduplicator and ledger numbers.\<close>

lemma core_footprints_agree:
  "core_extractFootprintCached m h x tx (fp_cache s) = (case extractFootprintCached m h x tx s of (r, t) \<Rightarrow> (r, fp_cache t))"
  "core_onLedgerClose m (fp_cache s) = fp_cache (client_onLedgerClose m None s)"
  "core_invalidateFootprintCache m h t (fp_cache s) = fp_cache (invalidateFootprintCache m h t s)"
  by (auto simp: core_extractFootprintCached_def extractFootprintCached_def core_onLedgerClose_def client_onLedgerClose_def
      core_invalidateFootprintCache_def invalidateFootprintCache_def Let_def split: option.split prod.split)

text \<open>Asking for measurements changes no answer of the cache: only entries that are expired at this moment go.\<close>

lemma statistics_keep_live:
  assumes "jwf (sc_cache c)" and "core_getSimulationCacheStats now (Some c) = (st, Some d)"
  shows "jget (sc_cache d) key = (case jget (sc_cache c) key of
    None \<Rightarrow> None | Some e \<Rightarrow> if now > ce_expiresAt e then None else Some e)"
proof -
  have "sc_cache d = filter (\<lambda>(k, e). \<not> now > ce_expiresAt e) (sc_cache c)"
    using assms(2) by (auto simp: core_getSimulationCacheStats_def sc_getStatistics_def Let_def sc_clearExpired_def)
  then show ?thesis using jget_filter [OF assms(1), of "\<lambda>k e. \<not> now > ce_expiresAt e"] by (simp split: option.split)
qed

text \<open>
  What is recorded: the two fields the health report shows, one sample in the alert window, and, where reporting is on
  and a \<open>fetch\<close> is there, one post. The post depends on the keys by their number and the digests of their contracts
  alone; no contract is named twice.
\<close>

lemma reported_ids_distinct: "distinct (reported_ids keys)" "set (reported_ids keys) = {i. i \<noteq> [] \<and> Some i \<in> kx_contractId ` set keys}"
proof -
  show "distinct (reported_ids keys)" by (simp add: reported_ids_def)
  show "set (reported_ids keys) = {i. i \<noteq> [] \<and> Some i \<in> kx_contractId ` set keys}"
    by (auto simp: reported_ids_def List.map_filter_def image_iff) (metis option.sel option.distinct(1))+
qed

theorem outcome_recorded:
  assumes "record_outcome v sha codec version ok ms keys sizes k s = (alerts, posted, k', t)"
  shows "sd_lastRestoreSuccess t = ok \<and> sd_lastRestoreTimestamp t = Some (u_now v (sd_calls s)) \<and>
    sd_calls t = sd_calls s \<and> length (filter (\<lambda>e. case e of Posted u b \<Rightarrow> True | Reported m \<Rightarrow> False) posted) \<le> 1 \<and>
    (os_telemetry k = None \<longrightarrow> posted = []) \<and>
    (length keys = length keys' \<and> map sha (reported_ids keys) = map sha (reported_ids keys') \<longrightarrow>
      fst (snd (record_outcome v sha codec version ok ms keys' sizes k s)) = posted)"
proof -
  have payload: "usage_payload sha version n ok keys' sizes = usage_payload sha version n ok keys sizes"
    if "length keys = length keys'" "map sha (reported_ids keys) = map sha (reported_ids keys')" for n
    using that by (simp add: usage_payload_def) (metis (no_types, lifting) list.map_comp o_def map_eq_conv)
  define body where "body ks = jc_stringify codec (Some (usage_payload sha version (u_now v (sd_calls s)) ok ks sizes))" for ks
  have same: "length keys = length keys' \<and> map sha (reported_ids keys) = map sha (reported_ids keys') \<Longrightarrow>
      body keys' = body keys" using payload by (simp add: body_def)
  define sent where "sent ks = (case os_telemetry k of None \<Rightarrow> [] | Some c \<Rightarrow> reporter_report c (os_fetch k) (body ks))" for ks
  have outcome: "fst (snd (record_outcome v sha codec version ok ms ks sizes k s)) = sent ks"
      "snd (snd (snd (record_outcome v sha codec version ok ms ks sizes k s))) = recordRestoreOutcome v ok s" for ks
    unfolding record_outcome_def sent_def body_def Let_def by (simp_all split: prod.split)
  have posted: "posted = sent keys" and t: "t = recordRestoreOutcome v ok s"
    using outcome [of keys] assms by simp_all
  have "length (filter (\<lambda>e. case e of Posted u b \<Rightarrow> True | Reported m \<Rightarrow> False) (reporter_report c f b)) \<le> 1" for c f b
    by (cases f) (simp_all add: reporter_report_def split: sum.split)
  then have "length (filter (\<lambda>e. case e of Posted u b \<Rightarrow> True | Reported m \<Rightarrow> False) (sent keys)) \<le> 1"
    by (simp add: sent_def split: option.split)
  moreover have "os_telemetry k = None \<longrightarrow> sent keys = []" by (simp add: sent_def)
  moreover have "sent keys' = sent keys"
    if "length keys = length keys' \<and> map sha (reported_ids keys) = map sha (reported_ids keys')"
    using same [OF that] by (simp only: sent_def)
  ultimately show ?thesis by (auto simp: posted t outcome recordRestoreOutcome_def)
qed

end
