(* ===== verification/AuthEntries.thy ===== *)
theory AuthEntries
  imports Footprint Values
begin

text \<open>
  Restoration of authorization entries (\<open>packages/sdk/src/auth-entry-restoration.ts\<close>): the ledger keys an
  invocation tree needs, the entries whose keys are archived, the keys to restore for them, and the search for
  expired signers. The XDR accessors are the constructors; \<open>enc\<close> is the base64 encoder of ledger keys.
\<close>

section \<open>Keys of an entry\<close>

datatype authorized_function = ContractFn string | CreateContractFn

datatype invocation = Invocation authorized_function "invocation list"

text \<open>
  Credentials: the name of their union switch (\<open>None\<close> where reading it throws), and the hash of a signed
  transaction in hexadecimal for the member \<open>signedTx\<close>: absent, without hash, or throwing.
\<close>

datatype signed_tx = SignedTxThrows | NoSignedTx | SignedTxNoHash | SignedTxHash string

record auth_credentials =
  cd_xdrFails :: bool
  cd_switch :: "string option"
  cd_signedTx :: signed_tx

record auth_entry =
  au_rootInvocation :: invocation
  au_credentials :: "auth_credentials option"

definition instance_key_of :: "string \<Rightarrow> ledger_key" where
  "instance_key_of c = ContractData (Some c) ScLedgerKeyContractInstance"

fun walk :: "invocation \<Rightarrow> ledger_key list" where
  "walk (Invocation fn subs) =
    (case fn of ContractFn c \<Rightarrow> [instance_key_of c] | CreateContractFn \<Rightarrow> []) @ concat (map walk subs)"

definition extractAuthEntryKeys :: "auth_entry \<Rightarrow> ledger_key list" where
  "extractAuthEntryKeys e = walk (au_rootInvocation e)"

section \<open>The scan\<close>

record auth_scan =
  sn_valid :: "(auth_entry \<times> ledger_key list) list"
  sn_expired :: "(auth_entry \<times> ledger_key list) list"

definition expired_keys :: "(ledger_key \<Rightarrow> string) \<Rightarrow> string set \<Rightarrow> auth_entry \<Rightarrow> ledger_key list" where
  "expired_keys enc archived e = filter (\<lambda>k. enc k \<in> archived) (extractAuthEntryKeys e)"

fun scan_entries :: "(ledger_key \<Rightarrow> string) \<Rightarrow> string set \<Rightarrow> auth_entry list \<Rightarrow> auth_scan \<Rightarrow> auth_scan" where
  "scan_entries enc archived [] r = r"
| "scan_entries enc archived (e # es) r =
    (let expiredKeys = expired_keys enc archived e
     in scan_entries enc archived es
          (if expiredKeys \<noteq> [] then r\<lparr>sn_expired := sn_expired r @ [(e, expiredKeys)]\<rparr>
           else r\<lparr>sn_valid := sn_valid r @ [(e, extractAuthEntryKeys e)]\<rparr>))"

definition detectExpiredAuthEntries :: "(ledger_key \<Rightarrow> string) \<Rightarrow> auth_entry list \<Rightarrow> ledger_key list \<Rightarrow> auth_scan" where
  "detectExpiredAuthEntries enc entries archivedKeys =
    scan_entries enc (enc ` set archivedKeys) entries \<lparr>sn_valid = [], sn_expired = []\<rparr>"

fun collect_keys :: "(ledger_key \<Rightarrow> string) \<Rightarrow> string list \<Rightarrow> ledger_key list \<Rightarrow> ledger_key list" where
  "collect_keys enc seen [] = []"
| "collect_keys enc seen (k # ks) =
    (if List.member seen (enc k) then collect_keys enc seen ks else k # collect_keys enc (enc k # seen) ks)"

definition keysToRestoreForAuthEntries :: "(ledger_key \<Rightarrow> string) \<Rightarrow> auth_scan \<Rightarrow> ledger_key list" where
  "keysToRestoreForAuthEntries enc scan = collect_keys enc [] (concat (map snd (sn_expired scan)))"

section \<open>Signers\<close>

definition extractSignerKeyFromCredentials :: "auth_credentials \<Rightarrow> string option" where
  "extractSignerKeyFromCredentials c =
    (if cd_switch c = Some ''sorobanCredentialsTypeSorobanSignedTxn''
     then (case cd_signedTx c of
         SignedTxThrows \<Rightarrow> None
       | NoSignedTx \<Rightarrow> None
       | SignedTxNoHash \<Rightarrow> Some ''unknown_signer''
       | SignedTxHash h \<Rightarrow> Some (take 16 h))
     else None)"

definition isSignerExpired :: "string \<Rightarrow> string list \<Rightarrow> bool" where
  "isSignerExpired signerKey archivedKeySet = list_ex (\<lambda>x. js_includes x signerKey) archivedKeySet"

definition expired_signer :: "string list \<Rightarrow> auth_entry \<Rightarrow> string option" where
  "expired_signer archived e = (case au_credentials e of
     None \<Rightarrow> None
   | Some c \<Rightarrow>
       if cd_xdrFails c then None
       else (case extractSignerKeyFromCredentials c of
           None \<Rightarrow> None
         | Some signerKey \<Rightarrow> if signerKey \<noteq> [] \<and> isSignerExpired signerKey archived then Some signerKey else None))"

definition expired_signers :: "string list \<Rightarrow> auth_entry list \<Rightarrow> (string \<times> nat) list" where
  "expired_signers archived entries =
    List.map_filter (\<lambda>(e, i). case expired_signer archived e of None \<Rightarrow> None | Some k \<Rightarrow> Some (k, i))
      (zip entries [0..<length entries])"

record signer_error =
  si_message :: string
  si_expiredSigners :: "(string \<times> nat) list"

definition detectExpiredSignersInAuthEntries ::
  "(ledger_key \<Rightarrow> string) \<Rightarrow> auth_entry list \<Rightarrow> ledger_key list \<Rightarrow> signer_error + unit" where
  "detectExpiredSignersInAuthEntries enc entries archivedKeys =
    (let expiredSigners = expired_signers (remdups (map enc archivedKeys)) entries
     in if expiredSigners \<noteq> []
        then Inl \<lparr>si_message = ''Cannot restore transaction: auth entry references expired signer(s): '' @
               join_with '', '' (map (\<lambda>(k, i). k @ '' (entry '' @ nat_dec i @ '')'') expiredSigners) @
               ''. Restore the signer's ledger key before retrying.'',
             si_expiredSigners = expiredSigners\<rparr>
        else Inr ())"

section \<open>Lemmas\<close>

text \<open>The contracts a call tree invokes, at any depth.\<close>

inductive invokes :: "invocation \<Rightarrow> string \<Rightarrow> bool" where
  Here: "invokes (Invocation (ContractFn c) subs) c"
| Below: "sub \<in> set subs \<Longrightarrow> invokes sub c \<Longrightarrow> invokes (Invocation fn subs) c"

inductive_simps invokes_iff: "invokes (Invocation fn subs) c"

lemma walk_invokes: "set (walk i) = instance_key_of ` {c. invokes i c}"
proof (induction i)
  case (Invocation fn subs)
  then have "(\<Union>sub \<in> set subs. set (walk sub)) = instance_key_of ` {c. \<exists>sub \<in> set subs. invokes sub c}" by auto
  then show ?case by (cases fn) (auto simp: invokes_iff)
qed

lemma scan_entries_eq:
  "scan_entries enc arch es r =
    \<lparr>sn_valid = sn_valid r @ map (\<lambda>e. (e, extractAuthEntryKeys e)) (filter (\<lambda>e. expired_keys enc arch e = []) es),
     sn_expired = sn_expired r @ map (\<lambda>e. (e, expired_keys enc arch e)) (filter (\<lambda>e. expired_keys enc arch e \<noteq> []) es)\<rparr>"
  by (induction es arbitrary: r) (simp_all add: Let_def)

lemma collect_keys_distinct: "distinct (map enc (collect_keys enc seen ks)) \<and> set seen \<inter> set (map enc (collect_keys enc seen ks)) = {}"
  by (induction ks arbitrary: seen) (auto simp: disjoint_iff)

lemma collect_keys_sub: "set (collect_keys enc seen ks) \<subseteq> set ks"
  by (induction ks arbitrary: seen) (auto split: if_splits)

lemma collect_keys_codes: "enc ` set (collect_keys enc seen ks) = enc ` set ks - set seen"
  by (induction ks arbitrary: seen) auto

lemma expired_keys_exact:
  assumes "inj_on enc (instance_key_of ` {c. invokes (au_rootInvocation e) c} \<union> set archived)"
  shows "set (expired_keys enc (enc ` set archived) e) = instance_key_of ` {c. invokes (au_rootInvocation e) c} \<inter> set archived"
  using assms by (auto simp: expired_keys_def extractAuthEntryKeys_def walk_invokes dest: inj_onD)

section \<open>Properties\<close>

definition needs :: "auth_entry list \<Rightarrow> string set" where
  "needs entries = (\<Union>e \<in> set entries. {c. invokes (au_rootInvocation e) c})"

text \<open>
  C24: an authorization entry is reported as expired exactly when its call tree invokes, at some depth, a contract
  whose instance is archived; every entry is reported once, in order, and the keys to restore are exactly the
  archived instances of the contracts the entries invoke, without repetition.
\<close>

theorem auth_scan_exact:
  assumes "inj_on enc (instance_key_of ` needs entries \<union> set archived)"
  shows "map fst (sn_expired (detectExpiredAuthEntries enc entries archived)) =
      filter (\<lambda>e. \<exists>c. invokes (au_rootInvocation e) c \<and> instance_key_of c \<in> set archived) entries \<and>
    map fst (sn_valid (detectExpiredAuthEntries enc entries archived)) =
      filter (\<lambda>e. \<not> (\<exists>c. invokes (au_rootInvocation e) c \<and> instance_key_of c \<in> set archived)) entries \<and>
    set (keysToRestoreForAuthEntries enc (detectExpiredAuthEntries enc entries archived)) =
      instance_key_of ` needs entries \<inter> set archived \<and>
    distinct (keysToRestoreForAuthEntries enc (detectExpiredAuthEntries enc entries archived))"
proof -
  let ?A = "enc ` set archived"
  let ?needs = "\<lambda>e. \<exists>c. invokes (au_rootInvocation e) c \<and> instance_key_of c \<in> set archived"
  have keys: "set (expired_keys enc ?A e) = instance_key_of ` {c. invokes (au_rootInvocation e) c} \<inter> set archived"
    if "e \<in> set entries" for e
    by (rule expired_keys_exact [OF inj_on_subset [OF assms]]) (use that in \<open>auto simp: needs_def\<close>)
  have expired: "expired_keys enc ?A e \<noteq> [] \<longleftrightarrow> ?needs e" if "e \<in> set entries" for e
    using keys [OF that] by (auto simp flip: set_empty)
  have sel: "filter (\<lambda>e. expired_keys enc ?A e \<noteq> []) entries = filter ?needs entries"
      "filter (\<lambda>e. expired_keys enc ?A e = []) entries = filter (\<lambda>e. \<not> ?needs e) entries"
    using expired by (auto intro!: filter_cong)
  note scan = scan_entries_eq [of enc ?A entries "\<lparr>sn_valid = [], sn_expired = []\<rparr>"]
  let ?ks = "concat (map snd (sn_expired (detectExpiredAuthEntries enc entries archived)))"
  have "set ?ks = (\<Union>e \<in> set entries. set (expired_keys enc ?A e))"
    by (auto simp: detectExpiredAuthEntries_def scan)
  also have "\<dots> = instance_key_of ` needs entries \<inter> set archived" by (auto simp: keys needs_def)
  finally have all: "set ?ks = instance_key_of ` needs entries \<inter> set archived" .
  have "enc ` set (collect_keys enc [] ?ks) = enc ` set ?ks" by (simp add: collect_keys_codes)
  moreover have "set (collect_keys enc [] ?ks) \<subseteq> set ?ks" by (rule collect_keys_sub)
  moreover have "inj_on enc (set ?ks)" by (rule inj_on_subset [OF assms]) (use all in blast)
  ultimately have "set (collect_keys enc [] ?ks) = set ?ks" by (metis inj_on_image_eq_iff order_refl)
  moreover have "distinct (collect_keys enc [] ?ks)" using collect_keys_distinct [of enc "[]" ?ks] by (simp add: distinct_map)
  ultimately show ?thesis
    using all sel by (simp add: keysToRestoreForAuthEntries_def detectExpiredAuthEntries_def scan comp_def)
qed

definition sample_entry :: auth_entry where
  "sample_entry = \<lparr>au_rootInvocation = Invocation CreateContractFn [Invocation (ContractFn ''c'') []], au_credentials = None\<rparr>"

definition key_text :: "ledger_key \<Rightarrow> string" where
  "key_text k = (case k of ContractData (Some c) ScLedgerKeyContractInstance \<Rightarrow> c | _ \<Rightarrow> [])"

lemma distinct_one: "distinct xs \<Longrightarrow> set xs = {a} \<Longrightarrow> xs = [a]"
  by (cases xs; cases "tl xs") auto

theorem auth_scan_exact_witness:
  "keysToRestoreForAuthEntries key_text (detectExpiredAuthEntries key_text [sample_entry] [instance_key_of ''c'']) =
     [instance_key_of ''c'']"
proof -
  have "needs [sample_entry] = {''c''}" by (auto simp: needs_def sample_entry_def invokes_iff)
  then have inj: "inj_on key_text (instance_key_of ` needs [sample_entry] \<union> set [instance_key_of ''c''])" by simp
  from auth_scan_exact [OF inj] \<open>needs [sample_entry] = {''c''}\<close>
  have "set (keysToRestoreForAuthEntries key_text (detectExpiredAuthEntries key_text [sample_entry] [instance_key_of ''c''])) =
      {instance_key_of ''c''}"
    "distinct (keysToRestoreForAuthEntries key_text (detectExpiredAuthEntries key_text [sample_entry] [instance_key_of ''c'']))"
    by auto
  then show ?thesis by (simp only: distinct_one)
qed

text \<open>The names the XDR union of credentials has.\<close>

definition CREDENTIAL_SWITCHES :: "string list" where
  "CREDENTIAL_SWITCHES = [''sorobanCredentialsSourceAccount'', ''sorobanCredentialsAddress'']"

text \<open>
  The search for expired signers finds none, whatever is archived: the name it compares the credentials with
  is not one of the two their union has.
\<close>

theorem expired_signers_never_found:
  assumes "\<forall>e \<in> set entries. \<forall>c. au_credentials e = Some c \<longrightarrow> (\<exists>n \<in> set CREDENTIAL_SWITCHES. cd_switch c = Some n)"
  shows "detectExpiredSignersInAuthEntries enc entries archived = Inr ()"
proof -
  have "expired_signer arch e = None" if "e \<in> set entries" for arch e
    using assms that
    by (auto simp: expired_signer_def extractSignerKeyFromCredentials_def CREDENTIAL_SWITCHES_def split: option.splits)
  then have "expired_signers (remdups (map enc archived)) entries = []"
    by (auto simp: expired_signers_def List.map_filter_def filter_empty_conv dest!: set_zip_leftD split: option.splits)
  then show ?thesis by (simp add: detectExpiredSignersInAuthEntries_def)
qed

definition address_entry :: auth_entry where
  "address_entry = sample_entry\<lparr>au_credentials := Some \<lparr>cd_xdrFails = False,
     cd_switch = Some ''sorobanCredentialsAddress'', cd_signedTx = NoSignedTx\<rparr>\<rparr>"

theorem expired_signers_never_found_witness:
  "detectExpiredSignersInAuthEntries key_text [address_entry] [instance_key_of ''c''] = Inr ()"
  by (rule expired_signers_never_found) (simp add: address_entry_def CREDENTIAL_SWITCHES_def)

end
