(* ===== verification/Tracing.thy ===== *)
theory Tracing
  imports Values
begin

text \<open>
  Trace contexts and spans (\<open>packages/sdk/src/tracing.ts\<close>). Random digits, clock readings and the numbers of a
  header object are arguments; exporters are the calls in \<open>tr_exported\<close>. An exporter that throws is left out.
\<close>

section \<open>Trace contexts\<close>

record trace_context =
  tx_traceId :: string
  tx_spanId :: string
  tx_traceFlags :: string
  tx_traceState :: "string option"

definition SUPPORTED_VERSION :: string where
  "SUPPORTED_VERSION = ''00''"

definition is_hex :: "char \<Rightarrow> bool" where
  "is_hex c = (is_digit c \<or> (97 \<le> (of_char c :: nat) \<and> (of_char c :: nat) \<le> 102))"

definition hex_run :: "nat \<Rightarrow> string \<Rightarrow> bool" where
  "hex_run n s = (length s = n \<and> list_all is_hex s)"

definition formatTraceparent :: "trace_context \<Rightarrow> string" where
  "formatTraceparent c = SUPPORTED_VERSION @ ''-'' @ tx_traceId c @ ''-'' @ tx_spanId c @ ''-'' @ tx_traceFlags c"

text \<open>The groups \<open>TRACEPARENT_RE\<close> captures: runs of 2, 32, 16 and 2 digits with a dash between them.\<close>

definition TRACEPARENT_RE :: "string \<Rightarrow> (string \<times> string \<times> string \<times> string) option" where
  "TRACEPARENT_RE s =
    (let version = take 2 s; traceId = take 32 (drop 3 s); spanId = take 16 (drop 36 s); flags = drop 53 s
     in if hex_run 2 version \<and> hex_run 32 traceId \<and> hex_run 16 spanId \<and> hex_run 2 flags \<and>
           s = version @ ''-'' @ traceId @ ''-'' @ spanId @ ''-'' @ flags
        then Some (version, traceId, spanId, flags) else None)"

text \<open>A header is a text or several; \<open>None\<close> is a header that is not there.\<close>

datatype header_value = OneHeader string | ManyHeaders "string list"

definition first_header :: "header_value option \<Rightarrow> string option" where
  "first_header v = (case v of
     None \<Rightarrow> None
   | Some (OneHeader s) \<Rightarrow> (if s = [] then None else Some s)
   | Some (ManyHeaders []) \<Rightarrow> None
   | Some (ManyHeaders (s # _)) \<Rightarrow> Some s)"

definition parseTraceparent :: "header_value option \<Rightarrow> trace_context option" where
  "parseTraceparent value = (case first_header value of
     None \<Rightarrow> None
   | Some raw \<Rightarrow>
       if raw \<noteq> js_trim raw then None
       else (case TRACEPARENT_RE raw of
           None \<Rightarrow> None
         | Some (version, traceId, spanId, flags) \<Rightarrow>
             if version = ''ff'' then None
             else if traceId = replicate 32 (CHR ''0'') \<or> spanId = replicate 16 (CHR ''0'') then None
             else Some \<lparr>tx_traceId = traceId, tx_spanId = spanId, tx_traceFlags = flags, tx_traceState = None\<rparr>))"

fun headerValue :: "(string \<times> header_value option) list \<Rightarrow> string \<Rightarrow> header_value option" where
  "headerValue [] name = None"
| "headerValue ((key, v) # rest) name = (if js_toLowerCase key = js_toLowerCase name then v else headerValue rest name)"

datatype parent_option = ParentText string | ParentContext trace_context

datatype attribute = AttrText string | AttrNumber rat | AttrBool bool

fun attr_truthy :: "attribute \<Rightarrow> bool" where
  "attr_truthy (AttrText s) = (s \<noteq> [])"
| "attr_truthy (AttrNumber x) = (x \<noteq> 0)"
| "attr_truthy (AttrBool b) = b"

record tracing_config =
  gc_enabled :: "bool option"
  gc_parent :: "parent_option option"
  gc_headers :: "(string \<times> header_value option) list"
  gc_serviceName :: "string option"
  gc_defaultAttributes :: "(string, attribute) js_map"
  gc_exporter :: bool
  gc_sampled :: "bool option"

definition header_state :: "header_value option \<Rightarrow> string option" where
  "header_state v = (case v of
     None \<Rightarrow> None
   | Some (OneHeader s) \<Rightarrow> (if s = [] then None else Some s)
   | Some (ManyHeaders ss) \<Rightarrow> Some (join_with '','' ss))"

definition resolve_from_headers :: "(string \<times> header_value option) list \<Rightarrow> trace_context option" where
  "resolve_from_headers headers = (case parseTraceparent (headerValue headers ''traceparent'') of
     None \<Rightarrow> None
   | Some tp \<Rightarrow> (case header_state (headerValue headers ''tracestate'') of
       None \<Rightarrow> Some tp | Some ts \<Rightarrow> Some (tp\<lparr>tx_traceState := Some ts\<rparr>)))"

definition resolveParentContext :: "tracing_config \<Rightarrow> trace_context option" where
  "resolveParentContext c = (case gc_parent c of
     Some (ParentText s) \<Rightarrow> (if s \<noteq> [] then parseTraceparent (Some (OneHeader s)) else resolve_from_headers (gc_headers c))
   | Some (ParentContext p) \<Rightarrow> Some p
   | None \<Rightarrow> resolve_from_headers (gc_headers c))"

section \<open>Spans\<close>

datatype span_status = StatusUnset | StatusOk | StatusError

record span_data =
  sp_name :: string
  sp_traceId :: string
  sp_spanId :: string
  sp_parentSpanId :: "string option"
  sp_startTime :: rat
  sp_startEpochMs :: int
  sp_endTime :: "rat option"
  sp_durationMs :: "rat option"
  sp_status :: span_status
  sp_attributes :: "(string, attribute) js_map"
  sp_error :: "(string \<times> string) option"

record span =
  sn_data :: span_data
  sn_traceState :: "string option"
  sn_exporter :: bool

datatype exported = SpanStart span_data | SpanEnd span_data

definition span_new :: "span_data \<Rightarrow> string option \<Rightarrow> bool \<Rightarrow> span \<times> exported list" where
  "span_new d traceState exporter =
    (\<lparr>sn_data = d, sn_traceState = traceState, sn_exporter = exporter\<rparr>, if exporter then [SpanStart d] else [])"

definition span_flags :: "span_data \<Rightarrow> string" where
  "span_flags d = (case jget (sp_attributes d) ''trace.sampled'' of
     Some a \<Rightarrow> if attr_truthy a then ''01'' else ''00'' | None \<Rightarrow> ''00'')"

definition span_headers :: "span \<Rightarrow> (string \<times> string) list" where
  "span_headers s =
    (''traceparent'', formatTraceparent \<lparr>tx_traceId = sp_traceId (sn_data s), tx_spanId = sp_spanId (sn_data s),
       tx_traceFlags = span_flags (sn_data s), tx_traceState = None\<rparr>) #
    (if truthy_str (sn_traceState s) then [(''tracestate'', the (sn_traceState s))] else [])"

definition span_setAttribute :: "string \<Rightarrow> attribute \<Rightarrow> span \<Rightarrow> span" where
  "span_setAttribute k v s = s\<lparr>sn_data := (sn_data s)\<lparr>sp_attributes := jset (sp_attributes (sn_data s)) k v\<rparr>\<rparr>"

text \<open>\<open>error\<close> is the message and the name of the error that is passed, or of the one made from it.\<close>

definition span_end :: "rat \<Rightarrow> span_status \<Rightarrow> (string \<times> string) option \<Rightarrow> span \<Rightarrow> span \<times> exported list" where
  "span_end now st error s =
    (if sp_endTime (sn_data s) \<noteq> None then (s, [])
     else let d = (sn_data s)\<lparr>sp_endTime := Some now, sp_durationMs := Some (now - sp_startTime (sn_data s)), sp_status := st\<rparr>;
              d' = (case error of None \<Rightarrow> d | Some e \<Rightarrow> d\<lparr>sp_error := Some e\<rparr>)
          in (s\<lparr>sn_data := d'\<rparr>, if sn_exporter s then [SpanEnd d'] else []))"

section \<open>The tracer\<close>

record tracer =
  tr_parent :: "trace_context option"
  tr_config :: tracing_config

definition Tracer :: "tracing_config \<Rightarrow> tracer" where
  "Tracer c = \<lparr>tr_parent = resolveParentContext c, tr_config = c\<rparr>"

definition tracer_enabled :: "tracer \<Rightarrow> bool" where
  "tracer_enabled t = (gc_enabled (tr_config t) \<noteq> Some False)"

definition hex_digit :: "nat \<Rightarrow> char" where
  "hex_digit n = (if n < 10 then char_of (48 + n) else char_of (87 + n))"

text \<open>Each random number gives a byte.\<close>

definition randomHex :: "nat list \<Rightarrow> string" where
  "randomHex bytes = concat (map (\<lambda>b. [hex_digit (b div 16 mod 16), hex_digit (b mod 16)]) bytes)"

definition hex_value :: "char \<Rightarrow> nat" where
  "hex_value c = (if is_digit c then digit_val c else of_char c - 87)"

text \<open>
  Bit 0 of \<open>parseInt(flags, 16)\<close>: the last digit of the longest run of digits, after white space, a sign and a
  prefix \<open>0x\<close>; no digit gives \<open>NaN\<close>, whose bits are 0. Capital digits count as well.
\<close>

definition skip_sign :: "string \<Rightarrow> string" where
  "skip_sign s = (case s of c # r \<Rightarrow> if c = CHR ''-'' \<or> c = CHR ''+'' then r else s | [] \<Rightarrow> [])"

definition skip_0x :: "string \<Rightarrow> string" where
  "skip_0x s = (if take 2 s = ''0x'' then drop 2 s else s)"

definition sampled_flag :: "string \<Rightarrow> bool" where
  "sampled_flag flags =
    (let ds = takeWhile is_hex (skip_0x (skip_sign (dropWhile is_ws (js_toLowerCase flags))))
     in ds \<noteq> [] \<and> odd (hex_value (last ds)))"

definition span_sampled :: "tracer \<Rightarrow> bool" where
  "span_sampled t = (case tr_parent t of
     Some p \<Rightarrow> sampled_flag (tx_traceFlags p) | None \<Rightarrow> gc_sampled (tr_config t) \<noteq> Some False)"

definition merge_attributes :: "(string, attribute) js_map \<Rightarrow> (string, attribute) js_map \<Rightarrow> (string, attribute) js_map" where
  "merge_attributes m n = foldl (\<lambda>m (k, v). jset m k v) m n"

definition span_attributes :: "tracer \<Rightarrow> (string, attribute) js_map \<Rightarrow> (string, attribute) js_map" where
  "span_attributes t attributes =
    jset (merge_attributes (merge_attributes
        (if truthy_str (gc_serviceName (tr_config t)) then [(''service.name'', AttrText (the (gc_serviceName (tr_config t))))] else [])
        (gc_defaultAttributes (tr_config t))) attributes)
      ''trace.sampled'' (AttrBool (span_sampled t))"

definition startSpan ::
  "string \<Rightarrow> (string, attribute) js_map \<Rightarrow> nat list \<Rightarrow> nat list \<Rightarrow> rat \<Rightarrow> int \<Rightarrow> tracer \<Rightarrow> span \<times> exported list" where
  "startSpan name attributes traceBytes spanBytes now epoch t =
    span_new \<lparr>sp_name = name,
        sp_traceId = (case tr_parent t of Some p \<Rightarrow> tx_traceId p | None \<Rightarrow> randomHex traceBytes),
        sp_spanId = randomHex spanBytes, sp_parentSpanId = map_option tx_spanId (tr_parent t),
        sp_startTime = now, sp_startEpochMs = epoch, sp_endTime = None, sp_durationMs = None, sp_status = StatusUnset,
        sp_attributes = span_attributes t attributes, sp_error = None\<rparr>
      (case tr_parent t of None \<Rightarrow> None | Some p \<Rightarrow> tx_traceState p) (gc_exporter (tr_config t))"

section \<open>Lemmas\<close>

definition valid_context :: "trace_context \<Rightarrow> bool" where
  "valid_context c \<longleftrightarrow> hex_run 32 (tx_traceId c) \<and> hex_run 16 (tx_spanId c) \<and> hex_run 2 (tx_traceFlags c) \<and>
    tx_traceId c \<noteq> replicate 32 (CHR ''0'') \<and> tx_spanId c \<noteq> replicate 16 (CHR ''0'')"

lemma is_hex_not_ws: "is_hex c \<Longrightarrow> \<not> is_ws c"
  by (auto simp: is_hex_def is_digit_not_ws) (auto simp: is_ws_def)

lemma js_trim_ends:
  assumes "s \<noteq> []" and "\<not> is_ws (hd s)" and "\<not> is_ws (last s)"
  shows "js_trim s = s"
proof -
  have "dropWhile is_ws s = s" using assms(1,2) by (cases s) auto
  moreover have "dropWhile is_ws (rev s) = rev s" using assms(1,3) by (cases s rule: rev_cases) auto
  ultimately show ?thesis by (simp add: js_trim_def)
qed

definition traceparent_text :: "string \<Rightarrow> string \<Rightarrow> string \<Rightarrow> string \<Rightarrow> string" where
  "traceparent_text v t p f = v @ ''-'' @ t @ ''-'' @ p @ ''-'' @ f"

lemma RE_text:
  assumes "hex_run 2 v" and "hex_run 32 t" and "hex_run 16 p" and "hex_run 2 f"
  shows "TRACEPARENT_RE (traceparent_text v t p f) = Some (v, t, p, f)"
proof -
  have len: "length v = 2" "length t = 32" "length p = 16" using assms by (simp_all add: hex_run_def)
  have "take 2 (traceparent_text v t p f) = v" "take 32 (drop 3 (traceparent_text v t p f)) = t"
    "take 16 (drop 36 (traceparent_text v t p f)) = p" "drop 53 (traceparent_text v t p f) = f"
    using len by (simp_all add: traceparent_text_def drop_Cons')
  then show ?thesis using assms unfolding TRACEPARENT_RE_def Let_def by (simp add: traceparent_text_def)
qed

lemma RE_Some:
  "TRACEPARENT_RE s = Some (v, t, p, f) \<longleftrightarrow>
   hex_run 2 v \<and> hex_run 32 t \<and> hex_run 16 p \<and> hex_run 2 f \<and> s = traceparent_text v t p f"
  (is "?L \<longleftrightarrow> ?R")
proof
  assume ?L
  then show ?R by (auto simp: TRACEPARENT_RE_def Let_def traceparent_text_def split: if_splits)
qed (use RE_text in auto)

lemma text_trim:
  assumes "hex_run 2 v" and "hex_run 2 f"
  shows "js_trim (traceparent_text v t p f) = traceparent_text v t p f"
proof (rule js_trim_ends)
  show "traceparent_text v t p f \<noteq> []" by (simp add: traceparent_text_def)
  have ne: "v \<noteq> []" "f \<noteq> []" and all: "list_all is_hex v" "list_all is_hex f"
    using assms by (auto simp: hex_run_def)
  from ne have "hd v \<in> set v" "last f \<in> set f" by simp_all
  with all have "is_hex (hd v)" "is_hex (last f)" by (simp_all add: list_all_iff)
  note ne this
  then show "\<not> is_ws (hd (traceparent_text v t p f))" "\<not> is_ws (last (traceparent_text v t p f))"
    by (simp_all add: traceparent_text_def is_hex_not_ws)
qed

lemma parse_text:
  assumes "hex_run 2 v" and "hex_run 32 t" and "hex_run 16 p" and "hex_run 2 f"
  shows "parseTraceparent (Some (OneHeader (traceparent_text v t p f))) =
    (if v = ''ff'' \<or> t = replicate 32 (CHR ''0'') \<or> p = replicate 16 (CHR ''0'') then None
     else Some \<lparr>tx_traceId = t, tx_spanId = p, tx_traceFlags = f, tx_traceState = None\<rparr>)"
proof -
  have "traceparent_text v t p f \<noteq> []" by (simp add: traceparent_text_def)
  then show ?thesis using RE_text [OF assms] text_trim [OF assms(1,4), of t p]
    by (simp add: parseTraceparent_def first_header_def)
qed

lemma parse_Some:
  assumes "parseTraceparent (Some (OneHeader s)) = Some c"
  shows "valid_context c \<and> tx_traceState c = None \<and>
    (\<exists>v. v \<noteq> ''ff'' \<and> hex_run 2 v \<and> s = traceparent_text v (tx_traceId c) (tx_spanId c) (tx_traceFlags c))"
proof -
  from assms obtain v t p f where "TRACEPARENT_RE s = Some (v, t, p, f)" "v \<noteq> ''ff''"
      "t \<noteq> replicate 32 (CHR ''0'')" "p \<noteq> replicate 16 (CHR ''0'')"
      "c = \<lparr>tx_traceId = t, tx_spanId = p, tx_traceFlags = f, tx_traceState = None\<rparr>"
    by (auto simp: parseTraceparent_def first_header_def split: if_splits option.splits)
  then show ?thesis by (auto simp: RE_Some valid_context_def)
qed

lemma format_text: "formatTraceparent c = traceparent_text ''00'' (tx_traceId c) (tx_spanId c) (tx_traceFlags c)"
  by (simp add: formatTraceparent_def SUPPORTED_VERSION_def traceparent_text_def)

lemma version_hex: "hex_run 2 ''00''" "hex_run 2 ''01''"
  by (simp_all add: hex_run_def is_hex_def is_digit_def)

lemma parse_format: "valid_context c \<Longrightarrow> parseTraceparent (Some (OneHeader (formatTraceparent c))) = Some (c\<lparr>tx_traceState := None\<rparr>)"
  by (simp add: format_text parse_text version_hex valid_context_def)

lemma hex_digit_hex: "n < 16 \<Longrightarrow> is_hex (hex_digit n)"
  by (auto simp: is_hex_def hex_digit_def is_digit_def)

lemma randomHex_run: "hex_run (2 * length bs) (randomHex bs)"
  by (induction bs) (auto simp: hex_run_def randomHex_def hex_digit_hex)

section \<open>Properties\<close>

text \<open>
  C26: the header of a valid trace context is read back as the context, and a header that is accepted is that of a
  valid context: it is the text of the context again, up to the version, which may be any but \<open>ff\<close>.
\<close>

theorem traceparent_roundtrip:
  "(valid_context c \<longrightarrow> parseTraceparent (Some (OneHeader (formatTraceparent c))) = Some (c\<lparr>tx_traceState := None\<rparr>)) \<and>
   (parseTraceparent (Some (OneHeader s)) = Some d \<longrightarrow> valid_context d \<and> drop 2 s = drop 2 (formatTraceparent d) \<and>
      (take 2 s = SUPPORTED_VERSION \<longrightarrow> s = formatTraceparent d))"
proof (intro conjI impI)
  assume "parseTraceparent (Some (OneHeader s)) = Some d"
  from parse_Some [OF this] obtain v where v: "valid_context d" "hex_run 2 v"
      "s = traceparent_text v (tx_traceId d) (tx_spanId d) (tx_traceFlags d)" by blast
  show "valid_context d" by (rule v)
  have "length v = 2" using v(2) by (simp add: hex_run_def)
  then show "drop 2 s = drop 2 (formatTraceparent d)"
    by (simp add: v(3) format_text traceparent_text_def)
  assume "take 2 s = SUPPORTED_VERSION"
  then have "v = ''00''" using \<open>length v = 2\<close> by (simp add: v(3) traceparent_text_def SUPPORTED_VERSION_def)
  then show "s = formatTraceparent d" by (simp add: v(3) format_text)
qed (rule parse_format)

definition sample_context :: trace_context where
  "sample_context = \<lparr>tx_traceId = replicate 32 (CHR ''a''), tx_spanId = replicate 16 (CHR ''b''), tx_traceFlags = ''01'',
     tx_traceState = None\<rparr>"

lemma sample_valid: "valid_context sample_context"
  by (simp add: valid_context_def sample_context_def hex_run_def is_hex_def is_digit_def list_all_iff)

theorem traceparent_roundtrip_witness:
  "valid_context sample_context \<and>
   parseTraceparent (Some (OneHeader (formatTraceparent sample_context))) = Some sample_context"
  using traceparent_roundtrip [of sample_context "[]" sample_context] sample_valid by (simp add: sample_context_def)

text \<open>
  The header of a span continues the trace: with a valid parent the next service reads the trace id of the
  parent, the id of the new span and the sampling decision of the parent; without one it reads the fresh ids, and
  the span is sampled unless the configuration says no. That holds as long as the random ids are not all zero.
\<close>

theorem span_continues_trace:
  assumes "length traceBytes = 16" and "length spanBytes = 8"
    and "randomHex traceBytes \<noteq> replicate 32 (CHR ''0'')" and "randomHex spanBytes \<noteq> replicate 16 (CHR ''0'')"
    and "case tr_parent t of None \<Rightarrow> True | Some p \<Rightarrow> valid_context p"
  shows "parseTraceparent (Some (OneHeader (snd (hd (span_headers
        (fst (startSpan name attrs traceBytes spanBytes now epoch t))))))) =
      Some \<lparr>tx_traceId = (case tr_parent t of Some p \<Rightarrow> tx_traceId p | None \<Rightarrow> randomHex traceBytes),
        tx_spanId = randomHex spanBytes,
        tx_traceFlags = (if (case tr_parent t of Some p \<Rightarrow> sampled_flag (tx_traceFlags p)
            | None \<Rightarrow> gc_sampled (tr_config t) \<noteq> Some False) then ''01'' else ''00''),
        tx_traceState = None\<rparr>"
proof -
  let ?t = "case tr_parent t of Some p \<Rightarrow> tx_traceId p | None \<Rightarrow> randomHex traceBytes"
  let ?f = "if span_sampled t then ''01'' else ''00''"
  have flags: "span_flags (sn_data (fst (startSpan name attrs traceBytes spanBytes now epoch t))) = ?f"
    by (simp add: startSpan_def span_new_def span_flags_def span_attributes_def jsmap)
  have "snd (hd (span_headers (fst (startSpan name attrs traceBytes spanBytes now epoch t)))) =
      traceparent_text ''00'' ?t (randomHex spanBytes) ?f"
    using flags by (simp add: span_headers_def format_text) (simp add: startSpan_def span_new_def)
  moreover have "hex_run 32 ?t" "?t \<noteq> replicate 32 (CHR ''0'')" "hex_run 16 (randomHex spanBytes)"
    using assms randomHex_run [of traceBytes] randomHex_run [of spanBytes]
    by (auto simp: valid_context_def split: option.splits)
  moreover have "hex_run 2 ?f" by (simp add: version_hex)
  ultimately show ?thesis using assms(4) by (simp add: parse_text version_hex span_sampled_def)
qed

definition sample_tracer :: tracer where
  "sample_tracer = Tracer \<lparr>gc_enabled = None, gc_parent = Some (ParentContext sample_context), gc_headers = [],
     gc_serviceName = None, gc_defaultAttributes = [], gc_exporter = False, gc_sampled = None\<rparr>"

theorem span_continues_trace_witness:
  "\<exists>child. parseTraceparent (Some (OneHeader (snd (hd (span_headers
      (fst (startSpan ''rpc'' [] (replicate 16 1) (replicate 8 1) 0 0 sample_tracer))))))) = Some child \<and>
    tx_traceId child = replicate 32 (CHR ''a'')"
proof -
  have "randomHex (replicate 16 1) \<noteq> replicate 32 (CHR ''0'')" "randomHex (replicate 8 1) \<noteq> replicate 16 (CHR ''0'')"
    by code_simp+
  from span_continues_trace [OF _ _ this, of sample_tracer "''rpc''" "[]" 0 0] sample_valid
  show ?thesis by (simp add: sample_tracer_def Tracer_def resolveParentContext_def sample_context_def)
qed

end
