(* ===== verification/Container.thy ===== *)
theory Container
  imports Prelude
begin

text \<open>
  The dependency injection container (\<open>packages/sdk/src/container.ts\<close>). A container is the list of its levels,
  itself first, its ancestors after it. Objects are numbers: a construction makes the next one, so that
  resolving twice to the same object can be told from resolving to an equal one. Constructors and factories are
  the arguments \<open>g\<close>; a factory that calls back into the container is left out.
\<close>

section \<open>Levels\<close>

datatype binding_key = ClassKey string | TokenKey nat string

datatype binding = ToClass string | ToFactory nat | ToValue nat

record builders =
  bl_construct :: "string \<Rightarrow> string option"
  bl_factory :: "nat \<Rightarrow> nat \<Rightarrow> string + nat"

record level =
  lv_bindings :: "(binding_key, binding) js_map"
  lv_singletons :: "(binding_key, nat) js_map"

definition level_new :: level where
  "level_new = \<lparr>lv_bindings = [], lv_singletons = []\<rparr>"

datatype container_err = ContainerError string binding_key "string option" | ThrownError string

definition token_text :: "string \<Rightarrow> string" where
  "token_text description = ''Token('' @ description @ '')''"

definition level_register :: "binding_key \<Rightarrow> binding \<Rightarrow> level \<Rightarrow> level" where
  "level_register k b c = c\<lparr>lv_bindings := jset (lv_bindings c) k b, lv_singletons := jdel (lv_singletons c) k\<rparr>"

definition level_unbind :: "binding_key \<Rightarrow> level \<Rightarrow> level" where
  "level_unbind k c = c\<lparr>lv_bindings := jdel (lv_bindings c) k, lv_singletons := jdel (lv_singletons c) k\<rparr>"

definition level_reset :: "level \<Rightarrow> level" where
  "level_reset c = c\<lparr>lv_bindings := [], lv_singletons := []\<rparr>"

definition createChild :: "level list \<Rightarrow> level list" where
  "createChild cs = level_new # cs"

fun container_has :: "binding_key \<Rightarrow> level list \<Rightarrow> bool" where
  "container_has k [] = False"
| "container_has k (c # parents) = (jhas (lv_bindings c) k \<or> container_has k parents)"

text \<open>The object made and the number of the next one.\<close>

definition createFromBinding :: "builders \<Rightarrow> binding \<Rightarrow> nat \<Rightarrow> (container_err + nat) \<times> nat" where
  "createFromBinding g b n = (case b of
     ToClass impl \<Rightarrow> (case bl_construct g impl of Some m \<Rightarrow> (Inl (ThrownError m), n) | None \<Rightarrow> (Inr n, n + 1))
   | ToFactory f \<Rightarrow> (case bl_factory g f n of Inl m \<Rightarrow> (Inl (ThrownError m), n) | Inr x \<Rightarrow> (Inr x, n + 1))
   | ToValue x \<Rightarrow> (Inr x, n))"

definition cache_at :: "binding_key \<Rightarrow> nat \<Rightarrow> level \<Rightarrow> level" where
  "cache_at k x c = c\<lparr>lv_singletons := jset (lv_singletons c) k x\<rparr>"

definition construct_fallback :: "builders \<Rightarrow> binding_key \<Rightarrow> nat \<Rightarrow> (container_err + nat) \<times> nat" where
  "construct_fallback g k n = (case k of
     ClassKey name \<Rightarrow> (case bl_construct g name of
         None \<Rightarrow> (Inr n, n + 1)
       | Some m \<Rightarrow> (Inl (ContainerError (''Cannot resolve '' @ [CHR 0x22] @ name @ [CHR 0x22] @
             '': no binding registered and zero-argument construction failed. '' @
             ''Register a binding via container.bind('' @ name @ '').to(impl).'') k (Some m)), n))
   | TokenKey i description \<Rightarrow>
       (Inl (ContainerError (''Cannot resolve token '' @ [CHR 0x22] @ token_text description @ [CHR 0x22] @
          '': no binding registered.'') k None), n))"

definition keep_result :: "binding_key \<Rightarrow> level \<Rightarrow> level list \<Rightarrow> (container_err + nat) \<times> nat \<Rightarrow>
    (container_err + nat) \<times> level list \<times> nat" where
  "keep_result k c parents r = (case r of
     (Inl e, n) \<Rightarrow> (Inl e, c # parents, n) | (Inr x, n) \<Rightarrow> (Inr x, cache_at k x c # parents, n))"

fun container_resolve :: "builders \<Rightarrow> binding_key \<Rightarrow> level list \<Rightarrow> nat \<Rightarrow> (container_err + nat) \<times> level list \<times> nat" where
  "container_resolve g k [] n = (Inl (ThrownError []), [], n)"
| "container_resolve g k (c # parents) n =
    (case jget (lv_singletons c) k of
       Some x \<Rightarrow> (Inr x, c # parents, n)
     | None \<Rightarrow> (case jget (lv_bindings c) k of
         Some b \<Rightarrow> keep_result k c parents (createFromBinding g b n)
       | None \<Rightarrow>
           if container_has k parents
           then (case container_resolve g k parents n of (r, ps, n') \<Rightarrow> (r, c # ps, n'))
           else keep_result k c parents (construct_fallback g k n)))"

section \<open>Runs\<close>

datatype container_op =
    BindAt nat binding_key binding
  | UnbindAt nat binding_key
  | ResetAt nat
  | ResolveAt nat binding_key

fun container_step :: "builders \<Rightarrow> container_op \<Rightarrow> level list \<times> nat \<Rightarrow> level list \<times> nat" where
  "container_step g (BindAt l k b) (cs, n) = (if l < length cs then (cs[l := level_register k b (cs ! l)], n) else (cs, n))"
| "container_step g (UnbindAt l k) (cs, n) = (if l < length cs then (cs[l := level_unbind k (cs ! l)], n) else (cs, n))"
| "container_step g (ResetAt l) (cs, n) = (if l < length cs then (cs[l := level_reset (cs ! l)], n) else (cs, n))"
| "container_step g (ResolveAt l k) (cs, n) =
    (case container_resolve g k (drop l cs) n of (r, ds, n') \<Rightarrow> (take l cs @ ds, n'))"

fun leaves_key :: "binding_key \<Rightarrow> container_op \<Rightarrow> bool" where
  "leaves_key k (BindAt l k' b) = (k' \<noteq> k)"
| "leaves_key k (UnbindAt l k') = (k' \<noteq> k)"
| "leaves_key k (ResetAt l) = False"
| "leaves_key k (ResolveAt l k') = True"

section \<open>Lemmas\<close>

text \<open>The key resolves to \<open>x\<close> without anything being made.\<close>

fun cached :: "binding_key \<Rightarrow> nat \<Rightarrow> level list \<Rightarrow> bool" where
  "cached k x [] = False"
| "cached k x (c # parents) = (case jget (lv_singletons c) k of
     Some y \<Rightarrow> y = x
   | None \<Rightarrow> jget (lv_bindings c) k = None \<and> container_has k parents \<and> cached k x parents)"

lemma cached_resolve: "cached k x cs \<Longrightarrow> container_resolve g k cs n = (Inr x, cs, n)"
  by (induction cs) (auto split: option.splits)

lemma resolve_has: "container_resolve g k cs n = (r, ds, n') \<Longrightarrow> container_has k' ds = container_has k' cs"
proof (induction cs arbitrary: r ds n')
  case (Cons c cs)
  then show ?case
    by (auto simp: keep_result_def cache_at_def split: option.splits if_splits prod.splits sum.splits)
qed simp

lemma resolve_caches: "container_resolve g k cs n = (Inr x, ds, n') \<Longrightarrow> cached k x ds"
proof (induction cs arbitrary: ds n')
  case (Cons c cs)
  show ?case
  proof (cases "jget (lv_singletons c) k = None \<and> jget (lv_bindings c) k = None \<and> container_has k cs")
    case True
    then obtain ps where ps: "container_resolve g k cs n = (Inr x, ps, n')" "ds = c # ps"
      using Cons.prems by (auto split: prod.splits)
    then show ?thesis using True Cons.IH resolve_has [OF ps(1), of k] by simp
  next
    case False
    then show ?thesis using Cons.prems
      by (auto simp: keep_result_def cache_at_def jsmap split: option.splits if_splits prod.splits sum.splits)
  qed
qed simp

lemma resolve_keeps_cached:
  "cached k x cs \<Longrightarrow> container_resolve g k' cs n = (r, ds, n') \<Longrightarrow> cached k x ds"
proof (induction cs arbitrary: r ds n')
  case (Cons c cs)
  show ?case
  proof (cases "k' = k")
    case True
    then show ?thesis using cached_resolve [OF Cons.prems(1)] Cons.prems by auto
  next
    case False
    show ?thesis
    proof (cases "jget (lv_singletons c) k' = None \<and> jget (lv_bindings c) k' = None \<and> container_has k' cs")
      case True
      then obtain ps where ps: "container_resolve g k' cs n = (r, ps, n')" "ds = c # ps"
        using Cons.prems(2) by (auto split: prod.splits)
      then show ?thesis using Cons.prems(1) Cons.IH [OF _ ps(1)] resolve_has [OF ps(1), of k]
        by (auto split: option.splits)
    next
      case other: False
      then obtain c' where "ds = c' # cs" "jget (lv_singletons c') k = jget (lv_singletons c) k"
          "lv_bindings c' = lv_bindings c"
        using Cons.prems(2) False
        by (auto simp: keep_result_def cache_at_def jsmap split: option.splits if_splits prod.splits sum.splits)
      then show ?thesis using Cons.prems(1) by (simp cong: option.case_cong)
    qed
  qed
qed simp

lemma has_append: "container_has k (xs @ ys) \<longleftrightarrow> container_has k xs \<or> container_has k ys"
  by (induction xs) auto

lemma has_suffix:
  assumes "container_resolve g k' (drop m cs) n = (r, ds, n')"
  shows "container_has k (take m cs @ ds) = container_has k cs"
  using resolve_has [OF assms, of k] by (metis append_take_drop_id has_append)

lemma resolve_deeper:
  "cached k x cs \<Longrightarrow> container_resolve g k' (drop l cs) n = (r, ds, n') \<Longrightarrow>
   cached k x (take l cs @ ds) \<and> container_has k (take l cs @ ds) = container_has k cs"
proof (induction cs arbitrary: l)
  case (Cons c cs)
  show ?case
  proof (cases l)
    case 0
    then have res: "container_resolve g k' (c # cs) n = (r, ds, n')" using Cons.prems(2) by simp
    show ?thesis using resolve_keeps_cached [OF Cons.prems(1) res] resolve_has [OF res, of k] 0 by simp
  next
    case (Suc m)
    have res: "container_resolve g k' (drop m cs) n = (r, ds, n')" using Cons.prems(2) Suc by simp
    have has: "container_has k (take m cs @ ds) = container_has k cs"
      by (rule has_suffix [OF res])
    show ?thesis using Cons.prems(1) Cons.IH [OF _ res] has Suc by (auto split: option.splits)
  qed
qed simp

definition key_view :: "binding_key \<Rightarrow> level \<Rightarrow> nat option \<times> binding option" where
  "key_view k c = (jget (lv_singletons c) k, jget (lv_bindings c) k)"

lemma cached_cong:
  "map (key_view k) cs = map (key_view k) ds \<Longrightarrow> cached k x cs = cached k x ds \<and> container_has k cs = container_has k ds"
proof (induction cs arbitrary: ds)
  case (Cons c cs)
  then obtain d ds' where ds: "ds = d # ds'" "key_view k c = key_view k d" "map (key_view k) cs = map (key_view k) ds'"
    by (cases ds) auto
  have "jhas (lv_bindings c) k = jhas (lv_bindings d) k"
    using ds(2) by (simp add: key_view_def jhas_iff jkeys_jget)
  then show ?case using Cons.IH [OF ds(3)] ds(1,2) by (simp add: key_view_def cong: option.case_cong)
qed simp

lemma update_view:
  assumes "key_view k (f (cs ! l)) = key_view k (cs ! l)"
  shows "map (key_view k) (cs[l := f (cs ! l)]) = map (key_view k) cs"
  using assms by (simp add: map_update) (metis list_update_id map_update)

lemma step_keeps_cached:
  assumes "cached k x cs" and "leaves_key k p" and "container_step g p (cs, n) = (ds, n')"
  shows "cached k x ds"
proof (cases p)
  case (ResolveAt l k')
  then obtain r es where "container_resolve g k' (drop l cs) n = (r, es, n')" "ds = take l cs @ es"
    using assms(3) by (auto split: prod.splits)
  with resolve_deeper [OF assms(1)] show ?thesis by blast
next
  case (BindAt l k' b)
  have "map (key_view k) (cs[l := level_register k' b (cs ! l)]) = map (key_view k) cs"
    by (rule update_view) (use assms(2) BindAt in \<open>simp add: key_view_def level_register_def jsmap\<close>)
  from cached_cong [OF this, of x] show ?thesis using assms BindAt by (auto split: if_splits)
next
  case (UnbindAt l k')
  have "map (key_view k) (cs[l := level_unbind k' (cs ! l)]) = map (key_view k) cs"
    by (rule update_view) (use assms(2) UnbindAt in \<open>simp add: key_view_def level_unbind_def jsmap\<close>)
  from cached_cong [OF this, of x] show ?thesis using assms UnbindAt by (auto split: if_splits)
qed (use assms(2) in simp)

lemma run_keeps_cached:
  "cached k x cs \<Longrightarrow> list_all (leaves_key k) ps \<Longrightarrow> cached k x (fst (foldl (\<lambda>s p. container_step g p s) (cs, n) ps))"
proof (induction ps arbitrary: cs n)
  case (Cons p ps)
  obtain ds n' where st: "container_step g p (cs, n) = (ds, n')" by force
  have "cached k x ds" using step_keeps_cached [OF Cons.prems(1) _ st] Cons.prems(2) by simp
  then show ?case using Cons.IH [of ds n'] Cons.prems(2) by (simp add: st)
qed simp

section \<open>Properties\<close>

text \<open>
  C27: what a container resolves a key to, by a binding of its own or of an ancestor or by construction, is
  resolved to for good: after any operations on it and its ancestors that do not bind, unbind or reset the key, it
  resolves to the same object and makes nothing new.
\<close>

theorem container_singleton:
  assumes "container_resolve g k cs n = (Inr x, ds, n')" and "list_all (leaves_key k) ps"
    and "foldl (\<lambda>s p. container_step g p s) (ds, n') ps = (es, m)"
  shows "container_resolve g k es m = (Inr x, es, m)"
  using run_keeps_cached [OF resolve_caches [OF assms(1)] assms(2), of g n'] assms(3) by (simp add: cached_resolve)

definition plain_builders :: builders where
  "plain_builders = \<lparr>bl_construct = (\<lambda>c. None), bl_factory = (\<lambda>f n. Inr n)\<rparr>"

theorem container_singleton_witness:
  "\<exists>cs. container_resolve plain_builders (ClassKey ''A'') [level_new] 0 = (Inr 0, cs, 1) \<and>
     (\<exists>ds m. foldl (\<lambda>s p. container_step plain_builders p s) (cs, 1) [ResolveAt 0 (ClassKey ''B'')] = (ds, m) \<and>
       container_resolve plain_builders (ClassKey ''A'') ds m = (Inr 0, ds, m))"
proof -
  obtain cs where cs: "container_resolve plain_builders (ClassKey ''A'') [level_new] 0 = (Inr 0, cs, 1)"
    by (simp add: level_new_def construct_fallback_def plain_builders_def keep_result_def)
  obtain ds m where run: "foldl (\<lambda>s p. container_step plain_builders p s) (cs, 1) [ResolveAt 0 (ClassKey ''B'')] = (ds, m)" by force
  from container_singleton [OF cs _ run] cs run show ?thesis by simp
qed

text \<open>
  Against the documented order of resolution a child never looks at what its ancestors have cached for a class
  they have no binding for: after the parent made its instance, the child makes one of its own; and against the
  documented separation an instance made through the child for a binding of the parent is cached in the parent.
\<close>

theorem container_child_caches:
  assumes "\<forall>c. bl_construct g c = None"
  shows "(let (r, cs, n) = container_resolve g (ClassKey c) [level_new] 0;
              (r', ds, n') = container_resolve g (ClassKey c) (createChild cs) n
          in r = Inr 0 \<and> r' = Inr 1) \<and>
    (let parent = [level_register k (ToClass c) level_new];
         (r, ds, n) = container_resolve g k (createChild parent) 0
     in r = Inr 0 \<and> jget (lv_singletons (ds ! 0)) k = None \<and> jget (lv_singletons (ds ! 1)) k = Some 0)"
  using assms
  by (simp add: level_new_def construct_fallback_def keep_result_def createChild_def cache_at_def level_register_def
      createFromBinding_def jdel_def jget_def jhas_def)

theorem container_child_caches_witness:
  "(case container_resolve plain_builders (ClassKey ''A'') [level_new] 0 of (r, cs, n) \<Rightarrow>
     fst (container_resolve plain_builders (ClassKey ''A'') (createChild cs) n) = Inr 1)"
  using container_child_caches [of plain_builders "''A''"]
  by (simp add: plain_builders_def Let_def case_prod_beta)

end
