(* ===== verification/JsonRpc.thy ===== *)
theory JsonRpc
  imports Values Retry Limiter
begin

text \<open>
  The JSON-RPC layer of \<open>packages/rpc/src\<close>: the transport and its envelope check
  (\<open>json-rpc-transport.ts\<close>), the parser of raw HTTP bodies (\<open>json-rpc-response.ts\<close>), the schemas of
  results (\<open>response-schema.ts\<close>), the method probe (\<open>rpc-method-probe.ts\<close>) and the report of an
  unsupported method (\<open>unsupported-method.ts\<close>). \<open>fetch\<close> is an argument: from the body that is posted to a
  rejection or a response. HTTP statuses and request ids are integers.
\<close>

section \<open>The transport\<close>

text \<open>\<open>hr_text\<close> is what \<open>text()\<close> settles to.\<close>

record http_response =
  hr_ok :: bool
  hr_status :: int
  hr_retryAfter :: "string option"
  hr_text :: "string + string"

type_synonym fetch_like = "string \<Rightarrow> string + http_response"

text \<open>What a request rejects with; \<open>BodyError\<close> is a rejection of \<open>text()\<close>, which no code wraps.\<close>

datatype transport_err =
    JsonRpcError js_number string "json option"
  | JsonRpcTransportError string "int option" bool "real option"
  | JsonRpcProtocolError string
  | BodyError string

record rpc_transport =
  tr_maxInFlight :: "int option"
  tr_nextId :: int

text \<open>An absent \<open>maxInFlight\<close> is \<open>Infinity\<close>, which the limiter accepts.\<close>

definition transport_new :: "bool \<Rightarrow> int option \<Rightarrow> string + rpc_transport" where
  "transport_new hasFetch maxInFlight =
    (if \<not> hasFetch then Inl ''JsonRpcTransport: no fetch implementation available; pass `fetch` explicitly''
     else case maxInFlight of
       None \<Rightarrow> Inr \<lparr>tr_maxInFlight = None, tr_nextId = 1\<rparr>
     | Some mx \<Rightarrow> (case createConcurrencyLimiter mx of
         Inl e \<Rightarrow> Inl e | Inr l \<Rightarrow> Inr \<lparr>tr_maxInFlight = Some mx, tr_nextId = 1\<rparr>))"

definition take_id :: "rpc_transport \<Rightarrow> int \<times> rpc_transport" where
  "take_id t = (tr_nextId t, t\<lparr>tr_nextId := tr_nextId t + 1\<rparr>)"

definition isRecord :: "json \<Rightarrow> bool" where
  "isRecord v = (case v of JObj fs \<Rightarrow> True | _ \<Rightarrow> False)"

definition members :: "json \<Rightarrow> (string \<times> json) list" where
  "members v = (case v of JObj fs \<Rightarrow> fs | _ \<Rightarrow> [])"

definition envelope_error :: "json \<Rightarrow> transport_err" where
  "envelope_error e =
    (case (jget (members e) ''code'', jget (members e) ''message'') of
       (Some (JNum code), Some (JStr message)) \<Rightarrow>
         if isRecord e \<and> js_isInteger code
         then JsonRpcError code message (jget (members e) ''data'')
         else JsonRpcProtocolError ''Response \"error\" member must have an integer code and a string message''
     | _ \<Rightarrow> JsonRpcProtocolError ''Response \"error\" member must have an integer code and a string message'')"

definition parseJsonRpcEnvelope :: "json_codec \<Rightarrow> json \<Rightarrow> int \<Rightarrow> transport_err + json" where
  "parseJsonRpcEnvelope c body expectedId =
    (if \<not> isRecord body then Inl (JsonRpcProtocolError ''Response is not a JSON object'')
     else if jget (members body) ''jsonrpc'' \<noteq> Some (JStr ''2.0'')
     then Inl (JsonRpcProtocolError ''Response has a missing or unsupported \"jsonrpc\" version'')
     else let hasResult = jhas (members body) ''result''; hasError = jhas (members body) ''error''
       in if hasResult = hasError
          then Inl (JsonRpcProtocolError ''Response must contain exactly one of \"result\" or \"error\"'')
          else let rid = jget (members body) ''id'';
                   idMatches = (rid = Some (JNum (js_int expectedId)) \<or> (rid = Some JNull \<and> hasError))
            in if \<not> idMatches
               then Inl (JsonRpcProtocolError (''Response id '' @ jc_stringify c rid @
                      '' does not match request id '' @ int_dec expectedId))
               else if hasError then Inl (envelope_error (the (jget (members body) ''error'')))
               else Inr (the (jget (members body) ''result'')))"

definition readJson :: "json_codec \<Rightarrow> http_response \<Rightarrow> string \<Rightarrow> transport_err + json" where
  "readJson c response meth = (case hr_text response of
     Inl e \<Rightarrow> Inl (BodyError e)
   | Inr t \<Rightarrow> (case jc_parse c t of
       Inl e \<Rightarrow> Inl (JsonRpcProtocolError (''Response to '' @ meth @ '' is not valid JSON''))
     | Inr j \<Rightarrow> Inr j))"

text \<open>The request body; an \<open>undefined\<close> \<open>params\<close> is left out by \<open>JSON.stringify\<close>.\<close>

definition request_body :: "json_codec \<Rightarrow> int \<Rightarrow> string \<Rightarrow> json option \<Rightarrow> string" where
  "request_body c rid meth params = jc_stringify c (Some (JObj
     ([(''jsonrpc'', JStr ''2.0''), (''id'', JNum (js_int rid)), (''method'', JStr meth)] @
      (case params of None \<Rightarrow> [] | Some p \<Rightarrow> [(''params'', p)]))))"

definition send_request ::
  "json_codec \<Rightarrow> (string \<Rightarrow> real option) \<Rightarrow> fetch_like \<Rightarrow> real \<Rightarrow> int \<Rightarrow> string \<Rightarrow> json option \<Rightarrow>
   transport_err + json" where
  "send_request c dateParse fetch now rid meth params =
    (case fetch (request_body c rid meth params) of
       Inl e \<Rightarrow> Inl (JsonRpcTransportError (''Network error calling '' @ meth @ '': '' @ e) None True None)
     | Inr response \<Rightarrow>
         if \<not> hr_ok response
         then let retryable = (hr_status response = 429 \<or> 500 \<le> hr_status response)
           in Inl (JsonRpcTransportError (''HTTP '' @ int_dec (hr_status response) @ '' calling '' @ meth)
                (Some (hr_status response)) retryable
                (parseRetryAfter dateParse (hr_retryAfter response) now))
         else (case readJson c response meth of
             Inl e \<Rightarrow> Inl e
           | Inr j \<Rightarrow> parseJsonRpcEnvelope c j rid))"

section \<open>Raw bodies\<close>

datatype response_error_kind = INVALID_CONTENT_TYPE | MALFORMED_JSON | JSON_RPC_ERROR

record rpc_response_error =
  re_kind :: response_error_kind
  re_message :: string
  re_status :: int
  re_contentType :: "string option"
  re_rpcCode :: "js_number option"

definition JSON_RPC_MEDIA_TYPES :: "string list" where
  "JSON_RPC_MEDIA_TYPES = [''application/json'', ''application/json-rpc'']"

definition isJsonMediaType :: "string \<Rightarrow> bool" where
  "isJsonMediaType contentType =
    (let mediaType = js_toLowerCase (js_trim (takeWhile (\<lambda>c. c \<noteq> CHR '';'') contentType))
     in List.member JSON_RPC_MEDIA_TYPES mediaType \<or> js_endsWith mediaType ''+json'')"

definition parseJsonRpcResponse ::
  "json_codec \<Rightarrow> string \<Rightarrow> string option \<Rightarrow> int \<Rightarrow> rpc_response_error + json" where
  "parseJsonRpcResponse c body contentType status =
    (if (case contentType of None \<Rightarrow> True | Some t \<Rightarrow> \<not> isJsonMediaType t)
     then Inl \<lparr>re_kind = INVALID_CONTENT_TYPE,
       re_message = ''Expected a JSON-RPC response but received content type '' @
         (case contentType of Some t \<Rightarrow> t | None \<Rightarrow> ''none'') @ '' (status '' @ int_dec status @ '')'',
       re_status = status, re_contentType = contentType, re_rpcCode = None\<rparr>
     else case jc_parse c body of
       Inr j \<Rightarrow> Inr j
     | Inl reason \<Rightarrow> Inl \<lparr>re_kind = MALFORMED_JSON,
         re_message = ''Malformed JSON in RPC response (status '' @ int_dec status @ ''): '' @ reason,
         re_status = status, re_contentType = contentType, re_rpcCode = None\<rparr>)"

text \<open>The members of an \<open>error\<close> that is not an object, or is an array, are all absent.\<close>

definition rpc_error_code :: "json \<Rightarrow> js_number option" where
  "rpc_error_code e = (case jget (members e) ''code'' of Some (JNum n) \<Rightarrow> Some n | _ \<Rightarrow> None)"

definition rpc_error_detail :: "json \<Rightarrow> string" where
  "rpc_error_detail e = (case jget (members e) ''message'' of Some (JStr m) \<Rightarrow> m | _ \<Rightarrow> ''no message'')"

definition parseJsonRpcResult ::
  "json_codec \<Rightarrow> string \<Rightarrow> string option \<Rightarrow> int \<Rightarrow> rpc_response_error + json" where
  "parseJsonRpcResult c body contentType status =
    (case parseJsonRpcResponse c body contentType status of
       Inl e \<Rightarrow> Inl e
     | Inr envelope \<Rightarrow>
         (let malformed = (\<lambda>m. \<lparr>re_kind = MALFORMED_JSON, re_message = m @ '' (status '' @ int_dec status @ '')'',
              re_status = status, re_contentType = contentType, re_rpcCode = None\<rparr>)
          in if \<not> isRecord envelope then Inl (malformed ''RPC response is not a JSON-RPC object'')
             else (case jget (members envelope) ''error'' of
               Some error \<Rightarrow>
                 if error \<noteq> JNull
                 then Inl \<lparr>re_kind = JSON_RPC_ERROR,
                   re_message = ''JSON-RPC error '' @
                     (case rpc_error_code error of Some n \<Rightarrow> jc_number c n | None \<Rightarrow> ''unknown'') @
                     '' (status '' @ int_dec status @ ''): '' @ rpc_error_detail error,
                   re_status = status, re_contentType = contentType, re_rpcCode = rpc_error_code error\<rparr>
                 else (case jget (members envelope) ''result'' of
                     None \<Rightarrow> Inl (malformed ''RPC response has neither result nor error'')
                   | Some r \<Rightarrow> Inr r)
             | None \<Rightarrow> (case jget (members envelope) ''result'' of
                   None \<Rightarrow> Inl (malformed ''RPC response has neither result nor error'')
                 | Some r \<Rightarrow> Inr r))))"

section \<open>Schemas\<close>

datatype field_type = FtString | FtNumber | FtArray | FtObject

text \<open>\<open>typeOf\<close> with \<open>'null'\<close> and \<open>'other'\<close> as the two failures.\<close>

datatype actual_type = Known field_type | NullType | OtherType

definition SCHEMA_PROTOCOL_LINES :: "int list" where
  "SCHEMA_PROTOCOL_LINES = [20, 21, 22]"

record method_schema =
  sc_required :: "(string \<times> field_type) list"
  sc_since :: "(int \<times> (string \<times> field_type) list) list"

definition SCHEMAS :: "(string \<times> method_schema) list" where
  "SCHEMAS =
    [(''getHealth'', \<lparr>sc_required = [(''status'', FtString)], sc_since = []\<rparr>),
     (''getNetwork'', \<lparr>sc_required = [(''passphrase'', FtString), (''protocolVersion'', FtNumber)], sc_since = []\<rparr>),
     (''getLatestLedger'', \<lparr>sc_required = [(''id'', FtString), (''protocolVersion'', FtNumber),
        (''sequence'', FtNumber)], sc_since = []\<rparr>),
     (''getLedgerEntries'', \<lparr>sc_required = [(''entries'', FtArray), (''latestLedger'', FtNumber)], sc_since = []\<rparr>),
     (''simulateTransaction'', \<lparr>sc_required = [(''latestLedger'', FtNumber)], sc_since = []\<rparr>),
     (''sendTransaction'', \<lparr>sc_required = [(''status'', FtString), (''hash'', FtString),
        (''latestLedger'', FtNumber)], sc_since = []\<rparr>),
     (''getTransaction'', \<lparr>sc_required = [(''status'', FtString), (''latestLedger'', FtNumber)],
        sc_since = [(22, [(''txHash'', FtString)])]\<rparr>)]"

text \<open>
  \<open>SCHEMAS[method]\<close> reads an object literal, which inherits the members of \<open>Object.prototype\<close>. Those
  are truthy values without \<open>required\<close> and \<open>since\<close>.
\<close>

definition OBJECT_PROTOTYPE :: "string list" where
  "OBJECT_PROTOTYPE = [''constructor'', ''__defineGetter__'', ''__defineSetter__'', ''hasOwnProperty'',
     ''__lookupGetter__'', ''__lookupSetter__'', ''isPrototypeOf'', ''propertyIsEnumerable'', ''toString'',
     ''valueOf'', ''__proto__'', ''toLocaleString'']"

definition schema_of :: "string \<Rightarrow> method_schema option" where
  "schema_of meth = (case jget SCHEMAS meth of
     Some s \<Rightarrow> Some s
   | None \<Rightarrow> if List.member OBJECT_PROTOTYPE meth then Some \<lparr>sc_required = [], sc_since = []\<rparr> else None)"

fun typeOf :: "json \<Rightarrow> actual_type" where
  "typeOf JNull = NullType"
| "typeOf (JArr xs) = Known FtArray"
| "typeOf (JStr s) = Known FtString"
| "typeOf (JNum n) = Known FtNumber"
| "typeOf (JObj fs) = Known FtObject"
| "typeOf (JBool b) = OtherType"

fun type_name :: "field_type \<Rightarrow> string" where
  "type_name FtString = ''string''"
| "type_name FtNumber = ''number''"
| "type_name FtArray = ''array''"
| "type_name FtObject = ''object''"

fun actual_name :: "actual_type \<Rightarrow> string" where
  "actual_name (Known t) = type_name t"
| "actual_name NullType = ''null''"
| "actual_name OtherType = ''other''"

record schema_error =
  sx_message :: string
  sx_method :: string
  sx_protocolVersion :: int
  sx_field :: "string option"

definition schema_fields :: "method_schema \<Rightarrow> int \<Rightarrow> (string \<times> field_type) list" where
  "schema_fields s protocolVersion =
    foldl (\<lambda>fields line. if line \<le> protocolVersion
             then foldl (\<lambda>m (f, t). jset m f t) fields (case jget (sc_since s) line of Some fs \<Rightarrow> fs | None \<Rightarrow> [])
             else fields)
      (sc_required s) SCHEMA_PROTOCOL_LINES"

fun check_fields ::
  "string \<Rightarrow> int \<Rightarrow> (string \<times> json) list \<Rightarrow> (string \<times> field_type) list \<Rightarrow> schema_error + unit" where
  "check_fields meth pv rec [] = Inr ()"
| "check_fields meth pv rec ((field, expected) # rest) =
    (case jget rec field of
       None \<Rightarrow> Inl \<lparr>sx_message = meth @ '' result is missing '' @ field @ '' (protocol '' @ int_dec pv @ '')'',
         sx_method = meth, sx_protocolVersion = pv, sx_field = Some field\<rparr>
     | Some v \<Rightarrow>
         if typeOf v \<noteq> Known expected
         then Inl \<lparr>sx_message = meth @ '' result field '' @ field @ '' must be '' @ type_name expected @
                '', received '' @ actual_name (typeOf v) @ '' (protocol '' @ int_dec pv @ '')'',
              sx_method = meth, sx_protocolVersion = pv, sx_field = Some field\<rparr>
         else check_fields meth pv rec rest)"

definition validateRpcResultSchema :: "string \<Rightarrow> json \<Rightarrow> int \<Rightarrow> schema_error + unit" where
  "validateRpcResultSchema meth result protocolVersion =
    (let err = (\<lambda>m. Inl \<lparr>sx_message = m, sx_method = meth, sx_protocolVersion = protocolVersion, sx_field = None\<rparr>)
     in if \<not> List.member SCHEMA_PROTOCOL_LINES protocolVersion
        then err (''Protocol '' @ int_dec protocolVersion @ '' is outside the supported matrix ('' @
               join_with '', '' (map int_dec SCHEMA_PROTOCOL_LINES) @ '')'')
        else (case schema_of meth of
            None \<Rightarrow> err (''No response schema for method '' @ meth)
          | Some schema \<Rightarrow>
              if typeOf result \<noteq> Known FtObject then err (meth @ '' result must be an object'')
              else check_fields meth protocolVersion (members result) (schema_fields schema protocolVersion)))"

section \<open>Methods an endpoint has\<close>

definition JSON_RPC_METHOD_NOT_FOUND :: int where
  "JSON_RPC_METHOD_NOT_FOUND = -32601"

definition RESTORE_REQUIRED_METHODS :: "string list" where
  "RESTORE_REQUIRED_METHODS = [''getLedgerEntries'', ''simulateTransaction'', ''sendTransaction'', ''getTransaction'']"

record probe_result =
  pb_available :: "string list"
  pb_missing :: "string list"

text \<open>\<open>body.error?.code\<close>: a \<open>null\<close> body is a \<open>TypeError\<close>, every other body has some answer.\<close>

definition probe_missing :: "json \<Rightarrow> string + bool" where
  "probe_missing body =
    (if body = JNull then Inl ''Cannot read properties of null''
     else Inr (case jget (members body) ''error'' of
         Some e \<Rightarrow> jget (members e) ''code'' = Some (JNum (js_int JSON_RPC_METHOD_NOT_FOUND))
       | None \<Rightarrow> False))"

definition probe_body :: "json_codec \<Rightarrow> nat \<Rightarrow> string \<Rightarrow> string" where
  "probe_body c index meth = request_body c (int index + 1) meth (Some (JArr []))"

definition probe_one :: "json_codec \<Rightarrow> fetch_like \<Rightarrow> nat \<Rightarrow> string \<Rightarrow> string + bool" where
  "probe_one c fetch index meth =
    (case fetch (probe_body c index meth) of
       Inl e \<Rightarrow> Inl e
     | Inr response \<Rightarrow>
         if \<not> hr_ok response
         then Inl (''RPC probe for '' @ meth @ '' returned HTTP '' @ int_dec (hr_status response))
         else (case hr_text response of
             Inl e \<Rightarrow> Inl e
           | Inr t \<Rightarrow> (case jc_parse c t of Inl e \<Rightarrow> Inl e | Inr body \<Rightarrow> probe_missing body)))"

fun probe_from :: "json_codec \<Rightarrow> fetch_like \<Rightarrow> nat \<Rightarrow> string list \<Rightarrow> probe_result \<Rightarrow> string + probe_result" where
  "probe_from c fetch index [] r = Inr r"
| "probe_from c fetch index (meth # methods) r =
    (case probe_one c fetch index meth of
       Inl e \<Rightarrow> Inl e
     | Inr True \<Rightarrow> probe_from c fetch (Suc index) methods (r\<lparr>pb_missing := pb_missing r @ [meth]\<rparr>)
     | Inr False \<Rightarrow> probe_from c fetch (Suc index) methods (r\<lparr>pb_available := pb_available r @ [meth]\<rparr>))"

definition probeRpcMethods :: "json_codec \<Rightarrow> fetch_like \<Rightarrow> string list \<Rightarrow> string + probe_result" where
  "probeRpcMethods c fetch methods = probe_from c fetch 0 methods \<lparr>pb_available = [], pb_missing = []\<rparr>"

text \<open>
  An error as \<open>isUnsupportedMethodError\<close> reads it: not an object, or its \<open>code\<close>, the code of its
  nested response, and its message as a string.
\<close>

datatype unknown_err =
    NotObject
  | ErrObject (ue_code: "json option") (ue_nested: "json option") (ue_message: string)

definition isUnsupportedMethodError :: "unknown_err \<Rightarrow> bool" where
  "isUnsupportedMethodError err = (case err of
     NotObject \<Rightarrow> False
   | ErrObject direct nested message \<Rightarrow>
       if direct = Some (JNum (js_int JSON_RPC_METHOD_NOT_FOUND)) \<or>
          direct = Some (JStr (int_dec JSON_RPC_METHOD_NOT_FOUND)) then True
       else if nested = Some (JNum (js_int JSON_RPC_METHOD_NOT_FOUND)) then True
       else js_includes (js_toLowerCase message) ''method not found'')"

record unsupported_context =
  uc_method :: string
  uc_endpointUrl :: string
  uc_protocolVersion :: "int option"

record unsupported_error =
  un_context :: unsupported_context
  un_message :: string
  un_cause :: unknown_err

definition unsupported_new :: "unsupported_context \<Rightarrow> unknown_err \<Rightarrow> unsupported_error" where
  "unsupported_new x cause =
    (let version = (case uc_protocolVersion x of None \<Rightarrow> [] | Some v \<Rightarrow> '' (protocol '' @ int_dec v @ '')'')
     in \<lparr>un_context = x, un_message = ''RPC method '' @ uc_method x @ '' is not supported by endpoint '' @
          uc_endpointUrl x @ version, un_cause = cause\<rparr>)"

definition describeUnsupportedMethod :: "unknown_err \<Rightarrow> unsupported_context \<Rightarrow> unknown_err + unsupported_error" where
  "describeUnsupportedMethod err x =
    (if \<not> isUnsupportedMethodError err then Inl err else Inr (unsupported_new x err))"

section \<open>Lemmas\<close>

text \<open>A reply that is the answer to request \<open>rid\<close> with the value \<open>v\<close>.\<close>

definition answers :: "json_codec \<Rightarrow> string + http_response \<Rightarrow> int \<Rightarrow> json \<Rightarrow> bool" where
  "answers c reply rid v = (case reply of
     Inl e \<Rightarrow> False
   | Inr response \<Rightarrow> hr_ok response \<and> (case hr_text response of
       Inl e \<Rightarrow> False
     | Inr t \<Rightarrow> (case jc_parse c t of
         Inr (JObj fs) \<Rightarrow> jget fs ''jsonrpc'' = Some (JStr ''2.0'') \<and> jget fs ''id'' = Some (JNum (js_int rid)) \<and>
           jget fs ''result'' = Some v \<and> jget fs ''error'' = None
       | _ \<Rightarrow> False)))"

text \<open>A reply after which the request is sent again: none at all, HTTP 429 or a server error.\<close>

definition try_again :: "string + http_response \<Rightarrow> bool" where
  "try_again reply = (case reply of
     Inl e \<Rightarrow> True
   | Inr response \<Rightarrow> \<not> hr_ok response \<and> (hr_status response = 429 \<or> 500 \<le> hr_status response))"

definition as_call :: "transport_err + 'a \<Rightarrow> call_err + 'a" where
  "as_call r = (case r of
     Inr v \<Rightarrow> Inr v
   | Inl (JsonRpcTransportError m st again after) \<Rightarrow> Inl (TransportError st again after)
   | Inl (JsonRpcError n m d) \<Rightarrow> Inl (OtherError m)
   | Inl (JsonRpcProtocolError m) \<Rightarrow> Inl (OtherError m)
   | Inl (BodyError m) \<Rightarrow> Inl (OtherError m))"

lemma jhas_jget: "jhas m k \<longleftrightarrow> jget m k \<noteq> None"
  by (induction m) (auto simp: jhas_def jget_def)

lemma envelope_result:
  "parseJsonRpcEnvelope c body rid = Inr v \<longleftrightarrow>
   (\<exists>fs. body = JObj fs \<and> jget fs ''jsonrpc'' = Some (JStr ''2.0'') \<and> jget fs ''id'' = Some (JNum (js_int rid)) \<and>
      jget fs ''result'' = Some v \<and> jget fs ''error'' = None)"
  by (cases body) (auto simp: parseJsonRpcEnvelope_def isRecord_def members_def Let_def jhas_jget)

lemma envelope_not_transport:
  "parseJsonRpcEnvelope c body rid \<noteq> Inl (JsonRpcTransportError m st again after)"
  by (auto simp: parseJsonRpcEnvelope_def envelope_error_def Let_def
      split: option.split json.split prod.split)

lemma send_result:
  "send_request c dp fetch now rid meth params = Inr v \<longleftrightarrow> answers c (fetch (request_body c rid meth params)) rid v"
  by (auto simp: send_request_def answers_def readJson_def envelope_result Let_def
      split: sum.splits json.splits)

lemma send_transport_error:
  "send_request c dp fetch now rid meth params = Inl (JsonRpcTransportError m st again after) \<Longrightarrow>
   again \<longleftrightarrow> try_again (fetch (request_body c rid meth params))"
  by (auto simp: send_request_def try_again_def readJson_def envelope_not_transport Let_def
      split: sum.splits if_splits)

lemma as_call_Inr: "as_call r = Inr v \<longleftrightarrow> r = Inr v"
  by (auto simp: as_call_def split: sum.split transport_err.split)

lemma as_call_transport:
  "as_call r = Inl (TransportError st again after) \<Longrightarrow> \<exists>m. r = Inl (JsonRpcTransportError m st again after)"
  by (auto simp: as_call_def split: sum.splits transport_err.splits)

lemma send_retry_after:
  assumes "send_request c dp fetch now rid meth params = Inl (JsonRpcTransportError m st again after)"
    and "fetch (request_body c rid meth params) = Inr response" and "hr_retryAfter response = Some (nat_dec n)"
  shows "after = Some (real n * 1000)"
  using assms
  by (auto simp: send_request_def readJson_def envelope_not_transport parseRetryAfter_seconds Let_def
      split: sum.splits if_splits)

lemma check_fields_ok:
  "check_fields meth pv rec fs = Inr () \<longleftrightarrow>
   (\<forall>(f, t) \<in> set fs. \<exists>v. jget rec f = Some v \<and> typeOf v = Known t)"
  by (induction meth pv rec fs rule: check_fields.induct) (auto split: option.split)

lemma typeOf_object: "typeOf v = Known FtObject \<longleftrightarrow> (\<exists>fs. v = JObj fs)"
  by (cases v) auto

lemma no_schema_fields: "schema_fields \<lparr>sc_required = [], sc_since = []\<rparr> pv = []"
  by (simp add: schema_fields_def SCHEMA_PROTOCOL_LINES_def)

lemma mset_split: "mset (filter P xs) + mset (filter (\<lambda>x. \<not> P x) xs) = mset xs"
  by (induction xs) auto

lemma probe_from_spec:
  assumes "probe_from c fetch n methods r0 = Inr r"
  shows "pb_missing r = pb_missing r0 @ map fst (filter (\<lambda>(m, i). probe_one c fetch i m = Inr True)
           (zip methods [n..<n + length methods])) \<and>
         pb_available r = pb_available r0 @ map fst (filter (\<lambda>(m, i). probe_one c fetch i m = Inr False)
           (zip methods [n..<n + length methods])) \<and>
         (\<forall>(m, i) \<in> set (zip methods [n..<n + length methods]). \<exists>b. probe_one c fetch i m = Inr b)"
  using assms
proof (induction methods arbitrary: n r0)
  case (Cons m ms)
  have z: "zip (m # ms) [n..<Suc (n + length ms)] = (m, n) # zip ms [Suc n..<Suc (n + length ms)]"
    by (simp add: upt_conv_Cons del: upt_Suc)
  obtain b where b: "probe_one c fetch n m = Inr b"
    using Cons.prems by (cases "probe_one c fetch n m") auto
  show ?case
  proof (cases b)
    case True
    with Cons.prems b Cons.IH [of "Suc n" "r0\<lparr>pb_missing := pb_missing r0 @ [m]\<rparr>"] show ?thesis
      by (auto simp add: z simp del: upt_Suc)
  next
    case False
    with Cons.prems b Cons.IH [of "Suc n" "r0\<lparr>pb_available := pb_available r0 @ [m]\<rparr>"] show ?thesis
      by (auto simp add: z simp del: upt_Suc)
  qed
qed simp

section \<open>Properties\<close>

text \<open>
  C12: a request retried by \<open>withRetry\<close>, with a fresh id each time, resolves only with the \<open>result\<close>
  of a JSON-RPC 2.0 answer to the id of its last attempt; every attempt before that got no reply, HTTP 429
  or a server error; and after a \<open>Retry-After\<close> of decimal seconds exactly that long was waited.
\<close>

theorem transport_retry_sound:
  assumes "withRetry (\<lambda>k. as_call (send_request c dp (fetch k) (now k) (rid + int k) meth params)) ro s clock = (r, ws)"
  shows "(\<forall>v. r = Inr v \<longrightarrow>
      answers c (fetch (Suc (length ws)) (request_body c (rid + int (Suc (length ws))) meth params))
        (rid + int (Suc (length ws))) v) \<and>
    (\<forall>i < length ws. try_again (fetch (Suc i) (request_body c (rid + int (Suc i)) meth params)) \<and>
      (\<forall>response n. fetch (Suc i) (request_body c (rid + int (Suc i)) meth params) = Inr response \<and>
         hr_retryAfter response = Some (nat_dec n) \<longrightarrow> ws ! i = real n * 1000)) \<and>
    int (length ws) \<le> max 0 (ro_maxRetries ro)"
proof -
  let ?send = "\<lambda>k. send_request c dp (fetch k) (now k) (rid + int k) meth params"
  have loop: "withRetry_loop (\<lambda>k. as_call (?send k)) ro s clock 1 = (r, ws)"
    using assms by (simp add: withRetry_def)
  have again: "try_again (fetch (Suc i) (request_body c (rid + int (Suc i)) meth params)) \<and>
      (\<forall>response n. fetch (Suc i) (request_body c (rid + int (Suc i)) meth params) = Inr response \<and>
         hr_retryAfter response = Some (nat_dec n) \<longrightarrow> ws ! i = real n * 1000)" if i: "i < length ws" for i
  proof -
    obtain e where e: "as_call (?send (Suc i)) = Inl e" "\<not> retry_stops ro (Suc i) e"
        "ws ! i = retry_wait ro (Suc i) e"
      using withRetry_loop_waits [OF loop i] by auto
    then obtain st after where te: "e = TransportError st True after" by (cases e) (auto simp: retry_stops_def)
    with e(1) obtain m where m: "?send (Suc i) = Inl (JsonRpcTransportError m st True after)"
      using as_call_transport by blast
    from send_transport_error [OF m] send_retry_after [OF m] e(3) te show ?thesis
      by (auto simp: retry_wait_def)
  qed
  have "answers c (fetch (Suc (length ws)) (request_body c (rid + int (Suc (length ws))) meth params))
      (rid + int (Suc (length ws))) v" if "r = Inr v" for v
  proof -
    have "as_call (?send (Suc (length ws))) = Inr v" using withRetry_loop_result [OF loop] that by simp
    then show ?thesis by (simp only: as_call_Inr send_result)
  qed
  moreover have "int (length ws) \<le> max 0 (ro_maxRetries ro)"
    using withRetry_loop_attempts [OF loop] by simp
  ultimately show ?thesis using again by blast
qed

definition sample_codec :: json_codec where
  "sample_codec = \<lparr>jc_parse = (\<lambda>t. if t = ''ok'' then Inr (JObj [(''jsonrpc'', JStr ''2.0''),
       (''id'', JNum (js_int 2)), (''result'', JNum (js_int 5))]) else Inl ''bad''),
     jc_stringify = (\<lambda>j. []), jc_number = (\<lambda>n. [])\<rparr>"

definition sample_fetch :: "nat \<Rightarrow> fetch_like" where
  "sample_fetch k body = (if k = 1
     then Inr \<lparr>hr_ok = False, hr_status = 503, hr_retryAfter = Some ''2'', hr_text = Inr []\<rparr>
     else Inr \<lparr>hr_ok = True, hr_status = 200, hr_retryAfter = None, hr_text = Inr ''ok''\<rparr>)"

theorem transport_retry_sound_witness:
  "withRetry (\<lambda>k. as_call (send_request sample_codec (\<lambda>t. None) (sample_fetch k) 0 (0 + int k) ''getHealth'' None))
     \<lparr>ro_maxRetries = 3, ro_getDelay = (\<lambda>a. 500), ro_deadlineMs = None\<rparr> 0 (\<lambda>a. 0) =
     (Inr (JNum (js_int 5)), [2000]) \<and>
   answers sample_codec (sample_fetch 2 []) 2 (JNum (js_int 5))"
proof -
  let ?op = "\<lambda>k. as_call (send_request sample_codec (\<lambda>t. None) (sample_fetch k) 0 (0 + int k) ''getHealth'' None)"
  let ?ro = "\<lparr>ro_maxRetries = 3, ro_getDelay = (\<lambda>a. 500), ro_deadlineMs = None\<rparr>"
  have two: "parseRetryAfter (\<lambda>t. None) (Some ''2'') 0 = Some 2000"
  proof -
    have "nat_dec 2 = ''2''" by code_simp
    then show ?thesis using parseRetryAfter_seconds [of "\<lambda>t. None" 2 0] by simp
  qed
  have op1: "?op 1 = Inl (TransportError (Some 503) True (Some 2000))"
    by (simp add: as_call_def send_request_def sample_fetch_def two)
  have op2: "?op 2 = Inr (JNum (js_int 5))"
    unfolding as_call_Inr send_result by (simp add: answers_def sample_fetch_def sample_codec_def jget_def)
  have run: "withRetry ?op ?ro 0 (\<lambda>a. 0) = (Inr (JNum (js_int 5)), [2000])"
    unfolding withRetry_def
    by (subst withRetry_loop.simps, subst withRetry_loop.simps)
      (use op1 op2 in \<open>simp add: retry_stops_def retry_wait_def past_deadline_def numeral_2_eq_2\<close>)
  have b: "request_body sample_codec x y z = []" for x y z by (simp add: request_body_def sample_codec_def)
  from transport_retry_sound [OF run] run show ?thesis by (simp add: b numeral_2_eq_2)
qed

text \<open>
  A result passes its schema exactly when the protocol is one of the matrix, the result is an
  object and every field the method requires on that protocol is there with its type, or the method is no
  method at all but a member every JavaScript object inherits: those pass with any object.
\<close>

theorem schema_accepts:
  "validateRpcResultSchema meth result pv = Inr () \<longleftrightarrow>
     pv \<in> {20, 21, 22} \<and> (\<exists>fs. result = JObj fs \<and>
       ((\<exists>s. jget SCHEMAS meth = Some s \<and>
           (\<forall>(f, t) \<in> set (schema_fields s pv). \<exists>v. jget fs f = Some v \<and> typeOf v = Known t)) \<or>
        (jget SCHEMAS meth = None \<and> meth \<in> set OBJECT_PROTOTYPE)))"
  by (auto simp: validateRpcResultSchema_def Let_def schema_of_def check_fields_ok typeOf_object members_def
      no_schema_fields SCHEMA_PROTOCOL_LINES_def split: option.splits)

theorem schema_accepts_witness:
  "validateRpcResultSchema ''toString'' (JObj []) 22 = Inr () \<and>
   \<not> validateRpcResultSchema ''getHealth'' (JObj []) 22 = Inr ()"
proof -
  have "jget SCHEMAS ''toString'' = None" "''toString'' \<in> set OBJECT_PROTOTYPE"
    "\<exists>s. jget SCHEMAS ''getHealth'' = Some s \<and> (''status'', FtString) \<in> set (schema_fields s 22)"
    by (simp_all add: SCHEMAS_def jget_def OBJECT_PROTOTYPE_def schema_fields_def SCHEMA_PROTOCOL_LINES_def)
  then show ?thesis
    unfolding schema_accepts by force
qed

text \<open>
  A probe that returns has asked every method once, in order: the missing ones are those whose
  reply carries the error code -32601, all others are available, and none is lost or counted twice.
\<close>

theorem probe_partitions:
  assumes "probeRpcMethods c fetch methods = Inr r"
  shows "pb_missing r = map fst (filter (\<lambda>(m, i). probe_one c fetch i m = Inr True) (zip methods [0..<length methods])) \<and>
    pb_available r = map fst (filter (\<lambda>(m, i). probe_one c fetch i m = Inr False) (zip methods [0..<length methods])) \<and>
    mset (pb_missing r) + mset (pb_available r) = mset methods"
proof -
  let ?z = "zip methods [0..<length methods]"
  have spec: "pb_missing r = map fst (filter (\<lambda>(m, i). probe_one c fetch i m = Inr True) ?z)"
      "pb_available r = map fst (filter (\<lambda>(m, i). probe_one c fetch i m = Inr False) ?z)"
      "\<forall>(m, i) \<in> set ?z. \<exists>b. probe_one c fetch i m = Inr b"
    using probe_from_spec [OF assms [unfolded probeRpcMethods_def]] by auto
  have "filter (\<lambda>(m, i). probe_one c fetch i m = Inr False) ?z =
      filter (\<lambda>x. \<not> (\<lambda>(m, i). probe_one c fetch i m = Inr True) x) ?z"
  proof (intro filter_cong refl)
    fix x assume "x \<in> set ?z"
    then obtain b where "probe_one c fetch (snd x) (fst x) = Inr b" using spec(3) by fastforce
    then show "(case x of (m, i) \<Rightarrow> probe_one c fetch i m = Inr False) =
        (\<not> (case x of (m, i) \<Rightarrow> probe_one c fetch i m = Inr True))"
      by (cases x; cases b) auto
  qed
  then have "mset (pb_missing r) + mset (pb_available r) =
      image_mset fst (mset (filter (\<lambda>(m, i). probe_one c fetch i m = Inr True) ?z) +
        mset (filter (\<lambda>x. \<not> (\<lambda>(m, i). probe_one c fetch i m = Inr True) x) ?z))"
    by (simp only: spec(1,2) mset_map image_mset_union)
  also have "\<dots> = mset (map fst ?z)" by (simp only: mset_split mset_map)
  also have "\<dots> = mset methods" by simp
  finally show ?thesis using spec by blast
qed

theorem probe_partitions_witness:
  "\<exists>r. probeRpcMethods sample_codec (sample_fetch 2) [''a'', ''b''] = Inr r \<and> mset (pb_available r) = {#''a'', ''b''#}"
proof -
  have one: "probe_one sample_codec (sample_fetch 2) i m = Inr False" for i m
  proof -
    have "sample_fetch 2 (probe_body sample_codec i m) =
        Inr \<lparr>hr_ok = True, hr_status = 200, hr_retryAfter = None, hr_text = Inr ''ok''\<rparr>"
      by (simp add: sample_fetch_def)
    moreover have "probe_missing (JObj [(''jsonrpc'', JStr ''2.0''), (''id'', JNum (js_int 2)),
        (''result'', JNum (js_int 5))]) = Inr False"
      by (simp add: probe_missing_def members_def jget_def)
    ultimately show ?thesis by (simp add: probe_one_def sample_codec_def)
  qed
  have run: "probeRpcMethods sample_codec (sample_fetch 2) [''a'', ''b''] =
      Inr \<lparr>pb_available = [''a'', ''b''], pb_missing = []\<rparr>"
    by (simp add: probeRpcMethods_def one)
  have "mset (pb_available \<lparr>pb_available = [''a'', ''b''], pb_missing = []\<rparr>) = {#''a'', ''b''#}"
    using conjunct2 [OF conjunct2 [OF probe_partitions [OF run]]] by simp
  with run show ?thesis by blast
qed

end
