(* ===== verification/Version.thy ===== *)
theory Version
  imports JsonRpc
begin

text \<open>
  Negotiation of the protocol version (\<open>packages/sdk/src/version-negotiator.ts\<close>). What \<open>getVersionInfo\<close> of the
  RPC server does is an argument; log lines are left out. The text of a number belongs to the engine.
\<close>

section \<open>Versions\<close>

datatype xdr_variant = XdrV20 | XdrV21 | XdrV22 | XdrUnknown

record version_info =
  vi_protocolVersion :: js_number
  vi_coreVersion :: "string option"
  vi_captiveCoreVersion :: "string option"
  vi_horizonVersion :: "string option"
  vi_xdrVariant :: xdr_variant
  vi_supported :: bool
  vi_rawResponse :: "json option"

record xdr_encoding =
  xo_useBase64 :: bool
  xo_strictMode :: bool
  xo_protocolVersion :: int

definition MIN_SUPPORTED_PROTOCOL :: int where "MIN_SUPPORTED_PROTOCOL = 20"
definition MAX_SUPPORTED_PROTOCOL :: int where "MAX_SUPPORTED_PROTOCOL = 22"

definition PROTOCOL_COMPATIBILITY_MATRIX :: "(js_number \<times> bool \<times> xdr_variant) list" where
  "PROTOCOL_COMPATIBILITY_MATRIX =
    [(js_int 20, True, XdrV20), (js_int 21, True, XdrV21), (js_int 22, True, XdrV22)]"

record negotiator =
  ng_cached :: "version_info option"
  ng_networkId :: "string option"
  ng_minProtocolPerNetwork :: "(string, js_number) js_map"

text \<open>An empty network id counts as none.\<close>

definition negotiator_new :: "string option \<Rightarrow> (string, js_number) js_map option \<Rightarrow> negotiator" where
  "negotiator_new networkId minProtocols =
    \<lparr>ng_cached = None, ng_networkId = (if truthy_str networkId then networkId else None),
     ng_minProtocolPerNetwork = (case minProtocols of None \<Rightarrow> [] | Some m \<Rightarrow> m)\<rparr>"

definition js_lt :: "js_number \<Rightarrow> js_number \<Rightarrow> bool" where
  "js_lt a b = (js_le a b \<and> \<not> js_le b a)"

text \<open>
  The lookup in the overrides finds what an object inherits as well; a function is \<open>NaN\<close> in a comparison.
\<close>

definition getMinimumProtocolForNetwork :: "negotiator \<Rightarrow> js_number" where
  "getMinimumProtocolForNetwork s = (case ng_networkId s of
     None \<Rightarrow> js_int MIN_SUPPORTED_PROTOCOL
   | Some k \<Rightarrow> (case jget (ng_minProtocolPerNetwork s) k of
       Some m \<Rightarrow> m
     | None \<Rightarrow> if List.member OBJECT_PROTOTYPE k then NaN else js_int MIN_SUPPORTED_PROTOCOL))"

text \<open>\<open>parseInt(s, 10)\<close>; \<open>None\<close> is \<open>NaN\<close>.\<close>

definition js_parseInt :: "string \<Rightarrow> int option" where
  "js_parseInt s =
    (let t = dropWhile is_ws s;
         negative = (take 1 t = ''-'');
         u = (if take 1 t = ''-'' \<or> take 1 t = ''+'' then tl t else t);
         ds = takeWhile is_digit u
     in if ds = [] then None else Some (if negative then - int (dec_value ds) else int (dec_value ds)))"

definition parsed_text :: "json option \<Rightarrow> js_number option" where
  "parsed_text v = (case v of Some (JStr s) \<Rightarrow> map_option js_int (js_parseInt s) | _ \<Rightarrow> None)"

definition parseProtocolVersion :: "json option \<Rightarrow> js_number" where
  "parseProtocolVersion raw = (case raw of
     Some (JObj kvs) \<Rightarrow> (case jget kvs ''protocolVersion'' of
         Some (JNum x) \<Rightarrow> x
       | p \<Rightarrow> (case parsed_text p of
           Some x \<Rightarrow> x
         | None \<Rightarrow> (case parsed_text (jget kvs ''version'') of
             Some x \<Rightarrow> x | None \<Rightarrow> js_int MIN_SUPPORTED_PROTOCOL)))
   | _ \<Rightarrow> js_int MIN_SUPPORTED_PROTOCOL)"

definition core_text :: "json option \<Rightarrow> string \<Rightarrow> string option" where
  "core_text raw k = (case raw of
     Some (JObj kvs) \<Rightarrow> (case jget kvs k of Some (JStr s) \<Rightarrow> Some s | _ \<Rightarrow> None) | _ \<Rightarrow> None)"

text \<open>The method is missing, fails, or answers.\<close>

datatype version_answer = NoGetVersionInfo | VersionFails string | VersionAnswers "json option"

definition answered_raw :: "version_answer \<Rightarrow> json option" where
  "answered_raw a = (case a of VersionAnswers raw \<Rightarrow> raw | _ \<Rightarrow> None)"

definition answered_version :: "version_answer \<Rightarrow> js_number" where
  "answered_version a = (case a of VersionAnswers raw \<Rightarrow> parseProtocolVersion raw | _ \<Rightarrow> js_int MIN_SUPPORTED_PROTOCOL)"

definition version_info_of :: "js_number \<Rightarrow> json option \<Rightarrow> version_info" where
  "version_info_of v raw =
    (let entry = map_of PROTOCOL_COMPATIBILITY_MATRIX v
     in \<lparr>vi_protocolVersion = v, vi_coreVersion = core_text raw ''coreVersion'',
         vi_captiveCoreVersion = core_text raw ''captiveCoreVersion'', vi_horizonVersion = core_text raw ''horizonVersion'',
         vi_xdrVariant = (case entry of None \<Rightarrow> XdrUnknown | Some (b, x) \<Rightarrow> x),
         vi_supported = (case entry of None \<Rightarrow> False | Some (b, x) \<Rightarrow> b), vi_rawResponse = raw\<rparr>)"

record unsupported_protocol =
  up_message :: string
  up_code :: string

definition negotiate ::
  "(js_number \<Rightarrow> string) \<Rightarrow> version_answer \<Rightarrow> negotiator \<Rightarrow> (unsupported_protocol + version_info) \<times> negotiator" where
  "negotiate shown a s =
    (let protocolVersion = answered_version a; minProtocol = getMinimumProtocolForNetwork s
     in if js_lt protocolVersion minProtocol
        then (Inl \<lparr>up_message = ''Unsupported Soroban protocol version '' @ shown protocolVersion @
                 ''. Minimum supported: '' @ shown minProtocol @
                 (case ng_networkId s of None \<Rightarrow> [] | Some k \<Rightarrow> '' (for network: '' @ k @ '')''),
                up_code = ''UNSUPPORTED_PROTOCOL''\<rparr>, s)
        else let info = version_info_of protocolVersion (answered_raw a)
             in (Inr info, s\<lparr>ng_cached := Some info\<rparr>))"

definition getVersionInfo :: "negotiator \<Rightarrow> version_info option" where
  "getVersionInfo s = ng_cached s"

definition adaptXdrEncoding :: "xdr_variant \<Rightarrow> xdr_encoding" where
  "adaptXdrEncoding x = (case x of
     XdrV20 \<Rightarrow> \<lparr>xo_useBase64 = True, xo_strictMode = True, xo_protocolVersion = 20\<rparr>
   | XdrV21 \<Rightarrow> \<lparr>xo_useBase64 = True, xo_strictMode = True, xo_protocolVersion = 21\<rparr>
   | XdrV22 \<Rightarrow> \<lparr>xo_useBase64 = True, xo_strictMode = False, xo_protocolVersion = 22\<rparr>
   | XdrUnknown \<Rightarrow> \<lparr>xo_useBase64 = True, xo_strictMode = True, xo_protocolVersion = MIN_SUPPORTED_PROTOCOL\<rparr>)"

section \<open>Properties\<close>

lemma js_lt_int [simp]: "js_lt (js_int a) (js_int b) \<longleftrightarrow> a < b"
  by (auto simp: js_lt_def)

lemma js_lt_NaN [simp]: "\<not> js_lt x NaN" "\<not> js_lt NaN x"
  by (cases x; simp add: js_lt_def)+

lemma supported_iff: "vi_supported (version_info_of v raw) \<longleftrightarrow> v \<in> {js_int 20, js_int 21, js_int 22}"
  by (auto simp: version_info_of_def PROTOCOL_COMPATIBILITY_MATRIX_def Let_def)

text \<open>What a negotiator promises: an answer accepted, described and remembered, or refused and forgotten.\<close>

definition negotiated :: "js_number \<Rightarrow> js_number \<Rightarrow> negotiator \<Rightarrow> (unsupported_protocol + version_info) \<times> negotiator \<Rightarrow> bool" where
  "negotiated v least s out = (case out of
     (Inl e, t) \<Rightarrow> js_lt v least \<and> up_code e = ''UNSUPPORTED_PROTOCOL'' \<and> t = s
   | (Inr info, t) \<Rightarrow> \<not> js_lt v least \<and> vi_protocolVersion info = v \<and>
       (vi_supported info \<longleftrightarrow> v \<in> {js_int 20, js_int 21, js_int 22}) \<and>
       (vi_xdrVariant info = XdrUnknown \<longleftrightarrow> \<not> vi_supported info) \<and>
       (vi_supported info \<longrightarrow> js_int (xo_protocolVersion (adaptXdrEncoding (vi_xdrVariant info))) = v) \<and>
       getVersionInfo t = Some info)"

text \<open>
  A version is refused exactly when it is below the least version of the network, and then what was
  negotiated before stays; an accepted one is remembered, counts as supported exactly for 20, 21 and 22, and its
  encoding hints are those of its own protocol. A server without version information counts as 20, so a network
  that asks for more refuses it even where the call only failed.
\<close>

theorem version_negotiated:
  "negotiated (answered_version a) (getMinimumProtocolForNetwork s) s (negotiate shown a s) \<and>
   negotiated (js_int 20) (js_int 21) (negotiator_new (Some ''n'') (Some [(''n'', js_int 21)]))
     (negotiate shown (VersionFails m) (negotiator_new (Some ''n'') (Some [(''n'', js_int 21)]))) \<and>
   fst (negotiate shown (VersionAnswers (Some (JObj [(''protocolVersion'', JNum (js_int 1))])))
     (negotiator_new (Some ''constructor'') None)) = Inr (version_info_of (js_int 1) (Some (JObj [(''protocolVersion'', JNum (js_int 1))])))"
proof (intro conjI)
  show gen: "negotiated (answered_version a) (getMinimumProtocolForNetwork s) s (negotiate shown a s)" for a s
    by (auto simp: negotiated_def negotiate_def Let_def supported_iff getVersionInfo_def adaptXdrEncoding_def)
      (auto simp: version_info_of_def PROTOCOL_COMPATIBILITY_MATRIX_def Let_def MIN_SUPPORTED_PROTOCOL_def)
  show "negotiated (js_int 20) (js_int 21) (negotiator_new (Some ''n'') (Some [(''n'', js_int 21)]))
     (negotiate shown (VersionFails m) (negotiator_new (Some ''n'') (Some [(''n'', js_int 21)])))"
    using gen [of "VersionFails m" "negotiator_new (Some ''n'') (Some [(''n'', js_int 21)])"]
    by (simp add: answered_version_def getMinimumProtocolForNetwork_def negotiator_new_def jget_def MIN_SUPPORTED_PROTOCOL_def)
  show "fst (negotiate shown (VersionAnswers (Some (JObj [(''protocolVersion'', JNum (js_int 1))])))
     (negotiator_new (Some ''constructor'') None)) = Inr (version_info_of (js_int 1) (Some (JObj [(''protocolVersion'', JNum (js_int 1))])))"
    by (simp add: negotiate_def answered_version_def answered_raw_def parseProtocolVersion_def getMinimumProtocolForNetwork_def
        negotiator_new_def jget_def OBJECT_PROTOTYPE_def Let_def)
qed

end
