(* ===== verification/Telemetry.thy ===== *)
theory Telemetry
  imports Values
begin

text \<open>
  Browser telemetry (\<open>packages/telemetry/src/telemetry.ts\<close>, the class, and \<open>packages/telemetry/src/index.ts\<close>,
  the module): consent, its persistence, and the events handed to the sink. How the browser's storage behaves
  during one call is the argument of that call; the sink may throw, which the code swallows.
\<close>

section \<open>Storage\<close>

text \<open>
  Storage may be missing (or refused on access), and reading or writing it may throw. The module tries a write
  and a removal first and does without a storage that throws there; the probe leaves no item behind.
\<close>

record browser_storage =
  bs_present :: bool
  bs_reads :: bool
  bs_writes :: bool

type_synonym stored_items = "(string, string) js_map"

definition usable :: "bool \<Rightarrow> browser_storage \<Rightarrow> bool" where
  "usable probing b = (bs_present b \<and> (probing \<longrightarrow> bs_writes b))"

definition CONSENT_STORAGE_KEY :: string where
  "CONSENT_STORAGE_KEY = ''handsoff.telemetry.consent''"

definition readConsent :: "bool \<Rightarrow> browser_storage \<Rightarrow> string \<Rightarrow> stored_items \<Rightarrow> bool" where
  "readConsent probing b storageKey items =
    (usable probing b \<and> bs_reads b \<and> jget items storageKey = Some ''true'')"

definition persistConsent :: "bool \<Rightarrow> browser_storage \<Rightarrow> string \<Rightarrow> bool \<Rightarrow> stored_items \<Rightarrow> stored_items" where
  "persistConsent probing b storageKey granted items =
    (if usable probing b \<and> bs_writes b
     then if granted then jset items storageKey ''true'' else jdel items storageKey else items)"

section \<open>Events\<close>

datatype property_value = PropStr string | PropNum js_number | PropBool bool | PropOther

record payload =
  py_event :: string
  py_timestamp :: int
  py_version :: "string option"
  py_properties :: "(string \<times> property_value) list option"

definition MAX_PROPERTY_LENGTH :: nat where
  "MAX_PROPERTY_LENGTH = 128"

fun sanitize_value :: "property_value \<Rightarrow> property_value option" where
  "sanitize_value (PropStr s) = Some (PropStr (take MAX_PROPERTY_LENGTH s))"
| "sanitize_value (PropNum n) = (if js_isFinite n then Some (PropNum n) else None)"
| "sanitize_value (PropBool b) = Some (PropBool b)"
| "sanitize_value PropOther = None"

text \<open>Assigning a primitive to \<open>__proto__\<close> of an object changes nothing.\<close>

definition sanitizeProperties :: "(string \<times> property_value) list \<Rightarrow> (string \<times> property_value) list" where
  "sanitizeProperties ps = List.map_filter (\<lambda>(k, v). if k = ''__proto__'' then None
     else map_option (Pair k) (sanitize_value v)) ps"

text \<open>The two packages allow different events.\<close>

datatype telemetry_flavour = TelemetryClass | TelemetryModule

fun ALLOWED_EVENTS :: "telemetry_flavour \<Rightarrow> string list" where
  "ALLOWED_EVENTS TelemetryClass =
    [''app_started'', ''wallet_connected'', ''wallet_disconnected'', ''transaction_submitted'', ''rpc_error'']"
| "ALLOWED_EVENTS TelemetryModule =
    [''wallet_connect'', ''wallet_disconnect'', ''transaction_sign'', ''transaction_send'', ''rpc_error'']"

record telemetry =
  tl_flavour :: telemetry_flavour
  tl_sink :: bool
  tl_version :: "string option"
  tl_storageKey :: string
  tl_consent :: bool
  tl_items :: stored_items
  tl_sent :: "payload list"

definition probes :: "telemetry_flavour \<Rightarrow> bool" where
  "probes f = (f = TelemetryModule)"

text \<open>
  The constructor of the class and \<open>configureTelemetry\<close> of the module: consent is what the storage holds.
\<close>

record telemetry_options =
  to_sink :: bool
  to_version :: "string option"
  to_storageKey :: "string option"

definition Telemetry :: "telemetry_flavour \<Rightarrow> browser_storage \<Rightarrow> telemetry_options \<Rightarrow> stored_items \<Rightarrow> telemetry" where
  "Telemetry f b opts items =
    (let key = (case to_storageKey opts of None \<Rightarrow> CONSENT_STORAGE_KEY | Some k \<Rightarrow> k)
     in \<lparr>tl_flavour = f, tl_sink = to_sink opts, tl_version = to_version opts, tl_storageKey = key,
         tl_consent = readConsent (probes f) b key items, tl_items = items, tl_sent = []\<rparr>)"

definition configureTelemetry :: "browser_storage \<Rightarrow> telemetry_options \<Rightarrow> telemetry \<Rightarrow> telemetry" where
  "configureTelemetry b opts s = (Telemetry (tl_flavour s) b opts (tl_items s))\<lparr>tl_sent := tl_sent s\<rparr>"

definition setConsent :: "browser_storage \<Rightarrow> bool \<Rightarrow> telemetry \<Rightarrow> telemetry" where
  "setConsent b granted s =
    s\<lparr>tl_consent := granted,
      tl_items := persistConsent (probes (tl_flavour s)) b (tl_storageKey s) granted (tl_items s)\<rparr>"

definition truthy_text :: "string option \<Rightarrow> string option" where
  "truthy_text x = (case x of None \<Rightarrow> None | Some s \<Rightarrow> if s = [] then None else Some s)"

definition payload_of :: "string \<Rightarrow> int \<Rightarrow> (string \<times> property_value) list option \<Rightarrow> string option \<Rightarrow> payload" where
  "payload_of event now properties version = \<lparr>py_event = event, py_timestamp = now, py_version = truthy_text version,
     py_properties = (case properties of None \<Rightarrow> None
       | Some ps \<Rightarrow> if sanitizeProperties ps = [] then None else Some (sanitizeProperties ps))\<rparr>"

definition track :: "string \<Rightarrow> int \<Rightarrow> (string \<times> property_value) list option \<Rightarrow> telemetry \<Rightarrow> telemetry" where
  "track event now properties s =
    (if \<not> tl_consent s \<or> \<not> tl_sink s then s
     else if \<not> List.member (ALLOWED_EVENTS (tl_flavour s)) event then s
     else s\<lparr>tl_sent := tl_sent s @ [payload_of event now properties (tl_version s)]\<rparr>)"

datatype telemetry_op =
    Configure browser_storage telemetry_options
  | Consent browser_storage bool
  | Track string int "(string \<times> property_value) list option"

text \<open>Only the module can be configured again.\<close>

fun telemetry_step :: "telemetry_op \<Rightarrow> telemetry \<Rightarrow> telemetry" where
  "telemetry_step (Configure b opts) s = (if tl_flavour s = TelemetryModule then configureTelemetry b opts s else s)"
| "telemetry_step (Consent b granted) s = setConsent b granted s"
| "telemetry_step (Track e now ps) s = track e now ps s"

definition telemetry_run :: "telemetry_op list \<Rightarrow> telemetry \<Rightarrow> telemetry" where
  "telemetry_run ops s = foldl (\<lambda>t p. telemetry_step p t) s ops"

section \<open>What may leave the browser\<close>

fun plain_value :: "property_value \<Rightarrow> bool" where
  "plain_value (PropStr s) = (length s \<le> 128)"
| "plain_value (PropNum n) = js_isFinite n"
| "plain_value (PropBool b) = True"
| "plain_value PropOther = False"

definition plain_payload :: "telemetry_flavour \<Rightarrow> payload \<Rightarrow> bool" where
  "plain_payload f p \<longleftrightarrow> py_event p \<in> set (ALLOWED_EVENTS f) \<and>
    (case py_properties p of None \<Rightarrow> True | Some ps \<Rightarrow> ps \<noteq> [] \<and> (\<forall>(k, v) \<in> set ps. plain_value v))"

lemma sanitized_plain: "(k, v) \<in> set (sanitizeProperties ps) \<Longrightarrow> plain_value v"
proof -
  have "sanitize_value x = Some y \<Longrightarrow> plain_value y" for x y
    by (cases x) (auto simp: MAX_PROPERTY_LENGTH_def split: if_splits)
  moreover assume "(k, v) \<in> set (sanitizeProperties ps)"
  ultimately show ?thesis
    by (auto simp: sanitizeProperties_def List.map_filter_def split: if_splits)
qed

lemma payload_plain: "event \<in> set (ALLOWED_EVENTS f) \<Longrightarrow> plain_payload f (payload_of event now ps version)"
  by (auto simp: plain_payload_def payload_of_def dest: sanitized_plain split: option.splits)

text \<open>
  What is due, read off the calls: a payload for every call with an allowed event while the last decision about
  consent, at first \<open>c\<close>, is yes.
\<close>

fun due_payloads :: "telemetry_flavour \<Rightarrow> bool \<Rightarrow> string option \<Rightarrow> bool \<Rightarrow> telemetry_op list \<Rightarrow> payload list" where
  "due_payloads f sink version c [] = []"
| "due_payloads f sink version c (Track e now ps # ops) =
    (if c \<and> sink \<and> e \<in> set (ALLOWED_EVENTS f) then [payload_of e now ps version] else []) @
    due_payloads f sink version c ops"
| "due_payloads f sink version c (Consent b granted # ops) = due_payloads f sink version granted ops"
| "due_payloads f sink version c (Configure b opts # ops) = due_payloads f sink version c ops"

fun configures :: "telemetry_op \<Rightarrow> bool" where
  "configures (Configure b opts) = True"
| "configures p = False"

definition never_configured :: "telemetry_flavour \<Rightarrow> telemetry_op list \<Rightarrow> bool" where
  "never_configured f ops = (f = TelemetryClass \<or> list_all (\<lambda>p. \<not> configures p) ops)"

lemma sent_run:
  "never_configured (tl_flavour s) ops \<Longrightarrow> tl_sent (telemetry_run ops s) =
     tl_sent s @ due_payloads (tl_flavour s) (tl_sink s) (tl_version s) (tl_consent s) ops"
proof (induction ops arbitrary: s)
  case Nil
  then show ?case by (simp add: telemetry_run_def)
next
  case (Cons p ops)
  have next_ok: "never_configured (tl_flavour (telemetry_step p s)) ops"
    using Cons.prems by (cases p) (auto simp: never_configured_def configureTelemetry_def Telemetry_def setConsent_def
      track_def Let_def)
  show ?case using Cons.IH [OF next_ok] Cons.prems
    by (cases p) (auto simp: telemetry_run_def never_configured_def setConsent_def track_def)
qed

lemma due_plain: "list_all (plain_payload f) (due_payloads f sink version c ops)"
  by (induction f sink version c ops rule: due_payloads.induct) (auto simp: payload_plain)

section \<open>Properties\<close>

text \<open>
  C29: the sink receives exactly the allowed events tracked while the last decision about consent was yes, in
  order, and of their properties only short strings, finite numbers and booleans; without consent nothing is
  sent before it is given.
\<close>

theorem telemetry_opt_in:
  assumes "never_configured f ops"
  shows "tl_sent (telemetry_run ops (Telemetry f b opts items)) =
      due_payloads f (to_sink opts) (to_version opts) (tl_consent (Telemetry f b opts items)) ops \<and>
    list_all (plain_payload f) (tl_sent (telemetry_run ops (Telemetry f b opts items))) \<and>
    tl_consent (Telemetry f b opts []) = False"
proof -
  have "tl_sent (telemetry_run ops (Telemetry f b opts items)) =
      due_payloads f (to_sink opts) (to_version opts) (tl_consent (Telemetry f b opts items)) ops"
    using sent_run [of "Telemetry f b opts items" ops] assms by (simp add: Telemetry_def Let_def)
  then show ?thesis using due_plain [of f] by (simp add: Telemetry_def Let_def readConsent_def)
qed

definition working_storage :: browser_storage where
  "working_storage = \<lparr>bs_present = True, bs_reads = True, bs_writes = True\<rparr>"

definition frozen_storage :: browser_storage where
  "frozen_storage = \<lparr>bs_present = True, bs_reads = True, bs_writes = False\<rparr>"

definition plain_options :: telemetry_options where
  "plain_options = \<lparr>to_sink = True, to_version = None, to_storageKey = None\<rparr>"

theorem telemetry_opt_in_witness:
  "tl_sent (telemetry_run [Track ''rpc_error'' 1 None, Consent working_storage True,
       Track ''rpc_error'' 2 (Some [(''code'', PropNum (Fin 7)), (''seen'', PropOther)]), Track ''key_typed'' 3 None]
     (Telemetry TelemetryModule working_storage plain_options [])) =
   [\<lparr>py_event = ''rpc_error'', py_timestamp = 2, py_version = None, py_properties = Some [(''code'', PropNum (Fin 7))]\<rparr>]"
  using telemetry_opt_in [of TelemetryModule "[Track ''rpc_error'' 1 None, Consent working_storage True,
      Track ''rpc_error'' 2 (Some [(''code'', PropNum (Fin 7)), (''seen'', PropOther)]), Track ''key_typed'' 3 None]"
      working_storage plain_options "[]"]
  by (simp add: never_configured_def Telemetry_def plain_options_def payload_of_def truthy_text_def sanitizeProperties_def
      List.map_filter_def readConsent_def)

text \<open>
  A decision about consent outlives the page where the storage takes it: telemetry created afterwards over
  the same storage is as decided. Where the storage refuses the removal, withdrawn consent is back after the page
  is loaded again.
\<close>

theorem telemetry_consent_persists:
  "(bs_present b \<and> bs_reads b' \<and> bs_writes b \<and> usable (probes f) b' \<longrightarrow>
      tl_consent (Telemetry f b' opts (tl_items (setConsent b granted (Telemetry f b0 opts items)))) = granted) \<and>
   (tl_consent (Telemetry f b' opts items) \<longrightarrow>
      tl_consent (setConsent frozen_storage False (Telemetry f b' opts items)) = False \<and>
      tl_consent (Telemetry f b' opts (tl_items (setConsent frozen_storage False (Telemetry f b' opts items)))))"
  by (auto simp: Telemetry_def setConsent_def persistConsent_def readConsent_def usable_def frozen_storage_def Let_def jsmap)

theorem telemetry_consent_persists_witness:
  "tl_consent (Telemetry TelemetryClass working_storage plain_options
     (tl_items (setConsent working_storage True (Telemetry TelemetryClass working_storage plain_options [])))) \<and>
   tl_consent (Telemetry TelemetryClass working_storage plain_options
     (tl_items (setConsent frozen_storage False
       (Telemetry TelemetryClass working_storage plain_options [(CONSENT_STORAGE_KEY, ''true'')]))))"
  using telemetry_consent_persists [of working_storage working_storage TelemetryClass plain_options True working_storage "[]"]
    telemetry_consent_persists [of working_storage working_storage TelemetryClass plain_options True working_storage
      "[(CONSENT_STORAGE_KEY, ''true'')]"]
  by (simp add: working_storage_def usable_def probes_def Telemetry_def plain_options_def readConsent_def jget_def)

end
