(* ===== verification/Diagnostics.thy ===== *)
theory Diagnostics
  imports SimCache JsonRpc
begin

text \<open>
  What the \<open>sdk\<close> package tells its environment: spans around operations (\<open>packages/sdk/src/telemetry.ts\<close>), log lines
  (\<open>packages/sdk/src/logger.ts\<close>), the texts of errors (\<open>packages/sdk/src/i18n/index.ts\<close> and \<open>en.ts\<close>), and the string hash of
  \<open>packages/utils/src/hashing.ts\<close>. A span belongs to a package that may be of another version, so each of its methods
  may throw; what it was asked to do is the state.
\<close>

unbundle bit_operations_syntax

section \<open>Spans\<close>

datatype ('e, 'v) span_action = SetAttribute string 'v | SetStatus nat "string option" | RecordException 'e | EndSpan

type_synonym ('e, 'v, 'a) spanned = "(('e, 'v) span_action list, 'e, 'a) eff"

record ('e, 'v) otel =
  ot_refuses :: "('e, 'v) span_action list \<Rightarrow> ('e, 'v) span_action \<Rightarrow> 'e option"
  ot_message :: "'e \<Rightarrow> string"

definition span_do :: "('e, 'v) otel \<Rightarrow> ('e, 'v) span_action \<Rightarrow> ('e, 'v, unit) spanned" where
  "span_do w a = (\<lambda>acts. case ot_refuses w acts a of None \<Rightarrow> (Inr (), acts @ [a]) | Some e \<Rightarrow> (Inl e, acts))"

fun set_attributes :: "('e, 'v) otel \<Rightarrow> (string \<times> 'v) list \<Rightarrow> ('e, 'v, unit) spanned" where
  "set_attributes w [] = eret ()"
| "set_attributes w ((k, x) # attrs) = ebind (span_do w (SetAttribute k x)) (\<lambda>_. set_attributes w attrs)"

text \<open>A \<open>finally\<close> block that throws replaces the outcome.\<close>

definition and_finally :: "('s, 'e, unit) eff \<Rightarrow> ('s, 'e, 'a) eff \<Rightarrow> ('s, 'e, 'a) eff" where
  "and_finally f m = (\<lambda>s. case m s of (r, t) \<Rightarrow> (case f t of (Inl e, u) \<Rightarrow> (Inl e, u) | (Inr x, u) \<Rightarrow> (r, u)))"

definition client_trace ::
  "('e, 'v) otel \<Rightarrow> (string \<times> 'v) list \<Rightarrow> ('e, 'v, 'a) spanned \<Rightarrow> ('e, 'v, 'a) spanned" where
  "client_trace w attrs fn =
    ebind (set_attributes w attrs) (\<lambda>_.
      and_finally (span_do w EndSpan)
        (ecatch (ebind fn (\<lambda>r. ebind (span_do w (SetStatus 1 None)) (\<lambda>_. eret r)))
          (\<lambda>e. ebind (span_do w (RecordException e)) (\<lambda>_.
               ebind (span_do w (SetStatus 2 (Some (ot_message w e)))) (\<lambda>_. ethrow e)))))"

definition noop_span :: "('e \<Rightarrow> string) \<Rightarrow> ('e, 'v) otel" where
  "noop_span m = \<lparr>ot_refuses = \<lambda>acts a. None, ot_message = m\<rparr>"

text \<open>A propagator that throws may have written to the carrier before.\<close>

definition injectHeaders :: "((string, string) js_map \<Rightarrow> bool \<times> (string, string) js_map) option \<Rightarrow>
    (string, string) js_map \<Rightarrow> (string, string) js_map" where
  "injectHeaders propagator carrier = (case propagator of None \<Rightarrow> carrier | Some inject \<Rightarrow> snd (inject carrier))"

definition span_works :: "('e, 'v) otel \<Rightarrow> bool" where
  "span_works w \<longleftrightarrow> (\<forall>acts a. ot_refuses w acts a = None)"

definition span_closing :: "('e, 'v) otel \<Rightarrow> 'e + 'a \<Rightarrow> ('e, 'v) span_action list" where
  "span_closing w r = (case r of Inr x \<Rightarrow> [SetStatus 1 None] | Inl e \<Rightarrow> [RecordException e, SetStatus 2 (Some (ot_message w e))]) @ [EndSpan]"

lemma works_do: "span_works w \<Longrightarrow> span_do w a = (\<lambda>acts. (Inr (), acts @ [a]))"
  by (simp add: span_works_def span_do_def)

lemma works_attributes:
  "span_works w \<Longrightarrow> set_attributes w attrs = (\<lambda>acts. (Inr (), acts @ map (\<lambda>(k, x). SetAttribute k x) attrs))"
  by (induction w attrs rule: set_attributes.induct) (auto simp: eret_def ebind_def works_do)

text \<open>
  With spans that work, tracing does not change what an operation does, and the span is told its attributes, then
  what the operation tells it, then how it ended, and is ended last.
\<close>

theorem trace_transparent:
  assumes "span_works w"
  shows "client_trace w attrs fn acts =
    (case fn (acts @ map (\<lambda>(k, x). SetAttribute k x) attrs) of (r, told) \<Rightarrow> (r, told @ span_closing w r))"
proof -
  obtain r told where fn: "fn (acts @ map (\<lambda>(k, x). SetAttribute k x) attrs) = (r, told)" by force
  show ?thesis
    by (cases r) (simp_all add: fn client_trace_def works_attributes [OF assms] works_do [OF assms] ebind_def ecatch_def
        and_finally_def eret_def ethrow_def span_closing_def)
qed

theorem trace_transparent_witness:
  "client_trace (noop_span (\<lambda>e. e)) [(''rpc.url'', True)] (ethrow ''down'') [] =
     (Inl ''down'' :: string + unit, [SetAttribute ''rpc.url'' True, RecordException ''down'', SetStatus 2 (Some ''down''), EndSpan])"
proof -
  have works: "span_works (noop_span (\<lambda>e. e) :: (string, bool) otel)" by (simp add: span_works_def noop_span_def)
  show ?thesis by (subst trace_transparent [OF works]) (simp add: ethrow_def span_closing_def noop_span_def)
qed

text \<open>
  Attributes are set outside of the \<open>try\<close> block, and the status of a success inside of it: a span that refuses an
  attribute keeps the operation from running and is not ended, one that refuses a status makes a success fail.
\<close>

lemma refused_attribute_skips_operation:
  "ot_refuses w acts (SetAttribute k x) = Some e \<Longrightarrow> client_trace w ((k, x) # attrs) fn acts = (Inl e, acts)"
  by (simp add: client_trace_def ebind_def span_do_def)

lemma refused_status_fails_operation:
  assumes "fn acts = (Inr r, told)" and "ot_refuses w told (SetStatus 1 None) = Some e"
    and "\<And>a l. a \<noteq> SetStatus 1 None \<Longrightarrow> ot_refuses w l a = None"
  shows "fst (client_trace w [] fn acts) = Inl e"
  using assms by (simp add: client_trace_def ebind_def span_do_def ecatch_def and_finally_def eret_def ethrow_def)

section \<open>Log lines\<close>

datatype log_level = LogDebug | LogInfo | LogWarn | LogError

datatype logger = NoopLogger | ConsoleLogger | LegacyLogger | JsonLogger

text \<open>The fields given with a line, and whether \<open>JSON.stringify\<close> takes them.\<close>

record 'm log_meta =
  lm_fields :: "(string, 'm) js_map"
  lm_serializable :: bool

datatype 'm json_meta = NoMeta | MetaFields "(string, 'm) js_map" | Unserializable

record 'm log_record =
  lr_timestamp :: string
  lr_level :: log_level
  lr_component :: string
  lr_message :: string
  lr_meta :: "'m json_meta"

datatype 'm log_output =
    ConsoleLine log_level string "(string, 'm) js_map option"
  | LegacyCall log_level string "'m log_meta option"
  | JsonLine "'m log_record"

definition meta_given :: "'m log_meta option \<Rightarrow> bool" where
  "meta_given meta = (case meta of None \<Rightarrow> False | Some m \<Rightarrow> lm_fields m \<noteq> [])"

definition console_line :: "log_level \<Rightarrow> string \<Rightarrow> 'm log_meta option \<Rightarrow> 'm log_output" where
  "console_line level msg meta = ConsoleLine level (''[soroban-resurrect] '' @ msg)
     (if meta_given meta then map_option lm_fields meta else None)"

definition json_line :: "string \<Rightarrow> log_level \<Rightarrow> string \<Rightarrow> 'm log_meta option \<Rightarrow> 'm log_output" where
  "json_line timestamp level message meta = JsonLine \<lparr>lr_timestamp = timestamp, lr_level = level,
     lr_component = ''soroban-resurrect'', lr_message = message,
     lr_meta = (if \<not> meta_given meta then NoMeta
                else if lm_serializable (the meta) then MetaFields (lm_fields (the meta)) else Unserializable)\<rparr>"

definition log_line :: "logger \<Rightarrow> string \<Rightarrow> log_level \<Rightarrow> string \<Rightarrow> 'm log_meta option \<Rightarrow> 'm log_output list" where
  "log_line logger timestamp level msg meta = (case logger of
     NoopLogger \<Rightarrow> []
   | ConsoleLogger \<Rightarrow> [console_line level msg meta]
   | LegacyLogger \<Rightarrow> if level = LogDebug then [] else [LegacyCall level msg meta]
   | JsonLogger \<Rightarrow> [json_line timestamp level msg meta])"

text \<open>The logger of a client: the one configured, else the legacy callback, else none.\<close>

definition resolve_logger :: "logger option \<Rightarrow> bool \<Rightarrow> logger" where
  "resolve_logger configured onLog = (case configured of Some l \<Rightarrow> l | None \<Rightarrow> if onLog then LegacyLogger else NoopLogger)"

definition client_debug :: "bool \<Rightarrow> logger \<Rightarrow> string \<Rightarrow> string \<Rightarrow> 'm log_meta option \<Rightarrow> 'm log_output list" where
  "client_debug debug logger timestamp msg meta = (if \<not> debug then [] else log_line logger timestamp LogDebug msg meta)"

section \<open>Texts of errors\<close>

text \<open>\<open>replace\<close> with a string: the first occurrence, and \<open>$\<close> sequences in the replacement are expanded.\<close>

fun split_at_first :: "string \<Rightarrow> string \<Rightarrow> (string \<times> string) option" where
  "split_at_first p [] = (if p = [] then Some ([], []) else None)"
| "split_at_first p (c # cs) = (if take (length p) (c # cs) = p then Some ([], drop (length p) (c # cs))
     else map_option (\<lambda>(b, a). (c # b, a)) (split_at_first p cs))"

fun expand :: "string \<Rightarrow> string \<Rightarrow> string \<Rightarrow> string \<Rightarrow> string" where
  "expand m b a (c # d # cs) =
    (if c \<noteq> CHR ''$'' then c # expand m b a (d # cs)
     else if d = CHR ''$'' then CHR ''$'' # expand m b a cs
     else if d = CHR ''&'' then m @ expand m b a cs
     else if d = CHR 0x60 then b @ expand m b a cs
     else if d = CHR 0x27 then a @ expand m b a cs
     else c # expand m b a (d # cs))"
| "expand m b a s = s"

definition js_replace :: "string \<Rightarrow> string \<Rightarrow> string \<Rightarrow> string" where
  "js_replace pat rep s = (case split_at_first pat s of None \<Rightarrow> s | Some (b, a) \<Rightarrow> b @ expand pat b a rep @ a)"

definition hole :: "nat \<Rightarrow> string" where
  "hole n = ''{'' @ nat_dec n @ ''}''"

fun format_from :: "nat \<Rightarrow> string list \<Rightarrow> string \<Rightarrow> string" where
  "format_from n [] result = result"
| "format_from n (arg # args) result = format_from (Suc n) args (js_replace (hole n) arg result)"

definition formatMessage :: "string \<Rightarrow> string list \<Rightarrow> string" where
  "formatMessage template args = format_from 0 args template"

type_synonym catalog = "(string, string) js_map"

definition en :: catalog where
  "en = [(''ERR_INVALID_XDR'', ''Invalid XDR format: {0}''), (''ERR_KEY_NOT_FOUND'', ''Key not found in ledger: {0}''),
     (''ERR_SIMULATION_FAILED'', ''Simulation failed with error: {0}''),
     (''ERR_INSUFFICIENT_BALANCE'', ''Insufficient balance: required {0}, available {1}''),
     (''ERR_INVALID_CONTRACT'', ''Invalid contract address: {0}''), (''ERR_RESTORATION_FAILED'', ''Key restoration failed: {0}''),
     (''ERR_FOOTPRINT_PARSE'', ''Failed to parse footprint: {0}''), (''ERR_NETWORK_ERROR'', ''Network error communicating with RPC: {0}''),
     (''ERR_TIMEOUT'', ''Operation timed out after {0}ms''), (''ERR_INVALID_PARAMS'', ''Invalid parameters: {0}'')]"

definition error_codes :: "string list" where
  "error_codes = [''resurrect_invalid_ledger_key'', ''resurrect_missing_ledger_entry'', ''resurrect_expired_ledger_entry'',
     ''resurrect_unsupported_protocol_version'', ''resurrect_invalid_footprint'', ''resurrect_restore_failed'',
     ''resurrect_unknown_error'']"

text \<open>
  The catalogs of the other languages are an argument, their texts being outside of Latin-1. A name inherited by the
  literal \<open>locales\<close> gives a value without entries of its own, which makes no difference.
\<close>

definition loadLocale :: "(string, catalog) js_map \<Rightarrow> string \<Rightarrow> catalog" where
  "loadLocale others locale = (case jget others locale of None \<Rightarrow> en | Some m \<Rightarrow> fold (\<lambda>(k, t) c. jset c k t) m en)"

text \<open>An inherited name is found in the messages as well; it is no text, and formatting it is a \<open>TypeError\<close>.\<close>

datatype localized = MessageText string | InheritedMember string | NotAText

definition getMessage :: "(string, catalog) js_map \<Rightarrow> string \<Rightarrow> string \<Rightarrow> string list \<Rightarrow> localized" where
  "getMessage others locale code args = (case jget (loadLocale others locale) code of
     Some t \<Rightarrow> MessageText (formatMessage (if t = [] then ''Unknown error: '' @ code else t) args)
   | None \<Rightarrow> if List.member OBJECT_PROTOTYPE code then (if args = [] then InheritedMember code else NotAText)
             else MessageText (formatMessage (''Unknown error: '' @ code) args))"

text \<open>The catalog and the codes share no name.\<close>

lemma no_code_has_a_text:
  "list_all (\<lambda>c. getMessage [] l c [] = MessageText (''Unknown error: '' @ c)) error_codes"
  by (simp add: error_codes_def getMessage_def loadLocale_def en_def jget_def OBJECT_PROTOTYPE_def formatMessage_def)

subsection \<open>Rendering\<close>

text \<open>A template as pieces, and what it is meant to be rendered to once the first \<open>k\<close> arguments are in.\<close>

datatype piece = Plain string | Hole nat

fun piece_text :: "piece \<Rightarrow> string" where
  "piece_text (Plain s) = s"
| "piece_text (Hole n) = hole n"

fun rendered :: "string list \<Rightarrow> nat \<Rightarrow> piece \<Rightarrow> string" where
  "rendered args k (Plain s) = s"
| "rendered args k (Hole n) = (if n < k then args ! n else hole n)"

definition holes :: "piece list \<Rightarrow> nat list" where
  "holes ps = List.map_filter (\<lambda>p. case p of Plain s \<Rightarrow> None | Hole n \<Rightarrow> Some n) ps"

lemma holes_simps [simp]: "holes [] = []" "holes (Plain s # ps) = holes ps" "holes (Hole n # ps) = n # holes ps"
  by (simp_all add: holes_def List.map_filter_def)

lemma expand_plain: "CHR ''$'' \<notin> set r \<Longrightarrow> expand m b a r = r"
  by (induction m b a r rule: expand.induct) auto

lemma split_skip:
  "CHR ''{'' \<notin> set x \<Longrightarrow> split_at_first (CHR ''{'' # q) (x @ y) = map_option (\<lambda>(b, a). (x @ b, a)) (split_at_first (CHR ''{'' # q) y)"
proof (induction x)
  case Nil
  then show ?case by (cases "split_at_first (CHR ''{'' # q) y") auto
next
  case (Cons c x)
  then show ?case by (cases "split_at_first (CHR ''{'' # q) y") auto
qed

lemma digits_plain: "CHR ''{'' \<notin> set (nat_dec n)" "CHR ''}'' \<notin> set (nat_dec n)"
  using nat_dec_digits [of n] by (auto simp: list_all_iff is_digit_def)

lemma hole_prefix: "hole n @ y = hole k @ z \<Longrightarrow> n = k"
proof -
  have stop: "takeWhile (\<lambda>c. c \<noteq> CHR ''}'') (nat_dec m @ CHR ''}'' # u) = nat_dec m" for m u
    using digits_plain(2) [of m] by (subst takeWhile_append2) auto
  assume "hole n @ y = hole k @ z"
  then have "takeWhile (\<lambda>c. c \<noteq> CHR ''}'') (nat_dec n @ CHR ''}'' # y) = takeWhile (\<lambda>c. c \<noteq> CHR ''}'') (nat_dec k @ CHR ''}'' # z)"
    by (simp add: hole_def)
  then have "nat_dec n = nat_dec k" by (simp only: stop)
  then show ?thesis by (rule nat_dec_inj)
qed

lemma split_hole: "split_at_first (hole k) (hole k @ y) = Some ([], y)"
  by (simp add: hole_def)

lemma split_other: "n \<noteq> k \<Longrightarrow> split_at_first (hole k) (hole n @ y) = map_option (\<lambda>(b, a). (hole n @ b, a)) (split_at_first (hole k) y)"
proof -
  assume "n \<noteq> k"
  then have "take (length (hole k)) (hole n @ y) \<noteq> hole k"
    using hole_prefix [of n y k] by (metis append_take_drop_id)
  moreover have "split_at_first (hole k) ((nat_dec n @ ''}'') @ y) = map_option (\<lambda>(b, a). ((nat_dec n @ ''}'') @ b, a)) (split_at_first (hole k) y)"
    using split_skip [of "nat_dec n @ ''}''" "nat_dec k @ ''}''" y] digits_plain(1) [of n] by (simp add: hole_def)
  ultimately show ?thesis
    by (cases "split_at_first (hole k) y") (auto simp: hole_def)
qed

lemma replace_skip:
  assumes "CHR ''$'' \<notin> set rep" and "split_at_first pat (x @ y) = map_option (\<lambda>(b, a). (x @ b, a)) (split_at_first pat y)"
  shows "js_replace pat rep (x @ y) = x @ js_replace pat rep y"
  using assms by (cases "split_at_first pat y") (auto simp: js_replace_def expand_plain)

text \<open>What the renderer needs of the texts it is given.\<close>

definition plain_arg :: "string \<Rightarrow> bool" where
  "plain_arg s \<longleftrightarrow> CHR ''{'' \<notin> set s \<and> CHR ''$'' \<notin> set s"

definition plain_piece :: "piece \<Rightarrow> bool" where
  "plain_piece p = (case p of Plain s \<Rightarrow> CHR ''{'' \<notin> set s | Hole n \<Rightarrow> True)"

lemma fill_hole:
  assumes "k < length args" and "list_all plain_arg args"
  shows "list_all plain_piece ps \<Longrightarrow> distinct (holes ps) \<Longrightarrow>
    js_replace (hole k) (args ! k) (concat (map (rendered args k) ps)) = concat (map (rendered args (Suc k)) ps)"
proof (induction ps)
  case Nil
  show ?case by (simp add: js_replace_def hole_def)
next
  case (Cons p ps)
  have dollar: "CHR ''$'' \<notin> set (args ! n)" and brace: "CHR ''{'' \<notin> set (args ! n)" if "n < length args" for n
    using assms(2) that by (auto simp: list_all_length plain_arg_def)
  let ?rest = "concat (map (rendered args k) ps)"
  have skip: "js_replace (hole k) (args ! k) (x @ ?rest) = x @ js_replace (hole k) (args ! k) ?rest" if "CHR ''{'' \<notin> set x" for x
    by (rule replace_skip) (use dollar [OF assms(1)] split_skip [OF that] in \<open>simp_all add: hole_def\<close>)
  show ?case
  proof (cases p)
    case (Plain s)
    then show ?thesis using Cons skip [of s] by (simp add: plain_piece_def)
  next
    case (Hole n)
    consider "n < k" | "n = k" | "k < n" by linarith
    then show ?thesis
    proof cases
      case 1
      then show ?thesis using Cons Hole skip [of "args ! n"] brace [of n] assms(1) by simp
    next
      case 2
      have "rendered args k q = rendered args (Suc k) q" if "q \<in> set ps" for q
        using Cons.prems(2) that Hole 2 by (cases q) (auto simp: holes_def List.map_filter_def image_iff less_Suc_eq split: piece.splits)
      then have "?rest = concat (map (rendered args (Suc k)) ps)" by (metis map_eq_conv)
      moreover have "js_replace (hole k) (args ! k) (hole k @ ?rest) = args ! k @ ?rest"
        by (simp add: js_replace_def split_hole expand_plain dollar [OF assms(1)])
      ultimately show ?thesis by (simp only: Hole 2 list.map concat.simps rendered.simps) simp
    next
      case 3
      have "js_replace (hole k) (args ! k) (hole n @ ?rest) = hole n @ js_replace (hole k) (args ! k) ?rest"
        by (rule replace_skip) (use dollar [OF assms(1)] split_other 3 in auto)
      then show ?thesis using Cons Hole 3 by simp
    qed
  qed
qed

lemma piece_text_0: "piece_text p = rendered args 0 p"
  by (cases p) simp_all

lemma format_pieces:
  assumes "list_all plain_arg args" and "list_all plain_piece ps" and "distinct (holes ps)"
  shows "k \<le> length args \<Longrightarrow>
    format_from k (drop k args) (concat (map (rendered args k) ps)) = concat (map (rendered args (length args)) ps)"
proof (induction "length args - k" arbitrary: k)
  case 0
  then show ?case by simp
next
  case (Suc d)
  then have less: "k < length args" by simp
  then show ?case using Suc fill_hole [OF less assms(1,2,3)] by (simp add: Cons_nth_drop_Suc [symmetric])
qed

text \<open>
  Where the texts put in contain neither a brace nor a dollar sign and no placeholder occurs twice, the message is
  the template with every placeholder replaced by its argument, and those without an argument left as they are.
\<close>

theorem messages_rendered:
  assumes "list_all plain_arg args" and "list_all plain_piece ps" and "distinct (holes ps)"
  shows "formatMessage (concat (map piece_text ps)) args = concat (map (rendered args (length args)) ps)"
proof -
  have "piece_text = rendered args 0" by (rule ext) (simp add: piece_text_0)
  then show ?thesis using format_pieces [OF assms, of 0] by (simp add: formatMessage_def)
qed

lemma small_holes: "hole 0 = ''{0}''" "hole 1 = ''{1}''"
  by (simp_all add: hole_def nat_dec.simps char_of_def) (auto simp: bit_Suc_0_iff)

lemma balance_pieces:
  "the (jget en ''ERR_INSUFFICIENT_BALANCE'') = concat (map piece_text [Plain ''Insufficient balance: required '', Hole 0, Plain '', available '', Hole 1])"
  by (simp add: en_def jget_def small_holes [simplified])

theorem messages_rendered_witness:
  "formatMessage (the (jget en ''ERR_INSUFFICIENT_BALANCE'')) [''7'', ''5''] = ''Insufficient balance: required 7, available 5''"
  by (simp add: balance_pieces, subst messages_rendered [of "[''7'', ''5'']"
        "[Plain ''Insufficient balance: required '', Hole 0, Plain '', available '', Hole 1]", simplified])
     (simp_all add: plain_arg_def plain_piece_def)

text \<open>A text with a dollar sign is not put in as it is.\<close>

lemma dollar_expands: "formatMessage ''cost {0} XLM'' [''$&''] = ''cost {0} XLM'' \<and> formatMessage ''cost {0} XLM'' [''US$$''] = ''cost US$ XLM''"
  by (simp add: formatMessage_def js_replace_def small_holes)

section \<open>The string hash\<close>

text \<open>\<open>hash << 5\<close> converts to 32 bits, the sum is exact and \<open>>>> 0\<close> brings it back to 32 bits.\<close>

definition char_step :: "32 word \<Rightarrow> char \<Rightarrow> 32 word" where
  "char_step h c = push_bit 5 h + h + of_nat (of_char c)"

definition hashString :: "string \<Rightarrow> string" where
  "hashString input = nat_hex (unat (foldl char_step 5381 input))"

fun hash_polynomial :: "string \<Rightarrow> nat" where
  "hash_polynomial [] = 0"
| "hash_polynomial (c # cs) = of_char c * 33 ^ length cs + hash_polynomial cs"

lemma hash_word: "foldl char_step h s = h * 33 ^ length s + of_nat (hash_polynomial s)"
proof (induction s arbitrary: h)
  case (Cons c s)
  have "char_step h c = h * 33 + of_nat (of_char c)" by (simp add: char_step_def push_bit_eq_mult)
  then show ?case by (simp add: Cons.IH algebra_simps)
qed simp

text \<open>\<open>hashString\<close> is the polynomial hash with base 33 and seed 5381, modulo 2 to the 32, in hexadecimal.\<close>

theorem hash_is_polynomial:
  "hashString s = nat_hex ((5381 * 33 ^ length s + hash_polynomial s) mod 2 ^ 32)"
proof -
  have "foldl char_step 5381 s = of_nat (5381 * 33 ^ length s + hash_polynomial s)" by (simp add: hash_word)
  then show ?thesis by (simp only: hashString_def unat_of_nat) simp
qed

end
