(* ===== verification/Wallets.thy ===== *)
theory Wallets
  imports Values "HOL-Library.Product_Lexorder"
begin

text \<open>
  The wallet manager (\<open>packages/wallet-adapters/src/manager.ts\<close>) and the parts of
  \<open>packages/wallet-adapters/src/types.ts\<close> it stands on. Wallets answer when they want: the calls of an
  application, the answers of the wallets, the timers and the events the wallets report are the events of a
  step function, and a run is any sequence of them. A wallet is known by its position among the adapters.
\<close>

section \<open>Wallets\<close>

record capabilities =
  cp_supportsSoroban :: bool
  cp_supportsSignedTxNote :: bool

definition DEFAULT_WALLET_CAPABILITIES :: capabilities where
  "DEFAULT_WALLET_CAPABILITIES = \<lparr>cp_supportsSoroban = False, cp_supportsSignedTxNote = False\<rparr>"

definition DEFAULT_ADAPTER_PRIORITY :: js_number where
  "DEFAULT_ADAPTER_PRIORITY = js_int 1000"

text \<open>Of the capabilities an adapter may declare any part; the last two fields say which events it offers.\<close>

record wallet_adapter =
  wa_id :: string
  wa_name :: string
  wa_icon :: "string option"
  wa_priority :: "js_number option"
  wa_soroban :: "bool option"
  wa_signedTxNote :: "bool option"
  wa_connectionEvents :: bool
  wa_networkEvents :: bool

record wallet_descriptor =
  wd_id :: string
  wd_name :: string
  wd_icon :: "string option"
  wd_priority :: js_number
  wd_capabilities :: capabilities

definition declared :: "'a option \<Rightarrow> 'a \<Rightarrow> 'a" where
  "declared x fallback = (case x of Some y \<Rightarrow> y | None \<Rightarrow> fallback)"

definition describe :: "wallet_adapter \<Rightarrow> wallet_descriptor" where
  "describe a = \<lparr>wd_id = wa_id a, wd_name = wa_name a, wd_icon = wa_icon a,
     wd_priority = declared (wa_priority a) DEFAULT_ADAPTER_PRIORITY,
     wd_capabilities = \<lparr>cp_supportsSoroban = declared (wa_soroban a) (cp_supportsSoroban DEFAULT_WALLET_CAPABILITIES),
       cp_supportsSignedTxNote =
         declared (wa_signedTxNote a) (cp_supportsSignedTxNote DEFAULT_WALLET_CAPABILITIES)\<rparr>\<rparr>"

section \<open>Order\<close>

definition override_ranks :: "string list option \<Rightarrow> (string, nat) js_map" where
  "override_ranks priority =
    foldl (\<lambda>m k. if jhas m k then m else jset m k (length m)) [] (declared priority [])"

text \<open>
  The comparator calls \<open>rankAdapter\<close>, which the file neither declares nor imports: \<open>None\<close> is the file as it
  is, \<open>Some r\<close> one that has the function. A sort of fewer than two elements never calls its comparator.
\<close>

definition orderByPriority ::
  "(wallet_adapter \<Rightarrow> (string, nat) js_map \<Rightarrow> bool \<Rightarrow> int) option \<Rightarrow> wallet_adapter list \<Rightarrow> string list option \<Rightarrow>
   string + wallet_adapter list" where
  "orderByPriority rankAdapter adapters priority =
    (let overrideRanks = override_ranks priority;
         hasOverride = (overrideRanks \<noteq> []);
         entries = zip adapters [0..<length adapters]
     in if length entries < 2 then Inr (map fst entries)
        else (case rankAdapter of
            None \<Rightarrow> Inl ''rankAdapter is not defined''
          | Some r \<Rightarrow> Inr (map fst (sort_key (\<lambda>(a, i). (r a overrideRanks hasOverride, i)) entries))))"

section \<open>Errors and timeouts\<close>

datatype wallet_error_code = NOT_INSTALLED | DEPENDENCY_NOT_INSTALLED | CONNECTION_FAILED | USER_REJECTED
  | DEVICE_DISCONNECTED | TIMEOUT | CONNECTION_TIMEOUT | INVALID_XDR

datatype wallet_err = WalletAdapterError string wallet_error_code | OtherWalletErr string

fun wallet_message :: "wallet_err \<Rightarrow> string" where
  "wallet_message (WalletAdapterError m c) = m"
| "wallet_message (OtherWalletErr m) = m"

text \<open>The pattern of a word, any white space and another word, anywhere in a string.\<close>

definition js_startsWith :: "string \<Rightarrow> string \<Rightarrow> bool" where
  "js_startsWith s p = (take (length p) s = p)"

fun gap_match :: "string \<Rightarrow> string \<Rightarrow> string \<Rightarrow> bool" where
  "gap_match a b [] = (a = [] \<and> b = [])"
| "gap_match a b (c # s) =
    ((js_startsWith (c # s) a \<and> js_startsWith (dropWhile is_ws (drop (length a) (c # s))) b) \<or> gap_match a b s)"

definition is_rejection :: "string \<Rightarrow> bool" where
  "is_rejection m = list_ex (js_includes (js_toLowerCase m)) [''reject'', ''denied'', ''cancel'', ''closed'']"

definition is_not_installed :: "string \<Rightarrow> bool" where
  "is_not_installed m = (let s = js_toLowerCase m
     in gap_match ''not'' ''installed'' s \<or> gap_match ''not'' ''found'' s \<or> gap_match ''no'' ''bridge'' s \<or>
        js_includes s ''extension'')"

definition mapCommonWalletError :: "string \<Rightarrow> wallet_err \<Rightarrow> wallet_err" where
  "mapCommonWalletError walletName cause = (case cause of
     WalletAdapterError m c \<Rightarrow> cause
   | OtherWalletErr m \<Rightarrow>
       if is_rejection m then WalletAdapterError (''User rejected the '' @ walletName @ '' request'') USER_REJECTED
       else if is_not_installed m then WalletAdapterError (walletName @ '' not detected'') NOT_INSTALLED
       else WalletAdapterError (walletName @ '' request failed: '' @ m) CONNECTION_FAILED)"

definition has_timer :: "js_number \<Rightarrow> bool" where
  "has_timer timeoutMs = (js_isFinite timeoutMs \<and> \<not> js_le timeoutMs (js_int 0))"

text \<open>
  A promise raced against a timer: what happens first settles the race, and a timer that fires first also
  cancels what was started. Everything later is ignored.
\<close>

datatype 'a race_event = Timer | Settled "wallet_err + 'a"

definition withConnectTimeout ::
  "string \<Rightarrow> js_number \<Rightarrow> (js_number \<Rightarrow> string) \<Rightarrow> 'a race_event list \<Rightarrow> (wallet_err + 'a) option \<times> bool" where
  "withConnectTimeout name timeoutMs shown evs =
    (case (if has_timer timeoutMs then evs else filter (\<lambda>e. e \<noteq> Timer) evs) of
       [] \<Rightarrow> (None, False)
     | Timer # rest \<Rightarrow>
         (Some (Inl (WalletAdapterError (name @ '' connection timed out after '' @ shown timeoutMs @ ''ms'') CONNECTION_TIMEOUT)),
          True)
     | Settled r # rest \<Rightarrow> (Some r, False))"

section \<open>The manager\<close>

datatype connection_status = StDisconnected | StConnecting | StConnected | StError

record connection =
  cn_address :: string
  cn_network :: "string option"

datatype message = StatusMsg connection_status "connection option" | NetworkMsg string

datatype subscription = OnConnection nat | OnNetwork nat

text \<open>
  \<open>mg_connecting\<close> holds the open calls of \<open>connect\<close> with their wallet and their time limit,
  \<open>mg_disconnecting\<close> those of \<open>disconnect\<close>, \<open>mg_answers\<close> what calls were answered, \<open>mg_told\<close> what listeners
  were told and \<open>mg_abandoned\<close> the wallets a timer asked to disconnect. \<open>mg_show\<close> writes a number, as the
  engine does.
\<close>

record manager =
  mg_show :: "js_number \<Rightarrow> string"
  mg_adapters :: "wallet_adapter list"
  mg_active :: "nat option"
  mg_statusListeners :: "nat list"
  mg_networkListeners :: "nat list"
  mg_activeUnsubscribes :: "subscription list"
  mg_connecting :: "(nat, nat \<times> js_number) js_map"
  mg_disconnecting :: "(nat, nat) js_map"
  mg_answers :: "(nat \<times> (wallet_err + connection option)) list"
  mg_told :: "(nat \<times> message) list"
  mg_abandoned :: "nat list"

definition manager_new :: "(js_number \<Rightarrow> string) \<Rightarrow> wallet_adapter list \<Rightarrow> manager" where
  "manager_new shown adapters = \<lparr>mg_show = shown, mg_adapters = adapters, mg_active = None, mg_statusListeners = [],
     mg_networkListeners = [], mg_activeUnsubscribes = [], mg_connecting = [], mg_disconnecting = [],
     mg_answers = [], mg_told = [], mg_abandoned = []\<rparr>"

definition WalletManager ::
  "(js_number \<Rightarrow> string) \<Rightarrow> (wallet_adapter \<Rightarrow> (string, nat) js_map \<Rightarrow> bool \<Rightarrow> int) option \<Rightarrow> wallet_adapter list \<Rightarrow> string list option \<Rightarrow>
   string + manager" where
  "WalletManager shown rankAdapter adapters priority =
    (case orderByPriority rankAdapter adapters priority of Inl e \<Rightarrow> Inl e | Inr xs \<Rightarrow> Inr (manager_new shown xs))"

text \<open>\<open>Promise.all\<close> rejects as soon as one probe does.\<close>

definition detectAvailable :: "(wallet_adapter \<Rightarrow> string + bool) \<Rightarrow> manager \<Rightarrow> wallet_adapter list option" where
  "detectAvailable probe s =
    (if list_all (\<lambda>a. case probe a of Inl e \<Rightarrow> False | Inr b \<Rightarrow> True) (mg_adapters s)
     then Some (filter (\<lambda>a. probe a = Inr True) (mg_adapters s)) else None)"

definition emitStatus :: "connection_status \<Rightarrow> connection option \<Rightarrow> manager \<Rightarrow> manager" where
  "emitStatus status result s =
    s\<lparr>mg_told := mg_told s @ map (\<lambda>l. (l, StatusMsg status result)) (mg_statusListeners s)\<rparr>"

definition tell_network :: "string \<Rightarrow> manager \<Rightarrow> manager" where
  "tell_network change s = s\<lparr>mg_told := mg_told s @ map (\<lambda>l. (l, NetworkMsg change)) (mg_networkListeners s)\<rparr>"

definition detachFromActive :: "manager \<Rightarrow> manager" where
  "detachFromActive s = s\<lparr>mg_activeUnsubscribes := []\<rparr>"

definition subscriptions_to :: "wallet_adapter list \<Rightarrow> nat \<Rightarrow> subscription list" where
  "subscriptions_to adapters a =
    (if wa_connectionEvents (adapters ! a) then [OnConnection a] else []) @
    (if wa_networkEvents (adapters ! a) then [OnNetwork a] else [])"

definition attachToActive :: "nat \<Rightarrow> manager \<Rightarrow> manager" where
  "attachToActive a s =
    s\<lparr>mg_activeUnsubscribes := mg_activeUnsubscribes s @ subscriptions_to (mg_adapters s) a\<rparr>"

definition adapter_named :: "string \<Rightarrow> wallet_adapter list \<Rightarrow> nat option" where
  "adapter_named k adapters = find (\<lambda>i. wa_id (adapters ! i) = k) [0..<length adapters]"

definition answer_call :: "nat \<Rightarrow> wallet_err + connection option \<Rightarrow> manager \<Rightarrow> manager" where
  "answer_call c r s = s\<lparr>mg_answers := mg_answers s @ [(c, r)]\<rparr>"

definition DEFAULT_CONNECT_TIMEOUT_MS :: js_number where
  "DEFAULT_CONNECT_TIMEOUT_MS = js_int 120000"

definition connect_call :: "nat \<Rightarrow> string \<Rightarrow> js_number option \<Rightarrow> manager \<Rightarrow> manager" where
  "connect_call c k timeoutMs s = (case adapter_named k (mg_adapters s) of
     None \<Rightarrow> answer_call c (Inl (WalletAdapterError
         (''No wallet adapter registered with id '' @ [CHR 0x22] @ k @ [CHR 0x22]) NOT_INSTALLED)) s
   | Some a \<Rightarrow>
       let t = emitStatus StConnecting None (detachFromActive s)
       in t\<lparr>mg_connecting := jset (mg_connecting t) c
              (a, declared timeoutMs DEFAULT_CONNECT_TIMEOUT_MS)\<rparr>)"

definition connect_failed :: "nat \<Rightarrow> wallet_err \<Rightarrow> manager \<Rightarrow> manager" where
  "connect_failed c cause s =
    answer_call c (Inl cause) (emitStatus StError None (s\<lparr>mg_connecting := jdel (mg_connecting s) c\<rparr>))"

definition connect_resolved :: "nat \<Rightarrow> nat \<Rightarrow> connection \<Rightarrow> manager \<Rightarrow> manager" where
  "connect_resolved c a result s =
    answer_call c (Inr (Some result))
      (emitStatus StConnected (Some result)
        (attachToActive a (s\<lparr>mg_connecting := jdel (mg_connecting s) c, mg_active := Some a\<rparr>)))"

definition timed_out :: "nat \<Rightarrow> nat \<Rightarrow> js_number \<Rightarrow> manager \<Rightarrow> manager" where
  "timed_out c a timeoutMs s = connect_failed c (WalletAdapterError
     (''Wallet adapter '' @ [CHR 0x22] @ wa_id (mg_adapters s ! a) @ [CHR 0x22] @ '' did not settle within '' @
       mg_show s timeoutMs @ ''ms'')
     CONNECTION_TIMEOUT) (s\<lparr>mg_abandoned := mg_abandoned s @ [a]\<rparr>)"

definition disconnect_call :: "nat \<Rightarrow> manager \<Rightarrow> manager" where
  "disconnect_call c s = (case mg_active s of
     None \<Rightarrow> answer_call c (Inr None) s
   | Some a \<Rightarrow> s\<lparr>mg_disconnecting := jset (mg_disconnecting s) c a\<rparr>)"

definition disconnect_settled :: "nat \<Rightarrow> wallet_err + unit \<Rightarrow> manager \<Rightarrow> manager" where
  "disconnect_settled c r s =
    (let t = s\<lparr>mg_disconnecting := jdel (mg_disconnecting s) c\<rparr>
     in case r of
          Inl e \<Rightarrow> answer_call c (Inl e) t
        | Inr _ \<Rightarrow> answer_call c (Inr None) (emitStatus StDisconnected None ((detachFromActive t)\<lparr>mg_active := None\<rparr>)))"

definition subscribe :: "nat \<Rightarrow> nat list \<Rightarrow> nat list" where
  "subscribe l ls = (if List.member ls l then ls else ls @ [l])"

section \<open>Runs\<close>

datatype wallet_event =
    ConnectCall nat string "js_number option"
  | ConnectSettles nat "wallet_err + connection"
  | TimerFires nat
  | DisconnectCall nat
  | DisconnectSettles nat "wallet_err + unit"
  | AdapterStatus nat connection_status "connection option"
  | AdapterNetwork nat string
  | Listen nat
  | Unlisten nat
  | ListenNetwork nat
  | UnlistenNetwork nat

definition known_call :: "manager \<Rightarrow> nat \<Rightarrow> bool" where
  "known_call s c = (jhas (mg_connecting s) c \<or> jhas (mg_disconnecting s) c \<or> List.member (map fst (mg_answers s)) c)"

text \<open>An answer that comes after its race was settled changes nothing; \<open>None\<close> is an event that cannot occur.\<close>

fun mg_step :: "wallet_event \<Rightarrow> manager \<Rightarrow> manager option" where
  "mg_step (ConnectCall c k timeoutMs) s = (if known_call s c then None else Some (connect_call c k timeoutMs s))"
| "mg_step (ConnectSettles c r) s = (case jget (mg_connecting s) c of
     None \<Rightarrow> Some s
   | Some (a, timeoutMs) \<Rightarrow>
       Some (case r of Inl cause \<Rightarrow> connect_failed c cause s | Inr result \<Rightarrow> connect_resolved c a result s))"
| "mg_step (TimerFires c) s = (case jget (mg_connecting s) c of
     Some (a, timeoutMs) \<Rightarrow> if has_timer timeoutMs then Some (timed_out c a timeoutMs s) else None
   | None \<Rightarrow> None)"
| "mg_step (DisconnectCall c) s = (if known_call s c then None else Some (disconnect_call c s))"
| "mg_step (DisconnectSettles c r) s =
    (if jhas (mg_disconnecting s) c then Some (disconnect_settled c r s) else None)"
| "mg_step (AdapterStatus a st r) s =
    Some ((emitStatus st r ^^ count_list (mg_activeUnsubscribes s) (OnConnection a)) s)"
| "mg_step (AdapterNetwork a change) s =
    Some ((tell_network change ^^ count_list (mg_activeUnsubscribes s) (OnNetwork a)) s)"
| "mg_step (Listen l) s = Some (s\<lparr>mg_statusListeners := subscribe l (mg_statusListeners s)\<rparr>)"
| "mg_step (Unlisten l) s = Some (s\<lparr>mg_statusListeners := filter (\<lambda>x. x \<noteq> l) (mg_statusListeners s)\<rparr>)"
| "mg_step (ListenNetwork l) s = Some (s\<lparr>mg_networkListeners := subscribe l (mg_networkListeners s)\<rparr>)"
| "mg_step (UnlistenNetwork l) s = Some (s\<lparr>mg_networkListeners := filter (\<lambda>x. x \<noteq> l) (mg_networkListeners s)\<rparr>)"

fun mg_run :: "wallet_event list \<Rightarrow> manager \<Rightarrow> manager option" where
  "mg_run [] s = Some s"
| "mg_run (e # es) s = (case mg_step e s of None \<Rightarrow> None | Some t \<Rightarrow> mg_run es t)"

end
