(* ===== verification/WalletProps.thy ===== *)
theory WalletProps
  imports Wallets
begin

text \<open>
  What holds in every run of the wallet manager, in runs whose calls do not overlap, and what overlapping
  calls of \<open>connect\<close> leave behind.
\<close>

section \<open>Well-formed managers\<close>

definition sub_ok :: "wallet_adapter list \<Rightarrow> subscription \<Rightarrow> bool" where
  "sub_ok adapters x = (case x of
     OnConnection a \<Rightarrow> a < length adapters \<and> wa_connectionEvents (adapters ! a)
   | OnNetwork a \<Rightarrow> a < length adapters \<and> wa_networkEvents (adapters ! a))"

definition active_ok :: "wallet_adapter list \<Rightarrow> nat option \<Rightarrow> bool" where
  "active_ok adapters x = (case x of None \<Rightarrow> True | Some a \<Rightarrow> a < length adapters)"

definition open_calls :: "manager \<Rightarrow> nat list" where
  "open_calls s = jkeys (mg_connecting s) @ jkeys (mg_disconnecting s) @ map fst (mg_answers s)"

definition mg_ok :: "manager \<Rightarrow> bool" where
  "mg_ok s \<longleftrightarrow> active_ok (mg_adapters s) (mg_active s) \<and>
    list_all (sub_ok (mg_adapters s)) (mg_activeUnsubscribes s) \<and>
    list_all (\<lambda>(c, a, t). a < length (mg_adapters s)) (mg_connecting s) \<and>
    list_all (\<lambda>(c, a). a < length (mg_adapters s)) (mg_disconnecting s) \<and>
    distinct (open_calls s) \<and> distinct (mg_statusListeners s) \<and> distinct (mg_networkListeners s)"

lemma active_ok_simps [simp]: "active_ok xs None" "active_ok xs (Some a) \<longleftrightarrow> a < length xs"
  by (simp_all add: active_ok_def)

lemma mg_ok_new: "mg_ok (manager_new shown adapters)"
  by (simp add: mg_ok_def manager_new_def open_calls_def)

lemma adapter_named_bound: "adapter_named k xs = Some a \<Longrightarrow> a < length xs \<and> wa_id (xs ! a) = k"
  by (auto simp: adapter_named_def dest: find_SomeD)

lemma subscriptions_ok: "a < length xs \<Longrightarrow> list_all (sub_ok xs) (subscriptions_to xs a)"
  by (simp add: subscriptions_to_def sub_ok_def)

lemma known_call_open: "known_call s c \<longleftrightarrow> c \<in> set (open_calls s)"
  by (auto simp: known_call_def open_calls_def jsmap)

named_theorems mg_fields "the manager after an operation"

lemma emitStatus_fields [mg_fields]:
  "mg_adapters (emitStatus st r s) = mg_adapters s" "mg_active (emitStatus st r s) = mg_active s"
  "mg_activeUnsubscribes (emitStatus st r s) = mg_activeUnsubscribes s"
  "mg_connecting (emitStatus st r s) = mg_connecting s" "mg_disconnecting (emitStatus st r s) = mg_disconnecting s"
  "mg_answers (emitStatus st r s) = mg_answers s" "mg_statusListeners (emitStatus st r s) = mg_statusListeners s"
  "mg_networkListeners (emitStatus st r s) = mg_networkListeners s" "mg_show (emitStatus st r s) = mg_show s"
  by (simp_all add: emitStatus_def)

lemma mg_ok_told: "mg_ok s \<Longrightarrow> mg_ok (s\<lparr>mg_told := x\<rparr>)"
  by (simp add: mg_ok_def open_calls_def)

lemma mg_ok_listeners:
  "mg_ok s \<Longrightarrow> t = s\<lparr>mg_statusListeners := ls\<rparr> \<Longrightarrow> (distinct (mg_statusListeners s) \<Longrightarrow> distinct ls) \<Longrightarrow> mg_ok t"
  "mg_ok s \<Longrightarrow> t = s\<lparr>mg_networkListeners := ls\<rparr> \<Longrightarrow> (distinct (mg_networkListeners s) \<Longrightarrow> distinct ls) \<Longrightarrow> mg_ok t"
  by (simp_all add: mg_ok_def open_calls_def)

lemma mg_ok_emit: "mg_ok s \<Longrightarrow> mg_ok (emitStatus st r s)"
  by (simp add: emitStatus_def mg_ok_told)

lemma mg_ok_network: "mg_ok s \<Longrightarrow> mg_ok (tell_network ch s)"
  by (simp add: tell_network_def mg_ok_told)

lemma mg_ok_funpow: "(\<And>s. mg_ok s \<Longrightarrow> mg_ok (f s)) \<Longrightarrow> mg_ok s \<Longrightarrow> mg_ok ((f ^^ n) s)"
  by (induction n) auto

lemma subscribe_distinct: "distinct ls \<Longrightarrow> distinct (subscribe l ls)"
  by (simp add: subscribe_def)

lemma mg_ok_connect_call:
  "mg_ok s \<Longrightarrow> \<not> known_call s c \<Longrightarrow> mg_ok (connect_call c k t s)"
  by (cases "adapter_named k (mg_adapters s)")
    (auto simp: connect_call_def mg_ok_def answer_call_def open_calls_def known_call_open Let_def mg_fields
      detachFromActive_def jkeys_set_new dest: adapter_named_bound intro!: list_all_jset split: option.splits)

lemma jdel_moved:
  "distinct (jkeys m @ ys @ zs) \<Longrightarrow> c \<in> set (jkeys m) \<Longrightarrow> distinct (jkeys (jdel m c) @ ys @ zs @ [c])"
  by (auto simp: jkeys_del)

lemma mg_ok_failed:
  assumes "mg_ok s" and "jhas (mg_connecting s) c"
  shows "mg_ok (connect_failed c e s)"
  using assms jdel_moved [of "mg_connecting s" "jkeys (mg_disconnecting s)" "map fst (mg_answers s)" c]
  by (auto simp: mg_ok_def connect_failed_def answer_call_def mg_fields open_calls_def jhas_iff list_all_jdel)

lemma mg_ok_abandoned: "mg_ok s \<Longrightarrow> mg_ok (s\<lparr>mg_abandoned := x\<rparr>)"
  by (simp add: mg_ok_def open_calls_def)

lemma mg_ok_timed_out:
  assumes "mg_ok s" and "jhas (mg_connecting s) c"
  shows "mg_ok (timed_out c a ms s)"
  unfolding timed_out_def by (rule mg_ok_failed) (use assms in \<open>simp_all add: mg_ok_abandoned\<close>)

lemma mg_ok_resolved:
  assumes "mg_ok s" and "jget (mg_connecting s) c = Some (a, t)"
  shows "mg_ok (connect_resolved c a result s)"
proof -
  have "c \<in> set (jkeys (mg_connecting s))" using assms(2) by (simp add: jkeys_jget)
  moreover have "a < length (mg_adapters s)"
    using jget_list_all [OF _ assms(2), of "\<lambda>(c, a, t). a < length (mg_adapters s)"] assms(1) by (simp add: mg_ok_def)
  ultimately show ?thesis
    using assms(1) jdel_moved [of "mg_connecting s" "jkeys (mg_disconnecting s)" "map fst (mg_answers s)" c]
    by (auto simp: mg_ok_def connect_resolved_def attachToActive_def answer_call_def mg_fields open_calls_def
        list_all_jdel subscriptions_ok)
qed

lemma mg_ok_disconnect_settled:
  assumes "mg_ok s" and "jhas (mg_disconnecting s) c"
  shows "mg_ok (disconnect_settled c r s)"
  using assms
  by (cases r) (auto simp: mg_ok_def disconnect_settled_def answer_call_def mg_fields open_calls_def jhas_iff
      list_all_jdel detachFromActive_def Let_def jkeys_del)

lemma started_open:
  assumes "\<not> known_call s c"
  shows "mset (open_calls (connect_call c k t s)) = mset (open_calls s) + {#c#}"
    and "mset (open_calls (disconnect_call c s)) = mset (open_calls s) + {#c#}"
proof -
  have "c \<notin> set (jkeys (mg_connecting s))" "c \<notin> set (jkeys (mg_disconnecting s))"
    using assms by (auto simp: known_call_open open_calls_def)
  then show "mset (open_calls (connect_call c k t s)) = mset (open_calls s) + {#c#}"
      "mset (open_calls (disconnect_call c s)) = mset (open_calls s) + {#c#}"
    by (simp_all add: open_calls_def connect_call_def disconnect_call_def answer_call_def Let_def mg_fields
        detachFromActive_def jkeys_set_new split: option.split)
qed

lemma distinct_started:
  assumes "mset ys = mset xs + {#c#}" and "distinct xs" and "c \<notin> set xs"
  shows "distinct ys"
proof -
  have "mset ys = mset (c # xs)" using assms(1) by simp
  then show ?thesis using assms(2,3) by (metis distinct.simps(2) mset_eq_imp_distinct_iff)
qed

lemma mg_ok_disconnect_call:
  assumes "mg_ok s" and "\<not> known_call s c"
  shows "mg_ok (disconnect_call c s)"
proof -
  have "distinct (open_calls (disconnect_call c s))"
    by (rule distinct_started [OF started_open(2) [OF assms(2)]])
      (use assms in \<open>auto simp: mg_ok_def known_call_open\<close>)
  then show ?thesis using assms(1)
    by (auto simp: mg_ok_def disconnect_call_def answer_call_def intro!: list_all_jset split: option.splits)
qed

lemma mg_ok_step:
  assumes "mg_step e s = Some t" and "mg_ok s"
  shows "mg_ok t"
proof (cases e)
  case (ConnectCall c k ms)
  then show ?thesis using assms by (auto simp: mg_ok_connect_call split: if_splits)
next
  case (ConnectSettles c r)
  then show ?thesis using assms
    by (cases r) (auto simp: mg_ok_failed mg_ok_resolved jhas_iff jkeys_jget split: option.splits)
next
  case (TimerFires c)
  then obtain a ms where a: "jget (mg_connecting s) c = Some (a, ms)" "t = timed_out c a ms s"
    using assms(1) by (auto split: option.splits if_splits)
  show ?thesis unfolding a(2) by (rule mg_ok_timed_out) (use assms(2) a(1) in \<open>auto simp: jhas_iff jkeys_jget\<close>)
next
  case (DisconnectCall c)
  then show ?thesis using assms by (auto simp: mg_ok_disconnect_call split: if_splits)
next
  case (DisconnectSettles c r)
  then show ?thesis using assms by (auto simp: mg_ok_disconnect_settled split: if_splits)
next
  case (AdapterStatus a st r)
  then show ?thesis using assms by (auto intro!: mg_ok_funpow mg_ok_emit)
next
  case (AdapterNetwork a ch)
  then show ?thesis using assms by (auto intro!: mg_ok_funpow mg_ok_network)
next
  case (Listen l)
  show ?thesis by (rule mg_ok_listeners(1) [OF assms(2), where ls = "subscribe l (mg_statusListeners s)"]) (use assms Listen in \<open>simp_all add: subscribe_distinct\<close>)
next
  case (Unlisten l)
  show ?thesis by (rule mg_ok_listeners(1) [OF assms(2), where ls = "filter (\<lambda>x. x \<noteq> l) (mg_statusListeners s)"]) (use assms Unlisten in \<open>simp_all add: subscribe_distinct\<close>)
next
  case (ListenNetwork l)
  show ?thesis by (rule mg_ok_listeners(2) [OF assms(2), where ls = "subscribe l (mg_networkListeners s)"]) (use assms ListenNetwork in \<open>simp_all add: subscribe_distinct\<close>)
next
  case (UnlistenNetwork l)
  show ?thesis by (rule mg_ok_listeners(2) [OF assms(2), where ls = "filter (\<lambda>x. x \<noteq> l) (mg_networkListeners s)"]) (use assms UnlistenNetwork in \<open>simp_all add: subscribe_distinct\<close>)
qed

lemma mg_ok_run: "mg_run es s = Some t \<Longrightarrow> mg_ok s \<Longrightarrow> mg_ok t"
  by (induction es arbitrary: s) (auto split: option.splits dest: mg_ok_step)

section \<open>Every call is answered once\<close>

definition calls_of :: "wallet_event list \<Rightarrow> nat list" where
  "calls_of es = List.map_filter (\<lambda>e. case e of ConnectCall c k t \<Rightarrow> Some c | DisconnectCall c \<Rightarrow> Some c | _ \<Rightarrow> None) es"

lemma open_told: "open_calls (emitStatus st r s) = open_calls s" "open_calls (tell_network ch s) = open_calls s"
  by (simp_all add: open_calls_def emitStatus_def tell_network_def)

lemma open_funpow: "(\<And>s. open_calls (f s) = open_calls s) \<Longrightarrow> open_calls ((f ^^ n) s) = open_calls s"
  by (induction n) simp_all

lemma filter_eq_distinct: "distinct xs \<Longrightarrow> c \<in> set xs \<Longrightarrow> filter (\<lambda>x. x = c) xs = [c]"
  by (induction xs) (auto simp: filter_empty_conv)

lemma jdel_mset:
  assumes "distinct (jkeys m)" and "c \<in> set (jkeys m)"
  shows "mset (jkeys (jdel m c)) + {#c#} = mset (jkeys m)"
proof -
  have "mset (jkeys m) = mset (filter (\<lambda>x. x \<noteq> c) (jkeys m)) + mset (filter (\<lambda>x. \<not> x \<noteq> c) (jkeys m))"
    unfolding mset_filter by (rule multiset_partition)
  then show ?thesis using assms by (simp add: jkeys_del filter_eq_distinct)
qed

lemma failed_open:
  assumes "mg_ok s" and "jhas (mg_connecting s) c"
  shows "mset (open_calls (connect_failed c e s)) = mset (open_calls s)"
proof -
  have "mset (jkeys (jdel (mg_connecting s) c)) + {#c#} = mset (jkeys (mg_connecting s))"
    by (rule jdel_mset) (use assms in \<open>auto simp: mg_ok_def open_calls_def jhas_iff\<close>)
  then show ?thesis by (simp add: open_calls_def connect_failed_def answer_call_def mg_fields flip: \<open>_ = mset (jkeys (mg_connecting s))\<close>)
qed

lemma resolved_open:
  assumes "mg_ok s" and "jhas (mg_connecting s) c"
  shows "mset (open_calls (connect_resolved c a r s)) = mset (open_calls s)"
proof -
  have "mset (jkeys (jdel (mg_connecting s) c)) + {#c#} = mset (jkeys (mg_connecting s))"
    by (rule jdel_mset) (use assms in \<open>auto simp: mg_ok_def open_calls_def jhas_iff\<close>)
  then show ?thesis
    by (simp add: open_calls_def connect_resolved_def attachToActive_def answer_call_def mg_fields flip: \<open>_ = mset (jkeys (mg_connecting s))\<close>)
qed

lemma disconnected_open:
  assumes "mg_ok s" and "jhas (mg_disconnecting s) c"
  shows "mset (open_calls (disconnect_settled c r s)) = mset (open_calls s)"
proof -
  have "mset (jkeys (jdel (mg_disconnecting s) c)) + {#c#} = mset (jkeys (mg_disconnecting s))"
    by (rule jdel_mset) (use assms in \<open>auto simp: mg_ok_def open_calls_def jhas_iff\<close>)
  then show ?thesis
    by (cases r) (simp_all add: open_calls_def disconnect_settled_def answer_call_def mg_fields detachFromActive_def
        Let_def flip: \<open>_ = mset (jkeys (mg_disconnecting s))\<close>)
qed

lemma open_calls_step:
  assumes "mg_step e s = Some t" and "mg_ok s"
  shows "mset (open_calls t) = mset (open_calls s) + mset (calls_of [e])"
proof (cases e)
  case (ConnectSettles c r)
  then show ?thesis using assms
    by (cases r) (auto simp: calls_of_def map_filter_simps failed_open resolved_open jhas_iff jkeys_jget split: option.splits)
next
  case (TimerFires c)
  then obtain a ms where a: "jget (mg_connecting s) c = Some (a, ms)" "t = timed_out c a ms s"
    using assms(1) by (auto split: option.splits if_splits)
  have "mset (open_calls t) = mset (open_calls (s\<lparr>mg_abandoned := mg_abandoned s @ [a]\<rparr>))"
    unfolding a(2) timed_out_def
    by (rule failed_open) (use assms(2) a(1) in \<open>auto simp: mg_ok_abandoned jhas_iff jkeys_jget\<close>)
  then show ?thesis using TimerFires by (simp add: open_calls_def calls_of_def map_filter_simps)
qed (use assms in \<open>auto simp: calls_of_def map_filter_simps started_open disconnected_open open_funpow open_told
    split: if_splits\<close>, simp_all add: open_calls_def)

lemma open_calls_run:
  "mg_run es s = Some t \<Longrightarrow> mg_ok s \<Longrightarrow> mset (open_calls t) = mset (open_calls s) + mset (calls_of es)"
proof (induction es arbitrary: s)
  case Nil
  then show ?case by (simp add: calls_of_def map_filter_simps)
next
  case (Cons e es)
  then obtain u where u: "mg_step e s = Some u" "mg_run es u = Some t" by (auto split: option.splits)
  have "calls_of (e # es) = calls_of [e] @ calls_of es" by (simp add: calls_of_def map_filter_simps split: option.split)
  then show ?case using Cons.IH [OF u(2) mg_ok_step [OF u(1) Cons.prems(2)]] open_calls_step [OF u(1) Cons.prems(2)]
    by simp
qed

section \<open>Calls one after the other\<close>

definition at_rest :: "manager \<Rightarrow> bool" where
  "at_rest s \<longleftrightarrow> mg_connecting s = [] \<and> mg_disconnecting s = []"

text \<open>Runs in which no call starts while another is open.\<close>

fun mg_run_apart :: "wallet_event list \<Rightarrow> manager \<Rightarrow> manager option" where
  "mg_run_apart [] s = Some s"
| "mg_run_apart (e # es) s =
    (if calls_of [e] \<noteq> [] \<and> \<not> at_rest s then None
     else case mg_step e s of None \<Rightarrow> None | Some t \<Rightarrow> mg_run_apart es t)"

text \<open>The manager listens to the active wallet, once for each kind of event it has, or to nobody.\<close>

definition listens_to_active :: "manager \<Rightarrow> bool" where
  "listens_to_active s \<longleftrightarrow> mg_activeUnsubscribes s = [] \<or>
    mg_activeUnsubscribes s = (case mg_active s of None \<Rightarrow> [] | Some a \<Rightarrow> subscriptions_to (mg_adapters s) a)"

definition apart_inv :: "manager \<Rightarrow> bool" where
  "apart_inv s \<longleftrightarrow> listens_to_active s \<and> length (mg_connecting s) + length (mg_disconnecting s) \<le> 1 \<and>
    (mg_connecting s \<noteq> [] \<longrightarrow> mg_activeUnsubscribes s = [])"

lemma apart_told: "apart_inv (s\<lparr>mg_told := x\<rparr>) = apart_inv s" "apart_inv (s\<lparr>mg_answers := y\<rparr>) = apart_inv s"
    "apart_inv (s\<lparr>mg_abandoned := z\<rparr>) = apart_inv s" "apart_inv (s\<lparr>mg_statusListeners := u\<rparr>) = apart_inv s"
    "apart_inv (s\<lparr>mg_networkListeners := u\<rparr>) = apart_inv s"
  by (simp_all add: apart_inv_def listens_to_active_def cong: option.case_cong)

lemma apart_emit: "apart_inv (emitStatus st r s) = apart_inv s" "apart_inv (tell_network ch s) = apart_inv s"
    "apart_inv (answer_call c q s) = apart_inv s"
  by (simp_all add: emitStatus_def tell_network_def answer_call_def apart_told)

lemma apart_funpow: "(\<And>s. apart_inv (f s) = apart_inv s) \<Longrightarrow> apart_inv ((f ^^ n) s) = apart_inv s"
  by (induction n) simp_all

lemma apart_only:
  assumes "apart_inv s" and "jget (mg_connecting s) c = Some v"
  shows "mg_connecting s = [(c, v)]" and "mg_disconnecting s = []" and "mg_activeUnsubscribes s = []"
proof -
  have "mg_connecting s \<noteq> []" using assms(2) by auto
  then show "mg_disconnecting s = []" "mg_activeUnsubscribes s = []"
    using assms(1) by (auto simp: apart_inv_def neq_Nil_conv)
  obtain p where "mg_connecting s = [p]"
    using \<open>mg_connecting s \<noteq> []\<close> assms(1) by (auto simp: apart_inv_def neq_Nil_conv)
  then show "mg_connecting s = [(c, v)]" using assms(2) by (cases p) (auto simp: jget_def split: if_splits)
qed

lemma apart_failed:
  assumes "apart_inv s" and "jget (mg_connecting s) c = Some v"
  shows "apart_inv (connect_failed c e s)"
  unfolding connect_failed_def apart_emit
  using apart_only [OF assms] by (simp add: apart_inv_def listens_to_active_def jdel_def)

lemma apart_resolved:
  assumes "apart_inv s" and "jget (mg_connecting s) c = Some (a, t)"
  shows "apart_inv (connect_resolved c a r s)"
  unfolding connect_resolved_def apart_emit
  using apart_only [OF assms] by (simp add: apart_inv_def listens_to_active_def attachToActive_def jdel_def)

lemma apart_step:
  assumes "mg_step e s = Some t" and "apart_inv s" and "calls_of [e] = [] \<or> at_rest s"
  shows "apart_inv t"
proof (cases e)
  case (ConnectCall c k ms)
  then have "at_rest s" using assms(3) by (simp add: calls_of_def map_filter_simps)
  moreover have "t = connect_call c k ms s" using assms(1) ConnectCall by (auto split: if_splits)
  ultimately show ?thesis using assms(2)
    by (cases "adapter_named k (mg_adapters s)") (simp_all add: connect_call_def apart_emit,
      simp add: apart_inv_def listens_to_active_def Let_def mg_fields at_rest_def detachFromActive_def)
next
  case (ConnectSettles c r)
  then show ?thesis using assms
    by (cases r) (auto simp: apart_failed apart_resolved split: option.splits)
next
  case (TimerFires c)
  then obtain a ms where a: "jget (mg_connecting s) c = Some (a, ms)" "t = timed_out c a ms s"
    using assms(1) by (auto split: option.splits if_splits)
  show ?thesis unfolding a(2) timed_out_def
    by (rule apart_failed) (use a(1) assms(2) in \<open>simp_all add: apart_told\<close>)
next
  case (DisconnectCall c)
  then have "at_rest s" using assms(3) by (simp add: calls_of_def map_filter_simps)
  moreover have "t = disconnect_call c s" using assms(1) DisconnectCall by (auto split: if_splits)
  ultimately show ?thesis using assms(2)
    by (cases "mg_active s") (simp_all add: disconnect_call_def apart_emit,
      simp add: apart_inv_def listens_to_active_def at_rest_def)
next
  case (DisconnectSettles c r)
  then have "c \<in> set (jkeys (mg_disconnecting s))" and t: "t = disconnect_settled c r s"
    using assms(1) by (auto simp: jhas_iff split: if_splits)
  then have "0 < length (mg_disconnecting s)" by (auto simp: jkeys_def)
  moreover have "length (mg_connecting s) + length (mg_disconnecting s) \<le> 1"
    using assms(2) by (simp add: apart_inv_def)
  ultimately have "length (mg_connecting s) = 0 \<and> length (mg_disconnecting s) \<le> 1" by linarith
  then have "mg_connecting s = []" "length (mg_disconnecting s) \<le> 1" by simp_all
  then show ?thesis unfolding t using assms(2) length_jdel_le [of "mg_disconnecting s" c]
    by (cases r) (simp_all add: disconnect_settled_def Let_def apart_emit,
      simp_all add: apart_inv_def listens_to_active_def detachFromActive_def cong: option.case_cong)
next
  case (AdapterStatus a st r)
  then have "apart_inv t = apart_inv s" using assms(1) by (auto simp: apart_funpow apart_emit)
  then show ?thesis using assms(2) by simp
next
  case (AdapterNetwork a ch)
  then have "apart_inv t = apart_inv s" using assms(1) by (auto simp: apart_funpow apart_emit)
  then show ?thesis using assms(2) by simp
qed (use assms in \<open>auto simp: apart_told\<close>)

lemma apart_run: "mg_run_apart es s = Some t \<Longrightarrow> apart_inv s \<Longrightarrow> apart_inv t"
  by (induction es arbitrary: s) (auto split: if_splits option.splits dest: apart_step)

section \<open>Properties\<close>


definition two_wallets :: "wallet_adapter list" where
  "two_wallets = [\<lparr>wa_id = ''a'', wa_name = ''A'', wa_icon = None, wa_priority = None, wa_soroban = None,
      wa_signedTxNote = None, wa_connectionEvents = True, wa_networkEvents = False\<rparr>,
    \<lparr>wa_id = ''b'', wa_name = ''B'', wa_icon = None, wa_priority = None, wa_soroban = None,
      wa_signedTxNote = None, wa_connectionEvents = True, wa_networkEvents = False\<rparr>]"

lemma two_wallets_named: "adapter_named ''a'' two_wallets = Some 0" "adapter_named ''b'' two_wallets = Some 1"
  by (simp_all add: adapter_named_def two_wallets_def upt_rec)

lemmas wallet_eval = manager_new_def connect_call_def known_call_def answer_call_def emitStatus_def detachFromActive_def
  attachToActive_def connect_resolved_def connect_failed_def timed_out_def Let_def jhas_def jget_def jdel_def


text \<open>
  C21: where no call starts while another is open, the manager is subscribed to the active wallet, once for
  each kind of event it offers, or to no wallet at all: nothing another wallet reports reaches a listener.
\<close>

theorem wallet_events_exclusive:
  assumes "mg_run_apart es (manager_new shown adapters) = Some s"
  shows "listens_to_active s"
  using apart_run [OF assms] by (simp add: apart_inv_def listens_to_active_def manager_new_def)

theorem wallet_events_exclusive_witness:
  "\<exists>s. mg_run_apart [ConnectCall 0 ''a'' None, ConnectSettles 0 (Inr \<lparr>cn_address = ''G'', cn_network = None\<rparr>)]
      (manager_new (\<lambda>x. []) two_wallets) = Some s \<and> mg_activeUnsubscribes s = [OnConnection 0] \<and> listens_to_active s"
proof -
  obtain s where s: "mg_run_apart [ConnectCall 0 ''a'' None, ConnectSettles 0 (Inr \<lparr>cn_address = ''G'', cn_network = None\<rparr>)]
      (manager_new (\<lambda>x. []) two_wallets) = Some s" "mg_activeUnsubscribes s = [OnConnection 0]"
    by (simp add: wallet_eval two_wallets_named at_rest_def subscriptions_to_def calls_of_def map_filter_simps)
      (simp add: two_wallets_def)
  with wallet_events_exclusive [OF s(1)] show ?thesis by blast
qed

text \<open>
  Calls of \<open>connect\<close> that overlap leave the subscriptions of the wallet that lost in place beside those of
  the active one; and a call that fails leaves the wallet of before active without any subscription to it.
\<close>

theorem wallet_calls_overlap:
  assumes "adapter_named p xs = Some a" and "adapter_named q xs = Some b"
  shows "\<exists>s t. mg_run [ConnectCall 0 p None, ConnectCall 1 q None, ConnectSettles 0 (Inr x), ConnectSettles 1 (Inr y)]
      (manager_new shown xs) = Some s \<and> mg_active s = Some b \<and>
      mg_activeUnsubscribes s = subscriptions_to xs a @ subscriptions_to xs b \<and>
    mg_run [ConnectCall 0 p None, ConnectSettles 0 (Inr x), ConnectCall 1 q None, ConnectSettles 1 (Inl e)]
      (manager_new shown xs) = Some t \<and> mg_active t = Some a \<and> mg_activeUnsubscribes t = []"
  using assms by (simp add: wallet_eval)

definition at_address :: "string \<Rightarrow> connection" where
  "at_address g = \<lparr>cn_address = g, cn_network = None\<rparr>"

theorem wallet_calls_overlap_witness:
  "\<exists>s. mg_run [ConnectCall 0 ''a'' None, ConnectCall 1 ''b'' None, ConnectSettles 0 (Inr (at_address ''G'')),
        ConnectSettles 1 (Inr (at_address ''H''))] (manager_new (\<lambda>n. []) two_wallets) = Some s \<and>
      mg_active s = Some 1 \<and> mg_activeUnsubscribes s = [OnConnection 0, OnConnection 1]"
proof -
  have "subscriptions_to two_wallets 0 @ subscriptions_to two_wallets 1 = [OnConnection 0, OnConnection 1]"
    by (simp add: subscriptions_to_def two_wallets_def)
  with wallet_calls_overlap [OF two_wallets_named, of "at_address ''G''" "at_address ''H''" "\<lambda>n. []" "OtherWalletErr []"]
  show ?thesis by (elim exE conjE, intro exI conjI) (assumption | simp only:)+
qed

end
