(* ===== verification/WalletErrors.thy ===== *)
theory WalletErrors
  imports Prelude
begin

text \<open>
  The error type of \<open>packages/wallet-adapter\<close>: its two normalizers, \<open>src/errors.ts\<close> with codes and \<open>src/index.ts\<close>
  without. A value that can be thrown is modelled by what the two read of it. The two classes have one name and are
  different classes: errors of the first carry a code, errors of the second none.
\<close>

section \<open>What may be thrown\<close>

datatype property = TextProperty string | OtherProperty

datatype thrown =
    ThrownWalletError string "string option" "thrown option"
  | ThrownError string "property option"
  | ThrownText string
  | ThrownObject string "property option" "property option"
  | ThrownNothing
  | ThrownPrimitive string

text \<open>
  The fields: message, code and cause of a wallet error; message and \<open>code\<close> property of another \<open>Error\<close>; the
  string an object converts to, its \<open>message\<close> and its \<open>code\<close>; the string any other primitive converts to.
\<close>

fun is_coded :: "thrown \<Rightarrow> bool" where
  "is_coded (ThrownWalletError m (Some c) x) = True"
| "is_coded _ = False"

fun is_plain_wallet :: "thrown \<Rightarrow> bool" where
  "is_plain_wallet (ThrownWalletError m None x) = True"
| "is_plain_wallet _ = False"

section \<open>With codes\<close>

fun messageFrom :: "thrown \<Rightarrow> string" where
  "messageFrom (ThrownWalletError m c x) = m"
| "messageFrom (ThrownError m c) = m"
| "messageFrom (ThrownText s) = s"
| "messageFrom (ThrownObject s (Some (TextProperty m)) c) = m"
| "messageFrom _ = ''Unknown wallet adapter error''"

fun codeFrom :: "thrown \<Rightarrow> string" where
  "codeFrom (ThrownWalletError m (Some c) x) = c"
| "codeFrom (ThrownError m (Some (TextProperty c))) = c"
| "codeFrom (ThrownObject s m (Some (TextProperty c))) = c"
| "codeFrom _ = ''UNKNOWN''"

definition normalizeWalletAdapterError :: "string \<Rightarrow> thrown \<Rightarrow> thrown" where
  "normalizeWalletAdapterError fallbackCode error =
    (if is_coded error then error
     else let code = codeFrom error
          in ThrownWalletError (messageFrom error) (Some (if code = ''UNKNOWN'' then fallbackCode else code)) (Some error))"

section \<open>Without codes\<close>

definition normalize_plain :: "thrown \<Rightarrow> thrown" where
  "normalize_plain error =
    (if is_plain_wallet error then error
     else case error of
         ThrownWalletError m c x \<Rightarrow> ThrownWalletError m None (Some error)
       | ThrownError m c \<Rightarrow> ThrownWalletError m None (Some error)
       | ThrownNothing \<Rightarrow> ThrownWalletError ''Unknown wallet adapter error'' None None
       | ThrownText s \<Rightarrow> ThrownWalletError s None (Some error)
       | ThrownObject s m c \<Rightarrow> ThrownWalletError s None (Some error)
       | ThrownPrimitive s \<Rightarrow> ThrownWalletError s None (Some error))"

fun cause_of :: "thrown \<Rightarrow> thrown option" where
  "cause_of (ThrownWalletError m c x) = x"
| "cause_of _ = None"

section \<open>Properties\<close>

text \<open>
  Normalization always gives an error of the package, is idempotent whatever the fallback, and loses nothing: what
  was thrown is the result or its cause, except that the version without codes gives \<open>null\<close> no cause. The code is
  the fallback only where the value has none of its own.
\<close>

theorem normalization_keeps_cause:
  "is_coded (normalizeWalletAdapterError f e) \<and> is_plain_wallet (normalize_plain e) \<and>
   normalizeWalletAdapterError g (normalizeWalletAdapterError f e) = normalizeWalletAdapterError f e \<and>
   normalize_plain (normalize_plain e) = normalize_plain e \<and>
   (normalizeWalletAdapterError f e = e \<or> cause_of (normalizeWalletAdapterError f e) = Some e) \<and>
   (normalize_plain e = e \<or> cause_of (normalize_plain e) = (if e = ThrownNothing then None else Some e)) \<and>
   messageFrom (normalizeWalletAdapterError f e) = messageFrom e \<and>
   codeFrom (normalizeWalletAdapterError f e) = (if codeFrom e = ''UNKNOWN'' \<and> \<not> is_coded e then f else codeFrom e)"
proof -
  have coded: "is_coded (normalizeWalletAdapterError f e)" for f e
    by (simp add: normalizeWalletAdapterError_def Let_def)
  have plain: "is_plain_wallet (normalize_plain e)" for e
    by (cases e) (simp_all add: normalize_plain_def split: option.split)
  have fixed: "is_coded x \<Longrightarrow> normalizeWalletAdapterError g x = x" "is_plain_wallet x \<Longrightarrow> normalize_plain x = x" for x
    by (simp_all add: normalizeWalletAdapterError_def normalize_plain_def)
  have "normalize_plain e = e \<or> cause_of (normalize_plain e) = (if e = ThrownNothing then None else Some e)"
    by (cases e) (simp_all add: normalize_plain_def)
  moreover have "normalizeWalletAdapterError f e = e \<or> cause_of (normalizeWalletAdapterError f e) = Some e"
    and "messageFrom (normalizeWalletAdapterError f e) = messageFrom e"
    and "codeFrom (normalizeWalletAdapterError f e) = (if codeFrom e = ''UNKNOWN'' \<and> \<not> is_coded e then f else codeFrom e)"
    by (simp_all add: normalizeWalletAdapterError_def Let_def)
  ultimately show ?thesis using coded plain fixed by blast
qed

text \<open>A code of any origin passes as one of the five the type declares.\<close>

definition declared_codes :: "string list" where
  "declared_codes = [''WALLET_NOT_FOUND'', ''WALLET_NOT_CONNECTED'', ''USER_REJECTED'', ''TRANSACTION_FAILED'', ''UNKNOWN'']"

lemma foreign_code_passes:
  "codeFrom (normalizeWalletAdapterError ''UNKNOWN'' (ThrownError ''socket hang up'' (Some (TextProperty ''ECONNRESET'')))) = ''ECONNRESET'' \<and>
   \<not> List.member declared_codes ''ECONNRESET''"
  by (simp add: normalizeWalletAdapterError_def declared_codes_def Let_def)

end
