(* ===== verification/Adapters.thy ===== *)
theory Adapters
  imports Wallets
begin

text \<open>
  The wallet adapters (\<open>packages/wallet-adapters/src/adapters\<close>): Freighter, xBull, Albedo, Lobstr, Ledger and
  Rabet. What the extension, the popup, the iframe or the device answers during one operation is the
  argument \<open>w\<close> of that operation; \<open>None\<close> is a wallet that is not there. A storage that throws and listeners
  that throw are left out.
\<close>

record sign_opts =
  so_networkPassphrase :: "string option"
  so_accountToSign :: "string option"

definition wallet_missing :: "string \<Rightarrow> wallet_err" where
  "wallet_missing m = WalletAdapterError m NOT_INSTALLED"

definition account_for :: "sign_opts \<Rightarrow> string option \<Rightarrow> string option" where
  "account_for opts own = (case so_accountToSign opts of Some a \<Rightarrow> Some a | None \<Rightarrow> own)"

section \<open>Optional dependencies\<close>

datatype import_result = ImportFails | NotModule | Module

fun split_at :: "char \<Rightarrow> string \<Rightarrow> string list" where
  "split_at c [] = [[]]"
| "split_at c (x # s) = (if x = c then [] # split_at c s
     else case split_at c s of [] \<Rightarrow> [[x]] | p # ps \<Rightarrow> (x # p) # ps)"

definition lower_letter :: "char \<Rightarrow> bool" where
  "lower_letter c = (97 \<le> (of_char c :: nat) \<and> (of_char c :: nat) \<le> 122)"

definition specifier_char :: "char \<Rightarrow> bool" where
  "specifier_char c = (is_digit c \<or> lower_letter c \<or> c = CHR ''.'' \<or> c = CHR ''_'' \<or> c = CHR ''-'')"

definition specifier_start :: "char \<Rightarrow> bool" where
  "specifier_start c = (is_digit c \<or> lower_letter c)"

definition package_segment :: "string \<Rightarrow> bool" where
  "package_segment s = (case s of [] \<Rightarrow> False | c # cs \<Rightarrow> specifier_start c \<and> list_all specifier_char cs)"

definition subpath_segment :: "string \<Rightarrow> bool" where
  "subpath_segment s = (s \<noteq> [] \<and> list_all specifier_char s)"

definition BARE_PACKAGE_SPECIFIER :: "string \<Rightarrow> bool" where
  "BARE_PACKAGE_SPECIFIER s = (case split_at (CHR ''/'') s of
     (x # scope) # package # rest \<Rightarrow>
       if x = CHR ''@'' then package_segment scope \<and> package_segment package \<and> list_all subpath_segment rest
       else package_segment (x # scope) \<and> list_all subpath_segment (package # rest)
   | [package] \<Rightarrow> package_segment package
   | _ \<Rightarrow> False)"

definition not_installed_dependency :: "string \<Rightarrow> wallet_err" where
  "not_installed_dependency m = WalletAdapterError m DEPENDENCY_NOT_INSTALLED"

definition loadOptionalWalletDependency :: "string \<Rightarrow> string \<Rightarrow> import_result \<Rightarrow> wallet_err + unit" where
  "loadOptionalWalletDependency moduleName adapterName outcome =
    (let quoted = [CHR 0x22] @ moduleName @ [CHR 0x22]
     in if \<not> BARE_PACKAGE_SPECIFIER moduleName \<or> List.member (split_at (CHR ''/'') moduleName) ''..''
        then Inl (not_installed_dependency (adapterName @ '' refused to load '' @ quoted @
               '': only bare npm package names are allowed''))
        else (case outcome of
            ImportFails \<Rightarrow> Inl (not_installed_dependency (adapterName @ '' requires the optional dependency '' @ quoted @
               ''. Install it with: npm install '' @ moduleName))
          | NotModule \<Rightarrow> Inl (not_installed_dependency (adapterName @ '' loaded '' @ quoted @ '' but it did not export a module''))
          | Module \<Rightarrow> Inr ()))"

section \<open>Freighter\<close>

record freighter_api =
  fa_requestAccess :: "wallet_err + unit"
  fa_getAddress :: "wallet_err + string"
  fa_getNetworkDetails :: "wallet_err + string"
  fa_setNetwork :: "(string \<Rightarrow> wallet_err + unit) option"
  fa_isAllowed :: "nat \<Rightarrow> wallet_err + bool option"
  fa_signTransaction :: "string \<Rightarrow> string option \<Rightarrow> string option \<Rightarrow> wallet_err + string"
  fa_on :: bool

record freighter_env =
  fw_api :: "freighter_api option"
  fw_storage :: bool

record freighter =
  fr_address :: "string option"
  fr_stored :: bool
  fr_connectionListeners :: "nat list"
  fr_networkListeners :: "nat list"
  fr_attached :: nat
  fr_told :: "(nat \<times> message) list"

definition fr_new :: freighter where
  "fr_new = \<lparr>fr_address = None, fr_stored = False, fr_connectionListeners = [], fr_networkListeners = [],
     fr_attached = 0, fr_told = []\<rparr>"

definition fr_missing :: wallet_err where
  "fr_missing = wallet_missing ''Freighter extension not found''"

definition fr_isAvailable :: "freighter_env \<Rightarrow> bool" where
  "fr_isAvailable w = (fw_api w \<noteq> None)"

definition fr_writeStorage :: "freighter_env \<Rightarrow> bool \<Rightarrow> freighter \<Rightarrow> freighter" where
  "fr_writeStorage w x s = (if fw_storage w then s\<lparr>fr_stored := x\<rparr> else s)"

definition fr_emitStatus :: "connection_status \<Rightarrow> connection option \<Rightarrow> freighter \<Rightarrow> freighter" where
  "fr_emitStatus st r s = s\<lparr>fr_told := fr_told s @ map (\<lambda>l. (l, StatusMsg st r)) (fr_connectionListeners s)\<rparr>"

definition safeGetNetwork :: "wallet_err + 'a \<Rightarrow> 'a option" where
  "safeGetNetwork r = (case r of Inl e \<Rightarrow> None | Inr x \<Rightarrow> Some x)"

text \<open>\<open>attachListeners\<close> registers the three handlers once more; \<open>fr_attached\<close> counts how often they are there.\<close>

definition fr_attachListeners :: "freighter_api \<Rightarrow> freighter \<Rightarrow> freighter" where
  "fr_attachListeners api s = (if fa_on api then s\<lparr>fr_attached := Suc (fr_attached s)\<rparr> else s)"

definition fr_connect :: "freighter_env \<Rightarrow> freighter \<Rightarrow> (wallet_err + connection) \<times> freighter" where
  "fr_connect w s = (case fw_api w of
     None \<Rightarrow> (Inl fr_missing, s)
   | Some api \<Rightarrow>
       let s1 = fr_emitStatus StConnecting None s
       in case (case fa_requestAccess api of Inl e \<Rightarrow> Inl e | Inr _ \<Rightarrow> fa_getAddress api) of
            Inl cause \<Rightarrow> (Inl (mapCommonWalletError ''Freighter'' cause), fr_emitStatus StError None s1)
          | Inr address \<Rightarrow>
              let result = \<lparr>cn_address = address, cn_network = safeGetNetwork (fa_getNetworkDetails api)\<rparr>
              in (Inr result, fr_emitStatus StConnected (Some result)
                   (fr_attachListeners api (fr_writeStorage w True (s1\<lparr>fr_address := Some address\<rparr>)))))"

definition fr_disconnect :: "freighter_env \<Rightarrow> freighter \<Rightarrow> freighter" where
  "fr_disconnect w s =
    fr_emitStatus StDisconnected None ((fr_writeStorage w False (s\<lparr>fr_address := None\<rparr>))\<lparr>fr_attached := 0\<rparr>)"

definition fr_signTransaction ::
  "freighter_env \<Rightarrow> string \<Rightarrow> sign_opts \<Rightarrow> freighter \<Rightarrow> (wallet_err + string) \<times> freighter" where
  "fr_signTransaction w x opts s = (case fw_api w of
     None \<Rightarrow> (Inl fr_missing, s)
   | Some api \<Rightarrow> (case fa_signTransaction api x (so_networkPassphrase opts) (account_for opts (fr_address s)) of
       Inl cause \<Rightarrow> (Inl (mapCommonWalletError ''Freighter'' cause), s) | Inr y \<Rightarrow> (Inr y, s)))"

definition fr_switchNetwork :: "freighter_env \<Rightarrow> string \<Rightarrow> wallet_err + unit" where
  "fr_switchNetwork w networkPassphrase = (case fw_api w of
     None \<Rightarrow> Inl fr_missing
   | Some api \<Rightarrow> (case fa_setNetwork api of
       None \<Rightarrow> Inr ()
     | Some f \<Rightarrow> (case f networkPassphrase of
         Inl cause \<Rightarrow> Inl (mapCommonWalletError ''Freighter'' cause) | Inr u \<Rightarrow> Inr ())))"

text \<open>The second component lists the waits between the attempts.\<close>

fun checkIsAllowedWithRetry ::
  "(nat \<Rightarrow> wallet_err + bool option) \<Rightarrow> nat \<Rightarrow> nat \<Rightarrow> nat \<Rightarrow> (wallet_err + bool option) \<times> nat list" where
  "checkIsAllowedWithRetry ask baseDelay attempt 0 = (Inl (OtherWalletErr ''null''), [])"
| "checkIsAllowedWithRetry ask baseDelay attempt (Suc n) = (case ask attempt of
     Inr allowed \<Rightarrow> (Inr allowed, [])
   | Inl e \<Rightarrow> if n = 0 then (Inl e, [])
       else (let (r, ws) = checkIsAllowedWithRetry ask baseDelay (attempt + 1) n
             in (r, baseDelay * (attempt + 1) # ws)))"

definition fr_restoreSession :: "freighter_env \<Rightarrow> freighter \<Rightarrow> connection option \<times> freighter" where
  "fr_restoreSession w s =
    (if \<not> (fw_storage w \<and> fr_stored s) then (None, s)
     else case fw_api w of
         None \<Rightarrow> (None, s)
       | Some api \<Rightarrow> (case fst (checkIsAllowedWithRetry (fa_isAllowed api) 100 0 3) of
           Inl e \<Rightarrow> (None, fr_writeStorage w False s)
         | Inr (Some False) \<Rightarrow> (None, fr_writeStorage w False s)
         | Inr _ \<Rightarrow> (case fr_connect w s of
             (Inl e, t) \<Rightarrow> (None, fr_writeStorage w False t)
           | (Inr r, t) \<Rightarrow> (Some r, t))))"

text \<open>The handlers the adapter registers; each runs as often as it is registered.\<close>

definition fr_accountChange_once :: "freighter_env \<Rightarrow> freighter_api \<Rightarrow> freighter \<Rightarrow> freighter" where
  "fr_accountChange_once w api s = (case fa_getAddress api of
     Inl e \<Rightarrow> fr_emitStatus StError None s
   | Inr address \<Rightarrow>
       if address = [] then fr_disconnect w s
       else fr_emitStatus StConnected (Some \<lparr>cn_address = address, cn_network = None\<rparr>) (s\<lparr>fr_address := Some address\<rparr>))"

definition fr_networkChange_once :: "freighter_api \<Rightarrow> freighter \<Rightarrow> freighter" where
  "fr_networkChange_once api s = (case fa_getNetworkDetails api of
     Inl cause \<Rightarrow> fr_emitStatus StError None s
   | Inr passphrase \<Rightarrow> s\<lparr>fr_told := fr_told s @ map (\<lambda>l. (l, NetworkMsg passphrase)) (fr_networkListeners s)\<rparr>)"

definition fr_accountChange :: "freighter_env \<Rightarrow> freighter_api \<Rightarrow> freighter \<Rightarrow> freighter" where
  "fr_accountChange w api s = (fr_accountChange_once w api ^^ fr_attached s) s"

definition fr_networkChange :: "freighter_api \<Rightarrow> freighter \<Rightarrow> freighter" where
  "fr_networkChange api s = (fr_networkChange_once api ^^ fr_attached s) s"

definition fr_onDisconnect :: "freighter_env \<Rightarrow> freighter \<Rightarrow> freighter" where
  "fr_onDisconnect w s = (fr_disconnect w ^^ fr_attached s) s"

section \<open>xBull\<close>

text \<open>A wallet that answers \<open>connect\<close> names one account at least: the first is the first component.\<close>

record xbull_api =
  xa_connect :: "wallet_err + string \<times> string list"
  xa_sign :: "string \<Rightarrow> string list option \<Rightarrow> string option \<Rightarrow> wallet_err + string"
  xa_getNetwork :: "wallet_err + string option \<times> string option"

record xbull =
  xb_publicKey :: "string option"
  xb_useV2 :: bool

definition xb_new :: "bool option \<Rightarrow> xbull" where
  "xb_new useXBullV2 = \<lparr>xb_publicKey = None, xb_useV2 = (case useXBullV2 of None \<Rightarrow> False | Some b \<Rightarrow> b)\<rparr>"

definition xb_isAvailable :: "bool \<Rightarrow> xbull_api option \<Rightarrow> xbull \<Rightarrow> bool" where
  "xb_isAvailable browser api s = (if xb_useV2 s then browser else api \<noteq> None)"

definition xb_missing :: wallet_err where
  "xb_missing = wallet_missing ''xBull extension not found''"

definition xb_v2_error :: "string \<Rightarrow> wallet_err" where
  "xb_v2_error operation = WalletAdapterError
     (''xBull v2 API requires verification - '' @ operation @ '' method not yet implemented'') CONNECTION_FAILED"

definition xb_network :: "wallet_err + string option \<times> string option \<Rightarrow> string option" where
  "xb_network r = (case r of Inl e \<Rightarrow> None
     | Inr (network, networkPassphrase) \<Rightarrow> (case networkPassphrase of Some p \<Rightarrow> Some p | None \<Rightarrow> network))"

definition xb_connect :: "xbull_api option \<Rightarrow> xbull \<Rightarrow> (wallet_err + connection) \<times> xbull" where
  "xb_connect w s =
    (if xb_useV2 s then (Inl (mapCommonWalletError ''xBull'' (xb_v2_error ''connect'')), s)
     else case w of
         None \<Rightarrow> (Inl xb_missing, s)
       | Some api \<Rightarrow> (case xa_connect api of
           Inl cause \<Rightarrow> (Inl (mapCommonWalletError ''xBull'' cause), s)
         | Inr (publicKey, others) \<Rightarrow>
             (Inr \<lparr>cn_address = publicKey, cn_network = xb_network (xa_getNetwork api)\<rparr>,
              s\<lparr>xb_publicKey := Some publicKey\<rparr>)))"

definition xb_disconnect :: "xbull_api option \<Rightarrow> xbull \<Rightarrow> xbull" where
  "xb_disconnect w s = s\<lparr>xb_publicKey := None\<rparr>"

definition xb_signTransaction ::
  "xbull_api option \<Rightarrow> string \<Rightarrow> sign_opts \<Rightarrow> xbull \<Rightarrow> (wallet_err + string) \<times> xbull" where
  "xb_signTransaction w x opts s =
    (if xb_useV2 s then (Inl (mapCommonWalletError ''xBull'' (xb_v2_error ''sign'')), s)
     else case w of
         None \<Rightarrow> (Inl xb_missing, s)
       | Some api \<Rightarrow>
           (case xa_sign api x (if truthy_str (xb_publicKey s) then Some [the (xb_publicKey s)] else None)
                   (so_networkPassphrase opts) of
              Inl cause \<Rightarrow> (Inl (mapCommonWalletError ''xBull'' cause), s) | Inr y \<Rightarrow> (Inr y, s)))"

end
