(* ===== verification/WalletConnect.thy ===== *)
theory WalletConnect
  imports Adapters
begin

text \<open>
  The WalletConnect adapter of the \<open>sdk\<close> package (\<open>packages/sdk/src/walletconnect-adapter.ts\<close>, with the contract
  in \<open>packages/sdk/src/wallet-adapter.ts\<close>). The relay and the wallet are outside: what they answer is carried by the
  events of a step function. The client registers a handler for session proposals for every call of \<open>connect\<close>
  and never removes one, so a proposal reaches them all.
\<close>

section \<open>Errors\<close>

text \<open>The codes of this package: \<open>SESSION_EXPIRED\<close> is one of its own.\<close>

datatype wc_code = WcNotInstalled | WcDependencyNotInstalled | WcConnectionFailed | WcUserRejected | WcDeviceDisconnected
  | WcTimeout | WcSessionExpired | WcInvalidXdr

datatype wc_error = WcAdapterError string wc_code | WcOther string

definition mapWalletConnectError :: "wc_error \<Rightarrow> wc_error" where
  "mapWalletConnectError cause = (case cause of
     WcAdapterError m c \<Rightarrow> cause
   | WcOther message \<Rightarrow> (let m = js_toLowerCase message
       in if list_ex (js_includes m) [''reject'', ''denied'', ''declin'']
          then WcAdapterError ''User rejected the WalletConnect request'' WcUserRejected
          else if js_includes m ''expire'' then WcAdapterError ''WalletConnect session expired'' WcSessionExpired
          else if js_includes m ''timeout'' then WcAdapterError ''WalletConnect request timed out'' WcTimeout
          else WcAdapterError (''WalletConnect request failed: '' @ message) WcConnectionFailed))"

definition wc_load :: "string \<Rightarrow> bool \<Rightarrow> wc_error + unit" where
  "wc_load moduleName there = (if there then Inr () else Inl (WcAdapterError
     (''WalletConnect requires the optional dependency '' @ [CHR 0x22] @ moduleName @ [CHR 0x22] @
      ''. Install it with: npm install '' @ moduleName) WcDependencyNotInstalled))"

section \<open>Accounts\<close>

text \<open>A session carries the accounts of its Stellar namespace, when it has one.\<close>

record wc_session =
  wn_topic :: string
  wn_accounts :: "string list option"

definition firstStellarCaip10 :: "wc_session \<Rightarrow> wc_error + string" where
  "firstStellarCaip10 session = (case wn_accounts session of
     Some (caip10 # accounts) \<Rightarrow>
       if caip10 = [] then Inl (WcAdapterError ''WalletConnect session has no Stellar accounts'' WcConnectionFailed)
       else Inr caip10
   | _ \<Rightarrow> Inl (WcAdapterError ''WalletConnect session has no Stellar accounts'' WcConnectionFailed))"

definition addressFromCaip10 :: "string \<Rightarrow> wc_error + string" where
  "addressFromCaip10 caip10 =
    (let parts = split_at (CHR '':'') caip10
     in if length parts \<le> 2 \<or> parts ! 2 = []
        then Inl (WcAdapterError (''Malformed CAIP-10 account: '' @ caip10) WcConnectionFailed) else Inr (parts ! 2))"

section \<open>The adapter\<close>

record wc_connection =
  wr_address :: string
  wr_network :: string

text \<open>
  \<open>wc_handlers\<close> are the calls of \<open>connect\<close> that registered a handler, \<open>wc_waiting\<close> those still waiting for a
  session; \<open>wc_modal\<close> is the QR modal, open or not; \<open>wc_uris\<close> what \<open>onPairingUri\<close> was told, and \<open>wc_approvals\<close>
  the approvals sent to the relay.
\<close>

record wc_adapter =
  wc_chainId :: string
  wc_showQrModal :: bool
  wc_client :: bool
  wc_session :: "wc_session option"
  wc_connectedAccount :: "string option"
  wc_modal :: "bool option"
  wc_handlers :: "nat list"
  wc_waiting :: "nat list"
  wc_uris :: "string list"
  wc_approvals :: "nat list"
  wc_answers :: "(nat \<times> (wc_error + wc_connection)) list"

definition STELLAR_MAINNET_CHAIN_ID :: string where
  "STELLAR_MAINNET_CHAIN_ID = ''stellar:pubnet''"

definition wc_new :: "string option \<Rightarrow> bool option \<Rightarrow> wc_adapter" where
  "wc_new chainId showQrModal = \<lparr>wc_chainId = (case chainId of None \<Rightarrow> STELLAR_MAINNET_CHAIN_ID | Some c \<Rightarrow> c),
     wc_showQrModal = (showQrModal \<noteq> Some False), wc_client = False, wc_session = None, wc_connectedAccount = None,
     wc_modal = None, wc_handlers = [], wc_waiting = [], wc_uris = [], wc_approvals = [], wc_answers = []\<rparr>"

text \<open>What the modules, the client and the modal do during one call of \<open>connect\<close>.\<close>

record wc_env =
  we_core :: bool
  we_web3wallet :: bool
  we_init :: "wc_error + unit"
  we_pairing :: "wc_error + string"
  we_modalModule :: bool
  we_openModal :: "wc_error + unit"

definition wc_getClient :: "wc_env \<Rightarrow> wc_adapter \<Rightarrow> (wc_error + unit) \<times> wc_adapter" where
  "wc_getClient w s =
    (if wc_client s then (Inr (), s)
     else case wc_load ''@walletconnect/core'' (we_core w) of
         Inl e \<Rightarrow> (Inl e, s)
       | Inr u \<Rightarrow> (case wc_load ''@walletconnect/web3wallet'' (we_web3wallet w) of
           Inl e \<Rightarrow> (Inl e, s)
         | Inr u \<Rightarrow> (case we_init w of Inl e \<Rightarrow> (Inl e, s) | Inr u \<Rightarrow> (Inr (), s\<lparr>wc_client := True\<rparr>))))"

definition showPairingUri :: "wc_env \<Rightarrow> string \<Rightarrow> wc_adapter \<Rightarrow> (wc_error + unit) \<times> wc_adapter" where
  "showPairingUri w uri s =
    (let told = (\<lambda>t. t\<lparr>wc_uris := wc_uris t @ [uri]\<rparr>)
     in if \<not> wc_showQrModal s then (Inr (), told s)
        else case wc_load ''@walletconnect/modal'' (we_modalModule w) of
            Inl e \<Rightarrow> (Inl e, told s)
          | Inr u \<Rightarrow> (case we_openModal w of
              Inl e \<Rightarrow> (Inl e, told (s\<lparr>wc_modal := Some False\<rparr>)) | Inr u \<Rightarrow> (Inr (), told (s\<lparr>wc_modal := Some True\<rparr>))))"

definition close_modal :: "wc_adapter \<Rightarrow> wc_adapter" where
  "close_modal s = s\<lparr>wc_modal := map_option (\<lambda>b. False) (wc_modal s)\<rparr>"

text \<open>The end of a call: its answer and the \<open>finally\<close> block.\<close>

definition wc_answer :: "nat \<Rightarrow> wc_error + wc_connection \<Rightarrow> wc_adapter \<Rightarrow> wc_adapter" where
  "wc_answer c r s = close_modal (s\<lparr>wc_answers := wc_answers s @ [(c, r)]\<rparr>)"

definition wc_connect :: "nat \<Rightarrow> wc_env \<Rightarrow> wc_adapter \<Rightarrow> wc_adapter" where
  "wc_connect c w s = (case wc_getClient w s of
     (Inl e, t) \<Rightarrow> t\<lparr>wc_answers := wc_answers t @ [(c, Inl e)]\<rparr>
   | (Inr u, t) \<Rightarrow> (case we_pairing w of
       Inl cause \<Rightarrow> wc_answer c (Inl (mapWalletConnectError cause)) t
     | Inr uri \<Rightarrow> (case showPairingUri w uri t of
         (Inl cause, t') \<Rightarrow> wc_answer c (Inl (mapWalletConnectError cause)) t'
       | (Inr u, t') \<Rightarrow> t'\<lparr>wc_handlers := wc_handlers t' @ [c], wc_waiting := wc_waiting t' @ [c]\<rparr>)))"

text \<open>
  What the relay answers to one approval. A declined one is rejected in turn, and where that fails too the call
  is never answered.
\<close>

datatype approval = Approved wc_session | Declined wc_error bool

definition session_joined :: "nat \<Rightarrow> wc_session \<Rightarrow> wc_adapter \<Rightarrow> wc_adapter" where
  "session_joined c session s =
    (let t = s\<lparr>wc_session := Some session, wc_waiting := filter (\<lambda>x. x \<noteq> c) (wc_waiting s)\<rparr>
     in case firstStellarCaip10 session of
          Inl e \<Rightarrow> wc_answer c (Inl (mapWalletConnectError e)) t
        | Inr account \<Rightarrow>
            (let t' = t\<lparr>wc_connectedAccount := Some account\<rparr>
             in case addressFromCaip10 account of
                  Inl e \<Rightarrow> wc_answer c (Inl (mapWalletConnectError e)) t'
                | Inr a \<Rightarrow> wc_answer c (Inr \<lparr>wr_address = a, wr_network = wc_chainId t'\<rparr>) t'))"

definition proposal_handled :: "(nat \<Rightarrow> approval) \<Rightarrow> nat \<Rightarrow> wc_adapter \<Rightarrow> wc_adapter" where
  "proposal_handled answers c s =
    (let t = s\<lparr>wc_approvals := wc_approvals s @ [c]\<rparr>
     in if \<not> List.member (wc_waiting t) c then t
        else case answers c of
            Approved session \<Rightarrow> session_joined c session t
          | Declined cause rejected \<Rightarrow>
              if rejected
              then wc_answer c (Inl (mapWalletConnectError cause)) (t\<lparr>wc_waiting := filter (\<lambda>x. x \<noteq> c) (wc_waiting t)\<rparr>)
              else t)"

definition session_proposal :: "(nat \<Rightarrow> approval) \<Rightarrow> wc_adapter \<Rightarrow> wc_adapter" where
  "session_proposal answers s = foldl (\<lambda>t c. proposal_handled answers c t) s (wc_handlers s)"

definition wc_disconnect :: "wc_adapter \<Rightarrow> wc_adapter" where
  "wc_disconnect s = s\<lparr>wc_session := None, wc_connectedAccount := None\<rparr>"

section \<open>Signing\<close>

definition requireSession :: "wc_adapter \<Rightarrow> wc_error + wc_session" where
  "requireSession s = (case wc_session s of
     Some session \<Rightarrow> if wc_client s then Inr session
       else Inl (WcAdapterError ''WalletConnect session not established; call connect() first'' WcConnectionFailed)
   | None \<Rightarrow> Inl (WcAdapterError ''WalletConnect session not established; call connect() first'' WcConnectionFailed))"

text \<open>A request names the topic, the chain and what is to be signed.\<close>

definition wc_signTransaction ::
  "(string \<Rightarrow> string \<Rightarrow> string \<Rightarrow> string option \<Rightarrow> wc_error + string) \<Rightarrow> string \<Rightarrow> string option \<Rightarrow> wc_adapter \<Rightarrow> wc_error + string" where
  "wc_signTransaction request x accountToSign s = (case requireSession s of
     Inl e \<Rightarrow> Inl e
   | Inr session \<Rightarrow> (case request (wn_topic session) (wc_chainId s) x accountToSign of
       Inl cause \<Rightarrow> Inl (mapWalletConnectError cause) | Inr y \<Rightarrow> Inr y))"

definition resolveCaip10Account :: "string option \<Rightarrow> wc_adapter \<Rightarrow> wc_error + string" where
  "resolveCaip10Account accountToSign s =
    (case (case accountToSign of Some a \<Rightarrow> if a = [] then None else Some a | None \<Rightarrow> None) of
       Some a \<Rightarrow> Inr (if js_includes a '':'' then a else wc_chainId s @ '':'' @ a)
     | None \<Rightarrow> (case wc_connectedAccount s of
         Some account \<Rightarrow> if account \<noteq> [] then Inr account
           else (case requireSession s of Inl e \<Rightarrow> Inl e | Inr session \<Rightarrow> firstStellarCaip10 session)
       | None \<Rightarrow> (case requireSession s of Inl e \<Rightarrow> Inl e | Inr session \<Rightarrow> firstStellarCaip10 session)))"

record submit_result =
  sb_hash :: string
  sb_signedXdr :: "string option"
  sb_successful :: "bool option"

datatype submit_response = BareHash string | Response "string option" "string option" "string option" "bool option"

definition normalizeSignAndSubmitResponse :: "submit_response \<Rightarrow> wc_error + submit_result" where
  "normalizeSignAndSubmitResponse response = (case response of
     BareHash h \<Rightarrow> Inr \<lparr>sb_hash = h, sb_signedXdr = None, sb_successful = None\<rparr>
   | Response tx_hash h signedXDR successful \<Rightarrow>
       (let missing = Inl (WcAdapterError ''WalletConnect wallet did not return a transaction hash'' WcConnectionFailed)
        in case (case tx_hash of Some x \<Rightarrow> Some x | None \<Rightarrow> h) of
             None \<Rightarrow> missing
           | Some x \<Rightarrow> if x = [] then missing
               else Inr \<lparr>sb_hash = x, sb_signedXdr = signedXDR, sb_successful = successful\<rparr>))"

definition wc_signAndSubmit ::
  "(string \<Rightarrow> string \<Rightarrow> string \<Rightarrow> string \<Rightarrow> bool option \<Rightarrow> wc_error + submit_response) \<Rightarrow> string \<Rightarrow> string option \<Rightarrow>
   bool option \<Rightarrow> wc_adapter \<Rightarrow> wc_error + submit_result" where
  "wc_signAndSubmit request x accountToSign waitForInclusion s = (case requireSession s of
     Inl e \<Rightarrow> Inl e
   | Inr session \<Rightarrow> (case resolveCaip10Account accountToSign s of
       Inl e \<Rightarrow> Inl e
     | Inr account \<Rightarrow>
         (case (case request (wn_topic session) (wc_chainId s) x account waitForInclusion of
             Inl cause \<Rightarrow> Inl cause | Inr response \<Rightarrow> normalizeSignAndSubmitResponse response) of
            Inl cause \<Rightarrow> Inl (mapWalletConnectError cause) | Inr r \<Rightarrow> Inr r)))"

section \<open>Runs\<close>

datatype wc_event = WcConnect nat wc_env | WcProposal "nat \<Rightarrow> approval" | WcDisconnect

definition wc_known :: "wc_adapter \<Rightarrow> nat \<Rightarrow> bool" where
  "wc_known s c = (List.member (wc_waiting s) c \<or> List.member (map fst (wc_answers s)) c)"

fun wc_step :: "wc_event \<Rightarrow> wc_adapter \<Rightarrow> wc_adapter option" where
  "wc_step (WcConnect c w) s = (if wc_known s c then None else Some (wc_connect c w s))"
| "wc_step (WcProposal answers) s = Some (session_proposal answers s)"
| "wc_step WcDisconnect s = Some (wc_disconnect s)"

fun wc_run :: "wc_event list \<Rightarrow> wc_adapter \<Rightarrow> wc_adapter option" where
  "wc_run [] s = Some s"
| "wc_run (e # es) s = (case wc_step e s of None \<Rightarrow> None | Some t \<Rightarrow> wc_run es t)"

end
