(* ===== verification/WalletConnectProps.thy ===== *)
theory WalletConnectProps
  imports WalletConnect
begin

text \<open>Calls, approvals and accounts of the WalletConnect adapter, in every run.\<close>

section \<open>Calls\<close>

definition wc_calls :: "wc_adapter \<Rightarrow> nat list" where
  "wc_calls s = wc_waiting s @ map fst (wc_answers s)"

definition wc_ok :: "wc_adapter \<Rightarrow> bool" where
  "wc_ok s \<longleftrightarrow> distinct (wc_calls s) \<and> distinct (wc_handlers s) \<and> set (wc_waiting s) \<subseteq> set (wc_handlers s) \<and>
    set (wc_handlers s) \<subseteq> set (wc_calls s) \<and> (wc_connectedAccount s \<noteq> None \<longrightarrow> wc_session s \<noteq> None) \<and>
    (wc_handlers s \<noteq> [] \<or> wc_session s \<noteq> None \<longrightarrow> wc_client s)"

lemma wc_ok_new: "wc_ok (wc_new chain modal)"
  by (simp add: wc_ok_def wc_new_def wc_calls_def)

text \<open>What the helpers leave alone.\<close>

definition same_calls :: "wc_adapter \<Rightarrow> wc_adapter \<Rightarrow> bool" where
  "same_calls s t \<longleftrightarrow> wc_waiting t = wc_waiting s \<and> wc_answers t = wc_answers s \<and> wc_handlers t = wc_handlers s \<and>
    wc_session t = wc_session s \<and> wc_connectedAccount t = wc_connectedAccount s \<and> wc_approvals t = wc_approvals s \<and>
    (wc_client s \<longrightarrow> wc_client t)"

lemma getClient_calls: "wc_getClient w s = (r, t) \<Longrightarrow> same_calls s t \<and> (r = Inr () \<longrightarrow> wc_client t)"
  by (auto simp: wc_getClient_def same_calls_def split: if_splits sum.splits)

lemma showPairing_calls: "showPairingUri w uri s = (r, t) \<Longrightarrow> same_calls s t"
  by (auto simp: showPairingUri_def same_calls_def Let_def split: if_splits sum.splits)

lemma answered_ok:
  assumes "wc_ok s" and "c \<notin> set (wc_calls s)" and "same_calls s t"
  shows "wc_ok (wc_answer c r t) \<and> wc_calls (wc_answer c r t) = wc_calls s @ [c] \<and>
    wc_ok (t\<lparr>wc_answers := wc_answers t @ [(c, r)]\<rparr>) \<and> wc_calls (t\<lparr>wc_answers := wc_answers t @ [(c, r)]\<rparr>) = wc_calls s @ [c]"
  using assms by (auto simp: wc_ok_def wc_calls_def wc_answer_def close_modal_def same_calls_def)

lemma connect_calls:
  assumes "wc_ok s" and "c \<notin> set (wc_calls s)"
  shows "wc_ok (wc_connect c w s) \<and> mset (wc_calls (wc_connect c w s)) = mset (wc_calls s) + {#c#}"
proof -
  obtain r t where client: "wc_getClient w s = (r, t)" by force
  note same = getClient_calls [OF client]
  show ?thesis
  proof (cases r)
    case (Inl e)
    then show ?thesis using client same answered_ok [OF assms, of t] by (simp add: wc_connect_def)
  next
    case (Inr u)
    show ?thesis
    proof (cases "we_pairing w")
      case (Inl e)
      then show ?thesis using client same Inr answered_ok [OF assms, of t] by (simp add: wc_connect_def)
    next
      fix uri
      assume uri: "we_pairing w = Inr uri"
      obtain q t' where shown: "showPairingUri w uri t = (q, t')" by force
      have same': "same_calls s t'" "wc_client t'"
        using showPairing_calls [OF shown] same Inr by (auto simp: same_calls_def)
      show ?thesis
      proof (cases q)
        case (Inl e)
        then show ?thesis using client uri shown Inr answered_ok [OF assms same'(1)] by (simp add: wc_connect_def)
      next
        fix v
        assume "q = Inr v"
        then show ?thesis using client uri shown Inr same' assms
          by (auto simp: wc_connect_def wc_ok_def wc_calls_def same_calls_def)
      qed
    qed
  qed
qed

lemma joined_fields:
  "wc_waiting (session_joined c x s) = filter (\<lambda>y. y \<noteq> c) (wc_waiting s)"
  "map fst (wc_answers (session_joined c x s)) = map fst (wc_answers s) @ [c]"
  "wc_handlers (session_joined c x s) = wc_handlers s" "wc_approvals (session_joined c x s) = wc_approvals s"
  "wc_session (session_joined c x s) = Some x" "wc_client (session_joined c x s) = wc_client s"
  by (simp_all add: session_joined_def wc_answer_def close_modal_def Let_def split: sum.splits)

lemma handled_ok:
  assumes "wc_ok s" and "c \<in> set (wc_handlers s)"
  shows "wc_ok (proposal_handled a c s) \<and> mset (wc_calls (proposal_handled a c s)) = mset (wc_calls s) \<and>
    wc_handlers (proposal_handled a c s) = wc_handlers s \<and> wc_approvals (proposal_handled a c s) = wc_approvals s @ [c]"
proof (cases "c \<in> set (wc_waiting s)")
  case False
  then show ?thesis using assms by (simp add: proposal_handled_def wc_ok_def wc_calls_def)
next
  case True
  have "distinct (wc_waiting s)" using assms(1) by (simp add: wc_ok_def wc_calls_def)
  then have m: "mset (wc_waiting s) = mset (filter (\<lambda>x. x \<noteq> c) (wc_waiting s)) + {#c#}" using True by (rule mset_removed)
  have client: "wc_client s" using assms by (auto simp: wc_ok_def)
  have moved: "distinct (filter (\<lambda>x. x \<noteq> c) (wc_waiting s) @ map fst (wc_answers s) @ [c])"
    using assms(1) True by (auto simp: wc_ok_def wc_calls_def)
  show ?thesis
  proof (cases "a c")
    case (Approved x)
    let ?t = "session_joined c x (s\<lparr>wc_approvals := wc_approvals s @ [c]\<rparr>)"
    have t: "proposal_handled a c s = ?t" using True Approved by (simp add: proposal_handled_def)
    have calls: "wc_calls ?t = filter (\<lambda>x. x \<noteq> c) (wc_waiting s) @ map fst (wc_answers s) @ [c]"
      by (simp add: wc_calls_def joined_fields)
    have "wc_ok ?t" unfolding wc_ok_def calls using assms moved client by (auto simp: wc_ok_def wc_calls_def joined_fields)
    moreover have "mset (wc_calls ?t) = mset (wc_calls s)" unfolding calls using m by (simp add: wc_calls_def del: mset_filter)
    ultimately show ?thesis by (simp add: t joined_fields)
  next
    case (Declined e b)
    show ?thesis
    proof (cases b)
      case True
      let ?t = "proposal_handled a c s"
      have calls: "wc_calls ?t = filter (\<lambda>x. x \<noteq> c) (wc_waiting s) @ map fst (wc_answers s) @ [c]"
          "wc_handlers ?t = wc_handlers s" "wc_waiting ?t = filter (\<lambda>x. x \<noteq> c) (wc_waiting s)" "wc_client ?t = wc_client s"
          "wc_session ?t = wc_session s" "wc_connectedAccount ?t = wc_connectedAccount s" "wc_approvals ?t = wc_approvals s @ [c]"
        using True Declined \<open>c \<in> set (wc_waiting s)\<close>
        by (simp_all add: proposal_handled_def wc_calls_def wc_answer_def close_modal_def)
      have "wc_ok ?t" unfolding wc_ok_def calls using assms moved client by (auto simp: wc_ok_def wc_calls_def)
      moreover have "mset (wc_calls ?t) = mset (wc_calls s)" unfolding calls using m by (simp add: wc_calls_def del: mset_filter)
      ultimately show ?thesis by (simp add: calls)
    next
      case False
      then show ?thesis using assms Declined \<open>c \<in> set (wc_waiting s)\<close> by (simp add: proposal_handled_def wc_ok_def wc_calls_def)
    qed
  qed
qed

lemma proposal_ok:
  assumes "wc_ok s"
  shows "wc_ok (session_proposal a s) \<and> mset (wc_calls (session_proposal a s)) = mset (wc_calls s) \<and>
    wc_handlers (session_proposal a s) = wc_handlers s \<and> wc_approvals (session_proposal a s) = wc_approvals s @ wc_handlers s"
proof -
  have "wc_ok s \<Longrightarrow> set cs \<subseteq> set (wc_handlers s) \<Longrightarrow>
      wc_ok (foldl (\<lambda>t c. proposal_handled a c t) s cs) \<and>
      mset (wc_calls (foldl (\<lambda>t c. proposal_handled a c t) s cs)) = mset (wc_calls s) \<and>
      wc_handlers (foldl (\<lambda>t c. proposal_handled a c t) s cs) = wc_handlers s \<and>
      wc_approvals (foldl (\<lambda>t c. proposal_handled a c t) s cs) = wc_approvals s @ cs" for cs s
  proof (induction cs arbitrary: s)
    case (Cons c cs)
    then show ?case using handled_ok [of s c a] Cons.IH [of "proposal_handled a c s"] by simp
  qed simp
  from this [OF assms order_refl] show ?thesis by (simp add: session_proposal_def)
qed

lemma disconnect_calls:
  assumes "wc_ok s"
  shows "wc_ok (wc_disconnect s) \<and> wc_calls (wc_disconnect s) = wc_calls s"
proof -
  have calls: "wc_calls (wc_disconnect s) = wc_calls s" by (simp add: wc_disconnect_def wc_calls_def)
  have "wc_ok (wc_disconnect s)" unfolding wc_ok_def calls
    using assms by (simp add: wc_ok_def wc_disconnect_def)
  with calls show ?thesis by simp
qed

fun wc_started :: "wc_event \<Rightarrow> nat list" where
  "wc_started (WcConnect c w) = [c]"
| "wc_started _ = []"

lemma wc_step_ok:
  "wc_ok s \<Longrightarrow> wc_step e s = Some t \<Longrightarrow> wc_ok t \<and> mset (wc_calls t) = mset (wc_calls s) + mset (wc_started e)"
proof (cases e)
  case (WcConnect c w)
  assume "wc_ok s" "wc_step e s = Some t"
  then show ?thesis using connect_calls [of s c w] WcConnect by (auto simp: wc_known_def wc_calls_def split: if_splits)
next
  case (WcProposal a)
  assume "wc_ok s" "wc_step e s = Some t"
  then show ?thesis using proposal_ok [of s a] WcProposal by auto
next
  case WcDisconnect
  assume "wc_ok s" "wc_step e s = Some t"
  then show ?thesis using WcDisconnect disconnect_calls [of s] by auto
qed

lemma wc_run_ok:
  "wc_ok s \<Longrightarrow> wc_run es s = Some t \<Longrightarrow> wc_ok t \<and> mset (wc_calls t) = mset (wc_calls s) + mset (concat (map wc_started es))"
proof (induction es arbitrary: s)
  case Nil
  then show ?case by simp
next
  case (Cons e es)
  then obtain u where u: "wc_step e s = Some u" "wc_run es u = Some t" by (auto split: option.splits)
  then show ?case using wc_step_ok [OF Cons.prems(1) u(1)] Cons.IH [of u] by (simp add: ac_simps)
qed

section \<open>Accounts\<close>

lemma split_at_nonempty: "split_at c s \<noteq> []"
  by (induction s) (auto split: list.splits)

lemma split_at_join: "split_at c (s @ c # t) = split_at c s @ split_at c t"
  by (induction s) (auto simp: split_at_nonempty split: list.splits)

lemma split_at_plain: "c \<notin> set s \<Longrightarrow> split_at c s = [s]"
  by (induction s) auto

lemma includes_char: "js_includes s [c] \<longleftrightarrow> c \<in> set s"
proof (induction s)
  case Nil
  then show ?case by (simp add: js_includes.simps)
next
  case (Cons x s)
  then show ?case by (subst js_includes.simps) auto
qed

section \<open>Properties\<close>


definition good_env :: wc_env where
  "good_env = \<lparr>we_core = True, we_web3wallet = True, we_init = Inr (), we_pairing = Inr ''wc:1'', we_modalModule = True,
     we_openModal = Inr ()\<rparr>"

lemmas wc_eval = wc_new_def wc_known_def wc_connect_def wc_getClient_def wc_load_def showPairingUri_def good_env_def
  session_proposal_def proposal_handled_def session_joined_def firstStellarCaip10_def wc_answer_def close_modal_def Let_def


text \<open>
  The account a request to sign and submit names for a plain address on a chain is a CAIP-10 account whose
  address, read back the way \<open>connect\<close> reads the accounts of a session, is that address.
\<close>

theorem caip10_roundtrip:
  assumes "split_at (CHR '':'') (wc_chainId s) = [n, reference]" and "CHR '':'' \<notin> set a" and "a \<noteq> []"
  shows "\<exists>account. resolveCaip10Account (Some a) s = Inr account \<and> addressFromCaip10 account = Inr a"
proof -
  have "resolveCaip10Account (Some a) s = Inr (wc_chainId s @ '':'' @ a)"
    using assms by (simp add: resolveCaip10Account_def includes_char)
  moreover have "split_at (CHR '':'') (wc_chainId s @ '':'' @ a) = [n, reference, a]"
    using assms split_at_join [of "CHR '':''" "wc_chainId s" a] by (simp add: split_at_plain)
  ultimately show ?thesis using assms(3) by (simp add: addressFromCaip10_def)
qed

theorem caip10_roundtrip_witness:
  "\<exists>account. resolveCaip10Account (Some ''GABC'') (wc_new None None) = Inr account \<and> addressFromCaip10 account = Inr ''GABC''"
  using caip10_roundtrip [of "wc_new None None" "''stellar''" "''pubnet''" "''GABC''"]
  by (simp add: wc_new_def STELLAR_MAINNET_CHAIN_ID_def)

text \<open>
  A session whose first account cannot be read makes \<open>connect\<close> reject but stays established: later requests
  are signed over it. And the network a successful \<open>connect\<close> reports is the configured one, whatever chain the
  account names.
\<close>

theorem rejected_connect_keeps_session:
  assumes "wn_accounts x = Some (account # rest)" and "account \<noteq> []"
    and "wc_run [WcConnect 0 good_env, WcProposal (\<lambda>c. Approved x)] (wc_new chain modal) = Some s"
  shows "(case addressFromCaip10 account of
      Inl e \<Rightarrow> (\<exists>e'. wc_answers s = [(0, Inl e')])
    | Inr a \<Rightarrow> wc_answers s = [(0, Inr \<lparr>wr_address = a, wr_network = wc_chainId (wc_new chain modal)\<rparr>)]) \<and>
    requireSession s = Inr x \<and> wc_connectedAccount s = Some account"
  using assms by (cases "addressFromCaip10 account") (auto simp: wc_eval requireSession_def split: if_splits)

theorem rejected_connect_keeps_session_witness:
  "\<exists>s e. wc_run [WcConnect 0 good_env, WcProposal (\<lambda>c. Approved \<lparr>wn_topic = ''t'', wn_accounts = Some [''GABC'']\<rparr>)]
      (wc_new None None) = Some s \<and> wc_answers s = [(0, Inl e)] \<and>
     wc_signTransaction (\<lambda>topic c x a. Inr (topic @ x)) ''x'' None s = Inr ''tx''"
proof -
  obtain s where run: "wc_run [WcConnect 0 good_env,
      WcProposal (\<lambda>c. Approved \<lparr>wn_topic = ''t'', wn_accounts = Some [''GABC'']\<rparr>)] (wc_new None None) = Some s"
    by (simp add: wc_eval)
  have "case addressFromCaip10 ''GABC'' of Inl e \<Rightarrow> True | Inr a \<Rightarrow> False" by (simp add: addressFromCaip10_def)
  then show ?thesis using rejected_connect_keeps_session [OF _ _ run, of "''GABC''" "[]"] run
    by (auto simp: wc_signTransaction_def split: sum.splits)
qed

end
