(* ===== verification/WalletProvider.thy ===== *)
theory WalletProvider
  imports Values
begin

text \<open>
  The wallet provider of the React package (\<open>packages/react/src/wallet/WalletProvider.tsx\<close>) and the session it
  keeps in the browser (\<open>packages/react/src/wallet/storage.ts\<close>). The calls of the application, the answers of
  the wallets and the timers are the events of a step function, in any order. The application calls the
  functions of the latest render, so they read the state as it is.
\<close>

section \<open>The stored session\<close>

record wallet_session_data =
  se_walletId :: string
  se_publicKey :: string
  se_connectedAt :: int

text \<open>
  A storage of this page: whether it is there, whether it refuses writes and removals, and its items.
  \<open>sc_toNumber\<close> is \<open>Number\<close> on values that are no numbers.
\<close>

record local_storage =
  ls_present :: bool
  ls_writes :: bool
  ls_items :: "(string, string) js_map"

record session_codec = json_codec +
  sc_toNumber :: "json \<Rightarrow> js_number"

definition WALLET_SESSION_VERSION :: js_number where
  "WALLET_SESSION_VERSION = js_int 1"

definition session_json :: "wallet_session_data \<Rightarrow> json" where
  "session_json s = JObj [(''walletId'', JStr (se_walletId s)), (''publicKey'', JStr (se_publicKey s)),
     (''connectedAt'', JNum (js_int (se_connectedAt s))), (''v'', JNum WALLET_SESSION_VERSION)]"

definition saveWalletSession :: "session_codec \<Rightarrow> wallet_session_data \<Rightarrow> string \<Rightarrow> local_storage \<Rightarrow> local_storage" where
  "saveWalletSession c session storageKey ls =
    (if ls_present ls \<and> ls_writes ls
     then ls\<lparr>ls_items := jset (ls_items ls) storageKey (jc_stringify c (Some (session_json session)))\<rparr> else ls)"

definition clearWalletSession :: "string \<Rightarrow> local_storage \<Rightarrow> local_storage" where
  "clearWalletSession storageKey ls =
    (if ls_present ls \<and> ls_writes ls then ls\<lparr>ls_items := jdel (ls_items ls) storageKey\<rparr> else ls)"

definition member_of :: "json \<Rightarrow> string \<Rightarrow> json option" where
  "member_of j k = (case j of JObj ps \<Rightarrow> map_of (rev ps) k | _ \<Rightarrow> None)"

definition number_of :: "session_codec \<Rightarrow> json option \<Rightarrow> js_number" where
  "number_of c x = (case x of None \<Rightarrow> NaN | Some (JNum n) \<Rightarrow> n | Some j \<Rightarrow> sc_toNumber c j)"

fun older_than :: "int \<Rightarrow> int \<Rightarrow> js_number \<Rightarrow> bool" where
  "older_than limit now (Fin q) = (of_int limit < of_int now - q)"
| "older_than limit now NegInf = True"
| "older_than limit now _ = False"

text \<open>What is read of a session: the wallet, the key, and \<open>connectedAt\<close> as it was parsed.\<close>

type_synonym loaded_session = "string \<times> string \<times> json option"

definition session_of_json ::
  "session_codec \<Rightarrow> int option \<Rightarrow> int \<Rightarrow> json \<Rightarrow> loaded_session option" where
  "session_of_json c sessionTimeoutMs now j =
    (if member_of j ''v'' \<noteq> Some (JNum WALLET_SESSION_VERSION) then None
     else case (member_of j ''walletId'', member_of j ''publicKey'') of
         (Some (JStr w), Some (JStr p)) \<Rightarrow>
           (let at_time = member_of j ''connectedAt''
            in if (case sessionTimeoutMs of None \<Rightarrow> False | Some limit \<Rightarrow> older_than limit now (number_of c at_time))
               then None else Some (w, p, at_time))
       | _ \<Rightarrow> None)"

definition loadWalletSession ::
  "session_codec \<Rightarrow> string \<Rightarrow> int option \<Rightarrow> int \<Rightarrow> local_storage \<Rightarrow> loaded_session option \<times> local_storage" where
  "loadWalletSession c storageKey sessionTimeoutMs now ls =
    (if \<not> ls_present ls then (None, ls)
     else case jget (ls_items ls) storageKey of
         None \<Rightarrow> (None, ls)
       | Some raw \<Rightarrow>
           if raw = [] then (None, ls)
           else case jc_parse c raw of
               Inl e \<Rightarrow> (None, ls)
             | Inr parsed \<Rightarrow> (case session_of_json c sessionTimeoutMs now parsed of
                 None \<Rightarrow> (None, clearWalletSession storageKey ls)
               | Some session \<Rightarrow> (Some session, ls)))"

section \<open>The provider\<close>

text \<open>
  \<open>pv_joining\<close> holds the calls of \<open>connect\<close> whose wallet has not answered yet, with the wallet and whether it
  said that it is available; \<open>pv_open\<close> the calls that are still racing against their timer. \<open>pv_timer\<close> is the
  call whose timer \<open>connectTimeoutRef\<close> holds. Session and storage are one option here: a storage that is there
  takes what it is given.
\<close>

record provider =
  pv_wallets :: "(string \<times> string) list"
  pv_storage :: bool
  pv_active :: "string option"
  pv_publicKey :: "string option"
  pv_connectedAt :: "int option"
  pv_isConnecting :: bool
  pv_error :: "string option"
  pv_timer :: "nat option"
  pv_stored :: "wallet_session_data option"
  pv_joining :: "(nat, string \<times> bool) js_map"
  pv_open :: "nat list"
  pv_switching :: "(nat, string) js_map"
  pv_leaving :: "nat list"
  pv_mounted :: bool
  pv_reconnect :: "(wallet_session_data \<times> bool) option"
  pv_answers :: "(nat \<times> (string + unit)) list"

definition provider_new :: "(string \<times> string) list \<Rightarrow> bool \<Rightarrow> wallet_session_data option \<Rightarrow> provider" where
  "provider_new wallets storage stored = \<lparr>pv_wallets = wallets, pv_storage = storage, pv_active = None,
     pv_publicKey = None, pv_connectedAt = None, pv_isConnecting = False, pv_error = None, pv_timer = None,
     pv_stored = stored, pv_joining = [], pv_open = [], pv_switching = [], pv_leaving = [], pv_mounted = False,
     pv_reconnect = None, pv_answers = []\<rparr>"

text \<open>\<open>new Map\<close> keeps the last wallet with an id.\<close>

definition wallet_name :: "provider \<Rightarrow> string \<Rightarrow> string option" where
  "wallet_name s walletId = map_of (rev (pv_wallets s)) walletId"

definition store_session :: "wallet_session_data option \<Rightarrow> provider \<Rightarrow> provider" where
  "store_session x s = (if pv_storage s then s\<lparr>pv_stored := x\<rparr> else s)"

definition answer :: "nat \<Rightarrow> string + unit \<Rightarrow> provider \<Rightarrow> provider" where
  "answer c r s = s\<lparr>pv_answers := pv_answers s @ [(c, r)]\<rparr>"

definition provider_connect :: "nat \<Rightarrow> string \<Rightarrow> provider \<Rightarrow> provider" where
  "provider_connect c walletId s = (case wallet_name s walletId of
     None \<Rightarrow> (let message = ''Unknown wallet: '' @ walletId in answer c (Inl message) (s\<lparr>pv_error := Some message\<rparr>))
   | Some wname \<Rightarrow> s\<lparr>pv_isConnecting := True, pv_error := None, pv_timer := Some c,
       pv_joining := jset (pv_joining s) c (walletId, False), pv_open := pv_open s @ [c]\<rparr>)"

text \<open>The rest of \<open>connect\<close> after its race: the \<open>finally\<close> block clears whatever timer is armed.\<close>

definition race_settled :: "nat \<Rightarrow> string + unit \<Rightarrow> provider \<Rightarrow> provider" where
  "race_settled c r s =
    (if List.member (pv_open s) c
     then answer c r (s\<lparr>pv_error := (case r of Inl m \<Rightarrow> Some m | Inr u \<Rightarrow> pv_error s), pv_timer := None,
            pv_isConnecting := False, pv_open := filter (\<lambda>x. x \<noteq> c) (pv_open s)\<rparr>)
     else s)"

definition join_failed :: "nat \<Rightarrow> string \<Rightarrow> provider \<Rightarrow> provider" where
  "join_failed c m s = race_settled c (Inl m) (s\<lparr>pv_joining := jdel (pv_joining s) c\<rparr>)"

definition join_available :: "nat \<Rightarrow> string \<Rightarrow> string + bool \<Rightarrow> provider \<Rightarrow> provider" where
  "join_available c walletId r s = (case r of
     Inl e \<Rightarrow> join_failed c e s
   | Inr available \<Rightarrow>
       if \<not> available
       then join_failed c (''Wallet '' @ [CHR 0x22] @ the (wallet_name s walletId) @ [CHR 0x22] @ '' is not available'') s
       else s\<lparr>pv_joining := jset (pv_joining s) c (walletId, True)\<rparr>)"

definition set_session :: "wallet_session_data \<Rightarrow> provider \<Rightarrow> provider" where
  "set_session x s = store_session (Some x)
     (s\<lparr>pv_active := Some (se_walletId x), pv_publicKey := Some (se_publicKey x), pv_connectedAt := Some (se_connectedAt x)\<rparr>)"

definition join_connected :: "nat \<Rightarrow> string \<Rightarrow> string + string \<Rightarrow> int \<Rightarrow> provider \<Rightarrow> provider" where
  "join_connected c walletId r now s = (case r of
     Inl e \<Rightarrow> join_failed c e s
   | Inr key \<Rightarrow> race_settled c (Inr ())
       (set_session \<lparr>se_walletId = walletId, se_publicKey = key, se_connectedAt = now\<rparr>
         (s\<lparr>pv_joining := jdel (pv_joining s) c\<rparr>)))"

definition connect_timeout :: "nat \<Rightarrow> provider \<Rightarrow> provider" where
  "connect_timeout c s = race_settled c (Inl ''Connection timeout'')
     (s\<lparr>pv_timer := None, pv_isConnecting := False, pv_error := Some ''Connection timeout''\<rparr>)"

definition clear_session :: "provider \<Rightarrow> provider" where
  "clear_session s = store_session None (s\<lparr>pv_active := None, pv_publicKey := None, pv_connectedAt := None\<rparr>)"

definition active_wallet :: "provider \<Rightarrow> string option" where
  "active_wallet s = (case pv_active s of None \<Rightarrow> None
     | Some w \<Rightarrow> if w = [] then None else case wallet_name s w of None \<Rightarrow> None | Some n \<Rightarrow> Some w)"

text \<open>\<open>disconnect\<close> waits for the active wallet, when there is one, and clears the session whatever it answers.\<close>

definition disconnect_left :: "nat \<Rightarrow> string + unit \<Rightarrow> provider \<Rightarrow> provider" where
  "disconnect_left d r s = answer d r (clear_session (s\<lparr>pv_leaving := filter (\<lambda>x. x \<noteq> d) (pv_leaving s)\<rparr>))"

definition provider_disconnect :: "nat \<Rightarrow> provider \<Rightarrow> provider" where
  "provider_disconnect d s = (case active_wallet s of
     None \<Rightarrow> disconnect_left d (Inr ()) s
   | Some w \<Rightarrow> s\<lparr>pv_leaving := pv_leaving s @ [d]\<rparr>)"

definition switchWallet :: "nat \<Rightarrow> string \<Rightarrow> provider \<Rightarrow> provider" where
  "switchWallet c walletId s = (case active_wallet s of
     None \<Rightarrow> provider_connect c walletId s
   | Some w \<Rightarrow> s\<lparr>pv_switching := jset (pv_switching s) c walletId\<rparr>)"

definition switch_left :: "nat \<Rightarrow> string \<Rightarrow> provider \<Rightarrow> provider" where
  "switch_left c walletId s = provider_connect c walletId (s\<lparr>pv_switching := jdel (pv_switching s) c\<rparr>)"

text \<open>Restoring a session on mount; \<open>fresh\<close> is whether \<open>loadWalletSession\<close> accepts what is stored.\<close>

definition reconnect_start :: "bool \<Rightarrow> provider \<Rightarrow> provider" where
  "reconnect_start fresh s = (let t = s\<lparr>pv_mounted := True\<rparr> in
    if \<not> pv_storage t then t
    else case pv_stored t of
        None \<Rightarrow> t
      | Some session \<Rightarrow>
          if \<not> fresh \<or> wallet_name t (se_walletId session) = None then store_session None t
          else t\<lparr>pv_reconnect := Some (session, False)\<rparr>)"

definition reconnect_failed :: "provider \<Rightarrow> provider" where
  "reconnect_failed s = store_session None (s\<lparr>pv_reconnect := None\<rparr>)"

definition reconnect_available :: "wallet_session_data \<Rightarrow> string + bool \<Rightarrow> provider \<Rightarrow> provider" where
  "reconnect_available session r s =
    (if r = Inr True then s\<lparr>pv_reconnect := Some (session, True)\<rparr> else reconnect_failed s)"

definition reconnect_connected :: "wallet_session_data \<Rightarrow> string + string \<Rightarrow> provider \<Rightarrow> provider" where
  "reconnect_connected session r s = (case r of
     Inl e \<Rightarrow> reconnect_failed s
   | Inr key \<Rightarrow> set_session (session\<lparr>se_publicKey := key\<rparr>) (s\<lparr>pv_reconnect := None\<rparr>))"

definition auto_disconnect_delay :: "int option \<Rightarrow> int \<Rightarrow> int option \<Rightarrow> int option" where
  "auto_disconnect_delay sessionTimeoutMs now connectedAt = (case (sessionTimeoutMs, connectedAt) of
     (Some limit, Some t) \<Rightarrow> if limit = 0 then None else Some (max (limit - (now - t)) 0)
   | _ \<Rightarrow> None)"

section \<open>Runs\<close>

datatype provider_event =
    PvConnect nat string
  | PvAvailable nat "string + bool"
  | PvConnected nat "string + string" int
  | PvTimer
  | PvDisconnect nat
  | PvLeft nat "string + unit"
  | PvSwitch nat string
  | PvSwitchLeft nat
  | PvMount bool
  | PvReconnectAvailable "string + bool"
  | PvReconnectConnected "string + string"

definition call_known :: "provider \<Rightarrow> nat \<Rightarrow> bool" where
  "call_known s c = (List.member (pv_open s) c \<or> jhas (pv_joining s) c \<or> jhas (pv_switching s) c \<or>
     List.member (pv_leaving s) c \<or> List.member (map fst (pv_answers s)) c)"

text \<open>\<open>None\<close> is an event that cannot occur.\<close>

fun provider_step :: "provider_event \<Rightarrow> provider \<Rightarrow> provider option" where
  "provider_step (PvConnect c w) s = (if call_known s c then None else Some (provider_connect c w s))"
| "provider_step (PvAvailable c r) s = (case jget (pv_joining s) c of
     Some (w, False) \<Rightarrow> Some (join_available c w r s) | _ \<Rightarrow> None)"
| "provider_step (PvConnected c r now) s = (case jget (pv_joining s) c of
     Some (w, True) \<Rightarrow> Some (join_connected c w r now s) | _ \<Rightarrow> None)"
| "provider_step PvTimer s = (case pv_timer s of None \<Rightarrow> None | Some c \<Rightarrow> Some (connect_timeout c s))"
| "provider_step (PvDisconnect d) s = (if call_known s d then None else Some (provider_disconnect d s))"
| "provider_step (PvLeft d r) s = (if List.member (pv_leaving s) d then Some (disconnect_left d r s) else None)"
| "provider_step (PvSwitch c w) s = (if call_known s c then None else Some (switchWallet c w s))"
| "provider_step (PvSwitchLeft c) s = (case jget (pv_switching s) c of None \<Rightarrow> None | Some w \<Rightarrow> Some (switch_left c w s))"
| "provider_step (PvMount fresh) s = (if pv_mounted s then None else Some (reconnect_start fresh s))"
| "provider_step (PvReconnectAvailable r) s = (case pv_reconnect s of
     Some (session, False) \<Rightarrow> Some (reconnect_available session r s) | _ \<Rightarrow> None)"
| "provider_step (PvReconnectConnected r) s = (case pv_reconnect s of
     Some (session, True) \<Rightarrow> Some (reconnect_connected session r s) | _ \<Rightarrow> None)"

fun provider_run :: "provider_event list \<Rightarrow> provider \<Rightarrow> provider option" where
  "provider_run [] s = Some s"
| "provider_run (e # es) s = (case provider_step e s of None \<Rightarrow> None | Some t \<Rightarrow> provider_run es t)"

section \<open>Fallback chains\<close>

text \<open>
  A call of \<open>connect\<close> that runs alone: a wallet answers, with what its probe and its \<open>connect\<close> say and the time,
  or the timer fires.
\<close>

datatype wallet_behaviour = Silent | Behaves "string + bool" "string + string" int

definition connect_alone :: "wallet_behaviour \<Rightarrow> string \<Rightarrow> nat \<Rightarrow> provider \<Rightarrow> provider" where
  "connect_alone b walletId c s =
    (let t = provider_connect c walletId s
     in if wallet_name s walletId = None then t
        else case b of
            Silent \<Rightarrow> connect_timeout c t
          | Behaves r q now \<Rightarrow>
              (let u = join_available c walletId r t in if r = Inr True then join_connected c walletId q now u else u))"

definition call_answer :: "provider \<Rightarrow> string + unit" where
  "call_answer s = snd (last (pv_answers s))"

text \<open>The calls of a chain are numbered from \<open>c\<close> on.\<close>

fun fallback_from :: "(string \<Rightarrow> wallet_behaviour) \<Rightarrow> nat \<Rightarrow> string \<Rightarrow> string list \<Rightarrow> provider \<Rightarrow> (string + unit) \<times> provider" where
  "fallback_from b c lastError [] s = (Inl lastError, s\<lparr>pv_error := Some lastError\<rparr>)"
| "fallback_from b c lastError (w # ws) s =
    (let t = connect_alone (b w) w c s
     in case call_answer t of Inr u \<Rightarrow> (Inr (), t) | Inl e \<Rightarrow> fallback_from b (c + 1) e ws t)"

definition connectWithFallback :: "(string \<Rightarrow> wallet_behaviour) \<Rightarrow> nat \<Rightarrow> string list \<Rightarrow> provider \<Rightarrow> (string + unit) \<times> provider" where
  "connectWithFallback b c walletIds s = fallback_from b c ''No wallets provided in fallback chain'' walletIds s"

end
