(* ===== verification/WalletProviderProps.thy ===== *)
theory WalletProviderProps
  imports WalletProvider
begin

text \<open>
  What holds in every run of the wallet provider, what is stored in runs whose restored session is not
  overtaken by a call, what a late wallet does, and the outcome of a fallback chain.
\<close>

section \<open>Well-formed providers\<close>

definition provider_calls :: "provider \<Rightarrow> nat list" where
  "provider_calls s = pv_open s @ jkeys (pv_switching s) @ pv_leaving s @ map fst (pv_answers s)"

definition joins_ok :: "provider \<Rightarrow> bool" where
  "joins_ok s \<longleftrightarrow> jwf (pv_joining s) \<and> set (pv_open s) \<subseteq> set (jkeys (pv_joining s)) \<and>
    set (jkeys (pv_joining s)) \<subseteq> set (pv_open s) \<union> fst ` set (pv_answers s) \<and>
    list_all (\<lambda>(c, w, b). wallet_name s w \<noteq> None) (pv_joining s)"

fun session_made :: "string option \<Rightarrow> string option \<Rightarrow> int option \<Rightarrow> wallet_session_data option" where
  "session_made (Some w) (Some p) (Some t) = Some \<lparr>se_walletId = w, se_publicKey = p, se_connectedAt = t\<rparr>"
| "session_made _ _ _ = None"

definition session_fields :: "provider \<Rightarrow> wallet_session_data option" where
  "session_fields s = session_made (pv_active s) (pv_publicKey s) (pv_connectedAt s)"

definition fields_ok :: "provider \<Rightarrow> bool" where
  "fields_ok s \<longleftrightarrow> (pv_active s = None \<longleftrightarrow> pv_publicKey s = None) \<and> (pv_active s = None \<longleftrightarrow> pv_connectedAt s = None)"

definition provider_ok :: "provider \<Rightarrow> bool" where
  "provider_ok s \<longleftrightarrow> fields_ok s \<and> distinct (provider_calls s) \<and> joins_ok s \<and>
    (\<forall>c. pv_timer s = Some c \<longrightarrow> c \<in> set (pv_open s))"

named_theorems pv_ops "operations of the provider"

lemmas pv_basic [pv_ops] = answer_def store_session_def race_settled_def join_failed_def set_session_def clear_session_def
  wallet_name_def

lemma provider_new_ok: "provider_ok (provider_new ws b x)"
  by (simp add: provider_ok_def provider_new_def fields_ok_def joins_ok_def provider_calls_def)

lemma call_known_calls: "call_known s c \<longleftrightarrow> c \<in> set (provider_calls s) \<or> c \<in> set (jkeys (pv_joining s))"
  by (auto simp: call_known_def provider_calls_def jsmap)

lemma connect_ok:
  assumes "provider_ok s" and "c \<notin> set (provider_calls s)"
  shows "provider_ok (provider_connect c w s) \<and>
    mset (provider_calls (provider_connect c w s)) = mset (provider_calls s) + {#c#}"
proof (cases "wallet_name s w")
  case None
  then show ?thesis using assms
    by (auto simp: provider_connect_def provider_ok_def fields_ok_def joins_ok_def provider_calls_def pv_ops Let_def
        split: option.splits)
next
  case (Some n)
  have "c \<notin> set (jkeys (pv_joining s))" using assms by (auto simp: provider_ok_def joins_ok_def provider_calls_def)
  then show ?thesis using assms Some
    by (auto simp: provider_connect_def provider_ok_def fields_ok_def joins_ok_def provider_calls_def pv_ops
        jkeys_set_new jwf_keys intro!: list_all_jset)
qed

text \<open>A state in which the race of call \<open>c\<close> may be settled: its entry among the joining calls may be gone.\<close>

definition ready :: "nat \<Rightarrow> provider \<Rightarrow> bool" where
  "ready c s \<longleftrightarrow> fields_ok s \<and> distinct (provider_calls s) \<and> jwf (pv_joining s) \<and>
    set (pv_open s) - {c} \<subseteq> set (jkeys (pv_joining s)) \<and>
    set (jkeys (pv_joining s)) \<subseteq> set (pv_open s) \<union> fst ` set (pv_answers s) \<and>
    list_all (\<lambda>(c, w, b). wallet_name s w \<noteq> None) (pv_joining s) \<and>
    (\<forall>d. pv_timer s = Some d \<longrightarrow> d \<in> set (pv_open s)) \<and>
    (c \<notin> set (pv_open s) \<longrightarrow> set (pv_open s) \<subseteq> set (jkeys (pv_joining s)))"

lemma settled_ok:
  assumes "ready c s"
  shows "provider_ok (race_settled c r s) \<and> mset (provider_calls (race_settled c r s)) = mset (provider_calls s)"
proof (cases "c \<in> set (pv_open s)")
  case True
  have "distinct (pv_open s)" using assms by (simp add: ready_def provider_calls_def)
  then have "mset (pv_open s) = mset (filter (\<lambda>x. x \<noteq> c) (pv_open s)) + {#c#}" using True by (rule mset_removed)
  then have "mset (provider_calls (race_settled c r s)) = mset (provider_calls s)"
    using True by (simp add: race_settled_def answer_def provider_calls_def)
  moreover from this have "distinct (provider_calls (race_settled c r s))"
    using assms mset_eq_imp_distinct_iff by (auto simp: ready_def)
  ultimately show ?thesis using True assms
    by (auto simp: ready_def provider_ok_def joins_ok_def race_settled_def answer_def fields_ok_def wallet_name_def)
next
  case False
  then show ?thesis using assms by (auto simp: ready_def provider_ok_def joins_ok_def race_settled_def)
qed

lemma ready_removed: "provider_ok s \<Longrightarrow> ready c (s\<lparr>pv_joining := jdel (pv_joining s) c\<rparr>)"
  by (auto simp: ready_def provider_ok_def joins_ok_def fields_ok_def provider_calls_def jkeys_del jwf_keys wallet_name_def
      list_all_jdel)

lemma set_session_fields:
  "fields_ok (set_session x s)" "provider_calls (set_session x s) = provider_calls s" "pv_joining (set_session x s) = pv_joining s"
  "pv_open (set_session x s) = pv_open s" "pv_answers (set_session x s) = pv_answers s" "pv_timer (set_session x s) = pv_timer s"
  "wallet_name (set_session x s) w = wallet_name s w"
  by (simp_all add: set_session_def store_session_def fields_ok_def provider_calls_def wallet_name_def)

lemma ready_session: "ready c s \<Longrightarrow> ready c (set_session x s)"
  by (simp add: ready_def set_session_fields)

lemma calls_joining [simp]: "provider_calls (s\<lparr>pv_joining := x\<rparr>) = provider_calls s"
  by (simp add: provider_calls_def)

lemma failed_ok:
  assumes "provider_ok s"
  shows "provider_ok (join_failed c m s) \<and> mset (provider_calls (join_failed c m s)) = mset (provider_calls s)"
  using settled_ok [OF ready_removed [OF assms]] by (simp add: join_failed_def)

lemma timeout_ok:
  assumes "provider_ok s" and "pv_timer s = Some c"
  shows "provider_ok (connect_timeout c s) \<and> mset (provider_calls (connect_timeout c s)) = mset (provider_calls s)"
proof -
  let ?t = "s\<lparr>pv_timer := None, pv_isConnecting := False, pv_error := Some ''Connection timeout''\<rparr>"
  have "ready c ?t"
    using assms by (auto simp: ready_def provider_ok_def joins_ok_def fields_ok_def provider_calls_def wallet_name_def)
  moreover have "provider_calls ?t = provider_calls s" by (simp add: provider_calls_def)
  ultimately show ?thesis using settled_ok [of c ?t] by (simp add: connect_timeout_def)
qed

lemma available_ok:
  assumes "provider_ok s" and "jget (pv_joining s) c = Some (w, b)"
  shows "provider_ok (join_available c w r s) \<and> mset (provider_calls (join_available c w r s)) = mset (provider_calls s)"
proof (cases "r = Inr True")
  case True
  have "c \<in> set (jkeys (pv_joining s))" using assms(2) by (simp add: jkeys_jget)
  moreover have "wallet_name s w \<noteq> None"
    using jget_list_all [OF _ assms(2)] assms(1) by (fastforce simp: provider_ok_def joins_ok_def)
  ultimately show ?thesis using assms(1) True
    by (auto simp: join_available_def provider_ok_def joins_ok_def fields_ok_def provider_calls_def jkeys_set jwf_keys
        wallet_name_def intro!: list_all_jset split: option.splits)
next
  case False
  then show ?thesis using failed_ok [OF assms(1)] by (auto simp: join_available_def split: sum.splits)
qed

lemma connected_ok:
  assumes "provider_ok s"
  shows "provider_ok (join_connected c w r now s) \<and> mset (provider_calls (join_connected c w r now s)) = mset (provider_calls s)"
proof (cases r)
  case (Inl e)
  then show ?thesis using failed_ok [OF assms] by (simp add: join_connected_def)
next
  case (Inr key)
  show ?thesis using settled_ok [OF ready_session [OF ready_removed [OF assms]]] Inr
    by (simp add: join_connected_def set_session_fields)
qed

lemma cleared_ok: "provider_ok s \<Longrightarrow> provider_ok (clear_session s)"
    "provider_calls (clear_session s) = provider_calls s"
  by (simp_all add: clear_session_def store_session_def provider_ok_def fields_ok_def joins_ok_def provider_calls_def
      wallet_name_def)

lemma left_ok:
  assumes "provider_ok s" and "d \<in> set (pv_leaving s)"
  shows "provider_ok (disconnect_left d r s) \<and> mset (provider_calls (disconnect_left d r s)) = mset (provider_calls s)"
proof -
  let ?t = "s\<lparr>pv_leaving := filter (\<lambda>x. x \<noteq> d) (pv_leaving s)\<rparr>"
  have "distinct (pv_leaving s)" using assms(1) by (simp add: provider_ok_def provider_calls_def)
  then have "mset (pv_leaving s) = mset (filter (\<lambda>x. x \<noteq> d) (pv_leaving s)) + {#d#}" using assms(2) by (rule mset_removed)
  then have m: "mset (provider_calls (disconnect_left d r s)) = mset (provider_calls s)"
    by (simp add: disconnect_left_def answer_def clear_session_def store_session_def provider_calls_def)
  then have "distinct (provider_calls (disconnect_left d r s))"
    using assms(1) mset_eq_imp_distinct_iff by (auto simp: provider_ok_def)
  with m show ?thesis using assms(1)
    by (auto simp: provider_ok_def joins_ok_def fields_ok_def disconnect_left_def answer_def clear_session_def
        store_session_def wallet_name_def)
qed

lemma left_at_once:
  assumes "provider_ok s" and "d \<notin> set (provider_calls s)"
  shows "provider_ok (disconnect_left d r s) \<and> mset (provider_calls (disconnect_left d r s)) = mset (provider_calls s) + {#d#}"
proof -
  have "filter (\<lambda>x. x \<noteq> d) (pv_leaving s) = pv_leaving s" using assms(2) by (simp add: provider_calls_def filter_neq_id)
  then show ?thesis using assms
    by (auto simp: provider_ok_def joins_ok_def fields_ok_def provider_calls_def disconnect_left_def answer_def
        clear_session_def store_session_def wallet_name_def split: option.splits)
qed

lemma waiting_ok:
  assumes "provider_ok s" and "c \<notin> set (provider_calls s)"
  shows "provider_ok (s\<lparr>pv_leaving := pv_leaving s @ [c]\<rparr>) \<and>
      mset (provider_calls (s\<lparr>pv_leaving := pv_leaving s @ [c]\<rparr>)) = mset (provider_calls s) + {#c#}"
    and "provider_ok (s\<lparr>pv_switching := jset (pv_switching s) c w\<rparr>) \<and>
      mset (provider_calls (s\<lparr>pv_switching := jset (pv_switching s) c w\<rparr>)) = mset (provider_calls s) + {#c#}"
  using assms
  by (auto simp: provider_ok_def joins_ok_def fields_ok_def provider_calls_def wallet_name_def jkeys_set_new split: option.splits)

lemma switched_ok:
  assumes "provider_ok s" and "jget (pv_switching s) c = Some w"
  shows "provider_ok (switch_left c w s) \<and> mset (provider_calls (switch_left c w s)) = mset (provider_calls s)"
proof -
  let ?t = "s\<lparr>pv_switching := jdel (pv_switching s) c\<rparr>"
  have c: "c \<in> set (jkeys (pv_switching s))" using assms(2) by (simp add: jkeys_jget)
  have "distinct (jkeys (pv_switching s))" using assms(1) by (simp add: provider_ok_def provider_calls_def)
  then have "mset (jkeys (pv_switching s)) = mset (jkeys (jdel (pv_switching s) c)) + {#c#}"
    unfolding jkeys_del using c by (rule mset_removed)
  then have m: "mset (provider_calls s) = mset (provider_calls ?t) + {#c#}" by (simp add: provider_calls_def)
  then have "distinct (provider_calls ?t) \<and> c \<notin> set (provider_calls ?t)"
    using assms(1) mset_eq_imp_distinct_iff [of "provider_calls s" "c # provider_calls ?t"] by (simp add: provider_ok_def)
  moreover from this have "provider_ok ?t"
    using assms(1) by (auto simp: provider_ok_def joins_ok_def fields_ok_def wallet_name_def)
  ultimately show ?thesis using connect_ok [of ?t c w] m by (simp add: switch_left_def)
qed


lemma store_ok: "provider_ok (store_session x s) = provider_ok s" "provider_calls (store_session x s) = provider_calls s"
  by (simp_all add: store_session_def provider_ok_def fields_ok_def joins_ok_def provider_calls_def wallet_name_def)

lemma reconnect_field: "provider_ok (s\<lparr>pv_reconnect := x\<rparr>) = provider_ok s" "provider_calls (s\<lparr>pv_reconnect := x\<rparr>) = provider_calls s"
    "provider_ok (s\<lparr>pv_mounted := b\<rparr>) = provider_ok s" "provider_calls (s\<lparr>pv_mounted := b\<rparr>) = provider_calls s"
  by (simp_all add: provider_ok_def fields_ok_def joins_ok_def provider_calls_def wallet_name_def)

lemma set_session_ok: "provider_ok s \<Longrightarrow> provider_ok (set_session x s)"
  by (simp add: provider_ok_def joins_ok_def set_session_fields)

lemma reconnect_ok:
  assumes "provider_ok s"
  shows "provider_ok (reconnect_start fresh s) \<and> provider_calls (reconnect_start fresh s) = provider_calls s"
    and "provider_ok (reconnect_available x r s) \<and> provider_calls (reconnect_available x r s) = provider_calls s"
    and "provider_ok (reconnect_connected x q s) \<and> provider_calls (reconnect_connected x q s) = provider_calls s"
  using assms
  by (auto simp: reconnect_start_def reconnect_available_def reconnect_connected_def reconnect_failed_def Let_def store_ok
      reconnect_field set_session_ok set_session_fields split: option.splits sum.splits)

fun started_call :: "provider_event \<Rightarrow> nat list" where
  "started_call (PvConnect c w) = [c]"
| "started_call (PvDisconnect c) = [c]"
| "started_call (PvSwitch c w) = [c]"
| "started_call _ = []"

lemma step_ok:
  assumes "provider_ok s" and "provider_step e s = Some t"
  shows "provider_ok t \<and> mset (provider_calls t) = mset (provider_calls s) + mset (started_call e)"
proof (cases e)
  case (PvConnect c w)
  then show ?thesis using assms connect_ok [OF assms(1), of c w] by (auto simp: call_known_calls split: if_splits)
next
  case (PvAvailable c r)
  then show ?thesis using assms available_ok [OF assms(1)] by (auto split: option.splits bool.splits)
next
  case (PvConnected c r now)
  then show ?thesis using assms connected_ok [OF assms(1)] by (auto split: option.splits bool.splits)
next
  case PvTimer
  then show ?thesis using assms timeout_ok [OF assms(1)] by (auto split: option.splits)
next
  case (PvDisconnect d)
  then show ?thesis using assms left_at_once [OF assms(1), of d "Inr ()"] waiting_ok(1) [OF assms(1), of d]
    by (auto simp: call_known_calls provider_disconnect_def split: if_splits option.splits)
next
  case (PvLeft d r)
  then show ?thesis using assms left_ok [OF assms(1), of d r] by (auto split: if_splits)
next
  case (PvSwitch c w)
  then show ?thesis using assms connect_ok [OF assms(1), of c w] waiting_ok(2) [OF assms(1), of c w]
    by (auto simp: call_known_calls switchWallet_def split: if_splits option.splits)
next
  case (PvSwitchLeft c)
  then show ?thesis using assms switched_ok [OF assms(1)] by (auto split: option.splits)
next
  case (PvMount fresh)
  then show ?thesis using assms reconnect_ok(1) [OF assms(1)] by (auto split: if_splits)
next
  case (PvReconnectAvailable r)
  then show ?thesis using assms reconnect_ok(2) [OF assms(1)] by (auto split: option.splits bool.splits)
next
  case (PvReconnectConnected r)
  then show ?thesis using assms reconnect_ok(3) [OF assms(1)] by (auto split: option.splits bool.splits)
qed

lemma run_ok:
  "provider_ok s \<Longrightarrow> provider_run es s = Some t \<Longrightarrow>
   provider_ok t \<and> mset (provider_calls t) = mset (provider_calls s) + mset (concat (map started_call es))"
proof (induction es arbitrary: s)
  case Nil
  then show ?case by simp
next
  case (Cons e es)
  then obtain u where u: "provider_step e s = Some u" "provider_run es u = Some t" by (auto split: option.splits)
  then show ?case using step_ok [OF Cons.prems(1) u(1)] Cons.IH [of u] by (simp add: ac_simps)
qed

section \<open>What is stored\<close>

text \<open>
  A run in which nothing else connects before the session of the page before is restored or given up: then the
  storage holds what the provider shows.
\<close>

definition overtaken :: "provider_event \<Rightarrow> provider \<Rightarrow> bool" where
  "overtaken e s = (case e of
     PvMount fresh \<Rightarrow> pv_active s \<noteq> None
   | PvConnected c r now \<Rightarrow> \<not> (pv_mounted s \<and> pv_reconnect s = None)
   | PvDisconnect d \<Rightarrow> \<not> (pv_mounted s \<and> pv_reconnect s = None)
   | PvLeft d r \<Rightarrow> \<not> (pv_mounted s \<and> pv_reconnect s = None)
   | _ \<Rightarrow> False)"

fun provider_run_apart :: "provider_event list \<Rightarrow> provider \<Rightarrow> provider option" where
  "provider_run_apart [] s = Some s"
| "provider_run_apart (e # es) s =
    (if overtaken e s then None else case provider_step e s of None \<Rightarrow> None | Some t \<Rightarrow> provider_run_apart es t)"

definition mirrors :: "provider \<Rightarrow> bool" where
  "mirrors s \<longleftrightarrow> pv_storage s \<and> fields_ok s \<and>
    (\<not> pv_mounted s \<or> pv_reconnect s \<noteq> None \<longrightarrow> pv_active s = None) \<and>
    (pv_mounted s \<and> pv_reconnect s = None \<longrightarrow> pv_stored s = session_fields s)"

lemma mirrors_settled: "mirrors (race_settled c r s) = mirrors s"
  by (simp add: mirrors_def race_settled_def answer_def fields_ok_def session_fields_def)

lemma mirrors_joining: "mirrors (s\<lparr>pv_joining := x\<rparr>) = mirrors s"
  by (simp add: mirrors_def fields_ok_def session_fields_def)

lemma mirrors_connect: "mirrors s \<Longrightarrow> mirrors (provider_connect c w s)"
  by (auto simp: mirrors_def provider_connect_def answer_def fields_ok_def session_fields_def Let_def split: option.splits)

lemma mirrors_set: "pv_storage s \<Longrightarrow> pv_reconnect s = None \<Longrightarrow> pv_mounted s \<Longrightarrow> mirrors (set_session x s)"
  by (simp add: mirrors_def set_session_def store_session_def fields_ok_def session_fields_def)

lemma mirrors_left: "pv_storage s \<Longrightarrow> pv_reconnect s = None \<Longrightarrow> pv_mounted s \<Longrightarrow> mirrors (disconnect_left d r s)"
  by (simp add: mirrors_def disconnect_left_def clear_session_def answer_def store_session_def fields_ok_def session_fields_def)


lemma mirrors_switching: "mirrors (s\<lparr>pv_switching := x\<rparr>) = mirrors s" "mirrors (s\<lparr>pv_leaving := y\<rparr>) = mirrors s"
  by (simp_all add: mirrors_def fields_ok_def session_fields_def)

lemma mirrors_failed: "mirrors (join_failed c m s) = mirrors s"
  by (simp add: join_failed_def mirrors_settled mirrors_joining)

lemma mirrors_timeout: "mirrors (connect_timeout c s) = mirrors s"
  by (simp add: connect_timeout_def mirrors_settled) (simp add: mirrors_def fields_ok_def session_fields_def)

lemma mirrors_mount: "mirrors s \<Longrightarrow> pv_active s = None \<Longrightarrow> mirrors (reconnect_start fresh s)"
  by (auto simp: mirrors_def reconnect_start_def store_session_def fields_ok_def session_fields_def Let_def split: option.splits)

lemma mirrors_reconnect:
  assumes "mirrors s" and "pv_reconnect s = Some x" and "pv_mounted s"
  shows "mirrors (reconnect_available y r s)" and "mirrors (reconnect_connected y q s)"
  using assms
  by (auto simp: mirrors_def reconnect_available_def reconnect_connected_def reconnect_failed_def store_session_def
      set_session_def fields_ok_def session_fields_def split: sum.splits)

lemma mirrors_step:
  assumes "mirrors s" and "pv_reconnect s \<noteq> None \<longrightarrow> pv_mounted s" and "provider_step e s = Some t" and "\<not> overtaken e s"
  shows "mirrors t \<and> (pv_reconnect t \<noteq> None \<longrightarrow> pv_mounted t)"
proof -
  have mounted: "pv_reconnect t \<noteq> None \<longrightarrow> pv_mounted t"
    using assms(2,3)
    by (cases e) (auto simp: provider_connect_def join_available_def join_connected_def join_failed_def race_settled_def
        connect_timeout_def provider_disconnect_def disconnect_left_def switchWallet_def switch_left_def
        clear_session_def set_session_def store_session_def answer_def reconnect_start_def reconnect_available_def
        reconnect_connected_def reconnect_failed_def Let_def split: option.splits if_splits sum.splits bool.splits)
  have storage: "pv_storage s" using assms(1) by (simp add: mirrors_def)
  have "mirrors t"
    using assms storage
    by (cases "pv_reconnect s"; cases e) (auto simp: mirrors_connect join_available_def join_connected_def mirrors_failed mirrors_settled mirrors_joining
        mirrors_timeout provider_disconnect_def switchWallet_def switch_left_def mirrors_switching mirrors_mount
        overtaken_def intro!: mirrors_set mirrors_left mirrors_reconnect split: option.splits if_splits sum.splits bool.splits)
  with mounted show ?thesis by simp
qed

lemma mirrors_run:
  "mirrors s \<Longrightarrow> (pv_reconnect s \<noteq> None \<longrightarrow> pv_mounted s) \<Longrightarrow> provider_run_apart es s = Some t \<Longrightarrow> mirrors t"
proof (induction es arbitrary: s)
  case Nil
  then show ?case by simp
next
  case (Cons e es)
  then obtain u where u: "\<not> overtaken e s" "provider_step e s = Some u" "provider_run_apart es u = Some t"
    by (auto split: option.splits if_splits)
  have "mirrors u \<and> (pv_reconnect u \<noteq> None \<longrightarrow> pv_mounted u)"
    by (rule mirrors_step [OF Cons.prems(1,2) u(2,1)])
  then show ?case using Cons.IH u(3) by blast
qed


section \<open>Properties\<close>

text \<open>
  C30: in every run of a provider the wallet, the key and the time of its session are there together or not at
  all, every call of \<open>connect\<close>, \<open>disconnect\<close> and \<open>switchWallet\<close> is either open or was answered once, and the armed
  timer is that of an open call.
\<close>

theorem provider_well_formed:
  assumes "provider_run es (provider_new ws storage stored) = Some s"
  shows "provider_ok s \<and> mset (provider_calls s) = mset (concat (map started_call es))"
  using run_ok [OF provider_new_ok assms] by (simp add: provider_new_def provider_calls_def)

definition two_wallet_names :: "(string \<times> string) list" where
  "two_wallet_names = [(''a'', ''Alpha''), (''b'', ''Beta'')]"

theorem provider_well_formed_witness:
  "\<exists>s. provider_run [PvConnect 0 ''a'', PvAvailable 0 (Inr True), PvConnected 0 (Inr ''G'') 5, PvSwitch 1 ''b'', PvDisconnect 2]
      (provider_new two_wallet_names True None) = Some s \<and> mset (provider_calls s) = {#0, 1, 2#}"
proof -
  obtain s where run: "provider_run [PvConnect 0 ''a'', PvAvailable 0 (Inr True), PvConnected 0 (Inr ''G'') 5, PvSwitch 1 ''b'',
      PvDisconnect 2] (provider_new two_wallet_names True None) = Some s"
    by (simp add: provider_new_def two_wallet_names_def call_known_def provider_connect_def wallet_name_def jhas_def jget_def
        join_available_def join_connected_def race_settled_def answer_def set_session_def store_session_def jdel_def
        switchWallet_def active_wallet_def provider_disconnect_def)
  show ?thesis using provider_well_formed [OF run] run by simp
qed


definition old_session :: wallet_session_data where
  "old_session = \<lparr>se_walletId = ''a'', se_publicKey = ''G'', se_connectedAt = 3\<rparr>"

lemmas provider_eval = provider_new_def two_wallet_names_def call_known_def provider_connect_def wallet_name_def jhas_def jget_def
  join_available_def join_connected_def join_failed_def race_settled_def answer_def set_session_def clear_session_def
  store_session_def jdel_def switchWallet_def switch_left_def active_wallet_def provider_disconnect_def disconnect_left_def
  connect_timeout_def reconnect_start_def reconnect_available_def reconnect_connected_def reconnect_failed_def Let_def


text \<open>
  A wallet that answers after its call was rejected with a timeout is connected all the same: it becomes the
  active wallet and its session is stored, while the error stays; and a second call of \<open>connect\<close> takes the timer
  of the first with it, which then waits for its wallet for as long as that takes.
\<close>

theorem late_wallet_connects:
  assumes "map_of (rev ws) a = Some m" and "map_of (rev ws) b = Some n"
  shows "\<exists>s t. provider_run [PvConnect 0 a, PvTimer, PvAvailable 0 (Inr True), PvConnected 0 (Inr key) now]
      (provider_new ws True None) = Some s \<and>
    pv_answers s = [(0, Inl ''Connection timeout'')] \<and> pv_active s = Some a \<and> pv_error s = Some ''Connection timeout'' \<and>
    pv_stored s = Some \<lparr>se_walletId = a, se_publicKey = key, se_connectedAt = now\<rparr> \<and>
    provider_run [PvConnect 0 a, PvConnect 1 b, PvAvailable 1 (Inr True), PvConnected 1 (Inr key) now]
      (provider_new ws True None) = Some t \<and>
    0 \<in> set (pv_open t) \<and> pv_timer t = None \<and> \<not> pv_isConnecting t"
  using assms by (simp add: provider_eval)

theorem late_wallet_connects_witness:
  "\<exists>s. provider_run [PvConnect 0 ''a'', PvTimer, PvAvailable 0 (Inr True), PvConnected 0 (Inr ''G'') 9]
      (provider_new two_wallet_names True None) = Some s \<and>
    pv_answers s = [(0, Inl ''Connection timeout'')] \<and> pv_active s = Some ''a''"
  using late_wallet_connects [of two_wallet_names "''a''" "''Alpha''" "''b''" "''Beta''" "''G''" 9]
  by (auto simp: two_wallet_names_def)


section \<open>Fallback chains and the stored form\<close>

definition joins :: "(string \<times> string) list \<Rightarrow> (string \<Rightarrow> wallet_behaviour) \<Rightarrow> string \<Rightarrow> bool" where
  "joins ws b w = (map_of (rev ws) w \<noteq> None \<and> (case b w of Behaves (Inr True) (Inr key) now \<Rightarrow> True | _ \<Rightarrow> False))"

lemma alone_joins:
  assumes "joins (pv_wallets s) b w"
  shows "call_answer (connect_alone (b w) w c s) = Inr () \<and> pv_active (connect_alone (b w) w c s) = Some w"
  using assms
  by (auto simp: joins_def connect_alone_def call_answer_def provider_eval split: wallet_behaviour.splits sum.splits bool.splits)

text \<open>What a refused call leaves: its message, and the session it found.\<close>

definition refused :: "provider \<Rightarrow> provider \<Rightarrow> bool" where
  "refused s t \<longleftrightarrow> (\<exists>m. call_answer t = Inl m \<and> pv_error t = Some m \<and> pv_active t = pv_active s \<and> pv_stored t = pv_stored s \<and>
    pv_wallets t = pv_wallets s)"

lemma race_refused:
  "List.member (pv_open u) c \<Longrightarrow> pv_active u = pv_active s \<Longrightarrow> pv_stored u = pv_stored s \<Longrightarrow> pv_wallets u = pv_wallets s \<Longrightarrow>
   refused s (race_settled c (Inl m) u)"
  by (simp add: refused_def race_settled_def answer_def call_answer_def)

lemma alone_refused:
  assumes "\<not> joins (pv_wallets s) b w"
  shows "refused s (connect_alone (b w) w c s)"
proof (cases "wallet_name s w")
  case None
  then show ?thesis by (simp add: connect_alone_def provider_connect_def answer_def refused_def call_answer_def Let_def)
next
  case (Some n)
  let ?t = "provider_connect c w s"
  have t: "List.member (pv_open ?t) c" "pv_active ?t = pv_active s" "pv_stored ?t = pv_stored s" "pv_wallets ?t = pv_wallets s"
      "jget (pv_joining ?t) c = Some (w, False)"
    using Some by (simp_all add: provider_connect_def jget_set)
  show ?thesis
  proof (cases "b w")
    case Silent
    then show ?thesis using Some t by (simp add: connect_alone_def connect_timeout_def race_refused Let_def)
  next
    case (Behaves r q now)
    consider e where "r = Inl e" | "r = Inr False" | m where "r = Inr True" "q = Inl m"
      using assms Behaves Some by (cases r; cases q) (auto simp: joins_def wallet_name_def split: bool.splits)
    then show ?thesis
      by cases (use Behaves Some t in \<open>simp_all add: connect_alone_def join_available_def join_connected_def join_failed_def
        race_refused Let_def\<close>)
  qed
qed

lemma alone_fails:
  "\<not> joins (pv_wallets s) b w \<Longrightarrow> connect_alone (b w) w c s = t \<Longrightarrow>
   \<exists>m. call_answer t = Inl m \<and> pv_error t = Some m \<and> pv_active t = pv_active s \<and> pv_stored t = pv_stored s \<and> pv_wallets t = pv_wallets s"
  using alone_refused unfolding refused_def by blast

lemma fallback_run:
  "fallback_from b c e ws s = (r, t) \<Longrightarrow> (case find (joins (pv_wallets s) b) ws of
     Some w \<Rightarrow> r = Inr () \<and> pv_active t = Some w
   | None \<Rightarrow> \<exists>m. r = Inl m \<and> pv_error t = Some m \<and> pv_active t = pv_active s \<and> pv_stored t = pv_stored s)"
proof (induction ws arbitrary: c e s)
  case Nil
  then show ?case by auto
next
  case (Cons w ws)
  show ?case
  proof (cases "joins (pv_wallets s) b w")
    case True
    then show ?thesis using Cons.prems alone_joins [OF True, of c] by (auto simp: Let_def)
  next
    case False
    obtain m where m: "call_answer (connect_alone (b w) w c s) = Inl m"
        "pv_active (connect_alone (b w) w c s) = pv_active s" "pv_stored (connect_alone (b w) w c s) = pv_stored s"
        "pv_wallets (connect_alone (b w) w c s) = pv_wallets s"
      using alone_fails [OF False refl] by blast
    then have rest: "fallback_from b (c + 1) m ws (connect_alone (b w) w c s) = (r, t)" using Cons.prems by (simp add: Let_def)
    show ?thesis using Cons.IH [OF rest] False unfolding m(2-4) by simp
  qed
qed


text \<open>
  A session that was saved is read back as it was, unless it is older than the limit: then it is not read and
  its item is removed. A payload is read only where it has the version of this format and a wallet and a key that
  are strings.
\<close>

theorem session_roundtrip:
  assumes "jc_parse c (jc_stringify c (Some (session_json x))) = Inr (session_json x)"
    and "jc_stringify c (Some (session_json x)) \<noteq> []" and "ls_present ls" and "ls_writes ls"
  shows "loadWalletSession c k limit now (saveWalletSession c x k ls) =
      (if (case limit of None \<Rightarrow> False | Some l \<Rightarrow> l < now - se_connectedAt x)
       then (None, clearWalletSession k (saveWalletSession c x k ls))
       else (Some (se_walletId x, se_publicKey x, Some (JNum (js_int (se_connectedAt x)))), saveWalletSession c x k ls)) \<and>
    (fst (loadWalletSession c k' limit' now' ls') = Some (w, p, t) \<longrightarrow>
      (\<exists>raw j. jget (ls_items ls') k' = Some raw \<and> jc_parse c raw = Inr j \<and> member_of j ''v'' = Some (JNum (js_int 1)) \<and>
         member_of j ''walletId'' = Some (JStr w) \<and> member_of j ''publicKey'' = Some (JStr p)))"
proof
  have old: "older_than l now (js_int n) \<longleftrightarrow> l < now - n" for l n
    by simp linarith
  have read: "session_of_json c limit now (session_json x) =
      (if (case limit of None \<Rightarrow> False | Some l \<Rightarrow> l < now - se_connectedAt x) then None
       else Some (se_walletId x, se_publicKey x, Some (JNum (js_int (se_connectedAt x)))))"
    by (cases limit) (simp_all add: session_of_json_def session_json_def member_of_def WALLET_SESSION_VERSION_def number_of_def
      old Let_def del: older_than.simps)
  show "loadWalletSession c k limit now (saveWalletSession c x k ls) =
      (if (case limit of None \<Rightarrow> False | Some l \<Rightarrow> l < now - se_connectedAt x)
       then (None, clearWalletSession k (saveWalletSession c x k ls))
       else (Some (se_walletId x, se_publicKey x, Some (JNum (js_int (se_connectedAt x)))), saveWalletSession c x k ls))"
    using assms by (simp add: loadWalletSession_def saveWalletSession_def jsmap read del: of_int_1)
next
  show "fst (loadWalletSession c k' limit' now' ls') = Some (w, p, t) \<longrightarrow>
      (\<exists>raw j. jget (ls_items ls') k' = Some raw \<and> jc_parse c raw = Inr j \<and> member_of j ''v'' = Some (JNum (js_int 1)) \<and>
         member_of j ''walletId'' = Some (JStr w) \<and> member_of j ''publicKey'' = Some (JStr p))"
    by (auto simp: loadWalletSession_def session_of_json_def WALLET_SESSION_VERSION_def Let_def
        split: if_splits option.splits sum.splits json.splits)
qed

definition session_sample :: session_codec where
  "session_sample = \<lparr>jc_parse = (\<lambda>x. if x = ''s'' then Inr (session_json old_session) else Inl ''bad''),
     jc_stringify = (\<lambda>x. ''s''), jc_number = (\<lambda>x. []), sc_toNumber = (\<lambda>j. NaN)\<rparr>"

theorem session_roundtrip_witness:
  "fst (loadWalletSession session_sample ''k'' (Some 100) 50
     (saveWalletSession session_sample old_session ''k'' \<lparr>ls_present = True, ls_writes = True, ls_items = []\<rparr>)) =
   Some (''a'', ''G'', Some (JNum (js_int 3)))"
  using session_roundtrip [of session_sample old_session "\<lparr>ls_present = True, ls_writes = True, ls_items = []\<rparr>" "''k''" "Some 100" 50]
  by (simp add: session_sample_def old_session_def)

end
