(* ===== verification/DeviceAdapters.thy ===== *)
theory DeviceAdapters
  imports Adapters
begin

text \<open>
  The adapters whose wallet is a popup, a second extension, an embedded page or a device
  (\<open>albedo.ts\<close>, \<open>lobstr.ts\<close>, \<open>rabet.ts\<close> and \<open>ledger.ts\<close> of \<open>packages/wallet-adapters/src/adapters\<close>).
\<close>

section \<open>Albedo\<close>

definition VALID_NETWORK_PASSPHRASES :: "string list" where
  "VALID_NETWORK_PASSPHRASES =
    [''Public Global Stellar Network ; September 2015'', ''Test SDF Network ; September 2015'']"

definition al_validateNetworkPassphrase :: "string \<Rightarrow> bool" where
  "al_validateNetworkPassphrase networkPassphrase =
    list_ex (\<lambda>valid. js_toLowerCase valid = js_toLowerCase networkPassphrase) VALID_NETWORK_PASSPHRASES"

definition toAlbedoNetwork :: "string option \<Rightarrow> string option" where
  "toAlbedoNetwork networkPassphrase =
    (if \<not> truthy_str networkPassphrase then None
     else Some (if js_includes (js_toLowerCase (the networkPassphrase)) ''test'' then ''testnet'' else ''public''))"

record albedo_env =
  ae_import :: import_result
  ae_publicKey :: "wallet_err + string"
  ae_tx :: "string \<Rightarrow> string option \<Rightarrow> string option \<Rightarrow> wallet_err + string"

record albedo =
  al_publicKey :: "string option"
  al_loaded :: bool

definition al_new :: albedo where
  "al_new = \<lparr>al_publicKey = None, al_loaded = False\<rparr>"

definition al_getClient :: "albedo_env \<Rightarrow> albedo \<Rightarrow> (wallet_err + unit) \<times> albedo" where
  "al_getClient w s =
    (if al_loaded s then (Inr (), s)
     else case loadOptionalWalletDependency ''albedo-wallet-sdk'' ''Albedo'' (ae_import w) of
         Inl e \<Rightarrow> (Inl e, s) | Inr u \<Rightarrow> (Inr (), s\<lparr>al_loaded := True\<rparr>))"

definition al_connect :: "albedo_env \<Rightarrow> albedo \<Rightarrow> (wallet_err + connection) \<times> albedo" where
  "al_connect w s = (case al_getClient w s of
     (Inl e, t) \<Rightarrow> (Inl e, t)
   | (Inr u, t) \<Rightarrow> (case ae_publicKey w of
       Inl cause \<Rightarrow> (Inl (mapCommonWalletError ''Albedo'' cause), t)
     | Inr pubkey \<Rightarrow> (Inr \<lparr>cn_address = pubkey, cn_network = None\<rparr>, t\<lparr>al_publicKey := Some pubkey\<rparr>)))"

definition al_disconnect :: "albedo_env \<Rightarrow> albedo \<Rightarrow> albedo" where
  "al_disconnect w s = s\<lparr>al_publicKey := None\<rparr>"

definition al_bad_passphrase :: "string option \<Rightarrow> bool" where
  "al_bad_passphrase p = (truthy_str p \<and> \<not> al_validateNetworkPassphrase (the p))"

definition al_signTransaction ::
  "albedo_env \<Rightarrow> string \<Rightarrow> sign_opts \<Rightarrow> albedo \<Rightarrow> (wallet_err + string) \<times> albedo" where
  "al_signTransaction w x opts s = (case al_getClient w s of
     (Inl e, t) \<Rightarrow> (Inl e, t)
   | (Inr u, t) \<Rightarrow>
       let res = (if al_bad_passphrase (so_networkPassphrase opts)
             then Inl (OtherWalletErr (''Invalid network passphrase: '' @ [CHR 0x22] @ the (so_networkPassphrase opts) @ [CHR 0x22]))
             else ae_tx w x (account_for opts (al_publicKey t)) (toAlbedoNetwork (so_networkPassphrase opts)))
       in case res of Inl cause \<Rightarrow> (Inl (mapCommonWalletError ''Albedo'' cause), t) | Inr y \<Rightarrow> (Inr y, t))"

section \<open>Lobstr\<close>

record lobstr_api =
  lo_connect_answer :: "wallet_err + string"
  lo_sign_answer :: "string \<Rightarrow> string option \<Rightarrow> wallet_err + string"
  lo_getNetwork :: "(wallet_err + string) option"

record lobstr =
  lo_publicKey :: "string option"

definition lo_missing :: wallet_err where
  "lo_missing = wallet_missing ''LOBSTR signer extension not found''"

definition lo_network :: "lobstr_api \<Rightarrow> string option" where
  "lo_network api = (case lo_getNetwork api of None \<Rightarrow> None | Some r \<Rightarrow> safeGetNetwork r)"

definition lo_connect :: "lobstr_api option \<Rightarrow> lobstr \<Rightarrow> (wallet_err + connection) \<times> lobstr" where
  "lo_connect w s = (case w of
     None \<Rightarrow> (Inl lo_missing, s)
   | Some api \<Rightarrow> (case lo_connect_answer api of
       Inl cause \<Rightarrow> (Inl (mapCommonWalletError ''LOBSTR'' cause), s)
     | Inr publicKey \<Rightarrow>
         (Inr \<lparr>cn_address = publicKey, cn_network = lo_network api\<rparr>, s\<lparr>lo_publicKey := Some publicKey\<rparr>)))"

definition lo_disconnect :: "lobstr_api option \<Rightarrow> lobstr \<Rightarrow> lobstr" where
  "lo_disconnect w s = s\<lparr>lo_publicKey := None\<rparr>"

definition lo_signTransaction ::
  "lobstr_api option \<Rightarrow> string \<Rightarrow> sign_opts \<Rightarrow> lobstr \<Rightarrow> (wallet_err + string) \<times> lobstr" where
  "lo_signTransaction w x opts s = (case w of
     None \<Rightarrow> (Inl lo_missing, s)
   | Some api \<Rightarrow> (case lo_sign_answer api x (so_networkPassphrase opts) of
       Inl cause \<Rightarrow> (Inl (mapCommonWalletError ''LOBSTR'' cause), s) | Inr y \<Rightarrow> (Inr y, s)))"

section \<open>Rabet\<close>

text \<open>
  A reply of the extension carries an error text beside its value; the iframe answers a request with a value
  or an error text, or not within 30 seconds.
\<close>

datatype iframe_reply = NoReply | Reply string "string option"

record rabet_env =
  re_extension :: bool
  re_connect :: "wallet_err + string \<times> string option"
  re_sign :: "string \<Rightarrow> string option \<Rightarrow> wallet_err + string \<times> string option"
  re_iframe :: iframe_reply

datatype rabet_mode = ExtensionMode | IframeMode

record rabet =
  ra_mode :: "rabet_mode option"
  ra_publicKey :: "string option"
  ra_iframe :: bool
  ra_listening :: bool

definition ra_new :: rabet where
  "ra_new = \<lparr>ra_mode = None, ra_publicKey = None, ra_iframe = False, ra_listening = False\<rparr>"

definition error_reported :: "string \<times> string option \<Rightarrow> wallet_err + string" where
  "error_reported r = (if truthy_str (snd r) then Inl (OtherWalletErr (the (snd r))) else Inr (fst r))"

definition ra_teardownIframe :: "rabet \<Rightarrow> rabet" where
  "ra_teardownIframe s = s\<lparr>ra_listening := False, ra_iframe := False\<rparr>"

text \<open>\<open>postToIframe\<close>: the listener is gone once the promise settles, the iframe stays.\<close>

definition ra_postToIframe :: "iframe_reply \<Rightarrow> rabet \<Rightarrow> (wallet_err + string) \<times> rabet" where
  "ra_postToIframe reply s =
    (case reply of
       NoReply \<Rightarrow> Inl (WalletAdapterError ''Rabet iframe request timed out after 30 seconds'' TIMEOUT)
     | Reply v e \<Rightarrow> error_reported (v, e),
     s\<lparr>ra_iframe := True, ra_listening := False\<rparr>)"

definition ra_connectViaExtension :: "rabet_env \<Rightarrow> rabet \<Rightarrow> (wallet_err + connection) \<times> rabet" where
  "ra_connectViaExtension w s =
    (case (case re_connect w of Inl e \<Rightarrow> Inl e | Inr r \<Rightarrow> error_reported r) of
       Inl cause \<Rightarrow> (Inl (mapCommonWalletError ''Rabet'' cause), s)
     | Inr publicKey \<Rightarrow> (Inr \<lparr>cn_address = publicKey, cn_network = None\<rparr>,
         s\<lparr>ra_mode := Some ExtensionMode, ra_publicKey := Some publicKey\<rparr>))"

definition ra_connectViaIframe :: "rabet_env \<Rightarrow> rabet \<Rightarrow> (wallet_err + connection) \<times> rabet" where
  "ra_connectViaIframe w s =
    (case ra_postToIframe (re_iframe w) (s\<lparr>ra_mode := Some IframeMode\<rparr>) of
       (Inl cause, t) \<Rightarrow> (Inl (mapCommonWalletError ''Rabet'' cause), (ra_teardownIframe t)\<lparr>ra_mode := None\<rparr>)
     | (Inr publicKey, t) \<Rightarrow> (Inr \<lparr>cn_address = publicKey, cn_network = None\<rparr>, t\<lparr>ra_publicKey := Some publicKey\<rparr>))"

definition ra_connect :: "rabet_env \<Rightarrow> rabet \<Rightarrow> (wallet_err + connection) \<times> rabet" where
  "ra_connect w s = (if re_extension w then ra_connectViaExtension w s else ra_connectViaIframe w s)"

definition ra_disconnect :: "rabet_env \<Rightarrow> rabet \<Rightarrow> rabet" where
  "ra_disconnect w s =
    (let t = (if ra_mode s = Some IframeMode then ra_teardownIframe s else s)
     in t\<lparr>ra_mode := None, ra_publicKey := None\<rparr>)"

definition ra_signTransaction ::
  "rabet_env \<Rightarrow> string \<Rightarrow> sign_opts \<Rightarrow> rabet \<Rightarrow> (wallet_err + string) \<times> rabet" where
  "ra_signTransaction w x opts s = (case ra_mode s of
     Some ExtensionMode \<Rightarrow>
       (if \<not> re_extension w then (Inl (wallet_missing ''Rabet extension not found''), s)
        else case (case re_sign w x (so_networkPassphrase opts) of Inl e \<Rightarrow> Inl e | Inr r \<Rightarrow> error_reported r) of
            Inl cause \<Rightarrow> (Inl (mapCommonWalletError ''Rabet'' cause), s) | Inr y \<Rightarrow> (Inr y, s))
   | Some IframeMode \<Rightarrow> (case ra_postToIframe (re_iframe w) s of
         (Inl cause, t) \<Rightarrow> (Inl (mapCommonWalletError ''Rabet'' cause), ra_teardownIframe t)
       | (Inr y, t) \<Rightarrow> (Inr y, ra_teardownIframe t))
   | None \<Rightarrow> (Inl (WalletAdapterError ''Rabet not connected; call connect() first'' CONNECTION_FAILED), s))"

section \<open>Ledger\<close>

text \<open>
  \<open>le_parse\<close> and \<open>le_finish\<close> are the Stellar SDK: the signature base of an envelope, and the envelope with the
  signature added for a public key.
\<close>

record ledger_env =
  le_hidModule :: import_result
  le_hidCreate :: "wallet_err + unit"
  le_usbModule :: import_result
  le_usbCreate :: "wallet_err + unit"
  le_appModule :: import_result
  le_getPublicKey :: "wallet_err + string"
  le_appSign :: "string \<Rightarrow> wallet_err + string"
  le_parse :: "string \<Rightarrow> string \<Rightarrow> wallet_err + string"
  le_finish :: "string \<Rightarrow> string \<Rightarrow> string \<Rightarrow> wallet_err + string"

record ledger_device =
  lg_transport :: bool
  lg_app :: bool
  lg_publicKey :: "string option"
  lg_deviceDisconnected :: bool

definition lg_new :: ledger_device where
  "lg_new = \<lparr>lg_transport = False, lg_app = False, lg_publicKey = None, lg_deviceDisconnected = False\<rparr>"

definition and_then :: "wallet_err + 'a \<Rightarrow> ('a \<Rightarrow> wallet_err + 'b) \<Rightarrow> wallet_err + 'b" where
  "and_then r f = (case r of Inl e \<Rightarrow> Inl e | Inr x \<Rightarrow> f x)"

definition openWebHidOrWebUsb :: "ledger_env \<Rightarrow> wallet_err + unit" where
  "openWebHidOrWebUsb w =
    (case and_then (loadOptionalWalletDependency ''@ledgerhq/hw-transport-webhid'' ''Ledger'' (le_hidModule w))
            (\<lambda>_. le_hidCreate w) of
       Inr u \<Rightarrow> Inr u
     | Inl e \<Rightarrow> and_then (loadOptionalWalletDependency ''@ledgerhq/hw-transport-webusb'' ''Ledger'' (le_usbModule w))
            (\<lambda>_. le_usbCreate w))"

definition lg_getTransport :: "ledger_env \<Rightarrow> ledger_device \<Rightarrow> (wallet_err + unit) \<times> ledger_device" where
  "lg_getTransport w s =
    (if lg_transport s then (Inr (), s)
     else case openWebHidOrWebUsb w of Inl e \<Rightarrow> (Inl e, s) | Inr u \<Rightarrow> (Inr (), s\<lparr>lg_transport := True\<rparr>))"

definition lg_getApp :: "ledger_env \<Rightarrow> ledger_device \<Rightarrow> (wallet_err + unit) \<times> ledger_device" where
  "lg_getApp w s =
    (if lg_app s then (Inr (), s)
     else case lg_getTransport w s of
         (Inl e, t) \<Rightarrow> (Inl e, t)
       | (Inr u, t) \<Rightarrow> (case loadOptionalWalletDependency ''@ledgerhq/hw-app-str'' ''Ledger'' (le_appModule w) of
           Inl e \<Rightarrow> (Inl e, t) | Inr u \<Rightarrow> (Inr (), t\<lparr>lg_app := True\<rparr>)))"

definition mapLedgerError :: "ledger_device \<Rightarrow> wallet_err \<Rightarrow> wallet_err" where
  "mapLedgerError s cause = (case cause of
     WalletAdapterError m c \<Rightarrow> cause
   | OtherWalletErr m \<Rightarrow>
       if lg_deviceDisconnected s then WalletAdapterError ''Ledger device disconnected'' DEVICE_DISCONNECTED
       else if list_ex (js_includes (js_toLowerCase m)) [''0x6985'', ''denied'', ''reject'']
       then WalletAdapterError ''Transaction rejected on Ledger device'' USER_REJECTED
       else if js_includes (js_toLowerCase m) ''disconnect''
       then WalletAdapterError ''Ledger device disconnected'' DEVICE_DISCONNECTED
       else WalletAdapterError (''Ledger request failed: '' @ m) CONNECTION_FAILED)"

definition lg_connect :: "ledger_env \<Rightarrow> ledger_device \<Rightarrow> (wallet_err + connection) \<times> ledger_device" where
  "lg_connect w s = (case lg_getApp w s of
     (Inl e, t) \<Rightarrow> (Inl e, t)
   | (Inr u, t) \<Rightarrow> (case le_getPublicKey w of
       Inl cause \<Rightarrow> (Inl (mapLedgerError t cause), t)
     | Inr publicKey \<Rightarrow> (Inr \<lparr>cn_address = publicKey, cn_network = None\<rparr>, t\<lparr>lg_publicKey := Some publicKey\<rparr>)))"

definition lg_disconnect :: "ledger_env \<Rightarrow> ledger_device \<Rightarrow> ledger_device" where
  "lg_disconnect w s = s\<lparr>lg_transport := False, lg_app := False, lg_publicKey := None\<rparr>"

text \<open>The handler of the transport's \<open>disconnect\<close> event.\<close>

definition lg_onDisconnect :: "ledger_device \<Rightarrow> ledger_device" where
  "lg_onDisconnect s = s\<lparr>lg_deviceDisconnected := True, lg_transport := False, lg_app := False\<rparr>"

definition lg_signTransaction ::
  "ledger_env \<Rightarrow> string \<Rightarrow> sign_opts \<Rightarrow> ledger_device \<Rightarrow> (wallet_err + string) \<times> ledger_device" where
  "lg_signTransaction w x opts s =
    (if \<not> truthy_str (so_networkPassphrase opts)
     then (Inl (WalletAdapterError ''Ledger signing requires opts.networkPassphrase'' INVALID_XDR), s)
     else if \<not> truthy_str (lg_publicKey s)
     then (Inl (WalletAdapterError ''Ledger not connected; call connect() first'' CONNECTION_FAILED), s)
     else case lg_getApp w s of
         (Inl e, t) \<Rightarrow> (Inl e, t)
       | (Inr u, t) \<Rightarrow>
           (case and_then (le_parse w x (the (so_networkPassphrase opts))) (\<lambda>signatureBase.
                 and_then (le_appSign w signatureBase) (\<lambda>signature. le_finish w x (the (lg_publicKey s)) signature)) of
              Inl cause \<Rightarrow> (Inl (mapLedgerError t cause), t) | Inr y \<Rightarrow> (Inr y, t)))"

end
