(* ===== verification/AdapterProps.thy ===== *)
theory AdapterProps
  imports DeviceAdapters
begin

text \<open>
  The contract \<open>SorobanWalletAdapter\<close> every adapter implements, as two locales: the account of a session
  (\<open>wallet_session\<close>), and errors that are always of the type the package documents (\<open>wallet_contract\<close>). All
  six adapters keep the first; the Ledger adapter breaks the second.
\<close>

section \<open>The contract\<close>

datatype 'w wallet_op = OpConnect 'w | OpDisconnect 'w | OpSign 'w string sign_opts

datatype wallet_outcome = Joined connection | Refused wallet_err | Left | Signed string

fun wallet_run ::
  "('w \<Rightarrow> 's \<Rightarrow> (wallet_err + connection) \<times> 's) \<Rightarrow> ('w \<Rightarrow> 's \<Rightarrow> 's) \<Rightarrow>
   ('w \<Rightarrow> string \<Rightarrow> sign_opts \<Rightarrow> 's \<Rightarrow> (wallet_err + string) \<times> 's) \<Rightarrow> 'w wallet_op list \<Rightarrow> 's \<Rightarrow> wallet_outcome list \<times> 's" where
  "wallet_run c d g [] s = ([], s)"
| "wallet_run c d g (OpConnect w # ops) s =
    (case c w s of (r, t) \<Rightarrow> (case wallet_run c d g ops t of (tr, u) \<Rightarrow>
       ((case r of Inl e \<Rightarrow> Refused e | Inr x \<Rightarrow> Joined x) # tr, u)))"
| "wallet_run c d g (OpDisconnect w # ops) s = (case wallet_run c d g ops (d w s) of (tr, u) \<Rightarrow> (Left # tr, u))"
| "wallet_run c d g (OpSign w x opts # ops) s =
    (case g w x opts s of (r, t) \<Rightarrow> (case wallet_run c d g ops t of (tr, u) \<Rightarrow>
       ((case r of Inl e \<Rightarrow> Refused e | Inr y \<Rightarrow> Signed y) # tr, u)))"

text \<open>The account of a session, read off its outcomes alone.\<close>

fun session_account :: "wallet_outcome list \<Rightarrow> string option \<Rightarrow> string option" where
  "session_account [] a = a"
| "session_account (Joined r # tr) a = session_account tr (Some (cn_address r))"
| "session_account (Left # tr) a = session_account tr None"
| "session_account (x # tr) a = session_account tr a"

fun typed_outcome :: "wallet_outcome \<Rightarrow> bool" where
  "typed_outcome (Refused (OtherWalletErr m)) = False"
| "typed_outcome _ = True"

definition account_refines where
  "account_refines c d g acc \<longleftrightarrow>
    (\<forall>ops s. acc (snd (wallet_run c d g ops s)) = session_account (fst (wallet_run c d g ops s)) (acc s))"

definition errors_typed where
  "errors_typed c d g \<longleftrightarrow> (\<forall>ops s. list_all typed_outcome (fst (wallet_run c d g ops s)))"

locale wallet_session =
  fixes connect :: "'w \<Rightarrow> 's \<Rightarrow> (wallet_err + connection) \<times> 's"
    and disconnect :: "'w \<Rightarrow> 's \<Rightarrow> 's"
    and sign :: "'w \<Rightarrow> string \<Rightarrow> sign_opts \<Rightarrow> 's \<Rightarrow> (wallet_err + string) \<times> 's"
    and account :: "'s \<Rightarrow> string option"
  assumes connect_joins: "connect w s = (Inr r, t) \<Longrightarrow> account t = Some (cn_address r)"
    and connect_refused: "connect w s = (Inl e, t) \<Longrightarrow> account t = account s"
    and disconnect_leaves: "account (disconnect w s) = None"
    and sign_keeps: "sign w x opts s = (q, t) \<Longrightarrow> account t = account s"
begin

lemma account_of_run: "wallet_run connect disconnect sign ops s = (tr, t) \<Longrightarrow> account t = session_account tr (account s)"
proof (induction ops arbitrary: s tr)
  case Nil
  then show ?case by simp
next
  case (Cons p ops)
  show ?case
  proof (cases p)
    case (OpConnect w)
    then obtain r u tr' where run: "connect w s = (r, u)" "wallet_run connect disconnect sign ops u = (tr', t)"
        "tr = (case r of Inl e \<Rightarrow> Refused e | Inr x \<Rightarrow> Joined x) # tr'"
      using Cons.prems by (auto split: prod.splits)
    then show ?thesis using Cons.IH [OF run(2)]
      by (cases r) (auto dest: connect_joins connect_refused)
  next
    case (OpDisconnect w)
    then show ?thesis using Cons.prems Cons.IH [of "disconnect w s"] by (auto simp: disconnect_leaves split: prod.splits)
  next
    case (OpSign w x opts)
    then obtain r u tr' where run: "sign w x opts s = (r, u)" "wallet_run connect disconnect sign ops u = (tr', t)"
        "tr = (case r of Inl e \<Rightarrow> Refused e | Inr x \<Rightarrow> Signed x) # tr'"
      using Cons.prems by (auto split: prod.splits)
    then show ?thesis using Cons.IH [OF run(2)] sign_keeps [OF run(1)] by (cases r) auto
  qed
qed

lemma refines: "account_refines connect disconnect sign account"
  unfolding account_refines_def
proof (intro allI)
  fix ops s
  obtain tr t where run: "wallet_run connect disconnect sign ops s = (tr, t)" by force
  show "account (snd (wallet_run connect disconnect sign ops s)) =
      session_account (fst (wallet_run connect disconnect sign ops s)) (account s)"
    using account_of_run [OF run] by (simp add: run)
qed

end

locale wallet_contract = wallet_session +
  assumes connect_typed: "connect w s = (Inl e, t) \<Longrightarrow> \<exists>m c. e = WalletAdapterError m c"
    and sign_typed: "sign w x opts s = (Inl e, t) \<Longrightarrow> \<exists>m c. e = WalletAdapterError m c"
begin

lemma typed: "errors_typed connect disconnect sign"
proof -
  have "list_all typed_outcome (fst (wallet_run connect disconnect sign ops s))" for ops s
  proof (induction ops arbitrary: s)
    case (Cons p ops)
    show ?case
    proof (cases p)
      case (OpConnect w)
      obtain r t where "connect w s = (r, t)" by force
      then show ?thesis using Cons.IH [of t] OpConnect by (cases r) (auto simp: case_prod_beta dest: connect_typed)
    next
      case (OpDisconnect w)
      then show ?thesis using Cons.IH by (simp add: case_prod_beta)
    next
      case (OpSign w x opts)
      obtain r t where "sign w x opts s = (r, t)" by force
      then show ?thesis using Cons.IH [of t] OpSign by (cases r) (auto simp: case_prod_beta dest: sign_typed)
    qed
  qed simp
  then show ?thesis by (simp add: errors_typed_def)
qed

end

section \<open>The adapters\<close>

lemma mapped_typed: "\<exists>m c. mapCommonWalletError name e = WalletAdapterError m c"
  by (cases e) (simp_all add: mapCommonWalletError_def)

lemma load_typed: "loadOptionalWalletDependency m a r = Inl e \<Longrightarrow> \<exists>m c. e = WalletAdapterError m c"
  by (cases r) (auto simp: loadOptionalWalletDependency_def not_installed_dependency_def Let_def split: if_splits)

lemma fr_fields [simp]:
  "fr_address (fr_emitStatus st r s) = fr_address s" "fr_address (fr_writeStorage w b s) = fr_address s"
  "fr_address (fr_attachListeners api s) = fr_address s"
  by (simp_all add: fr_emitStatus_def fr_writeStorage_def fr_attachListeners_def)

interpretation freighter: wallet_contract fr_connect fr_disconnect fr_signTransaction fr_address
  by unfold_locales
    (auto simp: fr_connect_def fr_disconnect_def fr_signTransaction_def fr_missing_def wallet_missing_def Let_def
      mapped_typed split: option.splits sum.splits)

interpretation xbull: wallet_contract xb_connect xb_disconnect xb_signTransaction xb_publicKey
  by unfold_locales
    (auto simp: xb_connect_def xb_disconnect_def xb_signTransaction_def xb_missing_def wallet_missing_def
      mapped_typed split: option.splits sum.splits if_splits)

lemma al_client: "al_getClient w s = (r, t) \<Longrightarrow> al_publicKey t = al_publicKey s"
    "al_getClient w s = (Inl e, t) \<Longrightarrow> \<exists>m c. e = WalletAdapterError m c"
  by (auto simp: al_getClient_def dest: load_typed split: if_splits sum.splits)

interpretation albedo: wallet_contract al_connect al_disconnect al_signTransaction al_publicKey
  by unfold_locales
    (auto simp: al_connect_def al_disconnect_def al_signTransaction_def Let_def mapped_typed
      dest: al_client split: prod.splits sum.splits if_splits)

interpretation lobstr: wallet_contract lo_connect lo_disconnect lo_signTransaction lo_publicKey
  by unfold_locales
    (auto simp: lo_connect_def lo_disconnect_def lo_signTransaction_def lo_missing_def wallet_missing_def
      mapped_typed split: option.splits sum.splits)

lemma ra_post: "ra_postToIframe reply s = (r, t) \<Longrightarrow> ra_publicKey t = ra_publicKey s"
  by (auto simp: ra_postToIframe_def)

lemma ra_teardown [simp]: "ra_publicKey (ra_teardownIframe s) = ra_publicKey s"
  by (simp add: ra_teardownIframe_def)

interpretation rabet: wallet_contract ra_connect ra_disconnect ra_signTransaction ra_publicKey
  by unfold_locales
    (auto simp: ra_connect_def ra_connectViaExtension_def ra_connectViaIframe_def ra_disconnect_def
      ra_signTransaction_def wallet_missing_def mapped_typed Let_def
      dest: ra_post split: prod.splits sum.splits if_splits option.splits rabet_mode.splits)

lemma lg_app: "lg_getApp w s = (r, t) \<Longrightarrow> lg_publicKey t = lg_publicKey s \<and> lg_deviceDisconnected t = lg_deviceDisconnected s"
  by (auto simp: lg_getApp_def lg_getTransport_def split: if_splits sum.splits prod.splits)

interpretation ledger: wallet_session lg_connect lg_disconnect lg_signTransaction lg_publicKey
  by unfold_locales
    (auto simp: lg_connect_def lg_disconnect_def lg_signTransaction_def dest: lg_app
      split: prod.splits sum.splits if_splits)

section \<open>Properties\<close>


definition refusing_ledger :: ledger_env where
  "refusing_ledger = \<lparr>le_hidModule = Module, le_hidCreate = Inl (OtherWalletErr ''denied''), le_usbModule = Module,
     le_usbCreate = Inl (OtherWalletErr ''denied''), le_appModule = Module, le_getPublicKey = Inr ''G'',
     le_appSign = (\<lambda>b. Inl (OtherWalletErr ''denied'')), le_parse = (\<lambda>x p. Inr x), le_finish = (\<lambda>x k g. Inr x)\<rparr>"

lemma ledger_untyped: "fst (lg_connect refusing_ledger lg_new) = Inl (OtherWalletErr ''denied'')"
proof -
  have "loadOptionalWalletDependency ''@ledgerhq/hw-transport-webhid'' ''Ledger'' Module = Inr ()"
    "loadOptionalWalletDependency ''@ledgerhq/hw-transport-webusb'' ''Ledger'' Module = Inr ()" by code_simp+
  then show ?thesis
    by (simp add: lg_connect_def lg_getApp_def lg_getTransport_def openWebHidOrWebUsb_def and_then_def refusing_ledger_def lg_new_def)
qed

text \<open>
  C23: what \<open>connect\<close> and \<open>signTransaction\<close> of the Freighter, xBull, Albedo, Lobstr and Rabet adapters throw is
  always a \<open>WalletAdapterError\<close>; the Ledger adapter opens its transport outside of its \<open>try\<close> block and lets
  errors of any kind through.
\<close>

theorem wallet_errors_typed:
  "errors_typed fr_connect fr_disconnect fr_signTransaction \<and>
   errors_typed xb_connect xb_disconnect xb_signTransaction \<and>
   errors_typed al_connect al_disconnect al_signTransaction \<and>
   errors_typed lo_connect lo_disconnect lo_signTransaction \<and>
   errors_typed ra_connect ra_disconnect ra_signTransaction \<and>
   \<not> errors_typed lg_connect lg_disconnect lg_signTransaction"
proof -
  have "\<not> list_all typed_outcome (fst (wallet_run lg_connect lg_disconnect lg_signTransaction
      [OpConnect refusing_ledger] lg_new))"
    using ledger_untyped by (simp add: case_prod_beta)
  then have "\<not> errors_typed lg_connect lg_disconnect lg_signTransaction" unfolding errors_typed_def by blast
  then show ?thesis using freighter.typed xbull.typed albedo.typed lobstr.typed rabet.typed by blast
qed

lemma ledger_flag_op:
  assumes "lg_deviceDisconnected s"
  shows "lg_deviceDisconnected (snd (lg_connect w s))" "lg_deviceDisconnected (snd (lg_signTransaction w x opts s))"
proof -
  obtain r t where app: "lg_getApp w s = (r, t)" by force
  then have t: "lg_deviceDisconnected t" using lg_app assms by simp
  show "lg_deviceDisconnected (snd (lg_connect w s))"
    using t by (cases r; cases "le_getPublicKey w") (simp_all add: lg_connect_def app)
  let ?r = "and_then (le_parse w x (the (so_networkPassphrase opts))) (\<lambda>b. and_then (le_appSign w b)
      (\<lambda>g. le_finish w x (the (lg_publicKey s)) g))"
  show "lg_deviceDisconnected (snd (lg_signTransaction w x opts s))"
    using t assms by (cases r; cases ?r) (simp_all add: lg_signTransaction_def app)
qed

lemma ledger_flag:
  "lg_deviceDisconnected s \<Longrightarrow> lg_deviceDisconnected (snd (wallet_run lg_connect lg_disconnect lg_signTransaction ops s))"
proof (induction ops arbitrary: s)
  case (Cons p ops)
  show ?case
  proof (cases p)
    case (OpConnect w)
    then show ?thesis using Cons ledger_flag_op(1) [OF Cons.prems] by (simp add: case_prod_beta)
  next
    case (OpDisconnect w)
    then show ?thesis using Cons by (simp add: case_prod_beta lg_disconnect_def)
  next
    case (OpSign w x opts)
    then show ?thesis using Cons ledger_flag_op(2) [OF Cons.prems] by (simp add: case_prod_beta)
  qed
qed simp

text \<open>
  Once a Ledger device has been unplugged, the flag that says so is never taken back: however often the
  adapter connects again, a transaction the user rejects on the device is reported as
  \<open>DEVICE_DISCONNECTED\<close>.
\<close>

theorem ledger_disconnect_sticks:
  assumes "wallet_run lg_connect lg_disconnect lg_signTransaction ops (lg_onDisconnect s) = (tr, t)"
    and "lg_getApp w t = (Inr (), t')" and "truthy_str (lg_publicKey t)" and "truthy_str (so_networkPassphrase opts)"
    and "le_parse w x (the (so_networkPassphrase opts)) = Inr base" and "le_appSign w base = Inl (OtherWalletErr m)"
  shows "fst (lg_signTransaction w x opts t) = Inl (WalletAdapterError ''Ledger device disconnected'' DEVICE_DISCONNECTED)"
proof -
  have "lg_deviceDisconnected t"
    using ledger_flag [of "lg_onDisconnect s" ops] assms(1) by (simp add: lg_onDisconnect_def)
  then have "lg_deviceDisconnected t'" using lg_app [OF assms(2)] by simp
  then show ?thesis using assms(2-) by (simp add: lg_signTransaction_def mapLedgerError_def and_then_def)
qed

definition plugged_ledger :: ledger_env where
  "plugged_ledger = refusing_ledger\<lparr>le_hidCreate := Inr ()\<rparr>"

theorem ledger_disconnect_sticks_witness:
  "\<exists>t. snd (wallet_run lg_connect lg_disconnect lg_signTransaction [OpConnect plugged_ledger] (lg_onDisconnect lg_new)) = t \<and>
     fst (lg_signTransaction plugged_ledger ''x'' \<lparr>so_networkPassphrase = Some ''p'', so_accountToSign = None\<rparr> t) =
       Inl (WalletAdapterError ''Ledger device disconnected'' DEVICE_DISCONNECTED)"
proof -
  let ?t = "\<lparr>lg_transport = True, lg_app = True, lg_publicKey = Some ''G'', lg_deviceDisconnected = True\<rparr>"
  have "loadOptionalWalletDependency ''@ledgerhq/hw-transport-webhid'' ''Ledger'' Module = Inr ()"
    "loadOptionalWalletDependency ''@ledgerhq/hw-app-str'' ''Ledger'' Module = Inr ()" by code_simp+
  then have run: "wallet_run lg_connect lg_disconnect lg_signTransaction [OpConnect plugged_ledger] (lg_onDisconnect lg_new) =
      ([Joined \<lparr>cn_address = ''G'', cn_network = None\<rparr>], ?t)"
    by (simp add: lg_connect_def lg_getApp_def lg_getTransport_def openWebHidOrWebUsb_def and_then_def plugged_ledger_def
        refusing_ledger_def lg_new_def lg_onDisconnect_def)
  have "fst (lg_signTransaction plugged_ledger ''x'' \<lparr>so_networkPassphrase = Some ''p'', so_accountToSign = None\<rparr> ?t) =
      Inl (WalletAdapterError ''Ledger device disconnected'' DEVICE_DISCONNECTED)"
    by (rule ledger_disconnect_sticks [OF run]) (simp_all add: lg_getApp_def plugged_ledger_def refusing_ledger_def)
  then show ?thesis unfolding run by simp
qed

end
