(* ===== verification/ClientAdapters.thy ===== *)
theory ClientAdapters
  imports AdapterProps
begin

text \<open>
  The wallet adapters that ship inside other packages: those of the \<open>sdk\<close> package (\<open>packages/sdk/src/xbull-adapter.ts\<close>,
  \<open>lobstr-adapter.ts\<close>, \<open>ledger-adapter.ts\<close>) and those of the React package (\<open>packages/react/src/adapters.ts\<close>). The
  first have the contract of \<open>packages/wallet-adapters\<close>, with errors of the same shape; the second throw what the
  wallet throws. The wallets are records of answers, as there.
\<close>

section \<open>Adapters of the sdk package\<close>

definition sdk_load :: "string \<Rightarrow> string \<Rightarrow> import_result \<Rightarrow> wallet_err + unit" where
  "sdk_load moduleName adapterName outcome = (if outcome = ImportFails
     then Inl (not_installed_dependency (adapterName @ '' requires the optional dependency '' @ [CHR 0x22] @ moduleName @
       [CHR 0x22] @ ''. Install it with: npm install '' @ moduleName))
     else Inr ())"

text \<open>The state is the same for xBull and Lobstr: a client that is made once, and the account.\<close>

record bridge =
  br_client :: bool
  br_publicKey :: "string option"

definition bridge_new :: bridge where
  "bridge_new = \<lparr>br_client = False, br_publicKey = None\<rparr>"

record bridge_env =
  be_module :: import_result
  be_connect :: "wallet_err + string"
  be_network :: "(wallet_err + string) option"
  be_sign :: "string \<Rightarrow> string option \<Rightarrow> string option \<Rightarrow> wallet_err + string"

definition bridge_getClient :: "string \<Rightarrow> string \<Rightarrow> bridge_env \<Rightarrow> bridge \<Rightarrow> (wallet_err + unit) \<times> bridge" where
  "bridge_getClient moduleName adapterName w s =
    (if br_client s then (Inr (), s)
     else case sdk_load moduleName adapterName (be_module w) of
         Inl e \<Rightarrow> (Inl e, s) | Inr u \<Rightarrow> (Inr (), s\<lparr>br_client := True\<rparr>))"

definition bridge_disconnect :: "bridge_env \<Rightarrow> bridge \<Rightarrow> bridge" where
  "bridge_disconnect w s = s\<lparr>br_client := False, br_publicKey := None\<rparr>"

definition mapXBullError :: "wallet_err \<Rightarrow> wallet_err" where
  "mapXBullError cause = (case cause of
     WalletAdapterError m c \<Rightarrow> cause
   | OtherWalletErr m \<Rightarrow> (let l = js_toLowerCase m
       in if list_ex (js_includes l) [''reject'', ''denied'', ''cancel'']
          then WalletAdapterError ''User rejected the xBull request'' USER_REJECTED
          else if gap_match ''not'' ''installed'' l \<or> gap_match ''not'' ''found'' l \<or> gap_match ''no'' ''bridge'' l
          then WalletAdapterError ''xBull extension not detected'' NOT_INSTALLED
          else WalletAdapterError (''xBull request failed: '' @ m) CONNECTION_FAILED))"

definition xbull_getClient :: "bridge_env \<Rightarrow> bridge \<Rightarrow> (wallet_err + unit) \<times> bridge" where
  "xbull_getClient = bridge_getClient ''@xbull/wallet-connect'' ''xBull''"

definition xbull_connect :: "bridge_env \<Rightarrow> bridge \<Rightarrow> (wallet_err + connection) \<times> bridge" where
  "xbull_connect w s = (case xbull_getClient w s of
     (Inl e, t) \<Rightarrow> (Inl e, t)
   | (Inr u, t) \<Rightarrow> (case be_connect w of
       Inl cause \<Rightarrow> (Inl (mapXBullError cause), t)
     | Inr publicKey \<Rightarrow> (Inr \<lparr>cn_address = publicKey, cn_network = None\<rparr>, t\<lparr>br_publicKey := Some publicKey\<rparr>)))"

definition xbull_signTransaction ::
  "bridge_env \<Rightarrow> string \<Rightarrow> sign_opts \<Rightarrow> bridge \<Rightarrow> (wallet_err + string) \<times> bridge" where
  "xbull_signTransaction w x opts s = (case xbull_getClient w s of
     (Inl e, t) \<Rightarrow> (Inl e, t)
   | (Inr u, t) \<Rightarrow> (case be_sign w x
         (case so_accountToSign opts of Some a \<Rightarrow> Some a | None \<Rightarrow> br_publicKey t) (so_networkPassphrase opts) of
       Inl cause \<Rightarrow> (Inl (mapXBullError cause), t) | Inr y \<Rightarrow> (Inr y, t)))"

definition mapLobstrError :: "wallet_err \<Rightarrow> wallet_err" where
  "mapLobstrError cause = (case cause of
     WalletAdapterError m c \<Rightarrow> cause
   | OtherWalletErr m \<Rightarrow> (let l = js_toLowerCase m
       in if list_ex (js_includes l) [''reject'', ''denied'', ''cancel'']
          then WalletAdapterError ''User rejected the Lobstr request'' USER_REJECTED
          else if gap_match ''not'' ''installed'' l \<or> gap_match ''not'' ''found'' l \<or> js_includes l ''extension''
          then WalletAdapterError ''Lobstr extension not detected'' NOT_INSTALLED
          else WalletAdapterError (''Lobstr request failed: '' @ m) CONNECTION_FAILED))"

definition detectNetwork :: "bridge_env \<Rightarrow> string option" where
  "detectNetwork w = (case be_network w of Some (Inr n) \<Rightarrow> Some n | _ \<Rightarrow> None)"

definition lobstr_getClient :: "bridge_env \<Rightarrow> bridge \<Rightarrow> (wallet_err + unit) \<times> bridge" where
  "lobstr_getClient = bridge_getClient ''lobstr-wallet-sdk'' ''Lobstr''"

definition lobstr_connect :: "bridge_env \<Rightarrow> bridge \<Rightarrow> (wallet_err + connection) \<times> bridge" where
  "lobstr_connect w s = (case lobstr_getClient w s of
     (Inl e, t) \<Rightarrow> (Inl e, t)
   | (Inr u, t) \<Rightarrow> (case be_connect w of
       Inl cause \<Rightarrow> (Inl (mapLobstrError cause), t)
     | Inr publicKey \<Rightarrow> (Inr \<lparr>cn_address = publicKey, cn_network = detectNetwork w\<rparr>, t\<lparr>br_publicKey := Some publicKey\<rparr>)))"

definition lobstr_signTransaction ::
  "bridge_env \<Rightarrow> string \<Rightarrow> sign_opts \<Rightarrow> bridge \<Rightarrow> (wallet_err + string) \<times> bridge" where
  "lobstr_signTransaction w x opts s = (case lobstr_getClient w s of
     (Inl e, t) \<Rightarrow> (Inl e, t)
   | (Inr u, t) \<Rightarrow> (case be_sign w x None (so_networkPassphrase opts) of
       Inl cause \<Rightarrow> (Inl (mapLobstrError cause), t) | Inr y \<Rightarrow> (Inr y, t)))"

subsection \<open>Ledger\<close>

text \<open>The device and its state are those of the other Ledger adapter; what it imports is not checked here.\<close>

definition sl_openWebHidOrWebUsb :: "ledger_env \<Rightarrow> wallet_err + unit" where
  "sl_openWebHidOrWebUsb w =
    (case and_then (sdk_load ''@ledgerhq/hw-transport-webhid'' ''Ledger'' (le_hidModule w)) (\<lambda>_. le_hidCreate w) of
       Inr u \<Rightarrow> Inr u
     | Inl e \<Rightarrow> and_then (sdk_load ''@ledgerhq/hw-transport-webusb'' ''Ledger'' (le_usbModule w)) (\<lambda>_. le_usbCreate w))"

definition sl_getTransport :: "ledger_env \<Rightarrow> ledger_device \<Rightarrow> (wallet_err + unit) \<times> ledger_device" where
  "sl_getTransport w s =
    (if lg_transport s then (Inr (), s)
     else case sl_openWebHidOrWebUsb w of Inl e \<Rightarrow> (Inl e, s) | Inr u \<Rightarrow> (Inr (), s\<lparr>lg_transport := True\<rparr>))"

definition sl_getApp :: "ledger_env \<Rightarrow> ledger_device \<Rightarrow> (wallet_err + unit) \<times> ledger_device" where
  "sl_getApp w s =
    (if lg_app s then (Inr (), s)
     else case sl_getTransport w s of
         (Inl e, t) \<Rightarrow> (Inl e, t)
       | (Inr u, t) \<Rightarrow> (case sdk_load ''@ledgerhq/hw-app-str'' ''Ledger'' (le_appModule w) of
           Inl e \<Rightarrow> (Inl e, t) | Inr u \<Rightarrow> (Inr (), t\<lparr>lg_app := True\<rparr>)))"

definition sl_mapLedgerError :: "ledger_device \<Rightarrow> wallet_err \<Rightarrow> wallet_err" where
  "sl_mapLedgerError s cause = (case cause of
     WalletAdapterError m c \<Rightarrow> cause
   | OtherWalletErr m \<Rightarrow>
       if lg_deviceDisconnected s then WalletAdapterError ''Ledger device disconnected'' DEVICE_DISCONNECTED
       else if list_ex (js_includes (js_toLowerCase m)) [''0x6985'', ''denied'', ''reject'']
       then WalletAdapterError ''Transaction rejected on Ledger device'' USER_REJECTED
       else if js_includes (js_toLowerCase m) ''disconnect''
       then WalletAdapterError ''Ledger device disconnected'' DEVICE_DISCONNECTED
       else WalletAdapterError (''Ledger request failed: '' @ m) CONNECTION_FAILED)"

definition sl_connect :: "ledger_env \<Rightarrow> ledger_device \<Rightarrow> (wallet_err + connection) \<times> ledger_device" where
  "sl_connect w s = (case sl_getApp w s of
     (Inl e, t) \<Rightarrow> (Inl e, t)
   | (Inr u, t) \<Rightarrow> (case le_getPublicKey w of
       Inl cause \<Rightarrow> (Inl (sl_mapLedgerError t cause), t)
     | Inr publicKey \<Rightarrow> (Inr \<lparr>cn_address = publicKey, cn_network = None\<rparr>, t\<lparr>lg_publicKey := Some publicKey\<rparr>)))"

definition sl_disconnect :: "ledger_env \<Rightarrow> ledger_device \<Rightarrow> ledger_device" where
  "sl_disconnect w s = s\<lparr>lg_transport := False, lg_app := False, lg_publicKey := None\<rparr>"

definition sl_signTransaction ::
  "ledger_env \<Rightarrow> string \<Rightarrow> sign_opts \<Rightarrow> ledger_device \<Rightarrow> (wallet_err + string) \<times> ledger_device" where
  "sl_signTransaction w x opts s =
    (if \<not> truthy_str (so_networkPassphrase opts)
     then (Inl (WalletAdapterError ''Ledger signing requires opts.networkPassphrase'' INVALID_XDR), s)
     else if \<not> truthy_str (lg_publicKey s)
     then (Inl (WalletAdapterError ''Ledger not connected; call connect() first'' CONNECTION_FAILED), s)
     else case sl_getApp w s of
         (Inl e, t) \<Rightarrow> (Inl e, t)
       | (Inr u, t) \<Rightarrow>
           (case and_then (le_parse w x (the (so_networkPassphrase opts))) (\<lambda>signatureBase.
                 and_then (le_appSign w signatureBase) (\<lambda>signature. le_finish w x (the (lg_publicKey s)) signature)) of
              Inl cause \<Rightarrow> (Inl (sl_mapLedgerError t cause), t) | Inr y \<Rightarrow> (Inr y, t)))"

section \<open>Adapters of the React package\<close>

text \<open>
  Each looks its wallet up at every call. Albedo and Lobstr have no call to disconnect, Freighter keeps no account
  at all; a wallet without a disconnect function is left without being asked.
\<close>

datatype react_wallet = ReactAlbedo | ReactRabet | ReactXBull | ReactLobstr

record react_env =
  re_present :: bool
  re_connect :: "wallet_err + string"
  re_disconnect :: "(wallet_err + unit) option"
  re_network :: "wallet_err + string option \<times> string option"
  re_sign :: "string \<Rightarrow> string option \<Rightarrow> string option \<Rightarrow> wallet_err + string"

record react_adapter =
  rx_publicKey :: "string option"

definition react_missing :: "react_wallet \<Rightarrow> wallet_err" where
  "react_missing k = OtherWalletErr (case k of
     ReactAlbedo \<Rightarrow> ''Albedo is not available'' | ReactRabet \<Rightarrow> ''Rabet extension not found''
   | ReactXBull \<Rightarrow> ''xBull extension not found'' | ReactLobstr \<Rightarrow> ''LOBSTR signer extension not found'')"

definition react_isConnected :: "react_adapter \<Rightarrow> bool" where
  "react_isConnected s = truthy_str (rx_publicKey s)"

definition react_connect :: "react_wallet \<Rightarrow> react_env \<Rightarrow> react_adapter \<Rightarrow> (wallet_err + connection) \<times> react_adapter" where
  "react_connect k w s =
    (if \<not> re_present w then (Inl (react_missing k), s)
     else case re_connect w of
         Inl e \<Rightarrow> (Inl e, s)
       | Inr publicKey \<Rightarrow> (Inr \<lparr>cn_address = publicKey, cn_network = None\<rparr>, s\<lparr>rx_publicKey := Some publicKey\<rparr>))"

definition react_disconnect :: "react_wallet \<Rightarrow> react_env \<Rightarrow> react_adapter \<Rightarrow> (wallet_err + unit) \<times> react_adapter" where
  "react_disconnect k w s =
    (case (if (k = ReactRabet \<or> k = ReactXBull) \<and> re_present w then re_disconnect w else None) of
       Some (Inl e) \<Rightarrow> (Inl e, s)
     | _ \<Rightarrow> (Inr (), s\<lparr>rx_publicKey := None\<rparr>))"

definition react_signTransaction ::
  "react_wallet \<Rightarrow> react_env \<Rightarrow> string \<Rightarrow> sign_opts \<Rightarrow> react_adapter \<Rightarrow> (wallet_err + string) \<times> react_adapter" where
  "react_signTransaction k w x opts s =
    (if \<not> re_present w then (Inl (react_missing k), s)
     else (re_sign w x (case k of
         ReactAlbedo \<Rightarrow> (case so_accountToSign opts of Some a \<Rightarrow> Some a | None \<Rightarrow> rx_publicKey s)
       | ReactXBull \<Rightarrow> (if react_isConnected s then rx_publicKey s else None)
       | ReactRabet \<Rightarrow> None | ReactLobstr \<Rightarrow> None) (so_networkPassphrase opts), s))"

definition react_getNetwork :: "react_wallet \<Rightarrow> react_env \<Rightarrow> wallet_err + string option" where
  "react_getNetwork k w = (case k of
     ReactAlbedo \<Rightarrow> Inl (OtherWalletErr ''Albedo does not expose network details; pass networkPassphrase explicitly'')
   | ReactLobstr \<Rightarrow> Inl (OtherWalletErr ''LOBSTR does not expose network details; pass networkPassphrase explicitly'')
   | _ \<Rightarrow> if \<not> re_present w then Inl (react_missing k)
          else (case re_network w of
              Inl e \<Rightarrow> Inl e
            | Inr (network, passphrase) \<Rightarrow> Inr (case passphrase of Some p \<Rightarrow> Some p | None \<Rightarrow> network)))"

section \<open>The contract\<close>

lemma sdk_load_typed: "sdk_load m a r = Inl e \<Longrightarrow> \<exists>m c. e = WalletAdapterError m c"
  by (auto simp: sdk_load_def not_installed_dependency_def split: if_splits)

lemma bridge_client: "bridge_getClient m a w s = (r, t) \<Longrightarrow> br_publicKey t = br_publicKey s"
    "bridge_getClient m a w s = (Inl e, t) \<Longrightarrow> \<exists>m c. e = WalletAdapterError m c"
  by (auto simp: bridge_getClient_def dest: sdk_load_typed split: if_splits sum.splits)

lemma bridge_mapped: "\<exists>m c. mapXBullError e = WalletAdapterError m c" "\<exists>m c. mapLobstrError e = WalletAdapterError m c"
  by (cases e; simp add: mapXBullError_def mapLobstrError_def Let_def)+

interpretation sdk_xbull: wallet_contract xbull_connect bridge_disconnect xbull_signTransaction br_publicKey
  by unfold_locales
    (auto simp: xbull_connect_def bridge_disconnect_def xbull_signTransaction_def xbull_getClient_def bridge_mapped
      dest: bridge_client split: prod.splits sum.splits)

interpretation sdk_lobstr: wallet_contract lobstr_connect bridge_disconnect lobstr_signTransaction br_publicKey
  by unfold_locales
    (auto simp: lobstr_connect_def bridge_disconnect_def lobstr_signTransaction_def lobstr_getClient_def bridge_mapped
      dest: bridge_client split: prod.splits sum.splits)

lemma sl_app: "sl_getApp w s = (r, t) \<Longrightarrow> lg_publicKey t = lg_publicKey s \<and> lg_deviceDisconnected t = lg_deviceDisconnected s"
  by (auto simp: sl_getApp_def sl_getTransport_def split: if_splits sum.splits prod.splits)

interpretation sdk_ledger: wallet_session sl_connect sl_disconnect sl_signTransaction lg_publicKey
  by unfold_locales
    (auto simp: sl_connect_def sl_disconnect_def sl_signTransaction_def dest: sl_app
      split: prod.splits sum.splits if_splits)

lemma quiet_disconnect: "k \<noteq> ReactRabet \<Longrightarrow> k \<noteq> ReactXBull \<Longrightarrow> react_disconnect k w s = (Inr (), s\<lparr>rx_publicKey := None\<rparr>)"
  by (simp add: react_disconnect_def)

interpretation react_albedo: wallet_session "react_connect ReactAlbedo" "\<lambda>w s. snd (react_disconnect ReactAlbedo w s)"
  "react_signTransaction ReactAlbedo" rx_publicKey
  by unfold_locales
    (auto simp: react_connect_def quiet_disconnect react_signTransaction_def split: if_splits sum.splits)

interpretation react_lobstr: wallet_session "react_connect ReactLobstr" "\<lambda>w s. snd (react_disconnect ReactLobstr w s)"
  "react_signTransaction ReactLobstr" rx_publicKey
  by unfold_locales
    (auto simp: react_connect_def quiet_disconnect react_signTransaction_def split: if_splits sum.splits)

section \<open>Properties\<close>

text \<open>
  The adapters of the \<open>sdk\<close> package keep the account of the abstract session, and those of xBull and Lobstr throw
  errors of the documented class only. Of the React adapters Albedo and Lobstr keep the account too; Rabet and xBull
  stay connected where their wallet refuses to disconnect, and sign nothing less.
\<close>

theorem shipped_accounts_refine:
  "account_refines xbull_connect bridge_disconnect xbull_signTransaction br_publicKey \<and>
   account_refines lobstr_connect bridge_disconnect lobstr_signTransaction br_publicKey \<and>
   account_refines sl_connect sl_disconnect sl_signTransaction lg_publicKey \<and>
   account_refines (react_connect ReactAlbedo) (\<lambda>w s. snd (react_disconnect ReactAlbedo w s))
     (react_signTransaction ReactAlbedo) rx_publicKey \<and>
   account_refines (react_connect ReactLobstr) (\<lambda>w s. snd (react_disconnect ReactLobstr w s))
     (react_signTransaction ReactLobstr) rx_publicKey \<and>
   errors_typed xbull_connect bridge_disconnect xbull_signTransaction \<and>
   errors_typed lobstr_connect bridge_disconnect lobstr_signTransaction \<and>
   react_disconnect ReactRabet \<lparr>re_present = True, re_connect = Inr ''G'', re_disconnect = Some (Inl (OtherWalletErr ''no'')),
     re_network = Inr (None, None), re_sign = (\<lambda>x a n. Inr x)\<rparr> \<lparr>rx_publicKey = Some ''G''\<rparr> =
     (Inl (OtherWalletErr ''no''), \<lparr>rx_publicKey = Some ''G''\<rparr>)"
  using sdk_xbull.refines sdk_lobstr.refines sdk_ledger.refines react_albedo.refines react_lobstr.refines
    sdk_xbull.typed sdk_lobstr.typed by (simp add: react_disconnect_def)

end
