(* ===== verification/ReactWallets.thy ===== *)
theory ReactWallets
  imports ClientAdapters WalletProvider
begin

text \<open>
  The React package around its provider: the five adapters of \<open>packages/react/src/adapters.ts\<close> method by method
  (\<open>ClientAdapters\<close> has the model that four of them share, to which they are proved equal here), the hook
  \<open>packages/react/src/wallet/useActiveWallet.ts\<close> with its listener for other tabs, and the context of the client
  (\<open>SorobanResurrectContext.ts\<close>, \<open>SorobanResurrectProvider.tsx\<close>).
\<close>

section \<open>Freighter\<close>

text \<open>The global \<open>freighterApi\<close>, if there is one. The adapter keeps no state.\<close>

record page_freighter =
  fa_requestAccess :: "(wallet_err + unit) option"
  fa_getAddress :: "wallet_err + string"
  fa_getNetworkDetails :: "wallet_err + string \<times> string option"
  fa_signTransaction :: "string \<Rightarrow> string option \<Rightarrow> string option \<Rightarrow> wallet_err + string"

definition freighter_missing :: wallet_err where
  "freighter_missing = OtherWalletErr ''Freighter extension not found''"

definition rf_isSupported :: "page_freighter option \<Rightarrow> bool" where
  "rf_isSupported api = (api \<noteq> None)"

definition rf_isConnected :: "page_freighter option \<Rightarrow> bool" where
  "rf_isConnected api = (api \<noteq> None)"

definition rf_connect :: "page_freighter option \<Rightarrow> wallet_err + string" where
  "rf_connect g = (case g of
     None \<Rightarrow> Inl freighter_missing
   | Some api \<Rightarrow> (case fa_requestAccess api of Some (Inl e) \<Rightarrow> Inl e | _ \<Rightarrow> fa_getAddress api))"

definition rf_getNetwork :: "page_freighter option \<Rightarrow> wallet_err + string \<times> string option" where
  "rf_getNetwork g = (case g of None \<Rightarrow> Inl freighter_missing | Some api \<Rightarrow> fa_getNetworkDetails api)"

definition rf_signTransaction :: "page_freighter option \<Rightarrow> string \<Rightarrow> sign_opts \<Rightarrow> wallet_err + string" where
  "rf_signTransaction g x opts = (case g of
     None \<Rightarrow> Inl freighter_missing
   | Some api \<Rightarrow> fa_signTransaction api x (so_networkPassphrase opts) (so_accountToSign opts))"

section \<open>Albedo, Rabet, xBull and LOBSTR\<close>

definition albr_connect :: "react_env \<Rightarrow> react_adapter \<Rightarrow> (wallet_err + string) \<times> react_adapter" where
  "albr_connect w s =
    (if \<not> re_present w then (Inl (OtherWalletErr ''Albedo is not available''), s)
     else case re_connect w of Inl e \<Rightarrow> (Inl e, s) | Inr pubkey \<Rightarrow> (Inr pubkey, s\<lparr>rx_publicKey := Some pubkey\<rparr>))"

definition albr_disconnect :: "react_adapter \<Rightarrow> react_adapter" where
  "albr_disconnect s = s\<lparr>rx_publicKey := None\<rparr>"

definition albr_signTransaction :: "react_env \<Rightarrow> string \<Rightarrow> sign_opts \<Rightarrow> react_adapter \<Rightarrow> wallet_err + string" where
  "albr_signTransaction w x opts s =
    (if \<not> re_present w then Inl (OtherWalletErr ''Albedo is not available'')
     else re_sign w x (case so_accountToSign opts of Some a \<Rightarrow> Some a | None \<Rightarrow> rx_publicKey s) (so_networkPassphrase opts))"

definition rb_connect :: "react_env \<Rightarrow> react_adapter \<Rightarrow> (wallet_err + string) \<times> react_adapter" where
  "rb_connect w s =
    (if \<not> re_present w then (Inl (OtherWalletErr ''Rabet extension not found''), s)
     else case re_connect w of Inl e \<Rightarrow> (Inl e, s) | Inr publicKey \<Rightarrow> (Inr publicKey, s\<lparr>rx_publicKey := Some publicKey\<rparr>))"

text \<open>A wallet that is gone, or has no function to disconnect, is not asked.\<close>

definition ask_disconnect :: "react_env \<Rightarrow> wallet_err + unit" where
  "ask_disconnect w = (if re_present w then (case re_disconnect w of Some r \<Rightarrow> r | None \<Rightarrow> Inr ()) else Inr ())"

definition rb_disconnect :: "react_env \<Rightarrow> react_adapter \<Rightarrow> (wallet_err + unit) \<times> react_adapter" where
  "rb_disconnect w s = (case ask_disconnect w of
     Inl e \<Rightarrow> (Inl e, s) | Inr u \<Rightarrow> (Inr (), s\<lparr>rx_publicKey := None\<rparr>))"

record react_net_env = react_env +
  re_networkUrl :: "string option"

definition rb_getNetwork :: "react_net_env \<Rightarrow> wallet_err + string option \<times> string option" where
  "rb_getNetwork w =
    (if \<not> re_present w then Inl (OtherWalletErr ''Rabet extension not found'')
     else case re_network w of
         Inl e \<Rightarrow> Inl e
       | Inr (network, networkPassphrase) \<Rightarrow>
           Inr (case networkPassphrase of Some p \<Rightarrow> Some p | None \<Rightarrow> network, re_networkUrl w))"

definition rb_signTransaction :: "react_env \<Rightarrow> string \<Rightarrow> sign_opts \<Rightarrow> wallet_err + string" where
  "rb_signTransaction w x opts =
    (if \<not> re_present w then Inl (OtherWalletErr ''Rabet extension not found'')
     else re_sign w x None (so_networkPassphrase opts))"

definition rx_connect :: "react_env \<Rightarrow> react_adapter \<Rightarrow> (wallet_err + string) \<times> react_adapter" where
  "rx_connect w s =
    (if \<not> re_present w then (Inl (OtherWalletErr ''xBull extension not found''), s)
     else case re_connect w of Inl e \<Rightarrow> (Inl e, s) | Inr publicKey \<Rightarrow> (Inr publicKey, s\<lparr>rx_publicKey := Some publicKey\<rparr>))"

definition rx_disconnect :: "react_env \<Rightarrow> react_adapter \<Rightarrow> (wallet_err + unit) \<times> react_adapter" where
  "rx_disconnect w s = (case ask_disconnect w of
     Inl e \<Rightarrow> (Inl e, s) | Inr u \<Rightarrow> (Inr (), s\<lparr>rx_publicKey := None\<rparr>))"

definition rx_getNetwork :: "react_net_env \<Rightarrow> wallet_err + string option \<times> string option" where
  "rx_getNetwork w =
    (if \<not> re_present w then Inl (OtherWalletErr ''xBull extension not found'')
     else case re_network w of
         Inl e \<Rightarrow> Inl e
       | Inr (network, networkPassphrase) \<Rightarrow>
           Inr (case networkPassphrase of Some p \<Rightarrow> Some p | None \<Rightarrow> network, re_networkUrl w))"

definition rx_signTransaction :: "react_env \<Rightarrow> string \<Rightarrow> sign_opts \<Rightarrow> react_adapter \<Rightarrow> wallet_err + string" where
  "rx_signTransaction w x opts s =
    (if \<not> re_present w then Inl (OtherWalletErr ''xBull extension not found'')
     else re_sign w x (case rx_publicKey s of Some k \<Rightarrow> (if k = [] then None else Some k) | None \<Rightarrow> None)
       (so_networkPassphrase opts))"

definition rl_connect :: "react_env \<Rightarrow> react_adapter \<Rightarrow> (wallet_err + string) \<times> react_adapter" where
  "rl_connect w s =
    (if \<not> re_present w then (Inl (OtherWalletErr ''LOBSTR signer extension not found''), s)
     else case re_connect w of Inl e \<Rightarrow> (Inl e, s) | Inr publicKey \<Rightarrow> (Inr publicKey, s\<lparr>rx_publicKey := Some publicKey\<rparr>))"

definition rl_signTransaction :: "react_env \<Rightarrow> string \<Rightarrow> sign_opts \<Rightarrow> wallet_err + string" where
  "rl_signTransaction w x opts =
    (if \<not> re_present w then Inl (OtherWalletErr ''LOBSTR signer extension not found'')
     else re_sign w x None (so_networkPassphrase opts))"

text \<open>The answers of the shared model are connections; the adapters answer with the account alone.\<close>

definition account_of :: "(wallet_err + connection) \<times> react_adapter \<Rightarrow> (wallet_err + string) \<times> react_adapter" where
  "account_of r = (case fst r of Inl e \<Rightarrow> Inl e | Inr cn \<Rightarrow> Inr (cn_address cn), snd r)"

lemma adapters_connect:
  "albr_connect w s = account_of (react_connect ReactAlbedo w s)"
  "rb_connect w s = account_of (react_connect ReactRabet w s)"
  "rx_connect w s = account_of (react_connect ReactXBull w s)"
  "rl_connect w s = account_of (react_connect ReactLobstr w s)"
  by (auto simp: account_of_def react_connect_def react_missing_def albr_connect_def rb_connect_def rx_connect_def
      rl_connect_def split: sum.splits)

lemma adapters_disconnect:
  "(Inr (), albr_disconnect s) = react_disconnect ReactAlbedo w s"
  "rb_disconnect w s = react_disconnect ReactRabet w s"
  "rx_disconnect w s = react_disconnect ReactXBull w s"
  by (auto simp: react_disconnect_def albr_disconnect_def rb_disconnect_def rx_disconnect_def ask_disconnect_def
      split: option.splits sum.splits)

lemma adapters_sign:
  "(albr_signTransaction w x opts s, s) = react_signTransaction ReactAlbedo w x opts s"
  "(rb_signTransaction w x opts, s) = react_signTransaction ReactRabet w x opts s"
  "(rx_signTransaction w x opts s, s) = react_signTransaction ReactXBull w x opts s"
  "(rl_signTransaction w x opts, s) = react_signTransaction ReactLobstr w x opts s"
  by (auto simp: react_signTransaction_def react_missing_def albr_signTransaction_def rb_signTransaction_def
      rx_signTransaction_def rl_signTransaction_def react_isConnected_def truthy_str_def split: option.splits)

section \<open>The active wallet\<close>

definition DEFAULT_STORAGE_KEY :: string where
  "DEFAULT_STORAGE_KEY = ''soroban-resurrect:wallet-session''"

text \<open>
  The value of the wallet context: the state of the provider, and the function \<open>syncFromStorage\<close> that the hook takes
  from it, where the value has one.
\<close>

record wallet_context =
  wc_provider :: provider
  wc_syncFromStorage :: "(loaded_session option \<Rightarrow> provider \<Rightarrow> provider) option"

definition provider_value :: "provider \<Rightarrow> wallet_context" where
  "provider_value s = \<lparr>wc_provider = s, wc_syncFromStorage = None\<rparr>"

record active_wallet_view =
  aw_wallet :: "string option"
  aw_publicKey :: "string option"
  aw_isConnecting :: bool
  aw_error :: "string option"

definition useActiveWallet :: "wallet_context option \<Rightarrow> string + active_wallet_view" where
  "useActiveWallet ctx = (case ctx of
     None \<Rightarrow> Inl ''useActiveWallet must be used within a WalletProvider''
   | Some c \<Rightarrow> (let s = wc_provider c in
       Inr \<lparr>aw_wallet = active_wallet s, aw_publicKey = pv_publicKey s, aw_isConnecting = pv_isConnecting s,
         aw_error = pv_error s\<rparr>))"

text \<open>
  The listener for the storage events of other tabs: its argument is evaluated, and so an old session cleared, before
  the call of what the context does not have.
\<close>

definition handleStorage ::
  "session_codec \<Rightarrow> int \<Rightarrow> string option \<Rightarrow> wallet_context \<Rightarrow> local_storage \<Rightarrow> (string + provider) \<times> local_storage" where
  "handleStorage c now key ctx ls =
    (if key \<noteq> None \<and> key \<noteq> Some DEFAULT_STORAGE_KEY then (Inr (wc_provider ctx), ls)
     else case loadWalletSession c DEFAULT_STORAGE_KEY None now ls of
         (session, ls') \<Rightarrow> (case wc_syncFromStorage ctx of
             None \<Rightarrow> Inl ''syncFromStorage is not a function''
           | Some f \<Rightarrow> Inr (f session (wc_provider ctx)), ls'))"

section \<open>The context of the client\<close>

type_synonym ('r, 'c) resurrect_context = "'r option \<times> 'c option"

definition SorobanResurrectContext :: "('r, 'c) resurrect_context" where
  "SorobanResurrectContext = (None, None)"

definition SorobanResurrectProvider ::
  "('o \<Rightarrow> 'r) \<Rightarrow> ('o \<Rightarrow> 'u) \<Rightarrow> ('o \<Rightarrow> string) \<Rightarrow> 'o \<Rightarrow> ('r, 'u \<times> string) resurrect_context" where
  "SorobanResurrectProvider useSorobanResurrect rpcUrl networkPassphrase options =
    (Some (useSorobanResurrect options), Some (rpcUrl options, networkPassphrase options))"

definition useSorobanResurrectContext :: "('r, 'c) resurrect_context \<Rightarrow> string + ('r, 'c) resurrect_context" where
  "useSorobanResurrectContext ctx = (if fst ctx = None \<and> snd ctx = None
     then Inl ''useSorobanResurrectContext must be used within a <SorobanResurrectProvider>'' else Inr ctx)"

text \<open>
  Hooks work under their provider only. The listener fails on every event of the session, wherever its provider keeps
  it: the value of the provider has no \<open>syncFromStorage\<close>; the state of the page stays, and of the storage at most
  the default session is removed.
\<close>

theorem storage_events_fail:
  "useActiveWallet None = Inl ''useActiveWallet must be used within a WalletProvider'' \<and>
   (\<exists>m. useSorobanResurrectContext SorobanResurrectContext = Inl m) \<and>
   useSorobanResurrectContext (SorobanResurrectProvider r u n options) = Inr (SorobanResurrectProvider r u n options) \<and>
   (case handleStorage c now key (provider_value s) ls of (result, ls') \<Rightarrow>
     (if key = None \<or> key = Some DEFAULT_STORAGE_KEY
      then result = Inl ''syncFromStorage is not a function'' \<and>
        (ls' = ls \<or> ls' = clearWalletSession DEFAULT_STORAGE_KEY ls)
      else result = Inr s \<and> ls' = ls))"
  by (auto simp: useActiveWallet_def useSorobanResurrectContext_def SorobanResurrectContext_def SorobanResurrectProvider_def
      handleStorage_def provider_value_def loadWalletSession_def split: option.splits sum.splits if_splits)

end
