(* ===== verification/UiBindings.thy ===== *)
theory UiBindings
  imports Prelude
begin

text \<open>
  The bindings for user interfaces: the composable of \<open>packages/vue/src/composables/useSorobanResurrect.ts\<close>, the
  stores of \<open>packages/svelte/src/lib/useSorobanResurrect.ts\<close> and the service of
  \<open>packages/angular/src/lib/soroban-resurrect.service.ts\<close>, which run the same two flows, and the restoration
  slice of \<open>packages/react/src/middleware.ts\<close>, \<open>jotai.ts\<close> and \<open>redux.ts\<close>. The client of the \<open>sdk\<close> package and
  the signer are arguments; callbacks are the entries of a log and do not throw. Calls run alone.
\<close>

section \<open>State and calls\<close>

datatype ui_err = UiResurrect string string | UiOther string

fun ui_message :: "ui_err \<Rightarrow> string" where
  "ui_message (UiResurrect m c) = m"
| "ui_message (UiOther m) = m"

record ui_result =
  ur_success :: bool
  ur_originalTxHash :: "string option"
  ur_entriesRestored :: nat

record ui_client =
  uc_simulate :: "string \<Rightarrow> ui_err + bool \<times> string list"
  uc_build :: "string list \<Rightarrow> string \<Rightarrow> ui_err + string"
  uc_execute :: "string \<Rightarrow> string \<Rightarrow> ui_err + ui_result"
  uc_sign :: "string \<Rightarrow> ui_err + string"
  uc_parseSource :: "string \<Rightarrow> string"
  uc_computeHash :: "string \<Rightarrow> string"

datatype ui_call =
    CallSimulate string
  | CallBuild "string list" string
  | CallExecute string string
  | CallSign string
  | OnRestoreNeeded "string list"
  | OnRestoreComplete ui_result
  | OnError string
  | PreFlightOnError string

record ui_state =
  ui_isChecking :: bool
  ui_isExecuting :: bool
  ui_lastResult :: "ui_result option"
  ui_error :: "string option"
  ui_needsRestore :: bool
  ui_archivedKeys :: "string list"
  ui_log :: "ui_call list"

type_synonym 'a ui = "(ui_state, ui_err, 'a) eff"

definition ui_do :: "(ui_state \<Rightarrow> ui_state) \<Rightarrow> unit ui" where
  "ui_do f = (\<lambda>s. (Inr (), f s))"

definition ui_ask :: "ui_call \<Rightarrow> ui_err + 'a \<Rightarrow> 'a ui" where
  "ui_ask c r = (\<lambda>s. (r, s\<lparr>ui_log := ui_log s @ [c]\<rparr>))"

text \<open>Vue and Svelte tell the callbacks of their options; the Angular service has none.\<close>

datatype binding_kind = VueBinding | SvelteBinding | AngularBinding

definition ui_tell :: "binding_kind \<Rightarrow> ui_call \<Rightarrow> unit ui" where
  "ui_tell b c = (if b = AngularBinding then eret () else ui_do (\<lambda>s. s\<lparr>ui_log := ui_log s @ [c]\<rparr>))"

text \<open>\<open>None\<close> is the client of a service that was not configured.\<close>

definition ui_getClient :: "ui_client option \<Rightarrow> ui_client ui" where
  "ui_getClient c = (case c of
     None \<Rightarrow> ethrow (UiOther ''SorobanResurrectService.configure() must be called before use'')
   | Some x \<Rightarrow> eret x)"

definition ui_failed :: "binding_kind \<Rightarrow> ui_err \<Rightarrow> unit ui" where
  "ui_failed b e =
    ebind (ui_do (\<lambda>s. s\<lparr>ui_error := Some (ui_message e)\<rparr>)) (\<lambda>_.
    ebind (ui_tell b (OnError (ui_message e))) (\<lambda>_. ui_tell b (PreFlightOnError (ui_message e))))"

definition finally_do :: "(ui_state \<Rightarrow> ui_state) \<Rightarrow> 'a ui \<Rightarrow> 'a ui" where
  "finally_do f m = (\<lambda>s. case m s of (r, t) \<Rightarrow> (r, f t))"

section \<open>The flows\<close>

definition ui_checkTransaction :: "binding_kind \<Rightarrow> ui_client option \<Rightarrow> string \<Rightarrow> (bool \<times> string list) ui" where
  "ui_checkTransaction b client tx =
    ebind (ui_do (\<lambda>s. s\<lparr>ui_isChecking := True, ui_error := None\<rparr>)) (\<lambda>_.
    finally_do (\<lambda>s. s\<lparr>ui_isChecking := False\<rparr>)
      (ecatch
        (ebind (ui_getClient client) (\<lambda>c.
         ebind (ui_ask (CallSimulate tx) (uc_simulate c tx)) (\<lambda>(needs, ks).
         ebind (ui_do (\<lambda>s. s\<lparr>ui_needsRestore := needs, ui_archivedKeys := ks\<rparr>)) (\<lambda>_.
         ebind (if needs then ui_tell b (OnRestoreNeeded ks) else eret ()) (\<lambda>_.
         eret (needs, ks))))))
        (\<lambda>e. ebind (ui_failed b e) (\<lambda>_. ethrow e))))"

text \<open>The branch without restoration signs the transaction and hashes it; nothing is sent.\<close>

definition sign_only :: "binding_kind \<Rightarrow> ui_client \<Rightarrow> string \<Rightarrow> ui_result ui" where
  "sign_only b c tx =
    ebind (ui_ask (CallSign tx) (uc_sign c tx)) (\<lambda>signedXDR.
    let res = \<lparr>ur_success = True, ur_originalTxHash = Some (uc_computeHash c signedXDR), ur_entriesRestored = 0\<rparr>
    in ebind (ui_do (\<lambda>s. s\<lparr>ui_lastResult := Some res\<rparr>)) (\<lambda>_.
       ebind (ui_tell b (OnRestoreComplete res)) (\<lambda>_. eret res)))"

definition restore_and_execute :: "binding_kind \<Rightarrow> ui_client \<Rightarrow> string \<Rightarrow> string list \<Rightarrow> ui_result ui" where
  "restore_and_execute b c tx ks =
    ebind (ui_do (\<lambda>s. s\<lparr>ui_needsRestore := True, ui_archivedKeys := ks\<rparr>)) (\<lambda>_.
    ebind (ui_tell b (OnRestoreNeeded ks)) (\<lambda>_.
    ebind (ui_ask (CallBuild ks (uc_parseSource c tx)) (uc_build c ks (uc_parseSource c tx))) (\<lambda>restoreXDR.
    ebind (ui_ask (CallExecute restoreXDR tx) (uc_execute c restoreXDR tx)) (\<lambda>res.
    ebind (ui_do (\<lambda>s. s\<lparr>ui_lastResult := Some res\<rparr>)) (\<lambda>_.
    ebind (ui_tell b (OnRestoreComplete res)) (\<lambda>_. eret res))))))"

definition wrapped_error :: "ui_err \<Rightarrow> ui_err" where
  "wrapped_error e = (case e of UiResurrect m c \<Rightarrow> e | UiOther m \<Rightarrow> UiResurrect m ''ORIGINAL_TX_FAILED'')"

definition ui_executeWithRestore :: "binding_kind \<Rightarrow> ui_client option \<Rightarrow> string \<Rightarrow> ui_result ui" where
  "ui_executeWithRestore b client tx =
    ebind (ui_do (\<lambda>s. s\<lparr>ui_isExecuting := True, ui_error := None\<rparr>)) (\<lambda>_.
    finally_do (\<lambda>s. s\<lparr>ui_isExecuting := False\<rparr>)
      (ecatch
        (ebind (ui_getClient client) (\<lambda>c.
         ebind (ui_ask (CallSimulate tx) (uc_simulate c tx)) (\<lambda>(needs, ks).
         if \<not> needs then sign_only b c tx else restore_and_execute b c tx ks)))
        (\<lambda>e. ebind (ui_failed b e) (\<lambda>_. ethrow (wrapped_error e)))))"

definition ui_reset :: "ui_state \<Rightarrow> ui_state" where
  "ui_reset s = s\<lparr>ui_isChecking := False, ui_isExecuting := False, ui_lastResult := None, ui_error := None,
     ui_needsRestore := False, ui_archivedKeys := []\<rparr>"

section \<open>The restoration slice\<close>

datatype restoration_event =
    EvChecking | EvNeedsRestore "string list" | EvExecuting | EvRestored ui_result | EvError string | EvReset

record restoration_slice =
  rs_isChecking :: bool
  rs_isExecuting :: bool
  rs_needsRestore :: bool
  rs_archivedKeys :: "string list"
  rs_lastResult :: "ui_result option"
  rs_error :: "string option"

definition initialRestorationSlice :: restoration_slice where
  "initialRestorationSlice = \<lparr>rs_isChecking = False, rs_isExecuting = False, rs_needsRestore = False,
     rs_archivedKeys = [], rs_lastResult = None, rs_error = None\<rparr>"

fun reduceRestoration :: "restoration_slice \<Rightarrow> restoration_event \<Rightarrow> restoration_slice" where
  "reduceRestoration s EvChecking = s\<lparr>rs_isChecking := True, rs_error := None\<rparr>"
| "reduceRestoration s (EvNeedsRestore ks) = s\<lparr>rs_isChecking := False, rs_needsRestore := True, rs_archivedKeys := ks\<rparr>"
| "reduceRestoration s EvExecuting = s\<lparr>rs_isExecuting := True\<rparr>"
| "reduceRestoration s (EvRestored r) = s\<lparr>rs_isExecuting := False, rs_needsRestore := False, rs_lastResult := Some r\<rparr>"
| "reduceRestoration s (EvError m) = s\<lparr>rs_isChecking := False, rs_isExecuting := False, rs_error := Some m\<rparr>"
| "reduceRestoration s EvReset = initialRestorationSlice"

datatype restoration_action =
    RESTORATION_CHECKING | RESTORATION_NEEDS_RESTORE "string list" | RESTORATION_EXECUTING
  | RESTORATION_RESTORED ui_result | RESTORATION_ERROR string | RESTORATION_RESET

fun eventToAction :: "restoration_event \<Rightarrow> restoration_action" where
  "eventToAction EvChecking = RESTORATION_CHECKING"
| "eventToAction (EvNeedsRestore ks) = RESTORATION_NEEDS_RESTORE ks"
| "eventToAction EvExecuting = RESTORATION_EXECUTING"
| "eventToAction (EvRestored r) = RESTORATION_RESTORED r"
| "eventToAction (EvError m) = RESTORATION_ERROR m"
| "eventToAction EvReset = RESTORATION_RESET"

text \<open>An undefined state is the initial one; actions of others, here \<open>None\<close>, leave the state alone.\<close>

fun reduce_action :: "restoration_slice \<Rightarrow> restoration_action \<Rightarrow> restoration_slice" where
  "reduce_action s RESTORATION_CHECKING = s\<lparr>rs_isChecking := True, rs_error := None\<rparr>"
| "reduce_action s (RESTORATION_NEEDS_RESTORE ks) =
    s\<lparr>rs_isChecking := False, rs_needsRestore := True, rs_archivedKeys := ks\<rparr>"
| "reduce_action s RESTORATION_EXECUTING = s\<lparr>rs_isExecuting := True\<rparr>"
| "reduce_action s (RESTORATION_RESTORED r) =
    s\<lparr>rs_isExecuting := False, rs_needsRestore := False, rs_lastResult := Some r\<rparr>"
| "reduce_action s (RESTORATION_ERROR m) =
    s\<lparr>rs_isChecking := False, rs_isExecuting := False, rs_error := Some m\<rparr>"
| "reduce_action s RESTORATION_RESET = initialRestorationSlice"

definition restorationReducer :: "restoration_slice option \<Rightarrow> restoration_action option \<Rightarrow> restoration_slice" where
  "restorationReducer state action =
    (let s = (case state of None \<Rightarrow> initialRestorationSlice | Some x \<Rightarrow> x)
     in case action of None \<Rightarrow> s | Some a \<Rightarrow> reduce_action s a)"

text \<open>The bus hands an event to its listeners in the order they subscribed, each once; listeners neither
  throw nor change the subscriptions.\<close>

definition bus_subscribe :: "nat \<Rightarrow> nat list \<Rightarrow> nat list" where
  "bus_subscribe l ls = (if List.member ls l then ls else ls @ [l])"

definition bus_unsubscribe :: "nat \<Rightarrow> nat list \<Rightarrow> nat list" where
  "bus_unsubscribe l ls = filter (\<lambda>x. x \<noteq> l) ls"

definition bus_emit :: "restoration_event \<Rightarrow> nat list \<Rightarrow> (nat \<times> restoration_event) list" where
  "bus_emit e ls = map (\<lambda>l. (l, e)) ls"

lemma reducers_agree: "restorationReducer (Some s) (Some (eventToAction e)) = reduceRestoration s e"
  by (cases e) (simp_all add: restorationReducer_def)

section \<open>Properties\<close>

definition sent :: "ui_call \<Rightarrow> bool" where
  "sent c = (case c of CallExecute r x \<Rightarrow> True | _ \<Rightarrow> False)"

lemmas ui_eval = ebind_def ecatch_def eret_def ethrow_def ui_do_def ui_ask_def ui_tell_def ui_getClient_def
  finally_do_def ui_failed_def Let_def

text \<open>
  Where the simulation finds nothing archived, \<open>executeWithRestore\<close> of the Vue, Svelte and Angular bindings
  reports success with the hash of the signed transaction, but the transaction has not been sent: all the client
  and the signer were asked is the simulation and the signature.
\<close>

theorem ui_success_without_sending:
  assumes "uc_simulate c tx = Inr (False, ks)" and "uc_sign c tx = Inr signed"
  shows "(case ui_executeWithRestore b (Some c) tx s of
      (Inr res, t) \<Rightarrow> ur_success res \<and> ur_originalTxHash res = Some (uc_computeHash c signed) \<and> ui_lastResult t = Some res \<and>
        (\<exists>told. ui_log t = ui_log s @ [CallSimulate tx, CallSign tx] @ told \<and> list_all (\<lambda>x. \<not> sent x) told)
    | (Inl e, t) \<Rightarrow> False)"
  using assms by (simp add: ui_executeWithRestore_def sign_only_def ui_eval sent_def)

definition sample_client :: ui_client where
  "sample_client = \<lparr>uc_simulate = (\<lambda>x. Inr (False, [])), uc_build = (\<lambda>ks a. Inr []), uc_execute = (\<lambda>r x. Inl (UiOther [])),
     uc_sign = (\<lambda>x. Inr x), uc_parseSource = (\<lambda>x. []), uc_computeHash = (\<lambda>x. ''h'')\<rparr>"

definition idle_ui :: ui_state where
  "idle_ui = \<lparr>ui_isChecking = False, ui_isExecuting = False, ui_lastResult = None, ui_error = None,
     ui_needsRestore = False, ui_archivedKeys = [], ui_log = []\<rparr>"

theorem ui_success_without_sending_witness:
  "\<exists>res t. ui_executeWithRestore VueBinding (Some sample_client) ''x'' idle_ui = (Inr res, t) \<and> ur_success res"
  using ui_success_without_sending [where c = sample_client and tx = "''x''" and ks = "[]" and signed = "''x''"
    and b = VueBinding and s = idle_ui]
  by (auto simp: sample_client_def split: prod.splits sum.splits)

text \<open>What an interface shows after a call: it is idle again, and an error exactly where the call rejected.\<close>

definition shows_outcome :: "ui_err + 'a \<Rightarrow> ui_state \<Rightarrow> bool" where
  "shows_outcome r t \<longleftrightarrow> ui_error t = (case r of Inl e \<Rightarrow> Some (ui_message e) | Inr x \<Rightarrow> None)"

text \<open>
  After either flow of the bindings the flag it raised is down again whatever failed, the error shown is the
  message the call rejected with, and none where it resolved; \<open>executeWithRestore\<close> rejects with errors of the
  documented class only, and keeps the result it resolves with.
\<close>

theorem ui_flags_settle:
  "(case ui_checkTransaction b client tx s of (r, t) \<Rightarrow>
      \<not> ui_isChecking t \<and> ui_isExecuting t = ui_isExecuting s \<and> shows_outcome r t) \<and>
   (case ui_executeWithRestore b client tx s of (r, t) \<Rightarrow>
      \<not> ui_isExecuting t \<and> ui_isChecking t = ui_isChecking s \<and> shows_outcome r t \<and>
      (case r of Inl (UiOther m) \<Rightarrow> False | Inl (UiResurrect m c) \<Rightarrow> True | Inr res \<Rightarrow> ui_lastResult t = Some res))"
proof (cases client)
  case None
  then show ?thesis
    by (simp add: ui_checkTransaction_def ui_executeWithRestore_def ui_eval shows_outcome_def wrapped_error_def)
next
  case (Some c)
  show ?thesis
  proof (cases "uc_simulate c tx")
    case (Inl e)
    then show ?thesis using Some
      by (cases e) (simp_all add: ui_checkTransaction_def ui_executeWithRestore_def ui_eval shows_outcome_def wrapped_error_def)
  next
    case (Inr p)
    obtain needs ks where p: "p = (needs, ks)" by force
    have check: "case ui_checkTransaction b client tx s of (r, t) \<Rightarrow>
        \<not> ui_isChecking t \<and> ui_isExecuting t = ui_isExecuting s \<and> shows_outcome r t"
      using Some Inr p by (simp add: ui_checkTransaction_def ui_eval shows_outcome_def)
    have "case ui_executeWithRestore b client tx s of (r, t) \<Rightarrow>
        \<not> ui_isExecuting t \<and> ui_isChecking t = ui_isChecking s \<and> shows_outcome r t \<and>
        (case r of Inl (UiOther m) \<Rightarrow> False | Inl (UiResurrect m c) \<Rightarrow> True | Inr res \<Rightarrow> ui_lastResult t = Some res)"
      using Some Inr p
      by (auto simp: ui_executeWithRestore_def sign_only_def restore_and_execute_def ui_eval shows_outcome_def wrapped_error_def
          split: sum.splits ui_err.splits)
    with check show ?thesis by blast
  qed
qed

end
