(* ===== verification/Bindings.thy ===== *)
theory Bindings
  imports UiBindings
begin

text \<open>
  The Svelte stores (\<open>packages/svelte/src/lib/useSorobanResurrect.ts\<close>) and the Angular service
  (\<open>packages/angular/src/lib/soroban-resurrect.service.ts\<close>), each written out as in its file, and their agreement with
  the model of the Vue composable; the reducer of \<open>packages/react/src/jotai.ts\<close>; and the list of wallets of
  \<open>packages/react/src/wallet/useWallets.ts\<close>.
\<close>

section \<open>Svelte\<close>

definition svelte_failed :: "ui_err \<Rightarrow> ui_state \<Rightarrow> ui_state" where
  "svelte_failed e s = s\<lparr>ui_error := Some (ui_message e),
     ui_log := ui_log s @ [OnError (ui_message e), PreFlightOnError (ui_message e)]\<rparr>"

definition svelte_checkTransaction :: "ui_client \<Rightarrow> string \<Rightarrow> (bool \<times> string list) ui" where
  "svelte_checkTransaction c tx s =
    (let t = s\<lparr>ui_isChecking := True, ui_error := None, ui_log := ui_log s @ [CallSimulate tx]\<rparr>
     in case uc_simulate c tx of
          Inl e \<Rightarrow> (Inl e, (svelte_failed e t)\<lparr>ui_isChecking := False\<rparr>)
        | Inr (needs, ks) \<Rightarrow> (Inr (needs, ks), t\<lparr>ui_needsRestore := needs, ui_archivedKeys := ks, ui_isChecking := False,
            ui_log := ui_log t @ (if needs then [OnRestoreNeeded ks] else [])\<rparr>))"

definition svelte_finish :: "ui_result \<Rightarrow> ui_state \<Rightarrow> ui_state" where
  "svelte_finish res s = s\<lparr>ui_lastResult := Some res, ui_log := ui_log s @ [OnRestoreComplete res]\<rparr>"

definition svelte_sign_only :: "ui_client \<Rightarrow> string \<Rightarrow> ui_result ui" where
  "svelte_sign_only c tx s =
    (let t = s\<lparr>ui_log := ui_log s @ [CallSign tx]\<rparr>
     in case uc_sign c tx of
          Inl e \<Rightarrow> (Inl e, t)
        | Inr signedXDR \<Rightarrow>
            (let res = \<lparr>ur_success = True, ur_originalTxHash = Some (uc_computeHash c signedXDR), ur_entriesRestored = 0\<rparr>
             in (Inr res, svelte_finish res t)))"

definition svelte_restore :: "ui_client \<Rightarrow> string \<Rightarrow> string list \<Rightarrow> ui_result ui" where
  "svelte_restore c tx ks s =
    (let accountID = uc_parseSource c tx;
         t = s\<lparr>ui_needsRestore := True, ui_archivedKeys := ks, ui_log := ui_log s @ [OnRestoreNeeded ks, CallBuild ks accountID]\<rparr>
     in case uc_build c ks accountID of
          Inl e \<Rightarrow> (Inl e, t)
        | Inr restoreXDR \<Rightarrow>
            (let u = t\<lparr>ui_log := ui_log t @ [CallExecute restoreXDR tx]\<rparr>
             in case uc_execute c restoreXDR tx of Inl e \<Rightarrow> (Inl e, u) | Inr res \<Rightarrow> (Inr res, svelte_finish res u)))"

definition svelte_executeWithRestore :: "ui_client \<Rightarrow> string \<Rightarrow> ui_result ui" where
  "svelte_executeWithRestore c tx s =
    (let t = s\<lparr>ui_isExecuting := True, ui_error := None, ui_log := ui_log s @ [CallSimulate tx]\<rparr>
     in case (case uc_simulate c tx of
            Inl e \<Rightarrow> (Inl e, t)
          | Inr (needs, ks) \<Rightarrow> if \<not> needs then svelte_sign_only c tx t else svelte_restore c tx ks t) of
          (Inr res, u) \<Rightarrow> (Inr res, u\<lparr>ui_isExecuting := False\<rparr>)
        | (Inl e, u) \<Rightarrow> (Inl (case e of UiResurrect m k \<Rightarrow> e | UiOther m \<Rightarrow> UiResurrect m ''ORIGINAL_TX_FAILED''),
            (svelte_failed e u)\<lparr>ui_isExecuting := False\<rparr>))"

definition svelte_reset :: "ui_state \<Rightarrow> ui_state" where
  "svelte_reset s = s\<lparr>ui_isChecking := False, ui_isExecuting := False, ui_lastResult := None, ui_error := None,
     ui_needsRestore := False, ui_archivedKeys := []\<rparr>"

text \<open>Listeners are pushed, also a second time, and removed in every place; nothing outside can make them be called.\<close>

definition svelte_on :: "nat \<Rightarrow> nat list \<Rightarrow> nat list" where
  "svelte_on callback ls = ls @ [callback]"

definition svelte_off :: "nat \<Rightarrow> nat list \<Rightarrow> nat list" where
  "svelte_off callback ls = filter (\<lambda>cb. cb \<noteq> callback) ls"

definition svelte_emit :: "'v \<Rightarrow> nat list \<Rightarrow> (nat \<times> 'v) list" where
  "svelte_emit x ls = map (\<lambda>cb. (cb, x)) ls"

section \<open>Angular\<close>

definition angular_unconfigured :: ui_err where
  "angular_unconfigured = UiOther ''SorobanResurrectService.configure() must be called before use''"

definition angular_checkTransaction :: "ui_client option \<Rightarrow> string \<Rightarrow> (bool \<times> string list) ui" where
  "angular_checkTransaction client tx s =
    (let t = s\<lparr>ui_isChecking := True, ui_error := None\<rparr>
     in case client of
          None \<Rightarrow> (Inl angular_unconfigured, t\<lparr>ui_error := Some (ui_message angular_unconfigured), ui_isChecking := False\<rparr>)
        | Some c \<Rightarrow>
            (let u = t\<lparr>ui_log := ui_log t @ [CallSimulate tx]\<rparr>
             in case uc_simulate c tx of
                  Inl e \<Rightarrow> (Inl e, u\<lparr>ui_error := Some (ui_message e), ui_isChecking := False\<rparr>)
                | Inr (needs, ks) \<Rightarrow> (Inr (needs, ks), u\<lparr>ui_needsRestore := needs, ui_archivedKeys := ks, ui_isChecking := False\<rparr>)))"

definition angular_run :: "ui_client \<Rightarrow> string \<Rightarrow> ui_result ui" where
  "angular_run c tx s =
    (let t = s\<lparr>ui_log := ui_log s @ [CallSimulate tx]\<rparr>
     in case uc_simulate c tx of
          Inl e \<Rightarrow> (Inl e, t)
        | Inr (needs, ks) \<Rightarrow>
            if \<not> needs
            then (let u = t\<lparr>ui_log := ui_log t @ [CallSign tx]\<rparr>
                  in case uc_sign c tx of
                       Inl e \<Rightarrow> (Inl e, u)
                     | Inr signedXDR \<Rightarrow>
                         (let res = \<lparr>ur_success = True, ur_originalTxHash = Some (uc_computeHash c signedXDR), ur_entriesRestored = 0\<rparr>
                          in (Inr res, u\<lparr>ui_lastResult := Some res\<rparr>)))
            else (let accountID = uc_parseSource c tx;
                      u = t\<lparr>ui_needsRestore := True, ui_archivedKeys := ks, ui_log := ui_log t @ [CallBuild ks accountID]\<rparr>
                  in case uc_build c ks accountID of
                       Inl e \<Rightarrow> (Inl e, u)
                     | Inr restoreXDR \<Rightarrow>
                         (let w = u\<lparr>ui_log := ui_log u @ [CallExecute restoreXDR tx]\<rparr>
                          in case uc_execute c restoreXDR tx of
                               Inl e \<Rightarrow> (Inl e, w) | Inr res \<Rightarrow> (Inr res, w\<lparr>ui_lastResult := Some res\<rparr>))))"

definition angular_executeWithRestore :: "ui_client option \<Rightarrow> string \<Rightarrow> ui_result ui" where
  "angular_executeWithRestore client tx s =
    (let t = s\<lparr>ui_isExecuting := True, ui_error := None\<rparr>
     in case (case client of None \<Rightarrow> (Inl angular_unconfigured, t) | Some c \<Rightarrow> angular_run c tx t) of
          (Inr res, u) \<Rightarrow> (Inr res, u\<lparr>ui_isExecuting := False\<rparr>)
        | (Inl e, u) \<Rightarrow> (Inl (case e of UiResurrect m k \<Rightarrow> e | UiOther m \<Rightarrow> UiResurrect m ''ORIGINAL_TX_FAILED''),
            u\<lparr>ui_error := Some (ui_message e), ui_isExecuting := False\<rparr>))"

definition angular_reset :: "ui_state \<Rightarrow> ui_state" where
  "angular_reset s = s\<lparr>ui_isChecking := False, ui_isExecuting := False, ui_lastResult := None, ui_error := None,
     ui_needsRestore := False, ui_archivedKeys := []\<rparr>"

section \<open>Jotai\<close>

datatype jotai_call = RestoreStart | RestoreBatch "string list" | RestoreComplete ui_result | RestorationError string | JotaiReset

fun jotaiActions :: "jotai_call \<Rightarrow> restoration_event" where
  "jotaiActions RestoreStart = EvChecking"
| "jotaiActions (RestoreBatch ks) = EvNeedsRestore ks"
| "jotaiActions (RestoreComplete r) = EvRestored r"
| "jotaiActions (RestorationError e) = EvError e"
| "jotaiActions JotaiReset = EvReset"

definition jotai_applyEvent :: "restoration_slice \<Rightarrow> restoration_event \<Rightarrow> restoration_slice" where
  "jotai_applyEvent s e = (case e of
     EvChecking \<Rightarrow> s\<lparr>rs_isChecking := True, rs_error := None\<rparr>
   | EvNeedsRestore ks \<Rightarrow> s\<lparr>rs_isChecking := False, rs_needsRestore := True, rs_archivedKeys := ks\<rparr>
   | EvExecuting \<Rightarrow> s\<lparr>rs_isExecuting := True\<rparr>
   | EvRestored r \<Rightarrow> s\<lparr>rs_isExecuting := False, rs_needsRestore := False, rs_lastResult := Some r\<rparr>
   | EvError m \<Rightarrow> s\<lparr>rs_isChecking := False, rs_isExecuting := False, rs_error := Some m\<rparr>
   | EvReset \<Rightarrow> initialRestorationSlice)"

section \<open>The list of wallets\<close>

text \<open>
  Asking the wallets whether they are available is one round per list of wallets; a round that answers after the list
  has changed is dropped. \<open>aw_round\<close> numbers the rounds.
\<close>

record wallet_list =
  aw_wallets :: "string list"
  aw_round :: nat
  aw_availability :: "(string, bool) js_map"

definition wallets_changed :: "string list \<Rightarrow> wallet_list \<Rightarrow> wallet_list" where
  "wallets_changed ws s = s\<lparr>aw_wallets := ws, aw_round := aw_round s + 1\<rparr>"

definition round_settled :: "nat \<Rightarrow> bool list \<Rightarrow> wallet_list \<Rightarrow> wallet_list" where
  "round_settled n answers s = (if n \<noteq> aw_round s then s
     else s\<lparr>aw_availability := fold (\<lambda>(w, b) m. jset m w b) (zip (aw_wallets s) answers) []\<rparr>)"

definition useWallets :: "wallet_list \<Rightarrow> (string \<times> bool) list" where
  "useWallets s = map (\<lambda>w. (w, case jget (aw_availability s) w of None \<Rightarrow> False | Some b \<Rightarrow> b)) (aw_wallets s)"

section \<open>Properties\<close>

text \<open>What the client and the signer were asked, without the callbacks.\<close>

definition asked :: "ui_call \<Rightarrow> bool" where
  "asked c = (case c of CallSimulate x \<Rightarrow> True | CallBuild ks a \<Rightarrow> True | CallExecute r x \<Rightarrow> True | CallSign x \<Rightarrow> True | _ \<Rightarrow> False)"

definition without_callbacks :: "ui_state \<Rightarrow> 'a \<times> ui_state \<Rightarrow> 'a \<times> ui_state" where
  "without_callbacks s p = (fst p, (snd p)\<lparr>ui_log := ui_log s @ filter asked (drop (length (ui_log s)) (ui_log (snd p)))\<rparr>)"

lemmas binding_eval = svelte_checkTransaction_def svelte_executeWithRestore_def svelte_sign_only_def svelte_restore_def
  svelte_finish_def svelte_failed_def angular_checkTransaction_def angular_executeWithRestore_def angular_run_def
  angular_unconfigured_def ui_checkTransaction_def ui_executeWithRestore_def sign_only_def restore_and_execute_def
  wrapped_error_def ui_eval

lemma svelte_check: "svelte_checkTransaction c tx s = ui_checkTransaction SvelteBinding (Some c) tx s"
  by (cases "uc_simulate c tx") (auto simp: binding_eval split: prod.split)

lemma svelte_execute: "svelte_executeWithRestore c tx s = ui_executeWithRestore SvelteBinding (Some c) tx s"
proof (cases "uc_simulate c tx")
  case (Inr r)
  then show ?thesis by (cases r) (auto simp: binding_eval split: sum.split)
qed (simp add: binding_eval)

lemma angular_check: "angular_checkTransaction client tx s = ui_checkTransaction AngularBinding client tx s"
proof (cases client)
  case (Some c)
  then show ?thesis by (cases "uc_simulate c tx") (auto simp: binding_eval split: prod.split)
qed (simp add: binding_eval)

lemma angular_execute: "angular_executeWithRestore client tx s = ui_executeWithRestore AngularBinding client tx s"
proof (cases client)
  case (Some c)
  show ?thesis
  proof (cases "uc_simulate c tx")
    case (Inr r)
    then show ?thesis using Some by (cases r) (auto simp: binding_eval split: sum.split)
  qed (simp add: Some binding_eval)
qed (simp add: binding_eval)

lemma svelte_is_vue:
  "ui_checkTransaction SvelteBinding = ui_checkTransaction VueBinding"
  "ui_executeWithRestore SvelteBinding = ui_executeWithRestore VueBinding"
proof -
  have tell: "ui_tell SvelteBinding = ui_tell VueBinding" by (rule ext) (simp add: ui_tell_def)
  have failed: "ui_failed SvelteBinding = ui_failed VueBinding" by (rule ext) (simp add: ui_failed_def tell)
  have sign: "sign_only SvelteBinding = sign_only VueBinding" by (intro ext) (simp add: sign_only_def tell)
  have restore: "restore_and_execute SvelteBinding = restore_and_execute VueBinding"
    by (intro ext) (simp add: restore_and_execute_def tell)
  show "ui_checkTransaction SvelteBinding = ui_checkTransaction VueBinding"
    by (intro ext) (unfold ui_checkTransaction_def tell failed, rule refl)
  show "ui_executeWithRestore SvelteBinding = ui_executeWithRestore VueBinding"
    by (intro ext) (unfold ui_executeWithRestore_def failed sign restore, rule refl)
qed

lemma callbacks_only_differ:
  "ui_checkTransaction AngularBinding (Some c) tx s = without_callbacks s (ui_checkTransaction VueBinding (Some c) tx s)"
  "ui_executeWithRestore AngularBinding (Some c) tx s = without_callbacks s (ui_executeWithRestore VueBinding (Some c) tx s)"
proof -
  show "ui_checkTransaction AngularBinding (Some c) tx s = without_callbacks s (ui_checkTransaction VueBinding (Some c) tx s)"
    by (cases "uc_simulate c tx") (simp_all add: binding_eval without_callbacks_def asked_def split: prod.split)
  show "ui_executeWithRestore AngularBinding (Some c) tx s = without_callbacks s (ui_executeWithRestore VueBinding (Some c) tx s)"
  proof (cases "uc_simulate c tx")
    case (Inr r)
    obtain needs ks where r: "r = (needs, ks)" by (cases r)
    show ?thesis
    proof (cases needs)
      case True
      then show ?thesis using Inr r
        by (cases "uc_build c ks (uc_parseSource c tx)"; cases "uc_execute c (projr (uc_build c ks (uc_parseSource c tx))) tx")
          (simp_all add: binding_eval without_callbacks_def asked_def)
    next
      case False
      then show ?thesis using Inr r
        by (cases "uc_sign c tx") (simp_all add: binding_eval without_callbacks_def asked_def)
    qed
  qed (simp add: binding_eval without_callbacks_def asked_def)
qed

text \<open>
  C40: the Svelte stores do what the Vue composable does, call for call, and so does the Angular service apart from the
  callbacks it does not have; a service that was not configured rejects and shows that, and asks nobody.
\<close>

theorem bindings_agree:
  "svelte_checkTransaction c tx s = ui_checkTransaction VueBinding (Some c) tx s \<and>
   svelte_executeWithRestore c tx s = ui_executeWithRestore VueBinding (Some c) tx s \<and>
   angular_checkTransaction (Some c) tx s = without_callbacks s (ui_checkTransaction VueBinding (Some c) tx s) \<and>
   angular_executeWithRestore (Some c) tx s = without_callbacks s (ui_executeWithRestore VueBinding (Some c) tx s) \<and>
   ui_log (snd (angular_executeWithRestore None tx s)) = ui_log s \<and>
   svelte_reset s = ui_reset s \<and> angular_reset s = ui_reset s"
  by (simp add: svelte_check svelte_execute angular_check angular_execute callbacks_only_differ svelte_is_vue)
     (simp add: svelte_reset_def angular_reset_def ui_reset_def binding_eval)

text \<open>The three reducers of the React package compute the same state, and the Jotai actions reach every event but one.\<close>

lemma jotai_agrees:
  "jotai_applyEvent s e = reduceRestoration s e" "restorationReducer (Some s) (Some (eventToAction e)) = jotai_applyEvent s e"
  "(\<exists>c. jotaiActions c = e) \<longleftrightarrow> e \<noteq> EvExecuting"
proof -
  show "jotai_applyEvent s e = reduceRestoration s e" by (cases e) (simp_all add: jotai_applyEvent_def)
  then show "restorationReducer (Some s) (Some (eventToAction e)) = jotai_applyEvent s e" by (simp add: reducers_agree)
  show "(\<exists>c. jotaiActions c = e) \<longleftrightarrow> e \<noteq> EvExecuting"
  proof (cases e)
    case EvExecuting
    have "jotaiActions c \<noteq> EvExecuting" for c by (cases c) simp_all
    then show ?thesis using EvExecuting by simp
  qed (metis jotaiActions.simps restoration_event.distinct restoration_event.simps)+
qed

text \<open>A round shows the answers of its own wallets; one that comes too late changes nothing.\<close>

lemma late_round_dropped:
  "n \<noteq> aw_round s \<Longrightarrow> useWallets (round_settled n answers s) = useWallets s"
  "distinct (aw_wallets s) \<Longrightarrow> length answers = length (aw_wallets s) \<Longrightarrow>
    useWallets (round_settled (aw_round s) answers s) = zip (aw_wallets s) answers"
proof -
  show "n \<noteq> aw_round s \<Longrightarrow> useWallets (round_settled n answers s) = useWallets s" by (simp add: round_settled_def)
  have get: "jget (fold (\<lambda>(w, b) m. jset m w b) ps m0) w = (case map_of ps w of None \<Rightarrow> jget m0 w | Some b \<Rightarrow> Some b)"
    if "distinct (map fst ps)" for ps :: "(string \<times> bool) list" and m0 w
    using that
  proof (induction ps arbitrary: m0)
    case (Cons p ps)
    obtain a b where p: "p = (a, b)" by force
    have "map_of ps a = None" using Cons.prems p by (simp add: map_of_eq_None_iff)
    then show ?case using Cons p by (auto simp: jget_set split: option.splits)
  qed simp
  assume ws: "distinct (aw_wallets s)" "length answers = length (aw_wallets s)"
  then show "useWallets (round_settled (aw_round s) answers s) = zip (aw_wallets s) answers"
    by (auto simp: useWallets_def round_settled_def get map_of_zip_nth intro!: nth_equalityI)
qed

end
