(* ===== verification/VueListeners.thy ===== *)
theory VueListeners
  imports Prelude
begin

text \<open>
  Listeners of a Vue app (\<open>packages/vue/src/plugin.ts\<close>): \<open>addAppListener\<close> attaches a listener to the window and keeps a
  record under the app, the plugin wraps \<open>unmount\<close> to detach what was recorded. Of an event target the model has
  what the DOM standard says: a listener is identified by event type, function and capture flag, attaching it twice
  has no effect, and it is detached by the same three.
\<close>

section \<open>The model\<close>

type_synonym dom_listener = "string \<times> nat \<times> bool"

record vue_dom =
  vd_target :: bool
  vd_removable :: bool
  vd_attached :: "dom_listener list"
  vd_appListeners :: "(nat, dom_listener list) js_map"
  vd_wrapped :: "nat list"

text \<open>\<open>vd_target\<close>: there is a target with \<open>addEventListener\<close>; \<open>vd_wrapped\<close>: an app once per installed wrapper.\<close>

definition dom_attach :: "dom_listener \<Rightarrow> vue_dom \<Rightarrow> vue_dom" where
  "dom_attach l d = (if l \<in> set (vd_attached d) then d else d\<lparr>vd_attached := vd_attached d @ [l]\<rparr>)"

definition dom_detach :: "dom_listener \<Rightarrow> vue_dom \<Rightarrow> vue_dom" where
  "dom_detach l d = d\<lparr>vd_attached := filter (\<lambda>m. m \<noteq> l) (vd_attached d)\<rparr>"

definition addAppListener :: "nat \<Rightarrow> dom_listener \<Rightarrow> vue_dom \<Rightarrow> vue_dom" where
  "addAppListener app l d =
    (if \<not> vd_target d then d
     else case jget (vd_appListeners d) app of
         None \<Rightarrow> d
       | Some existing \<Rightarrow> (dom_attach l d)\<lparr>vd_appListeners := jset (vd_appListeners d) app (existing @ [l])\<rparr>)"

definition cleanupAppListeners :: "nat \<Rightarrow> vue_dom \<Rightarrow> vue_dom" where
  "cleanupAppListeners app d = (case jget (vd_appListeners d) app of
     None \<Rightarrow> d
   | Some ls \<Rightarrow> (fold (\<lambda>l d. if vd_removable d then dom_detach l d else d) ls d)\<lparr>vd_appListeners := jset (vd_appListeners d) app []\<rparr>)"

definition vue_install :: "nat \<Rightarrow> vue_dom \<Rightarrow> vue_dom" where
  "vue_install app d = d\<lparr>vd_appListeners := jset (vd_appListeners d) app [], vd_wrapped := app # vd_wrapped d\<rparr>"

text \<open>Every wrapper cleans up and calls the one installed before it.\<close>

definition vue_unmount :: "nat \<Rightarrow> vue_dom \<Rightarrow> vue_dom" where
  "vue_unmount app d = (cleanupAppListeners app ^^ length (filter (\<lambda>a. a = app) (vd_wrapped d))) d"

datatype vue_op = VueInstall nat | VueListen nat dom_listener | VueUnmount nat | DomAttach dom_listener | DomDetach dom_listener

fun vue_step :: "vue_op \<Rightarrow> vue_dom \<Rightarrow> vue_dom" where
  "vue_step (VueInstall a) d = vue_install a d"
| "vue_step (VueListen a l) d = addAppListener a l d"
| "vue_step (VueUnmount a) d = vue_unmount a d"
| "vue_step (DomAttach l) d = dom_attach l d"
| "vue_step (DomDetach l) d = dom_detach l d"

definition vue_run :: "vue_op list \<Rightarrow> vue_dom \<Rightarrow> vue_dom" where
  "vue_run ops d = fold vue_step ops d"

section \<open>Lemmas\<close>

lemma dom_simps [simp]:
  "vd_target (dom_attach l d) = vd_target d" "vd_removable (dom_attach l d) = vd_removable d"
  "vd_appListeners (dom_attach l d) = vd_appListeners d" "vd_wrapped (dom_attach l d) = vd_wrapped d"
  "vd_target (dom_detach l d) = vd_target d" "vd_removable (dom_detach l d) = vd_removable d"
  "vd_appListeners (dom_detach l d) = vd_appListeners d" "vd_wrapped (dom_detach l d) = vd_wrapped d"
  by (simp_all add: dom_attach_def dom_detach_def)

lemma detach_fold:
  "vd_removable d \<Longrightarrow> fold (\<lambda>l d. if vd_removable d then dom_detach l d else d) ls d =
     d\<lparr>vd_attached := filter (\<lambda>m. m \<notin> set ls) (vd_attached d)\<rparr>"
proof (induction ls arbitrary: d)
  case (Cons l ls)
  then show ?case by (simp add: dom_detach_def conj_commute)
qed simp

lemma cleanup_eq:
  "vd_removable d \<Longrightarrow> cleanupAppListeners app d = (case jget (vd_appListeners d) app of None \<Rightarrow> d
     | Some ls \<Rightarrow> d\<lparr>vd_attached := filter (\<lambda>m. m \<notin> set ls) (vd_attached d), vd_appListeners := jset (vd_appListeners d) app []\<rparr>)"
  by (simp add: cleanupAppListeners_def detach_fold split: option.split)

lemma jset_twice: "jset (jset m k a) k b = jset m k b"
  by (induction m) auto

lemma cleanup_twice: "vd_removable d \<Longrightarrow> cleanupAppListeners app (cleanupAppListeners app d) = cleanupAppListeners app d"
  by (auto simp: cleanup_eq jget_set jset_twice split: option.split)

lemma cleanup_pow: "vd_removable d \<Longrightarrow> 0 < n \<Longrightarrow> (cleanupAppListeners app ^^ n) d = cleanupAppListeners app d"
proof (induction n)
  case (Suc n)
  then show ?case by (cases n) (simp_all add: cleanup_twice)
qed simp

lemma unmount_eq:
  "vd_removable d \<Longrightarrow> vue_unmount app d = (if app \<in> set (vd_wrapped d) then cleanupAppListeners app d else d)"
proof -
  assume "vd_removable d"
  moreover have "0 < length (filter (\<lambda>a. a = app) (vd_wrapped d)) \<longleftrightarrow> app \<in> set (vd_wrapped d)"
    by (auto simp: filter_empty_conv)
  moreover have "filter (\<lambda>a. a = app) (vd_wrapped d) = []" if "app \<notin> set (vd_wrapped d)"
    using that by (auto simp: filter_empty_conv)
  ultimately show ?thesis using cleanup_pow by (auto simp: vue_unmount_def)
qed

text \<open>
  In a run where an app is installed once: a listener of the app that is attached is recorded, unless something else
  attached it.
\<close>

definition attached_otherwise :: "nat \<Rightarrow> vue_op list \<Rightarrow> dom_listener set" where
  "attached_otherwise app ops = {l. DomAttach l \<in> set ops \<or> (\<exists>a. a \<noteq> app \<and> VueListen a l \<in> set ops)}"

definition accounted :: "nat \<Rightarrow> dom_listener set \<Rightarrow> vue_dom \<Rightarrow> bool" where
  "accounted app others d \<longleftrightarrow> vd_removable d \<and> app \<in> set (vd_wrapped d) \<and>
    (\<exists>ls. jget (vd_appListeners d) app = Some ls \<and> set (vd_attached d) \<subseteq> set ls \<union> others)"

lemma accounted_cleanup: "accounted app others d \<Longrightarrow> accounted app others (cleanupAppListeners a d)"
  by (auto simp: accounted_def cleanup_eq jget_set split: option.split)

lemma accounted_step:
  assumes "accounted app others d" and "p \<noteq> VueInstall app"
    and "\<And>l. p = DomAttach l \<Longrightarrow> l \<in> others" and "\<And>a l. p = VueListen a l \<Longrightarrow> a \<noteq> app \<Longrightarrow> l \<in> others"
  shows "accounted app others (vue_step p d)"
proof (cases p)
  case (VueInstall a)
  then show ?thesis using assms(1,2) by (auto simp: accounted_def vue_install_def jget_set)
next
  case (VueListen a l)
  then show ?thesis using assms(1,4)
    by (auto simp: accounted_def addAppListener_def dom_attach_def jget_set split: option.split)
next
  case (VueUnmount a)
  then show ?thesis using assms(1) accounted_cleanup [OF assms(1)] unmount_eq [of d a] by (simp add: accounted_def)
next
  case (DomAttach l)
  then show ?thesis using assms(1,3) by (auto simp: accounted_def dom_attach_def)
next
  case (DomDetach l)
  then show ?thesis using assms(1) by (auto simp: accounted_def dom_detach_def)
qed

lemma accounted_run:
  "accounted app others d \<Longrightarrow> VueInstall app \<notin> set ops \<Longrightarrow> attached_otherwise app ops \<subseteq> others \<Longrightarrow> accounted app others (vue_run ops d)"
proof (induction ops arbitrary: d)
  case (Cons p ops)
  have "accounted app others (vue_step p d)"
    by (rule accounted_step) (use Cons.prems in \<open>auto simp: attached_otherwise_def\<close>)
  then show ?case using Cons.IH [of "vue_step p d"] Cons.prems by (auto simp: vue_run_def attached_otherwise_def)
qed (simp add: vue_run_def)

section \<open>Properties\<close>

text \<open>
  Once an app with the plugin is unmounted, nothing is attached but what was attached before the plugin was
  installed or by somebody else, however installing, listening and unmounting of other apps interleave, as long as
  the plugin is not installed in the app a second time.
\<close>

theorem unmount_releases_listeners:
  assumes "vd_removable d" and "VueInstall app \<notin> set ops"
  shows "set (vd_attached (vue_unmount app (vue_run ops (vue_install app d)))) \<subseteq> set (vd_attached d) \<union> attached_otherwise app ops"
proof -
  let ?others = "set (vd_attached d) \<union> attached_otherwise app ops"
  let ?e = "vue_run ops (vue_install app d)"
  have "accounted app ?others (vue_install app d)" using assms(1) by (simp add: accounted_def vue_install_def jget_set)
  then have acc: "accounted app ?others ?e" using assms(2) by (rule accounted_run) simp
  then have "vue_unmount app ?e = cleanupAppListeners app ?e" by (simp add: accounted_def unmount_eq)
  then show ?thesis using acc by (auto simp: accounted_def cleanup_eq)
qed

theorem unmount_releases_listeners_witness:
  "vd_attached (vue_unmount 1 (vue_run [VueListen 1 (''online'', 7, False), VueInstall 2, VueListen 2 (''online'', 8, False)]
     (vue_install 1 \<lparr>vd_target = True, vd_removable = True, vd_attached = [], vd_appListeners = [], vd_wrapped = []\<rparr>))) \<noteq> [(''online'', 7, False)] \<and>
   set (vd_attached (vue_unmount 1 (vue_run [VueListen 1 (''online'', 7, False), VueInstall 2, VueListen 2 (''online'', 8, False)]
     (vue_install 1 \<lparr>vd_target = True, vd_removable = True, vd_attached = [], vd_appListeners = [], vd_wrapped = []\<rparr>)))) \<subseteq> {(''online'', 8, False)}"
proof -
  let ?d = "\<lparr>vd_target = True, vd_removable = True, vd_attached = [], vd_appListeners = [], vd_wrapped = []\<rparr>"
  let ?ops = "[VueListen 1 (''online'', 7, False), VueInstall 2, VueListen 2 (''online'', 8, False)]"
  have "attached_otherwise 1 ?ops = {(''online'', 8, False)}" by (auto simp: attached_otherwise_def)
  then have sub: "set (vd_attached (vue_unmount 1 (vue_run ?ops (vue_install 1 ?d)))) \<subseteq> {(''online'', 8, False)}"
    using unmount_releases_listeners [of ?d 1 ?ops] by simp
  have "attached \<noteq> [(''online'', 7, False)]" if "set attached \<subseteq> {(''online'', 8, False)}" for attached :: "dom_listener list"
    using that by auto
  from this [OF sub] sub show ?thesis by (rule conjI)
qed

text \<open>
  The clean-up leaves an empty record behind, so a listener added after the app was unmounted is attached, and no
  \<open>unmount\<close> will come. Installing a second time drops the record of what was attached before.
\<close>

lemma late_listener_attached:
  assumes "vd_target d" and "vd_removable d" and "app \<in> set (vd_wrapped d)" and "jget (vd_appListeners d) app = Some ls"
  shows "l \<in> set (vd_attached (addAppListener app l (vue_unmount app d)))"
  using assms by (simp add: unmount_eq cleanup_eq addAppListener_def jget_set dom_attach_def)

end
