(* ===== verification/Progress.thy ===== *)
theory Progress
  imports Values
begin

text \<open>
  The progress hook of the React package (\<open>packages/react/src/hooks/useProgress.ts\<close>). The calls of the
  application, the timer and the mounting of the component are the events of a step function that carries the
  clock readings; \<open>setTimeout\<close> fires no earlier than it was asked to. \<open>throttleMs\<close> is a whole number of
  milliseconds and stays the same for the life of a component.
\<close>

section \<open>State\<close>

record progress_state =
  ps_value :: js_number
  ps_message :: "string option"
  ps_done :: bool

text \<open>The log holds what was committed to React: when, by which operation, and the state.\<close>

datatype commit_cause = ByReport | ByComplete | ByReset

record progress =
  pr_state :: progress_state
  pr_mounted :: bool
  pr_lastCommit :: int
  pr_pending :: "progress_state option"
  pr_timer :: "int option"
  pr_log :: "(int \<times> commit_cause \<times> progress_state) list"

fun progress_clamp :: "js_number \<Rightarrow> js_number" where
  "progress_clamp NaN = Fin 0"
| "progress_clamp NegInf = Fin 0"
| "progress_clamp PosInf = Fin 100"
| "progress_clamp (Fin q) = (if q < 0 then Fin 0 else if 100 < q then Fin 100 else Fin q)"

definition initial_progress :: "js_number \<Rightarrow> progress_state" where
  "initial_progress initialValue = \<lparr>ps_value = progress_clamp initialValue, ps_message = None, ps_done = False\<rparr>"

definition useProgress :: "js_number \<Rightarrow> progress" where
  "useProgress initialValue = \<lparr>pr_state = initial_progress initialValue, pr_mounted = True, pr_lastCommit = 0,
     pr_pending = None, pr_timer = None, pr_log = []\<rparr>"

section \<open>Operations\<close>

definition clearTimer :: "progress \<Rightarrow> progress" where
  "clearTimer s = s\<lparr>pr_timer := None\<rparr>"

definition commit_state :: "commit_cause \<Rightarrow> int \<Rightarrow> progress_state \<Rightarrow> progress \<Rightarrow> progress" where
  "commit_state cause now p s = s\<lparr>pr_lastCommit := now, pr_state := p, pr_log := pr_log s @ [(now, cause, p)]\<rparr>"

definition flush_pending :: "commit_cause \<Rightarrow> int \<Rightarrow> progress \<Rightarrow> progress" where
  "flush_pending cause now s = (let t = clearTimer s in case pr_pending t of
     None \<Rightarrow> t
   | Some pending \<Rightarrow> let u = t\<lparr>pr_pending := None\<rparr> in if \<not> pr_mounted u then u else commit_state cause now pending u)"

definition schedule :: "int \<Rightarrow> int \<Rightarrow> progress_state \<Rightarrow> progress \<Rightarrow> progress" where
  "schedule throttleMs now p s =
    (if \<not> pr_mounted s then s
     else if throttleMs \<le> 0 then commit_state ByReport now p s
     else let t = s\<lparr>pr_pending := Some p\<rparr>; elapsed = now - pr_lastCommit t
          in if throttleMs \<le> elapsed then flush_pending ByReport now t
             else case pr_timer t of
                 None \<Rightarrow> t\<lparr>pr_timer := Some (now + (throttleMs - elapsed))\<rparr>
               | Some due \<Rightarrow> t)"

definition reported_progress :: "js_number \<Rightarrow> string option \<Rightarrow> progress_state" where
  "reported_progress v m = \<lparr>ps_value = progress_clamp v, ps_message = m, ps_done = False\<rparr>"

definition setProgress :: "int \<Rightarrow> js_number \<Rightarrow> string option \<Rightarrow> int \<Rightarrow> progress \<Rightarrow> progress" where
  "setProgress throttleMs v m now s = schedule throttleMs now (reported_progress v m) s"

definition completed_progress :: "string option \<Rightarrow> progress_state" where
  "completed_progress m = \<lparr>ps_value = Fin 100, ps_message = m, ps_done = True\<rparr>"

definition completeProgress :: "string option \<Rightarrow> int \<Rightarrow> progress \<Rightarrow> progress" where
  "completeProgress m now s = flush_pending ByComplete now (s\<lparr>pr_pending := Some (completed_progress m)\<rparr>)"

definition reset_progress :: "js_number \<Rightarrow> int \<Rightarrow> progress \<Rightarrow> progress" where
  "reset_progress initialValue now s =
    (let t = (clearTimer s)\<lparr>pr_pending := None\<rparr>
     in if \<not> pr_mounted t then t else commit_state ByReset now (initial_progress initialValue) t)"

definition unmount :: "progress \<Rightarrow> progress" where
  "unmount s = (clearTimer (s\<lparr>pr_mounted := False\<rparr>))\<lparr>pr_pending := None\<rparr>"

datatype progress_event =
    SetProgress js_number "string option" int
  | Complete "string option" int
  | ResetProgress int
  | TimerDue int
  | Unmount
  | Remount

text \<open>\<open>None\<close> is a timer that is not armed, or not due.\<close>

fun progress_step :: "int \<Rightarrow> js_number \<Rightarrow> progress_event \<Rightarrow> progress \<Rightarrow> progress option" where
  "progress_step throttleMs v0 (SetProgress v m now) s = Some (setProgress throttleMs v m now s)"
| "progress_step throttleMs v0 (Complete m now) s = Some (completeProgress m now s)"
| "progress_step throttleMs v0 (ResetProgress now) s = Some (reset_progress v0 now s)"
| "progress_step throttleMs v0 (TimerDue now) s =
    (case pr_timer s of None \<Rightarrow> None | Some due \<Rightarrow> if now < due then None else Some (flush_pending ByReport now s))"
| "progress_step throttleMs v0 Unmount s = Some (unmount s)"
| "progress_step throttleMs v0 Remount s = Some (s\<lparr>pr_mounted := True\<rparr>)"

fun progress_run :: "int \<Rightarrow> js_number \<Rightarrow> progress_event list \<Rightarrow> progress \<Rightarrow> progress option" where
  "progress_run d v0 [] s = Some s"
| "progress_run d v0 (e # es) s = (case progress_step d v0 e s of None \<Rightarrow> None | Some t \<Rightarrow> progress_run d v0 es t)"

section \<open>The invariant of the refs\<close>

text \<open>Commits of reported values, those of the timer included, keep the distance to the commit before them.\<close>

fun spaced :: "int \<Rightarrow> int option \<Rightarrow> (int \<times> commit_cause \<times> progress_state) list \<Rightarrow> bool" where
  "spaced d before [] = True"
| "spaced d before ((n, cause, p) # cs) =
    ((case before of None \<Rightarrow> True | Some b \<Rightarrow> cause = ByReport \<longrightarrow> d \<le> n - b) \<and> spaced d (Some n) cs)"

definition last_commit :: "int option \<Rightarrow> (int \<times> commit_cause \<times> progress_state) list \<Rightarrow> int option" where
  "last_commit before cs = (if cs = [] then before else Some (fst (last cs)))"

lemma spaced_snoc: "spaced d before (cs @ [(n, cause, p)]) \<longleftrightarrow> spaced d before cs \<and>
    (case last_commit before cs of None \<Rightarrow> True | Some b \<Rightarrow> cause = ByReport \<longrightarrow> d \<le> n - b)"
  by (induction cs arbitrary: before) (auto simp: last_commit_def)

definition refs_ok :: "int \<Rightarrow> progress \<Rightarrow> bool" where
  "refs_ok d s \<longleftrightarrow>
    (pr_pending s \<noteq> None \<longrightarrow> pr_mounted s \<and> pr_timer s \<noteq> None) \<and>
    (pr_timer s = None \<or> pr_timer s = Some (pr_lastCommit s + d)) \<and>
    (case last_commit None (pr_log s) of None \<Rightarrow> True | Some n \<Rightarrow> n = pr_lastCommit s) \<and>
    spaced d None (pr_log s)"

lemmas progress_ops = setProgress_def schedule_def completeProgress_def reset_progress_def unmount_def flush_pending_def clearTimer_def
  commit_state_def Let_def

lemma last_commit_snoc [simp]: "last_commit b (cs @ [x]) = Some (fst x)"
  by (simp add: last_commit_def)

lemma refs_new: "refs_ok d (useProgress v)"
  by (simp add: refs_ok_def useProgress_def last_commit_def)

lemma refs_flush:
  assumes "case last_commit None (pr_log s) of None \<Rightarrow> True | Some n \<Rightarrow> n = pr_lastCommit s" and "spaced d None (pr_log s)"
    and "cause = ByReport \<Longrightarrow> pr_pending s \<noteq> None \<Longrightarrow> d \<le> now - pr_lastCommit s"
  shows "refs_ok d (flush_pending cause now s)"
proof (cases "pr_pending s = None \<or> \<not> pr_mounted s")
  case True
  then show ?thesis using assms(1,2)
    by (cases "pr_pending s") (simp_all add: refs_ok_def flush_pending_def clearTimer_def Let_def cong: option.case_cong)
next
  case False
  then obtain p where "pr_pending s = Some p" "pr_mounted s" by auto
  then show ?thesis using assms
    by (cases "last_commit None (pr_log s)")
      (simp_all add: refs_ok_def flush_pending_def clearTimer_def commit_state_def spaced_snoc Let_def)
qed

lemma refs_schedule:
  assumes "0 < d" and ok: "refs_ok d s"
  shows "refs_ok d (schedule d now p s)"
proof -
  let ?t = "s\<lparr>pr_pending := Some p\<rparr>"
  have flushed: "refs_ok d (flush_pending ByReport now ?t)" if "d \<le> now - pr_lastCommit s"
    by (rule refs_flush) (use ok that in \<open>simp_all add: refs_ok_def cong: option.case_cong\<close>)
  show ?thesis
  proof (cases "pr_mounted s \<and> \<not> d \<le> now - pr_lastCommit s")
    case True
    then show ?thesis using assms by (cases "pr_timer s") (simp_all add: refs_ok_def schedule_def Let_def cong: option.case_cong)
  next
    case False
    then show ?thesis using assms flushed by (cases "pr_mounted s") (simp_all add: schedule_def Let_def)
  qed
qed

lemma refs_step:
  assumes d: "0 < d" and ok: "refs_ok d s" and step: "progress_step d v0 e s = Some t"
  shows "refs_ok d t"
proof (cases e)
  case (SetProgress v m now)
  then show ?thesis using refs_schedule [OF d ok] step by (auto simp: setProgress_def)
next
  case (Complete m now)
  have "refs_ok d (completeProgress m now s)"
    unfolding completeProgress_def by (rule refs_flush) (use ok in \<open>simp_all add: refs_ok_def cong: option.case_cong\<close>)
  then show ?thesis using Complete step by simp
next
  case (TimerDue now)
  then obtain due where due: "pr_timer s = Some due" "\<not> now < due" "t = flush_pending ByReport now s"
    using step by (auto split: option.splits if_splits)
  have "refs_ok d (flush_pending ByReport now s)"
    by (rule refs_flush) (use ok due in \<open>simp_all add: refs_ok_def cong: option.case_cong\<close>)
  then show ?thesis using due by simp
next
  case (ResetProgress now)
  have "refs_ok d (reset_progress v0 now s)"
    using ok by (cases "pr_mounted s"; cases "last_commit None (pr_log s)")
      (simp_all add: reset_progress_def clearTimer_def commit_state_def Let_def refs_ok_def spaced_snoc)
  then show ?thesis using ResetProgress step by simp
qed (use ok step in \<open>auto simp: unmount_def clearTimer_def refs_ok_def cong: option.case_cong\<close>)

lemma refs_run: "0 < d \<Longrightarrow> refs_ok d s \<Longrightarrow> progress_run d v0 es s = Some t \<Longrightarrow> refs_ok d t"
  by (induction es arbitrary: s) (auto split: option.splits dest: refs_step)

section \<open>What a component was told\<close>

definition told_by :: "js_number \<Rightarrow> progress_event \<Rightarrow> progress_state \<Rightarrow> progress_state" where
  "told_by v0 e p = (case e of
     SetProgress v m now \<Rightarrow> reported_progress v m
   | Complete m now \<Rightarrow> completed_progress m
   | ResetProgress now \<Rightarrow> initial_progress v0
   | _ \<Rightarrow> p)"

definition newest :: "progress \<Rightarrow> progress_state" where
  "newest s = (case pr_pending s of None \<Rightarrow> pr_state s | Some p \<Rightarrow> p)"

lemma newest_step:
  assumes "pr_mounted s" and "e \<noteq> Unmount" and "0 < d" and "progress_step d v0 e s = Some t"
  shows "newest t = told_by v0 e (newest s) \<and> pr_mounted t"
  using assms by (cases e) (auto simp: newest_def told_by_def progress_ops split: option.splits if_splits)

lemma newest_run:
  "pr_mounted s \<Longrightarrow> 0 < d \<Longrightarrow> Unmount \<notin> set es \<Longrightarrow> progress_run d v0 es s = Some t \<Longrightarrow>
   newest t = foldl (\<lambda>p e. told_by v0 e p) (newest s) es \<and> pr_mounted t"
proof (induction es arbitrary: s)
  case Nil
  then show ?case by simp
next
  case (Cons e es)
  then obtain u where "progress_step d v0 e s = Some u" "progress_run d v0 es u = Some t" by (auto split: option.splits)
  then show ?case using newest_step [of s e d v0 u] Cons by auto
qed

section \<open>Properties\<close>

text \<open>
  In any run, with any clock readings, a reported value is rendered no earlier than \<open>throttleMs\<close> after the
  commit before it, completions and resets alone may come sooner, and a component that is not mounted is told
  nothing.
\<close>

theorem progress_throttled:
  assumes "0 < d" and "progress_run d v0 es (useProgress v0) = Some s"
  shows "spaced d None (pr_log s) \<and>
    (\<not> pr_mounted s \<and> progress_step d v0 e s = Some t \<longrightarrow> pr_state t = pr_state s \<and> pr_log t = pr_log s)"
proof
  show "spaced d None (pr_log s)" using refs_run [OF assms(1) refs_new assms(2)] by (simp add: refs_ok_def)
next
  show "\<not> pr_mounted s \<and> progress_step d v0 e s = Some t \<longrightarrow> pr_state t = pr_state s \<and> pr_log t = pr_log s"
    by (cases e) (auto simp: progress_ops split: option.splits if_splits)
qed

definition burst :: "progress_event list" where
  "burst = [SetProgress (Fin 10) None 1000, SetProgress (Fin 20) None 1010, SetProgress (Fin 150) None 1020]"

theorem progress_throttled_witness:
  "\<exists>s. progress_run 100 (Fin 0) (burst @ [TimerDue 1100]) (useProgress (Fin 0)) = Some s \<and> spaced 100 None (pr_log s) \<and>
     map (\<lambda>(n, c, p). (n, ps_value p)) (pr_log s) = [(1000, Fin 10), (1100, Fin 100)]"
proof -
  obtain s where run: "progress_run 100 (Fin 0) (burst @ [TimerDue 1100]) (useProgress (Fin 0)) = Some s"
    and log: "map (\<lambda>(n, c, p). (n, ps_value p)) (pr_log s) = [(1000, Fin 10), (1100, Fin 100)]"
    by (simp add: burst_def useProgress_def progress_ops reported_progress_def)
  show ?thesis using progress_throttled [OF _ run, of Unmount s] run log by simp
qed

text \<open>
  C28: no value is lost to the throttling: while the component stays mounted, what it shows or holds back is what
  the last call said, and a value held back has a timer armed, due \<open>throttleMs\<close> after the last commit, that shows
  it.
\<close>

theorem progress_shows_latest:
  assumes "0 < d" and "Unmount \<notin> set es" and "progress_run d v0 es (useProgress v0) = Some s"
  shows "newest s = foldl (\<lambda>p e. told_by v0 e p) (initial_progress v0) es \<and>
    (pr_pending s = None \<or> pr_timer s = Some (pr_lastCommit s + d) \<and>
      (\<forall>now \<ge> pr_lastCommit s + d. \<exists>t. progress_step d v0 (TimerDue now) s = Some t \<and> pr_pending t = None \<and>
         pr_state t = foldl (\<lambda>p e. told_by v0 e p) (initial_progress v0) es))"
proof -
  have new: "newest s = foldl (\<lambda>p e. told_by v0 e p) (initial_progress v0) es"
    using newest_run [OF _ assms] by (simp add: newest_def useProgress_def)
  moreover have "pr_timer s = Some (pr_lastCommit s + d) \<and> pr_mounted s" if "pr_pending s \<noteq> None"
    using refs_run [OF assms(1) refs_new assms(3)] that by (auto simp: refs_ok_def)
  ultimately show ?thesis by (auto simp: newest_def progress_ops)
qed

theorem progress_shows_latest_witness:
  "\<exists>s. progress_run 100 (Fin 0) burst (useProgress (Fin 0)) = Some s \<and> ps_value (pr_state s) = Fin 10 \<and>
     newest s = reported_progress (Fin 150) None"
proof -
  obtain s where run: "progress_run 100 (Fin 0) burst (useProgress (Fin 0)) = Some s" and shown: "ps_value (pr_state s) = Fin 10"
    by (simp add: burst_def useProgress_def progress_ops reported_progress_def)
  show ?thesis using progress_shows_latest [OF _ _ run] run shown by (auto simp: burst_def told_by_def)
qed

end
