(* ===== verification/NativeCrypto.thy ===== *)
theory NativeCrypto
  imports SimCache Values
begin

text \<open>
  The crypto shims of \<open>packages/react-native\<close>: \<open>src/crypto.ts\<close> installs a source of random values in the global
  objects, \<open>src/crypto.expo-crypto.ts\<close> tests that \<open>expo-crypto\<close> can compute SHA-256. The crypto objects are shared
  between the two globals, so they live in a store by address; functions are numbered. Error texts are constructors,
  since some contain characters outside of Latin-1.
\<close>

section \<open>The polyfill\<close>

record js_globals =
  jg_random :: "nat \<Rightarrow> nat option"
  jg_crypto :: "nat option"
  jg_window :: "nat option option"

text \<open>\<open>jg_random a\<close> is \<open>getRandomValues\<close> of the object at \<open>a\<close>; \<open>jg_window\<close> is absent where there is no \<open>window\<close>.\<close>

definition provide_crypto :: "nat \<Rightarrow> js_globals \<Rightarrow> js_globals" where
  "provide_crypto provider g = (case jg_crypto g of
     None \<Rightarrow> g\<lparr>jg_crypto := Some provider\<rparr>
   | Some a \<Rightarrow> (case jg_random g a of
       None \<Rightarrow> g\<lparr>jg_random := (jg_random g)(a := jg_random g provider)\<rparr>
     | Some f \<Rightarrow> g))"

definition share_crypto :: "js_globals \<Rightarrow> js_globals" where
  "share_crypto g = (case jg_window g of Some None \<Rightarrow> g\<lparr>jg_window := Some (jg_crypto g)\<rparr> | _ \<Rightarrow> g)"

definition installCryptoPolyfill :: "nat \<Rightarrow> js_globals \<Rightarrow> js_globals" where
  "installCryptoPolyfill provider g = share_crypto (provide_crypto provider g)"

definition global_random :: "js_globals \<Rightarrow> nat option" where
  "global_random g = Option.bind (jg_crypto g) (jg_random g)"

definition window_random :: "js_globals \<Rightarrow> nat option" where
  "window_random g = Option.bind (Option.bind (jg_window g) (\<lambda>c. c)) (jg_random g)"

text \<open>\<open>require\<close> is looked up at run time; the module may also be given.\<close>

definition syncRequire :: "(string \<Rightarrow> string + 'm) option \<Rightarrow> string \<Rightarrow> string + 'm" where
  "syncRequire req name = (case req of
     None \<Rightarrow> Inl (''Cannot load '' @ [CHR 0x22] @ name @ [CHR 0x22] @ '' synchronously in an ESM build. Fix: import it yourself and pass it in, e.g. provider(await import('' @
       [CHR 0x27] @ name @ [CHR 0x27] @ '')).'')
   | Some f \<Rightarrow> f name)"

definition cryptoProvider :: "string \<Rightarrow> (string \<Rightarrow> string + 'm) option \<Rightarrow> 'm option \<Rightarrow> string + 'm" where
  "cryptoProvider name req given = (case given of Some m \<Rightarrow> Inr m | None \<Rightarrow> syncRequire req name)"

section \<open>The digest test\<close>

record expo_crypto =
  ex_digest :: "(string \<Rightarrow> string + nat list) option"
  ex_digestString :: "(string \<Rightarrow> string + string) option"
  ex_algorithms :: "(string option \<times> string option) option"

text \<open>The pair is \<open>SHA256\<close> and \<open>SHA_256\<close> of \<open>CryptoDigestAlgorithm\<close>; a digest is that of the empty input.\<close>

datatype expo_error =
    ExpoNotInstalled string
  | ExpoNoDigest
  | ExpoUnexpectedAlgorithm string
  | ExpoUnexpectedResult string
  | ExpoCallFailed string
  | ExpoRethrown string

definition SHA256_ALGORITHM_IDS :: "string list" where
  "SHA256_ALGORITHM_IDS = [''SHA-256'', ''SHA256'']"

definition verifyExpoCryptoDigest :: "string + expo_crypto \<Rightarrow> expo_error + unit" where
  "verifyExpoCryptoDigest required = (case required of
     Inl cause \<Rightarrow> Inl (ExpoNotInstalled cause)
   | Inr m \<Rightarrow>
       if ex_digest m = None \<and> ex_digestString m = None then Inl ExpoNoDigest
       else (case ex_algorithms m of
           None \<Rightarrow> Inr ()
         | Some (sha256, sha_256) \<Rightarrow> (case (case sha256 of Some v \<Rightarrow> Some v | None \<Rightarrow> sha_256) of
             None \<Rightarrow> Inr ()
           | Some v \<Rightarrow> if List.member SHA256_ALGORITHM_IDS v then Inr () else Inl (ExpoUnexpectedAlgorithm v))))"

definition EMPTY_SHA256 :: string where
  "EMPTY_SHA256 = ''e3b0c44298fc1c149afbf4c8996fb92427ae41e4649b934ca495991b7852b855''"

definition hex_bytes :: "nat list \<Rightarrow> string" where
  "hex_bytes bs = concat (map (\<lambda>b. padStart 2 (CHR ''0'') (nat_hex b)) bs)"

definition sha_constant :: "expo_crypto \<Rightarrow> string" where
  "sha_constant m = (case ex_algorithms m of Some (Some v, x) \<Rightarrow> v | _ \<Rightarrow> ''SHA-256'')"

text \<open>An error of the module whose text begins like those of this package is rethrown as it is.\<close>

definition expo_failed :: "string \<Rightarrow> expo_error" where
  "expo_failed cause = (if take (length ''[soroban-resurrect]'') cause = ''[soroban-resurrect]'' then ExpoRethrown cause else ExpoCallFailed cause)"

definition verifyExpoCryptoDigestAsync :: "string + expo_crypto \<Rightarrow> expo_error + unit" where
  "verifyExpoCryptoDigestAsync required = (case required of
     Inl cause \<Rightarrow> Inl (ExpoNotInstalled cause)
   | Inr m \<Rightarrow> (case ex_digest m of
       Some digest \<Rightarrow> (case digest (sha_constant m) of
           Inl cause \<Rightarrow> Inl (expo_failed cause)
         | Inr bs \<Rightarrow> if hex_bytes bs = EMPTY_SHA256 then Inr () else Inl (ExpoUnexpectedResult (hex_bytes bs)))
     | None \<Rightarrow> (case ex_digestString m of
         Some digest \<Rightarrow> (case digest (sha_constant m) of
             Inl cause \<Rightarrow> Inl (expo_failed cause)
           | Inr h \<Rightarrow> if js_toLowerCase h = EMPTY_SHA256 then Inr () else Inl (ExpoUnexpectedResult (js_toLowerCase h)))
       | None \<Rightarrow> Inl ExpoNoDigest)))"

section \<open>Properties\<close>

text \<open>
  Where the provider has a source of random values, there is one in the global object afterwards: the one that was
  there, else that of the provider. A \<open>window\<close> without crypto gets the same object, one with crypto keeps its own.
  Installing again, from whatever provider, changes nothing.
\<close>

theorem polyfill_installs:
  assumes "jg_random g provider = Some f"
  shows "global_random (installCryptoPolyfill provider g) = (case global_random g of Some old \<Rightarrow> Some old | None \<Rightarrow> Some f) \<and>
    (jg_window g = Some None \<longrightarrow> jg_window (installCryptoPolyfill provider g) = Some (jg_crypto (installCryptoPolyfill provider g))) \<and>
    (jg_window g \<noteq> Some None \<longrightarrow> jg_window (installCryptoPolyfill provider g) = jg_window g) \<and>
    (\<forall>a x. jg_random g a = Some x \<longrightarrow> jg_random (installCryptoPolyfill provider g) a = Some x) \<and>
    installCryptoPolyfill other (installCryptoPolyfill provider g) = installCryptoPolyfill provider g"
proof -
  define h where "h = provide_crypto provider g"
  have install: "installCryptoPolyfill provider g = share_crypto h" by (simp add: installCryptoPolyfill_def h_def)
  have rand: "global_random h = (case global_random g of Some old \<Rightarrow> Some old | None \<Rightarrow> Some f)"
    using assms by (auto simp: h_def provide_crypto_def global_random_def split: option.split)
  have kept: "jg_window h = jg_window g" "\<forall>a x. jg_random g a = Some x \<longrightarrow> jg_random h a = Some x"
    by (auto simp: h_def provide_crypto_def split: option.split)
  obtain a y where a: "jg_crypto h = Some a" "jg_random h a = Some y"
    using rand by (cases "jg_crypto h") (auto simp: global_random_def split: option.splits)
  have same: "jg_crypto (share_crypto h) = Some a" "jg_random (share_crypto h) = jg_random h" "jg_window (share_crypto h) \<noteq> Some None"
    by (auto simp: share_crypto_def a split: option.split)
  have again: "installCryptoPolyfill other (share_crypto h) = share_crypto h"
    using same a(2) by (simp add: installCryptoPolyfill_def provide_crypto_def share_crypto_def [of "share_crypto h"] split: option.split)
  have "global_random (share_crypto h) = global_random h" using same(1,2) by (simp add: global_random_def a(1))
  moreover have "(jg_window g = Some None \<longrightarrow> jg_window (share_crypto h) = Some (jg_crypto (share_crypto h))) \<and>
      (jg_window g \<noteq> Some None \<longrightarrow> jg_window (share_crypto h) = jg_window g)"
    using kept(1) by (auto simp: share_crypto_def split: option.split)
  ultimately show ?thesis using rand kept(2) same(2) again by (simp add: install)
qed

theorem polyfill_installs_witness:
  "global_random (installCryptoPolyfill 7 \<lparr>jg_random = [7 \<mapsto> 70, 8 \<mapsto> 80], jg_crypto = None, jg_window = Some None\<rparr>) = Some 70 \<and>
   installCryptoPolyfill 8 (installCryptoPolyfill 7 \<lparr>jg_random = [7 \<mapsto> 70, 8 \<mapsto> 80], jg_crypto = None, jg_window = Some None\<rparr>) =
     installCryptoPolyfill 7 \<lparr>jg_random = [7 \<mapsto> 70, 8 \<mapsto> 80], jg_crypto = None, jg_window = Some None\<rparr>"
  using polyfill_installs [of "\<lparr>jg_random = [7 \<mapsto> 70, 8 \<mapsto> 80], jg_crypto = None, jg_window = Some None\<rparr>" 7 70 8]
  by (simp add: global_random_def)

text \<open>
  The two tests: the synchronous one passes where there is a digest function and no odd constant; the other exactly
  where the function the module has, the first of the two, gives the digest of the empty input.
\<close>

theorem digest_tests_exact:
  "(verifyExpoCryptoDigest (Inr m) = Inr () \<longleftrightarrow> (ex_digest m \<noteq> None \<or> ex_digestString m \<noteq> None) \<and>
      (\<forall>x y v. ex_algorithms m = Some (x, y) \<and> (x = Some v \<or> x = None \<and> y = Some v) \<longrightarrow> v \<in> set SHA256_ALGORITHM_IDS)) \<and>
   (verifyExpoCryptoDigestAsync (Inr m) = Inr () \<longleftrightarrow> (case ex_digest m of
        Some d \<Rightarrow> (\<exists>bs. d (sha_constant m) = Inr bs \<and> hex_bytes bs = EMPTY_SHA256)
      | None \<Rightarrow> (\<exists>d h. ex_digestString m = Some d \<and> d (sha_constant m) = Inr h \<and> js_toLowerCase h = EMPTY_SHA256)))"
proof
  show "verifyExpoCryptoDigest (Inr m) = Inr () \<longleftrightarrow> (ex_digest m \<noteq> None \<or> ex_digestString m \<noteq> None) \<and>
      (\<forall>x y v. ex_algorithms m = Some (x, y) \<and> (x = Some v \<or> x = None \<and> y = Some v) \<longrightarrow> v \<in> set SHA256_ALGORITHM_IDS)"
    by (auto simp: verifyExpoCryptoDigest_def split: option.splits prod.splits if_splits)
  show "verifyExpoCryptoDigestAsync (Inr m) = Inr () \<longleftrightarrow> (case ex_digest m of
        Some d \<Rightarrow> (\<exists>bs. d (sha_constant m) = Inr bs \<and> hex_bytes bs = EMPTY_SHA256)
      | None \<Rightarrow> (\<exists>d h. ex_digestString m = Some d \<and> d (sha_constant m) = Inr h \<and> js_toLowerCase h = EMPTY_SHA256))"
    by (auto simp: verifyExpoCryptoDigestAsync_def split: option.split sum.split)
qed

end
