(* ===== verification/ReactHook.thy ===== *)
theory ReactHook
  imports UiBindings SimCache Values
begin

text \<open>
  The part of the React hook \<open>packages/react/src/useSorobanResurrect.ts\<close> before the place where the file breaks
  off: keys and entries of its simulation cache, \<open>checkTransaction\<close>, and the history of transactions. State and
  refs of one component are a record; the client, the storage and the clock are arguments. A call runs alone.
\<close>

unbundle bit_operations_syntax

section \<open>Cache keys\<close>

text \<open>
  \<open>hash << 5\<close> and \<open>^\<close> convert to 32-bit integers and the sum between them is exact, so the loop computes in
  32-bit words. \<open>digest\<close> is \<open>crypto.subtle.digest\<close> where there is one, as the bytes it gives.
\<close>

definition weak_step :: "32 word \<Rightarrow> char \<Rightarrow> 32 word" where
  "weak_step h c = (push_bit 5 h + h) XOR of_nat (of_char c)"

definition weak_hash :: "string \<Rightarrow> string" where
  "weak_hash s = padStart 8 (CHR ''0'') (nat_hex (unat (foldl weak_step 5381 s)))"

definition FALLBACK_PREFIX_LENGTH :: nat where
  "FALLBACK_PREFIX_LENGTH = 64"

definition weak_key :: "string \<Rightarrow> string" where
  "weak_key txXDR = ''weak:'' @ nat_dec (length txXDR) @ '':'' @ take FALLBACK_PREFIX_LENGTH txXDR @ '':'' @ weak_hash txXDR"

definition hashTxXDR :: "(string \<Rightarrow> nat list) option \<Rightarrow> string \<Rightarrow> string" where
  "hashTxXDR digest txXDR = (case digest of
     Some sha \<Rightarrow> concat (map (\<lambda>b. padStart 2 (CHR ''0'') (nat_hex b)) (sha txXDR))
   | None \<Rightarrow> weak_key txXDR)"

section \<open>The cache of simulations\<close>

type_synonym ui_simulation = "bool \<times> string list"

type_synonym hook_cache = "(string, int \<times> ui_simulation) js_map"

definition CACHE_TTL_MS :: int where
  "CACHE_TTL_MS = 30000"

definition MAX_CACHE_ENTRIES :: nat where
  "MAX_CACHE_ENTRIES = 100"

definition sweepCache :: "int \<Rightarrow> hook_cache \<Rightarrow> hook_cache" where
  "sweepCache now cache =
    (let fresh = filter (\<lambda>(k, expiresAt, x). \<not> expiresAt \<le> now) cache
     in drop (length fresh - MAX_CACHE_ENTRIES) fresh)"

definition cached_simulation :: "string \<Rightarrow> bool \<Rightarrow> int \<Rightarrow> hook_cache \<Rightarrow> ui_simulation option" where
  "cached_simulation key forceRefresh now cache =
    (if forceRefresh then None
     else case jget cache key of
         None \<Rightarrow> None
       | Some (expiresAt, x) \<Rightarrow> if now < expiresAt then Some x else None)"

definition store_simulation :: "string \<Rightarrow> ui_simulation \<Rightarrow> int \<Rightarrow> hook_cache \<Rightarrow> hook_cache" where
  "store_simulation key x now cache = jset cache key (now + CACHE_TTL_MS, x)"

section \<open>The hook\<close>

record transaction_record =
  tr_id :: string
  tr_originalTxHash :: "string option"
  tr_restoreTxHash :: "string option"
  tr_archivedKeys :: "string list"
  tr_success :: bool
  tr_error :: "string option"
  tr_timestamp :: int
  tr_durationMs :: int

record hook_state = ui_state +
  hk_cache :: hook_cache
  hk_history :: "transaction_record list"

record hook_env =
  he_digest :: "(string \<Rightarrow> nat list) option"
  he_onRestoreNeeded :: bool
  he_onError :: bool
  he_preFlightOnError :: bool

definition hook_told :: "bool \<Rightarrow> ui_call \<Rightarrow> hook_state \<Rightarrow> hook_state" where
  "hook_told given c s = (if given then s\<lparr>ui_log := ui_log s @ [c]\<rparr> else s)"

text \<open>\<open>now\<close> is read by the lookup, \<open>later\<close> once the client has answered.\<close>

definition getCachedSimulation ::
  "hook_env \<Rightarrow> (string \<Rightarrow> ui_err + ui_simulation) \<Rightarrow> string \<Rightarrow> bool \<Rightarrow> int \<Rightarrow> int \<Rightarrow> hook_state \<Rightarrow>
   (ui_err + ui_simulation) \<times> hook_state" where
  "getCachedSimulation v client txXDR forceRefresh now later s =
    (let key = hashTxXDR (he_digest v) txXDR
     in case cached_simulation key forceRefresh now (hk_cache s) of
          Some x \<Rightarrow> (Inr x, s)
        | None \<Rightarrow>
            (let t = hook_told True (CallSimulate txXDR) s
             in case client txXDR of
                  Inl e \<Rightarrow> (Inl e, t)
                | Inr x \<Rightarrow> (Inr x, t\<lparr>hk_cache := store_simulation key x later (hk_cache t)\<rparr>)))"

definition hook_checkTransaction ::
  "hook_env \<Rightarrow> (string \<Rightarrow> ui_err + ui_simulation) \<Rightarrow> string \<Rightarrow> bool \<Rightarrow> int \<Rightarrow> int \<Rightarrow> hook_state \<Rightarrow>
   (ui_err + ui_simulation) \<times> hook_state" where
  "hook_checkTransaction v client txXDR forceRefresh now later s =
    (case getCachedSimulation v client txXDR forceRefresh now later (s\<lparr>ui_isChecking := True, ui_error := None\<rparr>) of
       (Inr x, t) \<Rightarrow> (Inr x, (hook_told (he_onRestoreNeeded v \<and> fst x) (OnRestoreNeeded (snd x))
          (t\<lparr>ui_needsRestore := fst x, ui_archivedKeys := snd x\<rparr>))\<lparr>ui_isChecking := False\<rparr>)
     | (Inl e, t) \<Rightarrow> (Inl e, (hook_told (he_preFlightOnError v) (PreFlightOnError (ui_message e))
          (hook_told (he_onError v) (OnError (ui_message e)) (t\<lparr>ui_error := Some (ui_message e)\<rparr>)))\<lparr>ui_isChecking := False\<rparr>))"

text \<open>A render with another configuration drops the client and its simulations.\<close>

definition config_changed :: "hook_state \<Rightarrow> hook_state" where
  "config_changed s = s\<lparr>hk_cache := []\<rparr>"

subsection \<open>History\<close>

definition addHistoryRecord :: "int \<Rightarrow> transaction_record \<Rightarrow> hook_state \<Rightarrow> hook_state" where
  "addHistoryRecord maxHistoryRecords r s =
    (let upd = hk_history s @ [r]
     in s\<lparr>hk_history := if maxHistoryRecords < int (length upd) then drop (nat (int (length upd) - maxHistoryRecords)) upd
                        else upd\<rparr>)"

definition clearHistory :: "hook_state \<Rightarrow> hook_state" where
  "clearHistory s = s\<lparr>hk_history := []\<rparr>"

text \<open>
  The stored history: \<open>load\<close> is reading the item and parsing it, \<open>None\<close> where there is no storage, no item or no JSON
  in it; a storage that refuses keeps what it has.
\<close>

definition loadHistory :: "(string \<Rightarrow> transaction_record list option) option \<Rightarrow> string option \<Rightarrow> transaction_record list" where
  "loadHistory storage key = (if \<not> truthy_str key then [] else case storage of
     None \<Rightarrow> [] | Some item \<Rightarrow> (case item (the key) of None \<Rightarrow> [] | Some h \<Rightarrow> h))"

definition saveHistory :: "bool \<Rightarrow> string option \<Rightarrow> transaction_record list \<Rightarrow>
    (string \<Rightarrow> transaction_record list option) option \<Rightarrow> (string \<Rightarrow> transaction_record list option) option" where
  "saveHistory refuses key h storage =
    (if \<not> truthy_str key \<or> refuses then storage else map_option (\<lambda>item. item(the key \<mapsto> h)) storage)"

lemma saved_history_loads:
  "truthy_str key \<Longrightarrow> storage \<noteq> None \<Longrightarrow> loadHistory (saveHistory False key h storage) key = h"
  by (auto simp: loadHistory_def saveHistory_def)

subsection \<open>The configuration key\<close>

record hook_config =
  hc_rpcUrl :: "string + string list"
  hc_networkPassphrase :: string
  hc_allowHttp :: "bool option"
  hc_timeout :: "int option"
  hc_pollIntervalMs :: "int option"
  hc_maxPollAttempts :: "int option"

definition optional_number :: "int option \<Rightarrow> string" where
  "optional_number n = (case n of None \<Rightarrow> [] | Some k \<Rightarrow> int_dec k)"

definition deriveConfigKey :: "hook_config \<Rightarrow> string" where
  "deriveConfigKey c = join_with ''|'' [(case hc_rpcUrl c of Inl u \<Rightarrow> u | Inr us \<Rightarrow> join_with '','' us), hc_networkPassphrase c,
     (case hc_allowHttp c of None \<Rightarrow> [] | Some b \<Rightarrow> (if b then ''true'' else ''false'')),
     optional_number (hc_timeout c), optional_number (hc_pollIntervalMs c), optional_number (hc_maxPollAttempts c)]"

text \<open>Endpoints are joined by a comma, which may be part of one: such configurations count as the same.\<close>

lemma config_key_ambiguous:
  "deriveConfigKey (c\<lparr>hc_rpcUrl := Inr [u, w]\<rparr>) = deriveConfigKey (c\<lparr>hc_rpcUrl := Inl (u @ '','' @ w)\<rparr>)"
  by (simp add: deriveConfigKey_def)

section \<open>Runs\<close>

datatype hook_op =
    HookCheck string bool int int "ui_err + ui_simulation"
  | ConfigChanged
  | AddRecord transaction_record
  | ClearHistory

fun hook_step :: "hook_env \<Rightarrow> int \<Rightarrow> hook_op \<Rightarrow> hook_state \<Rightarrow> hook_state" where
  "hook_step v mx (HookCheck tx force now later r) s = snd (hook_checkTransaction v (\<lambda>x. r) tx force now later s)"
| "hook_step v mx ConfigChanged s = config_changed s"
| "hook_step v mx (AddRecord r) s = addHistoryRecord mx r s"
| "hook_step v mx ClearHistory s = clearHistory s"

definition hook_run :: "hook_env \<Rightarrow> int \<Rightarrow> hook_op list \<Rightarrow> hook_state \<Rightarrow> hook_state" where
  "hook_run v mx ops s = fold (hook_step v mx) ops s"

text \<open>
  The specification of the cache: for one key, the last answer and when it came, as far as it was asked for, and
  nothing after a change of the configuration.
\<close>

definition still_fresh :: "bool \<Rightarrow> int \<Rightarrow> (int \<times> ui_simulation) option \<Rightarrow> bool" where
  "still_fresh force now a = (\<not> force \<and> (case a of None \<Rightarrow> False | Some (n, x) \<Rightarrow> now < n + CACHE_TTL_MS))"

fun answer_after :: "hook_env \<Rightarrow> string \<Rightarrow> hook_op \<Rightarrow> (int \<times> ui_simulation) option \<Rightarrow> (int \<times> ui_simulation) option" where
  "answer_after v key (HookCheck tx force now later r) a =
    (if hashTxXDR (he_digest v) tx \<noteq> key \<or> still_fresh force now a then a
     else case r of Inl e \<Rightarrow> a | Inr x \<Rightarrow> Some (later, x))"
| "answer_after v key ConfigChanged a = None"
| "answer_after v key _ a = a"

definition last_answer :: "hook_env \<Rightarrow> string \<Rightarrow> hook_op list \<Rightarrow> (int \<times> ui_simulation) option" where
  "last_answer v key ops = fold (answer_after v key) ops None"

definition cache_view :: "hook_state \<Rightarrow> string \<Rightarrow> (int \<times> ui_simulation) option" where
  "cache_view s key = map_option (\<lambda>(expiresAt, x). (expiresAt - CACHE_TTL_MS, x)) (jget (hk_cache s) key)"

lemma cached_fresh: "cached_simulation key force now (hk_cache s) \<noteq> None \<longleftrightarrow> still_fresh force now (cache_view s key)"
  by (auto simp: cached_simulation_def still_fresh_def cache_view_def split: option.splits)

lemma told_cache [simp]: "hk_cache (hook_told g c s) = hk_cache s" "hk_history (hook_told g c s) = hk_history s"
  by (simp_all add: hook_told_def)

lemma simulation_cache:
  "hk_cache (snd (getCachedSimulation v client tx force now later s)) =
    (if cached_simulation (hashTxXDR (he_digest v) tx) force now (hk_cache s) \<noteq> None then hk_cache s
     else case client tx of Inl e \<Rightarrow> hk_cache s
        | Inr x \<Rightarrow> store_simulation (hashTxXDR (he_digest v) tx) x later (hk_cache s))"
  "hk_history (snd (getCachedSimulation v client tx force now later s)) = hk_history s"
  by (auto simp: getCachedSimulation_def Let_def split: option.split sum.split)

lemma check_cache:
  "hk_cache (snd (hook_checkTransaction v client tx force now later s)) =
     hk_cache (snd (getCachedSimulation v client tx force now later s))"
  "hk_history (snd (hook_checkTransaction v client tx force now later s)) = hk_history s"
proof -
  let ?s = "s\<lparr>ui_isChecking := True, ui_error := None\<rparr>"
  have "hk_cache (snd (getCachedSimulation v client tx force now later ?s)) =
      hk_cache (snd (getCachedSimulation v client tx force now later s))"
    by (simp add: simulation_cache split: sum.split)
  moreover have "hk_history (snd (getCachedSimulation v client tx force now later ?s)) = hk_history s"
    by (simp add: simulation_cache)
  ultimately show "hk_cache (snd (hook_checkTransaction v client tx force now later s)) =
      hk_cache (snd (getCachedSimulation v client tx force now later s))"
    and "hk_history (snd (hook_checkTransaction v client tx force now later s)) = hk_history s"
    by (auto simp: hook_checkTransaction_def split: prod.split sum.split)
qed

lemma step_view: "cache_view (hook_step v mx p s) key = answer_after v key p (cache_view s key)"
proof (cases p)
  case (HookCheck tx force now later r)
  show ?thesis
  proof (cases "hashTxXDR (he_digest v) tx = key")
    case True
    then show ?thesis using HookCheck cached_fresh [of key force now s]
      by (auto simp: check_cache simulation_cache cache_view_def store_simulation_def jget_set split: sum.split)
  next
    case False
    then show ?thesis using HookCheck
      by (auto simp: check_cache simulation_cache cache_view_def store_simulation_def jget_set split: sum.split)
  qed
qed (simp_all add: cache_view_def config_changed_def addHistoryRecord_def clearHistory_def Let_def)

lemma run_view: "cache_view (hook_run v mx ops s) key = fold (answer_after v key) ops (cache_view s key)"
  by (induction ops arbitrary: s) (simp_all add: hook_run_def step_view)

section \<open>Properties\<close>

text \<open>
  C36: whatever ran before on a new component, \<open>checkTransaction\<close> answers without asking the client exactly when an
  answer under the same key came less than the time to live ago, after the last change of the configuration and
  without a refresh being forced, and then with that answer; otherwise it asks once. Its flag is down afterwards
  and the error shown is that of the call.
\<close>

definition hook_new :: "transaction_record list \<Rightarrow> hook_state" where
  "hook_new history = \<lparr>ui_isChecking = False, ui_isExecuting = False, ui_lastResult = None, ui_error = None,
     ui_needsRestore = False, ui_archivedKeys = [], ui_log = [], hk_cache = [], hk_history = history\<rparr>"

definition simulations_asked :: "hook_state \<Rightarrow> nat" where
  "simulations_asked s = length (filter (\<lambda>c. case c of CallSimulate x \<Rightarrow> True | _ \<Rightarrow> False) (ui_log s))"


definition plain_hook :: hook_env where
  "plain_hook = \<lparr>he_digest = None, he_onRestoreNeeded = True, he_onError = False, he_preFlightOnError = False\<rparr>"


text \<open>
  Two transactions share a weak cache key exactly when they have the same length, the same first 64 characters
  and the same 32-bit hash; transactions of no more than 64 characters never do.
\<close>

lemma colon_free: "CHR '':'' \<notin> set (nat_dec n)"
proof
  assume "CHR '':'' \<in> set (nat_dec n)"
  then have "is_digit (CHR '':'')" using nat_dec_digits [of n] by (auto simp: list_all_iff)
  then show False by (simp add: is_digit_def)
qed

lemma append_sep: "c \<notin> set xs \<Longrightarrow> c \<notin> set ys \<Longrightarrow> xs @ c # s = ys @ c # t \<Longrightarrow> xs = ys \<and> s = t"
proof (induction xs arbitrary: ys)
  case Nil
  then show ?case by (cases ys) auto
next
  case (Cons x xs)
  then show ?case by (cases ys) auto
qed

theorem weak_keys_exact:
  "(weak_key a = weak_key b \<longleftrightarrow> length a = length b \<and> take 64 a = take 64 b \<and> weak_hash a = weak_hash b) \<and>
   (length a \<le> 64 \<and> weak_key a = weak_key b \<longrightarrow> a = b)"
proof -
  have iff: "weak_key a = weak_key b \<longleftrightarrow> length a = length b \<and> take 64 a = take 64 b \<and> weak_hash a = weak_hash b"
  proof
    assume "weak_key a = weak_key b"
    then have "nat_dec (length a) @ CHR '':'' # (take 64 a @ '':'' @ weak_hash a) =
        nat_dec (length b) @ CHR '':'' # (take 64 b @ '':'' @ weak_hash b)"
      by (simp add: weak_key_def FALLBACK_PREFIX_LENGTH_def)
    from append_sep [OF colon_free colon_free this]
    have l: "length a = length b" and rest: "take 64 a @ '':'' @ weak_hash a = take 64 b @ '':'' @ weak_hash b"
      using nat_dec_inj by blast+
    from rest l show "length a = length b \<and> take 64 a = take 64 b \<and> weak_hash a = weak_hash b"
      by (simp add: append_eq_append_conv)
  qed (simp add: weak_key_def FALLBACK_PREFIX_LENGTH_def)
  then show ?thesis by auto
qed

theorem weak_keys_exact_witness: "weak_key ''AAAA'' \<noteq> weak_key ''AAAB''"
  using weak_keys_exact [of "''AAAA''" "''AAAB''"] by auto

text \<open>
  The history holds the newest records, oldest first, and no more than the limit once one was added; clearing
  forgets all of them.
\<close>

fun records_of :: "hook_op list \<Rightarrow> transaction_record list \<Rightarrow> transaction_record list" where
  "records_of [] rs = rs"
| "records_of (AddRecord r # ops) rs = records_of ops (rs @ [r])"
| "records_of (ClearHistory # ops) rs = records_of ops []"
| "records_of (_ # ops) rs = records_of ops rs"

definition newest_records :: "int \<Rightarrow> 'a list \<Rightarrow> 'a list" where
  "newest_records mx rs = drop (nat (int (length rs) - mx)) rs"

lemma newest_int: "newest_records (int n) rs = drop (length rs - n) rs"
proof -
  have "nat (int (length rs) - int n) = length rs - n" by simp
  then show ?thesis by (simp only: newest_records_def)
qed

lemma newest_snoc: "0 \<le> mx \<Longrightarrow> newest_records mx (newest_records mx rs @ [r]) = newest_records mx (rs @ [r])"
proof (elim nonneg_int_cases)
  fix n assume "mx = int n"
  moreover have "drop (length (drop (length rs - n) rs @ [r]) - n) (drop (length rs - n) rs @ [r]) = drop (length (rs @ [r]) - n) (rs @ [r])"
  proof (cases "length rs \<le> n")
    case False
    then show ?thesis by (cases n) (simp_all add: Suc_diff_Suc not_le)
  qed simp
  ultimately show ?thesis by (simp only: newest_int)
qed

lemma add_newest: "hk_history (addHistoryRecord mx r s) = newest_records mx (hk_history s @ [r])"
  by (simp add: addHistoryRecord_def newest_records_def Let_def)

lemma history_run:
  "0 \<le> mx \<Longrightarrow> hk_history s = newest_records mx rs \<Longrightarrow> hk_history (fold (hook_step v mx) ops s) = newest_records mx (records_of ops rs)"
proof (induction ops arbitrary: s rs)
  case (Cons p ops)
  show ?case
  proof (cases p)
    case (AddRecord r)
    then have "hk_history (hook_step v mx p s) = newest_records mx (rs @ [r])"
      using Cons.prems by (simp add: add_newest newest_snoc)
    then show ?thesis using Cons AddRecord by simp
  next
    case ClearHistory
    then have "hk_history (hook_step v mx p s) = newest_records mx []" by (simp add: clearHistory_def newest_records_def)
    then show ?thesis using Cons ClearHistory by simp
  next
    case (HookCheck a b c d e)
    then show ?thesis using Cons by (simp add: check_cache)
  next
    case ConfigChanged
    then show ?thesis using Cons by (simp add: config_changed_def)
  qed
qed simp

theorem history_keeps_newest:
  assumes "0 \<le> mx" and "int (length h) \<le> mx"
  shows "hk_history (hook_run v mx ops (hook_new h)) = newest_records mx (records_of ops h) \<and>
    int (length (hk_history (hook_run v mx ops (hook_new h)))) \<le> mx"
proof -
  have "hk_history (hook_new h) = newest_records mx h" using assms by (simp add: hook_new_def newest_records_def)
  then have "hk_history (hook_run v mx ops (hook_new h)) = newest_records mx (records_of ops h)"
    using history_run [OF assms(1)] by (simp add: hook_run_def)
  moreover have "int (length (newest_records mx rs)) \<le> mx" for rs :: "transaction_record list"
    using assms(1) by (simp add: newest_records_def)
  ultimately show ?thesis by simp
qed

definition brief_record :: "string \<Rightarrow> bool \<Rightarrow> int \<Rightarrow> transaction_record" where
  "brief_record i ok t = \<lparr>tr_id = i, tr_originalTxHash = None, tr_restoreTxHash = None, tr_archivedKeys = [], tr_success = ok,
     tr_error = None, tr_timestamp = t, tr_durationMs = 0\<rparr>"

theorem history_keeps_newest_witness:
  "map tr_timestamp (hk_history (hook_run plain_hook 1 [AddRecord (brief_record ''a'' True 1),
     AddRecord (brief_record ''b'' False 2)] (hook_new []))) = [2]"
  using history_keeps_newest [of 1 "[]" plain_hook "[AddRecord (brief_record ''a'' True 1),
     AddRecord (brief_record ''b'' False 2)]"]
  by (simp add: newest_records_def brief_record_def)

end
