(* ===== verification/ExampleApp.thy ===== *)
theory ExampleApp
  imports ReactHook
begin

text \<open>
  What the example application computes beside its rendering (\<open>packages/example/src\<close>): the phases of a restoration and
  the status of its steps (\<open>RestorationFlowVisualizer.tsx\<close>), the handler that drives them (\<open>handleSubmit\<close> in \<open>App.tsx\<close>),
  the history table with its CSV export (\<open>RestorationHistoryViewer.tsx\<close>), and the hexadecimal arguments of
  \<open>TransactionBuilder.tsx\<close>. Answers of the hook and readings of the clock are arguments.
\<close>

section \<open>Phases\<close>

datatype flow_phase = PhIdle | PhInput | PhSimulate | PhDetect | PhBuild | PhRestore | PhOriginal | PhDone | PhError

definition PHASE_ORDER :: "flow_phase list" where
  "PHASE_ORDER = [PhIdle, PhInput, PhSimulate, PhDetect, PhBuild, PhRestore, PhOriginal, PhDone]"

fun js_indexOf :: "'a list \<Rightarrow> 'a \<Rightarrow> int" where
  "js_indexOf [] x = -1"
| "js_indexOf (y # ys) x = (if y = x then 0 else let i = js_indexOf ys x in if i = -1 then -1 else i + 1)"

definition phaseIndex :: "flow_phase \<Rightarrow> int" where
  "phaseIndex ph = (if ph = PhError \<or> ph = PhDone then int (length PHASE_ORDER) - 1 else max 0 (js_indexOf PHASE_ORDER ph))"

datatype step_status = StepPending | StepActive | StepComplete | StepError

definition stepStatus :: "flow_phase \<Rightarrow> flow_phase \<Rightarrow> bool \<Rightarrow> step_status" where
  "stepStatus stepPhase current failed =
    (let si = js_indexOf PHASE_ORDER stepPhase; ci = phaseIndex current
     in if si < ci then StepComplete
        else if si = ci then (if failed then StepError else if current = PhDone then StepComplete else StepActive)
        else StepPending)"

definition STEPS :: "flow_phase list" where
  "STEPS = [PhInput, PhSimulate, PhDetect, PhBuild, PhRestore, PhOriginal]"

record flow_state =
  fl_phase :: flow_phase
  fl_totalKeys :: nat
  fl_archivedKeys :: nat
  fl_keysToRestore :: nat
  fl_keysRestored :: nat
  fl_batchesDone :: nat
  fl_batchesTotal :: nat
  fl_timings :: "(flow_phase, int) js_map"
  fl_failed :: bool
  fl_error :: "string option"

definition INITIAL_FLOW_STATE :: flow_state where
  "INITIAL_FLOW_STATE = \<lparr>fl_phase = PhIdle, fl_totalKeys = 0, fl_archivedKeys = 0, fl_keysToRestore = 0, fl_keysRestored = 0,
     fl_batchesDone = 0, fl_batchesTotal = 0, fl_timings = [], fl_failed = False, fl_error = None\<rparr>"

datatype dot_kind = DotRestored | DotQueued | DotArchived | DotLive

definition dot_status :: "nat \<Rightarrow> nat \<Rightarrow> nat \<Rightarrow> nat \<Rightarrow> dot_kind" where
  "dot_status archived toRestore restored i = (if i < restored then DotRestored
     else if i < toRestore then DotQueued else if i < archived then DotArchived else DotLive)"

definition EntryDots :: "nat \<Rightarrow> nat \<Rightarrow> nat \<Rightarrow> nat \<Rightarrow> dot_kind list" where
  "EntryDots entries archived toRestore restored = map (dot_status archived toRestore restored) [0..<max entries archived]"

section \<open>Submitting\<close>

text \<open>The states shown so far, the last one last, with the local variables of the handler.\<close>

record submission =
  sb_shown :: "flow_state list"
  sb_timings :: "(flow_phase, int) js_map"
  sb_mark :: int
  sb_reads :: nat

definition closePhase :: "(nat \<Rightarrow> int) \<Rightarrow> flow_phase \<Rightarrow> submission \<Rightarrow> submission" where
  "closePhase clock ph s = s\<lparr>sb_timings := jset (sb_timings s) ph (clock (sb_reads s) - sb_mark s),
     sb_mark := clock (sb_reads s + 1), sb_reads := sb_reads s + 2\<rparr>"

definition patch :: "(flow_state \<Rightarrow> flow_state) \<Rightarrow> submission \<Rightarrow> submission" where
  "patch f s = s\<lparr>sb_shown := sb_shown s @ [(f (last (sb_shown s)))\<lparr>fl_timings := sb_timings s\<rparr>]\<rparr>"

definition start_submission :: "(nat \<Rightarrow> int) \<Rightarrow> submission" where
  "start_submission clock = \<lparr>sb_shown = [INITIAL_FLOW_STATE\<lparr>fl_phase := PhInput\<rparr>], sb_timings = [], sb_mark = clock 0, sb_reads = 1\<rparr>"

definition estimated_batches :: "string list \<Rightarrow> nat" where
  "estimated_batches archived = max 1 ((sum_list (map (\<lambda>k. length k + 200) archived) + 99999) div 100000)"

record submit_report =
  xn_success :: bool
  xn_entriesRestored :: nat
  xn_error :: "string option"

definition submission_failed :: "string \<Rightarrow> submission \<Rightarrow> submission" where
  "submission_failed message s = patch (\<lambda>p. p\<lparr>fl_failed := True, fl_error := Some message\<rparr>) s"

definition submit_plain :: "(nat \<Rightarrow> int) \<Rightarrow> string + submit_report \<Rightarrow> submission \<Rightarrow> submission" where
  "submit_plain clock execute s =
    (let t = patch (\<lambda>p. p\<lparr>fl_phase := PhOriginal\<rparr>) s
     in case execute of
          Inl e \<Rightarrow> submission_failed e t
        | Inr r \<Rightarrow> patch (\<lambda>p. p\<lparr>fl_phase := PhDone, fl_failed := \<not> xn_success r, fl_error := xn_error r\<rparr>) (closePhase clock PhOriginal t))"

definition submit_restore :: "(nat \<Rightarrow> int) \<Rightarrow> string list \<Rightarrow> string + submit_report \<Rightarrow> submission \<Rightarrow> submission" where
  "submit_restore clock archived execute s =
    (let n = estimated_batches archived;
         t = closePhase clock PhBuild (patch (\<lambda>p. p\<lparr>fl_phase := PhBuild, fl_keysToRestore := length archived, fl_batchesTotal := n\<rparr>) s);
         u = patch (\<lambda>p. p\<lparr>fl_phase := PhRestore\<rparr>) t
     in case execute of
          Inl e \<Rightarrow> submission_failed e u
        | Inr r \<Rightarrow>
            (let w = closePhase clock PhOriginal (patch (\<lambda>p. p\<lparr>fl_phase := PhOriginal, fl_keysRestored := xn_entriesRestored r,
                   fl_batchesDone := n\<rparr>) (closePhase clock PhRestore u))
             in patch (\<lambda>p. p\<lparr>fl_phase := PhDone, fl_failed := \<not> xn_success r, fl_keysRestored := xn_entriesRestored r,
                  fl_error := xn_error r\<rparr>) w))"

text \<open>\<open>check\<close> is the answer of \<open>checkTransaction\<close>, \<open>execute\<close> that of \<open>executeWithRestore\<close>.\<close>

definition run_submission :: "(nat \<Rightarrow> int) \<Rightarrow> string + string list \<Rightarrow> string + submit_report \<Rightarrow> submission" where
  "run_submission clock check execute =
    (let s = patch (\<lambda>p. p\<lparr>fl_phase := PhSimulate\<rparr>) (closePhase clock PhInput (start_submission clock))
     in case check of
          Inl e \<Rightarrow> submission_failed e s
        | Inr archived \<Rightarrow>
            (let t = closePhase clock PhDetect (patch (\<lambda>p. p\<lparr>fl_phase := PhDetect, fl_totalKeys := length archived,
                   fl_archivedKeys := length archived\<rparr>) (closePhase clock PhSimulate s))
             in if archived = [] then submit_plain clock execute t else submit_restore clock archived execute t))"

definition handleSubmit :: "(nat \<Rightarrow> int) \<Rightarrow> string option \<Rightarrow> string + string list \<Rightarrow> string + submit_report \<Rightarrow> submission option" where
  "handleSubmit clock publicKey check execute = (if truthy_str publicKey then Some (run_submission clock check execute) else None)"

section \<open>The history table\<close>

datatype status_filter = ShowAll | ShowSuccess | ShowFailed

definition in_filter :: "status_filter \<Rightarrow> transaction_record \<Rightarrow> bool" where
  "in_filter f r = (case f of ShowAll \<Rightarrow> True | ShowSuccess \<Rightarrow> tr_success r | ShowFailed \<Rightarrow> \<not> tr_success r)"

definition filtered :: "status_filter \<Rightarrow> transaction_record list \<Rightarrow> transaction_record list" where
  "filtered f records = sort_key (\<lambda>r. - tr_timestamp r) (filter (in_filter f) records)"

definition counts :: "transaction_record list \<Rightarrow> nat \<times> nat \<times> nat" where
  "counts records = (length records, length (filter tr_success records), length (filter (\<lambda>r. \<not> tr_success r) records))"

definition toggle :: "string \<Rightarrow> string list \<Rightarrow> string list" where
  "toggle i expanded = (if List.member expanded i then filter (\<lambda>j. j \<noteq> i) expanded else expanded @ [i])"

definition handleClear :: "bool \<Rightarrow> transaction_record list \<Rightarrow> string list \<Rightarrow> transaction_record list \<times> string list" where
  "handleClear confirmed records expanded = (if confirmed then ([], []) else (records, expanded))"

subsection \<open>CSV\<close>

definition csv_header :: "string list" where
  "csv_header = [''timestamp_iso'', ''status'', ''entries_restored'', ''duration_ms'', ''original_tx_hash'', ''restore_tx_hash'', ''error'']"

definition double_quotes :: "string \<Rightarrow> string" where
  "double_quotes s = concat (map (\<lambda>c. if c = CHR 0x22 then [c, c] else [c]) s)"

definition or_empty :: "string option \<Rightarrow> string" where
  "or_empty s = (case s of None \<Rightarrow> [] | Some t \<Rightarrow> t)"

definition csv_row :: "(int \<Rightarrow> string) \<Rightarrow> transaction_record \<Rightarrow> string list" where
  "csv_row dateText r = [dateText (tr_timestamp r), (if tr_success r then ''success'' else ''failed''), nat_dec (length (tr_archivedKeys r)),
     int_dec (tr_durationMs r), or_empty (tr_originalTxHash r), or_empty (tr_restoreTxHash r), double_quotes (or_empty (tr_error r))]"

definition csv_cell :: "string \<Rightarrow> string" where
  "csv_cell c = (if list_ex (\<lambda>x. x = CHR 0x22 \<or> x = CHR '','' \<or> x = CHR 0x0A) c then [CHR 0x22] @ c @ [CHR 0x22] else c)"

definition csv_line :: "string list \<Rightarrow> string" where
  "csv_line cols = join_with '','' (map csv_cell cols)"

definition toCSV :: "(int \<Rightarrow> string) \<Rightarrow> transaction_record list \<Rightarrow> string" where
  "toCSV dateText records = join_with [CHR 0x0A] (map csv_line (csv_header # map (csv_row dateText) records))"

section \<open>Hexadecimal arguments\<close>

text \<open>\<open>parseInt\<close> of two characters in base 16; where there is no number the array takes 0.\<close>

definition hex_char :: "char \<Rightarrow> nat option" where
  "hex_char c = (let n = (of_char c :: nat)
     in if 48 \<le> n \<and> n \<le> 57 then Some (n - 48) else if 97 \<le> n \<and> n \<le> 102 then Some (n - 87)
        else if 65 \<le> n \<and> n \<le> 70 then Some (n - 55) else None)"

definition parse_pair :: "char \<Rightarrow> char \<Rightarrow> nat" where
  "parse_pair c d = (case hex_char c of
     Some a \<Rightarrow> (case hex_char d of Some b \<Rightarrow> 16 * a + b | None \<Rightarrow> a)
   | None \<Rightarrow> (case hex_char d of
       Some b \<Rightarrow> if c = CHR ''+'' then b else if c = CHR ''-'' then (256 - b) mod 256 else 0
     | None \<Rightarrow> 0))"

fun parse_pairs :: "string \<Rightarrow> nat list" where
  "parse_pairs (c # d # cs) = parse_pair c d # parse_pairs cs"
| "parse_pairs s = []"

definition hexToBytes :: "string \<Rightarrow> nat list" where
  "hexToBytes hex = parse_pairs (filter (\<lambda>c. \<not> is_ws c) (if take 2 hex = ''0x'' then drop 2 hex else hex))"

section \<open>Properties\<close>

lemmas flow_eval = handleSubmit_def run_submission_def submit_plain_def submit_restore_def submission_failed_def patch_def
  closePhase_def start_submission_def Let_def

lemma phase_indices: "map phaseIndex [PhIdle, PhInput, PhSimulate, PhDetect, PhBuild, PhRestore, PhOriginal, PhDone] = [0, 1, 2, 3, 4, 5, 6, 7]"
  by code_simp

text \<open>
  A submission shows its phases in their order. It ends done with what the execution reports, or failed at the step
  during which the hook threw; the times shown belong to the steps left behind, in order.
\<close>

theorem flow_shows_outcome:
  assumes "handleSubmit clock publicKey check execute = Some s"
  shows "sorted (map (\<lambda>p. phaseIndex (fl_phase p)) (sb_shown s)) \<and>
    (let l = last (sb_shown s); archived = (case check of Inr ks \<Rightarrow> ks | Inl e \<Rightarrow> [])
     in case check of
          Inl e \<Rightarrow> fl_phase l = PhSimulate \<and> fl_failed l \<and> fl_error l = Some e
        | Inr ks \<Rightarrow> (case execute of
            Inl e \<Rightarrow> fl_phase l = (if ks = [] then PhOriginal else PhRestore) \<and> fl_failed l \<and> fl_error l = Some e
          | Inr r \<Rightarrow> fl_phase l = PhDone \<and> fl_failed l = (\<not> xn_success r) \<and> fl_error l = xn_error r \<and>
              fl_keysRestored l = (if ks = [] then 0 else xn_entriesRestored r) \<and> fl_archivedKeys l = length ks \<and>
              jkeys (fl_timings l) = (if ks = [] then [PhInput, PhSimulate, PhDetect, PhOriginal] else STEPS)))"
proof (cases check)
  case (Inl e)
  then show ?thesis using assms phase_indices
    by (auto simp: flow_eval INITIAL_FLOW_STATE_def split: if_splits)
next
  case (Inr ks)
  then show ?thesis using assms phase_indices
    by (cases execute; cases "ks = []") (auto simp: flow_eval INITIAL_FLOW_STATE_def STEPS_def jkeys_def split: if_splits)
qed

theorem flow_shows_outcome_witness:
  "\<exists>s. handleSubmit int (Some ''G'') (Inr [''k'']) (Inl ''rejected'') = Some s \<and> fl_phase (last (sb_shown s)) = PhRestore \<and>
     stepStatus PhRestore (fl_phase (last (sb_shown s))) (fl_failed (last (sb_shown s))) = StepError"
proof -
  obtain s where s: "handleSubmit int (Some ''G'') (Inr [''k'']) (Inl ''rejected'') = Some s" by (simp add: handleSubmit_def truthy_str_def)
  have "stepStatus PhRestore PhRestore True = StepError" by code_simp
  with s flow_shows_outcome [OF s] show ?thesis by (simp add: Let_def)
qed

text \<open>An execution that reports a failure ends in the phase after the last step: every step is shown as complete.\<close>

lemma reported_failure_shown_complete: "list_all (\<lambda>st. stepStatus st PhDone True = StepComplete) STEPS"
  by code_simp

text \<open>As long as the counters are in order, there is a dot for each entry they count.\<close>

lemma dots_counted:
  assumes "restored \<le> toRestore" and "toRestore \<le> archived" and "archived \<le> entries"
  shows "EntryDots entries archived toRestore restored = replicate restored DotRestored @ replicate (toRestore - restored) DotQueued @
    replicate (archived - toRestore) DotArchived @ replicate (entries - archived) DotLive"
  using assms by (intro nth_equalityI) (auto simp: EntryDots_def dot_status_def nth_append)

subsection \<open>Reading CSV\<close>

text \<open>A reader of comma-separated values with quoted cells; \<open>None\<close> where quotes are misplaced.\<close>

datatype csv_mode = CellStart | BareCell | QuotedCell | AfterQuote

fun csv_read :: "csv_mode \<Rightarrow> string \<Rightarrow> string list \<Rightarrow> string \<Rightarrow> string list list option" where
  "csv_read m f row [] = (if m = QuotedCell then None else Some [row @ [f]])"
| "csv_read m f row (c # cs) =
    (if m = QuotedCell then (if c = CHR 0x22 then csv_read AfterQuote f row cs else csv_read QuotedCell (f @ [c]) row cs)
     else if c = CHR 0x22 then (if m = CellStart then csv_read QuotedCell [] row cs
       else if m = AfterQuote then csv_read QuotedCell (f @ [c]) row cs else None)
     else if c = CHR '','' then csv_read CellStart [] (row @ [f]) cs
     else if c = CHR 0x0A then map_option (\<lambda>rows. (row @ [f]) # rows) (csv_read CellStart [] [] cs)
     else if m = AfterQuote then None else csv_read BareCell (f @ [c]) row cs)"

definition csv_parse :: "string \<Rightarrow> string list list option" where
  "csv_parse s = csv_read CellStart [] [] s"

text \<open>The rest of a text after a cell.\<close>

definition cell_ends :: "string \<Rightarrow> bool" where
  "cell_ends s \<longleftrightarrow> (case s of [] \<Rightarrow> True | c # cs \<Rightarrow> c = CHR '','' \<or> c = CHR 0x0A)"

definition plain_cell :: "string \<Rightarrow> bool" where
  "plain_cell s \<longleftrightarrow> list_all (\<lambda>x. x \<noteq> CHR 0x22 \<and> x \<noteq> CHR '','' \<and> x \<noteq> CHR 0x0A) s"

lemma read_bare:
  "plain_cell s \<Longrightarrow> s \<noteq> [] \<Longrightarrow> m = CellStart \<or> m = BareCell \<Longrightarrow> csv_read m f row (s @ rest) = csv_read BareCell (f @ s) row rest"
proof (induction s arbitrary: m f)
  case (Cons c s)
  then show ?case by (cases "s = []") (auto simp: plain_cell_def)
qed simp

lemma read_quoted: "csv_read QuotedCell f row (double_quotes s @ CHR 0x22 # rest) = csv_read AfterQuote (f @ s) row rest"
  if "cell_ends rest"
proof (induction s arbitrary: f)
  case Nil
  show ?case by (simp add: double_quotes_def)
next
  case (Cons c s)
  then show ?case by (simp add: double_quotes_def)
qed

lemma ended_cell: "cell_ends rest \<Longrightarrow> m \<noteq> QuotedCell \<Longrightarrow> csv_read m f row rest = csv_read CellStart f row rest"
  by (cases rest) (auto simp: cell_ends_def)

lemma doubled_plain: "plain_cell (double_quotes s) \<longleftrightarrow> plain_cell s" "plain_cell s \<Longrightarrow> double_quotes s = s"
  by (induction s) (auto simp: double_quotes_def plain_cell_def)

lemma read_cell:
  assumes "cell_ends rest"
  shows "csv_read CellStart [] row (csv_cell (double_quotes s) @ rest) = csv_read CellStart s row rest"
proof (cases "plain_cell s")
  case True
  then have cell: "csv_cell (double_quotes s) = s" by (auto simp: csv_cell_def doubled_plain plain_cell_def list_ex_iff list_all_iff)
  show ?thesis
  proof (cases "s = []")
    case True
    then show ?thesis using cell by simp
  next
    case False
    then show ?thesis using read_bare [OF \<open>plain_cell s\<close> False, of CellStart "[]" row rest] ended_cell [OF assms, of BareCell s row]
      by (simp add: cell)
  qed
next
  case False
  then have "\<not> plain_cell (double_quotes s)" by (simp add: doubled_plain)
  then have cell: "csv_cell (double_quotes s) = CHR 0x22 # double_quotes s @ [CHR 0x22]"
    by (auto simp: csv_cell_def plain_cell_def list_ex_iff list_all_iff)
  show ?thesis using read_quoted [OF assms, of "[]" row s] ended_cell [OF assms, of AfterQuote s row] by (simp add: cell)
qed

lemma read_line:
  assumes "rest = [] \<or> hd rest = CHR 0x0A" and "cs \<noteq> []"
  shows "csv_read CellStart [] row (csv_line (map double_quotes cs) @ rest) = csv_read CellStart (last cs) (row @ butlast cs) rest"
  using assms(2)
proof (induction cs arbitrary: row)
  case (Cons c cs)
  have ends: "cell_ends rest" using assms(1) by (cases rest) (auto simp: cell_ends_def)
  show ?case
  proof (cases cs)
    case Nil
    then show ?thesis using read_cell [OF ends, of row c] by (simp add: csv_line_def)
  next
    case (Cons d ds)
    have "csv_read CellStart [] row (csv_cell (double_quotes c) @ CHR '','' # csv_line (map double_quotes cs) @ rest) =
        csv_read CellStart [] (row @ [c]) (csv_line (map double_quotes cs) @ rest)"
      by (subst read_cell) (simp_all add: cell_ends_def)
    then show ?thesis using Cons.IH [of "row @ [c]"] Cons by (simp add: csv_line_def)
  qed
qed simp

lemma read_lines:
  "rows \<noteq> [] \<Longrightarrow> list_all (\<lambda>r. r \<noteq> []) rows \<Longrightarrow>
   csv_parse (join_with [CHR 0x0A] (map csv_line (map (map double_quotes) rows))) = Some rows"
proof (induction rows)
  case (Cons r rs)
  show ?case
  proof (cases rs)
    case Nil
    then show ?thesis using Cons.prems read_line [of "[]" r "[]"] by (simp add: csv_parse_def)
  next
    case (Cons q qs)
    then show ?thesis using Cons.prems Cons.IH
        read_line [of "CHR 0x0A # join_with [CHR 0x0A] (map csv_line (map (map double_quotes) rs))" r "[]"]
      by (simp add: csv_parse_def)
  qed
qed simp

definition exported_row :: "(int \<Rightarrow> string) \<Rightarrow> transaction_record \<Rightarrow> string list" where
  "exported_row dateText r = [dateText (tr_timestamp r), (if tr_success r then ''success'' else ''failed''), nat_dec (length (tr_archivedKeys r)),
     int_dec (tr_durationMs r), or_empty (tr_originalTxHash r), or_empty (tr_restoreTxHash r), or_empty (tr_error r)]"

definition quote_free :: "string \<Rightarrow> bool" where
  "quote_free s \<longleftrightarrow> CHR 0x22 \<notin> set s"

lemma undoubled: "quote_free s \<Longrightarrow> double_quotes s = s"
  by (induction s) (auto simp: double_quotes_def quote_free_def)

lemma number_quote_free: "quote_free (nat_dec n)" "quote_free (int_dec z)"
  using nat_dec_digits [of n] nat_dec_digits [of "nat z"] nat_dec_digits [of "nat (- z)"]
  by (auto simp: quote_free_def int_dec_def list_all_iff is_digit_def)

text \<open>
  C38: the exported text, read as comma-separated values, gives the header and one row per record with its fields as they
  were, whatever the error message contains; hashes and dates are taken to be free of quotation marks.
\<close>

theorem csv_export_roundtrip:
  assumes "\<forall>t. quote_free (dateText t)"
    and "list_all (\<lambda>r. quote_free (or_empty (tr_originalTxHash r)) \<and> quote_free (or_empty (tr_restoreTxHash r))) records"
  shows "csv_parse (toCSV dateText records) = Some (csv_header # map (exported_row dateText) records)"
proof -
  have "csv_row dateText r = map double_quotes (exported_row dateText r)" if "r \<in> set records" for r
    using that assms number_quote_free
    by (auto simp: csv_row_def exported_row_def list_all_iff undoubled) (simp_all add: undoubled quote_free_def)
  then have "map (csv_row dateText) records = map (map double_quotes) (map (exported_row dateText) records)" by simp
  moreover have "csv_header = map double_quotes csv_header" by (simp add: csv_header_def undoubled quote_free_def)
  ultimately have "csv_header # map (csv_row dateText) records = map (map double_quotes) (csv_header # map (exported_row dateText) records)" by simp
  then show ?thesis unfolding toCSV_def using read_lines [of "csv_header # map (exported_row dateText) records"]
    by (simp only: list.simps) (simp add: list_all_iff exported_row_def csv_header_def)
qed

theorem csv_export_roundtrip_witness:
  "csv_parse (toCSV (\<lambda>t. ''1970'') [(brief_record ''a'' False 0)\<lparr>tr_error := Some (''say '' @ [CHR 0x22] @ ''no, never'')\<rparr>]) =
     Some [csv_header, [''1970'', ''failed'', ''0'', ''0'', [], [], ''say '' @ [CHR 0x22] @ ''no, never'']]"
proof -
  have "csv_parse (toCSV (\<lambda>t. ''1970'') [(brief_record ''a'' False 0)\<lparr>tr_error := Some (''say '' @ [CHR 0x22] @ ''no, never'')\<rparr>]) =
      Some (csv_header # map (exported_row (\<lambda>t. ''1970'')) [(brief_record ''a'' False 0)\<lparr>tr_error := Some (''say '' @ [CHR 0x22] @ ''no, never'')\<rparr>])"
    by (rule csv_export_roundtrip) (simp_all add: quote_free_def brief_record_def or_empty_def)
  moreover have "nat_dec 0 = ''0''" by code_simp
  ultimately show ?thesis by (simp add: exported_row_def brief_record_def or_empty_def int_dec_def)
qed

text \<open>The other columns are put between quotation marks without doubling those inside.\<close>

lemma unescaped_column_misread: "csv_parse (csv_cell [CHR 0x22, CHR ''a''] @ '',b'') = None"
  by code_simp

text \<open>
  The table: a filter keeps exactly its records, newest first and in their order where they are equally old, and the
  counts are the sizes of what each filter shows.
\<close>

lemma history_table:
  "mset (filtered f rs) = mset (filter (in_filter f) rs)" "sorted (map (\<lambda>r. - tr_timestamp r) (filtered f rs))"
  "filter (\<lambda>r. tr_timestamp r = t) (filtered f rs) = filter (\<lambda>r. in_filter f r \<and> tr_timestamp r = t) rs"
  "counts rs = (length (filtered ShowAll rs), length (filtered ShowSuccess rs), length (filtered ShowFailed rs))"
proof -
  show "mset (filtered f rs) = mset (filter (in_filter f) rs)" "sorted (map (\<lambda>r. - tr_timestamp r) (filtered f rs))"
    by (simp_all add: filtered_def)
  have "filter (\<lambda>r. - tr_timestamp r = - t) (filtered f rs) = filter (\<lambda>r. - tr_timestamp r = - t) (filter (in_filter f) rs)"
    by (simp only: filtered_def sort_key_stable)
  then show "filter (\<lambda>r. tr_timestamp r = t) (filtered f rs) = filter (\<lambda>r. in_filter f r \<and> tr_timestamp r = t) rs"
    by (simp add: filter_filter conj_commute)
  show "counts rs = (length (filtered ShowAll rs), length (filtered ShowSuccess rs), length (filtered ShowFailed rs))"
    by (simp add: counts_def filtered_def in_filter_def [abs_def])
qed

text \<open>Bytes written in hexadecimal are read back, with and without the prefix.\<close>

definition byte_hex :: "nat \<Rightarrow> string" where
  "byte_hex b = [hex_digit (b div 16), hex_digit (b mod 16)]"

lemma hex_char_digit: "d < 16 \<Longrightarrow> hex_char (hex_digit d) = Some d \<and> \<not> is_ws (hex_digit d) \<and> hex_digit d \<noteq> CHR ''x''"
proof -
  assume "d < 16"
  then have hex: "hex_char (hex_digit d) = Some d"
    by (cases "d < 10") (simp_all add: hex_char_def hex_digit_def of_char_of Let_def)
  moreover have "hex_char c = None" if "is_ws c" for c using that by (auto simp: is_ws_def hex_char_def Let_def)
  moreover have "hex_char (CHR ''x'') = None" by (simp add: hex_char_def)
  ultimately show ?thesis by force
qed

lemma hex_bytes_read:
  "list_all (\<lambda>b. b < 256) bs \<Longrightarrow> hexToBytes (concat (map byte_hex bs)) = bs \<and> hexToBytes (''0x'' @ concat (map byte_hex bs)) = bs"
proof -
  assume bs: "list_all (\<lambda>b. b < 256) bs"
  have small: "b div 16 < 16 \<and> b mod 16 < 16" if "b < 256" for b :: nat using that by auto
  have parse: "parse_pairs (concat (map byte_hex bs)) = bs"
    using bs by (induction bs) (use small hex_char_digit in \<open>auto simp: byte_hex_def parse_pair_def\<close>)
  have blank: "filter (\<lambda>c. \<not> is_ws c) (concat (map byte_hex bs)) = concat (map byte_hex bs)"
    using bs by (induction bs) (use small hex_char_digit in \<open>auto simp: byte_hex_def\<close>)
  have "take 2 (concat (map byte_hex bs)) \<noteq> ''0x''"
    using bs small hex_char_digit by (cases bs) (auto simp: byte_hex_def)
  then show ?thesis by (simp add: hexToBytes_def blank parse)
qed

end
