(* ===== verification/TxWizard.thy ===== *)
theory TxWizard
  imports ExampleApp
begin

text \<open>
  The transaction builder of the example application (\<open>packages/example/src/TransactionBuilder.tsx\<close>) as a state
  machine: what each input and button does in the step that shows it, and the notifications of \<open>components.tsx\<close>.
  The Stellar SDK is a record of functions over opaque values; what it throws is carried as its message. The hook and
  the wallet answer by events, after the call they answer.
\<close>

section \<open>Arguments\<close>

datatype arg_type = TyAddress | TyU64 | TyI128 | TyBytes | TyString

record arg_row =
  ar_type :: arg_type
  ar_value :: string

datatype native = NatText string | NatInteger int | NatBytes "nat list"

datatype network_id = OnTestnet | OnFuturenet | OnCustom

record 'o stellar_sdk =
  sl_passphrase :: "network_id \<Rightarrow> string"
  sl_BASE_FEE :: string
  sl_nativeToScVal :: "native \<Rightarrow> arg_type \<Rightarrow> string + 'o"
  sl_Account :: "string \<Rightarrow> string \<Rightarrow> string + 'o"
  sl_Contract :: "string \<Rightarrow> string + 'o"
  sl_call :: "'o \<Rightarrow> string \<Rightarrow> 'o list \<Rightarrow> string + 'o"
  sl_build :: "'o \<Rightarrow> string \<Rightarrow> string \<Rightarrow> 'o \<Rightarrow> nat \<Rightarrow> string + string"

text \<open>\<open>BigInt(s)\<close> also reads digits of another radix after \<open>0x\<close>, \<open>0o\<close> or \<open>0b\<close>.\<close>

definition radix_value :: "nat \<Rightarrow> string \<Rightarrow> int option" where
  "radix_value r ds = (if ds = [] \<or> \<not> list_all (\<lambda>c. case hex_char c of None \<Rightarrow> False | Some v \<Rightarrow> v < r) ds then None
     else Some (foldl (\<lambda>n c. n * int r + int (the (hex_char c))) 0 ds))"

definition radix_of :: "char \<Rightarrow> nat option" where
  "radix_of p = (if p \<in> {CHR ''x'', CHR ''X''} then Some 16 else if p \<in> {CHR ''o'', CHR ''O''} then Some 8
     else if p \<in> {CHR ''b'', CHR ''B''} then Some 2 else None)"

definition bigint_text :: "string \<Rightarrow> string + int" where
  "bigint_text s = (case (case js_trim s of
       z # p # ds \<Rightarrow> (case radix_of p of Some r \<Rightarrow> if z = CHR ''0'' then radix_value r ds else None | None \<Rightarrow> js_BigInt s)
     | _ \<Rightarrow> js_BigInt s) of
       Some n \<Rightarrow> Inr n
     | None \<Rightarrow> Inl (''Cannot convert '' @ s @ '' to a BigInt''))"

definition zero_if_empty :: "string \<Rightarrow> string" where
  "zero_if_empty s = (if s = [] then ''0'' else s)"

definition toScVal :: "'o stellar_sdk \<Rightarrow> arg_row \<Rightarrow> string + 'o" where
  "toScVal sdk row = (let v = ar_value row; convert = sl_nativeToScVal sdk;
       integer = (\<lambda>t. case bigint_text (zero_if_empty (js_trim v)) of Inl e \<Rightarrow> Inl e | Inr n \<Rightarrow> convert (NatInteger n) t)
     in case ar_type row of
       TyAddress \<Rightarrow> convert (NatText (js_trim v)) TyAddress
     | TyU64 \<Rightarrow> integer TyU64
     | TyI128 \<Rightarrow> integer TyI128
     | TyBytes \<Rightarrow> convert (NatBytes (hexToBytes v)) TyBytes
     | TyString \<Rightarrow> convert (NatText v) TyString)"

fun toScVals :: "'o stellar_sdk \<Rightarrow> arg_row list \<Rightarrow> string + 'o list" where
  "toScVals sdk [] = Inr []"
| "toScVals sdk (row # rows) = (case toScVal sdk row of
     Inl e \<Rightarrow> Inl e
   | Inr x \<Rightarrow> (case toScVals sdk rows of Inl e \<Rightarrow> Inl e | Inr xs \<Rightarrow> Inr (x # xs)))"

section \<open>The wizard\<close>

datatype toast_kind = ToastSuccess | ToastError | ToastInfo

record toast =
  to_id :: nat
  to_message :: string
  to_kind :: toast_kind

text \<open>An execution is given a signer that asks the wallet for the network of the moment: the last field.\<close>

datatype wizard_call =
    WizCheckTransaction string string string
  | WizExecuteWithRestore string string string string

record wizard =
  wz_step :: nat
  wz_network :: network_id
  wz_customRpc :: string
  wz_customPassphrase :: string
  wz_contractId :: string
  wz_method :: string
  wz_args :: "arg_row list"
  wz_feeOverride :: string
  wz_xdrOut :: string
  wz_buildError :: "string option"
  wz_sourceAccount :: "string option"
  wz_toasts :: "toast list"
  wz_calls :: "wizard_call list"

definition FIRST_CONTRACT :: string where
  "FIRST_CONTRACT = ''CDLZFC3SYJYDZT7K67VZ75HPJVIEUVNIXF47ZG2FB2RMQQVU2HHGCYSC''"

definition wizard_new :: "string option \<Rightarrow> wizard" where
  "wizard_new source = \<lparr>wz_step = 1, wz_network = OnTestnet, wz_customRpc = [], wz_customPassphrase = [],
     wz_contractId = FIRST_CONTRACT, wz_method = [], wz_args = [], wz_feeOverride = [], wz_xdrOut = [],
     wz_buildError = None, wz_sourceAccount = source, wz_toasts = [], wz_calls = []\<rparr>"

definition NETWORKS_rpcUrl :: "network_id \<Rightarrow> string" where
  "NETWORKS_rpcUrl n = (if n = OnFuturenet then ''https://rpc-futurenet.stellar.org'' else ''https://soroban-testnet.stellar.org'')"

definition resolved :: "'o stellar_sdk \<Rightarrow> wizard \<Rightarrow> string \<times> string" where
  "resolved sdk s = (if wz_network s = OnCustom then (wz_customRpc s, wz_customPassphrase s)
     else (NETWORKS_rpcUrl (wz_network s), sl_passphrase sdk (wz_network s)))"

definition effective_fee :: "'o stellar_sdk \<Rightarrow> wizard \<Rightarrow> string" where
  "effective_fee sdk s = (let f = js_trim (wz_feeOverride s) in if f = [] then sl_BASE_FEE sdk else f)"

text \<open>The block under \<open>try\<close>: the text of the transaction, or the message of what was thrown first.\<close>

definition built_xdr :: "'o stellar_sdk \<Rightarrow> string \<Rightarrow> wizard \<Rightarrow> string + string" where
  "built_xdr sdk sourceAccount s = (case sl_Account sdk sourceAccount ''0'' of
     Inl e \<Rightarrow> Inl e
   | Inr source \<Rightarrow> (case sl_Contract sdk (wz_contractId s) of
       Inl e \<Rightarrow> Inl e
     | Inr contract \<Rightarrow> (case toScVals sdk (wz_args s) of
         Inl e \<Rightarrow> Inl e
       | Inr vs \<Rightarrow> (case sl_call sdk contract (js_trim (wz_method s)) vs of
           Inl e \<Rightarrow> Inl e
         | Inr op \<Rightarrow> sl_build sdk source (effective_fee sdk s) (snd (resolved sdk s)) op 30))))"

definition buildXdr :: "'o stellar_sdk \<Rightarrow> wizard \<Rightarrow> wizard" where
  "buildXdr sdk s = (if \<not> truthy_str (wz_sourceAccount s)
     then s\<lparr>wz_buildError := Some ''Connect Freighter first to set the transaction source account.''\<rparr>
     else case built_xdr sdk (the (wz_sourceAccount s)) s of
         Inl e \<Rightarrow> s\<lparr>wz_buildError := Some e\<rparr>
       | Inr built \<Rightarrow> s\<lparr>wz_buildError := None, wz_xdrOut := built, wz_step := 3\<rparr>)"

definition push_toast :: "nat \<Rightarrow> string \<Rightarrow> toast_kind \<Rightarrow> wizard \<Rightarrow> wizard" where
  "push_toast i message kind s = s\<lparr>wz_toasts := wz_toasts s @ [\<lparr>to_id = i, to_message = message, to_kind = kind\<rparr>]\<rparr>"

definition expire_toast :: "nat \<Rightarrow> wizard \<Rightarrow> wizard" where
  "expire_toast i s = s\<lparr>wz_toasts := filter (\<lambda>x. to_id x \<noteq> i) (wz_toasts s)\<rparr>"

definition wizard_asks :: "wizard_call \<Rightarrow> wizard \<Rightarrow> wizard" where
  "wizard_asks c s = s\<lparr>wz_calls := wz_calls s @ [c]\<rparr>"

definition runCheck_start :: "'o stellar_sdk \<Rightarrow> wizard \<Rightarrow> wizard" where
  "runCheck_start sdk s = (case resolved sdk s of (url, passphrase) \<Rightarrow>
     wizard_asks (WizCheckTransaction url passphrase (wz_xdrOut s)) s)"

definition runCheck_answered :: "nat \<Rightarrow> string + bool \<times> nat \<Rightarrow> wizard \<Rightarrow> wizard" where
  "runCheck_answered i answer s = (case answer of
     Inl e \<Rightarrow> push_toast i e ToastError s
   | Inr (needsRestoration, archived) \<Rightarrow>
       if needsRestoration then push_toast i (''Restoration needed: '' @ nat_dec archived @ '' archived key(s)'') ToastInfo s
       else push_toast i ''No restoration needed - ready to execute'' ToastSuccess s)"

definition runExecute_start :: "'o stellar_sdk \<Rightarrow> nat \<Rightarrow> wizard \<Rightarrow> wizard" where
  "runExecute_start sdk i s = (if \<not> truthy_str (wz_sourceAccount s)
     then push_toast i ''Connect Freighter before executing'' ToastError s
     else case resolved sdk s of (url, passphrase) \<Rightarrow>
       wizard_asks (WizExecuteWithRestore url passphrase (wz_xdrOut s) passphrase) s)"

definition runExecute_answered :: "nat \<Rightarrow> string + bool \<times> nat \<Rightarrow> wizard \<Rightarrow> wizard" where
  "runExecute_answered i answer s = (case answer of
     Inl e \<Rightarrow> push_toast i e ToastError s
   | Inr (success, entriesRestored) \<Rightarrow>
       if success then push_toast i (''Executed. Restored '' @ nat_dec entriesRestored @ '' entr'' @
           (if entriesRestored = 1 then ''y'' else ''ies'') @ ''.'') ToastSuccess s
       else push_toast i ''Execution reported failure'' ToastError s)"

definition signWithFreighter :: "(string \<Rightarrow> string \<Rightarrow> string + string) option \<Rightarrow> string \<Rightarrow> string \<Rightarrow> string + string" where
  "signWithFreighter freighter passphrase unsignedXdr = (case freighter of
     None \<Rightarrow> Inl ''Freighter not connected''
   | Some signTransaction \<Rightarrow> signTransaction unsignedXdr passphrase)"

text \<open>An event acts only where the step shows its input, and a disabled button does nothing; that a button is
  disabled while its own call runs is left out, so the model has more runs than the page.\<close>

datatype wizard_event =
    WzAccount "string option"
  | WzNetwork network_id | WzCustomRpc string | WzCustomPassphrase string | WzContract string | WzNext
  | WzMethod string | WzAddArg | WzArgType nat arg_type | WzArgValue nat string | WzRemoveArg nat | WzFee string
  | WzGenerate | WzBack
  | WzCheck | WzChecked nat "string + bool \<times> nat" | WzExecute nat | WzExecuted nat "string + bool \<times> nat"
  | WzToastTimer nat

definition remove_at :: "nat \<Rightarrow> 'a list \<Rightarrow> 'a list" where
  "remove_at i xs = take i xs @ drop (Suc i) xs"

definition edit_step1 :: "wizard_event \<Rightarrow> wizard \<Rightarrow> wizard" where
  "edit_step1 e s = (case e of
     WzNetwork n \<Rightarrow> s\<lparr>wz_network := n\<rparr>
   | WzCustomRpc t \<Rightarrow> if wz_network s = OnCustom then s\<lparr>wz_customRpc := t\<rparr> else s
   | WzCustomPassphrase t \<Rightarrow> if wz_network s = OnCustom then s\<lparr>wz_customPassphrase := t\<rparr> else s
   | WzContract t \<Rightarrow> s\<lparr>wz_contractId := t\<rparr>
   | WzNext \<Rightarrow> if js_trim (wz_contractId s) = [] then s else s\<lparr>wz_step := 2\<rparr>
   | _ \<Rightarrow> s)"

definition edit_step2 :: "'o stellar_sdk \<Rightarrow> wizard_event \<Rightarrow> wizard \<Rightarrow> wizard" where
  "edit_step2 sdk e s = (case e of
     WzMethod t \<Rightarrow> s\<lparr>wz_method := t\<rparr>
   | WzAddArg \<Rightarrow> s\<lparr>wz_args := wz_args s @ [\<lparr>ar_type = TyAddress, ar_value = []\<rparr>]\<rparr>
   | WzArgType i t \<Rightarrow> if i < length (wz_args s) then s\<lparr>wz_args := (wz_args s)[i := (wz_args s ! i)\<lparr>ar_type := t\<rparr>]\<rparr> else s
   | WzArgValue i v \<Rightarrow> if i < length (wz_args s) then s\<lparr>wz_args := (wz_args s)[i := (wz_args s ! i)\<lparr>ar_value := v\<rparr>]\<rparr> else s
   | WzRemoveArg i \<Rightarrow> s\<lparr>wz_args := remove_at i (wz_args s)\<rparr>
   | WzFee t \<Rightarrow> s\<lparr>wz_feeOverride := t\<rparr>
   | WzBack \<Rightarrow> s\<lparr>wz_step := 1\<rparr>
   | WzGenerate \<Rightarrow> if js_trim (wz_method s) = [] then s else buildXdr sdk s
   | _ \<Rightarrow> s)"

definition press_step3 :: "'o stellar_sdk \<Rightarrow> wizard_event \<Rightarrow> wizard \<Rightarrow> wizard" where
  "press_step3 sdk e s = (case e of
     WzBack \<Rightarrow> s\<lparr>wz_step := 2\<rparr>
   | WzCheck \<Rightarrow> runCheck_start sdk s
   | WzExecute i \<Rightarrow> runExecute_start sdk i s
   | _ \<Rightarrow> s)"

definition wizard_step :: "'o stellar_sdk \<Rightarrow> wizard_event \<Rightarrow> wizard \<Rightarrow> wizard" where
  "wizard_step sdk e s = (case e of
     WzAccount a \<Rightarrow> s\<lparr>wz_sourceAccount := a\<rparr>
   | WzChecked i r \<Rightarrow> runCheck_answered i r s
   | WzExecuted i r \<Rightarrow> runExecute_answered i r s
   | WzToastTimer i \<Rightarrow> expire_toast i s
   | _ \<Rightarrow> if wz_step s = 1 then edit_step1 e s else if wz_step s = 2 then edit_step2 sdk e s else press_step3 sdk e s)"

definition wizard_run :: "'o stellar_sdk \<Rightarrow> wizard_event list \<Rightarrow> wizard \<Rightarrow> wizard" where
  "wizard_run sdk es s = fold (wizard_step sdk) es s"

section \<open>What is shown is what was built\<close>

text \<open>
  In the last step the text shown is the transaction built from the inputs as they stand, for an account that was
  connected when it was built; and each call to the hook is about a transaction that was built for the endpoint and
  the network the call names, with a contract and a method.
\<close>

definition built_for :: "'o stellar_sdk \<Rightarrow> wizard \<Rightarrow> string \<Rightarrow> bool" where
  "built_for sdk s x \<longleftrightarrow> (\<exists>a. a \<noteq> [] \<and> built_xdr sdk a s = Inr x) \<and> js_trim (wz_contractId s) \<noteq> [] \<and> js_trim (wz_method s) \<noteq> []"

fun call_backed :: "'o stellar_sdk \<Rightarrow> wizard_call \<Rightarrow> bool" where
  "call_backed sdk (WizCheckTransaction url passphrase x) = (\<exists>t. built_for sdk t x \<and> resolved sdk t = (url, passphrase))"
| "call_backed sdk (WizExecuteWithRestore url passphrase x signing) =
    (signing = passphrase \<and> (\<exists>t. built_for sdk t x \<and> resolved sdk t = (url, passphrase)))"

definition wizard_ok :: "'o stellar_sdk \<Rightarrow> wizard \<Rightarrow> bool" where
  "wizard_ok sdk s \<longleftrightarrow> wz_step s \<in> {1, 2, 3} \<and> (1 < wz_step s \<longrightarrow> js_trim (wz_contractId s) \<noteq> []) \<and>
     (wz_step s = 3 \<longrightarrow> built_for sdk s (wz_xdrOut s)) \<and> list_all (call_backed sdk) (wz_calls s)"

text \<open>What was built depends on the inputs only.\<close>

lemma resolved_inputs [simp]:
  "resolved sdk (s\<lparr>wz_step := n\<rparr>) = resolved sdk s" "resolved sdk (s\<lparr>wz_xdrOut := x\<rparr>) = resolved sdk s"
  "resolved sdk (s\<lparr>wz_buildError := b\<rparr>) = resolved sdk s" "resolved sdk (s\<lparr>wz_sourceAccount := a\<rparr>) = resolved sdk s"
  "resolved sdk (s\<lparr>wz_toasts := ts\<rparr>) = resolved sdk s" "resolved sdk (s\<lparr>wz_calls := cs\<rparr>) = resolved sdk s"
  by (simp_all add: resolved_def)

lemma built_inputs [simp]:
  "built_xdr sdk c (s\<lparr>wz_step := n\<rparr>) = built_xdr sdk c s" "built_xdr sdk c (s\<lparr>wz_xdrOut := x\<rparr>) = built_xdr sdk c s"
  "built_xdr sdk c (s\<lparr>wz_buildError := b\<rparr>) = built_xdr sdk c s" "built_xdr sdk c (s\<lparr>wz_sourceAccount := a\<rparr>) = built_xdr sdk c s"
  "built_xdr sdk c (s\<lparr>wz_toasts := ts\<rparr>) = built_xdr sdk c s" "built_xdr sdk c (s\<lparr>wz_calls := cs\<rparr>) = built_xdr sdk c s"
  by (simp_all add: built_xdr_def effective_fee_def cong: sum.case_cong)

lemma built_for_inputs [simp]:
  "built_for sdk (s\<lparr>wz_step := n\<rparr>) = built_for sdk s" "built_for sdk (s\<lparr>wz_xdrOut := x\<rparr>) = built_for sdk s"
  "built_for sdk (s\<lparr>wz_buildError := b\<rparr>) = built_for sdk s" "built_for sdk (s\<lparr>wz_sourceAccount := a\<rparr>) = built_for sdk s"
  "built_for sdk (s\<lparr>wz_toasts := ts\<rparr>) = built_for sdk s" "built_for sdk (s\<lparr>wz_calls := cs\<rparr>) = built_for sdk s"
  by (rule ext, simp add: built_for_def)+

lemma wizard_ok_unseen [simp]:
  "wizard_ok sdk (s\<lparr>wz_buildError := b\<rparr>) = wizard_ok sdk s" "wizard_ok sdk (s\<lparr>wz_sourceAccount := a\<rparr>) = wizard_ok sdk s"
  "wizard_ok sdk (s\<lparr>wz_toasts := ts\<rparr>) = wizard_ok sdk s" "wizard_ok sdk (push_toast i m k s) = wizard_ok sdk s"
  "wizard_ok sdk (expire_toast i s) = wizard_ok sdk s"
  by (simp_all add: wizard_ok_def push_toast_def expire_toast_def)

lemma wizard_new_ok: "wizard_ok sdk (wizard_new source)"
  by (simp add: wizard_ok_def wizard_new_def)

lemma build_ok: "wz_step s = 2 \<Longrightarrow> js_trim (wz_method s) \<noteq> [] \<Longrightarrow> wizard_ok sdk s \<Longrightarrow> wizard_ok sdk (buildXdr sdk s)"
  by (auto simp: buildXdr_def truthy_str_def split: sum.split option.splits) (auto simp: wizard_ok_def built_for_def)

lemma edit1_ok: "wz_step s = 1 \<Longrightarrow> wizard_ok sdk s \<Longrightarrow> wizard_ok sdk (edit_step1 e s)"
  by (cases e) (auto simp: edit_step1_def wizard_ok_def)

lemma edit2_ok: "wz_step s = 2 \<Longrightarrow> wizard_ok sdk s \<Longrightarrow> wizard_ok sdk (edit_step2 sdk e s)"
  by (cases e) (auto simp: edit_step2_def build_ok, auto simp: wizard_ok_def)

lemma press3_ok: "wz_step s = 3 \<Longrightarrow> wizard_ok sdk s \<Longrightarrow> wizard_ok sdk (press_step3 sdk e s)"
  by (cases e) (auto simp: press_step3_def runCheck_start_def runExecute_start_def wizard_asks_def split: prod.split,
      auto simp: wizard_ok_def)

lemma wizard_answers_ok [simp]:
  "wizard_ok sdk (runCheck_answered i r s) = wizard_ok sdk s" "wizard_ok sdk (runExecute_answered i r s) = wizard_ok sdk s"
  by (auto simp: runCheck_answered_def runExecute_answered_def split: sum.split prod.split)

lemma wizard_step_ok: "wizard_ok sdk s \<Longrightarrow> wizard_ok sdk (wizard_step sdk e s)"
proof -
  assume ok: "wizard_ok sdk s"
  then have "wz_step s \<in> {1, 2, 3}" by (simp add: wizard_ok_def)
  with ok show ?thesis by (cases e) (auto simp: wizard_step_def intro: edit1_ok edit2_ok press3_ok)
qed

theorem wizard_shows_what_it_built:
  "wizard_ok sdk (wizard_run sdk es (wizard_new source))"
proof -
  have "wizard_ok sdk s \<Longrightarrow> wizard_ok sdk (fold (wizard_step sdk) es s)" for s
    by (induction es arbitrary: s) (simp_all add: wizard_step_ok)
  then show ?thesis by (simp add: wizard_run_def wizard_new_ok)
qed

text \<open>
  The account is not among the inputs: one that is changed in the last step leaves the transaction of the former
  account to be executed.
\<close>

lemma former_account_executed:
  assumes "wz_step s = 3" and "a \<noteq> []" and "wz_network s = OnTestnet"
  shows "wz_calls (wizard_run sdk [WzAccount (Some a), WzExecute i] s) = wz_calls s @
    [WizExecuteWithRestore (NETWORKS_rpcUrl OnTestnet) (sl_passphrase sdk OnTestnet) (wz_xdrOut s) (sl_passphrase sdk OnTestnet)]"
  using assms by (simp add: wizard_run_def wizard_step_def press_step3_def runExecute_start_def wizard_asks_def truthy_str_def resolved_def)

text \<open>A notification is shown from its event to its timer.\<close>

lemma toast_shown_until_timer:
  "expire_toast i (push_toast i m k s) = expire_toast i s"
  "i \<noteq> j \<Longrightarrow> wz_toasts (expire_toast j (push_toast i m k s)) = wz_toasts (expire_toast j s) @ [\<lparr>to_id = i, to_message = m, to_kind = k\<rparr>]"
  by (simp_all add: expire_toast_def push_toast_def)

end
