(* ===== verification/ExamplePage.thy ===== *)
theory ExamplePage
  imports ExampleApp WalletProvider
begin

text \<open>
  The page of the example application: its colour theme (\<open>packages/example/src/theme.ts\<close> and the \<open>ThemeProvider\<close> of
  \<open>components.tsx\<close>) and its Freighter wallet (\<open>WithdrawButton\<close> in \<open>App.tsx\<close>). The window is a record of what its
  browser has and answers; what the page shows in dialogs and writes to the console is kept in lists.
\<close>

section \<open>Theme\<close>

datatype theme_mode = Light | Dark

definition mode_text :: "theme_mode \<Rightarrow> string" where
  "mode_text m = (case m of Light \<Rightarrow> ''light'' | Dark \<Rightarrow> ''dark'')"

definition palettes :: "theme_mode \<Rightarrow> (string \<times> string) list" where
  "palettes m = (case m of
     Light \<Rightarrow> [(''--bg'', ''#ffffff''), (''--surface'', ''#f8f9fa''), (''--border'', ''#d0d7de''), (''--text'', ''#1f2328''),
       (''--text-muted'', ''#656d76''), (''--primary'', ''#0d6efd''), (''--primary-contrast'', ''#ffffff''),
       (''--success-bg'', ''#d4edda''), (''--success-text'', ''#155724''), (''--warning-bg'', ''#fff3cd''),
       (''--warning-text'', ''#7a5b00''), (''--danger-bg'', ''#f8d7da''), (''--danger-text'', ''#721c24'')]
   | Dark \<Rightarrow> [(''--bg'', ''#0d1117''), (''--surface'', ''#161b22''), (''--border'', ''#30363d''), (''--text'', ''#e6edf3''),
       (''--text-muted'', ''#8b949e''), (''--primary'', ''#4493f8''), (''--primary-contrast'', ''#0d1117''),
       (''--success-bg'', ''#132d1b''), (''--success-text'', ''#4ac26b''), (''--warning-bg'', ''#2d2410''),
       (''--warning-text'', ''#d29922''), (''--danger-bg'', ''#301a1c''), (''--danger-text'', ''#f47a7a'')])"

definition THEME_KEY :: string where
  "THEME_KEY = ''soroban-resurrect-theme''"

text \<open>
  \<open>tp_readable\<close> is whether reading the storage throws, \<open>tp_prefers\<close> the answer of \<open>matchMedia\<close>, where the browser
  has it; \<open>tp_style\<close> holds the properties of the root element.
\<close>

record page =
  tp_window :: bool
  tp_readable :: bool
  tp_storage :: local_storage
  tp_prefers :: "bool option"
  tp_style :: "(string, string) js_map"
  tp_colorScheme :: string

definition stored_theme :: "page \<Rightarrow> string option" where
  "stored_theme p = (if tp_readable p \<and> ls_present (tp_storage p) then jget (ls_items (tp_storage p)) THEME_KEY else None)"

definition getInitialTheme :: "page \<Rightarrow> theme_mode" where
  "getInitialTheme p =
    (if \<not> tp_window p then Light
     else if stored_theme p = Some ''light'' then Light
     else if stored_theme p = Some ''dark'' then Dark
     else if tp_prefers p = Some True then Dark else Light)"

definition setProperties :: "(string \<times> string) list \<Rightarrow> (string, string) js_map \<Rightarrow> (string, string) js_map" where
  "setProperties ps style = foldl (\<lambda>st (k, v). jset st k v) style ps"

definition save_theme :: "theme_mode \<Rightarrow> local_storage \<Rightarrow> local_storage" where
  "save_theme mode ls = (if ls_present ls \<and> ls_writes ls
     then ls\<lparr>ls_items := jset (ls_items ls) THEME_KEY (mode_text mode)\<rparr> else ls)"

definition applyTheme :: "theme_mode \<Rightarrow> page \<Rightarrow> page" where
  "applyTheme mode p =
    (if \<not> tp_window p then p
     else p\<lparr>tp_style := setProperties (palettes mode) (tp_style p), tp_colorScheme := mode_text mode,
            tp_storage := save_theme mode (tp_storage p)\<rparr>)"

definition opposite :: "theme_mode \<Rightarrow> theme_mode" where
  "opposite m = (if m = Light then Dark else Light)"

text \<open>The provider: the effect of a render with a new mode applies it.\<close>

definition theme_mount :: "page \<Rightarrow> theme_mode \<times> page" where
  "theme_mount p = (let mode = getInitialTheme p in (mode, applyTheme mode p))"

lemma theme_mount_mode: "fst (theme_mount p) = getInitialTheme p"
  by (simp add: theme_mount_def Let_def)

definition theme_toggle :: "theme_mode \<times> page \<Rightarrow> theme_mode \<times> page" where
  "theme_toggle s = (let mode = opposite (fst s) in (mode, applyTheme mode (snd s)))"

text \<open>Both palettes set the same properties, so nothing of the old theme stays.\<close>

lemma palettes_keys: "map fst (palettes m) = map fst (palettes n)" "distinct (map fst (palettes m))"
  by (cases m; cases n; simp add: palettes_def)+

lemma setProperties_get:
  assumes "distinct (map fst ps)"
  shows "jget (setProperties ps st) k = (case map_of ps k of Some v \<Rightarrow> Some v | None \<Rightarrow> jget st k)"
  using assms
proof (induction ps arbitrary: st)
  case (Cons q ps)
  obtain a b where q: "q = (a, b)" by (cases q)
  have "setProperties (q # ps) st = setProperties ps (jset st a b)"
    by (simp add: setProperties_def q)
  then show ?case
    using Cons q by (auto simp: jget_set map_of_eq_None_iff rev_image_eqI split: option.splits)
qed (simp add: setProperties_def)

definition shows_theme :: "theme_mode \<Rightarrow> page \<Rightarrow> bool" where
  "shows_theme m p = (tp_colorScheme p = mode_text m \<and> (\<forall>(k, v) \<in> set (palettes m). jget (tp_style p) k = Some v))"

lemma applyTheme_shows: "tp_window p \<Longrightarrow> shows_theme m (applyTheme m p)"
  using palettes_keys(2) [of m]
  by (auto simp: shows_theme_def applyTheme_def setProperties_get)

lemma opposite_twice [simp]: "opposite (opposite m) = m"
  by (cases m) (simp_all add: opposite_def)

lemma toggled:
  assumes "shows_theme (fst s) (snd s)" "tp_window (snd s)"
  shows "shows_theme (fst ((theme_toggle ^^ n) s)) (snd ((theme_toggle ^^ n) s)) \<and> tp_window (snd ((theme_toggle ^^ n) s)) \<and>
    fst ((theme_toggle ^^ n) s) = (if even n then fst s else opposite (fst s))"
  using assms
  by (induction n) (auto simp: theme_toggle_def Let_def applyTheme_shows, auto simp: applyTheme_def)

text \<open>The storage has the mode that is shown.\<close>

definition remembers :: "theme_mode \<times> page \<Rightarrow> bool" where
  "remembers s = (tp_window (snd s) \<and> ls_present (tp_storage (snd s)) \<and> ls_writes (tp_storage (snd s)) \<and>
     jget (ls_items (tp_storage (snd s))) THEME_KEY = Some (mode_text (fst s)))"

lemma remembers_toggle: "remembers s \<Longrightarrow> remembers (theme_toggle s)"
  by (auto simp: remembers_def theme_toggle_def Let_def applyTheme_def save_theme_def jget_set)

lemma remembers_toggles: "remembers s \<Longrightarrow> remembers ((theme_toggle ^^ n) s)"
  by (induction n) (auto simp: remembers_toggle)

text \<open>
  After any number of toggles the page shows the mode of the provider, with every property of its palette; and a page
  loaded later on the same storage starts with that mode.
\<close>

theorem theme_persists:
  assumes "tp_window p" "tp_readable p" "ls_present (tp_storage p)" "ls_writes (tp_storage p)"
    and s: "s = (theme_toggle ^^ n) (theme_mount p)"
    and "tp_window q" "tp_readable q" "tp_storage q = tp_storage (snd s)"
  shows "shows_theme (fst s) (snd s) \<and> fst s = (if even n then getInitialTheme p else opposite (getInitialTheme p)) \<and>
    fst (theme_mount q) = fst s"
proof -
  have m: "shows_theme (fst (theme_mount p)) (snd (theme_mount p))" "tp_window (snd (theme_mount p))"
    using assms(1) applyTheme_shows [of p] by (auto simp: theme_mount_def Let_def) (simp add: applyTheme_def)
  have "remembers (theme_mount p)"
    using assms(1-4) by (auto simp: remembers_def theme_mount_def Let_def applyTheme_def save_theme_def jget_set)
  then have "remembers s" using s by (simp add: remembers_toggles)
  then have "getInitialTheme q = fst s"
    using assms(6-8) by (cases "fst s") (auto simp: remembers_def getInitialTheme_def stored_theme_def mode_text_def)
  then show ?thesis
    using toggled [OF m, of n] by (auto simp: s theme_mount_mode split: if_splits)
qed

section \<open>The wallet and the page\<close>

record freighter_wallet =
  fw_isConnected :: "string + bool"
  fw_getPublicKey :: "string + string"
  fw_signTransaction :: "string \<Rightarrow> string \<Rightarrow> string + string"

definition NETWORK_PASSPHRASE :: string where
  "NETWORK_PASSPHRASE = ''Test SDF Network ; September 2015''"

record withdraw =
  wd_publicKey :: "string option"
  wd_alerts :: "string list"
  wd_logged :: "string list"

definition withdraw_new :: withdraw where
  "withdraw_new = \<lparr>wd_publicKey = None, wd_alerts = [], wd_logged = []\<rparr>"

text \<open>On mount: a wallet that is connected already gives its key; a rejection is not handled, and changes nothing.\<close>

definition withdraw_mount :: "freighter_wallet option \<Rightarrow> withdraw \<Rightarrow> withdraw" where
  "withdraw_mount freighter s = (case freighter of
     None \<Rightarrow> s
   | Some w \<Rightarrow> (case (fw_isConnected w, fw_getPublicKey w) of
       (Inr True, Inr key) \<Rightarrow> s\<lparr>wd_publicKey := Some key\<rparr> | _ \<Rightarrow> s))"

definition alerts :: "string \<Rightarrow> withdraw \<Rightarrow> withdraw" where
  "alerts m s = s\<lparr>wd_alerts := wd_alerts s @ [m]\<rparr>"

definition logs :: "string \<Rightarrow> withdraw \<Rightarrow> withdraw" where
  "logs m s = s\<lparr>wd_logged := wd_logged s @ [m]\<rparr>"

definition connectFreighter :: "freighter_wallet option \<Rightarrow> withdraw \<Rightarrow> withdraw" where
  "connectFreighter freighter s = (case freighter of
     None \<Rightarrow> alerts ''Please install Freighter wallet: https://freighter.app'' s
   | Some w \<Rightarrow> (case fw_isConnected w of
       Inl e \<Rightarrow> logs (''Freighter connection failed: '' @ e) s
     | Inr isConnected \<Rightarrow>
         if \<not> isConnected then alerts ''Please unlock Freighter first'' s
         else (case fw_getPublicKey w of
             Inl e \<Rightarrow> logs (''Freighter connection failed: '' @ e) s
           | Inr pk \<Rightarrow> s\<lparr>wd_publicKey := Some pk\<rparr>)))"

definition page_signWithFreighter :: "freighter_wallet option \<Rightarrow> string \<Rightarrow> withdraw \<Rightarrow> string + string" where
  "page_signWithFreighter freighter x s = (case freighter of
     None \<Rightarrow> Inl ''Freighter not connected''
   | Some w \<Rightarrow> if truthy_str (wd_publicKey s) then fw_signTransaction w x NETWORK_PASSPHRASE
              else Inl ''Freighter not connected'')"

text \<open>\<open>check\<close> is the answer of \<open>checkTransaction\<close>: whether something is to be restored, and how many entries.\<close>

definition handlePreFlightCheck :: "string + bool \<times> nat \<Rightarrow> withdraw \<Rightarrow> withdraw" where
  "handlePreFlightCheck check s = (case check of
     Inl e \<Rightarrow> logs (''Pre-flight failed: '' @ e) s
   | Inr (needsRestoration, n) \<Rightarrow>
       logs (if needsRestoration then ''Need to restore '' @ nat_dec n @ '' archived entries'' else ''No restoration needed'') s)"

definition freighter_status :: "string option \<Rightarrow> string" where
  "freighter_status publicKey = (if truthy_str publicKey
     then ''Connected: '' @ js_slice (the publicKey) 0 8 @ ''...'' @ drop (length (the publicKey) - 4) (the publicKey)
     else ''Freighter wallet not connected'')"

text \<open>The state of the hook, as far as the page shows it.\<close>

record hook_view =
  hv_isChecking :: bool
  hv_isExecuting :: bool
  hv_needsRestore :: bool
  hv_archivedKeys :: "(string \<times> string option) list"
  hv_txXDR :: string

definition archived_line :: "string \<times> string option \<Rightarrow> string" where
  "archived_line k = ''['' @ fst k @ ''] '' @
     (if truthy_str (snd k) then take 16 (the (snd k)) @ ''...'' else [])"

definition archived_notice :: "hook_view \<Rightarrow> (string \<times> string list) option" where
  "archived_notice v = (if hv_archivedKeys v = [] then None
     else Some (nat_dec (length (hv_archivedKeys v)) @ '' key(s)'', map archived_line (hv_archivedKeys v)))"

definition success_notice :: "(bool \<times> nat \<times> string option) option \<Rightarrow> (string \<times> string option) option" where
  "success_notice lastResult = (case lastResult of
     Some (True, entriesRestored, restoreTxHash) \<Rightarrow> Some (''Restored '' @ nat_dec entriesRestored @ '' entries.'',
       if truthy_str restoreTxHash then Some (''Restore tx: '' @ take 16 (the restoreTxHash) @ ''...'') else None)
   | _ \<Rightarrow> None)"

definition preflight_disabled :: "hook_view \<Rightarrow> bool" where
  "preflight_disabled v = (hv_isChecking v \<or> hv_isExecuting v \<or> hv_txXDR v = [])"

definition preflight_label :: "hook_view \<Rightarrow> string" where
  "preflight_label v = (if hv_isChecking v then ''Checking...'' else ''Pre-Flight Check'')"

definition submit_disabled :: "hook_view \<Rightarrow> withdraw \<Rightarrow> bool" where
  "submit_disabled v s = (hv_isChecking v \<or> hv_isExecuting v \<or> hv_txXDR v = [] \<or> \<not> truthy_str (wd_publicKey s))"

definition submit_label :: "hook_view \<Rightarrow> string" where
  "submit_label v = (if hv_isExecuting v
     then (if hv_needsRestore v then ''Restoring & Submitting...'' else ''Submitting...'')
     else if hv_needsRestore v then ''Submit with Restoration'' else ''Submit Transaction'')"

datatype page_op =
    OpMount "freighter_wallet option"
  | OpConnectFreighter "freighter_wallet option"
  | OpPreFlight "string + bool \<times> nat"

fun page_step :: "withdraw \<Rightarrow> page_op \<Rightarrow> withdraw" where
  "page_step s (OpMount w) = withdraw_mount w s"
| "page_step s (OpConnectFreighter w) = connectFreighter w s"
| "page_step s (OpPreFlight c) = handlePreFlightCheck c s"

fun gives_key :: "string \<Rightarrow> page_op \<Rightarrow> bool" where
  "gives_key key (OpMount (Some w)) = (fw_isConnected w = Inr True \<and> fw_getPublicKey w = Inr key)"
| "gives_key key (OpConnectFreighter (Some w)) = (fw_isConnected w = Inr True \<and> fw_getPublicKey w = Inr key)"
| "gives_key key _ = False"

lemma key_given:
  "wd_publicKey (foldl page_step withdraw_new ops) = Some key \<Longrightarrow> \<exists>op \<in> set ops. gives_key key op"
proof (induction ops rule: rev_induct)
  case (snoc op ops)
  then show ?case
    by (cases op) (auto simp: withdraw_mount_def connectFreighter_def handlePreFlightCheck_def alerts_def logs_def
        split: option.splits sum.splits if_splits bool.splits prod.splits)
qed (simp add: withdraw_new_def)

text \<open>
  The page signs only with a key that a connected wallet gave it, and for the test network; and where its button can be
  pressed, a submission starts.
\<close>

theorem page_signs_when_connected:
  "(\<forall>y. page_signWithFreighter w x (foldl page_step withdraw_new ops) = Inr y \<longrightarrow>
      (\<exists>f key. w = Some f \<and> fw_signTransaction f x NETWORK_PASSPHRASE = Inr y \<and> (\<exists>op \<in> set ops. gives_key key op))) \<and>
   (\<not> submit_disabled v s \<longrightarrow> hv_txXDR v \<noteq> [] \<and> \<not> hv_isExecuting v \<and>
      (\<exists>sb. handleSubmit clock (wd_publicKey s) check execute = Some sb))"
  using key_given [of ops]
  by (auto simp: page_signWithFreighter_def truthy_str_def submit_disabled_def handleSubmit_def
      split: option.splits if_splits)

end
