(* ===== verification/MockLedger.thy ===== *)
theory MockLedger
  imports Footprint
begin

text \<open>
  The simulated ledger of \<open>packages/mock-rpc/src/ledger-state.ts\<close> and the sequence numbers of
  \<open>packages/mock-rpc/src/sequence-manager.ts\<close>. Ledger sequences and lifetimes are integers; the key
  encoder of the Stellar SDK is the argument \<open>enc\<close>.
\<close>

section \<open>Ledger state\<close>

record sim_entry =
  se_key :: ledger_key
  se_keyBase64 :: string
  se_data :: string
  se_lastLiveLedgerSeq :: int
  se_ttl :: int
  se_entryType :: key_type
  se_contractId :: "string option"

record mock_ledger =
  ml_entries :: "(string, sim_entry) js_map"
  ml_currentLedgerSeq :: int
  ml_defaultTtl :: int

definition DEFAULT_TTL :: int where
  "DEFAULT_TTL = 4095360"

definition addEntry :: "(ledger_key \<Rightarrow> string) \<Rightarrow> mock_ledger \<Rightarrow> sim_entry \<Rightarrow> mock_ledger" where
  "addEntry enc m e =
    (let key = (if se_keyBase64 e \<noteq> [] then se_keyBase64 e else enc (se_key e))
     in m\<lparr>ml_entries := jset (ml_entries m) key (e\<lparr>se_keyBase64 := key\<rparr>)\<rparr>)"

definition ml_new :: "(ledger_key \<Rightarrow> string) \<Rightarrow> sim_entry list option \<Rightarrow> int option \<Rightarrow> int \<Rightarrow> mock_ledger" where
  "ml_new enc entries defaultTtl currentLedgerSeq =
    (let m = \<lparr>ml_entries = [], ml_currentLedgerSeq = currentLedgerSeq,
              ml_defaultTtl = (case defaultTtl of Some t \<Rightarrow> t | None \<Rightarrow> DEFAULT_TTL)\<rparr>
     in case entries of None \<Rightarrow> m | Some es \<Rightarrow> foldl (addEntry enc) m es)"

definition setCurrentLedgerSeq :: "mock_ledger \<Rightarrow> int \<Rightarrow> mock_ledger" where
  "setCurrentLedgerSeq m s = m\<lparr>ml_currentLedgerSeq := s\<rparr>"

definition removeEntry :: "mock_ledger \<Rightarrow> string \<Rightarrow> bool \<times> mock_ledger" where
  "removeEntry m k = (jhas (ml_entries m) k, m\<lparr>ml_entries := jdel (ml_entries m) k\<rparr>)"

definition getEntry :: "mock_ledger \<Rightarrow> string \<Rightarrow> sim_entry option" where
  "getEntry m k = jget (ml_entries m) k"

text \<open>\<open>entry.ttl || this.defaultTtl\<close>: a lifetime of 0 counts as unset.\<close>

definition getExpiryLedger :: "mock_ledger \<Rightarrow> sim_entry \<Rightarrow> int" where
  "getExpiryLedger m e = se_lastLiveLedgerSeq e + (if se_ttl e \<noteq> 0 then se_ttl e else ml_defaultTtl m)"

definition isArchived :: "mock_ledger \<Rightarrow> sim_entry \<Rightarrow> bool" where
  "isArchived m e = (getExpiryLedger m e < ml_currentLedgerSeq m)"

fun pick_entries :: "(ledger_key \<Rightarrow> string) \<Rightarrow> mock_ledger \<Rightarrow> (sim_entry \<Rightarrow> bool) \<Rightarrow> ledger_key list \<Rightarrow> sim_entry list" where
  "pick_entries enc m P [] = []"
| "pick_entries enc m P (k # ks) = (case getEntry m (enc k) of
     Some e \<Rightarrow> if P e then e # pick_entries enc m P ks else pick_entries enc m P ks
   | None \<Rightarrow> pick_entries enc m P ks)"

definition getLiveEntries :: "(ledger_key \<Rightarrow> string) \<Rightarrow> mock_ledger \<Rightarrow> ledger_key list \<Rightarrow> sim_entry list" where
  "getLiveEntries enc m keys = pick_entries enc m (\<lambda>e. \<not> isArchived m e) keys"

definition getAllEntries :: "mock_ledger \<Rightarrow> sim_entry list" where
  "getAllEntries m = map snd (ml_entries m)"

definition getArchivedEntries ::
  "(ledger_key \<Rightarrow> string) \<Rightarrow> mock_ledger \<Rightarrow> ledger_key list option \<Rightarrow> sim_entry list" where
  "getArchivedEntries enc m keys = (case keys of
     Some ks \<Rightarrow> pick_entries enc m (isArchived m) ks
   | None \<Rightarrow> filter (isArchived m) (getAllEntries m))"

definition getEntryCount :: "mock_ledger \<Rightarrow> nat" where
  "getEntryCount m = length (ml_entries m)"

definition getArchivedCount :: "mock_ledger \<Rightarrow> nat" where
  "getArchivedCount m = length (filter (isArchived m) (getAllEntries m))"

definition clear_ledger :: "mock_ledger \<Rightarrow> mock_ledger" where
  "clear_ledger m = m\<lparr>ml_entries := []\<rparr>"

text \<open>An entry of a \<open>getLedgerEntries\<close> response: key, data and the ledger it was last modified in.\<close>

type_synonym entry_result = "ledger_key \<times> string \<times> int"

definition buildGetLedgerEntriesResponse ::
  "(ledger_key \<Rightarrow> string) \<Rightarrow> mock_ledger \<Rightarrow> ledger_key list \<Rightarrow> entry_result list" where
  "buildGetLedgerEntriesResponse enc m keys =
    map (\<lambda>e. (se_key e, se_data e, se_lastLiveLedgerSeq e)) (getLiveEntries enc m keys)"

definition max_expiry :: "mock_ledger \<Rightarrow> sim_entry list \<Rightarrow> int" where
  "max_expiry m targets = foldl (\<lambda>mx e. if mx < getExpiryLedger m e then getExpiryLedger m e else mx) 0 targets"

definition archiveAll :: "mock_ledger \<Rightarrow> sim_entry list option \<Rightarrow> mock_ledger" where
  "archiveAll m entries =
    (let targets = (case entries of Some es \<Rightarrow> es | None \<Rightarrow> getAllEntries m)
     in if targets = [] then m else m\<lparr>ml_currentLedgerSeq := max_expiry m targets + 1\<rparr>)"

definition archiveEntries :: "mock_ledger \<Rightarrow> sim_entry list \<Rightarrow> mock_ledger" where
  "archiveEntries m entries = archiveAll m (Some entries)"

subsection \<open>Lemmas\<close>

lemma max_expiry_ge_acc:
  "mx \<le> foldl (\<lambda>mx e. if mx < getExpiryLedger m e then getExpiryLedger m e else mx) mx ts"
proof (induction ts arbitrary: mx)
  case (Cons t ts)
  then show ?case by (auto intro: order.trans [OF less_imp_le])
qed simp

lemma max_expiry_ge_mem:
  "e \<in> set ts \<Longrightarrow> getExpiryLedger m e \<le> foldl (\<lambda>mx e. if mx < getExpiryLedger m e then getExpiryLedger m e else mx) mx ts"
proof (induction ts arbitrary: mx)
  case (Cons t ts)
  show ?case
  proof (cases "e = t")
    case True
    have "getExpiryLedger m e \<le> (if mx < getExpiryLedger m t then getExpiryLedger m t else mx)"
      using True by simp
    also have "\<dots> \<le> foldl (\<lambda>mx e. if mx < getExpiryLedger m e then getExpiryLedger m e else mx) mx (t # ts)"
      using max_expiry_ge_acc [of _ m ts] by simp
    finally show ?thesis .
  next
    case False
    then show ?thesis using Cons by simp
  qed
qed simp

lemma archiveAll_fields [simp]:
  "ml_entries (archiveAll m es) = ml_entries m" "ml_defaultTtl (archiveAll m es) = ml_defaultTtl m"
  "getExpiryLedger (archiveAll m es) e = getExpiryLedger m e"
  "getAllEntries (archiveAll m es) = getAllEntries m" "getEntry (archiveAll m es) k = getEntry m k"
  by (simp_all add: archiveAll_def getExpiryLedger_def getAllEntries_def getEntry_def Let_def)

lemma archiveAll_archives:
  "e \<in> set ts \<Longrightarrow> isArchived (archiveAll m (Some ts)) e"
  using max_expiry_ge_mem [of e ts m 0]
  by (auto simp: isArchived_def archiveAll_def Let_def max_expiry_def getExpiryLedger_def)

lemma archiveAll_None: "archiveAll m None = archiveAll m (Some (getAllEntries m))"
  by (simp add: archiveAll_def)

lemma getEntry_in_all: "getEntry m k = Some e \<Longrightarrow> e \<in> set (getAllEntries m)"
  by (force simp: getEntry_def getAllEntries_def jget_def dest: map_of_SomeD)

lemma pick_entries_mem:
  "set (pick_entries enc m P ks) = {e. P e \<and> (\<exists>k \<in> set ks. getEntry m (enc k) = Some e)}"
  by (induction ks) (auto split: option.splits)

lemma pick_entries_split:
  "mset (pick_entries enc m P ks) + mset (pick_entries enc m (\<lambda>e. \<not> P e) ks) = mset (pick_entries enc m (\<lambda>e. True) ks)"
  by (induction ks) (auto split: option.split)

section \<open>Sequence numbers\<close>

record sequence_manager =
  sq_sequences :: "(string, int) js_map"
  sq_defaultStart :: int

text \<open>An argument of type \<open>bigint | string\<close>; \<open>None\<close> is the \<open>SyntaxError\<close> of \<open>BigInt\<close>.\<close>

datatype bigint_arg = BigArg int | StrArg string

fun to_bigint :: "bigint_arg \<Rightarrow> int option" where
  "to_bigint (BigArg n) = Some n"
| "to_bigint (StrArg s) = js_BigInt s"

definition sq_new :: "bigint_arg \<Rightarrow> sequence_manager option" where
  "sq_new start = map_option (\<lambda>n. \<lparr>sq_sequences = [], sq_defaultStart = n\<rparr>) (to_bigint start)"

definition getSequence :: "sequence_manager \<Rightarrow> string \<Rightarrow> int" where
  "getSequence q a = (case jget (sq_sequences q) a of Some n \<Rightarrow> n | None \<Rightarrow> sq_defaultStart q)"

definition setSequence :: "sequence_manager \<Rightarrow> string \<Rightarrow> bigint_arg \<Rightarrow> sequence_manager option" where
  "setSequence q a s = map_option (\<lambda>n. q\<lparr>sq_sequences := jset (sq_sequences q) a n\<rparr>) (to_bigint s)"

definition getAndIncrement :: "sequence_manager \<Rightarrow> string \<Rightarrow> string \<times> sequence_manager" where
  "getAndIncrement q a =
    (let current = getSequence q a
     in (int_dec current, q\<lparr>sq_sequences := jset (sq_sequences q) a (current + 1)\<rparr>))"

definition peek :: "sequence_manager \<Rightarrow> string \<Rightarrow> string" where
  "peek q a = int_dec (getSequence q a)"

definition increment :: "sequence_manager \<Rightarrow> string \<Rightarrow> bigint_arg \<Rightarrow> (int \<times> sequence_manager) option" where
  "increment q a by' = (case to_bigint by' of
     None \<Rightarrow> None
   | Some d \<Rightarrow> (let nxt = getSequence q a + d in Some (nxt, q\<lparr>sq_sequences := jset (sq_sequences q) a nxt\<rparr>)))"

definition reset_sequence :: "sequence_manager \<Rightarrow> string \<Rightarrow> sequence_manager" where
  "reset_sequence q a = q\<lparr>sq_sequences := jset (sq_sequences q) a (sq_defaultStart q)\<rparr>"

definition resetAll :: "sequence_manager \<Rightarrow> sequence_manager" where
  "resetAll q = q\<lparr>sq_sequences := []\<rparr>"

definition getAllSequences :: "sequence_manager \<Rightarrow> (string \<times> string) list" where
  "getAllSequences q = map (\<lambda>(a, n). (a, int_dec n)) (sq_sequences q)"

text \<open>The account object keeps the number it was built with; incrementing it moves the manager on.\<close>

definition buildMockAccount :: "sequence_manager \<Rightarrow> string \<Rightarrow> string \<times> string" where
  "buildMockAccount q a = (a, int_dec (getSequence q a))"

fun take_sequences :: "sequence_manager \<Rightarrow> string \<Rightarrow> nat \<Rightarrow> string list \<times> sequence_manager" where
  "take_sequences q a 0 = ([], q)"
| "take_sequences q a (Suc n) =
    (let (s, q1) = getAndIncrement q a; (ss, q2) = take_sequences q1 a n in (s # ss, q2))"

lemma getSequence_set [simp]:
  "getSequence (q\<lparr>sq_sequences := jset (sq_sequences q) a n\<rparr>) b = (if b = a then n else getSequence q b)"
  by (simp add: getSequence_def jget_set split: option.split)

lemma take_sequences_spec:
  "take_sequences q a n = (ss, q') \<Longrightarrow>
   ss = map (\<lambda>i. int_dec (getSequence q a + int i)) [0..<n] \<and>
   getSequence q' a = getSequence q a + int n \<and> (\<forall>b. b \<noteq> a \<longrightarrow> getSequence q' b = getSequence q b)"
proof (induction n arbitrary: q ss)
  case (Suc n)
  obtain rest where run: "take_sequences (snd (getAndIncrement q a)) a n = (rest, q')"
      and ss: "ss = fst (getAndIncrement q a) # rest"
    using Suc.prems by (auto simp: Let_def split: prod.splits)
  have "map (\<lambda>i. int_dec (getSequence q a + int i)) [0..<Suc n] =
      int_dec (getSequence q a) # map (\<lambda>i. int_dec (getSequence q a + 1 + int i)) [0..<n]"
    by (simp add: upt_conv_Cons map_Suc_upt [symmetric] comp_def algebra_simps del: upt_Suc)
  then show ?case using Suc.IH [OF run] ss by (simp add: getAndIncrement_def Let_def)
qed simp

section \<open>Properties\<close>

text \<open>
  \<open>archiveAll\<close> archives every entry of the ledger: no key has a live entry afterwards, nothing is
  lost, and for any keys the live and the archived entries together are the entries found.
\<close>

theorem archive_all_archives:
  "getLiveEntries enc (archiveAll m None) keys = [] \<and>
   getArchivedEntries enc (archiveAll m None) None = getAllEntries m \<and>
   mset (getLiveEntries enc m keys) + mset (getArchivedEntries enc m (Some keys)) =
     mset (pick_entries enc m (\<lambda>e. True) keys)"
proof -
  have all: "isArchived (archiveAll m None) e" if "e \<in> set (getAllEntries m)" for e
    using archiveAll_archives [OF that] by (simp add: archiveAll_None)
  have "set (getLiveEntries enc (archiveAll m None) keys) = {}"
    by (auto simp: getLiveEntries_def pick_entries_mem dest!: getEntry_in_all intro: all)
  moreover have "filter (isArchived (archiveAll m None)) (getAllEntries m) = getAllEntries m"
    using all by (simp add: filter_id_conv)
  ultimately show ?thesis
    using pick_entries_split [of enc m "isArchived m" keys]
    by (simp add: getArchivedEntries_def getLiveEntries_def add.commute)
qed

text \<open>
  \<open>archiveEntries\<close> sets the ledger just past the expiry of the given entries even when it is already
  further: an entry that was archived and expires later than all of them is live again afterwards.
\<close>

theorem archive_entries_rewinds:
  assumes "targets \<noteq> []" and "max_expiry m targets < getExpiryLedger m e" and "isArchived m e"
  shows "\<not> isArchived (archiveEntries m targets) e \<and>
    ml_currentLedgerSeq (archiveEntries m targets) < ml_currentLedgerSeq m"
  using assms by (auto simp: archiveEntries_def archiveAll_def isArchived_def getExpiryLedger_def Let_def)

definition sample_entry :: "string \<Rightarrow> int \<Rightarrow> sim_entry" where
  "sample_entry k expiry = \<lparr>se_key = OtherKey k, se_keyBase64 = k, se_data = [], se_lastLiveLedgerSeq = expiry - 1,
     se_ttl = 1, se_entryType = KtUnknown, se_contractId = None\<rparr>"

theorem archive_entries_rewinds_witness:
  "\<not> isArchived (archiveEntries (ml_new (\<lambda>k. []) (Some [sample_entry ''a'' 10, sample_entry ''b'' 500]) None 1000)
      [sample_entry ''a'' 10]) (sample_entry ''b'' 500)"
  using archive_entries_rewinds [of "[sample_entry ''a'' 10]"
      "ml_new (\<lambda>k. []) (Some [sample_entry ''a'' 10, sample_entry ''b'' 500]) None 1000" "sample_entry ''b'' 500"]
  by (simp add: max_expiry_def getExpiryLedger_def isArchived_def sample_entry_def ml_new_def addEntry_def Let_def)

text \<open>
  \<open>n\<close> calls of \<open>getAndIncrement\<close> hand out \<open>n\<close> consecutive numbers from the account's current one, in
  order, and leave every other account where it was.
\<close>

theorem sequences_consecutive:
  assumes "take_sequences q a n = (ss, q')"
  shows "ss = map (\<lambda>i. int_dec (getSequence q a + int i)) [0..<n] \<and>
    getSequence q' a = getSequence q a + int n \<and> (\<forall>b. b \<noteq> a \<longrightarrow> getSequence q' b = getSequence q b)"
  using take_sequences_spec [OF assms] .

theorem sequences_consecutive_witness:
  "\<exists>q ss q'. sq_new (BigArg 7) = Some q \<and> take_sequences q ''acc'' 2 = (ss, q') \<and>
     ss = map (\<lambda>i. int_dec (7 + int i)) [0..<2] \<and> getSequence q' ''acc'' = 9"
proof -
  obtain q where q: "sq_new (BigArg 7) = Some q" "getSequence q ''acc'' = 7"
    by (simp add: sq_new_def getSequence_def)
  obtain ss q' where run: "take_sequences q ''acc'' 2 = (ss, q')" by force
  from sequences_consecutive [OF run] q run show ?thesis by auto
qed

end
