(* ===== verification/MockServer.thy ===== *)
theory MockServer
  imports MockLedger Errors
begin

text \<open>
  The mock RPC server of \<open>packages/mock-rpc/src/mock-rpc-server.ts\<close> with the recorder of
  \<open>packages/mock-rpc/src/fixture-recorder.ts\<close>: the request pipeline (override, replay, simulated network,
  handler, recording), its settings and statistics, and the handlers. Fixture files are read and
  written by the file system and are not modelled; a loaded fixture is a value.
\<close>

section \<open>Requests and responses\<close>

datatype mock_param =
    PTx "(ledger_key list \<times> ledger_key list) option"
  | PKey ledger_key
  | PStr string

text \<open>The responses of the handlers, and \<open>RAny\<close> for what an override or a fixture supplies.\<close>

datatype mock_response =
    RSim "ledger_key list" "ledger_key list" bool int
  | REntries "entry_result list" int
  | RAccount "string \<times> string"
  | RSend string int
  | RTransaction string int
  | RHealth int
  | RNetwork string int
  | RLatest int int
  | RAny string

datatype network_condition = Healthy | Timeout | ErrorCond | Slow

record simulation_options =
  so_condition :: network_condition
  so_delayMs :: "int option"
  so_errorMessage :: "string option"

record interaction =
  in_method :: string
  in_requestParams :: "mock_param list"
  in_response :: mock_response
  in_networkCondition :: network_condition
  in_delayMs :: int

record fixture =
  fx_name :: string
  fx_interactions :: "interaction list"

record recorder =
  rc_recording :: "interaction list"
  rc_isRecording :: bool

definition recorder_new :: recorder where
  "recorder_new = \<lparr>rc_recording = [], rc_isRecording = False\<rparr>"

definition rec_start :: "recorder \<Rightarrow> recorder" where
  "rec_start r = r\<lparr>rc_recording := [], rc_isRecording := True\<rparr>"

definition rec_stop :: "recorder \<Rightarrow> interaction list \<times> recorder" where
  "rec_stop r = (rc_recording r, r\<lparr>rc_isRecording := False\<rparr>)"

definition rec_record ::
  "recorder \<Rightarrow> string \<Rightarrow> mock_param list \<Rightarrow> mock_response \<Rightarrow> network_condition \<Rightarrow> int \<Rightarrow> recorder" where
  "rec_record r meth params resp cond delayMs =
    (if \<not> rc_isRecording r then r
     else r\<lparr>rc_recording := rc_recording r @
       [\<lparr>in_method = meth, in_requestParams = params, in_response = resp, in_networkCondition = cond,
         in_delayMs = delayMs\<rparr>]\<rparr>)"

definition findInteraction :: "fixture \<Rightarrow> string \<Rightarrow> mock_param list \<Rightarrow> interaction option" where
  "findInteraction fx meth params =
    find (\<lambda>i. in_method i = meth \<and> length (in_requestParams i) = length params) (fx_interactions fx)"

section \<open>State\<close>

record mock_stats =
  ms_totalCalls :: nat
  ms_callsByMethod :: "(string, nat) js_map"
  ms_timeouts :: nat
  ms_errors :: nat
  ms_slowResponses :: nat
  ms_totalDelayMs :: int

definition no_stats :: mock_stats where
  "no_stats = \<lparr>ms_totalCalls = 0, ms_callsByMethod = [], ms_timeouts = 0, ms_errors = 0,
     ms_slowResponses = 0, ms_totalDelayMs = 0\<rparr>"

record mock_config =
  mc_networkCondition :: network_condition
  mc_slowDelayMs :: int
  mc_errorMessage :: string
  mc_currentLedgerSeq :: int
  mc_networkPassphrase :: string
  mc_protocolVersion :: int

definition DEFAULT_MOCK_CONFIG :: mock_config where
  "DEFAULT_MOCK_CONFIG = \<lparr>mc_networkCondition = Healthy, mc_slowDelayMs = 2000,
     mc_errorMessage = ''Simulated RPC error'', mc_currentLedgerSeq = 1,
     mc_networkPassphrase = ''Test SDF Network ; September 2015'', mc_protocolVersion = 22\<rparr>"

datatype fixture_mode = NoFixture | Replay | Record

type_synonym override = "mock_param list \<Rightarrow> string + mock_response"

record mock_server =
  mk_ledger :: mock_ledger
  mk_sequences :: sequence_manager
  mk_recorder :: recorder
  mk_config :: mock_config
  mk_stats :: mock_stats
  mk_overrides :: "(string, override) js_map"
  mk_conditions :: "(string, simulation_options) js_map"
  mk_fixture :: "fixture option"
  mk_mode :: fixture_mode

definition mk_new :: "mock_config \<Rightarrow> mock_server" where
  "mk_new c = \<lparr>mk_ledger = ml_new (\<lambda>k. []) None None (mc_currentLedgerSeq c),
     mk_sequences = \<lparr>sq_sequences = [], sq_defaultStart = 1\<rparr>, mk_recorder = recorder_new, mk_config = c,
     mk_stats = no_stats, mk_overrides = [], mk_conditions = [], mk_fixture = None, mk_mode = NoFixture\<rparr>"

definition setNetworkCondition :: "network_condition \<Rightarrow> mock_server \<Rightarrow> mock_server" where
  "setNetworkCondition c s = s\<lparr>mk_config := (mk_config s)\<lparr>mc_networkCondition := c\<rparr>\<rparr>"

definition setMethodCondition :: "string \<Rightarrow> simulation_options \<Rightarrow> mock_server \<Rightarrow> mock_server" where
  "setMethodCondition meth opts s = s\<lparr>mk_conditions := jset (mk_conditions s) meth opts\<rparr>"

definition clearMethodCondition :: "string \<Rightarrow> mock_server \<Rightarrow> mock_server" where
  "clearMethodCondition meth s = s\<lparr>mk_conditions := jdel (mk_conditions s) meth\<rparr>"

definition resetConditions :: "mock_server \<Rightarrow> mock_server" where
  "resetConditions s = (setNetworkCondition Healthy s)\<lparr>mk_conditions := []\<rparr>"

definition mk_loadFixture :: "fixture \<Rightarrow> mock_server \<Rightarrow> mock_server" where
  "mk_loadFixture fx s = s\<lparr>mk_fixture := Some fx, mk_mode := Replay\<rparr>"

definition mk_startRecording :: "mock_server \<Rightarrow> mock_server" where
  "mk_startRecording s = s\<lparr>mk_mode := Record, mk_recorder := rec_start (mk_recorder s)\<rparr>"

definition mk_stopRecording :: "mock_server \<Rightarrow> interaction list \<times> mock_server" where
  "mk_stopRecording s = (let (is, r) = rec_stop (mk_recorder s) in (is, s\<lparr>mk_recorder := r, mk_mode := NoFixture\<rparr>))"

definition setMethodOverride :: "string \<Rightarrow> override \<Rightarrow> mock_server \<Rightarrow> mock_server" where
  "setMethodOverride meth h s = s\<lparr>mk_overrides := jset (mk_overrides s) meth h\<rparr>"

definition clearMethodOverride :: "string \<Rightarrow> mock_server \<Rightarrow> mock_server" where
  "clearMethodOverride meth s = s\<lparr>mk_overrides := jdel (mk_overrides s) meth\<rparr>"

definition clearAllOverrides :: "mock_server \<Rightarrow> mock_server" where
  "clearAllOverrides s = s\<lparr>mk_overrides := []\<rparr>"

definition resetStats :: "mock_server \<Rightarrow> mock_server" where
  "resetStats s = s\<lparr>mk_stats := no_stats\<rparr>"

section \<open>The request pipeline\<close>

type_synonym 'a served = "(mock_server, string, 'a) eff"

definition count_call :: "string \<Rightarrow> unit served" where
  "count_call meth = (\<lambda>s. let st = mk_stats s in
     (Inr (), s\<lparr>mk_stats := st\<lparr>ms_totalCalls := ms_totalCalls st + 1,
        ms_callsByMethod := jset (ms_callsByMethod st) meth
          ((case jget (ms_callsByMethod st) meth of Some n \<Rightarrow> n | None \<Rightarrow> 0) + 1)\<rparr>\<rparr>))"

definition getEffectiveCondition :: "mock_server \<Rightarrow> string \<Rightarrow> network_condition" where
  "getEffectiveCondition s meth = (case jget (mk_conditions s) meth of
     Some o' \<Rightarrow> so_condition o' | None \<Rightarrow> mc_networkCondition (mk_config s))"

definition simulated_delay :: "mock_server \<Rightarrow> string \<Rightarrow> int option \<Rightarrow> int" where
  "simulated_delay s meth overrideDelayMs = (case overrideDelayMs of
     Some d \<Rightarrow> d
   | None \<Rightarrow> (case Option.bind (jget (mk_conditions s) meth) so_delayMs of
       Some d \<Rightarrow> d | None \<Rightarrow> mc_slowDelayMs (mk_config s)))"

definition simulated_error :: "mock_server \<Rightarrow> string \<Rightarrow> string" where
  "simulated_error s meth = (case Option.bind (jget (mk_conditions s) meth) so_errorMessage of
     Some m \<Rightarrow> m | None \<Rightarrow> mc_errorMessage (mk_config s))"

definition applyNetworkSimulation :: "string \<Rightarrow> network_condition \<Rightarrow> int option \<Rightarrow> unit served" where
  "applyNetworkSimulation meth cond overrideDelayMs = (\<lambda>s. let st = mk_stats s in case cond of
     Timeout \<Rightarrow> (Inl (''Simulated timeout for '' @ meth), s\<lparr>mk_stats := st\<lparr>ms_timeouts := ms_timeouts st + 1\<rparr>\<rparr>)
   | ErrorCond \<Rightarrow> (Inl (simulated_error s meth), s\<lparr>mk_stats := st\<lparr>ms_errors := ms_errors st + 1\<rparr>\<rparr>)
   | Slow \<Rightarrow> (Inr (), s\<lparr>mk_stats := st\<lparr>ms_slowResponses := ms_slowResponses st + 1,
       ms_totalDelayMs := ms_totalDelayMs st + simulated_delay s meth overrideDelayMs\<rparr>\<rparr>)
   | Healthy \<Rightarrow> (Inr (), s))"

definition replayed :: "mock_server \<Rightarrow> string \<Rightarrow> mock_param list \<Rightarrow> interaction option" where
  "replayed s meth params = (if mk_mode s = Replay
     then Option.bind (mk_fixture s) (\<lambda>fx. findInteraction fx meth params) else None)"

definition record_result :: "string \<Rightarrow> mock_param list \<Rightarrow> mock_response \<Rightarrow> unit served" where
  "record_result meth params r = (\<lambda>s.
     (Inr (), if mk_mode s = Record
              then s\<lparr>mk_recorder := rec_record (mk_recorder s) meth params r (getEffectiveCondition s meth) 0\<rparr>
              else s))"

definition handleRequest ::
  "string \<Rightarrow> mock_param list \<Rightarrow> (mock_server \<Rightarrow> mock_response) \<Rightarrow> mock_response served" where
  "handleRequest meth params handler =
    ebind (count_call meth) (\<lambda>_ s. case jget (mk_overrides s) meth of
        Some f \<Rightarrow> (f params, s)
      | None \<Rightarrow> (case replayed s meth params of
          Some i \<Rightarrow> ebind (applyNetworkSimulation meth (in_networkCondition i) (Some (in_delayMs i)))
                      (\<lambda>_. eret (in_response i)) s
        | None \<Rightarrow>
            ebind (applyNetworkSimulation meth (getEffectiveCondition s meth) None) (\<lambda>_ t.
              ebind (record_result meth params (handler t)) (\<lambda>_. eret (handler t)) t) s))"

section \<open>The handlers\<close>

definition handleSimulateTransaction ::
  "(ledger_key \<Rightarrow> string) \<Rightarrow> (ledger_key list \<times> ledger_key list) option \<Rightarrow> mock_response served" where
  "handleSimulateTransaction enc fp =
    handleRequest ''simulateTransaction'' [PTx fp] (\<lambda>s.
      let (ro, rw) = (case fp of Some f \<Rightarrow> f | None \<Rightarrow> ([], []));
          archivedKeys = getArchivedEntries enc (mk_ledger s) (Some (ro @ rw))
      in RSim ro rw (archivedKeys \<noteq> []) (ml_currentLedgerSeq (mk_ledger s)))"

definition handleGetLedgerEntries :: "(ledger_key \<Rightarrow> string) \<Rightarrow> ledger_key list \<Rightarrow> mock_response served" where
  "handleGetLedgerEntries enc keys =
    handleRequest ''getLedgerEntries'' (map PKey keys) (\<lambda>s.
      REntries (buildGetLedgerEntriesResponse enc (mk_ledger s) keys) (ml_currentLedgerSeq (mk_ledger s)))"

definition handleGetAccount :: "string \<Rightarrow> mock_response served" where
  "handleGetAccount a =
    handleRequest ''getAccount'' [PStr a] (\<lambda>s. RAccount (buildMockAccount (mk_sequences s) a))"

text \<open>\<open>hash\<close> is built from the clock and a random number.\<close>

definition handleSendTransaction ::
  "string \<Rightarrow> (ledger_key list \<times> ledger_key list) option \<Rightarrow> mock_response served" where
  "handleSendTransaction hash tx =
    handleRequest ''sendTransaction'' [PTx tx] (\<lambda>s. RSend hash (ml_currentLedgerSeq (mk_ledger s)))"

definition handleGetTransaction :: "string \<Rightarrow> mock_response served" where
  "handleGetTransaction hash =
    handleRequest ''getTransaction'' [PStr hash] (\<lambda>s. RTransaction hash (ml_currentLedgerSeq (mk_ledger s)))"

definition handleGetHealth :: "mock_response served" where
  "handleGetHealth = handleRequest ''getHealth'' [] (\<lambda>s. RHealth (ml_currentLedgerSeq (mk_ledger s)))"

definition handleGetNetwork :: "mock_response served" where
  "handleGetNetwork = handleRequest ''getNetwork'' []
     (\<lambda>s. RNetwork (mc_networkPassphrase (mk_config s)) (mc_protocolVersion (mk_config s)))"

definition handleGetLatestLedger :: "mock_response served" where
  "handleGetLatestLedger = handleRequest ''getLatestLedger'' []
     (\<lambda>s. RLatest (mc_protocolVersion (mk_config s)) (ml_currentLedgerSeq (mk_ledger s)))"

section \<open>Lemmas\<close>

definition calls_sum :: "(string, nat) js_map \<Rightarrow> nat" where
  "calls_sum m = sum_list (map snd m)"

lemma calls_sum_bump:
  "calls_sum (jset m k ((case jget m k of Some n \<Rightarrow> n | None \<Rightarrow> 0) + 1)) = calls_sum m + 1"
  by (induction m k "(case jget m k of Some n \<Rightarrow> n | None \<Rightarrow> 0) + 1" rule: jset.induct)
    (auto simp: calls_sum_def jget_def)

text \<open>Every request is counted once, in total and under its method; no more failures than requests.\<close>

definition stats_ok :: "mock_stats \<Rightarrow> bool" where
  "stats_ok st = (ms_totalCalls st = calls_sum (ms_callsByMethod st) \<and>
     ms_timeouts st + ms_errors st + ms_slowResponses st \<le> ms_totalCalls st)"

definition stats_before :: "mock_stats \<Rightarrow> bool" where
  "stats_before st = (ms_totalCalls st = calls_sum (ms_callsByMethod st) \<and>
     ms_timeouts st + ms_errors st + ms_slowResponses st < ms_totalCalls st)"

lemma count_call_stats:
  "stats_ok (mk_stats s) \<Longrightarrow> stats_before (mk_stats (snd (count_call meth s)))"
  using calls_sum_bump [of "ms_callsByMethod (mk_stats s)" meth]
  by (auto simp: count_call_def Let_def stats_ok_def stats_before_def)

lemma simulation_stats:
  "stats_before (mk_stats s) \<Longrightarrow> stats_ok (mk_stats (snd (applyNetworkSimulation meth c d s)))"
  by (cases c) (auto simp: applyNetworkSimulation_def Let_def stats_ok_def stats_before_def)

lemma stats_before_ok: "stats_before st \<Longrightarrow> stats_ok st"
  by (auto simp: stats_before_def stats_ok_def)

lemma record_stats [simp]: "mk_stats (snd (record_result meth ps r s)) = mk_stats s"
  by (simp add: record_result_def)

lemma handleRequest_stats:
  assumes "stats_ok (mk_stats s)"
  shows "stats_ok (mk_stats (snd (handleRequest meth params handler s)))"
proof -
  obtain u where u: "count_call meth s = (Inr (), u)" by (simp add: count_call_def Let_def)
  have b: "stats_before (mk_stats u)" using count_call_stats [OF assms, of meth] u by simp
  have sim: "stats_ok (mk_stats t)" if "applyNetworkSimulation meth c d u = (r, t)" for c d r t
    using simulation_stats [OF b, of meth c d] that by simp
  have rc: "mk_stats t = mk_stats u'" if "record_result meth params r u' = (x, t)" for r u' x t
    using record_stats [of meth params r u'] that by simp
  show ?thesis
    using stats_before_ok [OF b]
    by (auto simp: handleRequest_def ebind_def u eret_def dest: sim dest!: rc
        split: option.splits prod.splits sum.splits)
qed

datatype mock_op =
    MRequest string "mock_param list" "mock_server \<Rightarrow> mock_response"
  | MSetCondition network_condition
  | MSetMethodCondition string simulation_options
  | MClearMethodCondition string
  | MResetConditions
  | MLoadFixture fixture
  | MStartRecording
  | MStopRecording
  | MSetOverride string override
  | MClearOverride string
  | MClearOverrides
  | MResetStats

fun mock_step :: "mock_server \<Rightarrow> mock_op \<Rightarrow> mock_server" where
  "mock_step s (MRequest meth ps h) = snd (handleRequest meth ps h s)"
| "mock_step s (MSetCondition c) = setNetworkCondition c s"
| "mock_step s (MSetMethodCondition meth opts) = setMethodCondition meth opts s"
| "mock_step s (MClearMethodCondition meth) = clearMethodCondition meth s"
| "mock_step s MResetConditions = resetConditions s"
| "mock_step s (MLoadFixture fx) = mk_loadFixture fx s"
| "mock_step s MStartRecording = mk_startRecording s"
| "mock_step s MStopRecording = snd (mk_stopRecording s)"
| "mock_step s (MSetOverride meth h) = setMethodOverride meth h s"
| "mock_step s (MClearOverride meth) = clearMethodOverride meth s"
| "mock_step s MClearOverrides = clearAllOverrides s"
| "mock_step s MResetStats = resetStats s"

lemmas mock_setters = setNetworkCondition_def setMethodCondition_def clearMethodCondition_def resetConditions_def
  mk_loadFixture_def mk_startRecording_def mk_stopRecording_def rec_stop_def setMethodOverride_def
  clearMethodOverride_def clearAllOverrides_def resetStats_def

lemma no_stats_ok [simp]: "stats_ok no_stats"
  by (simp add: stats_ok_def no_stats_def calls_sum_def)

lemma mock_step_stats: "stats_ok (mk_stats s) \<Longrightarrow> stats_ok (mk_stats (mock_step s op))"
  by (cases op) (simp_all add: handleRequest_stats mock_setters Let_def)

lemma mock_run_stats: "stats_ok (mk_stats s) \<Longrightarrow> stats_ok (mk_stats (foldl mock_step s ops))"
  by (induction ops arbitrary: s) (auto intro: mock_step_stats)

section \<open>Properties\<close>

text \<open>
  In any run of the mock server the number of calls is the sum over its methods, and timeouts,
  errors and slow responses together are no more than the calls.
\<close>

theorem mock_stats_consistent:
  "stats_ok (mk_stats (foldl mock_step (mk_new c) ops))"
  by (rule mock_run_stats) (simp add: mk_new_def)

text \<open>
  The stages of a request in their order: an override answers alone, whatever network condition is
  set; without one, a matching recorded interaction answers under its own condition; otherwise the
  condition of the method, or the global one, decides whether the handler is reached at all.
\<close>

theorem mock_pipeline_order:
  assumes "handleRequest meth params handler s = (r, t)"
  shows "(\<forall>f. jget (mk_overrides s) meth = Some f \<longrightarrow> r = f params) \<and>
    (\<forall>i. jget (mk_overrides s) meth = None \<and> replayed s meth params = Some i \<longrightarrow>
       r = (case in_networkCondition i of Timeout \<Rightarrow> Inl (''Simulated timeout for '' @ meth)
            | ErrorCond \<Rightarrow> Inl (simulated_error s meth) | _ \<Rightarrow> Inr (in_response i))) \<and>
    (jget (mk_overrides s) meth = None \<and> replayed s meth params = None \<longrightarrow>
       (case getEffectiveCondition s meth of Timeout \<Rightarrow> r = Inl (''Simulated timeout for '' @ meth)
        | ErrorCond \<Rightarrow> r = Inl (simulated_error s meth)
        | _ \<Rightarrow> (\<exists>u. r = Inr (handler u) \<and> mk_ledger u = mk_ledger s \<and> mk_sequences u = mk_sequences s \<and>
             mk_config u = mk_config s)))"
proof -
  obtain st where u: "count_call meth s = (Inr (), s\<lparr>mk_stats := st\<rparr>)"
    by (simp add: count_call_def Let_def)
  let ?u = "s\<lparr>mk_stats := st\<rparr>"
  have same: "replayed ?u meth params = replayed s meth params"
      "getEffectiveCondition ?u meth = getEffectiveCondition s meth" "simulated_error ?u meth = simulated_error s meth"
    by (simp_all add: replayed_def getEffectiveCondition_def simulated_error_def split: option.split)
  show ?thesis
    using assms
    by (auto simp: handleRequest_def ebind_def u same applyNetworkSimulation_def record_result_def eret_def Let_def
        split: option.splits network_condition.splits if_splits)
qed

theorem mock_pipeline_order_witness:
  "\<exists>t. handleRequest ''getHealth'' [] (\<lambda>s. RHealth 1) (setNetworkCondition Timeout (mk_new DEFAULT_MOCK_CONFIG)) =
     (Inl ''Simulated timeout for getHealth'', t)"
proof -
  let ?s = "setNetworkCondition Timeout (mk_new DEFAULT_MOCK_CONFIG)"
  obtain r t where run: "handleRequest ''getHealth'' [] (\<lambda>s. RHealth 1) ?s = (r, t)" by force
  have "jget (mk_overrides ?s) ''getHealth'' = None" "replayed ?s ''getHealth'' [] = None"
      "getEffectiveCondition ?s ''getHealth'' = Timeout"
    by (simp_all add: setNetworkCondition_def mk_new_def replayed_def getEffectiveCondition_def)
  with mock_pipeline_order [OF run] run show ?thesis by simp
qed

end
