(* ===== verification/MockHandlers.thy ===== *)
theory MockHandlers
  imports MockServer
begin

text \<open>
  The second mock server of \<open>packages/mock-rpc/src/server.ts\<close>, with registered handlers and an injected clock, and the
  options of \<open>packages/mock-rpc/src/options.ts\<close>. A handler is a function of its parameters; sleeping is recorded.
\<close>

datatype speed = SpeedFast | SpeedSlow | SpeedTimeout

fun NETWORK_CONDITION_DELAYS :: "speed \<Rightarrow> nat" where
  "NETWORK_CONDITION_DELAYS SpeedFast = 0"
| "NETWORK_CONDITION_DELAYS SpeedSlow = 500"
| "NETWORK_CONDITION_DELAYS SpeedTimeout = 5000"

record ('p, 'r) handler_server =
  hs_networkCondition :: speed
  hs_handlers :: "(string, 'p \<Rightarrow> string + 'r) js_map"
  hs_slept :: "nat list"

definition handler_server_new :: "('p, 'r) handler_server" where
  "handler_server_new = \<lparr>hs_networkCondition = SpeedFast, hs_handlers = [], hs_slept = []\<rparr>"

definition hs_setNetworkCondition :: "speed \<Rightarrow> ('p, 'r) handler_server \<Rightarrow> ('p, 'r) handler_server" where
  "hs_setNetworkCondition c s = s\<lparr>hs_networkCondition := c\<rparr>"

definition hs_register :: "string \<Rightarrow> ('p \<Rightarrow> string + 'r) \<Rightarrow> ('p, 'r) handler_server \<Rightarrow> ('p, 'r) handler_server" where
  "hs_register meth handler s = s\<lparr>hs_handlers := jset (hs_handlers s) meth handler\<rparr>"

text \<open>The response is the request's identifier with the result.\<close>

definition hs_handle :: "nat \<Rightarrow> string \<Rightarrow> 'p \<Rightarrow> ('p, 'r) handler_server \<Rightarrow> (string + nat \<times> 'r) \<times> ('p, 'r) handler_server" where
  "hs_handle i meth params s =
    (let d = NETWORK_CONDITION_DELAYS (hs_networkCondition s);
         t = (if 0 < d then s\<lparr>hs_slept := hs_slept s @ [d]\<rparr> else s)
     in if hs_networkCondition s = SpeedTimeout then (Inl (''RPC request timed out after '' @ nat_dec d @ ''ms''), t)
        else case jget (hs_handlers t) meth of
            None \<Rightarrow> (Inl (''Unknown method: '' @ meth), t)
          | Some handler \<Rightarrow> (case handler params of Inl e \<Rightarrow> (Inl e, t) | Inr r \<Rightarrow> (Inr (i, r), t)))"

datatype ('p, 'r) handler_op = HsRegister string "'p \<Rightarrow> string + 'r" | HsCondition speed | HsHandle nat string 'p

fun hs_step :: "('p, 'r) handler_op \<Rightarrow> ('p, 'r) handler_server \<Rightarrow> ('p, 'r) handler_server" where
  "hs_step (HsRegister meth h) s = hs_register meth h s"
| "hs_step (HsCondition c) s = hs_setNetworkCondition c s"
| "hs_step (HsHandle i meth p) s = snd (hs_handle i meth p s)"

definition hs_run :: "('p, 'r) handler_op list \<Rightarrow> ('p, 'r) handler_server \<Rightarrow> ('p, 'r) handler_server" where
  "hs_run ops s = fold hs_step ops s"

section \<open>Options\<close>

datatype option_condition = OptFast | OptNormal | OptSlow | OptTimeout

definition resolveOptions :: "int option \<Rightarrow> option_condition option \<Rightarrow> int \<times> option_condition" where
  "resolveOptions seed condition = (case seed of None \<Rightarrow> 1 | Some n \<Rightarrow> n, case condition of None \<Rightarrow> OptNormal | Some c \<Rightarrow> c)"

section \<open>Properties\<close>

fun last_registered :: "('p, 'r) handler_op list \<Rightarrow> string \<Rightarrow> ('p \<Rightarrow> string + 'r) option" where
  "last_registered [] meth = None"
| "last_registered (HsRegister m h # ops) meth = (if m = meth then Some h else last_registered ops meth)"
| "last_registered (_ # ops) meth = last_registered ops meth"

fun last_condition :: "('p, 'r) handler_op list \<Rightarrow> speed" where
  "last_condition [] = SpeedFast"
| "last_condition (HsCondition c # ops) = c"
| "last_condition (_ # ops) = last_condition ops"

lemma handle_keeps [simp]:
  "hs_handlers (snd (hs_handle i meth p s)) = hs_handlers s"
  "hs_networkCondition (snd (hs_handle i meth p s)) = hs_networkCondition s"
  by (auto simp: hs_handle_def Let_def split: option.split sum.split)

lemma hs_run_state:
  "jget (hs_handlers (hs_run ops handler_server_new)) meth = last_registered (rev ops) meth \<and>
   hs_networkCondition (hs_run ops handler_server_new) = last_condition (rev ops)"
proof (induction ops rule: rev_induct)
  case (snoc p ops)
  then show ?case
    by (cases p) (auto simp: hs_run_def hs_register_def hs_setNetworkCondition_def jget_set)
qed (simp add: hs_run_def handler_server_new_def)

text \<open>
  In every run a request is answered by the handler registered last for its method, after the delay of the condition
  set last; under the timeout condition every request fails after that delay, and an unknown method is an error.
\<close>

theorem latest_handler_answers:
  "fst (hs_handle i meth p (hs_run ops handler_server_new)) =
    (if last_condition (rev ops) = SpeedTimeout then Inl (''RPC request timed out after '' @ nat_dec 5000 @ ''ms'')
     else case last_registered (rev ops) meth of
         None \<Rightarrow> Inl (''Unknown method: '' @ meth)
       | Some h \<Rightarrow> (case h p of Inl e \<Rightarrow> Inl e | Inr r \<Rightarrow> Inr (i, r))) \<and>
   hs_slept (snd (hs_handle i meth p (hs_run ops handler_server_new))) = hs_slept (hs_run ops handler_server_new) @
     (if last_condition (rev ops) = SpeedFast then [] else [NETWORK_CONDITION_DELAYS (last_condition (rev ops))])"
  using hs_run_state [of ops meth]
  by (cases "last_condition (rev ops)") (auto simp: hs_handle_def Let_def split: option.split sum.split)

end
