(* ===== verification/MockFixtures.thy ===== *)
theory MockFixtures
  imports MockServer
begin

text \<open>
  Fixture files of the mock server (\<open>saveFixture\<close>, \<open>loadFixture\<close>, \<open>loadFixtureFromString\<close> of
  \<open>packages/mock-rpc/src/fixture-recorder.ts\<close>, \<open>loadFixtureFromFile\<close> and \<open>saveFixture\<close> of
  \<open>packages/mock-rpc/src/mock-rpc-server.ts\<close>) and the two ways into the server: its own methods and the object
  of \<open>getServer\<close>. \<open>JSON\<close> and \<open>path.dirname\<close> are arguments; a disk is its directories, its files and the
  message with which it refuses a path.
\<close>

section \<open>Fixture files\<close>

record disk =
  dk_dirs :: "string list"
  dk_files :: "(string, string) js_map"
  dk_refuses :: "string \<Rightarrow> string option"

record 'm fixture_codec =
  fc_stringify :: "fixture \<times> 'm option \<Rightarrow> string"
  fc_parse :: "string \<Rightarrow> string + fixture \<times> 'm option"
  fc_dirname :: "string \<Rightarrow> string"

text \<open>
  \<open>mkdirSync\<close> is recursive and does nothing for a directory that is there, so the ancestors it makes need no entry.
\<close>

definition mkdirSync :: "string \<Rightarrow> disk \<Rightarrow> (string + unit) \<times> disk" where
  "mkdirSync dir d = (case dk_refuses d dir of
     Some e \<Rightarrow> (Inl e, d) | None \<Rightarrow> (Inr (), d\<lparr>dk_dirs := dk_dirs d @ [dir]\<rparr>))"

definition writeFileSync :: "string \<Rightarrow> string \<Rightarrow> disk \<Rightarrow> (string + unit) \<times> disk" where
  "writeFileSync path content d = (case dk_refuses d path of
     Some e \<Rightarrow> (Inl e, d) | None \<Rightarrow> (Inr (), d\<lparr>dk_files := jset (dk_files d) path content\<rparr>))"

definition rec_saveFixture ::
  "'m fixture_codec \<Rightarrow> string \<Rightarrow> string \<Rightarrow> 'm option \<Rightarrow> recorder \<Rightarrow> disk \<Rightarrow> (string + unit) \<times> disk" where
  "rec_saveFixture c filePath name metadata r d =
    (let dir = fc_dirname c filePath
     in ebind (\<lambda>d. if List.member (dk_dirs d) dir then (Inr (), d) else mkdirSync dir d)
       (\<lambda>_. writeFileSync filePath
          (fc_stringify c (\<lparr>fx_name = name, fx_interactions = rc_recording r\<rparr>, metadata))) d)"

definition loadFixtureFromString :: "'m fixture_codec \<Rightarrow> string \<Rightarrow> string + fixture" where
  "loadFixtureFromString c json = (case fc_parse c json of Inl e \<Rightarrow> Inl e | Inr (fx, m) \<Rightarrow> Inr fx)"

definition rec_loadFixture :: "'m fixture_codec \<Rightarrow> string \<Rightarrow> disk \<Rightarrow> string + fixture" where
  "rec_loadFixture c filePath d = (case jget (dk_files d) filePath of
     None \<Rightarrow> Inl (''ENOENT: no such file or directory, open '' @ filePath)
   | Some raw \<Rightarrow> loadFixtureFromString c raw)"

definition isRecordingActive :: "recorder \<Rightarrow> bool" where
  "isRecordingActive = rc_isRecording"

definition getRecordedCount :: "recorder \<Rightarrow> nat" where
  "getRecordedCount r = length (rc_recording r)"

definition mk_saveFixture ::
  "'m fixture_codec \<Rightarrow> string \<Rightarrow> string \<Rightarrow> 'm option \<Rightarrow> mock_server \<Rightarrow> disk \<Rightarrow> (string + unit) \<times> disk" where
  "mk_saveFixture c filePath name metadata s = rec_saveFixture c filePath name metadata (mk_recorder s)"

definition loadFixtureFromFile :: "'m fixture_codec \<Rightarrow> string \<Rightarrow> disk \<Rightarrow> mock_server \<Rightarrow> (string + unit) \<times> mock_server" where
  "loadFixtureFromFile c filePath d s = (case rec_loadFixture c filePath d of
     Inl e \<Rightarrow> (Inl e, s) | Inr fx \<Rightarrow> (Inr (), mk_loadFixture fx s))"

section \<open>The methods of the server\<close>

definition getNetworkCondition :: "mock_server \<Rightarrow> network_condition" where
  "getNetworkCondition s = mc_networkCondition (mk_config s)"

datatype rpc_call =
    CallSimulate "(ledger_key list \<times> ledger_key list) option"
  | CallEntries "ledger_key list"
  | CallAccount string
  | CallSend "(ledger_key list \<times> ledger_key list) option"
  | CallTransaction string
  | CallNetwork
  | CallHealth
  | CallLatestLedger

text \<open>The methods of \<open>SorobanRpcClient\<close>; it has none for the health and the latest ledger.\<close>

fun client_method :: "(ledger_key \<Rightarrow> string) \<Rightarrow> string \<Rightarrow> rpc_call \<Rightarrow> mock_response served option" where
  "client_method enc hash (CallAccount a) = Some (handleGetAccount a)"
| "client_method enc hash (CallSimulate tx) = Some (handleSimulateTransaction enc tx)"
| "client_method enc hash (CallSend tx) = Some (handleSendTransaction hash tx)"
| "client_method enc hash (CallTransaction h) = Some (handleGetTransaction h)"
| "client_method enc hash (CallEntries keys) = Some (handleGetLedgerEntries enc keys)"
| "client_method enc hash CallNetwork = Some handleGetNetwork"
| "client_method enc hash _ = None"

fun legacy_getServer :: "(ledger_key \<Rightarrow> string) \<Rightarrow> string \<Rightarrow> rpc_call \<Rightarrow> mock_response served" where
  "legacy_getServer enc hash (CallSimulate tx) = handleSimulateTransaction enc tx"
| "legacy_getServer enc hash (CallEntries keys) = handleGetLedgerEntries enc keys"
| "legacy_getServer enc hash (CallAccount a) = handleGetAccount a"
| "legacy_getServer enc hash (CallSend tx) = handleSendTransaction hash tx"
| "legacy_getServer enc hash (CallTransaction h) = handleGetTransaction h"
| "legacy_getServer enc hash CallHealth = handleGetHealth"
| "legacy_getServer enc hash CallNetwork = handleGetNetwork"
| "legacy_getServer enc hash CallLatestLedger = handleGetLatestLedger"

lemma legacy_server_agrees: "client_method enc hash call = Some f \<Longrightarrow> legacy_getServer enc hash call = f"
  by (cases call) auto

section \<open>Recording and replay\<close>

type_synonym request = "string \<times> mock_param list \<times> (mock_server \<Rightarrow> mock_response)"

fun serve :: "request list \<Rightarrow> mock_server \<Rightarrow> (string + mock_response) list \<times> mock_server" where
  "serve [] s = ([], s)"
| "serve ((meth, params, handler) # rs) s = (case handleRequest meth params handler s of
     (r, t) \<Rightarrow> (case serve rs t of (answers, u) \<Rightarrow> (r # answers, u)))"

text \<open>What a fixture answers: the first request of its method with as many parameters that had an answer.\<close>

fun first_answer :: "request list \<Rightarrow> (string + mock_response) list \<Rightarrow> string \<Rightarrow> nat \<Rightarrow> mock_response option" where
  "first_answer ((m, ps, h) # rs) (Inr x # answers) meth n =
    (if m = meth \<and> length ps = n then Some x else first_answer rs answers meth n)"
| "first_answer (q # rs) (Inl e # answers) meth n = first_answer rs answers meth n"
| "first_answer _ _ meth n = None"

definition recording :: "mock_server \<Rightarrow> bool" where
  "recording s = (mk_overrides s = [] \<and> mk_mode s = Record \<and> rc_isRecording (mk_recorder s))"

definition replayable :: "interaction \<Rightarrow> bool" where
  "replayable i = (in_networkCondition i \<in> {Healthy, Slow} \<and> in_delayMs i = 0)"

definition interaction_for :: "string \<Rightarrow> nat \<Rightarrow> interaction \<Rightarrow> bool" where
  "interaction_for meth n i = (in_method i = meth \<and> length (in_requestParams i) = n)"

lemma find_interaction: "find (interaction_for meth n) (i # is) =
    (if in_method i = meth \<and> length (in_requestParams i) = n then Some i else find (interaction_for meth n) is)"
  by (simp add: interaction_for_def)

lemma recorded_request:
  assumes "recording s" and "handleRequest meth params handler s = (r, t)"
  shows "recording t" and "\<exists>is. rc_recording (mk_recorder t) = rc_recording (mk_recorder s) @ is \<and>
    (case r of Inl e \<Rightarrow> is = []
     | Inr x \<Rightarrow> \<exists>i. is = [i] \<and> in_method i = meth \<and> in_requestParams i = params \<and> in_response i = x \<and> replayable i)"
  using assms
  by (auto simp: handleRequest_def recording_def count_call_def replayed_def applyNetworkSimulation_def record_result_def
      rec_record_def getEffectiveCondition_def replayable_def Let_def ebind_def eret_def jget_def
      split: network_condition.splits option.splits)

lemma recorded_requests:
  assumes "recording s" and "serve rs s = (answers, t)"
  shows "recording t \<and> (\<exists>is. rc_recording (mk_recorder t) = rc_recording (mk_recorder s) @ is \<and> list_all replayable is \<and>
    (\<forall>meth n. map_option in_response (find (interaction_for meth n) is) = first_answer rs answers meth n))"
  using assms
proof (induction rs arbitrary: s answers)
  case (Cons q rs)
  obtain m ps h where q: "q = (m, ps, h)" by (cases q) auto
  obtain r u where r: "handleRequest m ps h s = (r, u)" by (cases "handleRequest m ps h s") auto
  obtain rest where rest: "serve rs u = (rest, t)" "answers = r # rest"
    using Cons.prems(2) q r by (auto split: prod.splits)
  obtain xs where xs: "rc_recording (mk_recorder u) = rc_recording (mk_recorder s) @ xs"
      "case r of Inl e \<Rightarrow> xs = []
       | Inr x \<Rightarrow> \<exists>i. xs = [i] \<and> in_method i = m \<and> in_requestParams i = ps \<and> in_response i = x \<and> replayable i"
    using recorded_request(2) [OF Cons.prems(1) r] by blast
  obtain ys where ys: "recording t" "rc_recording (mk_recorder t) = rc_recording (mk_recorder u) @ ys" "list_all replayable ys"
      "\<forall>meth n. map_option in_response (find (interaction_for meth n) ys) = first_answer rs rest meth n"
    using Cons.IH [OF recorded_request(1) [OF Cons.prems(1) r] rest(1)] by blast
  show ?case
    using xs ys q rest(2)
    by (intro conjI exI [of _ "xs @ ys"]) (auto simp: find_interaction simp del: find.simps(2) split: sum.splits)
qed simp

lemma findInteraction_for:
  "findInteraction fx meth params = find (interaction_for meth (length params)) (fx_interactions fx)"
  by (simp add: findInteraction_def interaction_for_def [abs_def])

lemma replay_answers:
  assumes "mk_overrides s = []" "mk_mode s = Replay" "mk_fixture s = Some fx"
    and "findInteraction fx meth params = Some i" "replayable i"
  shows "fst (handleRequest meth params handler s) = Inr (in_response i)"
  using assms
  by (cases "in_networkCondition i") (simp_all add: handleRequest_def count_call_def replayed_def applyNetworkSimulation_def
    replayable_def Let_def ebind_def eret_def jget_def)

lemma condition_of_settings [simp]:
  "getEffectiveCondition (s\<lparr>mk_stats := st\<rparr>) meth = getEffectiveCondition s meth"
  "getEffectiveCondition (s\<lparr>mk_fixture := f\<rparr>) meth = getEffectiveCondition s meth"
  "getEffectiveCondition (s\<lparr>mk_fixture := f, mk_stats := st\<rparr>) meth = getEffectiveCondition s meth"
  by (simp_all add: getEffectiveCondition_def cong: option.case_cong)

lemma replay_silent:
  assumes "mk_overrides s = []" "mk_fixture s = Some fx" "findInteraction fx meth params = None"
    and "\<And>x f. handler (x\<lparr>mk_fixture := f\<rparr>) = handler x"
  shows "fst (handleRequest meth params handler s) = fst (handleRequest meth params handler (s\<lparr>mk_fixture := None\<rparr>))"
proof -
  have "s\<lparr>mk_fixture := f, mk_stats := st\<rparr> = s\<lparr>mk_stats := st, mk_fixture := f\<rparr>" for f st by simp
  then have "handler (s\<lparr>mk_fixture := f, mk_stats := st\<rparr>) = handler (s\<lparr>mk_stats := st\<rparr>)" for f st
    using assms(4) by metis
  then show ?thesis using assms(1-3)
    by (cases "getEffectiveCondition s meth"; cases "mk_mode s") (simp_all add: handleRequest_def count_call_def replayed_def
      applyNetworkSimulation_def simulated_error_def simulated_delay_def record_result_def Let_def
      ebind_def eret_def jget_def cong: option.case_cong)
qed

lemma saved_fixture_loads:
  assumes "rec_saveFixture c path name m r d = (Inr (), d')" "\<And>x. fc_parse c (fc_stringify c x) = Inr x"
  shows "rec_loadFixture c path d' = Inr \<lparr>fx_name = name, fx_interactions = rc_recording r\<rparr>"
  using assms
  by (auto simp: rec_saveFixture_def Let_def ebind_def mkdirSync_def writeFileSync_def rec_loadFixture_def
      loadFixtureFromString_def jget_set split: if_splits option.splits)

text \<open>
  What is recorded can be replayed: after any requests to a recording server, its fixture written to a file and loaded
  by another server, that server answers a request with the answer the first recorded request of this method with as
  many parameters had, and fails on none of them; a request nothing was recorded for it answers itself.
\<close>

theorem recording_replays:
  fixes c :: "'m fixture_codec"
  assumes codec: "\<And>x. fc_parse c (fc_stringify c x) = Inr x"
    and fresh: "mk_overrides s = []"
    and served: "serve rs (mk_startRecording s) = (answers, t)"
    and saved: "mk_saveFixture c path name m (snd (mk_stopRecording t)) d = (Inr (), d')"
    and other: "mk_overrides u = []"
    and plain: "\<And>x f. handler (x\<lparr>mk_fixture := f\<rparr>) = handler x"
  shows "\<exists>v. loadFixtureFromFile c path d' u = (Inr (), v) \<and>
    fst (handleRequest meth params handler v) = (case first_answer rs answers meth (length params) of
        Some x \<Rightarrow> Inr x | None \<Rightarrow> fst (handleRequest meth params handler (v\<lparr>mk_fixture := None\<rparr>)))"
proof -
  have "recording (mk_startRecording s)"
    using fresh by (simp add: recording_def mk_startRecording_def rec_start_def)
  from recorded_requests [OF this served] obtain xs where xs: "rc_recording (mk_recorder t) = xs" "list_all replayable xs"
      "map_option in_response (find (interaction_for meth (length params)) xs) = first_answer rs answers meth (length params)"
    by (auto simp: mk_startRecording_def rec_start_def)
  define fx where "fx = \<lparr>fx_name = name, fx_interactions = xs\<rparr>"
  have "rc_recording (mk_recorder (snd (mk_stopRecording t))) = xs"
    using xs(1) by (simp add: mk_stopRecording_def rec_stop_def)
  then have "rec_loadFixture c path d' = Inr fx"
    using saved_fixture_loads [OF saved [unfolded mk_saveFixture_def] codec] by (simp add: fx_def)
  then have load: "loadFixtureFromFile c path d' u = (Inr (), mk_loadFixture fx u)"
    by (simp add: loadFixtureFromFile_def)
  show ?thesis
  proof (cases "find (interaction_for meth (length params)) xs")
    case None
    then show ?thesis
      using load xs(3) replay_silent [OF _ _ _ plain, of "mk_loadFixture fx u" fx meth params] other
      by (simp add: mk_loadFixture_def fx_def findInteraction_for)
  next
    case (Some i)
    then have "replayable i" using xs(2) by (auto simp: find_Some_iff list_all_length)
    then show ?thesis
      using load xs(3) [symmetric] Some replay_answers [of "mk_loadFixture fx u" fx meth params i handler] other
      by (auto simp: mk_loadFixture_def fx_def findInteraction_for)
  qed
qed

end
