(* ===== verification/Codemod.thy ===== *)
theory Codemod
  imports Prelude "HOL-Library.Multiset"
begin

text \<open>
  The codemod that moves imports of \<open>@soroban-resurrect/sdk\<close> to the modular packages
  (\<open>scripts/codemods/migrate-to-modular.ts\<close>): what it does to the text of a file and to a directory. The two regular
  expressions are matchers: each of their repetitions ends where the next character of the expression begins, so the
  first way to match is the only one. Console lines are left out.
\<close>

section \<open>The mapping of imports\<close>

record import_mapping =
  im_newPackage :: string
  im_exports :: "string list"

definition importMappings :: "import_mapping list" where
  "importMappings = [
    \<lparr>im_newPackage = ''@soroban-resurrect/core'', im_exports =
      [''SorobanResurrect'']\<rparr>,
    \<lparr>im_newPackage = ''@soroban-resurrect/footprint-parser'', im_exports =
      [''extractKeysFromFootprint'', ''classifyLedgerKey'', ''classifySacKey'', ''encodeLedgerKey'',
       ''extractFootprintFromTransaction'', ''extractFootprintFromTransactionStreaming'', ''classifyDeferredKeys'',
       ''STREAMING_PARSER_MEMORY_TARGET'', ''STREAMING_THRESHOLD_BYTES'']\<rparr>,
    \<lparr>im_newPackage = ''@soroban-resurrect/footprint-parser'', im_exports =
      [''FootprintKeys'', ''DeferredArchivedKey'']\<rparr>,
    \<lparr>im_newPackage = ''@soroban-resurrect/errors'', im_exports =
      [''SorobanResurrectError'']\<rparr>,
    \<lparr>im_newPackage = ''@soroban-resurrect/types'', im_exports =
      [''ArchivedKey'', ''SacKeyType'', ''RestorePriority'', ''SorobanResurrectConfig'', ''SimulationCheckResult'',
       ''RestoreTransactionResult'', ''RestoreBatchResult'', ''RestoreAllBatchesResult'', ''ConcurrentRestoreResult'',
       ''ContractKeyGroup'', ''ExecutionResult'', ''FailedRestoreState'', ''PreFlightConfig'', ''FeeBumpMetadata'',
       ''SorobanResurrectErrorContext'', ''SorobanResurrectErrorBase'', ''SorobanResurrectEvents'',
       ''WsTransactionStatusEvent'', ''TransactionWaitResult'', ''RetryPolicy'', ''RpcEndpointHealth'',
       ''RpcFailoverConfig'', ''SimulationCacheConfig'', ''FootprintCacheConfig'', ''CacheStatistics'',
       ''FootprintCacheStatistics'']\<rparr>,
    \<lparr>im_newPackage = ''@soroban-resurrect/types'', im_exports =
      [''FeatureFlags'']\<rparr>,
    \<lparr>im_newPackage = ''@soroban-resurrect/rpc'', im_exports =
      [''ExponentialBackoff'', ''FixedDelay'', ''JitterBackoff'', ''CircuitBreaker'', ''DEFAULT_RETRY_POLICY'',
       ''SimulationCache'', ''FootprintCache'', ''RpcFailoverManager'']\<rparr>,
    \<lparr>im_newPackage = ''@soroban-resurrect/utils'', im_exports =
      [''batchKeysByContract'', ''groupKeysByPriority'', ''createBatches'', ''delay'', ''pollWithRetry'', ''hashString'',
       ''DEFAULT_MAX_CONCURRENCY'', ''MAX_RETRIES'', ''RETRY_DELAY_MS'', ''DEFAULT_POLL_ATTEMPTS'', ''POLL_INTERVAL_MS'',
       ''MAX_XDR_SIZE_BYTES'', ''DEFAULT_RESTORE_FEE'']\<rparr>,
    \<lparr>im_newPackage = ''@soroban-resurrect/utils'', im_exports =
      [''BatchingOptions'', ''PollingOptions'']\<rparr>]"

fun split_char :: "char \<Rightarrow> string \<Rightarrow> string list" where
  "split_char d [] = [[]]"
| "split_char d (c # cs) = (if c = d then [] # split_char d cs
     else case split_char d cs of [] \<Rightarrow> [[c]] | w # ws \<Rightarrow> (c # w) # ws)"

fun before_text :: "string \<Rightarrow> string \<Rightarrow> string" where
  "before_text sep [] = []"
| "before_text sep (c # cs) = (if take (length sep) (c # cs) = sep then [] else c # before_text sep cs)"

definition import_list :: "string \<Rightarrow> string list" where
  "import_list imports = filter (\<lambda>s. s \<noteq> []) (map js_trim (split_char CHR '','' imports))"

definition import_name :: "string \<Rightarrow> string" where
  "import_name imp = js_trim (before_text '' as '' imp)"

definition package_of :: "import_mapping list \<Rightarrow> string \<Rightarrow> string option" where
  "package_of mappings name = map_option im_newPackage (find (\<lambda>m. List.member (im_exports m) name) mappings)"

definition add_import :: "import_mapping list \<Rightarrow> string \<Rightarrow> (string, string list) js_map \<Rightarrow> (string, string list) js_map" where
  "add_import mappings imp grouped = (case package_of mappings (import_name imp) of
     None \<Rightarrow> grouped
   | Some pkg \<Rightarrow> jset grouped pkg ((case jget grouped pkg of None \<Rightarrow> [] | Some is \<Rightarrow> is) @ [imp]))"

definition groupedImports :: "import_mapping list \<Rightarrow> string list \<Rightarrow> (string, string list) js_map" where
  "groupedImports mappings imports = fold (add_import mappings) imports []"

definition unmappedImports :: "import_mapping list \<Rightarrow> string list \<Rightarrow> string list" where
  "unmappedImports mappings imports =
    filter (\<lambda>imp. \<not> list_ex (\<lambda>m. List.member (im_exports m) (import_name imp)) mappings) imports"

definition SDK_PACKAGE :: string where
  "SDK_PACKAGE = ''@soroban-resurrect/sdk''"

definition import_statement :: "string \<Rightarrow> string list \<Rightarrow> string" where
  "import_statement pkg imports = ''import { '' @ join_with '', '' imports @ '' } from '' @ [CHR 0x27] @ pkg @ [CHR 0x27]"

text \<open>What the callback of the first expression returns: \<open>None\<close> stands for the match itself.\<close>

definition new_imports :: "import_mapping list \<Rightarrow> string \<Rightarrow> (string \<times> string list) list option" where
  "new_imports mappings imports = (let importList = import_list imports; grouped = groupedImports mappings importList;
       unmapped = unmappedImports mappings importList
     in if grouped = [] \<and> unmapped = [] then None
        else Some (grouped @ (if unmapped \<noteq> [] then [(SDK_PACKAGE, unmapped)] else [])))"

definition rewrite_named :: "import_mapping list \<Rightarrow> string \<Rightarrow> string option" where
  "rewrite_named mappings imports =
    map_option (\<lambda>stmts. join_with [CHR 0x0A] (map (case_prod import_statement) stmts)) (new_imports mappings imports)"

definition rewrite_default :: "string \<Rightarrow> string option" where
  "rewrite_default name = (if name = ''SorobanResurrect''
     then Some (import_statement ''@soroban-resurrect/core'' [''SorobanResurrect'']) else None)"

section \<open>Matching\<close>

definition eat :: "string \<Rightarrow> string \<Rightarrow> string option" where
  "eat t s = (if take (length t) s = t then Some (drop (length t) s) else None)"

definition eat_spaces :: "string \<Rightarrow> string option" where
  "eat_spaces s = (case s of c # cs \<Rightarrow> if is_ws c then Some (dropWhile is_ws cs) else None | [] \<Rightarrow> None)"

definition eat_quote :: "string \<Rightarrow> string option" where
  "eat_quote s = (case s of c # cs \<Rightarrow> if c = CHR 0x27 \<or> c = CHR 0x22 then Some cs else None | [] \<Rightarrow> None)"

definition eat_word :: "(char \<Rightarrow> bool) \<Rightarrow> string \<Rightarrow> (string \<times> string) option" where
  "eat_word P s = (let w = takeWhile P s in if w = [] then None else Some (w, dropWhile P s))"

definition identifier_char :: "char \<Rightarrow> bool" where
  "identifier_char c = (let n = (of_char c :: nat) in is_digit c \<or> 97 \<le> n \<and> n \<le> 122 \<or> 65 \<le> n \<and> n \<le> 90 \<or> c = CHR ''_'')"

text \<open>\<open>\s+from\s+\<close> and the quoted name of the package.\<close>

definition eat_from :: "string \<Rightarrow> string option" where
  "eat_from s = Option.bind (eat_spaces s) (\<lambda>s. Option.bind (eat ''from'' s) (\<lambda>s. Option.bind (eat_spaces s) (\<lambda>s.
     Option.bind (eat_quote s) (\<lambda>s. Option.bind (eat SDK_PACKAGE s) eat_quote))))"

definition importRegex :: "string \<Rightarrow> (string \<times> string) option" where
  "importRegex s = Option.bind (eat ''import'' s) (\<lambda>s. Option.bind (eat_spaces s) (\<lambda>s. Option.bind (eat ''{'' s) (\<lambda>s.
     Option.bind (eat_word (\<lambda>c. c \<noteq> CHR ''}'') s) (\<lambda>(w, s). Option.bind (eat ''}'' s) (\<lambda>s.
       map_option (\<lambda>rest. (w, rest)) (eat_from s))))))"

definition defaultImportRegex :: "string \<Rightarrow> (string \<times> string) option" where
  "defaultImportRegex s = Option.bind (eat ''import'' s) (\<lambda>s. Option.bind (eat_spaces s) (\<lambda>s.
     Option.bind (eat_word identifier_char s) (\<lambda>(w, s). map_option (\<lambda>rest. (w, rest)) (eat_from s))))"

text \<open>
  \<open>text.replace(regex, callback)\<close> for a global expression: the result, and whether a callback returned something
  else than the match. The counter holds the characters of a match that was replaced already.
\<close>

fun replace_all :: "(string \<Rightarrow> (string \<times> string) option) \<Rightarrow> (string \<Rightarrow> string option) \<Rightarrow> nat \<Rightarrow> string \<Rightarrow> bool \<times> string" where
  "replace_all regex callback n [] = (False, [])"
| "replace_all regex callback (Suc n) (c # cs) = replace_all regex callback n cs"
| "replace_all regex callback 0 (c # cs) = (case regex (c # cs) of
     None \<Rightarrow> (case replace_all regex callback 0 cs of (modified, t) \<Rightarrow> (modified, c # t))
   | Some (w, rest) \<Rightarrow>
       (let n = length cs - length rest
        in case replace_all regex callback n cs of (modified, t) \<Rightarrow>
          (case callback w of
             None \<Rightarrow> (modified, c # take n cs @ t)
           | Some new \<Rightarrow> (True, new @ t))))"

section \<open>Files\<close>

definition rewrite_text :: "string \<Rightarrow> bool \<times> string" where
  "rewrite_text content = (case replace_all importRegex (rewrite_named importMappings) 0 content of (m1, t1) \<Rightarrow>
     (case replace_all defaultImportRegex rewrite_default 0 t1 of (m2, t2) \<Rightarrow> (m1 \<or> m2, t2)))"

text \<open>The file is written only when it was modified.\<close>

definition processFile :: "string \<Rightarrow> string" where
  "processFile content = (case rewrite_text content of (modified, t) \<Rightarrow> if modified then t else content)"

datatype fs_entry = FsFile string string | FsDirectory string "fs_entry list" | FsOther string

definition EXCLUDED :: "string list" where
  "EXCLUDED = [''node_modules'', ''.git'', ''dist'', ''build'']"

definition endsWith :: "string \<Rightarrow> string \<Rightarrow> bool" where
  "endsWith s t \<longleftrightarrow> length t \<le> length s \<and> drop (length s - length t) s = t"

definition is_source :: "string \<Rightarrow> bool" where
  "is_source name \<longleftrightarrow> endsWith name ''.ts'' \<or> endsWith name ''.tsx'' \<or> endsWith name ''.js'' \<or> endsWith name ''.jsx''"

fun process_entry :: "fs_entry \<Rightarrow> fs_entry" where
  "process_entry (FsFile name content) = FsFile name (if is_source name then processFile content else content)"
| "process_entry (FsDirectory name entries) =
    FsDirectory name (if List.member EXCLUDED name then entries else map process_entry entries)"
| "process_entry (FsOther name) = FsOther name"

definition processDirectory :: "fs_entry list \<Rightarrow> fs_entry list" where
  "processDirectory entries = map process_entry entries"

text \<open>The target of the command line is taken whatever its name.\<close>

definition codemod_main :: "fs_entry option \<Rightarrow> string + fs_entry" where
  "codemod_main target = (case target of
     None \<Rightarrow> Inl ''does not exist''
   | Some (FsDirectory name entries) \<Rightarrow> Inr (FsDirectory name (processDirectory entries))
   | Some (FsFile name content) \<Rightarrow> Inr (FsFile name (processFile content))
   | Some (FsOther name) \<Rightarrow> Inr (FsOther name))"

section \<open>No import is lost\<close>

lemma package_of_None: "package_of ms name = None \<longleftrightarrow> \<not> list_ex (\<lambda>m. List.member (im_exports m) name) ms"
  by (auto simp: package_of_def find_None_iff list_ex_iff)

lemma unmapped_eq: "unmappedImports ms xs = filter (\<lambda>i. package_of ms (import_name i) = None) xs"
  by (simp add: unmappedImports_def package_of_None)

text \<open>The imports of a package are those the first mapping with their name sends there, in their order.\<close>

lemma grouped_snoc: "groupedImports ms (xs @ [x]) = add_import ms x (groupedImports ms xs)"
  by (simp add: groupedImports_def)

lemma grouped_get:
  "jget (groupedImports ms xs) pkg = (let is = filter (\<lambda>i. package_of ms (import_name i) = Some pkg) xs in if is = [] then None else Some is)"
proof (induction xs rule: rev_induct)
  case Nil
  then show ?case by (simp add: groupedImports_def)
next
  case (snoc x xs)
  then show ?case by (auto simp: grouped_snoc add_import_def jget_set Let_def split: option.split)
qed

lemma grouped_wf: "jwf (groupedImports ms xs)"
proof (induction xs rule: rev_induct)
  case (snoc x xs)
  then show ?case by (simp add: grouped_snoc add_import_def jm.invar_put split: option.split)
qed (simp add: groupedImports_def jwf_def)

lemma mset_jset: "jwf m \<Longrightarrow> mset (concat (map snd (jset m k v))) + mset (case jget m k of None \<Rightarrow> [] | Some w \<Rightarrow> w) =
    mset (concat (map snd m)) + mset v"
proof (induction m k v rule: jset.induct)
  case (2 a b m k v)
  then show ?case by (cases "a = k") (auto simp: jget_def jwf_def ac_simps)
qed (simp add: jget_def)

lemma grouped_imports_mset: "mset (concat (map snd (groupedImports ms xs))) = mset (filter (\<lambda>i. package_of ms (import_name i) \<noteq> None) xs)"
proof (induction xs rule: rev_induct)
  case (snoc x xs)
  let ?g = "groupedImports ms xs"
  show ?case
  proof (cases "package_of ms (import_name x)")
    case (Some pkg)
    let ?old = "case jget ?g pkg of None \<Rightarrow> [] | Some is \<Rightarrow> is"
    have "mset (concat (map snd (jset ?g pkg (?old @ [x])))) = mset (concat (map snd ?g)) + {#x#}"
      using mset_jset [OF grouped_wf, of ms xs pkg "?old @ [x]"] by simp
    then show ?thesis using snoc Some by (simp add: grouped_snoc add_import_def)
  qed (use snoc in \<open>simp add: grouped_snoc add_import_def\<close>)
qed (simp add: groupedImports_def)

lemma no_sdk_mapping: "package_of importMappings name \<noteq> Some SDK_PACKAGE"
  by (auto simp: package_of_def importMappings_def SDK_PACKAGE_def find_Some_iff)

lemma grouped_entry:
  assumes "(p, is) \<in> set (groupedImports ms xs)" and "i \<in> set is"
  shows "package_of ms (import_name i) = Some p"
proof -
  have "jget (groupedImports ms xs) p = Some is" using assms(1) grouped_wf [of ms xs] by (simp add: jget_def jwf_def)
  then have "is = filter (\<lambda>i. package_of ms (import_name i) = Some p) xs" by (simp add: grouped_get Let_def split: if_splits)
  then show ?thesis using assms(2) by simp
qed

text \<open>
  The statements an import is replaced by name each imported name once: those a package exports in the one statement of
  this package, the others in a statement of the old package. Only an import without names is left as it is.
\<close>

theorem migration_keeps_imports:
  "case new_imports importMappings imports of
     None \<Rightarrow> import_list imports = []
   | Some stmts \<Rightarrow> mset (concat (map snd stmts)) = mset (import_list imports) \<and> distinct (map fst stmts) \<and>
       list_all (\<lambda>(p, is). list_all (\<lambda>i. p = (case package_of importMappings (import_name i) of Some q \<Rightarrow> q | None \<Rightarrow> SDK_PACKAGE)) is) stmts"
proof -
  let ?xs = "import_list imports"
  let ?g = "groupedImports importMappings ?xs"
  let ?u = "unmappedImports importMappings ?xs"
  have all: "mset (concat (map snd ?g)) + mset ?u = mset ?xs"
    unfolding grouped_imports_mset unmapped_eq by (simp add: mset_filter)
  have fresh: "SDK_PACKAGE \<notin> fst ` set ?g"
  proof
    assume "SDK_PACKAGE \<in> fst ` set ?g"
    then obtain imps where e: "(SDK_PACKAGE, imps) \<in> set ?g" by auto
    then have "jget ?g SDK_PACKAGE = Some imps" using grouped_wf [of importMappings ?xs] by (simp add: jget_def jwf_def)
    then have "imps \<noteq> []" by (auto simp: grouped_get Let_def split: if_splits)
    then show False using grouped_entry [OF e] no_sdk_mapping by (cases imps) auto
  qed
  have sent: "list_all (\<lambda>(p, is). list_all (\<lambda>i. p = (case package_of importMappings (import_name i) of Some q \<Rightarrow> q | None \<Rightarrow> SDK_PACKAGE)) is) ?g"
    using grouped_entry by (fastforce simp: list_all_iff)
  have keys: "distinct (map fst ?g)" using grouped_wf by (simp add: jwf_def)
  show ?thesis
  proof (cases "?g = [] \<and> ?u = []")
    case True
    then show ?thesis using all by (simp add: new_imports_def)
  next
    case False
    then have "new_imports importMappings imports = Some (?g @ (if ?u \<noteq> [] then [(SDK_PACKAGE, ?u)] else []))"
      by (simp add: new_imports_def Let_def)
    moreover have "list_all (\<lambda>i. SDK_PACKAGE = (case package_of importMappings (import_name i) of Some q \<Rightarrow> q | None \<Rightarrow> SDK_PACKAGE)) ?u"
      by (simp add: unmapped_eq list_all_iff)
    ultimately show ?thesis using all fresh sent keys by (cases "?u = []") simp_all
  qed
qed

section \<open>Running it again\<close>

text \<open>A printed statement is read back as it was written.\<close>

definition plain_import :: "string \<Rightarrow> bool" where
  "plain_import i \<longleftrightarrow> i \<noteq> [] \<and> js_trim i = i \<and> CHR '','' \<notin> set i \<and> CHR ''}'' \<notin> set i"

lemma split_word: "d \<notin> set w \<Longrightarrow> split_char d w = [w]"
  by (induction w) auto

lemma split_words: "d \<notin> set w \<Longrightarrow> split_char d (w @ d # s) = w # split_char d s"
  by (induction w) auto

lemma trim_blank: "js_trim (CHR '' '' # s) = js_trim s" "js_trim (s @ '' '') = js_trim s"
proof -
  have blank: "is_ws CHR '' ''" by (simp add: is_ws_def)
  then show "js_trim (CHR '' '' # s) = js_trim s" by (simp add: js_trim_def)
  show "js_trim (s @ '' '') = js_trim s"
    using blank by (cases "\<forall>c \<in> set s. is_ws c") (auto simp: js_trim_def dropWhile_append dest: set_dropWhileD)
qed

lemma import_list_joined: "is \<noteq> [] \<Longrightarrow> list_all plain_import is \<Longrightarrow> import_list (CHR '' '' # join_with '', '' is @ '' '') = is"
proof (induction "'', ''" "is" rule: join_with.induct)
  case (2 x)
  then show ?case by (simp add: import_list_def plain_import_def split_word trim_blank)
next
  case (3 x y zs)
  have "split_char CHR '','' (CHR '' '' # (x @ CHR '','' # CHR '' '' # join_with '', '' (y # zs)) @ '' '') =
      (CHR '' '' # x) # split_char CHR '','' (CHR '' '' # join_with '', '' (y # zs) @ '' '')"
    using split_words [of "CHR '',''" "CHR '' '' # x"] 3 by (simp add: plain_import_def)
  then show ?case using 3 by (simp add: import_list_def plain_import_def trim_blank)
qed simp

lemma no_brace_joined: "list_all plain_import is \<Longrightarrow> CHR ''}'' \<notin> set (join_with '', '' is)"
  by (induction "'', ''" "is" rule: join_with.induct) (auto simp: plain_import_def)

lemma eat_append: "eat t (t @ s) = Some s"
  by (simp add: eat_def)

lemma eat_until: "c \<notin> set w \<Longrightarrow> takeWhile (\<lambda>x. x \<noteq> c) (w @ c # t) = w \<and> dropWhile (\<lambda>x. x \<noteq> c) (w @ c # t) = c # t"
  by (induction w) auto

lemma statement_matched:
  assumes "list_all plain_import is"
  shows "importRegex (import_statement SDK_PACKAGE is @ rest) = Some (CHR '' '' # join_with '', '' is @ '' '', rest)"
proof -
  let ?w = "CHR '' '' # join_with '', '' is @ '' ''"
  have "CHR ''}'' \<notin> set ?w" using no_brace_joined [OF assms] by auto
  from eat_until [OF this] have word: "eat_word (\<lambda>c. c \<noteq> CHR ''}'') (?w @ CHR ''}'' # t) = Some (?w, CHR ''}'' # t)" for t
    by (simp only: eat_word_def Let_def) simp
  have blank: "is_ws CHR '' ''" "\<not> is_ws CHR ''{''" "\<not> is_ws CHR ''f''" "\<not> is_ws CHR 0x27" by (simp_all add: is_ws_def)
  have spaces: "eat_spaces (CHR '' '' # c # t) = Some (c # t)" if "\<not> is_ws c" for c t using blank that by (simp add: eat_spaces_def)
  have tail: "eat_from ('' from '' @ [CHR 0x27] @ SDK_PACKAGE @ [CHR 0x27] @ rest) = Some rest"
    using eat_append [of "''from''"] eat_append [of SDK_PACKAGE]
    by (simp add: eat_from_def spaces blank eat_quote_def)
  have shape: "import_statement SDK_PACKAGE is @ rest =
      ''import'' @ CHR '' '' # CHR ''{'' # ?w @ CHR ''}'' # '' from '' @ [CHR 0x27] @ SDK_PACKAGE @ [CHR 0x27] @ rest"
    by (simp add: import_statement_def)
  show ?thesis
    unfolding shape importRegex_def eat_append bind.bind_lunit
    by (simp add: spaces blank eat_append [of "''{''", simplified] word [simplified] eat_append [of "''}''", simplified] tail [simplified])
qed

text \<open>
  What the codemod leaves to the old package it leaves alone when it is run again: the statement is replaced by itself.
\<close>

theorem leftover_statement_stable:
  assumes "is \<noteq> []" and "list_all plain_import is"
    and "list_all (\<lambda>i. package_of importMappings (import_name i) = None) is"
  shows "Option.bind (importRegex (import_statement SDK_PACKAGE is @ rest)) (\<lambda>(w, r). map_option (\<lambda>t. (t, r)) (rewrite_named importMappings w)) =
    Some (import_statement SDK_PACKAGE is, rest)"
proof -
  have "groupedImports importMappings is = []"
  proof -
    have "jget (groupedImports importMappings is) p = None" for p
      using assms(3) by (auto simp: grouped_get Let_def list_all_iff filter_empty_conv)
    then show ?thesis by (cases "groupedImports importMappings is") (auto simp: jget_def, metis option.distinct(1))
  qed
  moreover have "unmappedImports importMappings is = is" using assms(3) by (simp add: unmapped_eq list_all_iff)
  ultimately show ?thesis using assms(1,2)
    by (simp add: statement_matched rewrite_named_def new_imports_def import_list_joined)
qed

text \<open>A file in which neither expression matches anywhere is not written, and only source files outside of the excluded directories are.\<close>

lemma no_match_unchanged: "(\<And>t u. s = t @ u \<Longrightarrow> regex u = None) \<Longrightarrow> replace_all regex callback 0 s = (False, s)"
proof (induction s)
  case (Cons c cs)
  have "regex (c # cs) = None" using Cons.prems [of "[]"] by simp
  moreover have "replace_all regex callback 0 cs = (False, cs)" by (rule Cons.IH) (metis Cons.prems append_Cons)
  ultimately show ?case by simp
qed simp

lemma unmatched_file_kept:
  "(\<And>t u. s = t @ u \<Longrightarrow> importRegex u = None \<and> defaultImportRegex u = None) \<Longrightarrow> processFile s = s"
  by (simp add: processFile_def rewrite_text_def no_match_unchanged)

fun entry_name :: "fs_entry \<Rightarrow> string" where
  "entry_name (FsFile n c) = n" | "entry_name (FsDirectory n es) = n" | "entry_name (FsOther n) = n"

lemma names_kept: "map entry_name (processDirectory es) = map entry_name es"
  by (simp add: processDirectory_def) (metis entry_name.simps process_entry.simps fs_entry.exhaust)

end
