(* ===== verification/ProtocolFixtures.thy ===== *)
theory ProtocolFixtures
  imports Values "HOL-Library.List_Lexorder" "HOL-Library.Char_ord"
begin

text \<open>
  Refreshing the protocol fixtures (\<open>scripts/refresh-protocol-fixtures.mjs\<close>): validation, the canonical text of a JSON
  value, and the comparison of two directories, with and without writing. A directory is a map from file names to
  texts; \<open>JSON.parse\<close> and the text of numbers and strings are a codec. The fields of a parsed object stand in the order
  of the language: names that are array indices first, by their value, the others as they were inserted.
\<close>

section \<open>Validation\<close>

definition validateFixture :: "string \<Rightarrow> json \<Rightarrow> string + json" where
  "validateFixture file data = (case data of
     JObj fs \<Rightarrow>
       if (case jget fs ''protocolVersion'' of Some (JNum n) \<Rightarrow> \<not> js_isInteger n | _ \<Rightarrow> True)
       then Inl (file @ '': protocolVersion must be an integer'')
       else if (case jget fs ''name'' of Some (JStr s) \<Rightarrow> js_trim s = [] | _ \<Rightarrow> True)
       then Inl (file @ '': name must be a non-empty string'')
       else Inr data
   | _ \<Rightarrow> Inl (file @ '': fixture must be a JSON object''))"

section \<open>The canonical text\<close>

text \<open>Decimal digits without a leading zero, below \<open>2 ^ 32 - 1\<close>.\<close>

definition is_index :: "string \<Rightarrow> bool" where
  "is_index s \<longleftrightarrow> s \<noteq> [] \<and> list_all is_digit s \<and> (s = ''0'' \<or> hd s \<noteq> CHR ''0'') \<and> dec_value s < 2 ^ 32 - 1"

text \<open>The order of the fields of an object that was filled in the order of \<open>fs\<close>, its names being different.\<close>

definition fromEntries :: "(string \<times> json) list \<Rightarrow> (string \<times> json) list" where
  "fromEntries fs = sort_key (\<lambda>f. dec_value (fst f)) (filter (\<lambda>f. is_index (fst f)) fs) @
     filter (\<lambda>f. \<not> is_index (fst f)) fs"

fun sort_keys :: "json \<Rightarrow> json" where
  "sort_keys (JArr xs) = JArr (map sort_keys xs)"
| "sort_keys (JObj fs) = JObj (fromEntries (map (\<lambda>f. (fst f, sort_keys (snd f))) (sort_key fst fs)))"
| "sort_keys v = v"

text \<open>\<open>JSON.stringify\<close> with an indentation of two blanks; the texts of strings and numbers are the engine's.\<close>

record json_text =
  jt_string :: "string \<Rightarrow> string"
  jt_number :: "js_number \<Rightarrow> string"

definition line_break :: "nat \<Rightarrow> string" where
  "line_break depth = CHR 10 # replicate (2 * depth) CHR '' ''"

definition bracketed :: "string \<Rightarrow> string \<Rightarrow> nat \<Rightarrow> string list \<Rightarrow> string" where
  "bracketed opening closing depth items = (if items = [] then opening @ closing
     else opening @ line_break (Suc depth) @ join_with ('','' @ line_break (Suc depth)) items @ line_break depth @ closing)"

fun stringify :: "json_text \<Rightarrow> nat \<Rightarrow> json \<Rightarrow> string" where
  "stringify t d JNull = ''null''"
| "stringify t d (JBool b) = (if b then ''true'' else ''false'')"
| "stringify t d (JNum n) = (if js_isFinite n then jt_number t n else ''null'')"
| "stringify t d (JStr s) = jt_string t s"
| "stringify t d (JArr xs) = bracketed ''['' '']'' d (map (stringify t (Suc d)) xs)"
| "stringify t d (JObj fs) =
    bracketed ''{'' ''}'' d (map (\<lambda>f. jt_string t (fst f) @ '': '' @ stringify t (Suc d) (snd f)) fs)"

definition stableStringify :: "json_text \<Rightarrow> json \<Rightarrow> string" where
  "stableStringify t v = stringify t 0 (sort_keys v) @ [CHR 10]"

section \<open>Directories\<close>

type_synonym directory = "(string, string) js_map"

fun render_fixtures :: "(string \<Rightarrow> string + json) \<Rightarrow> json_text \<Rightarrow> directory \<Rightarrow> string list \<Rightarrow> string + directory" where
  "render_fixtures parse t dir [] = Inr []"
| "render_fixtures parse t dir (name # names) = (case parse (the (jget dir name)) of
     Inl e \<Rightarrow> Inl (name @ '': invalid JSON ('' @ e @ '')'')
   | Inr data \<Rightarrow> (case validateFixture name data of
       Inl e \<Rightarrow> Inl e
     | Inr valid \<Rightarrow> (case render_fixtures parse t dir names of
         Inl e \<Rightarrow> Inl e
       | Inr rest \<Rightarrow> Inr ((name, stableStringify t valid) # rest))))"

definition loadFixtures :: "(string \<Rightarrow> string + json) \<Rightarrow> json_text \<Rightarrow> string \<Rightarrow> directory \<Rightarrow> string + directory" where
  "loadFixtures parse t fromDir dir =
    (case render_fixtures parse t dir (sort (filter (\<lambda>f. js_endsWith f ''.json'') (jkeys dir))) of
       Inl e \<Rightarrow> Inl e
     | Inr rendered \<Rightarrow> if rendered = [] then Inl (fromDir @ '': no .json fixtures found'') else Inr rendered)"

definition changed_files :: "directory \<Rightarrow> directory \<Rightarrow> string list" where
  "changed_files expected out = map fst (filter (\<lambda>f. jget out (fst f) \<noteq> Some (snd f)) expected)"

definition write_files :: "directory \<Rightarrow> string list \<Rightarrow> directory \<Rightarrow> directory" where
  "write_files expected names out = fold (\<lambda>n d. jset d n (the (jget expected n))) names out"

definition refreshProtocolFixtures ::
  "(string \<Rightarrow> string + json) \<Rightarrow> json_text \<Rightarrow> string \<Rightarrow> directory \<Rightarrow> bool \<Rightarrow> directory \<Rightarrow> string + (string list \<times> bool) \<times> directory" where
  "refreshProtocolFixtures parse t fromDir dir check out = (case loadFixtures parse t fromDir dir of
     Inl e \<Rightarrow> Inl e
   | Inr expected \<Rightarrow>
       (let changed = changed_files expected out
        in Inr ((changed, changed = []), if \<not> check \<and> changed \<noteq> [] then write_files expected changed out else out)))"

section \<open>The command\<close>

record refresh_args =
  ra_check :: bool
  ra_from :: "string option"
  ra_out :: "string option"

text \<open>An option at the end of the line takes \<open>undefined\<close>.\<close>

fun parse_args :: "string list \<Rightarrow> refresh_args \<Rightarrow> string + refresh_args" where
  "parse_args [] a = Inr a"
| "parse_args (arg # argv) a = (if arg = ''--check'' then parse_args argv (a\<lparr>ra_check := True\<rparr>)
     else if arg = ''--from'' then (case argv of [] \<Rightarrow> Inr (a\<lparr>ra_from := None\<rparr>) | x # rest \<Rightarrow> parse_args rest (a\<lparr>ra_from := Some x\<rparr>))
     else if arg = ''--out'' then (case argv of [] \<Rightarrow> Inr (a\<lparr>ra_out := None\<rparr>) | x # rest \<Rightarrow> parse_args rest (a\<lparr>ra_out := Some x\<rparr>))
     else Inl (''Unknown argument: '' @ arg))"

text \<open>The exit code; \<open>disk\<close> gives the directory of a path, and what was thrown ends with code 2.\<close>

definition refresh_main ::
  "(string \<Rightarrow> string + json) \<Rightarrow> json_text \<Rightarrow> string \<Rightarrow> string list \<Rightarrow> (string, directory) js_map \<Rightarrow> nat \<times> (string, directory) js_map" where
  "refresh_main parse t DEFAULT_OUT_DIR argv disk = (case parse_args argv \<lparr>ra_check = False, ra_from = None, ra_out = None\<rparr> of
     Inl e \<Rightarrow> (2, disk)
   | Inr a \<Rightarrow> if \<not> truthy_str (ra_from a) then (2, disk)
       else (case jget disk (the (ra_from a)) of
           None \<Rightarrow> (2, disk)
         | Some dir \<Rightarrow>
             (let dest = (case ra_out a of None \<Rightarrow> DEFAULT_OUT_DIR | Some d \<Rightarrow> d);
                  out = (case jget disk dest of None \<Rightarrow> [] | Some d \<Rightarrow> d)
              in case refreshProtocolFixtures parse t (the (ra_from a)) dir (ra_check a) out of
                   Inl e \<Rightarrow> (2, disk)
                 | Inr ((changed, upToDate), out') \<Rightarrow>
                     (if ra_check a \<and> \<not> upToDate then 1 else 0, if out' = out then disk else jset disk dest out'))))"

section \<open>The text is canonical\<close>

text \<open>Two values that differ in the order of the fields of their objects only, at any depth.\<close>

inductive reordered :: "json \<Rightarrow> json \<Rightarrow> bool" where
  Null: "reordered JNull JNull"
| Bool: "reordered (JBool b) (JBool b)"
| Num: "reordered (JNum n) (JNum n)"
| Str: "reordered (JStr s) (JStr s)"
| Arr: "list_all2 reordered xs ys \<Longrightarrow> reordered (JArr xs) (JArr ys)"
| Obj: "distinct (map fst fs) \<Longrightarrow> list_all2 (\<lambda>f g. fst f = fst g \<and> reordered (snd f) (snd g)) fs hs \<Longrightarrow> mset hs = mset gs \<Longrightarrow>
    reordered (JObj fs) (JObj gs)"

definition sort_field :: "string \<times> json \<Rightarrow> string \<times> json" where
  "sort_field f = (fst f, sort_keys (snd f))"

lemma insort_map: "insort_key k (f x) (map f xs) = map f (insort_key (k \<circ> f) x xs)"
  by (induction xs) simp_all

lemma sort_key_map: "sort_key k (map f xs) = map f (sort_key (k \<circ> f) xs)"
  by (induction xs) (simp_all add: insort_map comp_def)

lemma sort_keys_obj: "sort_keys (JObj fs) = JObj (fromEntries (sort_key fst (map sort_field fs)))"
proof -
  have "fst \<circ> sort_field = fst" by (rule ext) (simp add: sort_field_def)
  then have "sort_key fst (map sort_field fs) = map sort_field (sort_key fst fs)"
    by (simp add: sort_key_map)
  then show ?thesis by (simp add: sort_field_def [abs_def])
qed

lemma sort_key_unique: "mset xs = mset ys \<Longrightarrow> distinct (map fst xs) \<Longrightarrow> sort_key fst xs = sort_key fst ys"
  by (rule sort_key_inj_key_eq) (simp_all add: distinct_map)

lemma sort_keys_reordered: "reordered v w \<Longrightarrow> sort_keys v = sort_keys w"
proof (induction rule: reordered.induct)
  case (Arr xs ys)
  then have "map sort_keys xs = map sort_keys ys" by (auto simp: list_all2_conv_all_nth intro: nth_equalityI)
  then show ?case by simp
next
  case (Obj fs hs gs)
  then have same: "map sort_field fs = map sort_field hs" by (auto simp: list_all2_conv_all_nth sort_field_def intro: nth_equalityI)
  have "distinct (map fst (map sort_field fs))" using Obj.hyps(1) by (simp add: sort_field_def comp_def)
  then have "sort_key fst (map sort_field fs) = sort_key fst (map sort_field gs)"
    by (intro sort_key_unique) (simp_all add: same Obj.hyps(2) del: map_map)
  then show ?case by (simp only: sort_keys_obj)
qed simp_all

text \<open>
  The text of a fixture does not depend on the order in which the fields of its objects were written, at any depth: a
  source that only moves fields around changes no file.
\<close>

theorem fixture_text_canonical:
  assumes "reordered v w"
  shows "stableStringify t v = stableStringify t w \<and> (\<forall>name. validateFixture name v = Inr v \<longrightarrow> validateFixture name w = Inr w)"
proof (intro conjI allI impI)
  show "stableStringify t v = stableStringify t w" by (simp add: stableStringify_def sort_keys_reordered [OF assms])
next
  fix name assume valid: "validateFixture name v = Inr v"
  from assms show "validateFixture name w = Inr w"
  proof cases
    case (Obj fs hs gs)
    have related: "rel_option reordered (map_of fs k) (map_of hs k)" for k
      using Obj(4) by (induction rule: list_all2_induct) auto
    have "map fst fs = map fst hs" using Obj(4) by (auto simp: list_all2_conv_all_nth intro: nth_equalityI)
    then have dist: "distinct (map fst hs)" using Obj(3) by simp
    have "mset (map fst hs) = mset (map fst gs)" using Obj(5) by simp
    then have dist': "distinct (map fst gs)" using dist mset_eq_imp_distinct_iff by blast
    have "map_of hs = map_of gs" using map_of_inject_set [OF dist dist'] mset_eq_setD [OF Obj(5)] by blast
    then have rel: "rel_option reordered (jget fs k) (jget gs k)" for k using related [of k] by (simp add: jget_def)
    obtain n x where "jget fs ''protocolVersion'' = Some (JNum n)" "js_isInteger n" "jget fs ''name'' = Some (JStr x)" "js_trim x \<noteq> []"
      using valid Obj(1) by (auto simp: validateFixture_def split: if_splits option.splits json.splits)
    then show ?thesis using rel [of "''protocolVersion''"] rel [of "''name''"] Obj(2)
      by (auto simp: validateFixture_def option_rel_Some1 elim: reordered.cases)
  qed (use valid in \<open>simp_all add: validateFixture_def\<close>)
qed

section \<open>A refreshed directory is up to date\<close>

lemma written: "jget (write_files e ns out) k = (if k \<in> set ns then Some (the (jget e k)) else jget out k)"
  unfolding write_files_def by (induction ns arbitrary: out) (auto simp: jget_set)

lemma rendered_names: "render_fixtures parse t dir names = Inr e \<Longrightarrow> map fst e = names"
  by (induction names arbitrary: e) (auto split: sum.splits)

lemma loaded_distinct: "jwf dir \<Longrightarrow> loadFixtures parse t fromDir dir = Inr e \<Longrightarrow> distinct (map fst e)"
  by (auto simp: loadFixtures_def jwf_keys dest: rendered_names split: sum.splits if_splits)

lemma none_changed: "changed_files e out = [] \<longleftrightarrow> (\<forall>(n, c) \<in> set e. jget out n = Some c)"
  by (auto simp: changed_files_def filter_empty_conv)

lemma jget_member: "distinct (map fst e) \<Longrightarrow> (n, c) \<in> set e \<Longrightarrow> jget e n = Some c"
  by (simp add: jget_def)

text \<open>
  After a refresh every fixture stands in the destination with its canonical text, the other files of the destination are
  as they were, and a further run, checking or not, finds nothing to do. A check writes nothing.
\<close>

theorem refresh_up_to_date:
  assumes "jwf dir" and "refreshProtocolFixtures parse t fromDir dir check out = Inr ((changed, upToDate), out')"
  shows "\<exists>expected. loadFixtures parse t fromDir dir = Inr expected \<and> upToDate = (\<forall>(n, c) \<in> set expected. jget out n = Some c) \<and>
    (if check then out' = out
     else (\<forall>(n, c) \<in> set expected. jget out' n = Some c) \<and> (\<forall>n. n \<notin> set (jkeys expected) \<longrightarrow> jget out' n = jget out n) \<and>
       (\<forall>again. refreshProtocolFixtures parse t fromDir dir again out' = Inr (([], True), out')))"
proof -
  obtain e where e: "loadFixtures parse t fromDir dir = Inr e"
    using assms(2) by (auto simp: refreshProtocolFixtures_def split: sum.splits)
  have dist: "distinct (map fst e)" by (rule loaded_distinct [OF assms(1) e])
  have names: "set (changed_files e out) \<subseteq> set (jkeys e)" by (auto simp: changed_files_def jkeys_def)
  have finished: "jget (if changed_files e out \<noteq> [] then write_files e (changed_files e out) out else out) n = Some c" if "(n, c) \<in> set e" for n c
  proof (cases "jget out n = Some c")
    case True
    then show ?thesis using jget_member [OF dist that] by (simp add: written)
  next
    case False
    then have "n \<in> set (changed_files e out)" using that by (force simp: changed_files_def)
    then show ?thesis using jget_member [OF dist that] by (auto simp: written)
  qed
  show ?thesis
  proof (cases check)
    case True
    then show ?thesis using assms(2) by (auto simp: refreshProtocolFixtures_def e Let_def none_changed)
  next
    case False
    then have out': "out' = (if changed_files e out \<noteq> [] then write_files e (changed_files e out) out else out)"
      and up: "upToDate = (changed_files e out = [])"
      using assms(2) by (auto simp: refreshProtocolFixtures_def e Let_def)
    have all: "\<forall>(n, c) \<in> set e. jget out' n = Some c" using finished by (auto simp: out')
    then have "changed_files e out' = []" by (simp add: none_changed)
    then show ?thesis using False all up names
      by (intro exI [of _ e]) (auto simp: e none_changed refreshProtocolFixtures_def Let_def out' written)
  qed
qed

end
