(* ===== verification/Benchmarks.thy ===== *)
theory Benchmarks
  imports Values SimCache
begin

text \<open>
  The measurements of the repository: the benchmark runner of the \<open>sdk\<close> package with its comparison against a base branch
  (\<open>packages/sdk/scripts/benchmark.ts\<close>), the parser profile (\<open>packages/sdk/src/parser-benchmark.ts\<close> and
  \<open>scripts/lib/footprint-profile.mjs\<close>), and the comparison of crypto providers
  (\<open>packages/react-native/scripts/benchmark-crypto.cjs\<close>). Readings of the clock and what the measured code does are
  arguments; numbers are exact.
\<close>

section \<open>Numbers\<close>

text \<open>\<open>Number(x.toFixed(d))\<close>: the nearest number with \<open>d\<close> decimals, the larger in size of two.\<close>

definition to_fixed :: "nat \<Rightarrow> rat \<Rightarrow> rat" where
  "to_fixed d x = (let r = (\<lambda>y. of_int \<lfloor>y * 10 ^ d + 1 / 2\<rfloor> / 10 ^ d) in if x < 0 then - r (- x) else r x)"

fun fixed_number :: "nat \<Rightarrow> js_number \<Rightarrow> js_number" where
  "fixed_number d (Fin x) = Fin (to_fixed d x)"
| "fixed_number d x = x"

definition js_quotient :: "rat \<Rightarrow> rat \<Rightarrow> js_number" where
  "js_quotient a b = (if b \<noteq> 0 then Fin (a / b) else if a = 0 then NaN else if 0 < a then PosInf else NegInf)"

fun js_exceeds :: "js_number \<Rightarrow> rat \<Rightarrow> bool" where
  "js_exceeds (Fin x) y = (y < x)"
| "js_exceeds PosInf y = True"
| "js_exceeds _ y = False"

section \<open>The benchmark runner\<close>

definition ITERATIONS :: nat where
  "ITERATIONS = 100"

definition THRESHOLDS :: "(string, rat) js_map" where
  "THRESHOLDS = [(''extractKeysFromFootprint'', 20 / 100), (''classifyLedgerKey'', 30 / 100), (''classifyDeferredKeys'', 20 / 100),
     (''extractFootprintFromTransactionStreaming'', 30 / 100), (''detectArchivedKeys'', 20 / 100)]"

record benchmark_result =
  br_name :: string
  br_durationMs :: rat
  br_opsPerSecond :: js_number
  br_iterations :: nat

text \<open>The five benchmarks and how many operations an iteration counts for.\<close>

definition BENCHMARKS :: "(string \<times> nat) list" where
  "BENCHMARKS = [(''extractKeysFromFootprint'', 1), (''classifyLedgerKey'', 540), (''classifyDeferredKeys'', 1),
     (''extractFootprintFromTransactionStreaming'', 1), (''detectArchivedKeys'', 1)]"

definition benchmark_result_of :: "string \<Rightarrow> nat \<Rightarrow> rat \<Rightarrow> benchmark_result" where
  "benchmark_result_of name ops durationMs = \<lparr>br_name = name, br_durationMs = to_fixed 3 durationMs,
     br_opsPerSecond = fixed_number 1 (js_quotient (of_nat (ITERATIONS * ops) * 1000) durationMs), br_iterations = ITERATIONS\<rparr>"

definition runBenchmarks :: "(string \<Rightarrow> rat) \<Rightarrow> benchmark_result list" where
  "runBenchmarks duration = map (\<lambda>(name, ops). benchmark_result_of name ops (duration name)) BENCHMARKS"

record bench_comparison =
  bc_name :: string
  bc_baseDurationMs :: rat
  bc_prDurationMs :: rat
  bc_changePercent :: js_number
  bc_regression :: bool
  bc_threshold :: rat

definition base_map :: "benchmark_result list \<Rightarrow> (string, benchmark_result) js_map" where
  "base_map results = fold (\<lambda>r m. jset m (br_name r) r) results []"

definition threshold_of :: "string \<Rightarrow> rat" where
  "threshold_of name = (case jget THRESHOLDS name of None \<Rightarrow> 20 / 100 | Some t \<Rightarrow> t)"

definition change_percent :: "rat \<Rightarrow> rat \<Rightarrow> js_number" where
  "change_percent current base = (if base \<noteq> 0 then Fin ((current - base) / base * 100) else js_quotient (current - base) base)"

definition compare_result :: "benchmark_result \<Rightarrow> benchmark_result \<Rightarrow> bench_comparison" where
  "compare_result result base =
    (let change = change_percent (br_durationMs result) (br_durationMs base); threshold = threshold_of (br_name result)
     in \<lparr>bc_name = br_name result, bc_baseDurationMs = br_durationMs base, bc_prDurationMs = br_durationMs result,
         bc_changePercent = fixed_number 2 change, bc_regression = js_exceeds change (threshold * 100), bc_threshold = threshold\<rparr>)"

definition compareResults :: "benchmark_result list \<Rightarrow> benchmark_result list \<Rightarrow> bench_comparison list" where
  "compareResults current base = List.map_filter (\<lambda>result. map_option (compare_result result) (jget (base_map base) (br_name result))) current"

text \<open>The exit code; \<open>base\<close> is the parsed file of the base branch, if there is one.\<close>

definition benchmark_main :: "bool \<Rightarrow> (string \<Rightarrow> rat) \<Rightarrow> benchmark_result list option \<Rightarrow> nat \<times> bench_comparison list" where
  "benchmark_main compare duration base =
    (if \<not> compare then (0, [])
     else case base of
         None \<Rightarrow> (0, [])
       | Some b \<Rightarrow> (let comparisons = compareResults (runBenchmarks duration) b
           in (if filter bc_regression comparisons \<noteq> [] then 1 else 0, comparisons)))"

text \<open>The generated workloads: keys of three types in turn, with their number in hexadecimal.\<close>

record mock_key =
  mq_switch :: string
  mq_hex :: string

definition mock_key_of :: "nat \<Rightarrow> mock_key" where
  "mock_key_of i = \<lparr>mq_switch = [''contractData'', ''contractCode'', ''ttlEntry''] ! (i mod 3),
     mq_hex = padStart 8 (CHR ''0'') (nat_hex i)\<rparr>"

definition generateMockLedgerKeys :: "nat \<Rightarrow> mock_key list" where
  "generateMockLedgerKeys n = map mock_key_of [0..<n]"

definition mock_base64 :: "mock_key \<Rightarrow> string" where
  "mock_base64 k = ''b64:'' @ mq_hex k"

text \<open>\<open>slice\<close> cuts the decimals of its position off, so the first half is the smaller one.\<close>

definition generateMockFootprint :: "nat \<Rightarrow> mock_key list \<times> mock_key list" where
  "generateMockFootprint keyCount = (let keys = generateMockLedgerKeys keyCount
     in (take (keyCount div 2) keys, drop (keyCount div 2) keys))"

definition generateMockDeferredKeys :: "nat \<Rightarrow> (mock_key \<times> string) list" where
  "generateMockDeferredKeys n = map (\<lambda>k. (k, mock_base64 k)) (generateMockLedgerKeys n)"

text \<open>The loop of the last benchmark: the keys among the first hundred that are not live.\<close>

definition mock_archived :: "mock_key list" where
  "mock_archived = (let allKeys = generateMockLedgerKeys 100; liveSet = map mock_base64 (take 70 allKeys)
     in filter (\<lambda>k. \<not> List.member liveSet (mock_base64 k)) allKeys)"

text \<open>The table of a comparison; \<open>shown\<close> is the text of a number. Its header says Change for the Greek letter, and the status has no symbol.\<close>

definition change_sign :: "js_number \<Rightarrow> string" where
  "change_sign x = (case x of Fin q \<Rightarrow> if 0 \<le> q then ''+'' else [] | PosInf \<Rightarrow> ''+'' | _ \<Rightarrow> [])"

definition comparison_line :: "(js_number \<Rightarrow> string) \<Rightarrow> bench_comparison \<Rightarrow> string" where
  "comparison_line shown c = ''| '' @ bc_name c @ '' | '' @ shown (Fin (bc_baseDurationMs c)) @ '' | '' @ shown (Fin (bc_prDurationMs c)) @
     '' | '' @ change_sign (bc_changePercent c) @ shown (bc_changePercent c) @ ''% | '' @
     shown (Fin (to_fixed 0 (bc_threshold c * 100))) @ ''% | '' @ (if bc_regression c then ''REGRESSION'' else ''OK'') @ '' |''"

definition formatComparisonTable :: "(js_number \<Rightarrow> string) \<Rightarrow> bench_comparison list \<Rightarrow> string" where
  "formatComparisonTable shown comparisons = join_with [CHR 10]
     ([''| Benchmark | Base (ms) | PR (ms) | Change % | Threshold | Status |'', ''| --- | --- | --- | --- | --- | --- |''] @
      map (comparison_line shown) comparisons)"

section \<open>The parser profile\<close>

text \<open>\<open>parse k\<close> is what the call with number \<open>k\<close> does; calls are made in order until one throws.\<close>

fun calls_until_error :: "(nat \<Rightarrow> string + unit) \<Rightarrow> nat \<Rightarrow> nat \<Rightarrow> (string + unit) \<times> nat" where
  "calls_until_error parse k 0 = (Inr (), k)"
| "calls_until_error parse k (Suc n) = (case parse k of Inl e \<Rightarrow> (Inl e, Suc k) | Inr u \<Rightarrow> calls_until_error parse (Suc k) n)"

record parser_profile =
  pp_startupMs :: rat
  pp_iterations :: nat
  pp_steadyStateMeanMs :: rat
  pp_steadyStateOpsPerSec :: js_number

text \<open>The clock is read before and after the first call, and before and after the loop. The second component counts the calls.\<close>

definition measureParserPerformance ::
  "(nat \<Rightarrow> string + unit) \<Rightarrow> js_number \<Rightarrow> rat \<times> rat \<times> rat \<times> rat \<Rightarrow> (string + parser_profile) \<times> nat" where
  "measureParserPerformance parse iterations clock =
    (if \<not> js_isInteger iterations \<or> js_toInt iterations < 1 then (Inl ''iterations must be a positive integer'', 0)
     else case clock of (t0, t1, t2, t3) \<Rightarrow>
       (let n = nat (js_toInt iterations)
        in case calls_until_error parse 0 1 of
            (Inl e, k) \<Rightarrow> (Inl e, k)
          | (Inr u, k) \<Rightarrow> (case calls_until_error parse k n of
              (Inl e, k') \<Rightarrow> (Inl e, k')
            | (Inr u, k') \<Rightarrow> (let total = t3 - t2 in
                (Inr \<lparr>pp_startupMs = t1 - t0, pp_iterations = n, pp_steadyStateMeanMs = total / of_nat n,
                      pp_steadyStateOpsPerSec = (if 0 < total then Fin (of_nat (n * 1000) / total) else PosInf)\<rparr>, k')))))"

text \<open>The footprint that is profiled: three kinds of keys in turn, the first half of them read-only.\<close>

datatype profile_key = ProfileData nat | ProfileCode nat | ProfileTtl nat

definition profile_key_of :: "nat \<Rightarrow> profile_key" where
  "profile_key_of i = (if i mod 3 = 0 then ProfileData i else if i mod 3 = 1 then ProfileCode i else ProfileTtl i)"

definition buildFootprint :: "nat \<Rightarrow> profile_key list \<times> profile_key list" where
  "buildFootprint keyCount = (let keys = map profile_key_of [0..<keyCount]; half = length keys div 2 in (take half keys, drop half keys))"

definition median_of :: "rat list \<Rightarrow> rat" where
  "median_of readings = to_fixed 2 (sort readings ! (length readings div 2))"

definition profile_row :: "(string \<times> rat list) list \<Rightarrow> (string \<times> rat) list" where
  "profile_row samples = map (\<lambda>(k, readings). (k @ ''Ms'', median_of readings)) samples"

section \<open>Crypto providers\<close>

text \<open>A native module: its own function, and those of its members \<open>QuickCrypto\<close> and \<open>default\<close>, each if it is there.\<close>

record crypto_module =
  cm_own :: bool
  cm_QuickCrypto :: "bool option"
  cm_default :: "bool option"

definition loadQuickCrypto :: "crypto_module option \<Rightarrow> string option" where
  "loadQuickCrypto installed = (case installed of
     None \<Rightarrow> None
   | Some m \<Rightarrow>
       (let provides = (case cm_QuickCrypto m of Some f \<Rightarrow> f | None \<Rightarrow> (case cm_default m of Some f \<Rightarrow> f | None \<Rightarrow> cm_own m))
        in if provides then Some ''react-native-quick-crypto'' else None))"

definition loadExpoCrypto :: "crypto_module option \<Rightarrow> string option" where
  "loadExpoCrypto installed = (case installed of None \<Rightarrow> None | Some m \<Rightarrow> if cm_own m then Some ''expo-crypto'' else None)"

definition CRYPTO_ITERATIONS :: nat where
  "CRYPTO_ITERATIONS = 500"

record provider_timing =
  pt_name :: string
  pt_iterations :: nat
  pt_totalMs :: rat
  pt_avgUsPerOp :: rat

text \<open>One call before the clock starts is not counted.\<close>

definition measureProvider :: "string \<Rightarrow> rat \<Rightarrow> rat \<Rightarrow> provider_timing \<times> nat" where
  "measureProvider name start finish = (let totalMs = finish - start in
     (\<lparr>pt_name = name, pt_iterations = CRYPTO_ITERATIONS, pt_totalMs = totalMs,
       pt_avgUsPerOp = to_fixed 1 (totalMs / of_nat CRYPTO_ITERATIONS * 1000)\<rparr>, 1 + CRYPTO_ITERATIONS))"

datatype crypto_line = BenchHeader | NoProviders | ProviderLine provider_timing | Guidance

definition runCryptoBenchmark :: "crypto_module option \<Rightarrow> crypto_module option \<Rightarrow> (string \<Rightarrow> rat \<times> rat) \<Rightarrow> crypto_line list" where
  "runCryptoBenchmark quick expo clock =
    (let providers = List.map_filter id [loadQuickCrypto quick, loadExpoCrypto expo]
     in if providers = [] then [BenchHeader, NoProviders, Guidance]
        else BenchHeader # map (\<lambda>p. case clock p of (a, b) \<Rightarrow> ProviderLine (fst (measureProvider p a b))) providers @ [Guidance])"

section \<open>Properties\<close>

text \<open>The read-only half and the rest are the keys in their order.\<close>

lemma mock_keys_half:
  "fst (generateMockFootprint n) @ snd (generateMockFootprint n) = generateMockLedgerKeys n"
  "length (fst (generateMockFootprint n)) = n div 2"
  by (simp_all add: generateMockFootprint_def generateMockLedgerKeys_def Let_def)

text \<open>\<open>toFixed\<close> is off by half a unit of its last digit at most.\<close>

lemma to_fixed_close: "\<bar>to_fixed d x - x\<bar> \<le> 1 / (2 * 10 ^ d)"
proof -
  have near: "\<bar>of_int \<lfloor>y * 10 ^ d + 1 / 2\<rfloor> / 10 ^ d - y\<bar> \<le> 1 / (2 * 10 ^ d)" for y :: rat
  proof -
    let ?n = "of_int \<lfloor>y * 10 ^ d + 1 / 2\<rfloor> :: rat"
    have "\<bar>?n - y * 10 ^ d\<bar> \<le> 1 / 2" by linarith
    then have "\<bar>?n - y * 10 ^ d\<bar> / 10 ^ d \<le> 1 / 2 / 10 ^ d" by (rule divide_right_mono) simp
    moreover have "?n / 10 ^ d - y = (?n - y * 10 ^ d) / 10 ^ d" by (simp add: field_simps)
    ultimately show ?thesis by simp
  qed
  show ?thesis
  proof (cases "x < 0")
    case True
    have "\<bar>- r - x\<bar> = \<bar>r - - x\<bar>" for r :: rat by simp
    then show ?thesis using near [of "- x"] True by (simp add: to_fixed_def)
  qed (use near [of x] in \<open>simp add: to_fixed_def\<close>)
qed

lemma base_map_last:
  "jget (base_map rs) name = (let ys = filter (\<lambda>r. br_name r = name) rs in if ys = [] then None else Some (last ys))"
  unfolding base_map_def by (induction rs rule: rev_induct) (auto simp: jget_set Let_def)

text \<open>
  With a base to compare with, the run fails exactly when a benchmark of the base, whose recorded duration is not 0, got
  slower by more than its threshold, or one whose recorded duration is 0 takes any time; benchmarks without a base are not
  judged. Without a base, or without being asked to compare, it does not fail.
\<close>

lemma regression_iff:
  assumes "0 \<le> br_durationMs result" and "0 \<le> br_durationMs base"
  shows "bc_regression (compare_result result base) \<longleftrightarrow>
    (if br_durationMs base = 0 then 0 < br_durationMs result
     else br_durationMs base * (1 + threshold_of (br_name result)) < br_durationMs result)"
proof (cases "br_durationMs base = 0")
  case True
  then show ?thesis using assms by (simp add: compare_result_def change_percent_def js_quotient_def Let_def)
next
  case False
  then have "0 < br_durationMs base" using assms by simp
  then have "(t * 100 < (c - br_durationMs base) / br_durationMs base * 100) = (br_durationMs base * (1 + t) < c)" for t c
  proof -
    have "(t * 100 < (c - br_durationMs base) / br_durationMs base * 100) = (t < (c - br_durationMs base) / br_durationMs base)"
      by (rule mult_less_cancel_right_pos) simp
    also have "\<dots> = (t * br_durationMs base < c - br_durationMs base)" using \<open>0 < br_durationMs base\<close> by (rule pos_less_divide_eq)
    finally show ?thesis by (auto simp: algebra_simps)
  qed
  then show ?thesis using False by (simp add: compare_result_def change_percent_def Let_def)
qed

theorem comparison_fails_on_regression:
  assumes "\<forall>n. 0 \<le> duration n" and "list_all (\<lambda>r. 0 \<le> br_durationMs r) base"
  shows "fst (benchmark_main True duration (Some base)) = (if \<exists>r \<in> set (runBenchmarks duration). \<exists>b.
      jget (base_map base) (br_name r) = Some b \<and>
      (if br_durationMs b = 0 then 0 < br_durationMs r else br_durationMs b * (1 + threshold_of (br_name r)) < br_durationMs r) then 1 else 0) \<and>
    fst (benchmark_main False duration b') = 0 \<and> fst (benchmark_main True duration None) = 0"
proof -
  have nonneg: "0 \<le> to_fixed 3 x" if "0 \<le> x" for x
  proof -
    have "0 \<le> \<lfloor>x * 10 ^ 3 + 1 / 2\<rfloor>" using that by simp
    then have "(0::rat) \<le> of_int \<lfloor>x * 10 ^ 3 + 1 / 2\<rfloor>" by simp
    then show ?thesis using that by (simp add: to_fixed_def)
  qed
  have r: "0 \<le> br_durationMs r" if "r \<in> set (runBenchmarks duration)" for r
    using that assms(1) nonneg by (auto simp: runBenchmarks_def benchmark_result_of_def)
  have "0 \<le> br_durationMs b" if "jget (base_map base) n = Some b" for n b
  proof -
    have "b \<in> set (filter (\<lambda>r. br_name r = n) base)" using that last_in_set by (force simp: base_map_last Let_def split: if_splits)
    then show ?thesis using assms(2) by (simp add: list_all_iff)
  qed
  then have judged: "bc_regression (compare_result x b) = (if br_durationMs b = 0 then 0 < br_durationMs x
      else br_durationMs b * (1 + threshold_of (br_name x)) < br_durationMs x)"
    if "x \<in> set (runBenchmarks duration)" "jget (base_map base) (br_name x) = Some b" for x b
    using that r regression_iff by blast
  have compared: "set (compareResults (runBenchmarks duration) base) =
      {compare_result x b |x b. x \<in> set (runBenchmarks duration) \<and> jget (base_map base) (br_name x) = Some b}"
    by (auto simp: compareResults_def set_map_filter)
  have "(filter bc_regression (compareResults (runBenchmarks duration) base) = []) \<longleftrightarrow>
    \<not> (\<exists>r \<in> set (runBenchmarks duration). \<exists>b. jget (base_map base) (br_name r) = Some b \<and> bc_regression (compare_result r b))"
    unfolding filter_empty_conv compared by blast
  also have "\<dots> \<longleftrightarrow> \<not> (\<exists>r \<in> set (runBenchmarks duration). \<exists>b. jget (base_map base) (br_name r) = Some b \<and>
      (if br_durationMs b = 0 then 0 < br_durationMs r else br_durationMs b * (1 + threshold_of (br_name r)) < br_durationMs r))"
    by (simp only: judged cong: conj_cong bex_cong)
  finally have "(filter bc_regression (compareResults (runBenchmarks duration) base) \<noteq> []) \<longleftrightarrow> (\<exists>r \<in> set (runBenchmarks duration). \<exists>b.
      jget (base_map base) (br_name r) = Some b \<and>
      (if br_durationMs b = 0 then 0 < br_durationMs r else br_durationMs b * (1 + threshold_of (br_name r)) < br_durationMs r))"
    by blast
  then show ?thesis by (simp add: benchmark_main_def Let_def)
qed

text \<open>
  A profile is made of one call and then as many as asked for; the first error of a call ends it, and a count that is no
  positive integer is refused before any call. Mean and throughput agree.
\<close>

lemma calls_ok: "(\<forall>i. k \<le> i \<and> i < k + n \<longrightarrow> (\<exists>u. parse i = Inr u)) \<Longrightarrow> calls_until_error parse k n = (Inr (), k + n)"
proof (induction n arbitrary: k)
  case (Suc n)
  then obtain u where "parse k = Inr u" by auto
  then show ?case using Suc by simp
qed simp

theorem profile_counts_calls:
  assumes "0 < n" and "\<forall>i \<le> n. \<exists>u. parse i = Inr u" and "t2 < t3"
  shows "\<exists>r. measureParserPerformance parse (js_int (int n)) (t0, t1, t2, t3) = (Inr r, Suc n) \<and>
    pp_startupMs r = t1 - t0 \<and> pp_iterations r = n \<and> pp_steadyStateOpsPerSec r = Fin (1000 / pp_steadyStateMeanMs r)"
proof -
  have first: "calls_until_error parse 0 1 = (Inr (), 1)" using calls_ok [of 0 1 parse] assms(2) by simp
  have rest: "calls_until_error parse 1 n = (Inr (), Suc n)" using calls_ok [of 1 n parse] assms(2) by simp
  show ?thesis using assms(1,3) by (simp add: measureParserPerformance_def first [simplified] rest [simplified] Let_def field_simps)
qed

lemma profile_refuses: "\<not> js_isInteger x \<or> js_toInt x < 1 \<Longrightarrow> measureParserPerformance parse x clock = (Inl ''iterations must be a positive integer'', 0)"
  by (simp add: measureParserPerformance_def)

lemma footprint_split: "fst (buildFootprint n) @ snd (buildFootprint n) = map profile_key_of [0..<n] \<and> distinct (fst (buildFootprint n) @ snd (buildFootprint n))"
proof -
  have "inj profile_key_of" by (rule injI) (auto simp: profile_key_of_def split: if_splits)
  then have "distinct (map profile_key_of [0..<n])" by (simp add: distinct_map inj_on_subset [OF _ subset_UNIV])
  then show ?thesis by (simp add: buildFootprint_def Let_def del: distinct_append)
qed

text \<open>Half of the readings are not above the median, but for rounding, and half are not below it.\<close>

lemma median_between:
  assumes "readings \<noteq> []"
  shows "length readings div 2 < length (filter (\<lambda>x. x \<le> sort readings ! (length readings div 2)) readings)"
proof -
  let ?s = "sort readings" and ?k = "length readings div 2"
  have k: "?k < length ?s" using assms by simp
  have "set (take (Suc ?k) ?s) \<subseteq> {x. x \<le> ?s ! ?k}"
    using k sorted_nth_mono [of ?s] by (auto simp: in_set_conv_nth)
  then have "filter (\<lambda>x. x \<le> ?s ! ?k) (take (Suc ?k) ?s) = take (Suc ?k) ?s" by (auto simp: filter_id_conv)
  then have "filter (\<lambda>x. x \<le> ?s ! ?k) (take (Suc ?k) ?s @ drop (Suc ?k) ?s) =
      take (Suc ?k) ?s @ filter (\<lambda>x. x \<le> ?s ! ?k) (drop (Suc ?k) ?s)" by (simp only: filter_append)
  then have "length (filter (\<lambda>x. x \<le> ?s ! ?k) ?s) = length (take (Suc ?k) ?s) + length (filter (\<lambda>x. x \<le> ?s ! ?k) (drop (Suc ?k) ?s))"
    unfolding append_take_drop_id by (simp only: length_append)
  then have "Suc ?k \<le> length (filter (\<lambda>x. x \<le> ?s ! ?k) ?s)" using k by simp
  moreover have "length (filter P ?s) = length (filter P readings)" for P
    by (metis mset_filter mset_sort size_mset)
  ultimately show ?thesis by simp
qed

text \<open>The guidance is the last line; before it stands a line for each provider that is there, in a fixed order.\<close>

theorem provider_lines:
  "last (runCryptoBenchmark quick expo clock) = Guidance \<and>
   (NoProviders \<in> set (runCryptoBenchmark quick expo clock) \<longleftrightarrow> loadQuickCrypto quick = None \<and> loadExpoCrypto expo = None) \<and>
   List.map_filter (\<lambda>l. case l of ProviderLine t \<Rightarrow> Some (pt_name t) | _ \<Rightarrow> None) (runCryptoBenchmark quick expo clock) =
     List.map_filter id [loadQuickCrypto quick, loadExpoCrypto expo]"
  by (cases "loadQuickCrypto quick"; cases "loadExpoCrypto expo")
     (auto simp: runCryptoBenchmark_def List.map_filter_def Let_def measureProvider_def split: prod.split)

end
