(* ===== verification/ReleaseTools.thy ===== *)
theory ReleaseTools
  imports ProtocolFixtures JsonRpc Benchmarks
begin

text \<open>
  The tools of a release: the check that every file a manifest points at is packed (\<open>scripts/verify-release.mjs\<close>), the
  licences of the packages (\<open>scripts/sync-licenses.mjs\<close>), the version (\<open>scripts/set-version.mjs\<close>), the export maps as a
  consumer sees them (\<open>scripts/lib/consumer.mjs\<close>, \<open>scripts/verify-exports.mjs\<close>) with their budgets
  (\<open>scripts/bundle-cost.mjs\<close>), and the report on dependencies (\<open>.github/scripts/dependency-impact.mjs\<close>). Manifests are
  JSON values; what \<open>npm\<close>, \<open>node\<close> and the bundler answer is an argument; console lines are left out.
\<close>

section \<open>JSON fields\<close>

definition json_field :: "json \<Rightarrow> string \<Rightarrow> json option" where
  "json_field v k = (case v of JObj fs \<Rightarrow> jget fs k | _ \<Rightarrow> None)"

fun js_truthy :: "json \<Rightarrow> bool" where
  "js_truthy JNull = False"
| "js_truthy (JBool b) = b"
| "js_truthy (JNum n) = (n \<noteq> NaN \<and> n \<noteq> Fin 0)"
| "js_truthy (JStr s) = (s \<noteq> [])"
| "js_truthy (JArr xs) = True"
| "js_truthy (JObj fs) = True"

definition field_truthy :: "json \<Rightarrow> string \<Rightarrow> bool" where
  "field_truthy v k = (case json_field v k of None \<Rightarrow> False | Some x \<Rightarrow> js_truthy x)"

definition field_text :: "json \<Rightarrow> string \<Rightarrow> string" where
  "field_text v k = (case json_field v k of Some (JStr s) \<Rightarrow> s | _ \<Rightarrow> ''undefined'')"

text \<open>\<open>[...new Set(xs)]\<close>.\<close>

definition js_unique :: "'a list \<Rightarrow> 'a list" where
  "js_unique xs = rev (remdups (rev xs))"

lemma js_unique_simps [simp]: "set (js_unique xs) = set xs" "distinct (js_unique xs)"
  by (simp_all add: js_unique_def)

section \<open>Packed files\<close>

definition normalise :: "string \<Rightarrow> string" where
  "normalise path = (if take 2 path = ''./'' then drop 2 path else path)"

fun collectExportTargets :: "json \<Rightarrow> string list" where
  "collectExportTargets (JStr s) = [s]"
| "collectExportTargets (JArr xs) = concat (map collectExportTargets xs)"
| "collectExportTargets (JObj fs) = concat (map (\<lambda>f. collectExportTargets (snd f)) fs)"
| "collectExportTargets v = []"

definition string_fields :: "json \<Rightarrow> string list \<Rightarrow> string list" where
  "string_fields pkg ks = List.map_filter (\<lambda>k. case json_field pkg k of Some (JStr s) \<Rightarrow> Some s | _ \<Rightarrow> None) ks"

definition referenced_targets :: "json \<Rightarrow> string list" where
  "referenced_targets pkg = string_fields pkg [''main'', ''module'', ''types'', ''typings''] @
     (case json_field pkg ''exports'' of None \<Rightarrow> [] | Some e \<Rightarrow> collectExportTargets e)"

definition missing_targets :: "json \<Rightarrow> string list \<Rightarrow> string list" where
  "missing_targets pkg packedPaths =
    filter (\<lambda>t. \<not> List.member (map normalise packedPaths) t) (js_unique (map normalise (referenced_targets pkg)))"

definition findPackageProblems :: "json \<Rightarrow> string list \<Rightarrow> string list" where
  "findPackageProblems pkg packedPaths = map (\<lambda>target. field_text pkg ''name'' @ '': '' @ [CHR 0x22] @ target @ [CHR 0x22] @
     '' is referenced by package.json but not included in the packed tarball'') (missing_targets pkg packedPaths)"

definition publishable :: "json \<Rightarrow> bool" where
  "publishable pkg \<longleftrightarrow> \<not> field_truthy pkg ''private'' \<and> field_truthy pkg ''name''"

text \<open>A workspace with what \<open>npm pack\<close> lists for it: the exit code and the problems.\<close>

definition verify_release :: "(json \<times> string list) list \<Rightarrow> nat \<times> string list" where
  "verify_release workspaces =
    (let problems = concat (map (\<lambda>(pkg, packed). findPackageProblems pkg packed) (filter (\<lambda>w. publishable (fst w)) workspaces))
     in (if problems \<noteq> [] then 1 else 0, problems))"

section \<open>Licences\<close>

text \<open>An entry of the packages directory; \<open>Inl\<close> is a manifest that does not parse.\<close>

record package_dir =
  pd_entry :: string
  pd_isDirectory :: bool
  pd_manifest :: "(string + json) option"
  pd_license :: "string option"

definition declares_license :: "json \<Rightarrow> bool" where
  "declares_license pkg \<longleftrightarrow> \<not> field_truthy pkg ''private'' \<and>
     (case json_field pkg ''files'' of Some (JArr files) \<Rightarrow> list_ex (\<lambda>f. f = JStr ''LICENSE'') files | _ \<Rightarrow> False)"

text \<open>\<open>None\<close>: a manifest that does not parse, or is \<open>null\<close>, ends the run.\<close>

definition licensed :: "package_dir \<Rightarrow> bool option" where
  "licensed p = (if \<not> pd_isDirectory p then Some False else case pd_manifest p of
     None \<Rightarrow> Some False
   | Some (Inl e) \<Rightarrow> None
   | Some (Inr JNull) \<Rightarrow> None
   | Some (Inr pkg) \<Rightarrow> Some (declares_license pkg))"

definition sync_package :: "bool \<Rightarrow> string \<Rightarrow> package_dir \<Rightarrow> package_dir" where
  "sync_package checkOnly rootText p = (if licensed p = Some True \<and> pd_license p \<noteq> Some rootText \<and> \<not> checkOnly
     then p\<lparr>pd_license := Some rootText\<rparr> else p)"

definition sync_licenses :: "bool \<Rightarrow> string option \<Rightarrow> package_dir list option \<Rightarrow> nat \<times> package_dir list option" where
  "sync_licenses checkOnly rootLicense packages = (case rootLicense of
     None \<Rightarrow> (1, packages)
   | Some rootText \<Rightarrow> (case packages of
       None \<Rightarrow> (1, packages)
     | Some ps \<Rightarrow>
         if list_ex (\<lambda>p. licensed p = None) ps then (1, packages)
         else if \<not> list_ex (\<lambda>p. licensed p = Some True) ps then (0, packages)
         else (if checkOnly \<and> list_ex (\<lambda>p. licensed p = Some True \<and> pd_license p \<noteq> Some rootText) ps then 1 else 0,
               Some (map (sync_package checkOnly rootText) ps))))"

section \<open>The version\<close>

definition version_part :: "string \<Rightarrow> string option" where
  "version_part s = (if s = [] \<or> \<not> is_digit (hd s) then None else Some (dropWhile is_digit s))"

definition version_dot :: "string \<Rightarrow> string option" where
  "version_dot s = (case s of c # cs \<Rightarrow> if c = CHR ''.'' then Some cs else None | [] \<Rightarrow> None)"

definition prerelease_char :: "char \<Rightarrow> bool" where
  "prerelease_char c = (let n = (of_char c :: nat) in is_digit c \<or> 97 \<le> n \<and> n \<le> 122 \<or> 65 \<le> n \<and> n \<le> 90 \<or> c = CHR ''_'' \<or> c = CHR ''.'')"

text \<open>\<open>/^\d+\.\d+\.\d+(?:-[\w.]+)?$/\<close>: each repetition ends at the character that comes next in the expression.\<close>

definition valid_version :: "string \<Rightarrow> bool" where
  "valid_version s = (case Option.bind (version_part s) (\<lambda>s. Option.bind (version_dot s) (\<lambda>s. Option.bind (version_part s) (\<lambda>s.
       Option.bind (version_dot s) version_part))) of
     None \<Rightarrow> False
   | Some [] \<Rightarrow> True
   | Some (c # cs) \<Rightarrow> c = CHR ''-'' \<and> cs \<noteq> [] \<and> list_all prerelease_char cs)"

definition packageJsonFiles :: "string list" where
  "packageJsonFiles = [''package.json'', ''packages/sdk/package.json'', ''packages/react/package.json'', ''packages/mock-rpc/package.json'']"

text \<open>Assigning to a field of a value that is no object throws; of an array the field is not printed.\<close>

definition with_version :: "string \<Rightarrow> json \<Rightarrow> json option" where
  "with_version v pkg = (case pkg of JObj fs \<Rightarrow> Some (JObj (jset fs ''version'' (JStr v))) | JArr xs \<Rightarrow> Some (JArr xs) | _ \<Rightarrow> None)"

definition bump_file :: "(string \<Rightarrow> string + json) \<Rightarrow> json_text \<Rightarrow> string \<Rightarrow> string \<Rightarrow> directory \<Rightarrow> directory" where
  "bump_file parse t v path disk = (case jget disk path of
     None \<Rightarrow> disk
   | Some text \<Rightarrow> (case parse text of
       Inl e \<Rightarrow> disk
     | Inr pkg \<Rightarrow> (case with_version v pkg of
         None \<Rightarrow> disk
       | Some new \<Rightarrow> jset disk path (stringify t 0 new @ [CHR 10]))))"

definition VERSION_TS :: string where
  "VERSION_TS = ''packages/sdk/src/version.ts''"

definition version_ts :: "string \<Rightarrow> string" where
  "version_ts v = ''// This file is auto-generated by scripts/set-version.mjs during semantic-release.'' @ [CHR 10] @
     ''// Do not edit by hand - version bumps are driven by Conventional Commits.'' @ [CHR 10] @
     ''export const VERSION = '' @ [CHR 0x27] @ v @ [CHR 0x27, CHR 10]"

definition set_version :: "(string \<Rightarrow> string + json) \<Rightarrow> json_text \<Rightarrow> string option \<Rightarrow> directory \<Rightarrow> nat \<times> directory" where
  "set_version parse t version disk = (case version of
     None \<Rightarrow> (1, disk)
   | Some v \<Rightarrow> if \<not> valid_version v then (1, disk)
       else (0, jset (fold (bump_file parse t v) packageJsonFiles disk) VERSION_TS (version_ts v)))"

section \<open>Export maps\<close>

record export_entry =
  ee_subpath :: string
  ee_specifier :: string
  ee_conditions :: "(string \<times> json) list"

definition exportEntries :: "json \<Rightarrow> export_entry list" where
  "exportEntries pkg =
    (let name = field_text pkg ''name'';
         exp = (case json_field pkg ''exports'' of Some (JObj fs) \<Rightarrow> fs | Some (JStr s) \<Rightarrow> [(''.'', JStr s)] | _ \<Rightarrow> [])
     in map (\<lambda>(subpath, target). \<lparr>ee_subpath = subpath,
          ee_specifier = (if subpath = ''.'' then name else name @ ''/'' @ normalise subpath),
          ee_conditions = (case target of JStr s \<Rightarrow> [(''default'', JStr s)] | JObj fs \<Rightarrow> fs | _ \<Rightarrow> [])\<rparr>) exp)"

definition condition_set :: "export_entry \<Rightarrow> string \<Rightarrow> bool" where
  "condition_set e k = (case jget (ee_conditions e) k of None \<Rightarrow> False | Some x \<Rightarrow> js_truthy x)"

datatype export_check = FileExists string string | NodeImport string | NodeRequire string | Bundles string string bool

definition export_checks :: "export_entry \<Rightarrow> export_check list" where
  "export_checks e =
    map (\<lambda>(cond, target). FileExists (ee_specifier e) cond) (ee_conditions e) @
    (if condition_set e ''import'' \<or> condition_set e ''require'' \<or> (condition_set e ''default'' \<and> \<not> condition_set e ''react-native'')
     then [NodeImport (ee_specifier e)] else []) @
    (if condition_set e ''require'' then [NodeRequire (ee_specifier e)] else []) @
    map (\<lambda>platform. Bundles (ee_specifier e) platform (condition_set e ''react-native'')) [''browser'', ''node'']"

text \<open>\<open>passes\<close> tells whether a check throws nothing; only built packages are checked, and there must be one.\<close>

definition verify_exports :: "(export_check \<Rightarrow> bool) \<Rightarrow> (json \<times> bool) list \<Rightarrow> nat \<times> export_check list" where
  "verify_exports passes packages =
    (let built = map fst (filter snd packages);
         failures = filter (\<lambda>c. \<not> passes c) (concat (map export_checks (concat (map exportEntries built))))
     in if built = [] then (1, []) else (if failures \<noteq> [] then 1 else 0, failures))"

text \<open>An entry of the packages directory with its manifest, if it has one, and whether it is built.\<close>

definition listed_package :: "json \<Rightarrow> bool" where
  "listed_package pkg \<longleftrightarrow> \<not> field_truthy pkg ''private'' \<and> field_truthy pkg ''exports''"

definition listPackages :: "(json option \<times> bool) list \<Rightarrow> (json \<times> bool) list" where
  "listPackages entries = filter (\<lambda>(pkg, built). listed_package pkg)
     (List.map_filter (\<lambda>(manifest, built). map_option (\<lambda>pkg. (pkg, built)) manifest) entries)"

definition peerExternals :: "json \<Rightarrow> string list" where
  "peerExternals pkg = js_unique (concat (map (\<lambda>k. case json_field pkg k of Some (JObj fs) \<Rightarrow> jkeys fs | _ \<Rightarrow> []) [''dependencies'', ''peerDependencies'']))"

text \<open>
  What the temporary consumer has under \<open>node_modules\<close>: the packages as they are packed, and links to what the
  workspace has installed.
\<close>

record consumer =
  cs_unpacked :: "string list"
  cs_linked :: "string list"

definition createConsumer :: "(string \<Rightarrow> bool) \<Rightarrow> json list \<Rightarrow> consumer" where
  "createConsumer installed packages =
    (let unpacked = map (\<lambda>pkg. field_text pkg ''name'') packages;
         deps = js_unique (concat (map peerExternals packages))
     in \<lparr>cs_unpacked = unpacked, cs_linked = filter (\<lambda>d. \<not> List.member unpacked d \<and> installed d) deps\<rparr>)"

text \<open>No package is taken from the workspace in place of its tarball, and a dependency is there when it can be.\<close>

lemma consumer_complete:
  assumes "c = createConsumer installed packages" and "pkg \<in> set packages" and "d \<in> set (peerExternals pkg)"
  shows "distinct (cs_linked c) \<and> set (cs_linked c) \<inter> set (cs_unpacked c) = {} \<and>
    (d \<in> set (cs_linked c) \<union> set (cs_unpacked c) \<longleftrightarrow> installed d \<or> d \<in> set (cs_unpacked c))"
  using assms by (auto simp: createConsumer_def Let_def)

section \<open>Budgets\<close>

record budget =
  bd_gzipBytes :: "rat option"
  bd_importMs :: "rat option"

record cost_row =
  cr_specifier :: string
  cr_minBytes :: nat
  cr_gzipBytes :: rat
  cr_importMs :: rat
  cr_budget :: "budget option"

definition web_entry :: "export_entry \<Rightarrow> bool" where
  "web_entry e \<longleftrightarrow> \<not> (condition_set e ''react-native'' \<and> \<not> condition_set e ''import'')"

text \<open>The middle of the sorted readings, and the later of the two middle ones when there is an even number.\<close>

definition median_reading :: "rat list \<Rightarrow> rat" where
  "median_reading readings = sort readings ! (length readings div 2)"

definition set_limit :: "rat option \<Rightarrow> rat option" where
  "set_limit b = (if b = Some 0 then None else b)"

datatype over_budget = OverGzip string rat rat | OverImport string rat rat

definition budget_overruns :: "cost_row \<Rightarrow> over_budget list" where
  "budget_overruns r = (case cr_budget r of
     None \<Rightarrow> []
   | Some b \<Rightarrow>
       (case set_limit (bd_gzipBytes b) of None \<Rightarrow> [] | Some m \<Rightarrow> if m < cr_gzipBytes r then [OverGzip (cr_specifier r) (cr_gzipBytes r) m] else []) @
       (case set_limit (bd_importMs b) of None \<Rightarrow> [] | Some m \<Rightarrow> if m < cr_importMs r then [OverImport (cr_specifier r) (cr_importMs r) m] else []))"

definition bundle_cost :: "cost_row list \<Rightarrow> nat \<times> over_budget list" where
  "bundle_cost rows = (let over = concat (map budget_overruns rows) in (if over \<noteq> [] then 1 else 0, over))"

text \<open>
  The rows: \<open>bundled\<close> gives the size of the minified bundle and of its compressed form, \<open>readings\<close> the import times.
  Without a reading there is no median, and the run ends with an error.
\<close>

definition cost_row_of ::
  "(string \<Rightarrow> nat \<times> nat) \<Rightarrow> (string \<Rightarrow> rat list) \<Rightarrow> (string, budget) js_map \<Rightarrow> export_entry \<Rightarrow> cost_row" where
  "cost_row_of bundled readings budgets e = \<lparr>cr_specifier = ee_specifier e, cr_minBytes = fst (bundled (ee_specifier e)),
     cr_gzipBytes = of_nat (snd (bundled (ee_specifier e))), cr_importMs = to_fixed 2 (median_reading (readings (ee_specifier e))),
     cr_budget = jget budgets (ee_specifier e)\<rparr>"

definition bundle_rows ::
  "(string \<Rightarrow> nat \<times> nat) \<Rightarrow> (string \<Rightarrow> rat list) \<Rightarrow> (string, budget) js_map \<Rightarrow> json list \<Rightarrow> cost_row list option" where
  "bundle_rows bundled readings budgets packages =
    (let entries = filter web_entry (concat (map exportEntries packages))
     in if list_ex (\<lambda>e. readings (ee_specifier e) = []) entries then None
        else Some (map (cost_row_of bundled readings budgets) entries))"

text \<open>The run fails exactly when an entry is over a limit that is set.\<close>

definition within_budget :: "cost_row \<Rightarrow> bool" where
  "within_budget r \<longleftrightarrow> (\<forall>b. cr_budget r = Some b \<longrightarrow>
     (\<forall>m. bd_gzipBytes b = Some m \<longrightarrow> m = 0 \<or> cr_gzipBytes r \<le> m) \<and>
     (\<forall>m. bd_importMs b = Some m \<longrightarrow> m = 0 \<or> cr_importMs r \<le> m))"

lemma overruns_iff: "budget_overruns r = [] \<longleftrightarrow> within_budget r"
proof -
  have "set_limit x = Some m \<longleftrightarrow> x = Some m \<and> m \<noteq> 0" "set_limit (Some m) = None \<longleftrightarrow> m = 0" for x m
    by (auto simp: set_limit_def)
  then show ?thesis
    by (cases "cr_budget r") (auto simp: budget_overruns_def within_budget_def not_less split: option.splits)
qed

theorem budgets_kept: "fst (bundle_cost rows) = (if \<forall>r \<in> set rows. within_budget r then 0 else 1)"
  by (auto simp: bundle_cost_def Let_def overruns_iff)

section \<open>Dependencies\<close>

text \<open>
  A tree of \<open>npm ls\<close>. \<open>npm\<close> writes a version as a text; an empty one counts as none. The accumulator is an object, so a
  package that occurs twice has the version of its last occurrence.
\<close>

lemma json_member_size: "(k, x) \<in> set fs \<Longrightarrow> size x < size (JObj fs)"
  by (induction fs) auto

function flatten_tree :: "json \<Rightarrow> (string, string) js_map \<Rightarrow> (string, string) js_map" where
  "flatten_tree (JObj fs) acc = (case jget fs ''dependencies'' of
     Some (JObj deps) \<Rightarrow> fold (\<lambda>d m. flatten_tree (snd d)
         (case json_field (snd d) ''version'' of Some (JStr v) \<Rightarrow> if v \<noteq> [] then jset m (fst d) v else m | _ \<Rightarrow> m)) deps acc
   | _ \<Rightarrow> acc)"
| "flatten_tree JNull acc = acc"
| "flatten_tree (JBool b) acc = acc"
| "flatten_tree (JNum n) acc = acc"
| "flatten_tree (JStr t) acc = acc"
| "flatten_tree (JArr xs) acc = acc"
  by pat_completeness auto
termination
proof (relation "measure (\<lambda>(v, acc). size v)")
  fix fs acc v deps d and m :: "(string, string) js_map"
  assume "jget fs ''dependencies'' = Some v" "v = JObj deps" "d \<in> set deps"
  then have "(''dependencies'', JObj deps) \<in> set fs" "(fst d, snd d) \<in> set deps" by (auto simp: jget_def dest: map_of_SomeD)
  then have "size (JObj deps) < size (JObj fs)" "size (snd d) < size (JObj deps)" by (blast intro: json_member_size)+
  then show "((snd d, case json_field (snd d) ''version'' of Some (JStr v) \<Rightarrow> if v \<noteq> [] then jset m (fst d) v else m | _ \<Rightarrow> m), JObj fs, acc)
      \<in> measure (\<lambda>(v, acc). size v)" by simp
qed simp

text \<open>\<open>n in before\<close> and \<open>before[n]\<close> also see what every object inherits; \<open>None\<close> is such a member.\<close>

definition in_object :: "(string, string) js_map \<Rightarrow> string \<Rightarrow> bool" where
  "in_object m n \<longleftrightarrow> jget m n \<noteq> None \<or> List.member OBJECT_PROTOTYPE n"

record dependency_report =
  dr_changed :: "string list"
  dr_added :: "string list"
  dr_removed :: "string list"
  dr_changelogs :: "string list"

definition dependency_impact :: "(string, string) js_map \<Rightarrow> (string, string) js_map \<Rightarrow> dependency_report" where
  "dependency_impact before after =
    (let names = sort (js_unique (jkeys before @ jkeys after));
         added = filter (\<lambda>n. \<not> in_object before n) names;
         removed = filter (\<lambda>n. in_object before n \<and> \<not> in_object after n) names;
         changed = filter (\<lambda>n. in_object before n \<and> in_object after n \<and> jget before n \<noteq> jget after n) names
     in \<lparr>dr_changed = changed, dr_added = added, dr_removed = removed,
         dr_changelogs = (if changed \<noteq> [] then changed else added)\<rparr>)"

section \<open>What the checks decide\<close>

text \<open>The files a manifest points at: what its string fields name, and every text anywhere inside \<open>exports\<close>.\<close>

inductive text_inside :: "json \<Rightarrow> string \<Rightarrow> bool" where
  "text_inside (JStr s) s"
| "x \<in> set xs \<Longrightarrow> text_inside x s \<Longrightarrow> text_inside (JArr xs) s"
| "(k, x) \<in> set fs \<Longrightarrow> text_inside x s \<Longrightarrow> text_inside (JObj fs) s"

inductive_simps text_inside_simps [simp]:
  "text_inside JNull s" "text_inside (JBool b) s" "text_inside (JNum n) s" "text_inside (JStr t) s" "text_inside (JArr xs) s" "text_inside (JObj fs) s"

lemma targets_text: "s \<in> set (collectExportTargets v) \<longleftrightarrow> text_inside v s"
  by (induction v rule: collectExportTargets.induct) (auto, force+)

definition points_at :: "json \<Rightarrow> string \<Rightarrow> bool" where
  "points_at pkg s \<longleftrightarrow> (\<exists>k \<in> {''main'', ''module'', ''types'', ''typings''}. json_field pkg k = Some (JStr s)) \<or>
     (\<exists>e. json_field pkg ''exports'' = Some e \<and> text_inside e s)"

lemma referenced_points: "s \<in> set (referenced_targets pkg) \<longleftrightarrow> points_at pkg s"
proof -
  have "s \<in> set (string_fields pkg ks) \<longleftrightarrow> (\<exists>k \<in> set ks. json_field pkg k = Some (JStr s))" for ks
  proof -
    have "(case v of Some (JStr x) \<Rightarrow> Some x | _ \<Rightarrow> None) = Some s \<longleftrightarrow> v = Some (JStr s)" for v
      by (cases v) (auto split: json.split)
    then show ?thesis by (simp add: string_fields_def set_map_filter)
  qed
  then show ?thesis by (auto simp: referenced_targets_def points_at_def targets_text split: option.splits)
qed

text \<open>
  The release check succeeds exactly when every file that a published manifest points at is packed, a leading \<open>./\<close> apart;
  a file that is missing is reported once for its package.
\<close>

theorem release_check_exact:
  "fst (verify_release ws) = (if \<forall>(pkg, packed) \<in> set ws. publishable pkg \<longrightarrow>
      (\<forall>s. points_at pkg s \<longrightarrow> normalise s \<in> normalise ` set packed) then 0 else 1) \<and>
   distinct (missing_targets pkg packed)"
proof
  have missing: "missing_targets p q = [] \<longleftrightarrow> (\<forall>s. points_at p s \<longrightarrow> normalise s \<in> normalise ` set q)" for p q
    by (auto simp: missing_targets_def filter_empty_conv referenced_points [symmetric])
  have "snd (verify_release ws) = [] \<longleftrightarrow> (\<forall>(pkg, packed) \<in> set ws. publishable pkg \<longrightarrow> missing_targets pkg packed = [])"
    by (auto simp: verify_release_def findPackageProblems_def)
  then show "fst (verify_release ws) = (if \<forall>(pkg, packed) \<in> set ws. publishable pkg \<longrightarrow>
      (\<forall>s. points_at pkg s \<longrightarrow> normalise s \<in> normalise ` set packed) then 0 else 1)"
    by (simp add: missing) (auto simp: verify_release_def Let_def)
  show "distinct (missing_targets pkg packed)" by (simp add: missing_targets_def)
qed

lemma licensed_update [simp]: "licensed (p\<lparr>pd_license := l\<rparr>) = licensed p"
  by (simp add: licensed_def)

lemma licensed_sync [simp]: "licensed (sync_package c rootText p) = licensed p"
  by (simp add: sync_package_def)

text \<open>
  After the licences were copied the check finds no difference, a second run writes nothing, and packages that declare no
  licence are as they were. A check writes nothing.
\<close>

theorem licences_in_sync:
  assumes "sync_licenses checkOnly rootText (Some ps) = (0, Some qs)"
  shows "(if checkOnly then qs = ps else \<forall>again. sync_licenses again rootText (Some qs) = (0, Some qs)) \<and>
    length qs = length ps \<and> (\<forall>i < length ps. licensed (ps ! i) = Some True \<longrightarrow> pd_license (qs ! i) = rootText) \<and>
    (\<forall>i < length ps. licensed (ps ! i) \<noteq> Some True \<longrightarrow> qs ! i = ps ! i)"
proof -
  obtain r where r: "rootText = Some r" using assms by (cases rootText) (simp_all add: sync_licenses_def)
  show ?thesis
  proof (cases "list_ex (\<lambda>p. licensed p = Some True) ps")
    case False
    then have "qs = ps" using assms by (auto simp: sync_licenses_def r split: if_splits)
    then show ?thesis using assms False by (auto simp: sync_licenses_def r list_ex_iff split: if_splits)
  next
    case True
    then have qs: "qs = map (sync_package checkOnly r) ps" and readable: "\<not> list_ex (\<lambda>p. licensed p = None) ps"
      and same: "checkOnly \<Longrightarrow> \<not> list_ex (\<lambda>p. licensed p = Some True \<and> pd_license p \<noteq> Some r) ps"
      using assms by (auto simp: sync_licenses_def r split: if_splits)
    have "sync_package True r = id" by (rule ext) (simp add: sync_package_def)
    moreover have "sync_package again r (sync_package False r p) = sync_package False r p" for again p
      by (simp add: sync_package_def)
    ultimately show ?thesis using readable same True
      by (cases checkOnly) (auto simp: qs r sync_licenses_def list_ex_iff sync_package_def list_all_iff)
  qed
qed

text \<open>Each name stands in at most one list, sorted; with an own version on one side only it is new or removed.\<close>

theorem dependency_report_exact:
  assumes "n \<notin> set OBJECT_PROTOTYPE"
  shows "(n \<in> set (dr_added (dependency_impact before after)) \<longleftrightarrow> jget before n = None \<and> jget after n \<noteq> None) \<and>
    (n \<in> set (dr_removed (dependency_impact before after)) \<longleftrightarrow> jget before n \<noteq> None \<and> jget after n = None) \<and>
    (n \<in> set (dr_changed (dependency_impact before after)) \<longleftrightarrow>
      jget before n \<noteq> None \<and> jget after n \<noteq> None \<and> jget before n \<noteq> jget after n)"
  using assms by (auto simp: dependency_impact_def Let_def in_object_def jkeys_jget)

text \<open>A new package with the name of an inherited member is reported as a changed one.\<close>

lemma inherited_name_not_new:
  "dr_added (dependency_impact [] [(''constructor'', ''1'')]) = [] \<and> dr_changed (dependency_impact [] [(''constructor'', ''1'')]) = [''constructor'']"
proof -
  have "js_unique [''constructor''] = [''constructor'']" by (simp add: js_unique_def)
  moreover have "''constructor'' \<in> set OBJECT_PROTOTYPE" by (simp add: OBJECT_PROTOTYPE_def)
  ultimately show ?thesis by (simp add: dependency_impact_def in_object_def jget_def jkeys_def Let_def)
qed

text \<open>A bumped manifest has the version and its other fields; a file that is not listed, or does not parse, is kept.\<close>

lemma bump_other: "path' \<noteq> path \<Longrightarrow> jget (bump_file parse t v path disk) path' = jget disk path'"
  by (auto simp: bump_file_def jget_set split: option.split sum.split)

lemma bump_twice:
  "path \<notin> set paths \<Longrightarrow> jget (fold (bump_file parse t v) paths disk) path = jget disk path"
  by (induction paths arbitrary: disk) (auto simp: bump_other)

lemma bump_listed:
  "distinct paths \<Longrightarrow> path \<in> set paths \<Longrightarrow>
   jget (fold (bump_file parse t v) paths disk) path = jget (bump_file parse t v path disk) path"
proof (induction paths arbitrary: disk)
  case (Cons p ps)
  show ?case
  proof (cases "p = path")
    case True
    then show ?thesis using Cons.prems bump_twice [of path ps] by simp
  next
    case False
    then have "jget (bump_file parse t v p disk) path = jget disk path" by (simp add: bump_other)
    then have "jget (bump_file parse t v path (bump_file parse t v p disk)) path = jget (bump_file parse t v path disk) path"
      by (simp add: bump_file_def split: option.split sum.split) (auto simp: jget_set split: option.split sum.split)
    then show ?thesis using Cons False by simp
  qed
qed simp

theorem version_everywhere:
  assumes "set_version parse t (Some v) disk = (0, disk')" and "path \<in> set packageJsonFiles"
    and "jget disk path = Some text" and "parse text = Inr (JObj fs)"
  shows "jget disk' path = Some (stringify t 0 (JObj (jset fs ''version'' (JStr v))) @ [CHR 10]) \<and>
    jget disk' VERSION_TS = Some (version_ts v) \<and> (k \<noteq> ''version'' \<longrightarrow> jget (jset fs ''version'' (JStr v)) k = jget fs k)"
proof -
  have d: "disk' = jset (fold (bump_file parse t v) packageJsonFiles disk) VERSION_TS (version_ts v)"
    using assms(1) by (simp add: set_version_def split: if_splits)
  have "path \<noteq> VERSION_TS" "distinct packageJsonFiles" using assms(2) by (auto simp: packageJsonFiles_def VERSION_TS_def)
  then show ?thesis using assms(2-4) by (simp add: d jget_set bump_listed bump_file_def with_version_def)
qed

end
