(* ===== verification/Spec2Isabelle.thy ===== *)
theory Spec2Isabelle
  imports Recovery Concurrent FeeSponsorship RedactUrl WsProbe Utils WasmParser
    SdkReceipt SdkSharing SdkConcurrent SdkStreams ServerAction ClientAccessors
    AuthEntries Tracing Container Version Telemetry Diagnostics
    WalletProps WalletErrors WalletConnectProps WalletProviderProps ReactWallets
    Bindings VueListeners Progress NativeCrypto TxWizard ExamplePage
    MockHandlers MockFixtures Codemod ReleaseTools Benchmarks
begin

text \<open>
  A verification library for the TypeScript packages under \<open>src/packages\<close>: a client that finds out which ledger
  entries a Soroban transaction needs are archived, restores them in batches, and submits the transaction; the RPC
  layer under it; the wallets that sign; and the bindings that show all this in a user interface.

  \<^bold>\<open>The program and its model.\<close> Every theory opens with the files it models; definitions keep the names of the code,
  with a prefix where two packages use one name (\<open>sdk_\<close> for the client of \<open>packages/sdk\<close>).

  \<^item> Shared vocabulary: \<open>Prelude\<close> (JavaScript maps as association lists in insertion order, strings, stable sorting,
    numbers with \<open>NaN\<close>), \<open>Values\<close> (JSON), \<open>Errors\<close> (\<open>errors/src\<close>).
  \<^item> RPC layer (\<open>rpc/src\<close>): \<open>Retry\<close> (policies, circuit breaker, \<open>withRetry\<close>, \<open>Retry-After\<close>), \<open>SimCache\<close>, \<open>Failover\<close>,
    \<open>Limiter\<close>, \<open>JsonRpc\<close> (transport, envelopes, response schemas, method probe), \<open>FootprintCache\<close> (the cache and the
    accessors of the clients), \<open>RedactUrl\<close>, \<open>LedgerReads\<close> (the read coalescer and the event deduplicator of \<open>sdk/src\<close>),
    \<open>Utils\<close> (polling, deprecations, XDR diagnostics).
  \<^item> Restore engine of \<open>core/src/soroban-resurrect.ts\<close>: \<open>Footprint\<close> and \<open>Batching\<close> (what to restore, in which batches),
    \<open>Client\<close> (state, events, \<open>retryOnFailure\<close>, simulation), \<open>Submit\<close> (signing, sending, waiting), \<open>RestoreFlow\<close> (building
    and executing), \<open>RestoreRun\<close>, \<open>RestoreProps\<close>, \<open>RestoreOutcome\<close>, \<open>Recovery\<close>; \<open>ConcurrentRun\<close> and \<open>Concurrent\<close> for the
    concurrent execution over the limiter; \<open>WsProbe\<close> (web socket probe, signatures of a fee bump); \<open>FeeSponsorship\<close>;
    \<open>WasmParser\<close> (the loader and the fallbacks of \<open>footprint-parser-wasm\<close>).
  \<^item> Client of \<open>sdk/src/soroban-resurrect.ts\<close>, a second version of the engine: \<open>SdkFootprint\<close>, \<open>SdkClient\<close>, \<open>SdkDetect\<close>
    (\<open>simulate\<close>, \<open>detectArchivedKeys\<close>, \<open>simulateDiff\<close>), \<open>SdkSubmit\<close>, \<open>SdkRestore\<close>, \<open>SdkRun\<close>, \<open>SdkFlow\<close>, \<open>SdkProps\<close>,
    \<open>SdkOutcome\<close>, \<open>SdkLimits\<close>, \<open>SdkReceipt\<close>, \<open>SdkSharing\<close>, \<open>SdkConcurrent\<close>, \<open>SdkStreams\<close> (the observables);
    \<open>ServerAction\<close> (\<open>next/src\<close>) runs this client; \<open>ClientAccessors\<close> has what both clients offer beside restoration.
  \<^item> Services of \<open>sdk/src\<close>: \<open>AuthEntries\<close>, \<open>Metrics\<close>, \<open>Monitoring\<close>, \<open>Tracing\<close>, \<open>Container\<close>, \<open>Version\<close>, \<open>Diagnostics\<close>
    (spans, loggers, messages, string hash); \<open>Telemetry\<close> (\<open>telemetry/src\<close>).
  \<^item> Wallets: \<open>Wallets\<close> and \<open>WalletProps\<close> (the manager of \<open>wallet-adapters/src\<close>), \<open>Adapters\<close>, \<open>DeviceAdapters\<close> and
    \<open>AdapterProps\<close> (Freighter, xBull, Albedo, Lobstr, Rabet, Ledger), \<open>ClientAdapters\<close> (those of \<open>sdk\<close> and \<open>react\<close>),
    \<open>WalletErrors\<close> (\<open>wallet-adapter/src\<close>), \<open>WalletConnect\<close> and \<open>WalletConnectProps\<close>
    (\<open>sdk/src/walletconnect-adapter.ts\<close>), \<open>WalletProvider\<close> and \<open>WalletProviderProps\<close> (\<open>react/src/wallet\<close>),
    \<open>ReactWallets\<close> (the adapters of \<open>react\<close> method by method, \<open>useActiveWallet\<close>, the contexts).
  \<^item> User interfaces: \<open>UiBindings\<close> (the Vue composable, and the React middleware and reducer), \<open>Bindings\<close> (Svelte, Angular,
    Jotai, the list of wallets), \<open>VueListeners\<close>, \<open>ReactHook\<close>, \<open>Progress\<close> (\<open>react/src/hooks/useProgress.ts\<close>),
    \<open>NativeCrypto\<close> (\<open>react-native/src\<close>), \<open>ExampleApp\<close>, \<open>TxWizard\<close> and \<open>ExamplePage\<close>
    (the logic of \<open>example/src\<close>).
  \<^item> The mock server of \<open>mock-rpc/src\<close>: \<open>MockLedger\<close>, \<open>MockServer\<close>, \<open>MockFixtures\<close> (recording to a file
    and replay), and \<open>MockHandlers\<close> (\<open>server.ts\<close>).
  \<^item> Tools: \<open>Codemod\<close> (\<open>scripts/codemods\<close>), \<open>ProtocolFixtures\<close>, \<open>ReleaseTools\<close> (the release scripts of \<open>scripts\<close> and the
    dependency report of \<open>.github/scripts\<close>), \<open>Benchmarks\<close>.

  \<^bold>\<open>How code becomes definitions.\<close> The state of an object is a record, a method a function from state to result and
  state, with errors as the left side of a sum. A call to the network, a wallet, the clock or a package outside of
  \<open>src\<close> is answered by a parameter: for the two clients by oracles over the history of calls, which the state
  records, so that statements about what was signed and sent are statements about this history; elsewhere by an
  argument of the operation. Where operations interleave (manager, provider, WalletConnect, limiter, coalescer,
  shared submissions) an operation is split at its \<open>await\<close>s and runs are lists of events or a step relation.

  \<^bold>\<open>What the lemmas show.\<close> Each component has its invariant and the lemmas that every operation keeps it
  (\<open>\<dots>_ok\<close>, \<open>\<dots>_run\<close>); functional behaviour is stated on every branch; optimised or stateful code is compared with a
  reference (recounts for metrics, alerts and deduplication, TTL maps for the caches, base64 groups for the
  diagnosis, one model for the bindings of three frameworks, an abstract session for all wallet adapters).
  Interfaces are locales, interpreted on the model:
  \<open>wallet_session\<close> and \<open>wallet_contract\<close> in \<open>AdapterProps\<close> for six adapters, and the call-history locales of the
  clients. The properties follow the components: never signing for another network, confirmation before success,
  restoration before the original transaction, exact batches, retry limits, well-formedness under every
  interleaving, caches that change no answer, round trips of receipts, trace headers, sessions and exported history.

  \<^bold>\<open>Bounds and fuel.\<close> Loops with a counter (\<open>retryOnFailure\<close>, \<open>pollForReceipt\<close>, \<open>pollWithRetry\<close>) recurse on the number
  of attempts the configuration allows, so they end by construction and their results are those of the code;
  loops over lists are structural. The only loop that may run for ever, \<open>createBatches\<close> with a negative batch size,
  is a partial function whose divergence is proved. Integers of JavaScript are integers here where the code stays
  within the safe range; the 32-bit hash of the simulation cache is computed on words.

  \<^bold>\<open>Not modelled.\<close> The body of \<open>executeWithRestore\<close> in the React hook \<open>useSorobanResurrect.ts\<close>, where its file breaks
  off; markup, styles and animation of the example application; the Markdown of the dependency report; the interactive
  console and build files; the Rust side of \<open>footprint-parser-wasm\<close>; re-exports (\<open>compat\<close>, \<open>index.ts\<close>) and the message
  catalogs beside the English one; the log lines of the clients; \<open>stellar-sdk-adapter\<close>, which hands calls on. Where the
  file of the \<open>sdk\<close> client interleaves two versions of a body (\<open>detectArchivedKeys\<close>, \<open>simulateDiff\<close>), both are modelled, each
  from its own lines, as \<open>SdkDetect\<close> says.
\<close>

end
